(* ===== verification/Prelude.thy ===== *)
theory Prelude
  imports Complex_Main "HOL-Library.Sublist" "HOL-Library.AList"
begin

text \<open>
  Shared vocabulary of the development: the Python values the sources use (text, dictionaries,
  JSON, instants), the exceptions they raise, and the SQL idioms of the services (select with a
  filter, update with a filter, first row, at most one row) over tables kept as lists of rows.
  Nothing in this theory is specific to one component.
\<close>

named_theorems table_simps \<open>selection and update of rows\<close>
named_theorems text_simps \<open>facts on Python text\<close>

section \<open>Exceptions and results\<close>

text \<open>
  One constructor per exception class that a modelled line raises or lets through. The text is
  the message (the code that the API layer maps to a response), without interpolated values.
  \<open>External\<close> is any exception that a call outside the repository raises; its two texts are the
  class name and the message.
\<close>

datatype exn =
    LookupError string
  | ValueError string
  | RuntimeError string
  | PermissionError string
  | TimeoutError string
  | KeyError string
  | IndexError
  | AttributeError
  | IntegrityError string
  | MultipleResultsFound
  | HTTPException nat string
  | InsufficientCreditError string
  | TypeError string
  | External string string

type_synonym 'a result = "exn + 'a"

definition is_error :: "'a result \<Rightarrow> bool" where
  "is_error r = (case r of Inl _ \<Rightarrow> True | Inr _ \<Rightarrow> False)"

lemma is_error_simps [simp]: "is_error (Inl e)" "\<not> is_error (Inr x)"
  by (simp_all add: is_error_def)

lemma not_is_error_iff: "\<not> is_error r \<longleftrightarrow> (\<exists>x. r = Inr x)"
  by (cases r) auto

section \<open>Instants and durations\<close>

text \<open>
  An aware \<open>datetime\<close> is the number of microseconds since the epoch (Python's resolution), in
  UTC; a \<open>timedelta\<close> is a number of microseconds.
\<close>

type_synonym datetime = int
type_synonym uuid = nat

definition seconds :: "int \<Rightarrow> int" where "seconds n = n * 1000000"
definition minutes :: "int \<Rightarrow> int" where "minutes n = seconds (60 * n)"
definition hours :: "int \<Rightarrow> int" where "hours n = seconds (3600 * n)"
definition days :: "int \<Rightarrow> int" where "days n = seconds (86400 * n)"

lemmas duration_defs = seconds_def minutes_def hours_def days_def

section \<open>Text\<close>

text \<open>
  A Python \<open>str\<close> is a list of code points; \<open>char\<close> has the code points 0 to 255 (Latin-1), which
  holds every French letter of the sources but not the ligature oe nor the euro sign. The
  predicates below are Python's on that range.
\<close>

abbreviation code_point :: "char \<Rightarrow> nat" where
  "code_point c \<equiv> of_char c"

definition is_space :: "char \<Rightarrow> bool" where
  "is_space c = (let n = code_point c in
     (9 \<le> n \<and> n \<le> 13) \<or> (28 \<le> n \<and> n \<le> 32) \<or> n = 133 \<or> n = 160)"

definition is_digit :: "char \<Rightarrow> bool" where
  "is_digit c = (let n = code_point c in 48 \<le> n \<and> n \<le> 57)"

definition is_word :: "char \<Rightarrow> bool" where
  \<comment> \<open>the class \<open>\w\<close> of the module \<open>re\<close>: alphanumeric or underscore\<close>
  "is_word c = (let n = code_point c in
     (48 \<le> n \<and> n \<le> 57) \<or> (65 \<le> n \<and> n \<le> 90) \<or> n = 95 \<or> (97 \<le> n \<and> n \<le> 122)
     \<or> n \<in> {170, 178, 179, 181, 185, 186, 188, 189, 190}
     \<or> (192 \<le> n \<and> n \<le> 255 \<and> n \<noteq> 215 \<and> n \<noteq> 247))"

definition lower_char :: "char \<Rightarrow> char" where
  "lower_char c = (let n = code_point c in
     if (65 \<le> n \<and> n \<le> 90) \<or> (192 \<le> n \<and> n \<le> 222 \<and> n \<noteq> 215)
     then char_of (n + 32) else c)"

definition lower :: "string \<Rightarrow> string" where
  "lower s = map lower_char s"

definition lstrip :: "string \<Rightarrow> string" where
  "lstrip s = dropWhile is_space s"

definition strip :: "string \<Rightarrow> string" where
  "strip s = rev (lstrip (rev (lstrip s)))"

fun contains :: "string \<Rightarrow> string \<Rightarrow> bool" where
  \<comment> \<open>\<open>contains w s\<close> is Python's \<open>w in s\<close>\<close>
  "contains w [] = (w = [])"
| "contains w (c # cs) = (take (length w) (c # cs) = w \<or> contains w cs)"

fun split_words :: "string \<Rightarrow> string \<Rightarrow> string list" where
  \<comment> \<open>the accumulator holds the current word, reversed\<close>
  "split_words acc [] = (if acc = [] then [] else [rev acc])"
| "split_words acc (c # cs) =
     (if is_space c then (if acc = [] then split_words [] cs else rev acc # split_words [] cs)
      else split_words (c # acc) cs)"

definition split_ws :: "string \<Rightarrow> string list" where
  \<comment> \<open>\<open>s.split()\<close> without an argument\<close>
  "split_ws s = split_words [] s"

fun join :: "string \<Rightarrow> string list \<Rightarrow> string" where
  "join sep [] = []"
| "join sep [w] = w"
| "join sep (w # ws) = w @ sep @ join sep ws"

lemma contains_iff_sublist: "contains w s \<longleftrightarrow> sublist w s"
proof (induction s)
  case Nil
  then show ?case by simp
next
  case (Cons c cs)
  have "take (length w) (c # cs) = w \<longleftrightarrow> prefix w (c # cs)"
    by (metis append_eq_conv_conj prefix_def take_is_prefix)
  with Cons show ?case by (simp add: sublist_Cons_right)
qed

lemma contains_self [text_simps]: "contains s s"
  by (simp add: contains_iff_sublist)

lemma contains_empty [text_simps]: "contains [] s"
  by (simp add: contains_iff_sublist)

lemma contains_append_left [text_simps]: "contains w s \<Longrightarrow> contains w (s @ t)"
  by (simp add: contains_iff_sublist sublist_appendI sublist_append)

lemma contains_append_right [text_simps]: "contains w t \<Longrightarrow> contains w (s @ t)"
  by (simp add: contains_iff_sublist sublist_append)

lemma contains_trans: "contains u v \<Longrightarrow> contains v w \<Longrightarrow> contains u w"
  by (auto simp: contains_iff_sublist)

lemma lower_append [text_simps]: "lower (s @ t) = lower s @ lower t"
  by (simp add: lower_def)

lemma length_lower [simp]: "length (lower s) = length s"
  by (simp add: lower_def)

lemma lower_char_idem [simp]: "lower_char (lower_char c) = lower_char c"
proof (cases "(65 \<le> code_point c \<and> code_point c \<le> 90) \<or>
              (192 \<le> code_point c \<and> code_point c \<le> 222 \<and> code_point c \<noteq> 215)")
  case True
  then have "code_point c + 32 < 256" by linarith
  then have "code_point (char_of (code_point c + 32) :: char) = code_point c + 32"
    by simp
  with True show ?thesis
    by (simp add: lower_char_def Let_def) linarith
next
  case False
  then have "lower_char c = c" by (auto simp: lower_char_def Let_def)
  then show ?thesis by simp
qed

lemma lower_idem [simp]: "lower (lower s) = lower s"
  by (simp add: lower_def)

lemma set_strip: "set (strip s) \<subseteq> set s"
  unfolding strip_def lstrip_def
  by (auto dest!: set_dropWhileD)

section \<open>Dictionaries and JSON\<close>

text \<open>
  A \<open>dict\<close> is its items in insertion order; assigning an existing key keeps its place and a new
  key goes last, which is \<^const>\<open>AList.update\<close>. \<open>dict_update d e\<close> is \<open>d.update(e)\<close> and also
  \<open>{**d, **e}\<close>. JSON numbers with a fraction are exact rationals.
\<close>

type_synonym ('k, 'v) dict = "('k \<times> 'v) list"

definition dict_get :: "('k, 'v) dict \<Rightarrow> 'k \<Rightarrow> 'v option" where
  "dict_get d k = map_of d k"

definition dict_set :: "'k \<Rightarrow> 'v \<Rightarrow> ('k, 'v) dict \<Rightarrow> ('k, 'v) dict" where
  "dict_set k v d = AList.update k v d"

definition dict_update :: "('k, 'v) dict \<Rightarrow> ('k, 'v) dict \<Rightarrow> ('k, 'v) dict" where
  "dict_update d e = fold (\<lambda>(k, v). dict_set k v) e d"

lemma dict_get_set [simp]: "dict_get (dict_set k v d) k' = (if k' = k then Some v else dict_get d k')"
  by (simp add: dict_get_def dict_set_def update_conv')

lemma dict_get_update:
  "dict_get (dict_update d e) k = (case dict_get (rev e) k of Some v \<Rightarrow> Some v | None \<Rightarrow> dict_get d k)"
proof (induction e arbitrary: d)
  case Nil
  then show ?case by (simp add: dict_update_def dict_get_def)
next
  case (Cons p e)
  have "dict_update d (p # e) = dict_update (dict_set (fst p) (snd p) d) e"
    by (simp add: dict_update_def case_prod_beta)
  with Cons show ?case
    by (auto simp: dict_get_def map_add_def dict_set_def update_conv' split: option.splits)
qed

lemma dict_get_update_keep: "k \<notin> fst ` set e \<Longrightarrow> dict_get (dict_update d e) k = dict_get d k"
  by (subst dict_get_update) (simp add: dict_get_def map_of_eq_None_iff [THEN iffD2])

datatype json =
    JNull
  | JBool bool
  | JInt int
  | JFloat rat
  | JStr string
  | JList "json list"
  | JObj "(string \<times> json) list"

section \<open>Tables\<close>

text \<open>
  A table is the list of its rows in insertion order. \<open>find_row P t\<close> is
  \<open>db.scalar(select(T).where(P))\<close> (the first row or \<open>None\<close>), \<open>one_or_none\<close> is
  \<open>scalar_one_or_none()\<close>, \<open>update_where P f t\<close> is \<open>UPDATE T SET f WHERE P\<close>, and \<open>latest key t\<close> is
  \<open>order_by(key.desc()).limit(1)\<close>; SQL leaves the choice among equal keys open and the model
  takes the row inserted last.
\<close>

definition find_row :: "('r \<Rightarrow> bool) \<Rightarrow> 'r list \<Rightarrow> 'r option" where
  "find_row P t = List.find P t"

definition one_or_none :: "'r list \<Rightarrow> 'r option result" where
  "one_or_none rows = (case rows of [] \<Rightarrow> Inr None | [r] \<Rightarrow> Inr (Some r) | _ \<Rightarrow> Inl MultipleResultsFound)"

definition update_where :: "('r \<Rightarrow> bool) \<Rightarrow> ('r \<Rightarrow> 'r) \<Rightarrow> 'r list \<Rightarrow> 'r list" where
  "update_where P f t = map (\<lambda>r. if P r then f r else r) t"

fun latest :: "('r \<Rightarrow> 'k::linorder) \<Rightarrow> 'r list \<Rightarrow> 'r option" where
  "latest key [] = None"
| "latest key (r # t) =
     (case latest key t of None \<Rightarrow> Some r | Some m \<Rightarrow> if key m < key r then Some r else Some m)"

lemma find_row_Nil [simp]: "find_row P [] = None"
  by (simp add: find_row_def)

lemma find_row_Cons [simp]: "find_row P (r # t) = (if P r then Some r else find_row P t)"
  by (simp add: find_row_def)

lemma find_row_append [table_simps]:
  "find_row P (t @ u) = (case find_row P t of None \<Rightarrow> find_row P u | Some r \<Rightarrow> Some r)"
  by (induction t) auto

lemma find_row_SomeD: "find_row P t = Some r \<Longrightarrow> r \<in> set t \<and> P r"
  by (induction t) (auto split: if_splits)

lemma find_row_None_iff: "find_row P t = None \<longleftrightarrow> (\<forall>r\<in>set t. \<not> P r)"
  by (induction t) auto

lemma find_row_exists: "r \<in> set t \<Longrightarrow> P r \<Longrightarrow> \<exists>r'. find_row P t = Some r'"
  by (induction t) auto

lemma update_where_Nil [simp]: "update_where P f [] = []"
  by (simp add: update_where_def)

lemma update_where_Cons [simp]:
  "update_where P f (r # t) = (if P r then f r else r) # update_where P f t"
  by (simp add: update_where_def)

lemma length_update_where [simp]: "length (update_where P f t) = length t"
  by (simp add: update_where_def)

lemma set_update_where: "set (update_where P f t) = (\<lambda>r. if P r then f r else r) ` set t"
  by (simp add: update_where_def)

lemma update_where_rowE:
  assumes "r' \<in> set (update_where P f t)"
  obtains r where "r \<in> set t" "P r" "r' = f r" | "r' \<in> set t" "\<not> P r'"
  using assms by (auto simp: set_update_where split: if_splits)

lemma update_where_none: "(\<forall>r\<in>set t. \<not> P r) \<Longrightarrow> update_where P f t = t"
  by (induction t) auto

text \<open>An update that keeps the key keeps every selection by the key, up to the update.\<close>

lemma find_update_where [table_simps]:
  assumes "\<And>r. Q (f r) = Q r"
  shows "find_row Q (update_where P f t) = map_option (\<lambda>r. if P r then f r else r) (find_row Q t)"
  using assms by (induction t) auto

lemma map_update_where [table_simps]:
  assumes "\<And>r. key (f r) = key r"
  shows "map key (update_where P f t) = map key t"
  using assms by (induction t) auto

lemma filter_update_where [table_simps]:
  assumes "\<And>r. Q (f r) = Q r"
  shows "filter Q (update_where P f t) = update_where P f (filter Q t)"
  using assms by (induction t) auto

lemma filter_key_unique: "distinct (map key t) \<Longrightarrow> r \<in> set t \<Longrightarrow> filter (\<lambda>x. key x = key r) t = [r]"
  by (induction t) (auto simp: filter_empty_conv image_iff)

lemma one_or_none_unique: "distinct (map key t) \<Longrightarrow> r \<in> set t \<Longrightarrow> one_or_none (filter (\<lambda>x. key x = key r) t) = Inr (Some r)"
  by (simp add: filter_key_unique one_or_none_def)

text \<open>
  \<open>insert_new key r t\<close> is \<open>INSERT ... ON CONFLICT (key) DO NOTHING RETURNING id\<close>: it says whether the
  row went in.
\<close>

definition insert_new :: "('r \<Rightarrow> 'k) \<Rightarrow> 'r \<Rightarrow> 'r list \<Rightarrow> bool \<times> 'r list" where
  "insert_new key r t = (if key r \<in> key ` set t then (False, t) else (True, t @ [r]))"

lemma insert_new_distinct: "distinct (map key t) \<Longrightarrow> distinct (map key (snd (insert_new key r t)))"
  by (auto simp: insert_new_def)

lemma insert_new_keys: "key ` set (snd (insert_new key r t)) = insert (key r) (key ` set t)"
  by (auto simp: insert_new_def)

lemma insert_new_old: "key r \<in> key ` set t \<Longrightarrow> insert_new key r t = (False, t)"
  by (simp add: insert_new_def)

lemma insert_new_again: "key r' = key r \<Longrightarrow>
    insert_new key r' (snd (insert_new key r t)) = (False, snd (insert_new key r t))"
  by (auto simp: insert_new_def)

lemma latest_None_iff [simp]: "latest key t = None \<longleftrightarrow> t = []"
  by (cases t) (auto split: option.splits)

lemma latest_SomeD: "latest key t = Some m \<Longrightarrow> m \<in> set t \<and> (\<forall>r\<in>set t. key r \<le> key m)"
proof (induction t arbitrary: m)
  case Nil
  then show ?case by simp
next
  case (Cons r t)
  show ?case
  proof (cases "latest key t")
    case None
    then have "t = []" by simp
    with Cons.prems show ?thesis by simp
  next
    case (Some x)
    with Cons.IH [OF Some] Cons.prems show ?thesis
      by (fastforce split: if_splits)
  qed
qed

text \<open>
  A page of a list view: \<open>order_by(key.desc()).limit(limit).offset(offset)\<close>, with the choice of
  \<open>latest\<close> among equal keys.
\<close>

definition newest_first :: "('r \<Rightarrow> 'k::linorder) \<Rightarrow> 'r list \<Rightarrow> 'r list" where
  "newest_first key rows = rev (sort_key key rows)"

definition page :: "nat \<Rightarrow> nat \<Rightarrow> 'r list \<Rightarrow> 'r list" where
  "page limit offset rows = take limit (drop offset rows)"

lemma set_newest_first [simp]: "set (newest_first key rows) = set rows"
  by (simp add: newest_first_def)

lemma length_newest_first [simp]: "length (newest_first key rows) = length rows"
  by (simp add: newest_first_def)

lemma set_page: "set (page limit offset rows) \<subseteq> set rows"
  unfolding page_def by (meson set_drop_subset set_take_subset subset_trans)

lemma page_all [simp]: "length rows \<le> limit \<Longrightarrow> page limit 0 rows = rows"
  by (simp add: page_def)

definition delete_where :: "('r \<Rightarrow> bool) \<Rightarrow> 'r list \<Rightarrow> nat \<times> 'r list" where
  \<comment> \<open>\<open>DELETE FROM T WHERE P\<close> with its row count\<close>
  "delete_where P t = (length (filter P t), filter (\<lambda>r. \<not> P r) t)"

section \<open>String enumerations\<close>

text \<open>
  A \<open>StrEnum\<close> class is a datatype with a function to the member values. Calling the class on a
  string finds the member of that value, and raises \<open>ValueError\<close> when there is none.
\<close>

definition enum_parse :: "('e \<Rightarrow> string) \<Rightarrow> 'e list \<Rightarrow> string \<Rightarrow> 'e option" where
  "enum_parse val members s = find_row (\<lambda>e. val e = s) members"

locale str_enum =
  fixes val :: "'e \<Rightarrow> string" and members :: "'e list"
  assumes inj_val: "val e = val e' \<Longrightarrow> e = e'"
    and members_all: "e \<in> set members"
begin

lemma parse_SomeD: "enum_parse val members s = Some e \<Longrightarrow> val e = s"
  by (auto simp: enum_parse_def dest: find_row_SomeD)

lemma parse_val [simp]: "enum_parse val members (val e) = Some e"
proof -
  obtain e' where e': "enum_parse val members (val e) = Some e'"
    using find_row_exists [OF members_all, of "\<lambda>x. val x = val e" e] by (auto simp: enum_parse_def)
  then have "e' = e" by (blast dest: parse_SomeD inj_val)
  with e' show ?thesis by simp
qed

lemma parse_Some_iff: "enum_parse val members s = Some e \<longleftrightarrow> s = val e"
  by (auto dest: parse_SomeD)

lemma parse_None_iff: "enum_parse val members s = None \<longleftrightarrow> s \<notin> range val"
  by (cases "enum_parse val members s") (auto simp: parse_Some_iff dest: sym)

end

end
