(* ===== verification/Models.thy ===== *)
theory Models
  imports Prelude
begin

text \<open>
  The enumerations of \<open>app/models.py\<close>: each \<open>StrEnum\<close> class as a datatype whose constructors are
  the members (with a prefix where two classes share a member name), its value function, and the
  interpretation of the locale \<open>str_enum\<close> that gives the round trip between members and values.
\<close>

datatype account_status =
    EN_CREATION
  | EN_CHAUFFE
  | ACTIF
  | RALENTI
  | BLOQUE
  | QUARANTAINE

fun account_status_value :: "account_status \<Rightarrow> string" where
  "account_status_value EN_CREATION = ''EN_CR'' @ [CHR 0xC9] @ ''ATION''"
| "account_status_value EN_CHAUFFE = ''EN_CHAUFFE''"
| "account_status_value ACTIF = ''ACTIF''"
| "account_status_value RALENTI = ''RALENTI''"
| "account_status_value BLOQUE = ''BLOQU'' @ [CHR 0xC9]"
| "account_status_value QUARANTAINE = ''QUARANTAINE''"

definition account_status_members :: "account_status list" where
  "account_status_members = [EN_CREATION, EN_CHAUFFE, ACTIF, RALENTI, BLOQUE, QUARANTAINE]"

interpretation account_status_enum: str_enum account_status_value account_status_members
proof
  fix e e' :: account_status
  show "account_status_value e = account_status_value e' \<Longrightarrow> e = e'" by (cases e; cases e') simp_all
  show "e \<in> set account_status_members" by (cases e) (simp_all add: account_status_members_def)
qed

datatype email_identity_status =
    EI_AVAILABLE
  | EI_RESERVED
  | EI_USED
  | EI_DISABLED

fun email_identity_status_value :: "email_identity_status \<Rightarrow> string" where
  "email_identity_status_value EI_AVAILABLE = ''available''"
| "email_identity_status_value EI_RESERVED = ''reserved''"
| "email_identity_status_value EI_USED = ''used''"
| "email_identity_status_value EI_DISABLED = ''disabled''"

definition email_identity_status_members :: "email_identity_status list" where
  "email_identity_status_members = [EI_AVAILABLE, EI_RESERVED, EI_USED, EI_DISABLED]"

interpretation email_identity_status_enum: str_enum email_identity_status_value email_identity_status_members
proof
  fix e e' :: email_identity_status
  show "email_identity_status_value e = email_identity_status_value e' \<Longrightarrow> e = e'" by (cases e; cases e') simp_all
  show "e \<in> set email_identity_status_members" by (cases e) (simp_all add: email_identity_status_members_def)
qed

datatype datadome_trust_level =
    TRUST_LOW
  | TRUST_MEDIUM
  | TRUST_HIGH

fun datadome_trust_level_value :: "datadome_trust_level \<Rightarrow> string" where
  "datadome_trust_level_value TRUST_LOW = ''LOW''"
| "datadome_trust_level_value TRUST_MEDIUM = ''MEDIUM''"
| "datadome_trust_level_value TRUST_HIGH = ''HIGH''"

definition datadome_trust_level_members :: "datadome_trust_level list" where
  "datadome_trust_level_members = [TRUST_LOW, TRUST_MEDIUM, TRUST_HIGH]"

interpretation datadome_trust_level_enum: str_enum datadome_trust_level_value datadome_trust_level_members
proof
  fix e e' :: datadome_trust_level
  show "datadome_trust_level_value e = datadome_trust_level_value e' \<Longrightarrow> e = e'" by (cases e; cases e') simp_all
  show "e \<in> set datadome_trust_level_members" by (cases e) (simp_all add: datadome_trust_level_members_def)
qed

datatype sms_status =
    SMS_SENT
  | SMS_FAILED
  | SMS_QUEUED
  | SMS_RECEIVED

fun sms_status_value :: "sms_status \<Rightarrow> string" where
  "sms_status_value SMS_SENT = ''sent''"
| "sms_status_value SMS_FAILED = ''failed''"
| "sms_status_value SMS_QUEUED = ''queued''"
| "sms_status_value SMS_RECEIVED = ''received''"

definition sms_status_members :: "sms_status list" where
  "sms_status_members = [SMS_SENT, SMS_FAILED, SMS_QUEUED, SMS_RECEIVED]"

interpretation sms_status_enum: str_enum sms_status_value sms_status_members
proof
  fix e e' :: sms_status
  show "sms_status_value e = sms_status_value e' \<Longrightarrow> e = e'" by (cases e; cases e') simp_all
  show "e \<in> set sms_status_members" by (cases e) (simp_all add: sms_status_members_def)
qed

datatype phone_activation_status =
    PH_RESERVED
  | PH_WAITING
  | PH_RECEIVED
  | PH_USED
  | PH_CANCELLED
  | PH_EXPIRED
  | PH_REFUNDED
  | PH_FAILED

fun phone_activation_status_value :: "phone_activation_status \<Rightarrow> string" where
  "phone_activation_status_value PH_RESERVED = ''reserved''"
| "phone_activation_status_value PH_WAITING = ''waiting''"
| "phone_activation_status_value PH_RECEIVED = ''received''"
| "phone_activation_status_value PH_USED = ''used''"
| "phone_activation_status_value PH_CANCELLED = ''cancelled''"
| "phone_activation_status_value PH_EXPIRED = ''expired''"
| "phone_activation_status_value PH_REFUNDED = ''refunded''"
| "phone_activation_status_value PH_FAILED = ''failed''"

definition phone_activation_status_members :: "phone_activation_status list" where
  "phone_activation_status_members = [PH_RESERVED, PH_WAITING, PH_RECEIVED, PH_USED, PH_CANCELLED, PH_EXPIRED, PH_REFUNDED, PH_FAILED]"

interpretation phone_activation_status_enum: str_enum phone_activation_status_value phone_activation_status_members
proof
  fix e e' :: phone_activation_status
  show "phone_activation_status_value e = phone_activation_status_value e' \<Longrightarrow> e = e'" by (cases e; cases e') simp_all
  show "e \<in> set phone_activation_status_members" by (cases e) (simp_all add: phone_activation_status_members_def)
qed

datatype phone_activation_origin =
    ORIGIN_AUTOMATIC
  | ORIGIN_MANUAL

fun phone_activation_origin_value :: "phone_activation_origin \<Rightarrow> string" where
  "phone_activation_origin_value ORIGIN_AUTOMATIC = ''automatic''"
| "phone_activation_origin_value ORIGIN_MANUAL = ''manual''"

definition phone_activation_origin_members :: "phone_activation_origin list" where
  "phone_activation_origin_members = [ORIGIN_AUTOMATIC, ORIGIN_MANUAL]"

interpretation phone_activation_origin_enum: str_enum phone_activation_origin_value phone_activation_origin_members
proof
  fix e e' :: phone_activation_origin
  show "phone_activation_origin_value e = phone_activation_origin_value e' \<Longrightarrow> e = e'" by (cases e; cases e') simp_all
  show "e \<in> set phone_activation_origin_members" by (cases e) (simp_all add: phone_activation_origin_members_def)
qed

datatype listing_source =
    SRC_LBC
  | SRC_LA_CENTRALE

fun listing_source_value :: "listing_source \<Rightarrow> string" where
  "listing_source_value SRC_LBC = ''leboncoin''"
| "listing_source_value SRC_LA_CENTRALE = ''la_centrale''"

definition listing_source_members :: "listing_source list" where
  "listing_source_members = [SRC_LBC, SRC_LA_CENTRALE]"

interpretation listing_source_enum: str_enum listing_source_value listing_source_members
proof
  fix e e' :: listing_source
  show "listing_source_value e = listing_source_value e' \<Longrightarrow> e = e'" by (cases e; cases e') simp_all
  show "e \<in> set listing_source_members" by (cases e) (simp_all add: listing_source_members_def)
qed

datatype listing_status =
    LS_NOUVELLE
  | LS_SMS_ENVOYE
  | LS_REPONSE
  | LS_TRAITE
  | LS_ARCHIVE

fun listing_status_value :: "listing_status \<Rightarrow> string" where
  "listing_status_value LS_NOUVELLE = ''NOUVELLE''"
| "listing_status_value LS_SMS_ENVOYE = ''SMS_ENVOY'' @ [CHR 0xC9]"
| "listing_status_value LS_REPONSE = ''R'' @ [CHR 0xC9] @ ''PONSE''"
| "listing_status_value LS_TRAITE = ''TRAIT'' @ [CHR 0xC9]"
| "listing_status_value LS_ARCHIVE = ''ARCHIV'' @ [CHR 0xC9]"

definition listing_status_members :: "listing_status list" where
  "listing_status_members = [LS_NOUVELLE, LS_SMS_ENVOYE, LS_REPONSE, LS_TRAITE, LS_ARCHIVE]"

interpretation listing_status_enum: str_enum listing_status_value listing_status_members
proof
  fix e e' :: listing_status
  show "listing_status_value e = listing_status_value e' \<Longrightarrow> e = e'" by (cases e; cases e') simp_all
  show "e \<in> set listing_status_members" by (cases e) (simp_all add: listing_status_members_def)
qed

datatype campaign_status =
    C_PENDING
  | C_RUNNING
  | C_PAUSED
  | C_COMPLETED
  | C_FAILED
  | C_CANCELLED

fun campaign_status_value :: "campaign_status \<Rightarrow> string" where
  "campaign_status_value C_PENDING = ''PENDING''"
| "campaign_status_value C_RUNNING = ''RUNNING''"
| "campaign_status_value C_PAUSED = ''PAUSED''"
| "campaign_status_value C_COMPLETED = ''COMPLETED''"
| "campaign_status_value C_FAILED = ''FAILED''"
| "campaign_status_value C_CANCELLED = ''CANCELLED''"

definition campaign_status_members :: "campaign_status list" where
  "campaign_status_members = [C_PENDING, C_RUNNING, C_PAUSED, C_COMPLETED, C_FAILED, C_CANCELLED]"

interpretation campaign_status_enum: str_enum campaign_status_value campaign_status_members
proof
  fix e e' :: campaign_status
  show "campaign_status_value e = campaign_status_value e' \<Longrightarrow> e = e'" by (cases e; cases e') simp_all
  show "e \<in> set campaign_status_members" by (cases e) (simp_all add: campaign_status_members_def)
qed

datatype workflow_status =
    W_PENDING
  | W_RUNNING
  | W_PAUSED
  | W_COMPLETED
  | W_FAILED
  | W_CANCELLED

fun workflow_status_value :: "workflow_status \<Rightarrow> string" where
  "workflow_status_value W_PENDING = ''PENDING''"
| "workflow_status_value W_RUNNING = ''RUNNING''"
| "workflow_status_value W_PAUSED = ''PAUSED''"
| "workflow_status_value W_COMPLETED = ''COMPLETED''"
| "workflow_status_value W_FAILED = ''FAILED''"
| "workflow_status_value W_CANCELLED = ''CANCELLED''"

definition workflow_status_members :: "workflow_status list" where
  "workflow_status_members = [W_PENDING, W_RUNNING, W_PAUSED, W_COMPLETED, W_FAILED, W_CANCELLED]"

interpretation workflow_status_enum: str_enum workflow_status_value workflow_status_members
proof
  fix e e' :: workflow_status
  show "workflow_status_value e = workflow_status_value e' \<Longrightarrow> e = e'" by (cases e; cases e') simp_all
  show "e \<in> set workflow_status_members" by (cases e) (simp_all add: workflow_status_members_def)
qed

datatype connector_state =
    CONN_DISABLED
  | CONN_UNVERIFIED
  | CONN_OK
  | CONN_DEGRADED
  | CONN_DOWN
  | CONN_MISCONFIGURED

fun connector_state_value :: "connector_state \<Rightarrow> string" where
  "connector_state_value CONN_DISABLED = ''disabled''"
| "connector_state_value CONN_UNVERIFIED = ''unverified''"
| "connector_state_value CONN_OK = ''ok''"
| "connector_state_value CONN_DEGRADED = ''degraded''"
| "connector_state_value CONN_DOWN = ''down''"
| "connector_state_value CONN_MISCONFIGURED = ''misconfigured''"

definition connector_state_members :: "connector_state list" where
  "connector_state_members = [CONN_DISABLED, CONN_UNVERIFIED, CONN_OK, CONN_DEGRADED, CONN_DOWN, CONN_MISCONFIGURED]"

interpretation connector_state_enum: str_enum connector_state_value connector_state_members
proof
  fix e e' :: connector_state
  show "connector_state_value e = connector_state_value e' \<Longrightarrow> e = e'" by (cases e; cases e') simp_all
  show "e \<in> set connector_state_members" by (cases e) (simp_all add: connector_state_members_def)
qed

datatype lbc_message_direction =
    LBC_INBOUND
  | LBC_OUTBOUND

fun lbc_message_direction_value :: "lbc_message_direction \<Rightarrow> string" where
  "lbc_message_direction_value LBC_INBOUND = ''inbound''"
| "lbc_message_direction_value LBC_OUTBOUND = ''outbound''"

definition lbc_message_direction_members :: "lbc_message_direction list" where
  "lbc_message_direction_members = [LBC_INBOUND, LBC_OUTBOUND]"

interpretation lbc_message_direction_enum: str_enum lbc_message_direction_value lbc_message_direction_members
proof
  fix e e' :: lbc_message_direction
  show "lbc_message_direction_value e = lbc_message_direction_value e' \<Longrightarrow> e = e'" by (cases e; cases e') simp_all
  show "e \<in> set lbc_message_direction_members" by (cases e) (simp_all add: lbc_message_direction_members_def)
qed

datatype lbc_message_status =
    LBCM_QUEUED
  | LBCM_SENT
  | LBCM_RECEIVED
  | LBCM_FAILED
  | LBCM_SKIPPED

fun lbc_message_status_value :: "lbc_message_status \<Rightarrow> string" where
  "lbc_message_status_value LBCM_QUEUED = ''queued''"
| "lbc_message_status_value LBCM_SENT = ''sent''"
| "lbc_message_status_value LBCM_RECEIVED = ''received''"
| "lbc_message_status_value LBCM_FAILED = ''failed''"
| "lbc_message_status_value LBCM_SKIPPED = ''skipped''"

definition lbc_message_status_members :: "lbc_message_status list" where
  "lbc_message_status_members = [LBCM_QUEUED, LBCM_SENT, LBCM_RECEIVED, LBCM_FAILED, LBCM_SKIPPED]"

interpretation lbc_message_status_enum: str_enum lbc_message_status_value lbc_message_status_members
proof
  fix e e' :: lbc_message_status
  show "lbc_message_status_value e = lbc_message_status_value e' \<Longrightarrow> e = e'" by (cases e; cases e') simp_all
  show "e \<in> set lbc_message_status_members" by (cases e) (simp_all add: lbc_message_status_members_def)
qed

datatype user_role =
    ROLE_ADMINISTRATEUR
  | ROLE_MANAGER
  | ROLE_OPERATEUR

fun user_role_value :: "user_role \<Rightarrow> string" where
  "user_role_value ROLE_ADMINISTRATEUR = ''administrateur''"
| "user_role_value ROLE_MANAGER = ''manager''"
| "user_role_value ROLE_OPERATEUR = ''operateur''"

definition user_role_members :: "user_role list" where
  "user_role_members = [ROLE_ADMINISTRATEUR, ROLE_MANAGER, ROLE_OPERATEUR]"

interpretation user_role_enum: str_enum user_role_value user_role_members
proof
  fix e e' :: user_role
  show "user_role_value e = user_role_value e' \<Longrightarrow> e = e'" by (cases e; cases e') simp_all
  show "e \<in> set user_role_members" by (cases e) (simp_all add: user_role_members_def)
qed

datatype sector_status =
    SECTOR_ACTIF
  | SECTOR_PAUSE

fun sector_status_value :: "sector_status \<Rightarrow> string" where
  "sector_status_value SECTOR_ACTIF = ''actif''"
| "sector_status_value SECTOR_PAUSE = ''pause''"

definition sector_status_members :: "sector_status list" where
  "sector_status_members = [SECTOR_ACTIF, SECTOR_PAUSE]"

interpretation sector_status_enum: str_enum sector_status_value sector_status_members
proof
  fix e e' :: sector_status
  show "sector_status_value e = sector_status_value e' \<Longrightarrow> e = e'" by (cases e; cases e') simp_all
  show "e \<in> set sector_status_members" by (cases e) (simp_all add: sector_status_members_def)
qed

datatype collection_run_status =
    RUN_RUNNING
  | RUN_COMPLETED
  | RUN_FAILED

fun collection_run_status_value :: "collection_run_status \<Rightarrow> string" where
  "collection_run_status_value RUN_RUNNING = ''running''"
| "collection_run_status_value RUN_COMPLETED = ''completed''"
| "collection_run_status_value RUN_FAILED = ''failed''"

definition collection_run_status_members :: "collection_run_status list" where
  "collection_run_status_members = [RUN_RUNNING, RUN_COMPLETED, RUN_FAILED]"

interpretation collection_run_status_enum: str_enum collection_run_status_value collection_run_status_members
proof
  fix e e' :: collection_run_status
  show "collection_run_status_value e = collection_run_status_value e' \<Longrightarrow> e = e'" by (cases e; cases e') simp_all
  show "e \<in> set collection_run_status_members" by (cases e) (simp_all add: collection_run_status_members_def)
qed

datatype contact_status =
    CT_ACTIVE
  | CT_PAUSED
  | CT_CONVERTED
  | CT_INVALID
  | CT_DO_NOT_CONTACT

fun contact_status_value :: "contact_status \<Rightarrow> string" where
  "contact_status_value CT_ACTIVE = ''active''"
| "contact_status_value CT_PAUSED = ''paused''"
| "contact_status_value CT_CONVERTED = ''converted''"
| "contact_status_value CT_INVALID = ''invalid''"
| "contact_status_value CT_DO_NOT_CONTACT = ''do_not_contact''"

definition contact_status_members :: "contact_status list" where
  "contact_status_members = [CT_ACTIVE, CT_PAUSED, CT_CONVERTED, CT_INVALID, CT_DO_NOT_CONTACT]"

interpretation contact_status_enum: str_enum contact_status_value contact_status_members
proof
  fix e e' :: contact_status
  show "contact_status_value e = contact_status_value e' \<Longrightarrow> e = e'" by (cases e; cases e') simp_all
  show "e \<in> set contact_status_members" by (cases e) (simp_all add: contact_status_members_def)
qed

datatype sms_direction =
    DIR_OUTBOUND
  | DIR_INBOUND

fun sms_direction_value :: "sms_direction \<Rightarrow> string" where
  "sms_direction_value DIR_OUTBOUND = ''outbound''"
| "sms_direction_value DIR_INBOUND = ''inbound''"

definition sms_direction_members :: "sms_direction list" where
  "sms_direction_members = [DIR_OUTBOUND, DIR_INBOUND]"

interpretation sms_direction_enum: str_enum sms_direction_value sms_direction_members
proof
  fix e e' :: sms_direction
  show "sms_direction_value e = sms_direction_value e' \<Longrightarrow> e = e'" by (cases e; cases e') simp_all
  show "e \<in> set sms_direction_members" by (cases e) (simp_all add: sms_direction_members_def)
qed

datatype sms_classification =
    CLS_POSITIVE
  | CLS_NEGATIVE
  | CLS_STOP
  | CLS_INFORMATION
  | CLS_AMBIGUOUS
  | CLS_INVALID

fun sms_classification_value :: "sms_classification \<Rightarrow> string" where
  "sms_classification_value CLS_POSITIVE = ''positive''"
| "sms_classification_value CLS_NEGATIVE = ''negative''"
| "sms_classification_value CLS_STOP = ''stop''"
| "sms_classification_value CLS_INFORMATION = ''information''"
| "sms_classification_value CLS_AMBIGUOUS = ''ambiguous''"
| "sms_classification_value CLS_INVALID = ''invalid''"

definition sms_classification_members :: "sms_classification list" where
  "sms_classification_members = [CLS_POSITIVE, CLS_NEGATIVE, CLS_STOP, CLS_INFORMATION, CLS_AMBIGUOUS, CLS_INVALID]"

interpretation sms_classification_enum: str_enum sms_classification_value sms_classification_members
proof
  fix e e' :: sms_classification
  show "sms_classification_value e = sms_classification_value e' \<Longrightarrow> e = e'" by (cases e; cases e') simp_all
  show "e \<in> set sms_classification_members" by (cases e) (simp_all add: sms_classification_members_def)
qed

datatype sequence_status =
    SQ_ACTIVE
  | SQ_PAUSED
  | SQ_COMPLETED
  | SQ_CANCELLED

fun sequence_status_value :: "sequence_status \<Rightarrow> string" where
  "sequence_status_value SQ_ACTIVE = ''active''"
| "sequence_status_value SQ_PAUSED = ''paused''"
| "sequence_status_value SQ_COMPLETED = ''completed''"
| "sequence_status_value SQ_CANCELLED = ''cancelled''"

definition sequence_status_members :: "sequence_status list" where
  "sequence_status_members = [SQ_ACTIVE, SQ_PAUSED, SQ_COMPLETED, SQ_CANCELLED]"

interpretation sequence_status_enum: str_enum sequence_status_value sequence_status_members
proof
  fix e e' :: sequence_status
  show "sequence_status_value e = sequence_status_value e' \<Longrightarrow> e = e'" by (cases e; cases e') simp_all
  show "e \<in> set sequence_status_members" by (cases e) (simp_all add: sequence_status_members_def)
qed

datatype apify_account_status =
    AA_ACTIVE
  | AA_INVALID
  | AA_SUSPENDED

fun apify_account_status_value :: "apify_account_status \<Rightarrow> string" where
  "apify_account_status_value AA_ACTIVE = ''active''"
| "apify_account_status_value AA_INVALID = ''invalid''"
| "apify_account_status_value AA_SUSPENDED = ''suspended''"

definition apify_account_status_members :: "apify_account_status list" where
  "apify_account_status_members = [AA_ACTIVE, AA_INVALID, AA_SUSPENDED]"

interpretation apify_account_status_enum: str_enum apify_account_status_value apify_account_status_members
proof
  fix e e' :: apify_account_status
  show "apify_account_status_value e = apify_account_status_value e' \<Longrightarrow> e = e'" by (cases e; cases e') simp_all
  show "e \<in> set apify_account_status_members" by (cases e) (simp_all add: apify_account_status_members_def)
qed

datatype apify_resource_type =
    RES_ACTOR
  | RES_TASK

fun apify_resource_type_value :: "apify_resource_type \<Rightarrow> string" where
  "apify_resource_type_value RES_ACTOR = ''actor''"
| "apify_resource_type_value RES_TASK = ''task''"

definition apify_resource_type_members :: "apify_resource_type list" where
  "apify_resource_type_members = [RES_ACTOR, RES_TASK]"

interpretation apify_resource_type_enum: str_enum apify_resource_type_value apify_resource_type_members
proof
  fix e e' :: apify_resource_type
  show "apify_resource_type_value e = apify_resource_type_value e' \<Longrightarrow> e = e'" by (cases e; cases e') simp_all
  show "e \<in> set apify_resource_type_members" by (cases e) (simp_all add: apify_resource_type_members_def)
qed

datatype apify_run_status =
    AR_READY
  | AR_RUNNING
  | AR_SUCCEEDED
  | AR_FAILED
  | AR_ABORTED
  | AR_TIMED_OUT

fun apify_run_status_value :: "apify_run_status \<Rightarrow> string" where
  "apify_run_status_value AR_READY = ''READY''"
| "apify_run_status_value AR_RUNNING = ''RUNNING''"
| "apify_run_status_value AR_SUCCEEDED = ''SUCCEEDED''"
| "apify_run_status_value AR_FAILED = ''FAILED''"
| "apify_run_status_value AR_ABORTED = ''ABORTED''"
| "apify_run_status_value AR_TIMED_OUT = ''TIMED-OUT''"

definition apify_run_status_members :: "apify_run_status list" where
  "apify_run_status_members = [AR_READY, AR_RUNNING, AR_SUCCEEDED, AR_FAILED, AR_ABORTED, AR_TIMED_OUT]"

interpretation apify_run_status_enum: str_enum apify_run_status_value apify_run_status_members
proof
  fix e e' :: apify_run_status
  show "apify_run_status_value e = apify_run_status_value e' \<Longrightarrow> e = e'" by (cases e; cases e') simp_all
  show "e \<in> set apify_run_status_members" by (cases e) (simp_all add: apify_run_status_members_def)
qed

datatype apify_item_status =
    AI_PENDING
  | AI_IMPORTED
  | AI_IGNORED
  | AI_DUPLICATE
  | AI_EXCEPTION

fun apify_item_status_value :: "apify_item_status \<Rightarrow> string" where
  "apify_item_status_value AI_PENDING = ''pending''"
| "apify_item_status_value AI_IMPORTED = ''imported''"
| "apify_item_status_value AI_IGNORED = ''ignored''"
| "apify_item_status_value AI_DUPLICATE = ''duplicate''"
| "apify_item_status_value AI_EXCEPTION = ''exception''"

definition apify_item_status_members :: "apify_item_status list" where
  "apify_item_status_members = [AI_PENDING, AI_IMPORTED, AI_IGNORED, AI_DUPLICATE, AI_EXCEPTION]"

interpretation apify_item_status_enum: str_enum apify_item_status_value apify_item_status_members
proof
  fix e e' :: apify_item_status
  show "apify_item_status_value e = apify_item_status_value e' \<Longrightarrow> e = e'" by (cases e; cases e') simp_all
  show "e \<in> set apify_item_status_members" by (cases e) (simp_all add: apify_item_status_members_def)
qed

datatype apify_profile_status =
    AP_CANDIDATE
  | AP_ACTIVE
  | AP_RETIRED

fun apify_profile_status_value :: "apify_profile_status \<Rightarrow> string" where
  "apify_profile_status_value AP_CANDIDATE = ''candidate''"
| "apify_profile_status_value AP_ACTIVE = ''active''"
| "apify_profile_status_value AP_RETIRED = ''retired''"

definition apify_profile_status_members :: "apify_profile_status list" where
  "apify_profile_status_members = [AP_CANDIDATE, AP_ACTIVE, AP_RETIRED]"

interpretation apify_profile_status_enum: str_enum apify_profile_status_value apify_profile_status_members
proof
  fix e e' :: apify_profile_status
  show "apify_profile_status_value e = apify_profile_status_value e' \<Longrightarrow> e = e'" by (cases e; cases e') simp_all
  show "e \<in> set apify_profile_status_members" by (cases e) (simp_all add: apify_profile_status_members_def)
qed

datatype apify_experiment_decision =
    AX_KEEP
  | AX_DISCARD
  | AX_CRASH

fun apify_experiment_decision_value :: "apify_experiment_decision \<Rightarrow> string" where
  "apify_experiment_decision_value AX_KEEP = ''keep''"
| "apify_experiment_decision_value AX_DISCARD = ''discard''"
| "apify_experiment_decision_value AX_CRASH = ''crash''"

definition apify_experiment_decision_members :: "apify_experiment_decision list" where
  "apify_experiment_decision_members = [AX_KEEP, AX_DISCARD, AX_CRASH]"

interpretation apify_experiment_decision_enum: str_enum apify_experiment_decision_value apify_experiment_decision_members
proof
  fix e e' :: apify_experiment_decision
  show "apify_experiment_decision_value e = apify_experiment_decision_value e' \<Longrightarrow> e = e'" by (cases e; cases e') simp_all
  show "e \<in> set apify_experiment_decision_members" by (cases e) (simp_all add: apify_experiment_decision_members_def)
qed

datatype apify_exception_status =
    AEX_OPEN
  | AEX_RESOLVED
  | AEX_DISMISSED

fun apify_exception_status_value :: "apify_exception_status \<Rightarrow> string" where
  "apify_exception_status_value AEX_OPEN = ''open''"
| "apify_exception_status_value AEX_RESOLVED = ''resolved''"
| "apify_exception_status_value AEX_DISMISSED = ''dismissed''"

definition apify_exception_status_members :: "apify_exception_status list" where
  "apify_exception_status_members = [AEX_OPEN, AEX_RESOLVED, AEX_DISMISSED]"

interpretation apify_exception_status_enum: str_enum apify_exception_status_value apify_exception_status_members
proof
  fix e e' :: apify_exception_status
  show "apify_exception_status_value e = apify_exception_status_value e' \<Longrightarrow> e = e'" by (cases e; cases e') simp_all
  show "e \<in> set apify_exception_status_members" by (cases e) (simp_all add: apify_exception_status_members_def)
qed

end
