(* ===== verification/Tables.thy ===== *)
theory Tables
  imports Models
begin

text \<open>
  The tables of \<open>app/tables.py\<close>: one record per ORM class, one field per column with the class's
  abbreviation as prefix. A nullable column is an \<open>option\<close>; a \<open>String\<close> column in which the code only
  stores the values of a \<open>StrEnum\<close> has that enumeration's type. Columns that hold \<open>str(uuid)\<close> or another text
  have the type \<open>ref\<close>. The database is the record \<open>db\<close> of all tables and a source of fresh
  identifiers (\<open>uuid4\<close>). Column lengths are not modelled.
\<close>

datatype ref = RUuid uuid | RText string

fun uuid_of_ref :: "ref \<Rightarrow> exn + uuid" where
  \<comment> \<open>\<open>UUID(text)\<close>\<close>
  "uuid_of_ref (RUuid u) = Inr u"
| "uuid_of_ref (RText s) = Inl (ValueError ''badly formed hexadecimal UUID string'')"

record workspace =
  ws_id :: "uuid"
  ws_name :: "string"
  ws_created_at :: "datetime"

record workspace_setting =
  wss_id :: "uuid"
  wss_workspace_id :: "uuid"
  wss_key :: "string"
  wss_value :: "(string, json) dict"
  wss_updated_by :: "string option"
  wss_updated_at :: "datetime"

record user =
  usr_id :: "uuid"
  usr_workspace_id :: "uuid"
  usr_email :: "string"
  usr_display_name :: "string"
  usr_role :: "string"
  usr_password_hash :: "string option"
  usr_active :: "bool"
  usr_created_at :: "datetime"

record sector =
  sec_id :: "uuid"
  sec_workspace_id :: "uuid"
  sec_name :: "string"
  sec_source :: "string"
  sec_region :: "string"
  sec_department :: "string"
  sec_radius_km :: "int"
  sec_brand_model :: "string option"
  sec_mileage_max :: "int option"
  sec_price_min :: "int option"
  sec_price_max :: "int option"
  sec_frequency_minutes :: "int"
  sec_schedule_start :: "string"
  sec_schedule_end :: "string"
  sec_daily_volume :: "int"
  sec_status :: "sector_status"
  sec_created_at :: "datetime"

record sector_account =
  sa_id :: "uuid"
  sa_sector_id :: "uuid"
  sa_account_id :: "uuid"
  sa_daily_limit :: "int"
  sa_locked_until :: "datetime option"
  sa_locked_by :: "string option"

record sector_sim =
  ss_id :: "uuid"
  ss_sector_id :: "uuid"
  ss_sim_id :: "string"
  ss_daily_limit :: "int"
  ss_locked_until :: "datetime option"
  ss_locked_by :: "string option"

record sector_proxy =
  sp_id :: "uuid"
  sp_sector_id :: "uuid"
  sp_proxy_id :: "string"
  sp_locked_until :: "datetime option"
  sp_locked_by :: "string option"

record collection_run =
  cr_id :: "uuid"
  cr_sector_id :: "uuid"
  cr_source :: "string"
  cr_status :: "collection_run_status"
  cr_checkpoint :: "(string, json) dict"
  cr_listings_seen :: "int"
  cr_last_error :: "string option"
  cr_started_at :: "datetime"
  cr_finished_at :: "datetime option"

record platform_account =
  pa_id :: "uuid"
  pa_email :: "string"
  pa_phone_otp :: "string option"
  pa_status :: "account_status"
  pa_datadome_trust_level :: "datadome_trust_level"
  pa_datadome_cookie :: "string option"
  pa_datadome_cookie_updated_at :: "datetime option"
  pa_session_path :: "string option"
  pa_browser_use_profile_id :: "string option"
  pa_browser_use_session_id :: "string option"
  pa_deleted_at :: "datetime option"
  pa_score_sante :: "int"
  pa_quota_actuel :: "int"
  pa_erreurs_24h :: "int"
  pa_date_creation :: "datetime"
  pa_derniere_action :: "datetime option"

record phone_activation =
  ph_id :: "uuid"
  ph_provider :: "string"
  ph_provider_order_id :: "string"
  ph_phone_e164 :: "string"
  ph_country :: "string"
  ph_service :: "string"
  ph_cost :: "rat"
  ph_status :: "phone_activation_status"
  ph_origin :: "phone_activation_origin"
  ph_platform_account_id :: "uuid option"
  ph_workflow_id :: "ref option"
  ph_expires_at :: "datetime"
  ph_received_at :: "datetime option"
  ph_used_at :: "datetime option"
  ph_received_sms :: "string option"
  ph_received_code :: "string option"
  ph_last_error :: "string option"
  ph_created_at :: "datetime"
  ph_updated_at :: "datetime"

record email_identity =
  ei_id :: "uuid"
  ei_first_name :: "string"
  ei_last_name :: "string"
  ei_email :: "string"
  ei_status :: "email_identity_status"
  ei_reserved_by :: "string option"
  ei_reserved_at :: "datetime option"
  ei_used_at :: "datetime option"
  ei_created_at :: "datetime"
  ei_updated_at :: "datetime"

record email_message =
  em_id :: "uuid"
  em_identity_id :: "uuid"
  em_event_key :: "string"
  em_sender :: "string"
  em_recipient :: "string"
  em_subject :: "string"
  em_body_plain :: "string"
  em_body_html :: "string"
  em_received_at :: "datetime"
  em_read_at :: "datetime option"
  em_expires_at :: "datetime"

record listing =
  li_id :: "uuid"
  li_source :: "listing_source"
  li_url :: "string"
  li_content_hash :: "string option"
  li_sector_id :: "uuid option"
  li_contact_id :: "uuid option"
  li_title :: "string option"
  li_price :: "int option"
  li_km :: "int option"
  li_location :: "string option"
  li_phone :: "string option"
  li_raw_data :: "string option"
  li_make :: "string option"
  li_model :: "string option"
  li_year :: "int option"
  li_fuel :: "string option"
  li_transmission :: "string option"
  li_price_score :: "rat option"
  li_market_avg_price :: "int option"
  li_market_sample_size :: "int option"
  li_reliability_score :: "int option"
  li_ai_summary :: "string option"
  li_known_issues_json :: "string option"
  li_inspection_tips_json :: "string option"
  li_negotiation_tip :: "string option"
  li_status :: "listing_status"
  li_campaign_id :: "uuid option"
  li_created_at :: "datetime"
  li_updated_at :: "datetime"

record sms_log =
  sl_id :: "uuid"
  sl_sim_id :: "string"
  sl_to_phone :: "string"
  sl_listing_id :: "uuid option"
  sl_body :: "string"
  sl_status :: "sms_status"
  sl_project :: "string"
  sl_cost_eur :: "rat option"
  sl_campaign_id :: "uuid option"
  sl_contact_id :: "uuid option"
  sl_direction :: "sms_direction"
  sl_sequence_step :: "int option"
  sl_variant_key :: "string option"
  sl_classification :: "sms_classification option"
  sl_idempotency_key :: "string option"
  sl_received_at :: "datetime option"
  sl_sent_at :: "datetime"

record blacklist =
  bl_id :: "uuid"
  bl_phone :: "string"
  bl_source_sim :: "string option"
  bl_source_project :: "string option"
  bl_created_at :: "datetime"

record campaign =
  ca_id :: "uuid"
  ca_type :: "string"
  ca_message_template :: "string"
  ca_quota_per_sim :: "int"
  ca_search_criteria :: "(string, json) dict"
  ca_status :: "campaign_status"
  ca_sent :: "int"
  ca_failed :: "int"
  ca_scheduled_at :: "datetime option"
  ca_last_error :: "string option"
  ca_created_at :: "datetime"

record campaign_message_template =
  ct_id :: "uuid"
  ct_campaign_id :: "uuid"
  ct_channel :: "string"
  ct_step :: "int"
  ct_variant_key :: "string"
  ct_delay_days :: "int"
  ct_send_time :: "string"
  ct_body :: "string"
  ct_enabled :: "bool"
  ct_updated_at :: "datetime"

record service_balance =
  sb_id :: "uuid"
  sb_service :: "string"
  sb_label :: "string"
  sb_balance :: "rat option"
  sb_currency :: "string"
  sb_is_low :: "bool"
  sb_low_threshold :: "rat"
  sb_last_updated :: "datetime option"
  sb_expires_at :: "datetime option"

record webhook_event =
  we_id :: "uuid"
  we_event_key :: "string"
  we_source :: "string"
  we_processed :: "bool"
  we_payload :: "json option"
  we_created_at :: "datetime"

record workflow_run =
  wf_id :: "uuid"
  wf_idempotency_key :: "string"
  wf_workflow_type :: "string"
  wf_target_type :: "string option"
  wf_target_id :: "ref option"
  wf_status :: "workflow_status"
  wf_progress_current :: "int"
  wf_progress_total :: "int option"
  wf_batch_number :: "int"
  wf_batch_size :: "int option"
  wf_celery_task_id :: "string option"
  wf_checkpoint :: "(string, json) dict option"
  wf_last_error_code :: "string option"
  wf_last_error :: "string option"
  wf_initiated_by :: "string option"
  wf_started_at :: "datetime option"
  wf_finished_at :: "datetime option"
  wf_created_at :: "datetime"
  wf_updated_at :: "datetime"

record connector_status =
  cs_name :: "string"
  cs_status :: "connector_state"
  cs_configured :: "bool"
  cs_latency_ms :: "int option"
  cs_last_success_at :: "datetime option"
  cs_last_checked_at :: "datetime"
  cs_error_code :: "string option"
  cs_error_summary :: "string option"
  cs_details :: "(string, json) dict option"

record audit_event =
  ae_id :: "uuid"
  ae_actor :: "string"
  ae_role :: "string"
  ae_action :: "string"
  ae_target_type :: "string option"
  ae_target_id :: "ref option"
  ae_idempotency_key :: "string option"
  ae_input_summary :: "(string, json) dict option"
  ae_result_status :: "string"
  ae_workflow_run_id :: "uuid option"
  ae_created_at :: "datetime"

record lbc_message_log =
  lm_id :: "uuid"
  lm_external_key :: "string"
  lm_listing_id :: "uuid option"
  lm_account_id :: "uuid option"
  lm_direction :: "lbc_message_direction"
  lm_status :: "lbc_message_status"
  lm_content_hash :: "string option"
  lm_preview :: "string option"
  lm_sequence_step :: "int option"
  lm_next_due_at :: "datetime option"
  lm_phone_extracted :: "bool"
  lm_error_code :: "string option"
  lm_processed_at :: "datetime option"
  lm_created_at :: "datetime"

record apify_account =
  aa_id :: "uuid"
  aa_workspace_id :: "uuid"
  aa_label :: "string"
  aa_apify_user_id :: "string"
  aa_username :: "string"
  aa_token_ciphertext :: "string"
  aa_token_fingerprint :: "string"
  aa_webhook_secret_ciphertext :: "string"
  aa_webhook_secret_hash :: "string"
  aa_status :: "string"
  aa_last_checked_at :: "datetime option"
  aa_last_error :: "string option"
  aa_created_at :: "datetime"
  aa_updated_at :: "datetime"

record apify_actor_binding =
  ab_id :: "uuid"
  ab_workspace_id :: "uuid"
  ab_account_id :: "uuid"
  ab_sector_id :: "uuid option"
  ab_campaign_id :: "uuid option"
  ab_resource_type :: "string"
  ab_resource_id :: "string"
  ab_name :: "string"
  ab_input_ciphertext :: "string"
  ab_enabled :: "bool"
  ab_schedule_authority :: "string"
  ab_schedule_minutes :: "int option"
  ab_next_run_at :: "datetime option"
  ab_webhook_id :: "string option"
  ab_schema_fingerprint :: "string option"
  ab_active_profile_id :: "uuid option"
  ab_suspended_reason :: "string option"
  ab_created_at :: "datetime"
  ab_updated_at :: "datetime"

record apify_run =
  ar_id :: "uuid"
  ar_workspace_id :: "uuid"
  ar_account_id :: "uuid"
  ar_binding_id :: "uuid"
  ar_apify_run_id :: "string"
  ar_status :: "string"
  ar_started_at :: "datetime option"
  ar_finished_at :: "datetime option"
  ar_default_dataset_id :: "string option"
  ar_cost_usd :: "rat option"
  ar_items_read :: "int"
  ar_items_imported :: "int"
  ar_items_ignored :: "int"
  ar_items_exception :: "int"
  ar_last_error :: "string option"
  ar_imported_at :: "datetime option"
  ar_created_at :: "datetime"
  ar_updated_at :: "datetime"

record apify_item =
  ai_id :: "uuid"
  ai_workspace_id :: "uuid"
  ai_account_id :: "uuid"
  ai_run_id :: "uuid"
  ai_dataset_index :: "int"
  ai_content_hash :: "string"
  ai_raw_payload :: "(string, json) dict"
  ai_normalized_payload :: "(string, json) dict option"
  ai_confidence :: "rat option"
  ai_status :: "apify_item_status"
  ai_contact_id :: "uuid option"
  ai_listing_id :: "uuid option"
  ai_sms_sequence_id :: "uuid option"
  ai_error :: "string option"
  ai_processed_at :: "datetime option"
  ai_created_at :: "datetime"

record apify_normalization_profile =
  ap_id :: "uuid"
  ap_workspace_id :: "uuid"
  ap_binding_id :: "uuid"
  ap_version :: "int"
  ap_schema_fingerprint :: "string"
  ap_mappings :: "(string, string) dict"
  ap_aliases :: "(string, json) dict"
  ap_priorities :: "(string, json) dict"
  ap_thresholds :: "(string, json) dict"
  ap_metrics :: "(string, json) dict"
  ap_status :: "apify_profile_status"
  ap_created_at :: "datetime"
  ap_promoted_at :: "datetime option"
  ap_retired_at :: "datetime option"

record apify_normalization_experiment =
  ax_id :: "uuid"
  ax_workspace_id :: "uuid"
  ax_binding_id :: "uuid"
  ax_baseline_profile_id :: "uuid option"
  ax_candidate_profile_id :: "uuid"
  ax_corpus_size :: "int"
  ax_baseline_metrics :: "(string, json) dict"
  ax_candidate_metrics :: "(string, json) dict"
  ax_decision :: "apify_experiment_decision option"
  ax_reason :: "string option"
  ax_created_at :: "datetime"
  ax_evaluated_at :: "datetime option"

record apify_exception =
  aex_id :: "uuid"
  aex_workspace_id :: "uuid"
  aex_binding_id :: "uuid"
  aex_run_id :: "uuid option"
  aex_item_id :: "uuid option"
  aex_category :: "string"
  aex_evidence :: "(string, json) dict"
  aex_status :: "apify_exception_status"
  aex_resolution :: "string option"
  aex_resolved_by :: "string option"
  aex_created_at :: "datetime"
  aex_resolved_at :: "datetime option"

record contact =
  co_id :: "uuid"
  co_phone_e164 :: "string"
  co_status :: "contact_status"
  co_last_classification :: "sms_classification option"
  co_last_inbound_at :: "datetime option"
  co_created_at :: "datetime"
  co_updated_at :: "datetime"

record sms_sequence =
  sq_id :: "uuid"
  sq_contact_id :: "uuid"
  sq_listing_id :: "uuid option"
  sq_campaign_id :: "uuid option"
  sq_current_step :: "int"
  sq_next_due_at :: "datetime option"
  sq_status :: "sequence_status"
  sq_context_json :: "(string, json) dict"
  sq_created_at :: "datetime"
  sq_updated_at :: "datetime"

record call_log =
  cl_id :: "uuid"
  cl_phone_e164 :: "string"
  cl_sim_id :: "string option"
  cl_contact_id :: "uuid option"
  cl_listing_id :: "uuid option"
  cl_result :: "string option"
  cl_notes :: "string option"
  cl_external_key :: "string"
  cl_called_at :: "datetime"

section \<open>The database\<close>

record db =
  workspaces :: "workspace list"
  workspace_settings :: "workspace_setting list"
  users :: "user list"
  sectors :: "sector list"
  sector_accounts :: "sector_account list"
  sector_sims :: "sector_sim list"
  sector_proxies :: "sector_proxy list"
  collection_runs :: "collection_run list"
  platform_accounts :: "platform_account list"
  phone_activations :: "phone_activation list"
  email_identities :: "email_identity list"
  email_messages :: "email_message list"
  listings :: "listing list"
  sms_log :: "sms_log list"
  blacklist :: "blacklist list"
  campaigns :: "campaign list"
  campaign_message_templates :: "campaign_message_template list"
  service_balance :: "service_balance list"
  webhook_events :: "webhook_event list"
  workflow_runs :: "workflow_run list"
  connector_status :: "connector_status list"
  audit_events :: "audit_event list"
  lbc_message_log :: "lbc_message_log list"
  apify_accounts :: "apify_account list"
  apify_actor_bindings :: "apify_actor_binding list"
  apify_runs :: "apify_run list"
  apify_items :: "apify_item list"
  apify_normalization_profiles :: "apify_normalization_profile list"
  apify_normalization_experiments :: "apify_normalization_experiment list"
  apify_exceptions :: "apify_exception list"
  contacts :: "contact list"
  sms_sequences :: "sms_sequence list"
  call_log :: "call_log list"
  fresh_id :: uuid

section \<open>Sessions\<close>

text \<open>
  \<open>get_db\<close> commits what the block did when the block ends normally, and rolls everything back
  when it raises: a session is a function from the database to an error or a result with the
  new database, and \<open>session\<close> runs it.
\<close>

definition session :: "(db \<Rightarrow> exn + ('a \<times> db)) \<Rightarrow> db \<Rightarrow> 'a result \<times> db" where
  "session block d = (case block d of Inl e \<Rightarrow> (Inl e, d) | Inr (x, d') \<Rightarrow> (Inr x, d'))"

lemma session_error [simp]: "fst (session block d) = Inl e \<Longrightarrow> snd (session block d) = d"
  by (auto simp: session_def split: sum.splits)

lemma session_Inl: "block d = Inl e \<Longrightarrow> session block d = (Inl e, d)"
  by (simp add: session_def)

lemma session_Inr: "block d = Inr (x, d') \<Longrightarrow> session block d = (Inr x, d')"
  by (simp add: session_def)

lemma session_InrD: "session block d = (Inr x, d') \<Longrightarrow> block d = Inr (x, d')"
  by (auto simp: session_def split: sum.splits)

lemmas session_simps = session_Inl session_Inr

definition empty_db :: db where
  "empty_db = \<lparr>workspaces = [], workspace_settings = [], users = [], sectors = [], sector_accounts = [], sector_sims = [], sector_proxies = [], collection_runs = [], platform_accounts = [], phone_activations = [], email_identities = [], email_messages = [], listings = [], sms_log = [], blacklist = [], campaigns = [], campaign_message_templates = [], service_balance = [], webhook_events = [], workflow_runs = [], connector_status = [], audit_events = [], lbc_message_log = [], apify_accounts = [], apify_actor_bindings = [], apify_runs = [], apify_items = [], apify_normalization_profiles = [], apify_normalization_experiments = [], apify_exceptions = [], contacts = [], sms_sequences = [], call_log = [], fresh_id = 0\<rparr>"

end
