(* ===== verification/Resource_Lock.thy ===== *)
theory Resource_Lock
  imports Tables
begin

text \<open>
  \<open>app/services/resource_lock.py\<close>: leases on the accounts, SIMs and proxies of a sector. A claim is
  one conditional \<open>UPDATE ... RETURNING\<close>, so it is one step of the model. The locale \<open>lease\<close> is the
  contract that the collection of a sector relies on; it is interpreted on \<open>claim_resource\<close> and
  \<open>release_resource\<close>, and its client lemma is mutual exclusion over every later history.
\<close>

section \<open>Definitions\<close>

type_synonym lock = "datetime option \<times> string option"

definition claimable :: "datetime \<Rightarrow> string \<Rightarrow> lock \<Rightarrow> bool" where
  \<comment> \<open>the disjunction of the \<open>WHERE\<close> clause; a comparison with \<open>NULL\<close> does not hold\<close>
  "claimable now owner l =
     (case l of (locked_until, locked_by) \<Rightarrow>
        locked_until = None
        \<or> (case locked_until of None \<Rightarrow> False | Some u \<Rightarrow> u < now)
        \<or> locked_by = Some owner)"

definition claim_rows ::
  "('r \<Rightarrow> uuid) \<Rightarrow> ('r \<Rightarrow> lock) \<Rightarrow> (lock \<Rightarrow> 'r \<Rightarrow> 'r) \<Rightarrow> datetime \<Rightarrow> uuid \<Rightarrow> string \<Rightarrow> int \<Rightarrow> 'r list
     \<Rightarrow> exn + (bool \<times> 'r list)" where
  "claim_rows idf lockf setf now resource_id owner ttl rows =
     (let hit = (\<lambda>r. idf r = resource_id \<and> claimable now owner (lockf r)) in
      case one_or_none (map idf (filter hit rows)) of
        Inl e \<Rightarrow> Inl e
      | Inr ret \<Rightarrow> Inr (ret \<noteq> None,
                      update_where hit (setf (Some (now + seconds ttl), Some owner)) rows))"

definition release_rows ::
  "('r \<Rightarrow> uuid) \<Rightarrow> ('r \<Rightarrow> lock) \<Rightarrow> (lock \<Rightarrow> 'r \<Rightarrow> 'r) \<Rightarrow> uuid \<Rightarrow> string \<Rightarrow> 'r list \<Rightarrow> 'r list" where
  "release_rows idf lockf setf resource_id owner rows =
     update_where (\<lambda>r. idf r = resource_id \<and> snd (lockf r) = Some owner) (setf (None, None)) rows"

definition sa_lock :: "sector_account \<Rightarrow> lock" where
  "sa_lock r = (sa_locked_until r, sa_locked_by r)"

definition sa_set_lock :: "lock \<Rightarrow> sector_account \<Rightarrow> sector_account" where
  "sa_set_lock l r = r\<lparr>sa_locked_until := fst l, sa_locked_by := snd l\<rparr>"

definition ss_lock :: "sector_sim \<Rightarrow> lock" where
  "ss_lock r = (ss_locked_until r, ss_locked_by r)"

definition ss_set_lock :: "lock \<Rightarrow> sector_sim \<Rightarrow> sector_sim" where
  "ss_set_lock l r = r\<lparr>ss_locked_until := fst l, ss_locked_by := snd l\<rparr>"

definition sp_lock :: "sector_proxy \<Rightarrow> lock" where
  "sp_lock r = (sp_locked_until r, sp_locked_by r)"

definition sp_set_lock :: "lock \<Rightarrow> sector_proxy \<Rightarrow> sector_proxy" where
  "sp_set_lock l r = r\<lparr>sp_locked_until := fst l, sp_locked_by := snd l\<rparr>"

lemmas lock_defs = sa_lock_def sa_set_lock_def ss_lock_def ss_set_lock_def sp_lock_def sp_set_lock_def

definition claim_resource :: "datetime \<Rightarrow> string \<Rightarrow> uuid \<Rightarrow> string \<Rightarrow> int \<Rightarrow> db \<Rightarrow> bool result \<times> db" where
  "claim_resource now kind resource_id owner ttl_seconds d =
     (if kind = ''account'' then
        session (\<lambda>d. map_sum id (\<lambda>(b, t). (b, d\<lparr>sector_accounts := t\<rparr>))
          (claim_rows sa_id sa_lock sa_set_lock now resource_id owner ttl_seconds (sector_accounts d))) d
      else if kind = ''sim'' then
        session (\<lambda>d. map_sum id (\<lambda>(b, t). (b, d\<lparr>sector_sims := t\<rparr>))
          (claim_rows ss_id ss_lock ss_set_lock now resource_id owner ttl_seconds (sector_sims d))) d
      else if kind = ''proxy'' then
        session (\<lambda>d. map_sum id (\<lambda>(b, t). (b, d\<lparr>sector_proxies := t\<rparr>))
          (claim_rows sp_id sp_lock sp_set_lock now resource_id owner ttl_seconds (sector_proxies d))) d
      else (Inl (KeyError kind), d))"

definition release_resource :: "string \<Rightarrow> uuid \<Rightarrow> string \<Rightarrow> db \<Rightarrow> unit result \<times> db" where
  "release_resource kind resource_id owner d =
     (if kind = ''account'' then
        (Inr (), d\<lparr>sector_accounts := release_rows sa_id sa_lock sa_set_lock resource_id owner (sector_accounts d)\<rparr>)
      else if kind = ''sim'' then
        (Inr (), d\<lparr>sector_sims := release_rows ss_id ss_lock ss_set_lock resource_id owner (sector_sims d)\<rparr>)
      else if kind = ''proxy'' then
        (Inr (), d\<lparr>sector_proxies := release_rows sp_id sp_lock sp_set_lock resource_id owner (sector_proxies d)\<rparr>)
      else (Inl (KeyError kind), d))"

section \<open>Rows with a lock\<close>

definition lock_at :: "('r \<Rightarrow> uuid) \<Rightarrow> ('r \<Rightarrow> lock) \<Rightarrow> uuid \<Rightarrow> 'r list \<Rightarrow> lock option" where
  "lock_at idf lockf i rows = map_option lockf (find_row (\<lambda>r. idf r = i) rows)"

lemma claimable_free: "claimable now o1 (None, b)"
  by (simp add: claimable_def)

locale lockable =
  fixes idf :: "'r \<Rightarrow> uuid" and lockf :: "'r \<Rightarrow> lock" and setf :: "lock \<Rightarrow> 'r \<Rightarrow> 'r"
  assumes id_set [simp]: "idf (setf l r) = idf r"
    and lock_set [simp]: "lockf (setf l r) = l"
begin

lemma hit_none:
  assumes "lock_at idf lockf i rows = Some l" "\<not> claimable now o1 l" "distinct (map idf rows)"
  shows "filter (\<lambda>r. idf r = i \<and> claimable now o1 (lockf r)) rows = []"
  using assms by (induction rows) (auto simp: lock_at_def filter_empty_conv image_iff split: if_splits)

lemma hit_absent:
  assumes "lock_at idf lockf i rows = None"
  shows "filter (\<lambda>r. idf r = i \<and> P r) rows = []"
  using assms by (induction rows) (auto simp: lock_at_def split: if_splits)

lemma hit_one:
  assumes "lock_at idf lockf i rows = Some l" "claimable now o1 l" "distinct (map idf rows)"
  shows "map idf (filter (\<lambda>r. idf r = i \<and> claimable now o1 (lockf r)) rows) = [i]"
  using assms
proof (induction rows)
  case Nil
  then show ?case by (simp add: lock_at_def)
next
  case (Cons r rows)
  show ?case
  proof (cases "idf r = i")
    case True
    then have "\<forall>x\<in>set rows. idf x \<noteq> i" using Cons.prems by (auto simp: image_iff)
    then have "filter (\<lambda>r. idf r = i \<and> claimable now o1 (lockf r)) rows = []"
      by (simp add: filter_empty_conv)
    with True Cons.prems show ?thesis by (simp add: lock_at_def)
  next
    case False
    with Cons show ?thesis by (simp add: lock_at_def)
  qed
qed

text \<open>What a claim returns, and what it does to each lock.\<close>

lemma claim_rows_eq:
  assumes "distinct (map idf rows)"
  shows "claim_rows idf lockf setf now i o1 ttl rows =
    Inr (case lock_at idf lockf i rows of
           None \<Rightarrow> (False, rows)
         | Some l \<Rightarrow>
             if claimable now o1 l
             then (True, update_where (\<lambda>r. idf r = i \<and> claimable now o1 (lockf r))
                           (setf (Some (now + seconds ttl), Some o1)) rows)
             else (False, rows))"
proof (cases "lock_at idf lockf i rows")
  case None
  then have "filter (\<lambda>r. idf r = i \<and> claimable now o1 (lockf r)) rows = []" by (rule hit_absent)
  with None show ?thesis
    by (simp add: claim_rows_def one_or_none_def update_where_none filter_empty_conv)
next
  case (Some l)
  show ?thesis
  proof (cases "claimable now o1 l")
    case True
    with hit_one [OF Some True assms] Some show ?thesis
      by (simp add: claim_rows_def one_or_none_def)
  next
    case False
    with hit_none [OF Some False assms] Some show ?thesis
      by (simp add: claim_rows_def one_or_none_def update_where_none filter_empty_conv)
  qed
qed

lemma lock_at_update:
  "lock_at idf lockf j (update_where (\<lambda>r. idf r = i \<and> P (lockf r)) (setf l') rows) =
     map_option (\<lambda>l. if j = i \<and> P l then l' else l) (lock_at idf lockf j rows)"
  by (induction rows) (auto simp: lock_at_def)

lemma ids_update: "map idf (update_where P (setf l) rows) = map idf rows"
  by (rule map_update_where) simp

lemma release_rows_lock:
  "lock_at idf lockf j (release_rows idf lockf setf i o1 rows) =
     map_option (\<lambda>l. if j = i \<and> snd l = Some o1 then (None, None) else l) (lock_at idf lockf j rows)"
  unfolding release_rows_def by (rule lock_at_update)

lemma release_rows_ids: "map idf (release_rows idf lockf setf i o1 rows) = map idf rows"
  unfolding release_rows_def by (rule ids_update)

lemma claim_rowsE:
  assumes "distinct (map idf rows)"
  obtains b rows' where "claim_rows idf lockf setf now i o1 ttl rows = Inr (b, rows')"
    and "b \<longleftrightarrow> (case lock_at idf lockf i rows of None \<Rightarrow> False | Some l \<Rightarrow> claimable now o1 l)"
    and "\<And>j. lock_at idf lockf j rows' =
           (if j = i then map_option (\<lambda>l. if claimable now o1 l then (Some (now + seconds ttl), Some o1) else l)
                         (lock_at idf lockf i rows)
            else lock_at idf lockf j rows)"
    and "map idf rows' = map idf rows"
    and "\<not> b \<Longrightarrow> rows' = rows"
proof (cases "\<exists>l. lock_at idf lockf i rows = Some l \<and> claimable now o1 l")
  case True
  then have "claim_rows idf lockf setf now i o1 ttl rows = Inr (True,
      update_where (\<lambda>r. idf r = i \<and> claimable now o1 (lockf r)) (setf (Some (now + seconds ttl), Some o1)) rows)"
    by (auto simp: claim_rows_eq [OF assms])
  then show ?thesis
    by (rule that) (use True in \<open>auto simp: lock_at_update ids_update option.map_ident\<close>)
next
  case False
  then show ?thesis
    by (intro that [of False rows]; cases "lock_at idf lockf i rows")
      (auto simp: claim_rows_eq [OF assms] simp del: split_paired_All)
qed

end

interpretation sa: lockable sa_id sa_lock sa_set_lock by unfold_locales (simp_all add: lock_defs)
interpretation ss: lockable ss_id ss_lock ss_set_lock by unfold_locales (simp_all add: lock_defs)
interpretation sp: lockable sp_id sp_lock sp_set_lock by unfold_locales (simp_all add: lock_defs)

section \<open>The contract of a lease\<close>

datatype ('r, 'o) lease_op = Claim datetime int 'r 'o | Release 'r 'o

fun lease_step :: "(datetime \<Rightarrow> int \<Rightarrow> 'r \<Rightarrow> 'o \<Rightarrow> 's \<Rightarrow> bool \<times> 's) \<Rightarrow> ('r \<Rightarrow> 'o \<Rightarrow> 's \<Rightarrow> 's)
    \<Rightarrow> ('r, 'o) lease_op \<Rightarrow> 's \<Rightarrow> 's" where
  "lease_step claim release (Claim now ttl r o1) s = snd (claim now ttl r o1 s)"
| "lease_step claim release (Release r o1) s = release r o1 s"

definition lease_run :: "(datetime \<Rightarrow> int \<Rightarrow> 'r \<Rightarrow> 'o \<Rightarrow> 's \<Rightarrow> bool \<times> 's) \<Rightarrow> ('r \<Rightarrow> 'o \<Rightarrow> 's \<Rightarrow> 's)
    \<Rightarrow> ('r, 'o) lease_op list \<Rightarrow> 's \<Rightarrow> 's" where
  "lease_run claim release ops s = fold (lease_step claim release) ops s"

text \<open>A step up to the deadline that is neither a claim nor a release of \<open>r\<close> by \<open>o1\<close> itself.\<close>

fun foreign :: "datetime \<Rightarrow> 'r \<Rightarrow> 'o \<Rightarrow> ('r, 'o) lease_op \<Rightarrow> bool" where
  "foreign deadline r o1 (Claim now ttl r' o2) = (now \<le> deadline \<and> (r' = r \<longrightarrow> o2 \<noteq> o1))"
| "foreign deadline r o1 (Release r' o2) = (r' = r \<longrightarrow> o2 \<noteq> o1)"

locale lease =
  fixes ok :: "'s \<Rightarrow> bool"
    and holds :: "'s \<Rightarrow> 'r \<Rightarrow> datetime \<Rightarrow> 'o \<Rightarrow> bool"
    and claim :: "datetime \<Rightarrow> int \<Rightarrow> 'r \<Rightarrow> 'o \<Rightarrow> 's \<Rightarrow> bool \<times> 's"
    and release :: "'r \<Rightarrow> 'o \<Rightarrow> 's \<Rightarrow> 's"
  assumes claim_ok: "ok s \<Longrightarrow> ok (snd (claim now ttl r o1 s))"
    and release_ok: "ok s \<Longrightarrow> ok (release r o1 s)"
    and holder_unique: "holds s r t o1 \<Longrightarrow> holds s r t o2 \<Longrightarrow> o1 = o2"
    and denied: "ok s \<Longrightarrow> holds s r now o1 \<Longrightarrow> o2 \<noteq> o1 \<Longrightarrow> claim now ttl r o2 s = (False, s)"
    and granted: "ok s \<Longrightarrow> fst (claim now ttl r o1 s) \<Longrightarrow> t \<le> now + seconds ttl \<Longrightarrow>
                    holds (snd (claim now ttl r o1 s)) r t o1"
    and claim_frame: "ok s \<Longrightarrow> r' \<noteq> r \<Longrightarrow>
                    holds (snd (claim now ttl r o1 s)) r' t o2 = holds s r' t o2"
    and release_own: "ok s \<Longrightarrow> \<not> holds (release r o1 s) r t o1"
    and release_frame: "ok s \<Longrightarrow> (r', o2) \<noteq> (r, o1) \<Longrightarrow> holds (release r o1 s) r' t o2 = holds s r' t o2"
begin

lemma step_ok: "ok s \<Longrightarrow> ok (lease_step claim release a s)"
  by (cases a) (auto simp: claim_ok release_ok)

lemma step_foreign:
  assumes "ok s" and "foreign deadline r o1 a" and "\<And>t. t \<le> deadline \<Longrightarrow> holds s r t o1" and "t \<le> deadline"
  shows "holds (lease_step claim release a s) r t o1"
proof (cases a)
  case (Claim now ttl r' o2)
  show ?thesis
  proof (cases "r' = r")
    case True
    with assms Claim have "claim now ttl r o2 s = (False, s)" by (intro denied) auto
    with True Claim assms show ?thesis by simp
  next
    case False
    with assms Claim show ?thesis by (simp add: claim_frame [OF assms(1)])
  qed
next
  case (Release r' o2)
  with assms show ?thesis by (auto simp: release_frame [OF assms(1)])
qed

lemma run_foreign:
  assumes "ok s" "\<forall>a\<in>set as. foreign deadline r o1 a" "\<And>t. t \<le> deadline \<Longrightarrow> holds s r t o1"
  shows "ok (lease_run claim release as s) \<and> (\<forall>t\<le>deadline. holds (lease_run claim release as s) r t o1)"
  using assms
proof (induction as arbitrary: s)
  case Nil
  then show ?case by (simp add: lease_run_def)
next
  case (Cons a as)
  have "ok (lease_step claim release a s)" using Cons.prems by (simp add: step_ok)
  moreover have "holds (lease_step claim release a s) r t o1" if "t \<le> deadline" for t
    using Cons.prems that by (intro step_foreign [where deadline = deadline]) auto
  ultimately show ?case
    using Cons.IH [of "lease_step claim release a s"] Cons.prems by (simp add: lease_run_def)
qed

text \<open>
  Mutual exclusion: once a claim is granted, no claim of the resource by another owner succeeds up
  to the deadline, whatever is claimed and released in between.
\<close>

lemma mutual_exclusion:
  assumes "ok s" "fst (claim now0 ttl0 r o1 s)" "\<forall>a\<in>set as. foreign (now0 + seconds ttl0) r o1 a"
    and "now \<le> now0 + seconds ttl0" "o2 \<noteq> o1"
  shows "\<not> fst (claim now ttl r o2 (lease_run claim release as (snd (claim now0 ttl0 r o1 s))))"
proof -
  have "ok (snd (claim now0 ttl0 r o1 s))" using assms by (simp add: claim_ok)
  with run_foreign [OF this assms(3)] granted [OF assms(1,2)]
  have "ok (lease_run claim release as (snd (claim now0 ttl0 r o1 s)))"
    and "holds (lease_run claim release as (snd (claim now0 ttl0 r o1 s))) r now o1"
    using assms by auto
  with assms denied show ?thesis by fastforce
qed

end

section \<open>The leases of the sector tables\<close>

type_synonym resource = "string \<times> uuid"

definition resource_lock :: "db \<Rightarrow> resource \<Rightarrow> lock option" where
  "resource_lock d r =
     (case r of (kind, i) \<Rightarrow>
        if kind = ''account'' then lock_at sa_id sa_lock i (sector_accounts d)
        else if kind = ''sim'' then lock_at ss_id ss_lock i (sector_sims d)
        else if kind = ''proxy'' then lock_at sp_id sp_lock i (sector_proxies d)
        else None)"

definition holds_lease :: "db \<Rightarrow> resource \<Rightarrow> datetime \<Rightarrow> string \<Rightarrow> bool" where
  "holds_lease d r t owner =
     (case resource_lock d r of
        Some (Some u, Some b) \<Rightarrow> b = owner \<and> t \<le> u
      | _ \<Rightarrow> False)"

definition lock_keys :: "db \<Rightarrow> bool" where
  \<comment> \<open>the primary keys of the three tables\<close>
  "lock_keys d = (distinct (map sa_id (sector_accounts d)) \<and> distinct (map ss_id (sector_sims d))
     \<and> distinct (map sp_id (sector_proxies d)))"

definition try_claim :: "datetime \<Rightarrow> int \<Rightarrow> resource \<Rightarrow> string \<Rightarrow> db \<Rightarrow> bool \<times> db" where
  "try_claim now ttl r owner d =
     (case claim_resource now (fst r) (snd r) owner ttl d of (res, d') \<Rightarrow> (res = Inr True, d'))"

definition do_release :: "resource \<Rightarrow> string \<Rightarrow> db \<Rightarrow> db" where
  "do_release r owner d = snd (release_resource (fst r) (snd r) owner d)"

lemma try_claim_account:
  assumes "claim_rows sa_id sa_lock sa_set_lock now i owner ttl (sector_accounts d) = Inr (b, t)"
  shows "try_claim now ttl (''account'', i) owner d = (b, d\<lparr>sector_accounts := t\<rparr>)"
  using assms by (simp add: try_claim_def claim_resource_def session_def)

lemma try_claim_sim:
  assumes "claim_rows ss_id ss_lock ss_set_lock now i owner ttl (sector_sims d) = Inr (b, t)"
  shows "try_claim now ttl (''sim'', i) owner d = (b, d\<lparr>sector_sims := t\<rparr>)"
  using assms by (simp add: try_claim_def claim_resource_def session_def)

lemma try_claim_proxy:
  assumes "claim_rows sp_id sp_lock sp_set_lock now i owner ttl (sector_proxies d) = Inr (b, t)"
  shows "try_claim now ttl (''proxy'', i) owner d = (b, d\<lparr>sector_proxies := t\<rparr>)"
  using assms by (simp add: try_claim_def claim_resource_def session_def)

lemma try_claim_unknown:
  assumes "kind \<notin> {''account'', ''sim'', ''proxy''}"
  shows "try_claim now ttl (kind, i) owner d = (False, d)"
  using assms by (simp add: try_claim_def claim_resource_def)

definition claim_effect :: "datetime \<Rightarrow> int \<Rightarrow> resource \<Rightarrow> string \<Rightarrow> db \<Rightarrow> bool \<times> db \<Rightarrow> bool" where
  \<comment> \<open>what a claim does to the leases\<close>
  "claim_effect now ttl r owner d res =
     (lock_keys (snd res)
      \<and> (fst res \<longleftrightarrow> (case resource_lock d r of None \<Rightarrow> False | Some l \<Rightarrow> claimable now owner l))
      \<and> (\<forall>r'. resource_lock (snd res) r' =
           (if r' = r then map_option (\<lambda>l. if claimable now owner l
                                          then (Some (now + seconds ttl), Some owner) else l) (resource_lock d r)
            else resource_lock d r'))
      \<and> (\<not> fst res \<longrightarrow> snd res = d))"

lemma try_claim_effect:
  assumes "lock_keys d"
  shows "claim_effect now ttl r owner d (try_claim now ttl r owner d)"
proof -
  obtain kind i where r: "r = (kind, i)" by (cases r)
  have keys: "distinct (map sa_id (sector_accounts d))" "distinct (map ss_id (sector_sims d))"
    "distinct (map sp_id (sector_proxies d))"
    using assms by (simp_all add: lock_keys_def)
  consider "kind = ''account''" | "kind = ''sim''" | "kind = ''proxy''"
    | "kind \<notin> {''account'', ''sim'', ''proxy''}" by blast
  then show ?thesis
  proof cases
    case 1
    obtain b t where t: "claim_rows sa_id sa_lock sa_set_lock now i owner ttl (sector_accounts d) = Inr (b, t)"
      and "b \<longleftrightarrow> (case lock_at sa_id sa_lock i (sector_accounts d) of None \<Rightarrow> False | Some l \<Rightarrow> claimable now owner l)"
      and "\<And>j. lock_at sa_id sa_lock j t = (if j = i then map_option (\<lambda>l. if claimable now owner l
             then (Some (now + seconds ttl), Some owner) else l) (lock_at sa_id sa_lock i (sector_accounts d))
           else lock_at sa_id sa_lock j (sector_accounts d))"
      and "map sa_id t = map sa_id (sector_accounts d)" and "\<not> b \<Longrightarrow> t = sector_accounts d"
      by (rule sa.claim_rowsE [OF keys(1)]) blast
    with 1 r keys show ?thesis
      by (simp add: claim_effect_def try_claim_account [OF t] lock_keys_def resource_lock_def split: prod.splits)
  next
    case 2
    obtain b t where t: "claim_rows ss_id ss_lock ss_set_lock now i owner ttl (sector_sims d) = Inr (b, t)"
      and "b \<longleftrightarrow> (case lock_at ss_id ss_lock i (sector_sims d) of None \<Rightarrow> False | Some l \<Rightarrow> claimable now owner l)"
      and "\<And>j. lock_at ss_id ss_lock j t = (if j = i then map_option (\<lambda>l. if claimable now owner l
             then (Some (now + seconds ttl), Some owner) else l) (lock_at ss_id ss_lock i (sector_sims d))
           else lock_at ss_id ss_lock j (sector_sims d))"
      and "map ss_id t = map ss_id (sector_sims d)" and "\<not> b \<Longrightarrow> t = sector_sims d"
      by (rule ss.claim_rowsE [OF keys(2)]) blast
    with 2 r keys show ?thesis
      by (simp add: claim_effect_def try_claim_sim [OF t] lock_keys_def resource_lock_def split: prod.splits)
  next
    case 3
    obtain b t where t: "claim_rows sp_id sp_lock sp_set_lock now i owner ttl (sector_proxies d) = Inr (b, t)"
      and "b \<longleftrightarrow> (case lock_at sp_id sp_lock i (sector_proxies d) of None \<Rightarrow> False | Some l \<Rightarrow> claimable now owner l)"
      and "\<And>j. lock_at sp_id sp_lock j t = (if j = i then map_option (\<lambda>l. if claimable now owner l
             then (Some (now + seconds ttl), Some owner) else l) (lock_at sp_id sp_lock i (sector_proxies d))
           else lock_at sp_id sp_lock j (sector_proxies d))"
      and "map sp_id t = map sp_id (sector_proxies d)" and "\<not> b \<Longrightarrow> t = sector_proxies d"
      by (rule sp.claim_rowsE [OF keys(3)]) blast
    with 3 r keys show ?thesis
      by (simp add: claim_effect_def try_claim_proxy [OF t] lock_keys_def resource_lock_def split: prod.splits)
  next
    case 4
    with r assms show ?thesis
      by (simp add: claim_effect_def try_claim_unknown [OF 4] resource_lock_def)
  qed
qed

lemma try_claim_granted_iff:
  "lock_keys d \<Longrightarrow> fst (try_claim now ttl r owner d) \<longleftrightarrow>
     (case resource_lock d r of None \<Rightarrow> False | Some l \<Rightarrow> claimable now owner l)"
  using try_claim_effect [of d now ttl r owner] by (simp add: claim_effect_def)

lemma try_claim_lock:
  "lock_keys d \<Longrightarrow> resource_lock (snd (try_claim now ttl r owner d)) r' =
     (if r' = r then map_option (\<lambda>l. if claimable now owner l
                                    then (Some (now + seconds ttl), Some owner) else l) (resource_lock d r)
      else resource_lock d r')"
  using try_claim_effect [of d now ttl r owner] unfolding claim_effect_def by blast

lemma try_claim_keys: "lock_keys d \<Longrightarrow> lock_keys (snd (try_claim now ttl r owner d))"
  using try_claim_effect [of d now ttl r owner] by (simp add: claim_effect_def)

lemma try_claim_denied: "lock_keys d \<Longrightarrow> \<not> fst (try_claim now ttl r owner d) \<Longrightarrow>
    try_claim now ttl r owner d = (False, d)"
  using try_claim_effect [of d now ttl r owner] by (simp add: claim_effect_def prod_eq_iff)

lemma do_release_lock:
  "resource_lock (do_release r owner d) r' =
    (if r' = r then map_option (\<lambda>l. if snd l = Some owner then (None, None) else l) (resource_lock d r)
     else resource_lock d r')"
  by (cases r; cases r')
    (simp add: do_release_def release_resource_def resource_lock_def option.map_ident
      sa.release_rows_lock ss.release_rows_lock sp.release_rows_lock)

lemma do_release_keys: "lock_keys d \<Longrightarrow> lock_keys (do_release r owner d)"
  by (cases r)
    (auto simp: do_release_def release_resource_def lock_keys_def
      sa.release_rows_ids ss.release_rows_ids sp.release_rows_ids)

interpretation sector_lease: lease lock_keys holds_lease try_claim do_release
proof
  fix d :: db and now ttl r o1
  assume "lock_keys d"
  then show "lock_keys (snd (try_claim now ttl r o1 d))" by (rule try_claim_keys)
next
  fix d :: db and r o1
  assume "lock_keys d"
  then show "lock_keys (do_release r o1 d)" by (rule do_release_keys)
next
  fix d r t o1 o2
  assume "holds_lease d r t o1" "holds_lease d r t o2"
  then show "o1 = o2" by (auto simp: holds_lease_def split: option.splits)
next
  fix d r now o1 o2 ttl
  assume *: "lock_keys d" "holds_lease d r now o1" "o2 \<noteq> o1"
  then obtain u where u: "resource_lock d r = Some (Some u, Some o1)" "now \<le> u"
    by (auto simp: holds_lease_def split: option.splits)
  with * have "\<not> claimable now o2 (Some u, Some o1)" by (simp add: claimable_def)
  with * u show "try_claim now ttl r o2 d = (False, d)"
    by (simp add: try_claim_denied try_claim_granted_iff)
next
  fix d now ttl r o1 t
  assume "lock_keys d" "fst (try_claim now ttl r o1 d)" "t \<le> now + seconds ttl"
  then show "holds_lease (snd (try_claim now ttl r o1 d)) r t o1"
    by (auto simp: holds_lease_def try_claim_lock try_claim_granted_iff split: option.splits)
next
  fix d and r' r :: resource and now ttl o1 t o2
  assume "lock_keys d" "r' \<noteq> r"
  then show "holds_lease (snd (try_claim now ttl r o1 d)) r' t o2 = holds_lease d r' t o2"
    by (simp add: holds_lease_def try_claim_lock)
next
  fix d r t and o1 :: string
  show "\<not> holds_lease (do_release r o1 d) r t o1"
    by (auto simp: holds_lease_def do_release_lock split: option.splits)
next
  fix d and r' r :: resource and t and o2 o1 :: string
  assume "(r', o2) \<noteq> (r, o1)"
  then show "holds_lease (do_release r o1 d) r' t o2 = holds_lease d r' t o2"
    by (auto simp: holds_lease_def do_release_lock split: option.splits)
qed

section \<open>Properties\<close>

lemmas resource_eval = try_claim_def do_release_def claim_resource_def release_resource_def session_def
  claim_rows_def release_rows_def claimable_def one_or_none_def lock_defs lock_keys_def

definition demo_account_row :: sector_account where
  "demo_account_row = \<lparr>sa_id = 1, sa_sector_id = 7, sa_account_id = 9, sa_daily_limit = 10,
     sa_locked_until = None, sa_locked_by = None\<rparr>"

definition demo_lock_db :: db where
  "demo_lock_db = empty_db\<lparr>sector_accounts := [demo_account_row]\<rparr>"

text \<open>
  C2. Mutual exclusion of sector resources. Once \<open>claim_resource\<close> has granted a resource to an
  owner for \<open>ttl\<close> seconds, no claim by another owner is granted up to that deadline, after any
  sequence of claims (of this resource by others, or of other resources by anyone) and releases
  that are not the owner's own; and the denied claim leaves the database as it is.
\<close>

theorem lease_mutual_exclusion:
  assumes "lock_keys d"
    and "try_claim now0 ttl0 r owner d = (True, d1)"
    and "\<forall>a\<in>set ops. foreign (now0 + seconds ttl0) r owner a"
    and "now \<le> now0 + seconds ttl0" and "other \<noteq> owner"
  shows "try_claim now ttl r other (lease_run try_claim do_release ops d1)
           = (False, lease_run try_claim do_release ops d1)"
proof (rule try_claim_denied)
  have "lock_keys d1" using try_claim_keys [OF assms(1), of now0 ttl0 r owner] assms(2) by simp
  then show "lock_keys (lease_run try_claim do_release ops d1)"
    using sector_lease.run_foreign [OF _ assms(3)] sector_lease.granted [OF assms(1), of now0 ttl0 r owner] assms(2)
    by simp
  show "\<not> fst (try_claim now ttl r other (lease_run try_claim do_release ops d1))"
    using sector_lease.mutual_exclusion [OF assms(1) _ assms(3-5), of ttl] assms(2) by simp
qed

lemma lease_mutual_exclusion_witness:
  "try_claim 5 300 (''account'', 1) ''run-b''
     (lease_run try_claim do_release [Claim 2 300 (''account'', 1) ''run-c'', Release (''account'', 1) ''run-b'']
        (snd (try_claim 0 300 (''account'', 1) ''run-a'' demo_lock_db)))
   = (False, snd (try_claim 0 300 (''account'', 1) ''run-a'' demo_lock_db))"
proof -
  define d1 where "d1 = snd (try_claim 0 300 (''account'', 1) ''run-a'' demo_lock_db)"
  have claim: "try_claim 0 300 (''account'', 1) ''run-a'' demo_lock_db = (True, d1)"
    by (simp add: d1_def resource_eval demo_lock_db_def demo_account_row_def empty_db_def)
  have run: "lease_run try_claim do_release
      [Claim 2 300 (''account'', 1) ''run-c'', Release (''account'', 1) ''run-b''] d1 = d1"
    by (simp add: d1_def lease_run_def resource_eval demo_lock_db_def demo_account_row_def empty_db_def seconds_def)
  have "lock_keys demo_lock_db"
    by (simp add: lock_keys_def demo_lock_db_def demo_account_row_def empty_db_def)
  then have "try_claim 5 300 (''account'', 1) ''run-b'' (lease_run try_claim do_release
      [Claim 2 300 (''account'', 1) ''run-c'', Release (''account'', 1) ''run-b''] d1)
    = (False, lease_run try_claim do_release
      [Claim 2 300 (''account'', 1) ''run-c'', Release (''account'', 1) ''run-b''] d1)"
    by (rule lease_mutual_exclusion [OF _ claim]) (auto simp: seconds_def)
  then show ?thesis using run by (simp only: d1_def)
qed

text \<open>
  Exact effect of a claim. With unique primary keys, \<open>claim_resource\<close> grants exactly when the row
  exists and its lock is absent, expired, or already the owner's (so an owner can renew); a granted
  claim sets the lock of that row, to the owner and to the new deadline, and changes the lock of no
  other resource; a denied claim changes nothing.
\<close>

theorem claim_resource_exact:
  assumes "lock_keys d" "kind \<in> {''account'', ''sim'', ''proxy''}"
    and "claim_resource now kind i owner ttl d = (res, d')"
  shows "(res = Inr True \<and> (\<exists>l. resource_lock d (kind, i) = Some l \<and> claimable now owner l)
            \<and> resource_lock d' (kind, i) = Some (Some (now + seconds ttl), Some owner)
            \<and> (\<forall>r. r \<noteq> (kind, i) \<longrightarrow> resource_lock d' r = resource_lock d r))
       \<or> (res = Inr False \<and> d' = d
            \<and> (\<forall>l. resource_lock d (kind, i) = Some l \<longrightarrow> \<not> claimable now owner l))"
proof -
  have res: "\<exists>b. res = Inr b"
  proof -
    have k: "distinct (map sa_id (sector_accounts d))" "distinct (map ss_id (sector_sims d))"
      "distinct (map sp_id (sector_proxies d))" using assms(1) by (simp_all add: lock_keys_def)
    show ?thesis
      using assms(2,3)
      by (auto simp: claim_resource_def session_def sa.claim_rows_eq [OF k(1)] ss.claim_rows_eq [OF k(2)]
          sp.claim_rows_eq [OF k(3)] simp del: split_paired_All split_paired_Ex split: prod.splits)
  qed
  have "claim_effect now ttl (kind, i) owner d (res = Inr True, d')"
    using try_claim_effect [OF assms(1), of now ttl "(kind, i)" owner] assms(3) by (simp add: try_claim_def)
  with res show ?thesis
    by (cases "resource_lock d (kind, i)")
      (auto simp: claim_effect_def simp del: split_paired_All split_paired_Ex split: if_splits)
qed

lemma claim_resource_exact_witness:
  "resource_lock (snd (claim_resource 10 ''account'' 1 ''run-a'' 300 demo_lock_db)) (''account'', 1)
     = Some (Some (10 + seconds 300), Some ''run-a'')"
proof -
  have "lock_keys demo_lock_db"
    by (simp add: lock_keys_def demo_lock_db_def demo_account_row_def empty_db_def)
  from claim_resource_exact [OF this, of "''account''" 10 1 "''run-a''" 300]
  show ?thesis
    by (auto simp: demo_lock_db_def demo_account_row_def empty_db_def resource_eval resource_lock_def lock_at_def)
qed

end
