(* ===== verification/Warm_Up.thy ===== *)
theory Warm_Up
  imports Tables
begin

text \<open>
  \<open>app/services/warm_up.py\<close>: promotion of warmed-up platform accounts and the health score of an
  account. The batch reads the \<open>EN_CHAUFFE\<close> accounts in one session and updates each one in a
  session of its own; the lemmas show that this is one pass of a row function over the table. An
  age in hours is compared exactly (the float quotient is only compared with whole hours).
\<close>

section \<open>Definitions\<close>

fun trust_order :: "datadome_trust_level \<Rightarrow> int" where
  "trust_order TRUST_LOW = 0"
| "trust_order TRUST_MEDIUM = 1"
| "trust_order TRUST_HIGH = 2"

definition trust_ge_medium :: "datadome_trust_level \<Rightarrow> bool" where
  "trust_ge_medium level = (trust_order level \<ge> trust_order TRUST_MEDIUM)"

datatype verdict = Kept | Promoted | Slowed

definition can_promote :: "platform_account \<Rightarrow> bool" where
  "can_promote a = (trust_ge_medium (pa_datadome_trust_level a) \<and> pa_score_sante a \<ge> 70
     \<and> pa_erreurs_24h a \<le> 3)"

definition warmup_verdict :: "datetime \<Rightarrow> platform_account \<Rightarrow> verdict" where
  "warmup_verdict now a =
     (let age = now - pa_date_creation a in
      if age < hours 48 then Kept
      else if can_promote a then Promoted
      else if age \<ge> hours 72 then Slowed
      else Kept)"

definition warmup_update :: "datetime \<Rightarrow> verdict \<Rightarrow> platform_account \<Rightarrow> platform_account \<Rightarrow> platform_account" where
  \<comment> \<open>the values written, computed from the account \<open>a\<close> that was read, on the stored row \<open>r\<close>\<close>
  "warmup_update now v a r =
     (case v of
        Kept \<Rightarrow> r
      | Promoted \<Rightarrow> r\<lparr>pa_status := ACTIF, pa_quota_actuel := min (pa_quota_actuel a + 5) 30,
                     pa_derniere_action := Some now\<rparr>
      | Slowed \<Rightarrow> r\<lparr>pa_status := RALENTI, pa_quota_actuel := max (pa_quota_actuel a - 5) 5,
                   pa_derniere_action := Some now\<rparr>)"

definition warming :: "platform_account \<Rightarrow> bool" where
  "warming a = (pa_deleted_at a = None \<and> pa_status a = EN_CHAUFFE)"

record warmup_counts =
  wu_promoted :: int
  wu_kept :: int
  wu_slowed :: int

fun count_verdict :: "verdict \<Rightarrow> warmup_counts \<Rightarrow> warmup_counts" where
  "count_verdict Kept c = c\<lparr>wu_kept := wu_kept c + 1\<rparr>"
| "count_verdict Promoted c = c\<lparr>wu_promoted := wu_promoted c + 1\<rparr>"
| "count_verdict Slowed c = c\<lparr>wu_slowed := wu_slowed c + 1\<rparr>"

definition evaluate_account :: "datetime \<Rightarrow> platform_account \<Rightarrow> warmup_counts \<times> db \<Rightarrow> warmup_counts \<times> db" where
  \<comment> \<open>one turn of the loop; \<open>Kept\<close> is its \<open>continue\<close>\<close>
  "evaluate_account now a s =
     (case s of (c, d) \<Rightarrow>
        let v = warmup_verdict now a in
        (count_verdict v c,
         if v = Kept then d
         else d\<lparr>platform_accounts :=
                  update_where (\<lambda>r. pa_id r = pa_id a) (warmup_update now v a) (platform_accounts d)\<rparr>))"

definition evaluate_warmup_batch :: "datetime \<Rightarrow> db \<Rightarrow> warmup_counts \<times> db" where
  "evaluate_warmup_batch now d =
     fold (evaluate_account now) (filter warming (platform_accounts d))
       (\<lparr>wu_promoted = 0, wu_kept = 0, wu_slowed = 0\<rparr>, d)"

definition health_after :: "bool \<Rightarrow> platform_account \<Rightarrow> int \<times> int \<times> account_status" where
  "health_after success a =
     (if success then (min (pa_score_sante a + 2) 100, pa_erreurs_24h a, pa_status a)
      else
        let new_score = max (pa_score_sante a - 10) 0; new_errors = pa_erreurs_24h a + 1 in
        (new_score, new_errors,
         if new_errors \<ge> 10 \<or> new_score \<le> 0 then BLOQUE
         else if new_errors \<ge> 5 \<or> new_score \<le> 30 then RALENTI
         else pa_status a))"

definition health_update :: "datetime \<Rightarrow> int \<times> int \<times> account_status \<Rightarrow> platform_account \<Rightarrow> platform_account" where
  "health_update now h r = (case h of (score, errs, st) \<Rightarrow>
     r\<lparr>pa_score_sante := score, pa_erreurs_24h := errs, pa_status := st, pa_derniere_action := Some now\<rparr>)"

definition update_account_health :: "datetime \<Rightarrow> ref \<Rightarrow> bool \<Rightarrow> db \<Rightarrow> unit result \<times> db" where
  "update_account_health now account_id success d =
     (case uuid_of_ref account_id of
        Inl e \<Rightarrow> (Inl e, d)
      | Inr u \<Rightarrow> session (\<lambda>d.
          (case find_row (\<lambda>a. pa_id a = u \<and> pa_deleted_at a = None) (platform_accounts d) of
             None \<Rightarrow> Inr ((), d)
           | Some a \<Rightarrow> Inr ((), d\<lparr>platform_accounts :=
               update_where (\<lambda>r. pa_id r = u) (health_update now (health_after success a))
                 (platform_accounts d)\<rparr>))) d)"

section \<open>The batch is a map over the table\<close>

definition warmup_row :: "datetime \<Rightarrow> platform_account \<Rightarrow> platform_account" where
  "warmup_row now r = (if warming r then warmup_update now (warmup_verdict now r) r r else r)"

definition verdicts :: "datetime \<Rightarrow> db \<Rightarrow> verdict list" where
  "verdicts now d = map (warmup_verdict now) (filter warming (platform_accounts d))"

lemma warmup_update_Kept [simp]: "warmup_update now Kept a r = r"
  by (simp add: warmup_update_def)

lemma warmup_update_id [simp]: "pa_id (warmup_update now v a r) = pa_id r"
  by (simp add: warmup_update_def split: verdict.splits)

lemma evaluate_account_Pair:
  "evaluate_account now a (c, d) =
     (count_verdict (warmup_verdict now a) c,
      d\<lparr>platform_accounts := update_where (\<lambda>r. pa_id r = pa_id a)
          (warmup_update now (warmup_verdict now a) a) (platform_accounts d)\<rparr>)"
proof (cases "warmup_verdict now a = Kept")
  case True
  then have "update_where (\<lambda>r. pa_id r = pa_id a) (warmup_update now (warmup_verdict now a) a)
      (platform_accounts d) = platform_accounts d"
    by (auto simp: update_where_def intro: map_idI)
  with True show ?thesis by (simp add: evaluate_account_def)
next
  case False
  then show ?thesis by (simp add: evaluate_account_def Let_def)
qed

lemma fold_evaluate:
  "fold (evaluate_account now) as (c, d) =
     (fold count_verdict (map (warmup_verdict now) as) c,
      d\<lparr>platform_accounts := fold (\<lambda>a. update_where (\<lambda>r. pa_id r = pa_id a)
          (warmup_update now (warmup_verdict now a) a)) as (platform_accounts d)\<rparr>)"
  by (induction as arbitrary: c d) (simp_all add: evaluate_account_Pair del: One_nat_def)

text \<open>An update keyed by the identifier touches exactly its own row.\<close>

lemma fold_update_by_id:
  assumes "distinct (map pa_id as)" "\<And>a r. pa_id (f a r) = pa_id r"
  shows "fold (\<lambda>a. update_where (\<lambda>r. pa_id r = pa_id a) (f a)) as t =
    map (\<lambda>r. case find_row (\<lambda>a. pa_id a = pa_id r) as of None \<Rightarrow> r | Some a \<Rightarrow> f a r) t"
  using assms(1)
proof (induction as arbitrary: t)
  case Nil
  then show ?case by simp
next
  case (Cons a as)
  have "find_row (\<lambda>b. pa_id b = pa_id a) as = None"
    using Cons.prems by (auto simp: find_row_None_iff image_iff)
  with Cons show ?case
    by (auto simp: update_where_def assms(2) split: option.splits)
qed

lemma find_by_id:
  assumes "distinct (map pa_id t)" "r \<in> set t"
  shows "find_row (\<lambda>a. pa_id a = pa_id r) (filter P t) = (if P r then Some r else None)"
  using assms by (induction t) (auto simp: find_row_None_iff image_iff)

lemma evaluate_warmup_batch_table:
  assumes "distinct (map pa_id (platform_accounts d))"
  shows "platform_accounts (snd (evaluate_warmup_batch now d)) = map (warmup_row now) (platform_accounts d)"
proof -
  have "distinct (map pa_id (filter warming (platform_accounts d)))"
    using assms by (rule distinct_map_filter)
  then show ?thesis
    by (auto simp: evaluate_warmup_batch_def fold_evaluate fold_update_by_id warmup_row_def
        find_by_id [OF assms])
qed

lemma fold_count_verdict:
  "fold count_verdict vs c =
     c\<lparr>wu_promoted := wu_promoted c + int (count_list vs Promoted),
       wu_kept := wu_kept c + int (count_list vs Kept),
       wu_slowed := wu_slowed c + int (count_list vs Slowed)\<rparr>"
proof (induction vs arbitrary: c)
  case Nil
  then show ?case by simp
next
  case (Cons v vs)
  then show ?case by (cases v) simp_all
qed

lemma evaluate_warmup_batch_counts:
  "fst (evaluate_warmup_batch now d) =
     \<lparr>wu_promoted = int (count_list (verdicts now d) Promoted),
      wu_kept = int (count_list (verdicts now d) Kept),
      wu_slowed = int (count_list (verdicts now d) Slowed)\<rparr>"
  by (simp add: evaluate_warmup_batch_def fold_evaluate fold_count_verdict verdicts_def)

lemma count_verdicts_total:
  "count_list vs Promoted + count_list vs Kept + count_list vs Slowed = length vs"
proof (induction vs)
  case Nil
  then show ?case by simp
next
  case (Cons v vs)
  then show ?case by (cases v) simp_all
qed

lemma warmup_verdict_Promoted:
  "warmup_verdict now a = Promoted \<longleftrightarrow> pa_date_creation a + hours 48 \<le> now \<and> can_promote a"
  by (auto simp: warmup_verdict_def Let_def)

lemma warmup_verdict_Slowed:
  "warmup_verdict now a = Slowed \<longleftrightarrow> pa_date_creation a + hours 72 \<le> now \<and> \<not> can_promote a"
  by (auto simp: warmup_verdict_def Let_def hours_def seconds_def)

section \<open>Health\<close>

definition health_step :: "datetime \<Rightarrow> bool \<Rightarrow> platform_account \<Rightarrow> platform_account" where
  "health_step now success a = health_update now (health_after success a) a"

text \<open>On the row of the account, the operation is \<open>health_step\<close>; every other row is kept.\<close>

lemma update_account_health_table:
  assumes "distinct (map pa_id (platform_accounts d))"
  shows "platform_accounts (snd (update_account_health now (RUuid u) success d)) =
    map (\<lambda>r. if pa_id r = u \<and> pa_deleted_at r = None then health_step now success r else r)
      (platform_accounts d)"
proof (cases "find_row (\<lambda>a. pa_id a = u \<and> pa_deleted_at a = None) (platform_accounts d)")
  case None
  then have "platform_accounts (snd (update_account_health now (RUuid u) success d)) = platform_accounts d"
    by (simp add: update_account_health_def session_def)
  moreover have "\<forall>r\<in>set (platform_accounts d). \<not> (pa_id r = u \<and> pa_deleted_at r = None)"
    using None by (simp add: find_row_None_iff)
  ultimately show ?thesis by (auto intro!: map_idI [symmetric])
next
  case (Some a)
  then have a: "a \<in> set (platform_accounts d)" "pa_id a = u" "pa_deleted_at a = None"
    by (auto dest: find_row_SomeD)
  then have only: "r = a" if "r \<in> set (platform_accounts d)" "pa_id r = u" for r
    using assms that by (auto simp: distinct_map dest: inj_onD)
  have "platform_accounts (snd (update_account_health now (RUuid u) success d)) =
      map (\<lambda>r. if pa_id r = u then health_update now (health_after success a) r else r) (platform_accounts d)"
    using Some by (simp add: update_account_health_def session_def update_where_def)
  also have "\<dots> = map (\<lambda>r. if pa_id r = u \<and> pa_deleted_at r = None then health_step now success r else r)
      (platform_accounts d)"
    by (rule map_cong [OF refl]) (use only a(3) in \<open>metis health_step_def\<close>)
  finally show ?thesis .
qed

lemma health_step_simps [simp]:
  "pa_id (health_step now b a) = pa_id a" "pa_deleted_at (health_step now b a) = pa_deleted_at a"
  "pa_score_sante (health_step now b a) = fst (health_after b a)"
  "pa_erreurs_24h (health_step now b a) = fst (snd (health_after b a))"
  "pa_status (health_step now b a) = snd (snd (health_after b a))"
  by (simp_all add: health_step_def health_update_def split: prod.splits)

definition healthy_row :: "platform_account \<Rightarrow> bool" where
  "healthy_row a = (0 \<le> pa_score_sante a \<and> pa_score_sante a \<le> 100 \<and> 0 \<le> pa_erreurs_24h a)"

lemma health_step_healthy: "healthy_row a \<Longrightarrow> healthy_row (health_step now b a)"
  by (auto simp: healthy_row_def health_after_def Let_def)

fun health_run :: "(datetime \<times> bool) list \<Rightarrow> platform_account \<Rightarrow> platform_account" where
  "health_run [] a = a"
| "health_run ((now, success) # es) a = health_run es (health_step now success a)"

lemma health_run_failures:
  assumes "\<forall>e\<in>set es. \<not> snd e"
  shows "pa_erreurs_24h (health_run es a) = pa_erreurs_24h a + int (length es)"
  using assms by (induction es arbitrary: a) (auto simp: health_after_def Let_def)

lemma health_run_append: "health_run (es @ fs) a = health_run fs (health_run es a)"
  by (induction es arbitrary: a) auto

section \<open>Properties\<close>

definition demo_account :: "uuid \<Rightarrow> datadome_trust_level \<Rightarrow> int \<Rightarrow> platform_account" where
  "demo_account i trust created = \<lparr>pa_id = i, pa_email = ''a@b.fr'', pa_phone_otp = None, pa_status = EN_CHAUFFE,
     pa_datadome_trust_level = trust, pa_datadome_cookie = None, pa_datadome_cookie_updated_at = None,
     pa_session_path = None, pa_browser_use_profile_id = None, pa_browser_use_session_id = None,
     pa_deleted_at = None, pa_score_sante = 80, pa_quota_actuel = 28, pa_erreurs_24h = 0,
     pa_date_creation = created, pa_derniere_action = None\<rparr>"

lemmas demo_account_simps = demo_account_def empty_db_def

text \<open>
  The rules as the specification states them, in microseconds: an account that is live and warming up is
  promoted after 48 hours (172 800 s) when its trust level is at least MEDIUM, its health at least 70 and its
  errors at most 3; one that may not be promoted is slowed down after 72 hours (259 200 s).
\<close>

definition promotion_due :: "datetime \<Rightarrow> platform_account \<Rightarrow> bool" where
  "promotion_due now a \<longleftrightarrow> pa_deleted_at a = None \<and> pa_status a = EN_CHAUFFE
     \<and> now - pa_date_creation a \<ge> 172800 * 1000000
     \<and> pa_datadome_trust_level a \<in> {TRUST_MEDIUM, TRUST_HIGH} \<and> 70 \<le> pa_score_sante a \<and> pa_erreurs_24h a \<le> 3"

definition slowdown_due :: "datetime \<Rightarrow> platform_account \<Rightarrow> bool" where
  "slowdown_due now a \<longleftrightarrow> pa_deleted_at a = None \<and> pa_status a = EN_CHAUFFE
     \<and> now - pa_date_creation a \<ge> 259200 * 1000000
     \<and> (pa_datadome_trust_level a = TRUST_LOW \<or> pa_score_sante a < 70 \<or> 3 < pa_erreurs_24h a)"

definition spec_row :: "datetime \<Rightarrow> platform_account \<Rightarrow> platform_account" where
  "spec_row now r =
     (if promotion_due now r then r\<lparr>pa_status := ACTIF, pa_quota_actuel := min 30 (pa_quota_actuel r + 5), pa_derniere_action := Some now\<rparr>
      else if slowdown_due now r then r\<lparr>pa_status := RALENTI, pa_quota_actuel := max 5 (pa_quota_actuel r - 5), pa_derniere_action := Some now\<rparr>
      else r)"

lemma can_promote_iff: "can_promote a \<longleftrightarrow> pa_datadome_trust_level a \<in> {TRUST_MEDIUM, TRUST_HIGH} \<and> 70 \<le> pa_score_sante a \<and> pa_erreurs_24h a \<le> 3"
  by (cases "pa_datadome_trust_level a") (simp_all add: can_promote_def trust_ge_medium_def)

lemma warming_verdicts:
  assumes "warming a"
  shows "warmup_verdict now a = Promoted \<longleftrightarrow> promotion_due now a" "warmup_verdict now a = Slowed \<longleftrightarrow> slowdown_due now a"
proof -
  show "warmup_verdict now a = Promoted \<longleftrightarrow> promotion_due now a"
    using assms by (auto simp: warmup_verdict_Promoted can_promote_iff promotion_due_def warming_def hours_def seconds_def)
  have "\<not> can_promote a \<longleftrightarrow> pa_datadome_trust_level a = TRUST_LOW \<or> pa_score_sante a < 70 \<or> 3 < pa_erreurs_24h a"
    by (cases "pa_datadome_trust_level a") (auto simp: can_promote_iff)
  then show "warmup_verdict now a = Slowed \<longleftrightarrow> slowdown_due now a"
    using assms by (auto simp: warmup_verdict_Slowed slowdown_due_def warming_def hours_def seconds_def)
qed

lemma warmup_row_spec: "warmup_row now r = spec_row now r"
proof (cases "warming r")
  case True
  show ?thesis
  proof (cases "warmup_verdict now r")
    case Kept
    then have "\<not> promotion_due now r" "\<not> slowdown_due now r" using warming_verdicts [OF True, of now] by auto
    with Kept show ?thesis by (simp add: warmup_row_def spec_row_def)
  next
    case Promoted
    then show ?thesis using True warming_verdicts [OF True, of now]
      by (simp add: warmup_row_def spec_row_def warmup_update_def min.commute)
  next
    case Slowed
    then have "\<not> promotion_due now r" "slowdown_due now r" using warming_verdicts [OF True, of now] by auto
    with Slowed True show ?thesis by (simp add: warmup_row_def spec_row_def warmup_update_def max.commute)
  qed
next
  case False
  then show ?thesis by (auto simp: warmup_row_def spec_row_def warming_def promotion_due_def slowdown_due_def)
qed

lemma count_verdict_filter:
  assumes "\<And>a. P a \<Longrightarrow> warming a" "\<And>a. warming a \<Longrightarrow> (warmup_verdict now a = v) = P a"
  shows "count_list (map (warmup_verdict now) (filter warming as)) v = length (filter P as)"
  by (induction as) (use assms in auto)

text \<open>
  C29. The warm-up batch applies the rules R04/R05. With unique account identifiers, \<open>evaluate_warmup_batch\<close>
  (one read session, then one update session per account) makes each live account that warms up
  \<open>ACTIF\<close>, with a quota five higher and at most 30, exactly when it is 48 hours old, trusted at least MEDIUM, with a
  health of at least 70 and at most three errors; makes it \<open>RALENTI\<close>, with a quota five lower and at least 5,
  exactly when it is 72 hours old and does not meet those conditions; changes no other row, field or table; and
  the counters it returns are the numbers of those accounts and of the ones it left.
\<close>

theorem warmup_batch_refines_map:
  assumes "distinct (map pa_id (platform_accounts d))"
    and "evaluate_warmup_batch now d = (c, d')"
  shows "d' = d\<lparr>platform_accounts := map (spec_row now) (platform_accounts d)\<rparr>
    \<and> wu_promoted c = int (length (filter (promotion_due now) (platform_accounts d)))
    \<and> wu_slowed c = int (length (filter (slowdown_due now) (platform_accounts d)))
    \<and> wu_promoted c + wu_kept c + wu_slowed c
        = int (length (filter (\<lambda>a. pa_deleted_at a = None \<and> pa_status a = EN_CHAUFFE) (platform_accounts d)))"
proof -
  have "d' = d\<lparr>platform_accounts := platform_accounts d'\<rparr>"
    using assms(2) by (auto simp: evaluate_warmup_batch_def fold_evaluate)
  moreover have "platform_accounts d' = map (spec_row now) (platform_accounts d)"
    using evaluate_warmup_batch_table [OF assms(1), of now] assms(2) by (simp add: warmup_row_spec [abs_def])
  moreover have "c = fst (evaluate_warmup_batch now d)" using assms(2) by simp
  moreover have "count_list (verdicts now d) Promoted = length (filter (promotion_due now) (platform_accounts d))"
    "count_list (verdicts now d) Slowed = length (filter (slowdown_due now) (platform_accounts d))"
    unfolding verdicts_def
    by (rule count_verdict_filter; simp add: warming_verdicts promotion_due_def slowdown_due_def warming_def)+
  moreover have "length (verdicts now d) = length (filter (\<lambda>a. pa_deleted_at a = None \<and> pa_status a = EN_CHAUFFE) (platform_accounts d))"
    by (simp add: verdicts_def warming_def [abs_def])
  ultimately show ?thesis
    using count_verdicts_total [of "verdicts now d"]
    by (simp add: evaluate_warmup_batch_counts flip: of_nat_add)
qed

lemma warmup_batch_refines_map_witness:
  "\<exists>c d'. evaluate_warmup_batch (hours 72)
      (empty_db\<lparr>platform_accounts := [demo_account 1 TRUST_HIGH (hours 24), demo_account 2 TRUST_LOW 0]\<rparr>) = (c, d')
     \<and> wu_promoted c = 1 \<and> wu_slowed c = 1 \<and> map pa_status (platform_accounts d') = [ACTIF, RALENTI]
     \<and> map pa_quota_actuel (platform_accounts d') = [30, 23]"
proof -
  define d where "d = empty_db\<lparr>platform_accounts := [demo_account 1 TRUST_HIGH (hours 24), demo_account 2 TRUST_LOW 0]\<rparr>"
  obtain c d' where e: "evaluate_warmup_batch (hours 72) d = (c, d')" by fastforce
  have "distinct (map pa_id (platform_accounts d))" by (simp add: d_def demo_account_simps)
  from warmup_batch_refines_map [OF this e]
  have "wu_promoted c = 1 \<and> wu_slowed c = 1 \<and> map pa_status (platform_accounts d') = [ACTIF, RALENTI]
     \<and> map pa_quota_actuel (platform_accounts d') = [30, 23]"
    by (simp add: d_def demo_account_simps spec_row_def promotion_due_def slowdown_due_def duration_defs)
  with e show ?thesis by (auto simp: d_def)
qed

text \<open>
  Promotion rules R04/R05. A batch makes an account \<open>ACTIF\<close> exactly when it is live, was
  \<open>EN_CHAUFFE\<close>, is at least 48 hours old, has a trust level of at least \<open>MEDIUM\<close>, a health score of
  at least 70 and at most 3 errors; a quota between 5 and 30 stays between 5 and 30, never falls on a
  promotion and never rises on a slow-down.
\<close>

theorem warmup_promotion_rules:
  assumes "5 \<le> pa_quota_actuel a" "pa_quota_actuel a \<le> 30" "pa_status a \<noteq> ACTIF"
  shows "(pa_status (warmup_row now a) = ACTIF \<longleftrightarrow>
            pa_deleted_at a = None \<and> pa_status a = EN_CHAUFFE \<and> pa_date_creation a + hours 48 \<le> now
            \<and> pa_datadome_trust_level a \<noteq> TRUST_LOW \<and> 70 \<le> pa_score_sante a \<and> pa_erreurs_24h a \<le> 3)
    \<and> pa_quota_actuel (warmup_row now a) \<in> {5..30}
    \<and> (pa_status (warmup_row now a) = ACTIF \<longrightarrow> pa_quota_actuel a \<le> pa_quota_actuel (warmup_row now a))
    \<and> (pa_status (warmup_row now a) = RALENTI \<longrightarrow> pa_quota_actuel (warmup_row now a) \<le> pa_quota_actuel a)"
proof -
  have trust: "trust_ge_medium l \<longleftrightarrow> l \<noteq> TRUST_LOW" for l
    by (cases l) (simp_all add: trust_ge_medium_def)
  show ?thesis
    using assms
    by (cases "warmup_verdict now a")
      (auto simp: warmup_row_def warming_def warmup_update_def warmup_verdict_def can_promote_def trust Let_def
        split: if_splits)
qed

lemma warmup_promotion_rules_witness:
  "pa_status (warmup_row (hours 48) (demo_account 1 TRUST_MEDIUM 0)) = ACTIF"
  using warmup_promotion_rules [of "demo_account 1 TRUST_MEDIUM 0" "hours 48"]
  by (simp add: demo_account_simps)

text \<open>
  Account health. Over any sequence of outcomes the score of an account stays in 0..100 and its
  error count does not become negative; and a sequence that ends with ten failures in a row ends
  with the account \<open>BLOQUE\<close>.
\<close>

theorem health_bounds_and_block:
  assumes "healthy_row a"
  shows "healthy_row (health_run es a)
    \<and> (\<forall>fs n1. length fs = 10 \<longrightarrow> (\<forall>e\<in>set fs. \<not> snd e) \<longrightarrow> es = n1 @ fs \<longrightarrow>
          pa_status (health_run es a) = BLOQUE)"
proof -
  have healthy: "healthy_row (health_run es a)" for es
    using assms
  proof (induction es arbitrary: a)
    case Nil
    then show ?case by simp
  next
    case (Cons e es)
    then show ?case by (cases e) (simp add: health_step_healthy)
  qed
  have "pa_status (health_run (n1 @ fs) a) = BLOQUE"
    if fs: "length fs = 10" "\<forall>e\<in>set fs. \<not> snd e" for fs n1
  proof -
    obtain gs e where gs: "fs = gs @ [e]" using fs(1) by (cases fs rule: rev_cases) auto
    define b where "b = health_run gs (health_run n1 a)"
    have "pa_erreurs_24h b = pa_erreurs_24h (health_run n1 a) + 9"
      unfolding b_def using fs gs by (subst health_run_failures) auto
    moreover have "0 \<le> pa_erreurs_24h (health_run n1 a)" using healthy [of n1] by (simp add: healthy_row_def)
    ultimately have "9 \<le> pa_erreurs_24h b" by simp
    moreover have "health_run (n1 @ fs) a = health_step (fst e) False b"
      using fs gs by (cases e) (simp add: b_def health_run_append)
    ultimately show ?thesis by (simp add: health_after_def Let_def)
  qed
  with healthy show ?thesis by blast
qed

lemma health_bounds_and_block_witness:
  "pa_status (health_run (replicate 10 (0, False)) (demo_account 1 TRUST_LOW 0)) = BLOQUE"
proof -
  have "healthy_row (demo_account 1 TRUST_LOW 0)" by (simp add: healthy_row_def demo_account_simps)
  from health_bounds_and_block [OF this, of "replicate 10 (0, False)"] show ?thesis
    by (metis append_Nil in_set_replicate length_replicate snd_conv)
qed

text \<open>
  A failure can unblock an account. \<open>update_account_health\<close> derives the new status from the
  counters alone: a live \<open>BLOQUE\<close> account (blocked by an operator, say) whose next failure is only
  the fifth to ninth, with a score that stays above 0, becomes \<open>RALENTI\<close>.
\<close>

theorem health_failure_unblocks:
  assumes "distinct (map pa_id (platform_accounts d))" "a \<in> set (platform_accounts d)"
    and "pa_deleted_at a = None" "pa_status a = BLOQUE"
    and "4 \<le> pa_erreurs_24h a" "pa_erreurs_24h a \<le> 8" "10 < pa_score_sante a"
  shows "\<exists>a'\<in>set (platform_accounts (snd (update_account_health now (RUuid (pa_id a)) False d))).
    pa_id a' = pa_id a \<and> pa_status a' = RALENTI"
proof
  show "pa_id (health_step now False a) = pa_id a \<and> pa_status (health_step now False a) = RALENTI"
    using assms by (simp add: health_after_def Let_def)
  show "health_step now False a \<in> set (platform_accounts (snd (update_account_health now (RUuid (pa_id a)) False d)))"
    using assms(2,3) by (auto simp: update_account_health_table [OF assms(1)] image_iff intro!: bexI [of _ a])
qed

lemma health_failure_unblocks_witness:
  "\<exists>a'\<in>set (platform_accounts (snd (update_account_health 0 (RUuid 1) False
       (empty_db\<lparr>platform_accounts := [(demo_account 1 TRUST_LOW 0)\<lparr>pa_status := BLOQUE, pa_erreurs_24h := 4\<rparr>]\<rparr>)))).
     pa_id a' = 1 \<and> pa_status a' = RALENTI"
  using health_failure_unblocks [of "empty_db\<lparr>platform_accounts :=
      [(demo_account 1 TRUST_LOW 0)\<lparr>pa_status := BLOQUE, pa_erreurs_24h := 4\<rparr>]\<rparr>"
      "(demo_account 1 TRUST_LOW 0)\<lparr>pa_status := BLOQUE, pa_erreurs_24h := 4\<rparr>" 0]
  by (simp add: demo_account_simps)

end
