(* ===== verification/Formatting.thy ===== *)
theory Formatting
  imports Prelude
begin

text \<open>
  Python's text formatting as the sources use it: decimal numerals (\<open>str(n)\<close>), the textual form of
  a UUID (\<open>str(uuid)\<close>), numerals with leading zeros, and \<open>str.format\<close> with named fields, which the
  message templates of \<open>campaign_runner.py\<close>, \<open>sms_sequence.py\<close> and \<open>lbc_messaging.py\<close> go through.
\<close>

section \<open>Numerals\<close>

fun str_nat :: "nat \<Rightarrow> string" where
  "str_nat n = (if n < 10 then [char_of (48 + n)] else str_nat (n div 10) @ [char_of (48 + n mod 10)])"

declare str_nat.simps [simp del]

definition str_int :: "int \<Rightarrow> string" where
  "str_int i = (if i < 0 then ''-'' @ str_nat (nat (- i)) else str_nat (nat i))"

definition digit_val :: "char \<Rightarrow> nat" where
  "digit_val c = code_point c - 48"

definition parse_nat :: "string \<Rightarrow> nat" where
  \<comment> \<open>the value of a text of decimal digits\<close>
  "parse_nat s = foldl (\<lambda>n c. 10 * n + digit_val c) 0 s"

lemma code_point_digit: "n < 10 \<Longrightarrow> code_point (char_of (48 + n) :: char) = 48 + n"
  by simp

lemma parse_nat_snoc: "parse_nat (s @ [c]) = 10 * parse_nat s + digit_val c"
  by (simp add: parse_nat_def)

text \<open>Reading a numeral gives the number back, so numerals are distinct.\<close>

lemma parse_str_nat [simp]: "parse_nat (str_nat n) = n"
proof (induction n rule: str_nat.induct)
  case (1 n)
  show ?case
  proof (cases "n < 10")
    case True
    then show ?thesis
      by (simp add: str_nat.simps [of n] parse_nat_def digit_val_def code_point_digit)
  next
    case False
    then show ?thesis
      using 1 by (simp add: str_nat.simps [of n] parse_nat_snoc digit_val_def code_point_digit)
  qed
qed

lemma str_nat_inject [simp]: "str_nat m = str_nat n \<longleftrightarrow> m = n"
  by (metis parse_str_nat)

lemma str_nat_digits: "c \<in> set (str_nat n) \<Longrightarrow> is_digit c"
proof (induction n rule: str_nat.induct)
  case (1 n)
  show ?case
  proof (cases "n < 10")
    case True
    then show ?thesis
      using "1.prems" by (simp add: str_nat.simps [of n] is_digit_def code_point_digit)
  next
    case False
    then show ?thesis
      using 1 by (auto simp: str_nat.simps [of n] is_digit_def code_point_digit)
  qed
qed

lemma str_nat_not_Nil [simp]: "str_nat n \<noteq> []"
  by (simp add: str_nat.simps [of n])

section \<open>Fixed-width numerals\<close>

definition hex_digit :: "nat \<Rightarrow> char" where
  "hex_digit d = char_of (if d < 10 then 48 + d else 87 + d)"

fun digits :: "(nat \<Rightarrow> char) \<Rightarrow> nat \<Rightarrow> nat \<Rightarrow> nat \<Rightarrow> string" where
  \<comment> \<open>\<open>digits dig b k n\<close>: the \<open>k\<close> low digits of \<open>n\<close> in base \<open>b\<close>, most significant first\<close>
  "digits dig b 0 n = []"
| "digits dig b (Suc k) n = digits dig b k (n div b) @ [dig (n mod b)]"

lemma length_digits [simp]: "length (digits dig b k n) = k"
  by (induction k arbitrary: n) auto

lemma digits_inject:
  assumes "\<And>d e. d < b \<Longrightarrow> e < b \<Longrightarrow> dig d = dig e \<Longrightarrow> d = e" and "0 < b"
  shows "digits dig b k m = digits dig b k n \<Longrightarrow> m mod b ^ k = n mod b ^ k"
proof (induction k arbitrary: m n)
  case 0
  then show ?case by simp
next
  case (Suc k)
  then have "digits dig b k (m div b) = digits dig b k (n div b)" and "dig (m mod b) = dig (n mod b)"
    by simp_all
  then have "(m div b) mod b ^ k = (n div b) mod b ^ k" and "m mod b = n mod b"
    using Suc.IH assms by (blast, simp)
  then show ?case
    by (simp only: power_Suc mod_mult2_eq)
qed

definition hyphens :: "string \<Rightarrow> string" where
  "hyphens h = take 8 h @ ''-'' @ take 4 (drop 8 h) @ ''-'' @ take 4 (drop 12 h) @ ''-''
     @ take 4 (drop 16 h) @ ''-'' @ drop 20 h"

definition str_uuid :: "uuid \<Rightarrow> string" where
  \<comment> \<open>\<open>str(uuid)\<close>: 32 hexadecimal digits in groups of 8, 4, 4, 4 and 12\<close>
  "str_uuid u = hyphens (digits hex_digit 16 32 u)"

lemma hex_digit_inject: "d < 16 \<Longrightarrow> e < 16 \<Longrightarrow> hex_digit d = hex_digit e \<Longrightarrow> d = e"
proof -
  assume "d < 16" "e < 16" "hex_digit d = hex_digit e"
  then have "code_point (hex_digit d) = code_point (hex_digit e)" by simp
  moreover have "code_point (hex_digit x) = (if x < 10 then 48 + x else 87 + x)" if "x < 16" for x
    using that by (simp add: hex_digit_def)
  ultimately show "d = e"
    using \<open>d < 16\<close> \<open>e < 16\<close> by (auto split: if_splits)
qed

lemma hyphens_inject:
  assumes "length h = 32" "length h' = 32" "hyphens h = hyphens h'"
  shows "h = h'"
proof -
  have parts: "x = take 8 x @ take 4 (drop 8 x) @ take 4 (drop 12 x) @ take 4 (drop 16 x) @ drop 20 x"
    for x :: string
  proof -
    have "drop n x = take 4 (drop n x) @ drop (n + 4) x" for n
      by (metis add.commute append_take_drop_id drop_drop)
    from this [of 8] this [of 12] this [of 16]
    have "drop 8 x = take 4 (drop 8 x) @ take 4 (drop 12 x) @ take 4 (drop 16 x) @ drop 20 x" by simp
    then show ?thesis by (metis append_take_drop_id)
  qed
  have "take 8 h = take 8 h' \<and> take 4 (drop 8 h) = take 4 (drop 8 h') \<and> take 4 (drop 12 h) = take 4 (drop 12 h')
      \<and> take 4 (drop 16 h) = take 4 (drop 16 h') \<and> drop 20 h = drop 20 h'"
    using assms by (simp add: hyphens_def)
  then show ?thesis using parts [of h] parts [of h'] by metis
qed

lemma str_uuid_inject:
  assumes "str_uuid u = str_uuid v" "u < 2 ^ 128" "v < 2 ^ 128"
  shows "u = v"
proof -
  have "digits hex_digit 16 32 u = digits hex_digit 16 32 v"
    using assms(1) by (auto simp: str_uuid_def intro: hyphens_inject)
  then have "u mod 16 ^ 32 = v mod 16 ^ 32"
    by (rule digits_inject [rotated -1]) (auto dest: hex_digit_inject)
  then show ?thesis using assms(2,3) by simp
qed

section \<open>Reading and editing text\<close>

function replace_text :: "string \<Rightarrow> string \<Rightarrow> string \<Rightarrow> string" where
  \<comment> \<open>\<open>s.replace(old, new)\<close> for a non-empty \<open>old\<close>\<close>
  "replace_text old new s =
     (case s of
        [] \<Rightarrow> []
      | c # cs \<Rightarrow> if old \<noteq> [] \<and> prefix old s then new @ replace_text old new (drop (length old) s)
                  else c # replace_text old new cs)"
  by pat_completeness auto
termination
  by (relation "measure (\<lambda>(old, new, s). length s)") (auto dest: prefix_length_le)

declare replace_text.simps [simp del]

fun split_once :: "char \<Rightarrow> string \<Rightarrow> string \<times> string option" where
  \<comment> \<open>\<open>s.split(c, 1)\<close>: the text before the first \<open>c\<close>, and the text after it if there is one\<close>
  "split_once c [] = ([], None)"
| "split_once c (x # xs) =
     (if x = c then ([], Some xs) else (case split_once c xs of (a, b) \<Rightarrow> (x # a, b)))"

definition all_digits :: "string \<Rightarrow> bool" where
  "all_digits s = (s \<noteq> [] \<and> (\<forall>c\<in>set s. is_digit c))"

fun numeral_ok :: "bool \<Rightarrow> string \<Rightarrow> bool" where
  \<comment> \<open>digits with single underscores between them; the flag says that a digit came just before\<close>
  "numeral_ok after [] = after"
| "numeral_ok after (c # cs) =
     (if is_digit c then numeral_ok True cs else c = CHR ''_'' \<and> after \<and> numeral_ok False cs)"

definition numeral_value :: "string \<Rightarrow> nat" where
  "numeral_value s = parse_nat (filter (\<lambda>c. c \<noteq> CHR ''_'') s)"

definition py_int :: "string \<Rightarrow> int result" where
  \<comment> \<open>\<open>int(text)\<close>; the limit of 4300 digits is not modelled\<close>
  "py_int s =
     (let t = strip s; bad = Inl (ValueError ''invalid literal for int() with base 10'') in
      case t of
        [] \<Rightarrow> bad
      | c # u \<Rightarrow>
          if numeral_ok False t then Inr (int (numeral_value t))
          else if c = CHR ''-'' \<and> numeral_ok False u then Inr (- int (numeral_value u))
          else if c = CHR ''+'' \<and> numeral_ok False u then Inr (int (numeral_value u))
          else bad)"

lemma numeral_ok_digits: "\<forall>c\<in>set s. is_digit c \<Longrightarrow> numeral_ok after s = (after \<or> s \<noteq> [])"
  by (induction s arbitrary: after) auto

lemma strip_no_space: "s \<noteq> [] \<Longrightarrow> \<not> is_space (hd s) \<Longrightarrow> \<not> is_space (last s) \<Longrightarrow> strip s = s"
proof -
  assume s: "s \<noteq> []" "\<not> is_space (hd s)" "\<not> is_space (last s)"
  have *: "dropWhile is_space t = t" if "t \<noteq> []" "\<not> is_space (hd t)" for t
    using that by (cases t) auto
  have "dropWhile is_space (rev s) = rev s" using s by (intro *) (auto simp: hd_rev)
  with * [OF s(1,2)] show ?thesis by (simp add: strip_def lstrip_def)
qed

lemma digit_not_underscore: "is_digit c \<Longrightarrow> c \<noteq> CHR ''_''"
  by (auto simp: is_digit_def Let_def)

lemma digit_no_space: "is_digit c \<Longrightarrow> \<not> is_space c"
  by (auto simp: is_digit_def is_space_def Let_def)

text \<open>\<open>int(str(n))\<close> is \<open>n\<close>.\<close>

lemma py_int_digits:
  assumes "all_digits s"
  shows "py_int s = Inr (int (parse_nat s))"
proof -
  have d: "\<forall>c\<in>set s. is_digit c" "s \<noteq> []" using assms by (auto simp: all_digits_def)
  then have "\<not> is_space (hd s)" "\<not> is_space (last s)" by (simp_all add: digit_no_space)
  with d(2) have "strip s = s" by (rule strip_no_space)
  moreover have "filter (\<lambda>c. c \<noteq> CHR ''_'') s = s" using d(1) by (auto simp: filter_id_conv dest: digit_not_underscore)
  ultimately show ?thesis using d by (cases s) (simp_all add: py_int_def numeral_ok_digits numeral_value_def)
qed

lemma py_int_str_nat [simp]: "py_int (str_nat n) = Inr (int n)"
  by (subst py_int_digits) (auto simp: all_digits_def str_nat_digits)

section \<open>Format strings\<close>

text \<open>
  \<open>template.format(k=v, ...)\<close>: two equal braces stand for one, \<open>{name}\<close> for the argument of that
  name, any other field raises: \<open>KeyError\<close> for an unknown name, \<open>IndexError\<close> for an empty field or
  a numeral (there are no positional arguments), \<open>ValueError\<close> for an unbalanced brace. Conversions
  and format specifications (\<open>!r\<close>, \<open>:>8\<close>) and attribute access are not modelled: they are unknown
  names here.
\<close>

fun take_field :: "string \<Rightarrow> (string \<times> string) option" where
  \<comment> \<open>the name up to the closing brace, and the rest\<close>
  "take_field [] = None"
| "take_field (c # cs) =
     (if c = CHR ''}'' then Some ([], cs)
      else map_option (\<lambda>(name, rest). (c # name, rest)) (take_field cs))"

lemma take_field_length: "take_field s = Some (name, rest) \<Longrightarrow> length rest < length s"
  by (induction s arbitrary: name rest) (fastforce split: if_splits)+

definition field_value :: "(string \<times> string) list \<Rightarrow> string \<Rightarrow> string result" where
  "field_value args name =
     (if name = [] \<or> (\<forall>c\<in>set name. is_digit c) then Inl IndexError
      else case map_of args name of None \<Rightarrow> Inl (KeyError name) | Some v \<Rightarrow> Inr v)"

function format_str :: "(string \<times> string) list \<Rightarrow> string \<Rightarrow> string result" where
  "format_str args s =
     (case s of
        [] \<Rightarrow> Inr []
      | c # cs \<Rightarrow>
          if c = CHR ''{'' then
            (case cs of
               [] \<Rightarrow> Inl (ValueError ''Single '{' encountered in format string'')
             | d # ds \<Rightarrow>
                 if d = CHR ''{'' then map_sum id (\<lambda>r. c # r) (format_str args ds)
                 else (case take_field cs of
                         None \<Rightarrow> Inl (ValueError ''expected '}' before end of string'')
                       | Some (name, rest) \<Rightarrow>
                           (case field_value args name of
                              Inl e \<Rightarrow> Inl e
                            | Inr v \<Rightarrow> map_sum id (\<lambda>r. v @ r) (format_str args rest))))
          else if c = CHR ''}'' then
            (case cs of
               [] \<Rightarrow> Inl (ValueError ''Single '}' encountered in format string'')
             | d # ds \<Rightarrow>
                 if d = CHR ''}'' then map_sum id (\<lambda>r. c # r) (format_str args ds)
                 else Inl (ValueError ''Single '}' encountered in format string''))
          else map_sum id (\<lambda>r. c # r) (format_str args cs))"
  by pat_completeness auto
termination
  by (relation "measure (\<lambda>(args, s). length s)")
    (auto dest: take_field_length simp del: take_field.simps)

declare format_str.simps [simp del]

lemma format_Nil [simp]: "format_str args [] = Inr []"
  by (simp add: format_str.simps)

lemma format_char [simp]:
  "c \<noteq> CHR ''{'' \<Longrightarrow> c \<noteq> CHR ''}'' \<Longrightarrow>
     format_str args (c # s) = map_sum id (\<lambda>r. c # r) (format_str args s)"
  by (simp add: format_str.simps [of args "c # s"])

text \<open>Text without braces is copied.\<close>

lemma format_plain_append:
  assumes "CHR ''{'' \<notin> set s" "CHR ''}'' \<notin> set s"
  shows "format_str args (s @ t) = map_sum id (\<lambda>r. s @ r) (format_str args t)"
  using assms
proof (induction s)
  case Nil
  then show ?case by (cases "format_str args t") simp_all
next
  case (Cons c s)
  then have "c \<noteq> CHR ''{''" "c \<noteq> CHR ''}''" by auto
  with Cons show ?case by (cases "format_str args t") simp_all
qed

lemma format_plain:
  assumes "CHR ''{'' \<notin> set s" "CHR ''}'' \<notin> set s"
  shows "format_str args s = Inr s"
  using format_plain_append [OF assms, of args "[]"] by simp

section \<open>Exceptions as text\<close>

fun exn_str :: "exn \<Rightarrow> string" where
  \<comment> \<open>\<open>str(exc)\<close>\<close>
  "exn_str (LookupError m) = m"
| "exn_str (ValueError m) = m"
| "exn_str (RuntimeError m) = m"
| "exn_str (PermissionError m) = m"
| "exn_str (TimeoutError m) = m"
| "exn_str (KeyError k) = [char_of (39::nat)] @ k @ [char_of (39::nat)]"
| "exn_str IndexError = ''Replacement index out of range''"
| "exn_str AttributeError = ''NoneType object has no such attribute''"
| "exn_str (IntegrityError m) = m"
| "exn_str MultipleResultsFound = ''Multiple rows were found when one or none was required''"
| "exn_str (HTTPException n m) = str_nat n @ '': '' @ m"
| "exn_str (InsufficientCreditError m) = m"
| "exn_str (TypeError m) = m"
| "exn_str (External c m) = m"

fun exn_name :: "exn \<Rightarrow> string" where
  \<comment> \<open>\<open>type(exc).__name__\<close>\<close>
  "exn_name (LookupError m) = ''LookupError''"
| "exn_name (ValueError m) = ''ValueError''"
| "exn_name (RuntimeError m) = ''RuntimeError''"
| "exn_name (PermissionError m) = ''PermissionError''"
| "exn_name (TimeoutError m) = ''TimeoutError''"
| "exn_name (KeyError k) = ''KeyError''"
| "exn_name IndexError = ''IndexError''"
| "exn_name AttributeError = ''AttributeError''"
| "exn_name (IntegrityError m) = ''IntegrityError''"
| "exn_name MultipleResultsFound = ''MultipleResultsFound''"
| "exn_name (HTTPException n m) = ''HTTPException''"
| "exn_name (InsufficientCreditError m) = ''InsufficientCreditError''"
| "exn_name (TypeError m) = ''TypeError''"
| "exn_name (External c m) = c"

end
