(* ===== verification/Blacklist_Store.thy ===== *)
theory Blacklist_Store
  imports Tables Formatting
begin

text \<open>
  \<open>app/services/blacklist.py\<close>: the STOP list shared by the two projects. The locale \<open>stop_list\<close> is
  what the senders and the webhook rely on; it is interpreted on \<open>add_to_blacklist\<close> and
  \<open>is_blacklisted\<close>.
\<close>

section \<open>Definitions\<close>

definition add_to_blacklist :: "datetime \<Rightarrow> string \<Rightarrow> string \<Rightarrow> string \<Rightarrow> db \<Rightarrow> db" where
  "add_to_blacklist now phone source_sim source_project d =
     (let row = \<lparr>bl_id = fresh_id d, bl_phone = phone, bl_source_sim = Some source_sim,
                 bl_source_project = Some source_project, bl_created_at = now\<rparr> in
      d\<lparr>blacklist := snd (insert_new bl_phone row (blacklist d)), fresh_id := Suc (fresh_id d)\<rparr>)"

definition is_blacklisted :: "string \<Rightarrow> db \<Rightarrow> bool" where
  "is_blacklisted phone d = (find_row (\<lambda>b. bl_phone b = phone) (blacklist d) \<noteq> None)"

definition get_blacklist_count :: "db \<Rightarrow> nat" where
  "get_blacklist_count d = length (blacklist d)"

section \<open>The contract\<close>

locale stop_list =
  fixes inv :: "'s \<Rightarrow> bool"
    and key :: "'e \<Rightarrow> 'p"
    and add :: "'e \<Rightarrow> 's \<Rightarrow> 's" and listed :: "'p \<Rightarrow> 's \<Rightarrow> bool" and size_of :: "'s \<Rightarrow> nat"
  assumes add_inv: "inv s \<Longrightarrow> inv (add e s)"
    and listed_add: "listed q (add e s) \<longleftrightarrow> q = key e \<or> listed q s"
    and size_add: "inv s \<Longrightarrow> size_of (add e s) = (if listed (key e) s then size_of s else Suc (size_of s))"
begin

lemma fold_inv: "inv s \<Longrightarrow> inv (fold add es s)"
  by (induction es arbitrary: s) (auto simp: add_inv)

lemma listed_fold: "listed q (fold add es s) \<longleftrightarrow> q \<in> key ` set es \<or> listed q s"
  by (induction es arbitrary: s) (auto simp: listed_add)

text \<open>The number of entries counts distinct numbers, however often each one says STOP.\<close>

lemma size_fold:
  "inv s \<Longrightarrow> size_of (fold add es s) = size_of s + card {p \<in> key ` set es. \<not> listed p s}"
proof (induction es arbitrary: s)
  case Nil
  then show ?case by simp
next
  case (Cons e es)
  have split: "{q \<in> key ` set (e # es). \<not> listed q s} =
      {q \<in> key ` set es. \<not> listed q (add e s)} \<union> (if listed (key e) s then {} else {key e})"
    by (auto simp: listed_add)
  have "card {q \<in> key ` set (e # es). \<not> listed q s} =
      card {q \<in> key ` set es. \<not> listed q (add e s)} + (if listed (key e) s then 0 else 1)"
    unfolding split by (subst card_Un_disjoint) (auto simp: listed_add)
  with Cons show ?case by (simp add: add_inv size_add)
qed

end

type_synonym stop_entry = "datetime \<times> string \<times> string \<times> string"

definition stop_phone :: "stop_entry \<Rightarrow> string" where
  "stop_phone e = fst (snd e)"

definition add_entry :: "stop_entry \<Rightarrow> db \<Rightarrow> db" where
  "add_entry e d = (case e of (now, phone, sim, project) \<Rightarrow> add_to_blacklist now phone sim project d)"

definition blacklist_key :: "db \<Rightarrow> bool" where
  "blacklist_key d = distinct (map bl_phone (blacklist d))"

lemma is_blacklisted_iff: "is_blacklisted p d \<longleftrightarrow> p \<in> bl_phone ` set (blacklist d)"
  by (cases "find_row (\<lambda>b. bl_phone b = p) (blacklist d)")
    (auto simp: is_blacklisted_def find_row_None_iff dest: find_row_SomeD)

lemma is_blacklisted_add [simp]:
  "is_blacklisted q (add_to_blacklist now p sim project d) \<longleftrightarrow> q = p \<or> is_blacklisted q d"
  by (auto simp: is_blacklisted_iff add_to_blacklist_def insert_new_def)

interpretation stop: stop_list blacklist_key stop_phone add_entry is_blacklisted get_blacklist_count
proof
  fix d e
  assume "blacklist_key d"
  then show "blacklist_key (add_entry e d)"
    by (cases e) (simp add: blacklist_key_def add_entry_def add_to_blacklist_def insert_new_distinct)
next
  fix q e d
  show "is_blacklisted q (add_entry e d) \<longleftrightarrow> q = stop_phone e \<or> is_blacklisted q d"
    by (cases e) (simp add: add_entry_def stop_phone_def)
next
  fix d e
  show "get_blacklist_count (add_entry e d) =
      (if is_blacklisted (stop_phone e) d then get_blacklist_count d else Suc (get_blacklist_count d))"
    by (cases e) (auto simp: add_entry_def stop_phone_def get_blacklist_count_def add_to_blacklist_def
        insert_new_def is_blacklisted_iff)
qed

section \<open>Properties\<close>

text \<open>
  C31. STOP is final and idempotent (rules R02 and R12). After any sequence of STOP messages, from
  any SIM and project, a number is blacklisted exactly if it was before or said STOP, and the table
  has grown by the number of distinct new numbers, repetitions counting once.
\<close>

theorem blacklist_after_stops:
  assumes "blacklist_key d"
  shows "(is_blacklisted q (fold add_entry es d) \<longleftrightarrow> q \<in> stop_phone ` set es \<or> is_blacklisted q d)
    \<and> get_blacklist_count (fold add_entry es d)
        = get_blacklist_count d + card {p \<in> stop_phone ` set es. \<not> is_blacklisted p d}"
  using stop.listed_fold [of q es d] stop.size_fold [OF assms, of es] by simp

lemma blacklist_after_stops_witness:
  "get_blacklist_count (fold add_entry [(1, ''+33612345678'', ''sim-1'', ''P2''), (2, ''+33612345678'', ''sim-2'', ''P1'')]
     empty_db) = 1"
proof -
  have "blacklist_key empty_db" by (simp add: blacklist_key_def empty_db_def)
  from blacklist_after_stops [OF this,
      of "[]" "[(1, ''+33612345678'', ''sim-1'', ''P2''), (2, ''+33612345678'', ''sim-2'', ''P1'')]"]
  show ?thesis
    by (simp add: stop_phone_def is_blacklisted_def empty_db_def get_blacklist_count_def cong: conj_cong)
qed

end
