(* ===== verification/Phone_Extractor.thy ===== *)
theory Phone_Extractor
  imports Formatting
begin

text \<open>
  \<open>app/services/phone_extractor.py\<close>: the first French phone number of a text. The compiled regular
  expression is written out as an executable matcher (leftmost position, first alternative that
  matches); \<open>phonenumbers\<close>, which parses and formats the match, is a parameter. The matcher is
  proved sound and complete against a declarative description of the shape.
\<close>

section \<open>Definitions\<close>

record phone_lib =
  \<comment> \<open>\<open>phonenumbers.parse(raw, "FR")\<close>: \<open>None\<close> when it raises; otherwise \<open>is_valid_number\<close> and the
      E.164 format of the parsed number\<close>
  parse_fr :: "string \<Rightarrow> (bool \<times> string) option"

fun match_pairs :: "nat \<Rightarrow> string \<Rightarrow> string option" where
  \<comment> \<open>\<open>(?:\s*\d{2}){n}\<close>: the rest after the match\<close>
  "match_pairs 0 s = Some s"
| "match_pairs (Suc n) s =
     (case lstrip s of
        c # d # rest \<Rightarrow> if is_digit c \<and> is_digit d then match_pairs n rest else None
      | _ \<Rightarrow> None)"

definition match_body :: "(char \<Rightarrow> bool) \<Rightarrow> string \<Rightarrow> string option" where
  \<comment> \<open>\<open>\s*[first](?:\s*\d{2}){4}\<close>\<close>
  "match_body first s =
     (case lstrip s of c # rest \<Rightarrow> if first c then match_pairs 4 rest else None | [] \<Rightarrow> None)"

definition phone_prefixes :: "string list" where
  "phone_prefixes = [''+33'', ''0033'', ''0'']"

fun match_alternatives :: "(char \<Rightarrow> bool) \<Rightarrow> string list \<Rightarrow> string \<Rightarrow> string option" where
  "match_alternatives first [] s = None"
| "match_alternatives first (p # ps) s =
     (if prefix p s then
        (case match_body first (drop (length p) s) of
           Some rest \<Rightarrow> Some rest
         | None \<Rightarrow> match_alternatives first ps s)
      else match_alternatives first ps s)"

definition mobile_first :: "char \<Rightarrow> bool" where
  "mobile_first c = (c = CHR ''6'' \<or> c = CHR ''7'')"

definition fixed_first :: "char \<Rightarrow> bool" where
  "fixed_first c = (is_digit c \<and> c \<noteq> CHR ''0'')"

definition match_phone :: "string \<Rightarrow> string option" where
  \<comment> \<open>a match of \<open>_PHONE_RE\<close> at the start of the text: the matched text\<close>
  "match_phone s =
     (case match_alternatives mobile_first phone_prefixes s of
        Some rest \<Rightarrow> Some (take (length s - length rest) s)
      | None \<Rightarrow>
          (case match_alternatives fixed_first phone_prefixes s of
             Some rest \<Rightarrow> Some (take (length s - length rest) s)
           | None \<Rightarrow> None))"

fun search_phone :: "string \<Rightarrow> string option" where
  "search_phone [] = match_phone []"
| "search_phone (c # cs) =
     (case match_phone (c # cs) of Some m \<Rightarrow> Some m | None \<Rightarrow> search_phone cs)"

definition normalize_phone :: "phone_lib \<Rightarrow> string \<Rightarrow> string" where
  "normalize_phone lib raw =
     (case parse_fr lib raw of
        None \<Rightarrow> []
      | Some (valid, e164) \<Rightarrow>
          if \<not> valid then
            (let digits = filter is_digit raw in
             if prefix ''33'' digits \<and> length digits = 11 then ''+'' @ digits else [])
          else e164)"

definition extract_phone :: "phone_lib \<Rightarrow> string \<Rightarrow> string option" where
  "extract_phone lib text =
     (case search_phone text of
        Some m \<Rightarrow> (let n = normalize_phone lib m in if n = [] then None else Some n)
      | None \<Rightarrow> None)"

section \<open>The shape of a match\<close>

definition spaces :: "string \<Rightarrow> bool" where
  "spaces s = (\<forall>c\<in>set s. is_space c)"

text \<open>Blanks, then two digits, \<open>n\<close> times.\<close>

inductive pairs :: "nat \<Rightarrow> string \<Rightarrow> bool" where
  pairs_0: "pairs 0 []"
| pairs_Suc: "spaces b \<Longrightarrow> is_digit c \<Longrightarrow> is_digit d \<Longrightarrow> pairs n s \<Longrightarrow> pairs (Suc n) (b @ [c, d] @ s)"

definition phone_shape :: "string \<Rightarrow> bool" where
  "phone_shape m = (\<exists>p b c s. m = p @ b @ [c] @ s \<and> p \<in> set phone_prefixes \<and> spaces b
     \<and> fixed_first c \<and> pairs 4 s)"

lemma spaces_lstrip: "spaces b \<Longrightarrow> \<not> is_space c \<Longrightarrow> lstrip (b @ c # s) = c # s"
  by (induction b) (auto simp: spaces_def lstrip_def)

lemma lstrip_split: "\<exists>b. spaces b \<and> s = b @ lstrip s"
  by (rule exI [of _ "takeWhile is_space s"]) (auto simp: spaces_def lstrip_def dest: set_takeWhileD)

lemma match_pairs_sound: "match_pairs n s = Some rest \<Longrightarrow> \<exists>m. s = m @ rest \<and> pairs n m"
proof (induction n arbitrary: s)
  case 0
  then show ?case by (auto intro: pairs_0)
next
  case (Suc n)
  then obtain c d r where l: "lstrip s = c # d # r" "is_digit c" "is_digit d" "match_pairs n r = Some rest"
    by (auto split: list.splits if_splits)
  obtain b where b: "spaces b" "s = b @ lstrip s" using lstrip_split by blast
  obtain m where "r = m @ rest" "pairs n m" using Suc.IH [OF l(4)] by blast
  with l b have "s = (b @ [c, d] @ m) @ rest" by simp
  moreover have "pairs (Suc n) (b @ [c, d] @ m)" using l b \<open>pairs n m\<close> by (intro pairs_Suc)
  ultimately show ?case by blast
qed

lemma match_pairs_complete: "pairs n m \<Longrightarrow> match_pairs n (m @ rest) = Some rest"
proof (induction rule: pairs.induct)
  case pairs_0
  then show ?case by simp
next
  case (pairs_Suc b c d n s)
  then show ?case by (simp add: spaces_lstrip digit_no_space)
qed

lemma match_body_sound:
  assumes "match_body first s = Some rest"
  shows "\<exists>b c m. s = b @ [c] @ m @ rest \<and> spaces b \<and> first c \<and> pairs 4 m"
proof -
  from assms obtain c r where "lstrip s = c # r" "first c" "match_pairs 4 r = Some rest"
    by (auto simp: match_body_def split: list.splits if_splits)
  moreover obtain b where "spaces b" "s = b @ lstrip s" using lstrip_split by blast
  ultimately show ?thesis using match_pairs_sound [of 4 r rest] by auto
qed

lemma match_body_complete:
  "spaces b \<Longrightarrow> first c \<Longrightarrow> is_digit c \<Longrightarrow> pairs 4 m \<Longrightarrow> match_body first (b @ [c] @ m @ rest) = Some rest"
  by (simp add: match_body_def spaces_lstrip digit_no_space match_pairs_complete)

lemma match_alternatives_sound:
  assumes "match_alternatives first ps s = Some rest"
  shows "\<exists>p b c m. s = p @ b @ [c] @ m @ rest \<and> p \<in> set ps \<and> spaces b \<and> first c \<and> pairs 4 m"
  using assms
proof (induction ps)
  case Nil
  then show ?case by simp
next
  case (Cons p ps)
  show ?case
  proof (cases "prefix p s \<and> match_body first (drop (length p) s) = Some rest")
    case True
    then have "s = p @ drop (length p) s" by (auto simp: prefix_def)
    with True match_body_sound [of first "drop (length p) s" rest] show ?thesis by fastforce
  next
    case False
    with Cons show ?thesis by (fastforce split: if_splits option.splits)
  qed
qed

lemma match_alternatives_complete:
  assumes "p \<in> set ps" "prefix p s" "match_body first (drop (length p) s) = Some rest"
  shows "match_alternatives first ps s \<noteq> None"
  using assms by (induction ps) (auto split: option.splits)

lemma mobile_is_fixed: "mobile_first c \<Longrightarrow> fixed_first c"
  by (auto simp: mobile_first_def fixed_first_def is_digit_def)

lemma match_phone_sound:
  assumes "match_phone s = Some m"
  shows "prefix m s \<and> phone_shape m"
proof -
  obtain first rest where first: "match_alternatives first phone_prefixes s = Some rest"
    and m: "m = take (length s - length rest) s" and fixed: "\<And>c. first c \<Longrightarrow> fixed_first c"
    using assms mobile_is_fixed by (auto simp: match_phone_def split: option.splits)
  then obtain p b c k where k: "s = p @ b @ [c] @ k @ rest" "p \<in> set phone_prefixes" "spaces b" "first c" "pairs 4 k"
    using match_alternatives_sound [OF first] by blast
  then have "m = p @ b @ [c] @ k" by (simp add: m)
  moreover have "phone_shape (p @ b @ [c] @ k)" unfolding phone_shape_def using k fixed by blast
  ultimately show ?thesis using k(1) by (simp add: prefix_def)
qed

lemma match_phone_complete:
  assumes "phone_shape m"
  shows "match_phone (m @ rest) \<noteq> None"
proof -
  obtain p b c s where m: "m = p @ b @ [c] @ s" "p \<in> set phone_prefixes" "spaces b" "fixed_first c" "pairs 4 s"
    using assms by (auto simp: phone_shape_def)
  have "match_body fixed_first (drop (length p) (m @ rest)) = Some rest"
    using m match_body_complete [of b fixed_first c s rest] by (simp add: fixed_first_def)
  then have "match_alternatives fixed_first phone_prefixes (m @ rest) \<noteq> None"
    using m by (intro match_alternatives_complete [of p]) auto
  then show ?thesis by (auto simp: match_phone_def split: option.splits)
qed

lemma search_phone_sound:
  "search_phone s = Some m \<Longrightarrow> \<exists>pre rest. s = pre @ m @ rest \<and> match_phone (m @ rest) = Some m \<and> phone_shape m"
proof (induction s)
  case Nil
  then have "match_phone ([] @ []) = Some m" by simp
  with match_phone_sound [of "[]" m] show ?case by auto
next
  case (Cons c cs)
  show ?case
  proof (cases "match_phone (c # cs)")
    case None
    with Cons show ?thesis by (metis append_Cons option.simps(4) search_phone.simps(2))
  next
    case (Some k)
    with Cons.prems have "match_phone (c # cs) = Some m" by simp
    moreover with match_phone_sound obtain rest where "c # cs = m @ rest" "phone_shape m"
      by (metis prefix_def)
    ultimately show ?thesis by (metis append_Nil)
  qed
qed

lemma search_phone_complete: "phone_shape m \<Longrightarrow> search_phone (pre @ m @ rest) \<noteq> None"
proof (induction pre)
  case Nil
  have "m \<noteq> []" using Nil by (auto simp: phone_shape_def)
  then obtain c cs where "m = c # cs" by (cases m) auto
  with match_phone_complete [OF Nil, of rest] show ?case by (auto split: option.splits)
next
  case (Cons c pre)
  then show ?case by (auto split: option.splits)
qed

section \<open>Properties\<close>

text \<open>
  C14. The matcher finds exactly the texts that contain a French number: \<open>search_phone\<close> (the regular
  expression search) succeeds if and only if some part of the text is a prefix \<open>+33\<close>, \<open>0033\<close> or \<open>0\<close>
  followed by a digit 1-9 and four pairs of digits, with blanks allowed before each; and what it
  returns has that shape.
\<close>

theorem search_phone_correct:
  "(search_phone text \<noteq> None \<longleftrightarrow> (\<exists>pre m rest. text = pre @ m @ rest \<and> phone_shape m))
   \<and> (case search_phone text of None \<Rightarrow> True | Some m \<Rightarrow> phone_shape m \<and> contains m text)"
proof -
  have "search_phone text \<noteq> None \<Longrightarrow> \<exists>pre m rest. text = pre @ m @ rest \<and> phone_shape m"
    using search_phone_sound by blast
  moreover have "(\<exists>pre m rest. text = pre @ m @ rest \<and> phone_shape m) \<Longrightarrow> search_phone text \<noteq> None"
    using search_phone_complete by blast
  moreover have "phone_shape m \<and> contains m text" if "search_phone text = Some m" for m
    using search_phone_sound [OF that] by (auto simp: contains_iff_sublist)
  ultimately have "search_phone text \<noteq> None \<longleftrightarrow> (\<exists>pre m rest. text = pre @ m @ rest \<and> phone_shape m)"
    and "case search_phone text of None \<Rightarrow> True | Some m \<Rightarrow> phone_shape m \<and> contains m text"
    by (blast, simp split: option.split)
  then show ?thesis by (rule conjI)
qed

text \<open>
  What an extracted number looks like. A number is extracted only from a match; when the library
  says the match is valid the result is its E.164 form, and otherwise it is \<open>+33\<close> followed by nine
  digits (the compatibility branch for numbers that are not allocated); it is never the empty text.
\<close>

theorem extract_phone_shape:
  assumes "extract_phone lib text = Some n"
  shows "n \<noteq> [] \<and> (\<exists>m. search_phone text = Some m \<and> phone_shape m \<and>
     (parse_fr lib m = Some (True, n)
      \<or> (\<exists>e ds. parse_fr lib m = Some (False, e) \<and> n = ''+33'' @ ds \<and> length ds = 9 \<and> (\<forall>c\<in>set ds. is_digit c))))"
proof -
  obtain m where m: "search_phone text = Some m" "n = normalize_phone lib m" "n \<noteq> []"
    using assms by (auto simp: extract_phone_def Let_def split: option.splits if_splits)
  have "parse_fr lib m = Some (True, n)
      \<or> (\<exists>e ds. parse_fr lib m = Some (False, e) \<and> n = ''+33'' @ ds \<and> length ds = 9 \<and> (\<forall>c\<in>set ds. is_digit c))"
  proof (cases "parse_fr lib m")
    case None
    with m show ?thesis by (simp add: normalize_phone_def)
  next
    case (Some r)
    then obtain valid e where r: "parse_fr lib m = Some (valid, e)" by (cases r) auto
    show ?thesis
    proof (cases valid)
      case True
      with r m show ?thesis by (simp add: normalize_phone_def)
    next
      case False
      define ds where "ds = filter is_digit m"
      have ds: "prefix ''33'' ds" "length ds = 11" "n = ''+'' @ ds"
        using False r m by (auto simp: normalize_phone_def ds_def Let_def split: if_splits)
      then have "ds = ''33'' @ drop 2 ds" by (auto simp: prefix_def)
      moreover have "\<forall>c\<in>set (drop 2 ds). is_digit c" by (auto simp: ds_def dest: in_set_dropD)
      ultimately show ?thesis using False r ds
        by (intro disjI2 exI [of _ e] exI [of _ "drop 2 ds"]) auto
    qed
  qed
  with m search_phone_sound [of "text" m] show ?thesis by blast
qed

lemma extract_phone_shape_witness:
  "extract_phone \<lparr>parse_fr = (\<lambda>raw. Some (False, raw))\<rparr> ''Tel +33 6 12 34 56 78 merci'' = Some ''+33612345678''
   \<and> ''+33612345678'' \<noteq> []"
proof -
  have "extract_phone \<lparr>parse_fr = (\<lambda>raw. Some (False, raw))\<rparr> ''Tel +33 6 12 34 56 78 merci'' = Some ''+33612345678''"
    by code_simp
  with extract_phone_shape [OF this] show ?thesis by blast
qed

end
