(* ===== verification/Campaign_Runner.thy ===== *)
theory Campaign_Runner
  imports Config Blacklist_Store
begin

text \<open>
  \<open>app/services/campaign_runner.py\<close>: one run of an SMS campaign. The run is a start session, a loop
  over the fetched listings and a final session. Other sessions (operators, webhooks, other workers)
  commit between the steps of the run: \<open>others\<close> is what they do to the database before each check
  and during each pause of the loop. The SIM list, the gateway's answers, the clock, the time zone
  and the random gaps are parameters.
\<close>

section \<open>The sending window\<close>

record zone =
  zone_local :: "datetime \<Rightarrow> int"  \<comment> \<open>wall clock of an instant, in microseconds\<close>
  zone_instant :: "int \<Rightarrow> datetime"  \<comment> \<open>instant of a wall clock\<close>

definition local_hour :: "int \<Rightarrow> int" where
  "local_hour w = (w mod days 1) div hours 1"

definition is_within_sms_window :: "settings \<Rightarrow> zone \<Rightarrow> datetime \<Rightarrow> bool" where
  "is_within_sms_window s z now =
     (sms_hour_start s \<le> local_hour (zone_local z now) \<and> local_hour (zone_local z now) < sms_hour_end s)"

definition next_sms_window_start :: "settings \<Rightarrow> zone \<Rightarrow> datetime \<Rightarrow> int result" where
  \<comment> \<open>a wall clock; adding a day to an aware Paris time keeps the wall clock\<close>
  "next_sms_window_start s z now =
     (let current = zone_local z now in
      if \<not> (0 \<le> sms_hour_start s \<and> sms_hour_start s \<le> 23) then Inl (ValueError ''hour must be in 0..23'')
      else let opening_today = current - current mod days 1 + hours (sms_hour_start s) in
        Inr (if local_hour current < sms_hour_start s then opening_today else opening_today + days 1))"

section \<open>Message text\<close>

definition STOP_NOTICE :: string where
  "STOP_NOTICE = ''STOP au {stop_number} pour ne plus recevoir de SMS''"

definition stop_notice :: "settings \<Rightarrow> string result" where
  "stop_notice s = format_str [(''stop_number'', sms_stop_number s)] STOP_NOTICE"

definition render_sms_body :: "settings \<Rightarrow> string \<Rightarrow> string \<Rightarrow> string \<Rightarrow> string result" where
  "render_sms_body s template url title =
     (case format_str [(''url'', url), (''title'', title)] template of
        Inl e \<Rightarrow> Inl e
      | Inr body \<Rightarrow>
          (case stop_notice s of
             Inl e \<Rightarrow> Inl e
           | Inr notice \<Rightarrow>
               Inr (if contains (lower notice) (lower body) then body
                    else body @ [CHR 0x0A] @ notice)))"

section \<open>SIM selection\<close>

record sim_info =
  si_id :: string
  si_status :: "string option"
  si_quota_remaining :: "int option"

definition quota_of :: "(string, int) dict \<Rightarrow> string \<Rightarrow> int" where
  "quota_of quotas i = (case dict_get quotas i of None \<Rightarrow> 0 | Some q \<Rightarrow> q)"

fun first_max :: "('a \<Rightarrow> int) \<Rightarrow> 'a list \<Rightarrow> 'a option" where
  \<comment> \<open>\<open>max(xs, key=f)\<close>: the first element of maximal key\<close>
  "first_max f [] = None"
| "first_max f (x # xs) =
     (case first_max f xs of None \<Rightarrow> Some x | Some m \<Rightarrow> if f x < f m then Some m else Some x)"

definition select_best_sim :: "sim_info list \<Rightarrow> (string, int) dict \<Rightarrow> sim_info option" where
  "select_best_sim available_sims daily_quotas =
     first_max (\<lambda>sim. quota_of daily_quotas (si_id sim))
       (filter (\<lambda>sim. si_status sim = Some ''active'' \<and> 0 < quota_of daily_quotas (si_id sim)) available_sims)"

definition initial_quotas :: "sim_info list \<Rightarrow> (string, int) dict" where
  "initial_quotas sims =
     fold (\<lambda>sim. dict_set (si_id sim) (case si_quota_remaining sim of None \<Rightarrow> 15 | Some q \<Rightarrow> q)) sims []"

definition compute_inter_sms_delay_seconds :: "int \<Rightarrow> string \<Rightarrow> datetime \<Rightarrow> db \<Rightarrow> int" where
  \<comment> \<open>\<open>target_gap_seconds\<close> is the value of \<open>randint(120, 720)\<close>\<close>
  "compute_inter_sms_delay_seconds target_gap_seconds sim_id current d =
     (case latest sl_sent_at (filter (\<lambda>l. sl_sim_id l = sim_id \<and> sl_status l = SMS_SENT) (sms_log d)) of
        None \<Rightarrow> target_gap_seconds
      | Some l \<Rightarrow>
          let elapsed_seconds = max 0 ((current - sl_sent_at l) div seconds 1) in
          max 0 (target_gap_seconds - elapsed_seconds))"

section \<open>The loop\<close>

record sms_result =
  sr_status :: sms_status
  sr_cost :: rat

record runner_env =
  re_settings :: settings
  re_zone :: zone
  re_now :: datetime  \<comment> \<open>start of the run\<close>
  re_sims :: "sim_info list result"  \<comment> \<open>\<open>boundaries.get_sim_list()\<close>\<close>
  re_send :: "nat \<Rightarrow> string \<Rightarrow> string \<Rightarrow> string \<Rightarrow> sms_result result"  \<comment> \<open>\<open>boundaries.send_sms\<close>, by turn\<close>
  re_clock :: "nat \<Rightarrow> datetime"  \<comment> \<open>the clock at a turn\<close>
  re_gap :: "nat \<Rightarrow> int"  \<comment> \<open>the random gap of a turn\<close>
  re_status :: "nat \<Rightarrow> db \<Rightarrow> db"  \<comment> \<open>the other sessions, up to the interruption check of a turn\<close>
  re_check :: "nat \<Rightarrow> db \<Rightarrow> db"  \<comment> \<open>the other sessions from there to the blacklist check\<close>
  re_pause :: "nat \<Rightarrow> db \<Rightarrow> db"  \<comment> \<open>the other sessions during the pause of a turn\<close>
  re_end :: "db \<Rightarrow> db"  \<comment> \<open>the other sessions before the final session\<close>
  re_finished :: datetime  \<comment> \<open>the clock in the final session\<close>

record outgoing =
  og_turn :: nat
  og_sim :: string
  og_to :: string
  og_body :: string
  og_delay :: int
  og_sent :: bool

record runner =
  rn_db :: db
  rn_sent :: int
  rn_failed :: int
  rn_quotas :: "(string, int) dict"
  rn_last_error :: "string option"
  rn_outbox :: "outgoing list"  \<comment> \<open>the calls of \<open>send_sms\<close>, oldest first\<close>

datatype loop_end =
    LoopDone
  | Interrupted campaign_status
  | QuotaExhausted
  | CreditExhausted
  | LoopRaised exn

definition interrupted_campaign_status :: "uuid \<Rightarrow> uuid \<Rightarrow> db \<Rightarrow> campaign_status option" where
  "interrupted_campaign_status campaign_id workflow_id d =
     (case find_row (\<lambda>c. ca_id c = campaign_id) (campaigns d) of
        None \<Rightarrow> Some C_CANCELLED
      | Some campaign \<Rightarrow>
          (case find_row (\<lambda>w. wf_id w = workflow_id) (workflow_runs d) of
             None \<Rightarrow> Some C_CANCELLED
           | Some workflow \<Rightarrow>
               if ca_status campaign \<in> {C_PAUSED, C_CANCELLED} then Some (ca_status campaign)
               else if wf_status workflow \<in> {W_PAUSED, W_CANCELLED} then
                 Some (if wf_status workflow = W_PAUSED then C_PAUSED else C_CANCELLED)
               else None))"

definition listing_phone :: "listing \<Rightarrow> string" where
  \<comment> \<open>the fetched listings have a phone\<close>
  "listing_phone l = (case li_phone l of None \<Rightarrow> [] | Some p \<Rightarrow> p)"

definition record_sent :: "datetime \<Rightarrow> uuid \<Rightarrow> string \<Rightarrow> listing \<Rightarrow> string \<Rightarrow> rat \<Rightarrow> db \<Rightarrow> db" where
  "record_sent now campaign_id sim_id l message cost d =
     (let row = \<lparr>sl_id = fresh_id d, sl_sim_id = sim_id, sl_to_phone = listing_phone l,
                 sl_listing_id = Some (li_id l), sl_body = message, sl_status = SMS_SENT, sl_project = ''P2'',
                 sl_cost_eur = Some cost, sl_campaign_id = Some campaign_id, sl_contact_id = None,
                 sl_direction = DIR_OUTBOUND, sl_sequence_step = None, sl_variant_key = None,
                 sl_classification = None, sl_idempotency_key = None, sl_received_at = None, sl_sent_at = now\<rparr>
      in d\<lparr>sms_log := sms_log d @ [row], fresh_id := Suc (fresh_id d),
           listings := update_where (\<lambda>x. li_id x = li_id l) (\<lambda>x. x\<lparr>li_status := LS_SMS_ENVOYE\<rparr>) (listings d)\<rparr>)"

definition attempt :: "runner_env \<Rightarrow> nat \<Rightarrow> uuid \<Rightarrow> sim_info \<Rightarrow> listing \<Rightarrow> string \<Rightarrow> int \<Rightarrow> runner
    \<Rightarrow> loop_end option \<times> runner" where
  \<comment> \<open>the \<open>try\<close> statement: send, record, count\<close>
  "attempt E i cid sim l message delay r =
     (let out = (\<lambda>ok. \<lparr>og_turn = i, og_sim = si_id sim, og_to = listing_phone l, og_body = message,
                        og_delay = delay, og_sent = ok\<rparr>) in
      case re_send E i (si_id sim) (listing_phone l) message of
        Inr result \<Rightarrow>
          if sr_status result = SMS_SENT then
            (None, r\<lparr>rn_sent := rn_sent r + 1,
                     rn_quotas := dict_set (si_id sim) (quota_of (rn_quotas r) (si_id sim) - 1) (rn_quotas r),
                     rn_db := record_sent (re_clock E i + seconds delay) cid (si_id sim) l message
                                (sr_cost result) (rn_db r),
                     rn_outbox := rn_outbox r @ [out True]\<rparr>)
          else (None, r\<lparr>rn_failed := rn_failed r + 1, rn_outbox := rn_outbox r @ [out False]\<rparr>)
      | Inl e \<Rightarrow>
          ((case e of InsufficientCreditError m \<Rightarrow> Some CreditExhausted | _ \<Rightarrow> None),
           r\<lparr>rn_failed := rn_failed r + 1, rn_last_error := Some (exn_str e),
             rn_outbox := rn_outbox r @ [out False]\<rparr>))"

definition send_turn :: "runner_env \<Rightarrow> uuid \<Rightarrow> uuid option \<Rightarrow> string \<Rightarrow> sim_info list \<Rightarrow> nat \<Rightarrow> listing
    \<Rightarrow> runner \<Rightarrow> loop_end option \<times> runner" where
  \<comment> \<open>one turn of the \<open>for\<close> loop; \<open>None\<close> goes on with the next listing\<close>
  "send_turn E cid wid template sims i l r0 =
    (let d0 = re_status E i (rn_db r0) in
     case (case wid of None \<Rightarrow> None | Some w \<Rightarrow> interrupted_campaign_status cid w d0) of
       Some st \<Rightarrow> (Some (Interrupted st), r0\<lparr>rn_db := d0\<rparr>)
     | None \<Rightarrow>
      (let d = re_check E i d0; r = r0\<lparr>rn_db := d\<rparr> in
       if is_blacklisted (listing_phone l) d then (None, r)
       else
        (case select_best_sim sims (rn_quotas r) of
           None \<Rightarrow> (Some QuotaExhausted, r)
         | Some sim \<Rightarrow>
            (let delay = compute_inter_sms_delay_seconds (re_gap E i) (si_id sim) (re_clock E i) d;
                 r' = r\<lparr>rn_db := re_pause E i d\<rparr> in
             case render_sms_body (re_settings E) template (li_url l)
                    (case li_title l of None \<Rightarrow> [] | Some t \<Rightarrow> t) of
               Inl e \<Rightarrow> (Some (LoopRaised e), r')
             | Inr message \<Rightarrow> attempt E i cid sim l message delay r'))))"

fun send_loop :: "runner_env \<Rightarrow> uuid \<Rightarrow> uuid option \<Rightarrow> string \<Rightarrow> sim_info list \<Rightarrow> nat \<Rightarrow> listing list
    \<Rightarrow> runner \<Rightarrow> loop_end \<times> runner" where
  "send_loop E cid wid template sims i [] r = (LoopDone, r)"
| "send_loop E cid wid template sims i (l # ls) r =
    (case send_turn E cid wid template sims i l r of
       (Some fin, r') \<Rightarrow> (fin, r')
     | (None, r') \<Rightarrow> send_loop E cid wid template sims (Suc i) ls r')"

section \<open>The run\<close>

definition CAMPAIGN_BATCH_SIZE :: nat where
  "CAMPAIGN_BATCH_SIZE = 200"

record run_result =
  rr_status :: string
  rr_sent :: int
  rr_failed :: int
  rr_scheduled_for :: "int option"

fun campaign_to_workflow_status :: "campaign_status \<Rightarrow> workflow_status" where
  "campaign_to_workflow_status C_PENDING = W_PENDING"
| "campaign_to_workflow_status C_RUNNING = W_RUNNING"
| "campaign_to_workflow_status C_PAUSED = W_PAUSED"
| "campaign_to_workflow_status C_COMPLETED = W_COMPLETED"
| "campaign_to_workflow_status C_FAILED = W_FAILED"
| "campaign_to_workflow_status C_CANCELLED = W_CANCELLED"

definition sendable :: "listing \<Rightarrow> bool" where
  "sendable l = (li_phone l \<noteq> None \<and> li_status l = LS_NOUVELLE)"

definition candidate_listings :: "uuid \<Rightarrow> db \<Rightarrow> listing list" where
  \<comment> \<open>the fetched rows: at most one more than a batch\<close>
  "candidate_listings cid d =
     (let has_assigned = filter (\<lambda>l. li_campaign_id l = Some cid) (listings d) \<noteq> [] in
      take (CAMPAIGN_BATCH_SIZE + 1)
        (filter (\<lambda>l. sendable l \<and> (has_assigned \<longrightarrow> li_campaign_id l = Some cid)) (listings d)))"

datatype start_outcome =
    NotRunnable run_result
  | Started campaign "listing list" bool

definition start_run :: "datetime \<Rightarrow> uuid \<Rightarrow> uuid option \<Rightarrow> db \<Rightarrow> exn + (start_outcome \<times> db)" where
  "start_run now cid wid d =
     (case find_row (\<lambda>c. ca_id c = cid) (campaigns d) of
        None \<Rightarrow> Inl (ValueError ''Campagne introuvable'')
      | Some campaign \<Rightarrow>
          if ca_status campaign \<notin> {C_PENDING, C_RUNNING} then
            Inr (NotRunnable \<lparr>rr_status = campaign_status_value (ca_status campaign), rr_sent = ca_sent campaign,
                   rr_failed = ca_failed campaign, rr_scheduled_for = None\<rparr>, d)
          else
            (let fetched = candidate_listings cid d;
                 has_more_backlog = CAMPAIGN_BATCH_SIZE < length fetched;
                 total = int (length (filter sendable (listings d)));
                 runs = (case wid of None \<Rightarrow> workflow_runs d
                         | Some w \<Rightarrow> update_where (\<lambda>r. wf_id r = w)
                             (\<lambda>r. r\<lparr>wf_status := W_RUNNING,
                                    wf_started_at := (case wf_started_at r of None \<Rightarrow> Some now | Some t \<Rightarrow> Some t),
                                    wf_progress_total := Some total\<rparr>) (workflow_runs d)) in
             Inr (Started campaign (take CAMPAIGN_BATCH_SIZE fetched) has_more_backlog,
                  d\<lparr>campaigns := update_where (\<lambda>c. ca_id c = cid)
                       (\<lambda>c. c\<lparr>ca_status := C_RUNNING, ca_scheduled_at := None, ca_last_error := None\<rparr>) (campaigns d),
                    workflow_runs := runs\<rparr>)))"

fun final_status :: "loop_end \<Rightarrow> bool \<Rightarrow> campaign_status" where
  "final_status (Interrupted st) backlog = st"
| "final_status CreditExhausted backlog = C_FAILED"
| "final_status QuotaExhausted backlog = C_PAUSED"
| "final_status LoopDone backlog = (if backlog then C_RUNNING else C_COMPLETED)"
| "final_status (LoopRaised e) backlog = C_RUNNING"

definition finish_campaign_row :: "campaign \<Rightarrow> campaign_status \<Rightarrow> runner \<Rightarrow> campaign \<Rightarrow> campaign" where
  "finish_campaign_row previous st r c =
     c\<lparr>ca_status := st, ca_sent := ca_sent previous + rn_sent r, ca_failed := ca_failed previous + rn_failed r,
       ca_scheduled_at := None, ca_last_error := rn_last_error r\<rparr>"

definition finish_workflow_row :: "datetime \<Rightarrow> ref \<Rightarrow> bool \<Rightarrow> campaign_status \<Rightarrow> runner \<Rightarrow> workflow_run \<Rightarrow> workflow_run" where
  "finish_workflow_row now campaign_id backlog st r x =
     x\<lparr>wf_progress_current := wf_progress_current x + (rn_sent r + rn_failed r),
       wf_batch_number := wf_batch_number x + 1,
       wf_checkpoint := Some [(''campaign_id'', JStr (case campaign_id of RUuid u \<Rightarrow> str_uuid u | RText t \<Rightarrow> t)),
          (''last_batch_sent'', JInt (rn_sent r)), (''last_batch_failed'', JInt (rn_failed r)),
          (''has_more_backlog'', JBool backlog)],
       wf_status := campaign_to_workflow_status st,
       wf_finished_at := (if campaign_to_workflow_status st \<in> {W_COMPLETED, W_FAILED, W_CANCELLED}
                          then Some now else wf_finished_at x)\<rparr>"

definition finish_run :: "datetime \<Rightarrow> ref \<Rightarrow> uuid \<Rightarrow> uuid option \<Rightarrow> campaign \<Rightarrow> bool \<Rightarrow> campaign_status
    \<Rightarrow> runner \<Rightarrow> db \<Rightarrow> db" where
  "finish_run now campaign_id cid wid previous backlog st r d =
     d\<lparr>campaigns := update_where (\<lambda>c. ca_id c = cid) (finish_campaign_row previous st r) (campaigns d),
       workflow_runs := (case wid of None \<Rightarrow> workflow_runs d
         | Some w \<Rightarrow> update_where (\<lambda>x. wf_id x = w) (finish_workflow_row now campaign_id backlog st r)
                       (workflow_runs d))\<rparr>"

definition run_result_status :: "campaign_status \<Rightarrow> string" where
  "run_result_status st = lower (campaign_status_value st)"

record run_trace =
  rt_result :: "run_result result"
  rt_outbox :: "outgoing list"
  rt_db :: db

definition initial_runner :: "sim_info list \<Rightarrow> db \<Rightarrow> runner" where
  "initial_runner sims d = \<lparr>rn_db = d, rn_sent = 0, rn_failed = 0, rn_quotas = initial_quotas sims,
     rn_last_error = None, rn_outbox = []\<rparr>"

definition run_campaign :: "runner_env \<Rightarrow> ref \<Rightarrow> ref option \<Rightarrow> db \<Rightarrow> run_trace" where
  "run_campaign E campaign_id workflow_id d =
    (let stop = (\<lambda>res d. \<lparr>rt_result = res, rt_outbox = [], rt_db = d\<rparr>) in
     if \<not> is_within_sms_window (re_settings E) (re_zone E) (re_now E) then
       (case next_sms_window_start (re_settings E) (re_zone E) (re_now E) of
          Inl e \<Rightarrow> stop (Inl e) d
        | Inr scheduled_for \<Rightarrow>
           (case uuid_of_ref campaign_id of
              Inl e \<Rightarrow> stop (Inl e) d
            | Inr cid \<Rightarrow>
                stop (Inr \<lparr>rr_status = ''deferred'', rr_sent = 0, rr_failed = 0, rr_scheduled_for = Some scheduled_for\<rparr>)
                  (d\<lparr>campaigns := update_where (\<lambda>c. ca_id c = cid)
                       (\<lambda>c. c\<lparr>ca_scheduled_at := Some (zone_instant (re_zone E) scheduled_for), ca_last_error := None\<rparr>)
                       (campaigns d)\<rparr>)))
     else
     case uuid_of_ref campaign_id of
       Inl e \<Rightarrow> stop (Inl e) d
     | Inr cid \<Rightarrow>
     (case (case workflow_id of None \<Rightarrow> Inr None | Some w \<Rightarrow> map_sum id Some (uuid_of_ref w)) of
       Inl e \<Rightarrow> stop (Inl e) d
     | Inr wid \<Rightarrow>
     (case session (start_run (re_now E) cid wid) d of
       (Inl e, d) \<Rightarrow> stop (Inl e) d
     | (Inr (NotRunnable res), d) \<Rightarrow> stop (Inr res) d
     | (Inr (Started campaign ls backlog), d) \<Rightarrow>
         (case re_sims E of
            Inl e \<Rightarrow> stop (Inl e) d
          | Inr sims \<Rightarrow>
              (case send_loop E cid wid (ca_message_template campaign) sims 0 ls (initial_runner sims d) of
                 (LoopRaised e, r) \<Rightarrow> \<lparr>rt_result = Inl e, rt_outbox = rn_outbox r, rt_db = rn_db r\<rparr>
               | (fin, r) \<Rightarrow>
                   (let st = final_status fin backlog in
                    \<lparr>rt_result = Inr \<lparr>rr_status = run_result_status st, rr_sent = rn_sent r, rr_failed = rn_failed r,
                                     rr_scheduled_for = None\<rparr>,
                      rt_outbox = rn_outbox r,
                      rt_db = finish_run (re_finished E) campaign_id cid wid campaign backlog st r (re_end E (rn_db r))\<rparr>))))))"

section \<open>Window and spacing\<close>

lemma local_hour_bounds: "0 \<le> local_hour w \<and> local_hour w \<le> 23"
proof -
  define m q r where "m = w mod days 1" and "q = m div hours 1" and "r = m mod hours 1"
  have m: "0 \<le> m" "m < 24 * hours 1" by (simp_all add: m_def duration_defs)
  have h: "hours 1 = 3600000000" by (simp add: duration_defs)
  have r: "m = hours 1 * q + r" "0 \<le> r" "r < hours 1"
    by (simp_all add: q_def r_def h)
  have "0 \<le> q \<and> q \<le> 23" using m r unfolding h by linarith
  then show ?thesis by (simp add: local_hour_def q_def m_def)
qed

lemma local_hour_day: "0 \<le> h \<Longrightarrow> h \<le> 23 \<Longrightarrow> local_hour (w - w mod days 1 + hours h) = h"
proof -
  assume h: "0 \<le> h" "h \<le> 23"
  have "w - w mod days 1 = days 1 * (w div days 1)" by (simp add: minus_mod_eq_mult_div)
  then have "(w - w mod days 1 + hours h) mod days 1 = hours h mod days 1" by simp
  also have "\<dots> = hours h" using h by (simp add: duration_defs)
  finally show ?thesis by (simp add: local_hour_def duration_defs)
qed

lemma local_hour_add_day [simp]: "local_hour (w + days 1) = local_hour w"
  by (simp add: local_hour_def)

lemma local_hour_less:
  "local_hour w < h \<longleftrightarrow> w < w - w mod days 1 + hours h"
proof -
  define m q r where "m = w mod days 1" and "q = m div hours 1" and "r = m mod hours 1"
  have h: "hours 1 = 3600000000" "hours h = 3600000000 * h" by (simp_all add: duration_defs)
  have r: "m = hours 1 * q + r" "0 \<le> r" "r < hours 1"
    by (simp_all add: q_def r_def h)
  have "q < h \<longleftrightarrow> m < hours h" using r unfolding h by linarith
  then show ?thesis by (simp add: local_hour_def q_def m_def)
qed

section \<open>Message text\<close>

lemma render_contains_notice:
  assumes "render_sms_body s template url title = Inr body" "stop_notice s = Inr notice"
  shows "contains (lower notice) (lower body)"
  using assms
proof -
  have "contains (lower notice) (lower (body' @ [CHR 0x0A] @ notice))" for body'
    by (simp only: lower_append) (intro contains_append_right contains_self)
  with assms show ?thesis by (auto simp: render_sms_body_def split: sum.splits if_splits)
qed

lemma stop_notice_eq:
  "stop_notice s = Inr (''STOP au '' @ sms_stop_number s @ '' pour ne plus recevoir de SMS'')"
proof -
  have name: "take_field ''stop_number} pour ne plus recevoir de SMS''
      = Some (''stop_number'', '' pour ne plus recevoir de SMS'')" by simp
  have val: "field_value [(''stop_number'', sms_stop_number s)] ''stop_number'' = Inr (sms_stop_number s)"
    by (simp add: field_value_def is_digit_def)
  have tail: "format_str a '' pour ne plus recevoir de SMS'' = Inr '' pour ne plus recevoir de SMS''" for a
    by (rule format_plain) simp_all
  have "format_str [(''stop_number'', sms_stop_number s)] ''{stop_number} pour ne plus recevoir de SMS''
      = Inr (sms_stop_number s @ '' pour ne plus recevoir de SMS'')"
    using name val tail [of "[(''stop_number'', sms_stop_number s)]"]
    by (subst format_str.simps) (simp del: take_field.simps)
  then have "format_str [(''stop_number'', sms_stop_number s)]
      (''STOP au '' @ ''{stop_number} pour ne plus recevoir de SMS'')
      = Inr (''STOP au '' @ sms_stop_number s @ '' pour ne plus recevoir de SMS'')"
    by (subst format_plain_append) simp_all
  then show ?thesis by (simp add: stop_notice_def STOP_NOTICE_def)
qed

section \<open>SIM selection\<close>

lemma first_max_None [simp]: "first_max f xs = None \<longleftrightarrow> xs = []"
  by (cases xs) (auto split: option.splits)

lemma first_max_SomeD: "first_max f xs = Some m \<Longrightarrow> m \<in> set xs \<and> (\<forall>x\<in>set xs. f x \<le> f m)"
proof (induction xs arbitrary: m)
  case Nil
  then show ?case by simp
next
  case (Cons x xs)
  show ?case
  proof (cases "first_max f xs")
    case None
    with Cons.prems show ?thesis by auto
  next
    case (Some k)
    with Cons.IH [OF Some] Cons.prems show ?thesis by (fastforce split: if_splits)
  qed
qed

lemma select_best_simD:
  assumes "select_best_sim sims quotas = Some sim"
  shows "sim \<in> set sims" "si_status sim = Some ''active''" "0 < quota_of quotas (si_id sim)"
    and "\<And>other. other \<in> set sims \<Longrightarrow> si_status other = Some ''active'' \<Longrightarrow>
           quota_of quotas (si_id other) \<le> quota_of quotas (si_id sim)"
  using first_max_SomeD [OF assms [unfolded select_best_sim_def]] by (fastforce)+

lemma quota_of_set [simp]:
  "quota_of (dict_set i q quotas) j = (if j = i then q else quota_of quotas j)"
  by (simp add: quota_of_def)

section \<open>Invariants of the loop\<close>

lemma send_loop_invariant:
  assumes "\<And>i l r fin r'. l \<in> set ls \<Longrightarrow> Q r \<Longrightarrow> send_turn E cid wid template sims i l r = (fin, r') \<Longrightarrow> Q r'"
    and "Q r"
  shows "Q (snd (send_loop E cid wid template sims i ls r))"
  using assms
proof (induction ls arbitrary: i r)
  case Nil
  then show ?case by simp
next
  case (Cons l ls)
  obtain fin r' where t: "send_turn E cid wid template sims i l r = (fin, r')" by fastforce
  then have "Q r'" using Cons.prems(1) [OF _ Cons.prems(2) t] by simp
  moreover have "Q (snd (send_loop E cid wid template sims (Suc i) ls r'))"
    by (rule Cons.IH [OF _ \<open>Q r'\<close>]) (rule Cons.prems(1), auto)
  ultimately show ?case using t by (cases fin) simp_all
qed

text \<open>
  What one turn can do: stop or skip without sending, or one call of \<open>send_sms\<close> on the phone of the
  listing, by a SIM with quota left, the phone not blacklisted at the check.
\<close>

lemma send_turn_cases:
  assumes "send_turn E cid wid template sims i l r = (fin, r')"
  obtains (quiet) d where "r' = r\<lparr>rn_db := d\<rparr>" "d = re_status E i (rn_db r) \<or> d = re_check E i (re_status E i (rn_db r)) \<or> d = re_pause E i (re_check E i (re_status E i (rn_db r)))"
  | (call) sim message delay where
      "\<not> is_blacklisted (listing_phone l) (re_check E i (re_status E i (rn_db r)))"
      "select_best_sim sims (rn_quotas r) = Some sim"
      "delay = compute_inter_sms_delay_seconds (re_gap E i) (si_id sim) (re_clock E i) (re_check E i (re_status E i (rn_db r)))"
      "render_sms_body (re_settings E) template (li_url l) (case li_title l of None \<Rightarrow> [] | Some t \<Rightarrow> t) = Inr message"
      "attempt E i cid sim l message delay (r\<lparr>rn_db := re_pause E i (re_check E i (re_status E i (rn_db r)))\<rparr>) = (fin, r')"
proof -
  from assms consider
      "r' = r\<lparr>rn_db := re_status E i (rn_db r)\<rparr>"
    | "r' = r\<lparr>rn_db := re_check E i (re_status E i (rn_db r))\<rparr>"
    | "r' = r\<lparr>rn_db := re_pause E i (re_check E i (re_status E i (rn_db r)))\<rparr>"
    | sim message where "\<not> is_blacklisted (listing_phone l) (re_check E i (re_status E i (rn_db r)))"
      "select_best_sim sims (rn_quotas r) = Some sim"
      "render_sms_body (re_settings E) template (li_url l) (case li_title l of None \<Rightarrow> [] | Some t \<Rightarrow> t) = Inr message"
      "attempt E i cid sim l message (compute_inter_sms_delay_seconds (re_gap E i) (si_id sim) (re_clock E i)
         (re_check E i (re_status E i (rn_db r)))) (r\<lparr>rn_db := re_pause E i (re_check E i (re_status E i (rn_db r)))\<rparr>) = (fin, r')"
    unfolding send_turn_def Let_def by (auto split: option.splits if_splits sum.splits)
  then show ?thesis using quiet call by cases metis+
qed

lemma attempt_cases:
  assumes "attempt E i cid sim l message delay r = (fin, r')"
  obtains (ok) cost where
      "r' = r\<lparr>rn_sent := rn_sent r + 1,
              rn_quotas := dict_set (si_id sim) (quota_of (rn_quotas r) (si_id sim) - 1) (rn_quotas r),
              rn_db := record_sent (re_clock E i + seconds delay) cid (si_id sim) l message cost (rn_db r),
              rn_outbox := rn_outbox r @ [\<lparr>og_turn = i, og_sim = si_id sim, og_to = listing_phone l, og_body = message,
                 og_delay = delay, og_sent = True\<rparr>]\<rparr>" "fin = None"
  | (ko) err where
      "r' = r\<lparr>rn_failed := rn_failed r + 1, rn_last_error := err,
              rn_outbox := rn_outbox r @ [\<lparr>og_turn = i, og_sim = si_id sim, og_to = listing_phone l, og_body = message,
                 og_delay = delay, og_sent = False\<rparr>]\<rparr>"
proof -
  from assms consider cost where
      "r' = r\<lparr>rn_sent := rn_sent r + 1,
              rn_quotas := dict_set (si_id sim) (quota_of (rn_quotas r) (si_id sim) - 1) (rn_quotas r),
              rn_db := record_sent (re_clock E i + seconds delay) cid (si_id sim) l message cost (rn_db r),
              rn_outbox := rn_outbox r @ [\<lparr>og_turn = i, og_sim = si_id sim, og_to = listing_phone l, og_body = message,
                 og_delay = delay, og_sent = True\<rparr>]\<rparr>" "fin = None"
    | "r' = r\<lparr>rn_failed := rn_failed r + 1, rn_last_error := rn_last_error r,
              rn_outbox := rn_outbox r @ [\<lparr>og_turn = i, og_sim = si_id sim, og_to = listing_phone l, og_body = message,
                 og_delay = delay, og_sent = False\<rparr>]\<rparr>"
    | e where "r' = r\<lparr>rn_failed := rn_failed r + 1, rn_last_error := Some (exn_str e),
              rn_outbox := rn_outbox r @ [\<lparr>og_turn = i, og_sim = si_id sim, og_to = listing_phone l, og_body = message,
                 og_delay = delay, og_sent = False\<rparr>]\<rparr>"
    unfolding attempt_def Let_def by (auto split: sum.splits if_splits)
  then show ?thesis using ok ko by cases blast+
qed

lemma record_sent_blacklist [simp]:
  "is_blacklisted p (record_sent now cid s l m c d) = is_blacklisted p d"
  by (simp add: record_sent_def is_blacklisted_def Let_def)

definition stops_kept :: "(db \<Rightarrow> db) \<Rightarrow> bool" where
  \<comment> \<open>the other sessions do not remove numbers from the blacklist (no code of the application does)\<close>
  "stops_kept f = (\<forall>p d. is_blacklisted p d \<longrightarrow> is_blacklisted p (f d))"

definition polite :: "runner_env \<Rightarrow> bool" where
  "polite E = (\<forall>i. stops_kept (re_status E i) \<and> stops_kept (re_check E i) \<and> stops_kept (re_pause E i))"

lemma send_turn_no_blacklisted:
  assumes "polite E" and "\<forall>p. is_blacklisted p d0 \<longrightarrow> is_blacklisted p (rn_db r)"
    and "\<forall>og\<in>set (rn_outbox r). \<not> is_blacklisted (og_to og) d0"
    and "send_turn E cid wid template sims i l r = (fin, r')"
  shows "(\<forall>p. is_blacklisted p d0 \<longrightarrow> is_blacklisted p (rn_db r'))
    \<and> (\<forall>og\<in>set (rn_outbox r'). \<not> is_blacklisted (og_to og) d0)"
  using assms(4)
proof (cases rule: send_turn_cases)
  case (quiet d)
  with assms(1-3) show ?thesis by (auto simp: polite_def stops_kept_def)
next
  case (call sim message delay)
  from call(5) show ?thesis
    by (cases rule: attempt_cases) (use assms(1-3) call(1) in \<open>auto simp: polite_def stops_kept_def\<close>)
qed

definition sent_by :: "string \<Rightarrow> outgoing list \<Rightarrow> int" where
  "sent_by s ogs = int (length (filter (\<lambda>og. og_sent og \<and> og_sim og = s) ogs))"

lemma sent_by_simps [simp]:
  "sent_by s [] = 0" "sent_by s (ogs @ [og]) = sent_by s ogs + (if og_sent og \<and> og_sim og = s then 1 else 0)"
  by (simp_all add: sent_by_def)

definition quota_inv :: "(string, int) dict \<Rightarrow> runner \<Rightarrow> bool" where
  "quota_inv q0 r = (\<forall>s. sent_by s (rn_outbox r) + quota_of (rn_quotas r) s = quota_of q0 s
     \<and> (0 < sent_by s (rn_outbox r) \<longrightarrow> 0 \<le> quota_of (rn_quotas r) s))"

lemma sent_by_nonneg [simp]: "0 \<le> sent_by s ogs"
  by (simp add: sent_by_def)

lemma send_turn_quota:
  assumes "quota_inv q0 r" "send_turn E cid wid template sims i l r = (fin, r')"
  shows "quota_inv q0 r'"
  using assms(2)
proof (cases rule: send_turn_cases)
  case (quiet d)
  with assms(1) show ?thesis by (simp add: quota_inv_def)
next
  case (call sim message delay)
  note positive = select_best_simD(3) [OF call(2)]
  from call(5) show ?thesis
    by (cases rule: attempt_cases) (use assms(1) positive in \<open>auto simp: quota_inv_def\<close>)
qed

definition counted :: "runner \<Rightarrow> bool" where
  "counted r = (rn_sent r = int (length (filter og_sent (rn_outbox r)))
     \<and> rn_sent r + rn_failed r = int (length (rn_outbox r)))"

lemma send_turn_counted:
  assumes "counted r" "send_turn E cid wid template sims i l r = (fin, r')"
  shows "counted r'"
  using assms(2)
proof (cases rule: send_turn_cases)
  case (quiet d)
  with assms(1) show ?thesis by (simp add: counted_def)
next
  case (call sim message delay)
  from call(5) show ?thesis
    by (cases rule: attempt_cases) (use assms(1) in \<open>auto simp: counted_def\<close>)
qed

definition well_formed_message :: "runner_env \<Rightarrow> listing list \<Rightarrow> sim_info list \<Rightarrow> outgoing \<Rightarrow> bool" where
  "well_formed_message E ls sims og =
     ((\<exists>l\<in>set ls. og_to og = listing_phone l)
      \<and> (\<exists>sim\<in>set sims. si_id sim = og_sim og \<and> si_status sim = Some ''active'')
      \<and> (\<forall>notice. stop_notice (re_settings E) = Inr notice \<longrightarrow> contains (lower notice) (lower (og_body og))))"

lemma send_turn_well_formed:
  assumes "\<forall>og\<in>set (rn_outbox r). well_formed_message E ls sims og" "l \<in> set ls"
    and "send_turn E cid wid template sims i l r = (fin, r')"
  shows "\<forall>og\<in>set (rn_outbox r'). well_formed_message E ls sims og"
  using assms(3)
proof (cases rule: send_turn_cases)
  case (quiet d)
  with assms(1) show ?thesis by simp
next
  case (call sim message delay)
  have "contains (lower notice) (lower message)" if "stop_notice (re_settings E) = Inr notice" for notice
    using call(4) that by (rule render_contains_notice)
  with call(2) assms(2) have new: "\<And>b. well_formed_message E ls sims \<lparr>og_turn = i, og_sim = si_id sim,
      og_to = listing_phone l, og_body = message, og_delay = delay, og_sent = b\<rparr>"
    by (auto simp: well_formed_message_def dest: select_best_simD)
  from call(5) show ?thesis
    by (cases rule: attempt_cases) (use assms(1) new in auto)
qed

lemma send_turn_one: 
  assumes "send_turn E cid wid template sims i l r = (fin, r')"
  shows "length (rn_outbox r') \<le> Suc (length (rn_outbox r))"
  using assms
proof (cases rule: send_turn_cases)
  case (call sim message delay)
  from call(5) show ?thesis by (cases rule: attempt_cases) simp_all
qed simp

lemma send_loop_length:
  "length (rn_outbox (snd (send_loop E cid wid template sims i ls r))) \<le> length (rn_outbox r) + length ls"
proof (induction ls arbitrary: i r)
  case Nil
  then show ?case by simp
next
  case (Cons l ls)
  obtain fin r' where t: "send_turn E cid wid template sims i l r = (fin, r')" by fastforce
  with Cons [of "Suc i" r'] send_turn_one [OF t] show ?case by (cases fin) auto
qed

section \<open>The run as a whole\<close>

lemma start_run_Started:
  assumes "start_run now cid wid d = Inr (Started campaign ls backlog, d1)"
  shows "find_row (\<lambda>c. ca_id c = cid) (campaigns d) = Some campaign"
    and "ca_status campaign \<in> {C_PENDING, C_RUNNING}"
    and "ls = take CAMPAIGN_BATCH_SIZE (candidate_listings cid d)"
    and "backlog \<longleftrightarrow> CAMPAIGN_BATCH_SIZE < length (candidate_listings cid d)"
    and "blacklist d1 = blacklist d" and "listings d1 = listings d" and "sms_log d1 = sms_log d"
  using assms by (auto simp: start_run_def Let_def split: option.splits if_splits)

lemma candidate_listingsD:
  "l \<in> set (candidate_listings cid d) \<Longrightarrow> l \<in> set (listings d) \<and> sendable l"
  by (auto simp: candidate_listings_def Let_def dest: in_set_takeD)

lemma finish_run_campaign:
  assumes "c' \<in> set (campaigns (finish_run now campaign_id cid wid previous backlog st r d))" "ca_id c' = cid"
  shows "ca_sent c' = ca_sent previous + rn_sent r" "ca_failed c' = ca_failed previous + rn_failed r"
    "ca_status c' = st"
proof -
  have "c' \<in> set (update_where (\<lambda>c. ca_id c = cid) (finish_campaign_row previous st r) (campaigns d))"
    using assms(1) by (simp add: finish_run_def)
  then obtain c where "c' = finish_campaign_row previous st r c"
    using assms(2) by (cases rule: update_where_rowE) auto
  then show "ca_sent c' = ca_sent previous + rn_sent r" "ca_failed c' = ca_failed previous + rn_failed r"
    "ca_status c' = st" by (simp_all add: finish_campaign_row_def)
qed

lemma finish_workflow_row_simps [simp]:
  "wf_id (finish_workflow_row now campaign_id backlog st r x) = wf_id x"
  "wf_status (finish_workflow_row now campaign_id backlog st r x) = campaign_to_workflow_status st"
  by (simp_all add: finish_workflow_row_def)

lemma finish_run_workflow:
  assumes "w \<in> set (workflow_runs (finish_run now campaign_id cid (Some (wf_id w)) previous backlog st r d))"
  shows "wf_status w = campaign_to_workflow_status st"
proof -
  have "w \<in> set (update_where (\<lambda>x. wf_id x = wf_id w) (finish_workflow_row now campaign_id backlog st r) (workflow_runs d))"
    using assms by (simp add: finish_run_def)
  then show ?thesis
  proof (cases rule: update_where_rowE)
    case (1 x)
    show ?thesis unfolding 1(3) by simp
  qed simp
qed

text \<open>A run that calls the gateway went through the start session and the loop.\<close>

lemma run_campaign_cases:
  obtains (quiet) "rt_outbox (run_campaign E campaign_id workflow_id d) = []"
  | (looped) cid wid campaign ls backlog d1 sims fin r where
      "start_run (re_now E) cid wid d = Inr (Started campaign ls backlog, d1)" "re_sims E = Inr sims"
      "uuid_of_ref campaign_id = Inr cid"
      "(case workflow_id of None \<Rightarrow> Inr None | Some w \<Rightarrow> map_sum id Some (uuid_of_ref w)) = Inr wid"
      "is_within_sms_window (re_settings E) (re_zone E) (re_now E)"
      "send_loop E cid wid (ca_message_template campaign) sims 0 ls (initial_runner sims d1) = (fin, r)"
      "rt_outbox (run_campaign E campaign_id workflow_id d) = rn_outbox r"
      "\<And>res. rt_result (run_campaign E campaign_id workflow_id d) = Inr res \<Longrightarrow>
         rr_sent res = rn_sent r \<and> rr_failed res = rn_failed r
         \<and> rr_status res = run_result_status (final_status fin backlog)
         \<and> rt_db (run_campaign E campaign_id workflow_id d) =
             finish_run (re_finished E) campaign_id cid wid campaign backlog (final_status fin backlog) r (re_end E (rn_db r))"
proof (cases "is_within_sms_window (re_settings E) (re_zone E) (re_now E)")
  case False
  then show ?thesis
    by (intro quiet) (auto simp: run_campaign_def Let_def split: sum.splits)
next
  case within: True
  show ?thesis
  proof (cases "uuid_of_ref campaign_id")
    case (Inl e)
    with within show ?thesis by (intro quiet) (simp add: run_campaign_def)
  next
    case cid: (Inr cid)
    show ?thesis
    proof (cases "case workflow_id of None \<Rightarrow> Inr None | Some w \<Rightarrow> map_sum id Some (uuid_of_ref w)")
      case (Inl e)
      with within cid show ?thesis by (intro quiet) (simp add: run_campaign_def)
    next
      case wid: (Inr wid)
      show ?thesis
      proof (cases "\<exists>campaign ls backlog d1 sims. start_run (re_now E) cid wid d = Inr (Started campaign ls backlog, d1)
          \<and> re_sims E = Inr sims")
        case False
        then show ?thesis
          using within cid wid
          by (intro quiet) (auto simp: run_campaign_def session_def Let_def split: sum.splits start_outcome.splits)
      next
        case True
        then obtain campaign ls backlog d1 sims where
          st: "start_run (re_now E) cid wid d = Inr (Started campaign ls backlog, d1)" "re_sims E = Inr sims" by blast
        obtain fin r where l: "send_loop E cid wid (ca_message_template campaign) sims 0 ls (initial_runner sims d1) = (fin, r)"
          by fastforce
        show ?thesis
          by (rule looped [OF st cid wid within l]; cases fin)
            (use within cid wid st l in \<open>auto simp: run_campaign_def session_def Let_def\<close>)
      qed
    qed
  qed
qed

section \<open>Properties\<close>

definition demo_zone :: zone where
  "demo_zone = \<lparr>zone_local = (\<lambda>t. t + hours 1), zone_instant = (\<lambda>w. w - hours 1)\<rparr>"

definition demo_listing :: "uuid \<Rightarrow> string \<Rightarrow> listing" where
  "demo_listing i phone = \<lparr>li_id = i, li_source = SRC_LBC, li_url = ''u'', li_content_hash = None, li_sector_id = None,
     li_contact_id = None, li_title = Some ''Clio'', li_price = None, li_km = None, li_location = None,
     li_phone = Some phone, li_raw_data = None, li_make = None, li_model = None, li_year = None, li_fuel = None,
     li_transmission = None, li_price_score = None, li_market_avg_price = None, li_market_sample_size = None,
     li_reliability_score = None, li_ai_summary = None, li_known_issues_json = None, li_inspection_tips_json = None,
     li_negotiation_tip = None, li_status = LS_NOUVELLE, li_campaign_id = None, li_created_at = 0, li_updated_at = 0\<rparr>"

definition demo_campaign :: campaign where
  "demo_campaign = \<lparr>ca_id = 5, ca_type = ''sms'', ca_message_template = ''Bonjour'', ca_quota_per_sim = 15,
     ca_search_criteria = [], ca_status = C_PENDING, ca_sent = 0, ca_failed = 0, ca_scheduled_at = None,
     ca_last_error = None, ca_created_at = 0\<rparr>"

definition demo_env :: runner_env where
  "demo_env = \<lparr>re_settings = default_settings, re_zone = demo_zone, re_now = hours 10,
     re_sims = Inr [\<lparr>si_id = ''s1'', si_status = Some ''active'', si_quota_remaining = Some 1\<rparr>],
     re_send = (\<lambda>i sim to body. Inr \<lparr>sr_status = SMS_SENT, sr_cost = 0\<rparr>), re_clock = (\<lambda>i. hours 10), re_gap = (\<lambda>i. 120),
     re_status = (\<lambda>i d. d), re_check = (\<lambda>i d. d), re_pause = (\<lambda>i d. d), re_end = (\<lambda>d. d),
     re_finished = hours 11\<rparr>"

definition demo_campaign_db :: db where
  "demo_campaign_db = empty_db\<lparr>campaigns := [demo_campaign],
     listings := [demo_listing 1 ''+33600000001'', demo_listing 2 ''+33600000002'', demo_listing 3 ''+33600000003''],
     blacklist := [\<lparr>bl_id = 1, bl_phone = ''+33600000001'', bl_source_sim = None, bl_source_project = None, bl_created_at = 0\<rparr>]\<rparr>"

lemma demo_polite: "polite demo_env"
  by (simp add: polite_def stops_kept_def demo_env_def)

text \<open>
  C1. A run never writes to a number that had said STOP (rule R02). If the sessions that run beside
  it do not remove numbers from the blacklist, no number that is blacklisted when \<open>run_campaign\<close>
  starts is passed to \<open>send_sms\<close>, whatever the gateway answers and whatever the other sessions do
  between and during the turns; a run makes at most 200 calls.
\<close>

theorem run_campaign_respects_blacklist:
  assumes "polite E" and "og \<in> set (rt_outbox (run_campaign E campaign_id workflow_id d))"
  shows "\<not> is_blacklisted (og_to og) d \<and> length (rt_outbox (run_campaign E campaign_id workflow_id d)) \<le> 200"
proof (cases rule: run_campaign_cases [of E campaign_id workflow_id d])
  case quiet
  with assms show ?thesis by simp
next
  case (looped cid wid campaign ls backlog d1 sims fin r)
  note st = start_run_Started [OF looped(1)]
  have bl: "is_blacklisted p d1 = is_blacklisted p d" for p
    using st(5) by (simp add: is_blacklisted_def)
  have "(\<forall>p. is_blacklisted p d \<longrightarrow> is_blacklisted p (rn_db (snd (fin, r))))
      \<and> (\<forall>og\<in>set (rn_outbox (snd (fin, r))). \<not> is_blacklisted (og_to og) d)"
    unfolding looped(6) [symmetric]
    by (rule send_loop_invariant, use send_turn_no_blacklisted [OF assms(1)] in blast)
      (simp add: initial_runner_def bl)
  moreover have "length (rn_outbox r) \<le> length (rn_outbox (initial_runner sims d1)) + length ls"
    using send_loop_length [of E cid wid "ca_message_template campaign" sims 0 ls "initial_runner sims d1"]
    by (simp add: looped(6))
  ultimately show ?thesis
    using assms(2) looped(7) st(3) by (simp add: initial_runner_def CAMPAIGN_BATCH_SIZE_def)
qed

lemma run_campaign_respects_blacklist_witness:
  "\<exists>og\<in>set (rt_outbox (run_campaign demo_env (RUuid 5) None demo_campaign_db)).
     og_to og = ''+33600000002'' \<and> \<not> is_blacklisted (og_to og) demo_campaign_db"
proof -
  have "map og_to (rt_outbox (run_campaign demo_env (RUuid 5) None demo_campaign_db)) = [''+33600000002'']"
    by code_simp
  then obtain og where og: "og \<in> set (rt_outbox (run_campaign demo_env (RUuid 5) None demo_campaign_db))"
    "og_to og = ''+33600000002''" by (auto simp: map_eq_Cons_conv)
  with run_campaign_respects_blacklist [OF demo_polite og(1)] show ?thesis by blast
qed

text \<open>
  C12. Sending quotas and the STOP notice. Per SIM, the number of messages the gateway accepts in a
  run is at most the quota the SIM list gave (15 when it gave none) and never positive for a SIM
  without quota; every call uses an active SIM of the list, goes to the phone of a fetched \<open>NOUVELLE\<close>
  listing, and carries the STOP notice (up to letter case).
\<close>

theorem run_campaign_quota_and_notice:
  assumes "re_sims E = Inr sims"
  shows "sent_by s (rt_outbox (run_campaign E campaign_id workflow_id d)) \<le> max 0 (quota_of (initial_quotas sims) s)
    \<and> (\<forall>og\<in>set (rt_outbox (run_campaign E campaign_id workflow_id d)).
         (\<exists>l\<in>set (listings d). sendable l \<and> li_phone l = Some (og_to og))
         \<and> (\<exists>sim\<in>set sims. si_id sim = og_sim og \<and> si_status sim = Some ''active'')
         \<and> contains (lower (''STOP au '' @ sms_stop_number (re_settings E) @ '' pour ne plus recevoir de SMS''))
             (lower (og_body og)))"
proof (cases rule: run_campaign_cases [of E campaign_id workflow_id d])
  case quiet
  then show ?thesis by simp
next
  case (looped cid wid campaign ls backlog d1 sims' fin r)
  have sims: "sims' = sims" using looped(2) assms by simp
  note st = start_run_Started [OF looped(1)]
  have "quota_inv (initial_quotas sims) (snd (fin, r))"
    unfolding looped(6) [symmetric] sims
    by (rule send_loop_invariant, use send_turn_quota in blast) (simp add: quota_inv_def initial_runner_def)
  then have "sent_by s (rn_outbox r) \<le> max 0 (quota_of (initial_quotas sims) s)"
    using sent_by_nonneg [of s "rn_outbox r"] by (auto simp: quota_inv_def dest!: spec [of _ s]; linarith)
  moreover have "\<forall>og\<in>set (rn_outbox (snd (fin, r))). well_formed_message E ls sims og"
    unfolding looped(6) [symmetric] sims
    by (rule send_loop_invariant, use send_turn_well_formed in blast) (simp add: initial_runner_def)
  moreover have "\<exists>l'\<in>set (listings d). sendable l' \<and> li_phone l' = Some (listing_phone l)" if "l \<in> set ls" for l
  proof -
    have "l \<in> set (listings d)" "sendable l"
      using that candidate_listingsD [of l cid d] by (auto simp: st(3) dest: in_set_takeD)
    then show ?thesis by (auto simp: sendable_def listing_phone_def intro!: bexI [of _ l])
  qed
  ultimately show ?thesis
    using looped(7) by (auto simp: well_formed_message_def stop_notice_eq)
qed

lemma run_campaign_quota_and_notice_witness:
  "sent_by ''s1'' (rt_outbox (run_campaign demo_env (RUuid 5) None demo_campaign_db)) \<le> 1"
proof -
  have "re_sims demo_env = Inr [\<lparr>si_id = ''s1'', si_status = Some ''active'', si_quota_remaining = Some 1\<rparr>]"
    by (simp add: demo_env_def)
  from run_campaign_quota_and_notice [OF this, of "''s1''" "RUuid 5" None demo_campaign_db]
  show ?thesis by (simp add: initial_quotas_def)
qed

text \<open>
  The books are right. When a run that started returns, the reported \<open>sent\<close> is the number of
  calls the gateway accepted and \<open>sent + failed\<close> the number of calls; the campaign row gets the
  previous counters plus these and the reported status, and the workflow row, if there is one, the
  status that corresponds to it, with its progress advanced by the same number.
\<close>

theorem run_campaign_books:
  assumes "rt_result (run_campaign E (RUuid cid) (map_option RUuid wid) d) = Inr res"
    and "rt_outbox (run_campaign E (RUuid cid) (map_option RUuid wid) d) = ogs" and "ogs \<noteq> []"
    and "c' \<in> set (campaigns (rt_db (run_campaign E (RUuid cid) (map_option RUuid wid) d)))" and "ca_id c' = cid"
    and "find_row (\<lambda>c. ca_id c = cid) (campaigns d) = Some c"
  shows "rr_sent res = int (length (filter og_sent ogs)) \<and> rr_sent res + rr_failed res = int (length ogs)
    \<and> ca_sent c' = ca_sent c + rr_sent res \<and> ca_failed c' = ca_failed c + rr_failed res
    \<and> rr_status res = lower (campaign_status_value (ca_status c'))
    \<and> (\<forall>w\<in>set (workflow_runs (rt_db (run_campaign E (RUuid cid) (map_option RUuid wid) d))).
         Some (wf_id w) = wid \<longrightarrow> wf_status w = campaign_to_workflow_status (ca_status c'))"
proof (cases rule: run_campaign_cases [of E "RUuid cid" "map_option RUuid wid" d])
  case quiet
  with assms show ?thesis by simp
next
  case (looped cid' wid' campaign ls backlog d1 sims fin r)
  note fin = looped(8) [OF assms(1)]
  have "counted (snd (fin, r))"
    unfolding looped(6) [symmetric]
    by (rule send_loop_invariant, use send_turn_counted in blast) (simp add: counted_def initial_runner_def)
  then have counts: "rr_sent res = int (length (filter og_sent ogs))" "rr_sent res + rr_failed res = int (length ogs)"
    using fin looped(7) assms(2) by (simp_all add: counted_def)
  have same: "cid' = cid" using looped(3) by simp
  have same': "wid' = wid" using looped(4) by (cases wid) auto
  have "campaign = c" using same start_run_Started(1) [OF looped(1)] assms(6) by simp
  define st where "st = final_status fin backlog"
  have db: "rt_db (run_campaign E (RUuid cid) (map_option RUuid wid) d) =
      finish_run (re_finished E) (RUuid cid) cid wid c backlog st r (re_end E (rn_db r))"
    using fin same same' \<open>campaign = c\<close> by (simp add: st_def)
  note row = finish_run_campaign [OF assms(4) [unfolded db] assms(5)]
  have "wf_status w = campaign_to_workflow_status st"
    if "w \<in> set (workflow_runs (finish_run (re_finished E) (RUuid cid) cid wid c backlog st r (re_end E (rn_db r))))"
      "Some (wf_id w) = wid" for w
    using that finish_run_workflow by blast
  with row fin counts show ?thesis by (simp add: db run_result_status_def st_def)
qed

lemma run_campaign_books_witness:
  "\<exists>res. rt_result (run_campaign demo_env (RUuid 5) (map_option RUuid None) demo_campaign_db) = Inr res
     \<and> rr_sent res = 1 \<and> rr_failed res = 0"
proof -
  define t where "t = run_campaign demo_env (RUuid 5) (map_option RUuid None) demo_campaign_db"
  have "\<not> is_error (rt_result t) \<and> map og_sent (rt_outbox t) = [True]
      \<and> map ca_id (campaigns (rt_db t)) = [5]"
    unfolding t_def by code_simp
  then obtain res ogs c' where r: "rt_result t = Inr res" "rt_outbox t = ogs" "ogs \<noteq> []"
      "c' \<in> set (campaigns (rt_db t))" "ca_id c' = 5" "map og_sent ogs = [True]"
    by (auto simp: not_is_error_iff map_eq_Cons_conv)
  have c: "find_row (\<lambda>c. ca_id c = 5) (campaigns demo_campaign_db) = Some demo_campaign"
    by (simp add: demo_campaign_db_def demo_campaign_def)
  obtain og where "ogs = [og]" "og_sent og" using r(6) by (auto simp: map_eq_Cons_conv)
  with run_campaign_books [OF r(1-5) [unfolded t_def] c] r(1) show ?thesis by (auto simp: t_def)
qed

text \<open>
  A STOP during the pause is not honoured. The blacklist is read before the pause of up to twelve
  minutes, and not again: when a turn passes the check and finds a SIM and a message, it calls
  \<open>send_sms\<close> for the number even if that number is blacklisted, or the campaign paused or cancelled,
  while the turn sleeps.
\<close>

theorem stop_during_pause_is_sent:
  assumes "\<not> is_blacklisted (listing_phone l) (re_check E i (re_status E i (rn_db r)))"
    and "select_best_sim sims (rn_quotas r) = Some sim"
    and "render_sms_body (re_settings E) template (li_url l) (case li_title l of None \<Rightarrow> [] | Some t \<Rightarrow> t) = Inr message"
    and "is_blacklisted (listing_phone l) (re_pause E i (re_check E i (re_status E i (rn_db r))))"
  shows "\<exists>fin r' og. send_turn E cid None template sims i l r = (fin, r') \<and> rn_outbox r' = rn_outbox r @ [og]
    \<and> og_to og = listing_phone l"
proof -
  obtain fin r' where t: "send_turn E cid None template sims i l r = (fin, r')" by fastforce
  then have "attempt E i cid sim l message (compute_inter_sms_delay_seconds (re_gap E i) (si_id sim) (re_clock E i)
      (re_check E i (re_status E i (rn_db r)))) (r\<lparr>rn_db := re_pause E i (re_check E i (re_status E i (rn_db r)))\<rparr>) = (fin, r')"
    using assms by (simp add: send_turn_def Let_def)
  then show ?thesis by (cases rule: attempt_cases) (use t in auto)
qed

definition stop_env :: runner_env where
  "stop_env = demo_env\<lparr>re_pause := (\<lambda>i. add_to_blacklist 0 ''+33600000002'' ''s1'' ''P2'')\<rparr>"

lemma stop_during_pause_is_sent_witness:
  "\<exists>fin r' og. send_turn stop_env 5 None ''Bonjour'' [\<lparr>si_id = ''s1'', si_status = Some ''active'', si_quota_remaining = Some 1\<rparr>] 0
     (demo_listing 2 ''+33600000002'')
     (initial_runner [\<lparr>si_id = ''s1'', si_status = Some ''active'', si_quota_remaining = Some 1\<rparr>] empty_db) = (fin, r')
     \<and> rn_outbox r' = [og] \<and> og_to og = ''+33600000002''"
proof -
  let ?sims = "[\<lparr>si_id = ''s1'', si_status = Some ''active'', si_quota_remaining = Some 1\<rparr>]"
  let ?l = "demo_listing 2 ''+33600000002''" and ?r = "initial_runner ?sims empty_db"
  have 1: "\<not> is_blacklisted (listing_phone ?l) (re_check stop_env 0 (re_status stop_env 0 (rn_db ?r)))" by code_simp
  have 2: "select_best_sim ?sims (rn_quotas ?r) = Some (hd ?sims)" by code_simp
  have 3: "render_sms_body (re_settings stop_env) ''Bonjour'' (li_url ?l) (case li_title ?l of None \<Rightarrow> [] | Some t \<Rightarrow> t)
      = Inr (''Bonjour'' @ [CHR 0x0A] @ ''STOP au XXXX pour ne plus recevoir de SMS'')" by code_simp
  have 4: "is_blacklisted (listing_phone ?l) (re_pause stop_env 0 (re_check stop_env 0 (re_status stop_env 0 (rn_db ?r))))" by code_simp
  have "rn_outbox ?r = []" "listing_phone ?l = ''+33600000002''"
    by (simp_all add: initial_runner_def listing_phone_def demo_listing_def)
  with stop_during_pause_is_sent [OF 1 2 3 4, of 5] show ?thesis by simp
qed

section \<open>Blacklisted listings\<close>

definition only_leads :: "db \<Rightarrow> db \<Rightarrow> bool" where
  \<comment> \<open>another session: it may add to the blacklist, and to every table this campaign does not read\<close>
  "only_leads d d' \<longleftrightarrow> listings d' = listings d \<and> campaigns d' = campaigns d \<and> workflow_runs d' = workflow_runs d
     \<and> (\<forall>p. is_blacklisted p d \<longrightarrow> is_blacklisted p d')"

lemma only_leads_refl [simp]: "only_leads d d"
  by (simp add: only_leads_def)













text \<open>
  The sending window (rule R01) and the spacing of a SIM. Outside the window, the time a campaign
  is deferred to is a wall clock in the future, at most a day ahead, at the opening hour; and the
  pause before a message is between 0 and the random gap (so at most 720 seconds) and, when it ends,
  at least the gap has passed since the last message that the log shows for the SIM.
\<close>

theorem sms_window_and_spacing:
  assumes "0 \<le> sms_hour_start s" "sms_hour_start s < sms_hour_end s" "sms_hour_start s \<le> 23"
    and "\<not> is_within_sms_window s z now"
    and "120 \<le> gap" "gap \<le> 720" "l \<in> set (sms_log d)" "sl_sim_id l = sim" "sl_status l = SMS_SENT"
    and "\<forall>l'\<in>set (sms_log d). sl_sent_at l' \<le> now"
  shows "(\<exists>w. next_sms_window_start s z now = Inr w \<and> zone_local z now < w \<and> w \<le> zone_local z now + days 1
           \<and> local_hour w = sms_hour_start s)
    \<and> compute_inter_sms_delay_seconds gap sim now d \<in> {0..720}
    \<and> sl_sent_at l + seconds gap \<le> now + seconds (compute_inter_sms_delay_seconds gap sim now d)"
proof -
  define open0 where "open0 = zone_local z now - zone_local z now mod days 1 + hours (sms_hour_start s)"
  have less: "local_hour (zone_local z now) < sms_hour_start s \<longleftrightarrow> zone_local z now < open0"
    unfolding open0_def by (rule local_hour_less)
  have "open0 \<le> zone_local z now + days 1"
  proof -
    have "0 \<le> zone_local z now mod days 1" "hours (sms_hour_start s) \<le> days 1"
      using assms(3) by (simp_all add: duration_defs)
    then show ?thesis by (simp add: open0_def)
  qed
  moreover have "zone_local z now < open0 + days 1"
  proof -
    have "zone_local z now mod days 1 < days 1" "0 \<le> hours (sms_hour_start s)"
      using assms(1) by (simp_all add: duration_defs)
    then show ?thesis by (simp add: open0_def)
  qed
  moreover have "local_hour open0 = sms_hour_start s"
    unfolding open0_def using assms(1,3) by (rule local_hour_day)
  ultimately have window: "\<exists>w. next_sms_window_start s z now = Inr w \<and> zone_local z now < w
      \<and> w \<le> zone_local z now + days 1 \<and> local_hour w = sms_hour_start s"
    using assms(1,3) less by (auto simp: next_sms_window_start_def Let_def open0_def [symmetric])
  have "filter (\<lambda>l. sl_sim_id l = sim \<and> sl_status l = SMS_SENT) (sms_log d) \<noteq> []"
    using assms(7-9) by (auto simp: filter_empty_conv)
  then obtain m where m: "latest sl_sent_at (filter (\<lambda>l. sl_sim_id l = sim \<and> sl_status l = SMS_SENT) (sms_log d)) = Some m"
    by (metis latest_None_iff not_None_eq)
  from latest_SomeD [OF m] have "m \<in> set (sms_log d)" "sl_sent_at l \<le> sl_sent_at m" using assms(7-9) by auto
  define e where "e = (now - sl_sent_at m) div seconds 1"
  have "sl_sent_at m \<le> now" using assms(10) \<open>m \<in> set (sms_log d)\<close> by blast
  have "now - sl_sent_at m = seconds 1 * e + (now - sl_sent_at m) mod seconds 1" by (simp add: e_def)
  moreover have "0 \<le> (now - sl_sent_at m) mod seconds 1" by (simp add: seconds_def)
  ultimately have e: "sl_sent_at m + seconds e \<le> now" by (simp add: seconds_def)
  have "0 \<le> e" using \<open>sl_sent_at m \<le> now\<close> by (simp add: e_def seconds_def pos_imp_zdiv_nonneg_iff)
  then have delay: "compute_inter_sms_delay_seconds gap sim now d = max 0 (gap - e)"
    using m by (simp add: compute_inter_sms_delay_seconds_def e_def Let_def)
  with e \<open>0 \<le> e\<close> \<open>sl_sent_at l \<le> sl_sent_at m\<close> assms(5,6) window show ?thesis
    by (simp add: seconds_def max_def)
qed

definition demo_sms :: sms_log where
  "demo_sms = \<lparr>sl_id = 1, sl_sim_id = ''s1'', sl_to_phone = ''+33600000001'', sl_listing_id = None, sl_body = [],
     sl_status = SMS_SENT, sl_project = ''P2'', sl_cost_eur = None, sl_campaign_id = None, sl_contact_id = None,
     sl_direction = DIR_OUTBOUND, sl_sequence_step = None, sl_variant_key = None, sl_classification = None,
     sl_idempotency_key = None, sl_received_at = None, sl_sent_at = hours 21\<rparr>"

lemma sms_window_and_spacing_witness:
  "compute_inter_sms_delay_seconds 300 ''s1'' (hours 21 + seconds 100) (empty_db\<lparr>sms_log := [demo_sms]\<rparr>) \<in> {0..720}"
proof -
  have "\<not> is_within_sms_window default_settings demo_zone (hours 21 + seconds 100)" by code_simp
  then show ?thesis
    using sms_window_and_spacing [of default_settings demo_zone "hours 21 + seconds 100" 300 demo_sms
        "empty_db\<lparr>sms_log := [demo_sms]\<rparr>" "''s1''"]
    by (simp add: default_settings_def demo_sms_def seconds_def)
qed

end
