(* ===== verification/Commands.thy ===== *)
theory Commands
  imports Tables Formatting
begin

text \<open>
  What the operator commands share: the world they act on (the database and the Celery queue), the
  rows of \<open>workflow_runs\<close> and \<open>audit_events\<close> they insert, and the contract of an idempotent command,
  the locale \<open>idempotent_command\<close>: a command whose key was seen leaves the world as it is. The
  broker (\<open>apply_async\<close> and \<open>delay\<close>) is a parameter that answers each dispatch with a task id or an
  exception.
\<close>

section \<open>The world of a command\<close>

type_synonym celery_task = "string \<times> json list"

record world =
  w_db :: db
  w_calls :: nat  \<comment> \<open>dispatches asked for so far\<close>
  w_queue :: "celery_task list"  \<comment> \<open>tasks the broker accepted, oldest first\<close>
  w_revoked :: "(string \<times> bool) list"  \<comment> \<open>task ids revoked, and whether they are terminated\<close>

type_synonym broker = "nat \<Rightarrow> string result"

definition ref_text :: "ref \<Rightarrow> string" where
  "ref_text r = (case r of RUuid u \<Rightarrow> str_uuid u | RText t \<Rightarrow> t)"

definition dispatch :: "broker \<Rightarrow> celery_task \<Rightarrow> world \<Rightarrow> string result \<times> world" where
  "dispatch b t w =
     (case b (w_calls w) of
        Inl e \<Rightarrow> (Inl e, w\<lparr>w_calls := Suc (w_calls w)\<rparr>)
      | Inr tid \<Rightarrow> (Inr tid, w\<lparr>w_calls := Suc (w_calls w), w_queue := w_queue w @ [t]\<rparr>))"

definition on_db :: "(db \<Rightarrow> db) \<Rightarrow> world \<Rightarrow> world" where
  "on_db f w = w\<lparr>w_db := f (w_db w)\<rparr>"

definition in_session :: "(db \<Rightarrow> exn + ('a \<times> db)) \<Rightarrow> world \<Rightarrow> 'a result \<times> world" where
  "in_session block w = (case session block (w_db w) of (r, d) \<Rightarrow> (r, w\<lparr>w_db := d\<rparr>))"

fun json_truthy :: "json \<Rightarrow> bool" where
  \<comment> \<open>\<open>bool(value)\<close>\<close>
  "json_truthy JNull = False"
| "json_truthy (JBool b) = b"
| "json_truthy (JInt i) = (i \<noteq> 0)"
| "json_truthy (JFloat q) = (q \<noteq> 0)"
| "json_truthy (JStr s) = (s \<noteq> [])"
| "json_truthy (JList xs) = (xs \<noteq> [])"
| "json_truthy (JObj kvs) = (kvs \<noteq> [])"

definition dict_or_empty :: "(string, json) dict option \<Rightarrow> (string, json) dict" where
  \<comment> \<open>\<open>value or {}\<close>\<close>
  "dict_or_empty x = (case x of None \<Rightarrow> [] | Some m \<Rightarrow> m)"

definition get_json :: "(string, json) dict \<Rightarrow> string \<Rightarrow> json" where
  \<comment> \<open>\<open>d.get(k)\<close>\<close>
  "get_json d k = (case dict_get d k of None \<Rightarrow> JNull | Some v \<Rightarrow> v)"

definition json_or :: "json \<Rightarrow> json \<Rightarrow> json" where
  "json_or a b = (if json_truthy a then a else b)"

definition json_text_option :: "json \<Rightarrow> string option" where
  "json_text_option j = (case j of JStr s \<Rightarrow> Some s | _ \<Rightarrow> None)"

definition json_str :: "(json \<Rightarrow> string) \<Rightarrow> json \<Rightarrow> string" where
  \<comment> \<open>\<open>str(value)\<close>\<close>
  "json_str txt j = (case j of JStr s \<Rightarrow> s | _ \<Rightarrow> txt j)"

definition str_first :: "(json \<Rightarrow> string) \<Rightarrow> (string, json) dict \<Rightarrow> string \<Rightarrow> string \<Rightarrow> string" where
  \<comment> \<open>\<open>str(payload.get(a) or payload.get(b) or "")\<close>\<close>
  "str_first txt kv a b = json_str txt (json_or (get_json kv a) (json_or (get_json kv b) (JStr [])))"

definition str_field :: "(json \<Rightarrow> string) \<Rightarrow> (string, json) dict \<Rightarrow> string \<Rightarrow> string" where
  \<comment> \<open>\<open>str(message.get(k, ""))\<close>\<close>
  "str_field txt kv k = json_str txt (case dict_get kv k of None \<Rightarrow> JStr [] | Some v \<Rightarrow> v)"

section \<open>Rows\<close>

definition new_workflow :: "datetime \<Rightarrow> db \<Rightarrow> string \<Rightarrow> string \<Rightarrow> string \<Rightarrow> ref \<Rightarrow> string \<Rightarrow> workflow_run" where
  \<comment> \<open>\<open>WorkflowRun(idempotency_key, workflow_type, target_type, target_id, initiated_by)\<close> with the
      defaults of the other columns\<close>
  "new_workflow now d k wtype ttype target actor =
     \<lparr>wf_id = fresh_id d, wf_idempotency_key = k, wf_workflow_type = wtype, wf_target_type = Some ttype,
      wf_target_id = Some target, wf_status = W_PENDING, wf_progress_current = 0, wf_progress_total = None,
      wf_batch_number = 0, wf_batch_size = None, wf_celery_task_id = None, wf_checkpoint = None,
      wf_last_error_code = None, wf_last_error = None, wf_initiated_by = Some actor, wf_started_at = None,
      wf_finished_at = None, wf_created_at = now, wf_updated_at = now\<rparr>"

definition add_workflow :: "workflow_run \<Rightarrow> db \<Rightarrow> db result" where
  \<comment> \<open>\<open>db.add(workflow); await db.flush()\<close>: the key is unique\<close>
  "add_workflow row d =
     (if wf_idempotency_key row \<in> wf_idempotency_key ` set (workflow_runs d)
      then Inl (IntegrityError ''workflow_runs_idempotency_key_key'')
      else Inr (d\<lparr>workflow_runs := workflow_runs d @ [row], fresh_id := Suc (fresh_id d)\<rparr>))"

definition add_audit :: "datetime \<Rightarrow> string \<Rightarrow> string \<Rightarrow> string \<Rightarrow> string \<Rightarrow> ref \<Rightarrow> string \<Rightarrow> (string, json) dict
    \<Rightarrow> string \<Rightarrow> uuid option \<Rightarrow> db \<Rightarrow> db" where
  "add_audit now actor role action ttype target k summary rstatus wid d =
     d\<lparr>audit_events := audit_events d @
         [\<lparr>ae_id = fresh_id d, ae_actor = actor, ae_role = role, ae_action = action, ae_target_type = Some ttype,
           ae_target_id = Some target, ae_idempotency_key = Some k, ae_input_summary = Some summary,
           ae_result_status = rstatus, ae_workflow_run_id = wid, ae_created_at = now\<rparr>],
       fresh_id := Suc (fresh_id d)\<rparr>"

definition audit_by_key :: "string \<Rightarrow> db \<Rightarrow> audit_event option" where
  "audit_by_key k d = find_row (\<lambda>a. ae_idempotency_key a = Some k) (audit_events d)"

definition workflow_by_key :: "string \<Rightarrow> db \<Rightarrow> workflow_run option" where
  "workflow_by_key k d = find_row (\<lambda>w. wf_idempotency_key w = k) (workflow_runs d)"

definition get_workflow :: "uuid \<Rightarrow> db \<Rightarrow> workflow_run option" where
  "get_workflow wid d = find_row (\<lambda>w. wf_id w = wid) (workflow_runs d)"

definition set_workflow :: "uuid \<Rightarrow> (workflow_run \<Rightarrow> workflow_run) \<Rightarrow> db \<Rightarrow> db" where
  "set_workflow wid f d = d\<lparr>workflow_runs := update_where (\<lambda>w. wf_id w = wid) f (workflow_runs d)\<rparr>"

definition set_task_id :: "uuid \<Rightarrow> string \<Rightarrow> db \<Rightarrow> db" where
  "set_task_id wid tid = set_workflow wid (\<lambda>w. w\<lparr>wf_celery_task_id := Some tid\<rparr>)"

definition new_event :: "datetime \<Rightarrow> string \<Rightarrow> string \<Rightarrow> json option \<Rightarrow> db \<Rightarrow> webhook_event" where
  "new_event now key source payload d = \<lparr>we_id = fresh_id d, we_event_key = key, we_source = source, we_processed = False,
     we_payload = payload, we_created_at = now\<rparr>"

definition insert_event :: "datetime \<Rightarrow> string \<Rightarrow> string \<Rightarrow> json option \<Rightarrow> db \<Rightarrow> bool \<times> db" where
  "insert_event now key source payload d =
     (case insert_new we_event_key (new_event now key source payload d) (webhook_events d) of
        (fresh, events) \<Rightarrow>
          (fresh, if fresh then d\<lparr>webhook_events := events, fresh_id := Suc (fresh_id d)\<rparr> else d))"

definition audited :: "string \<Rightarrow> db \<Rightarrow> bool" where
  "audited k d = (Some k \<in> ae_idempotency_key ` set (audit_events d))"

definition workflow_keyed :: "string \<Rightarrow> db \<Rightarrow> bool" where
  "workflow_keyed k d = (k \<in> wf_idempotency_key ` set (workflow_runs d))"

lemma audit_by_key_None_iff: "audit_by_key k d = None \<longleftrightarrow> \<not> audited k d"
  by (auto simp: audit_by_key_def audited_def find_row_None_iff image_iff)

lemma audit_by_key_Some: "audited k d \<longleftrightarrow> (\<exists>a. audit_by_key k d = Some a)"
  using audit_by_key_None_iff [of k d] by auto

lemma workflow_by_key_None_iff: "workflow_by_key k d = None \<longleftrightarrow> \<not> workflow_keyed k d"
  by (auto simp: workflow_by_key_def workflow_keyed_def find_row_None_iff image_iff)

lemma workflow_by_key_Some: "workflow_keyed k d \<longleftrightarrow> (\<exists>a. workflow_by_key k d = Some a)"
  using workflow_by_key_None_iff [of k d] by auto

lemma add_workflow_Inr:
  "add_workflow row d = Inr d' \<longleftrightarrow> \<not> workflow_keyed (wf_idempotency_key row) d
     \<and> d' = d\<lparr>workflow_runs := workflow_runs d @ [row], fresh_id := Suc (fresh_id d)\<rparr>"
  by (auto simp: add_workflow_def workflow_keyed_def)

lemma add_workflow_frame:
  assumes "add_workflow row d = Inr d'"
  shows "audit_events d' = audit_events d" "platform_accounts d' = platform_accounts d" "campaigns d' = campaigns d"
    "workflow_runs d' = workflow_runs d @ [row]" "listings d' = listings d"
  using assms by (auto simp: add_workflow_Inr)

lemma audited_add_audit [simp]:
  "audited k (add_audit now actor role action ttype target k' summary rstatus wid d) \<longleftrightarrow> k = k' \<or> audited k d"
  by (auto simp: audited_def add_audit_def)

lemma add_audit_simps [simp]:
  "workflow_runs (add_audit now actor role action ttype target k summary rstatus wid d) = workflow_runs d"
  "campaigns (add_audit now actor role action ttype target k summary rstatus wid d) = campaigns d"
  "platform_accounts (add_audit now actor role action ttype target k summary rstatus wid d) = platform_accounts d"
  by (simp_all add: add_audit_def)

lemma set_workflow_simps [simp]:
  "audit_events (set_workflow wid f d) = audit_events d" "campaigns (set_workflow wid f d) = campaigns d"
  "platform_accounts (set_workflow wid f d) = platform_accounts d"
  by (simp_all add: set_workflow_def)

lemma set_task_id_simps [simp]:
  "audit_events (set_task_id wid t d) = audit_events d" "campaigns (set_task_id wid t d) = campaigns d"
  by (simp_all add: set_task_id_def)

lemma audited_set_task_id [simp]: "audited k (set_task_id wid t d) = audited k d"
  by (simp add: audited_def)

lemma workflow_keyed_set [simp]:
  assumes "\<And>w. wf_idempotency_key (f w) = wf_idempotency_key w"
  shows "workflow_keyed k (set_workflow wid f d) = workflow_keyed k d"
proof -
  have "wf_idempotency_key ` set (workflow_runs (set_workflow wid f d)) = wf_idempotency_key ` set (workflow_runs d)"
    unfolding set_workflow_def using map_update_where [of wf_idempotency_key f, OF assms]
    by (simp flip: set_map)
  then show ?thesis by (simp add: workflow_keyed_def)
qed

lemma workflow_keyed_set_task_id [simp]: "workflow_keyed k (set_task_id wid t d) = workflow_keyed k d"
  by (simp add: set_task_id_def)

lemma dispatch_db [simp]: "w_db (snd (dispatch b t w)) = w_db w"
  by (simp add: dispatch_def split: sum.splits)

section \<open>Idempotent commands\<close>

locale idempotent_command =
  fixes seen :: "'k \<Rightarrow> 's \<Rightarrow> bool" and key :: "'c \<Rightarrow> 'k"
    and exec :: "'c \<Rightarrow> 's \<Rightarrow> 'r result \<times> 's"
  assumes seen_noop: "seen (key c) s \<Longrightarrow> snd (exec c s) = s"
    and success_seen: "exec c s = (Inr r, s') \<Longrightarrow> seen (key c) s'"
    and seen_kept: "seen k s \<Longrightarrow> seen k (snd (exec c s))"
begin

definition run :: "'c list \<Rightarrow> 's \<Rightarrow> 's" where
  "run cs s = fold (\<lambda>c s. snd (exec c s)) cs s"

lemma run_simps [simp]: "run [] s = s" "run (c # cs) s = run cs (snd (exec c s))"
  by (simp_all add: run_def)

lemma run_append: "run (as @ bs) s = run bs (run as s)"
  by (simp add: run_def)

lemma run_seen: "seen k s \<Longrightarrow> seen k (run cs s)"
  by (induction cs arbitrary: s) (auto simp: seen_kept)

text \<open>A retry of a command that succeeded has no effect, whatever was executed in between.\<close>

lemma retry_noop:
  assumes "exec c s = (Inr r, s1)" "key c' = key c"
  shows "snd (exec c' (run cs s1)) = run cs s1"
  using seen_noop [of c' "run cs s1"] run_seen [OF success_seen [OF assms(1)], of cs] assms(2) by simp

text \<open>A history has the effect of its part without the commands whose key was already seen.\<close>

fun effective :: "'c list \<Rightarrow> 's \<Rightarrow> 'c list" where
  "effective [] s = []"
| "effective (c # cs) s = (if seen (key c) s then effective cs s else c # effective cs (snd (exec c s)))"

lemma run_effective: "run (effective cs s) s = run cs s"
  by (induction cs arbitrary: s) (auto simp: seen_noop)

text \<open>If every effective command succeeds, each key is executed at most once.\<close>

lemma effective_fresh: "c \<in> set (effective cs s) \<Longrightarrow> \<not> seen (key c) s"
proof (induction cs arbitrary: s)
  case Nil
  then show ?case by simp
next
  case (Cons a cs)
  then show ?case
    using seen_kept [of "key c" s a] by (cases "seen (key a) s") auto
qed

lemma effective_distinct:
  assumes "\<And>c s. \<not> seen (key c) s \<Longrightarrow> seen (key c) (snd (exec c s))"
  shows "distinct (map key (effective cs s))"
proof (induction cs arbitrary: s)
  case Nil
  then show ?case by simp
next
  case (Cons a cs)
  show ?case
  proof (cases "seen (key a) s")
    case True
    with Cons show ?thesis by simp
  next
    case False
    have "seen (key a) (snd (exec a s))" using assms False by blast
    then have "key a \<notin> key ` set (effective cs (snd (exec a s)))"
      using effective_fresh by fastforce
    with False Cons show ?thesis by simp
  qed
qed

end

end
