(* ===== verification/Campaign_Control.thy ===== *)
theory Campaign_Control
  imports Commands
begin

text \<open>
  \<open>app/services/campaign_control.py\<close>: creation of campaigns and the commands start, pause, resume,
  cancel and retry. A command is one session (duplicate check, transition, one workflow per channel,
  audit event) followed by one dispatch and one session per started workflow.
\<close>

section \<open>Definitions\<close>

record vehicle_search_criteria =
  vs_brand_model :: "string option"
  vs_vehicle_type :: "string option"
  vs_region :: "string option"
  vs_department :: "string option"
  vs_budget_min :: "int option"
  vs_budget_max :: "int option"
  vs_year_max :: "int option"
  vs_mileage_max :: "int option"

definition validate_budget :: "vehicle_search_criteria \<Rightarrow> vehicle_search_criteria result" where
  "validate_budget v =
     (case (vs_budget_min v, vs_budget_max v) of
        (Some lo, Some hi) \<Rightarrow>
          if lo > hi then Inl (ValueError ''budget_min must be less than or equal to budget_max'') else Inr v
      | _ \<Rightarrow> Inr v)"

definition dump_criteria :: "vehicle_search_criteria \<Rightarrow> (string, json) dict" where
  \<comment> \<open>\<open>model_dump(exclude_none=True)\<close>\<close>
  "dump_criteria v =
     (let txt = (\<lambda>k x. case x of None \<Rightarrow> [] | Some s \<Rightarrow> [(k, JStr s)]);
          num = (\<lambda>k x. case x of None \<Rightarrow> [] | Some n \<Rightarrow> [(k, JInt n)]) in
      txt ''brand_model'' (vs_brand_model v) @ txt ''vehicle_type'' (vs_vehicle_type v)
      @ txt ''region'' (vs_region v) @ txt ''department'' (vs_department v)
      @ num ''budget_min'' (vs_budget_min v) @ num ''budget_max'' (vs_budget_max v)
      @ num ''year_max'' (vs_year_max v) @ num ''mileage_max'' (vs_mileage_max v))"

definition create_controlled_campaign :: "datetime \<Rightarrow> string \<Rightarrow> string \<Rightarrow> int \<Rightarrow> vehicle_search_criteria
    \<Rightarrow> string \<Rightarrow> string \<Rightarrow> string \<Rightarrow> db \<Rightarrow> campaign result \<times> db" where
  "create_controlled_campaign now ctype template quota criteria k actor role =
     session (\<lambda>d.
       let create =
         (let c = \<lparr>ca_id = fresh_id d, ca_type = ctype, ca_message_template = template, ca_quota_per_sim = quota,
                   ca_search_criteria = dump_criteria criteria, ca_status = C_PENDING, ca_sent = 0, ca_failed = 0,
                   ca_scheduled_at = None, ca_last_error = None, ca_created_at = now\<rparr>;
              d1 = d\<lparr>campaigns := campaigns d @ [c], fresh_id := Suc (fresh_id d)\<rparr> in
          Inr (c, add_audit now actor role ''campaign.create'' ''campaign'' (RUuid (ca_id c)) k
                    [(''type'', JStr ctype), (''quota_per_sim'', JInt quota),
                     (''search_criteria'', JObj (dump_criteria criteria))] ''created'' None d1)) in
       case audit_by_key k d of
         None \<Rightarrow> create
       | Some a \<Rightarrow>
           (case ae_target_id a of
              None \<Rightarrow> create
            | Some t \<Rightarrow>
                (case uuid_of_ref t of
                   Inl e \<Rightarrow> Inl e
                 | Inr u \<Rightarrow>
                     (case find_row (\<lambda>c. ca_id c = u) (campaigns d) of
                        None \<Rightarrow> create
                      | Some c \<Rightarrow> Inr (c, d)))))"

fun campaign_next :: "campaign_status \<Rightarrow> string \<Rightarrow> campaign_status option" where
  \<comment> \<open>\<open>_TRANSITIONS\<close>\<close>
  "campaign_next C_PENDING a =
     (if a = ''start'' then Some C_RUNNING else if a = ''cancel'' then Some C_CANCELLED else None)"
| "campaign_next C_RUNNING a =
     (if a = ''pause'' then Some C_PAUSED else if a = ''cancel'' then Some C_CANCELLED else None)"
| "campaign_next C_PAUSED a =
     (if a = ''resume'' then Some C_RUNNING else if a = ''cancel'' then Some C_CANCELLED else None)"
| "campaign_next C_FAILED a = (if a = ''retry'' then Some C_RUNNING else None)"
| "campaign_next C_COMPLETED a = None"
| "campaign_next C_CANCELLED a = None"

definition campaign_transition :: "string \<Rightarrow> string \<Rightarrow> campaign_status result" where
  "campaign_transition current action =
     (case enum_parse campaign_status_value campaign_status_members current of
        None \<Rightarrow> Inl (ValueError ''Invalid campaign transition'')
      | Some st \<Rightarrow>
          (case campaign_next st action of
             None \<Rightarrow> Inl (ValueError ''Invalid campaign transition'')
           | Some st' \<Rightarrow> Inr st'))"

definition campaign_workflow_types :: "string \<Rightarrow> string list" where
  "campaign_workflow_types ctype =
     (if ctype = ''both'' then [''campaign.lbc_message'', ''campaign.sms'']
      else [if ctype = ''lbc_message'' then ''campaign.lbc_message'' else ''campaign.sms''])"

definition active_workflow :: "string \<Rightarrow> uuid \<Rightarrow> db \<Rightarrow> workflow_run option" where
  "active_workflow wtype cid d =
     latest wf_created_at (filter (\<lambda>w. wf_workflow_type w = wtype \<and> wf_target_id w = Some (RUuid cid)
       \<and> wf_status w \<in> {W_PENDING, W_RUNNING, W_PAUSED}) (workflow_runs d))"

definition campaign_workflow :: "datetime \<Rightarrow> uuid \<Rightarrow> string \<Rightarrow> string \<Rightarrow> string \<Rightarrow> nat \<Rightarrow> string \<Rightarrow> db
    \<Rightarrow> exn + (uuid \<times> db)" where
  \<comment> \<open>one turn of the loop over the workflow types: the workflow of this type\<close>
  "campaign_workflow now cid action k actor index wtype d =
     (case active_workflow wtype cid d of
        None \<Rightarrow>
          (let row = (new_workflow now d (k @ ''-'' @ str_nat index) wtype ''campaign'' (RUuid cid) actor)
                       \<lparr>wf_batch_size := Some 200\<rparr> in
           map_sum id (\<lambda>d'. (wf_id row, d')) (add_workflow row d))
      | Some w \<Rightarrow>
          if action \<in> {''start'', ''retry''} then
            (let row = (new_workflow now d (k @ ''-'' @ str_nat index) wtype ''campaign'' (RUuid cid) actor)
                         \<lparr>wf_batch_size := Some 200\<rparr> in
             map_sum id (\<lambda>d'. (wf_id row, d')) (add_workflow row d))
          else if action = ''pause'' then Inr (wf_id w, set_workflow (wf_id w) (\<lambda>w. w\<lparr>wf_status := W_PAUSED\<rparr>) d)
          else if action = ''cancel'' then
            Inr (wf_id w, set_workflow (wf_id w) (\<lambda>w. w\<lparr>wf_status := W_CANCELLED, wf_finished_at := Some now\<rparr>) d)
          else if action = ''resume'' then Inr (wf_id w, set_workflow (wf_id w) (\<lambda>w. w\<lparr>wf_status := W_PENDING\<rparr>) d)
          else Inr (wf_id w, d))"

fun campaign_workflows :: "datetime \<Rightarrow> uuid \<Rightarrow> string \<Rightarrow> string \<Rightarrow> string \<Rightarrow> nat \<Rightarrow> string list \<Rightarrow> db
    \<Rightarrow> exn + ((string \<times> uuid) list \<times> db)" where
  "campaign_workflows now cid action k actor index [] d = Inr ([], d)"
| "campaign_workflows now cid action k actor index (t # ts) d =
     (case campaign_workflow now cid action k actor index t d of
        Inl e \<Rightarrow> Inl e
      | Inr (w, d1) \<Rightarrow>
          (case campaign_workflows now cid action k actor (Suc index) ts d1 of
             Inl e \<Rightarrow> Inl e
           | Inr (ws, d2) \<Rightarrow> Inr ((t, w) # ws, d2)))"

definition set_campaign_status :: "uuid \<Rightarrow> campaign_status \<Rightarrow> db \<Rightarrow> db" where
  "set_campaign_status cid st d =
     d\<lparr>campaigns := update_where (\<lambda>x. ca_id x = cid) (\<lambda>x. x\<lparr>ca_status := st, ca_last_error := None\<rparr>) (campaigns d)\<rparr>"

record campaign_cmd =
  cc_campaign_id :: uuid
  cc_action :: string
  cc_key :: string
  cc_actor :: string
  cc_role :: string
  cc_now :: datetime

record campaign_command_response =
  cr_campaign :: uuid
  cr_workflow :: "uuid option"
  cr_campaign_status :: campaign_status
  cr_action :: string

definition campaign_session :: "campaign_cmd \<Rightarrow> db
    \<Rightarrow> exn + (((string \<times> uuid) list \<times> campaign_command_response) \<times> db)" where
  \<comment> \<open>the first session: what is to be dispatched, and the response\<close>
  "campaign_session c d =
     (let cid = cc_campaign_id c; action = cc_action c in
      case audit_by_key (cc_key c) d of
        Some dup \<Rightarrow>
          (case find_row (\<lambda>x. ca_id x = cid) (campaigns d) of
             None \<Rightarrow> Inl AttributeError
           | Some campaign \<Rightarrow>
               Inr (([], \<lparr>cr_campaign = cid, cr_workflow = ae_workflow_run_id dup,
                         cr_campaign_status = ca_status campaign, cr_action = action\<rparr>), d))
      | None \<Rightarrow>
          (case find_row (\<lambda>x. ca_id x = cid) (campaigns d) of
             None \<Rightarrow> Inl (LookupError ''Campaign not found'')
           | Some campaign \<Rightarrow>
               (case campaign_transition (campaign_status_value (ca_status campaign)) action of
                  Inl e \<Rightarrow> Inl e
                | Inr next_status \<Rightarrow>
                    (let d1 = set_campaign_status cid next_status d in
                     case campaign_workflows (cc_now c) cid action (cc_key c) (cc_actor c) 0
                            (campaign_workflow_types (ca_type campaign)) d1 of
                       Inl e \<Rightarrow> Inl e
                     | Inr (ws, d2) \<Rightarrow>
                         (let wid = snd (hd ws);
                              d3 = add_audit (cc_now c) (cc_actor c) (cc_role c) (''campaign.'' @ action) ''campaign''
                                     (RUuid cid) (cc_key c) [(''action'', JStr action)]
                                     (lower (campaign_status_value next_status)) (Some wid) d2 in
                          Inr ((if action \<in> {''start'', ''resume'', ''retry''} then ws else [],
                                \<lparr>cr_campaign = cid, cr_workflow = Some wid, cr_campaign_status = next_status,
                                  cr_action = action\<rparr>), d3))))))"

definition campaign_task :: "uuid \<Rightarrow> string \<times> uuid \<Rightarrow> celery_task" where
  "campaign_task cid tw =
     (if fst tw = ''campaign.lbc_message'' then ''run_lbc_message_campaign_task'' else ''run_campaign_task'',
      [JStr (str_uuid cid), JStr (str_uuid (snd tw))])"

fun dispatch_campaign :: "broker \<Rightarrow> uuid \<Rightarrow> (string \<times> uuid) list \<Rightarrow> world \<Rightarrow> unit result \<times> world" where
  "dispatch_campaign b cid [] w = (Inr (), w)"
| "dispatch_campaign b cid (tw # tws) w =
     (case dispatch b (campaign_task cid tw) w of
        (Inl e, w1) \<Rightarrow> (Inl e, w1)
      | (Inr tid, w1) \<Rightarrow> dispatch_campaign b cid tws (on_db (set_task_id (snd tw) tid) w1))"

definition execute_campaign_command :: "broker \<Rightarrow> campaign_cmd \<Rightarrow> world
    \<Rightarrow> campaign_command_response result \<times> world" where
  "execute_campaign_command b c w =
     (case in_session (campaign_session c) w of
        (Inl e, w1) \<Rightarrow> (Inl e, w1)
      | (Inr (to_dispatch, response), w1) \<Rightarrow>
          (case dispatch_campaign b (cc_campaign_id c) to_dispatch w1 of
             (Inl e, w2) \<Rightarrow> (Inl e, w2)
           | (Inr _, w2) \<Rightarrow> (Inr response, w2)))"

section \<open>Transitions\<close>

lemma campaign_transition_value [simp]:
  "campaign_transition (campaign_status_value st) a =
     (case campaign_next st a of None \<Rightarrow> Inl (ValueError ''Invalid campaign transition'') | Some st' \<Rightarrow> Inr st')"
  by (simp add: campaign_transition_def)

lemma campaign_next_final [simp]: "campaign_next C_CANCELLED a = None" "campaign_next C_COMPLETED a = None"
  by simp_all

lemma campaign_next_targets: "campaign_next st a = Some st' \<Longrightarrow> st' \<in> {C_RUNNING, C_PAUSED, C_CANCELLED}"
  by (cases st) (auto split: if_splits)

section \<open>The session\<close>

lemma campaign_workflow_frame:
  assumes "campaign_workflow now cid action k actor i t d = Inr (w, d')"
  shows "campaigns d' = campaigns d" "audit_events d' = audit_events d"
  using assms
  by (auto simp: campaign_workflow_def Let_def add_workflow_def split: option.splits if_splits)

lemma campaign_workflows_frame:
  "campaign_workflows now cid action k actor i ts d = Inr (ws, d') \<Longrightarrow>
     campaigns d' = campaigns d \<and> audit_events d' = audit_events d \<and> map fst ws = ts"
proof (induction ts arbitrary: i d ws)
  case Nil
  then show ?case by simp
next
  case (Cons t ts)
  then obtain w d1 ws' where 1: "campaign_workflow now cid action k actor i t d = Inr (w, d1)"
    "campaign_workflows now cid action k actor (Suc i) ts d1 = Inr (ws', d')" "ws = (t, w) # ws'"
    by (auto split: sum.splits)
  with Cons.IH [OF 1(2)] campaign_workflow_frame [OF 1(1)] show ?case by simp
qed

lemma campaign_session_InrE:
  assumes "campaign_session c d = Inr ((tws, resp), d')"
  obtains (dup) a campaign where "audit_by_key (cc_key c) d = Some a"
      "find_row (\<lambda>x. ca_id x = cc_campaign_id c) (campaigns d) = Some campaign" "tws = []" "d' = d"
      "resp = \<lparr>cr_campaign = cc_campaign_id c, cr_workflow = ae_workflow_run_id a,
                cr_campaign_status = ca_status campaign, cr_action = cc_action c\<rparr>"
  | (fresh) campaign st ws d1 where "audit_by_key (cc_key c) d = None"
      "find_row (\<lambda>x. ca_id x = cc_campaign_id c) (campaigns d) = Some campaign"
      "campaign_next (ca_status campaign) (cc_action c) = Some st"
      "campaign_workflows (cc_now c) (cc_campaign_id c) (cc_action c) (cc_key c) (cc_actor c) 0
         (campaign_workflow_types (ca_type campaign)) (set_campaign_status (cc_campaign_id c) st d) = Inr (ws, d1)"
      "tws = (if cc_action c \<in> {''start'', ''resume'', ''retry''} then ws else [])"
      "resp = \<lparr>cr_campaign = cc_campaign_id c, cr_workflow = Some (snd (hd ws)), cr_campaign_status = st,
                cr_action = cc_action c\<rparr>"
      "d' = add_audit (cc_now c) (cc_actor c) (cc_role c) (''campaign.'' @ cc_action c) ''campaign''
              (RUuid (cc_campaign_id c)) (cc_key c) [(''action'', JStr (cc_action c))]
              (lower (campaign_status_value st)) (Some (snd (hd ws))) d1"
proof (cases "audit_by_key (cc_key c) d")
  case (Some a)
  with assms show ?thesis
    by (cases "find_row (\<lambda>x. ca_id x = cc_campaign_id c) (campaigns d)")
      (auto simp: campaign_session_def Let_def intro: dup)
next
  case None
  from assms None obtain campaign where
    c: "find_row (\<lambda>x. ca_id x = cc_campaign_id c) (campaigns d) = Some campaign"
    by (cases "find_row (\<lambda>x. ca_id x = cc_campaign_id c) (campaigns d)")
      (auto simp: campaign_session_def Let_def)
  from assms None c obtain st where st: "campaign_next (ca_status campaign) (cc_action c) = Some st"
    by (cases "campaign_next (ca_status campaign) (cc_action c)") (auto simp: campaign_session_def Let_def)
  from assms None c st obtain ws d1 where
    "campaign_workflows (cc_now c) (cc_campaign_id c) (cc_action c) (cc_key c) (cc_actor c) 0
       (campaign_workflow_types (ca_type campaign)) (set_campaign_status (cc_campaign_id c) st d) = Inr (ws, d1)"
    by (cases "campaign_workflows (cc_now c) (cc_campaign_id c) (cc_action c) (cc_key c) (cc_actor c) 0
       (campaign_workflow_types (ca_type campaign)) (set_campaign_status (cc_campaign_id c) st d)")
      (auto simp: campaign_session_def Let_def set_campaign_status_def)
  with assms None c st show ?thesis
    by (intro fresh [OF None c st]) (auto simp: campaign_session_def Let_def set_campaign_status_def)
qed

lemma campaign_session_fresh:
  assumes "find_row (\<lambda>x. ca_id x = cc_campaign_id c) (campaigns d) = Some campaign"
    and "\<not> audited (cc_key c) d" and "campaign_next (ca_status campaign) (cc_action c) = Some st"
    and "campaign_workflows (cc_now c) (cc_campaign_id c) (cc_action c) (cc_key c) (cc_actor c) 0
       (campaign_workflow_types (ca_type campaign)) (set_campaign_status (cc_campaign_id c) st d) = Inr (ws, d1)"
  shows "campaign_session c d =
    Inr ((if cc_action c \<in> {''start'', ''resume'', ''retry''} then ws else [],
          \<lparr>cr_campaign = cc_campaign_id c, cr_workflow = Some (snd (hd ws)), cr_campaign_status = st, cr_action = cc_action c\<rparr>),
         add_audit (cc_now c) (cc_actor c) (cc_role c) (''campaign.'' @ cc_action c) ''campaign''
           (RUuid (cc_campaign_id c)) (cc_key c) [(''action'', JStr (cc_action c))]
           (lower (campaign_status_value st)) (Some (snd (hd ws))) d1)"
  using assms(1,3,4) assms(2) [folded audit_by_key_None_iff] by (simp add: campaign_session_def Let_def)

lemma campaign_session_seen:
  assumes "campaign_session c d = Inr ((tws, resp), d')"
  shows "audited (cc_key c) d'" and "audited k d \<Longrightarrow> audited k d'"
proof -
  from assms have "audited (cc_key c) d' \<and> (audited k d \<longrightarrow> audited k d')"
  proof (cases rule: campaign_session_InrE)
    case (dup a campaign)
    then show ?thesis using audit_by_key_Some by blast
  next
    case (fresh campaign st ws d1)
    from campaign_workflows_frame [OF fresh(4)] have "audit_events d1 = audit_events d"
      by (simp add: set_campaign_status_def)
    with fresh(7) show ?thesis by (simp add: audited_def [of _ d1] audited_def [of _ d])
  qed
  then show "audited (cc_key c) d'" and "audited k d \<Longrightarrow> audited k d'" by blast+
qed

lemma dispatch_campaign_audit:
  "audit_events (w_db (snd (dispatch_campaign b cid tws w))) = audit_events (w_db w)"
proof (induction tws arbitrary: w)
  case Nil
  then show ?case by simp
next
  case (Cons tw tws)
  obtain r w1 where r: "dispatch b (campaign_task cid tw) w = (r, w1)" by fastforce
  then have "w_db w1 = w_db w" by (metis dispatch_db snd_conv)
  with r Cons [of "on_db (set_task_id (snd tw) _) w1"] show ?case
    by (cases r) (simp_all add: on_db_def)
qed

lemma dispatch_campaign_campaigns:
  "campaigns (w_db (snd (dispatch_campaign b cid tws w))) = campaigns (w_db w)"
proof (induction tws arbitrary: w)
  case Nil
  then show ?case by simp
next
  case (Cons tw tws)
  obtain r w1 where r: "dispatch b (campaign_task cid tw) w = (r, w1)" by fastforce
  then have "w_db w1 = w_db w" by (metis dispatch_db snd_conv)
  with r Cons [of "on_db (set_task_id (snd tw) _) w1"] show ?case
    by (cases r) (simp_all add: on_db_def)
qed

lemma execute_campaign_cases:
  obtains (failed) e where "campaign_session c (w_db w) = Inl e" "execute_campaign_command b c w = (Inl e, w)"
  | (passed) tws resp d' where "campaign_session c (w_db w) = Inr ((tws, resp), d')"
      "snd (execute_campaign_command b c w) = snd (dispatch_campaign b (cc_campaign_id c) tws (w\<lparr>w_db := d'\<rparr>))"
      "\<And>r. fst (execute_campaign_command b c w) = Inr r \<Longrightarrow> r = resp"
proof (cases "campaign_session c (w_db w)")
  case (Inl e)
  then show ?thesis
    by (intro failed [of e]) (simp_all add: execute_campaign_command_def in_session_def session_def)
next
  case (Inr x)
  then obtain tws resp d' where "campaign_session c (w_db w) = Inr ((tws, resp), d')" by (metis prod.exhaust)
  then show ?thesis
    by (intro passed [of tws resp d'])
      (auto simp: execute_campaign_command_def in_session_def session_def split: prod.splits sum.splits)
qed

definition campaign_seen :: "string \<Rightarrow> world \<Rightarrow> bool" where
  "campaign_seen k w = audited k (w_db w)"

lemma campaign_session_duplicate:
  "audited (cc_key c) d \<Longrightarrow> campaign_session c d = Inr ((tws, r), d') \<Longrightarrow> tws = [] \<and> d' = d"
  by (erule campaign_session_InrE) (auto simp: audit_by_key_None_iff)

interpretation campaign_command: idempotent_command campaign_seen cc_key "execute_campaign_command b" for b
proof
  fix c :: campaign_cmd and w
  assume seen: "campaign_seen (cc_key c) w"
  show "snd (execute_campaign_command b c w) = w"
  proof (cases rule: execute_campaign_cases [of c w b])
    case (passed tws r d')
    with campaign_session_duplicate [OF seen [unfolded campaign_seen_def] passed(1)] show ?thesis by simp
  qed simp
next
  fix c :: campaign_cmd and w r w'
  assume e: "execute_campaign_command b c w = (Inr r, w')"
  show "campaign_seen (cc_key c) w'"
  proof (cases rule: execute_campaign_cases [of c w b])
    case (failed e)
    with e show ?thesis by simp
  next
    case (passed tws resp d')
    with campaign_session_seen(1) [OF passed(1)] e show ?thesis
      by (simp add: campaign_seen_def audited_def dispatch_campaign_audit)
  qed
next
  fix k and c :: campaign_cmd and w
  assume "campaign_seen k w"
  then show "campaign_seen k (snd (execute_campaign_command b c w))"
  proof (cases rule: execute_campaign_cases [of c w b])
    case (passed tws resp d')
    with campaign_session_seen(2) [OF passed(1), of k] \<open>campaign_seen k w\<close> show ?thesis
      by (simp add: campaign_seen_def audited_def dispatch_campaign_audit)
  qed simp
qed

section \<open>Properties\<close>

definition demo_ctl_campaign :: campaign where
  "demo_ctl_campaign = \<lparr>ca_id = 5, ca_type = ''sms'', ca_message_template = ''Bonjour'', ca_quota_per_sim = 15,
     ca_search_criteria = [], ca_status = C_PENDING, ca_sent = 0, ca_failed = 0, ca_scheduled_at = None,
     ca_last_error = None, ca_created_at = 0\<rparr>"

definition demo_world :: world where
  "demo_world = \<lparr>w_db = empty_db\<lparr>campaigns := [demo_ctl_campaign], fresh_id := 10\<rparr>, w_calls = 0, w_queue = [], w_revoked = []\<rparr>"

definition demo_cmd :: "string \<Rightarrow> string \<Rightarrow> campaign_cmd" where
  "demo_cmd action k = \<lparr>cc_campaign_id = 5, cc_action = action, cc_key = k, cc_actor = ''ops'', cc_role = ''operator'', cc_now = 1\<rparr>"

definition demo_broker :: broker where
  "demo_broker i = Inr (str_nat i)"

text \<open>
  Retrying a campaign command is harmless. After a command succeeded, any command with the same
  idempotency key leaves the world (database, queue and revocations) exactly as it is, whatever
  commands were executed in between; and a whole history of commands has the effect of its part
  without the commands whose key was already recorded.
\<close>

theorem campaign_command_idempotent:
  assumes "execute_campaign_command b c w = (Inr r, w1)" and "cc_key c' = cc_key c"
    and "w2 = fold (\<lambda>c w. snd (execute_campaign_command b c w)) cs w1"
  shows "snd (execute_campaign_command b c' w2) = w2
    \<and> w2 = fold (\<lambda>c w. snd (execute_campaign_command b c w)) (campaign_command.effective b cs w1) w1"
  using campaign_command.retry_noop [OF assms(1,2), of cs] campaign_command.run_effective [of b cs w1] assms(3)
  by (simp add: campaign_command.run_def)

lemma campaign_command_idempotent_witness:
  "snd (execute_campaign_command demo_broker (demo_cmd ''start'' ''k1'')
      (snd (execute_campaign_command demo_broker (demo_cmd ''start'' ''k1'') demo_world)))
   = snd (execute_campaign_command demo_broker (demo_cmd ''start'' ''k1'') demo_world)"
proof -
  have "\<not> is_error (fst (execute_campaign_command demo_broker (demo_cmd ''start'' ''k1'') demo_world))" by code_simp
  then obtain r where "execute_campaign_command demo_broker (demo_cmd ''start'' ''k1'') demo_world
      = (Inr r, snd (execute_campaign_command demo_broker (demo_cmd ''start'' ''k1'') demo_world))"
    by (metis not_is_error_iff prod.collapse)
  from campaign_command_idempotent [OF this refl, of _ "[]"] show ?thesis by simp
qed

text \<open>
  What a command does to the campaign. A command whose key is new and that does not fail before
  the dispatch moves the campaign along the transition table and records its key; it changes the
  status of no other campaign; and a \<open>COMPLETED\<close> or \<open>CANCELLED\<close> campaign admits no command: it fails
  and the world stays as it is.
\<close>

theorem campaign_command_transition:
  assumes "find_row (\<lambda>x. ca_id x = cc_campaign_id c) (campaigns (w_db w)) = Some campaign"
    and "\<not> audited (cc_key c) (w_db w)"
  shows "(execute_campaign_command b c w = (Inl (ValueError ''Invalid campaign transition''), w)
            \<and> campaign_next (ca_status campaign) (cc_action c) = None)
       \<or> (\<exists>e. execute_campaign_command b c w = (Inl e, w) \<and> (\<exists>k. e = IntegrityError k))
       \<or> (\<exists>st. campaign_next (ca_status campaign) (cc_action c) = Some st
            \<and> campaigns (w_db (snd (execute_campaign_command b c w)))
                = campaigns (set_campaign_status (cc_campaign_id c) st (w_db w))
            \<and> audited (cc_key c) (w_db (snd (execute_campaign_command b c w))))"
proof (cases rule: execute_campaign_cases [of c w b])
  case (failed e)
  have new: "audit_by_key (cc_key c) (w_db w) = None" using assms(2) by (simp add: audit_by_key_None_iff)
  show ?thesis
  proof (cases "campaign_next (ca_status campaign) (cc_action c)")
    case None
    with failed new assms(1) show ?thesis by (auto simp: campaign_session_def Let_def)
  next
    case (Some st)
    have key: "campaign_workflows now cid a k actor i ts d = Inl e \<Longrightarrow> \<exists>k. e = IntegrityError k" for now cid a k actor i ts d
    proof (induction ts arbitrary: i d)
      case (Cons t ts)
      then show ?case
        by (auto simp: campaign_workflow_def add_workflow_def Let_def split: sum.splits option.splits if_splits)
    qed simp
    from failed new assms(1) Some have "\<exists>k. e = IntegrityError k"
      by (auto simp: campaign_session_def Let_def split: sum.splits dest: key)
    with failed show ?thesis by blast
  qed
next
  case (passed tws resp d')
  from passed(1) show ?thesis
  proof (cases rule: campaign_session_InrE)
    case (dup a campaign')
    with assms(2) show ?thesis by (metis audit_by_key_None_iff option.distinct(1))
  next
    case (fresh campaign' st ws d1)
    have "campaigns d' = campaigns (set_campaign_status (cc_campaign_id c) st (w_db w))"
      using campaign_workflows_frame [OF fresh(4)] fresh(7) by simp
    moreover have "audited (cc_key c) d'" using fresh(7) by simp
    ultimately show ?thesis
      using passed(2) fresh(2,3) assms(1)
      by (simp add: audited_def dispatch_campaign_audit dispatch_campaign_campaigns)
  qed
qed

lemma campaign_command_transition_witness:
  "campaigns (w_db (snd (execute_campaign_command demo_broker (demo_cmd ''start'' ''k1'') demo_world)))
     = [demo_ctl_campaign\<lparr>ca_status := C_RUNNING\<rparr>]"
proof -
  have 1: "find_row (\<lambda>x. ca_id x = cc_campaign_id (demo_cmd ''start'' ''k1'')) (campaigns (w_db demo_world))
      = Some demo_ctl_campaign"
    by (simp add: demo_cmd_def demo_world_def demo_ctl_campaign_def)
  have 2: "\<not> audited (cc_key (demo_cmd ''start'' ''k1'')) (w_db demo_world)"
    by (simp add: audited_def demo_world_def empty_db_def)
  have 3: "\<not> is_error (fst (execute_campaign_command demo_broker (demo_cmd ''start'' ''k1'') demo_world))" by code_simp
  show ?thesis
    using campaign_command_transition [OF 1 2, of demo_broker] 3
    by (auto simp: demo_cmd_def demo_world_def demo_ctl_campaign_def set_campaign_status_def)
qed

text \<open>
  A start that the broker refuses cannot be retried. The campaign is committed as \<open>RUNNING\<close> and
  the key as seen before the dispatch: if the broker raises, the command fails, and the same command
  sent again succeeds without dispatching anything, so that a \<open>RUNNING\<close> campaign has no task.
\<close>

theorem refused_start_is_lost:
  assumes "find_row (\<lambda>x. ca_id x = cc_campaign_id c) (campaigns (w_db w)) = Some campaign"
    and "ca_status campaign = C_PENDING" "ca_type campaign \<noteq> ''both''" "cc_action c = ''start''"
    and "\<not> audited (cc_key c) (w_db w)" "\<not> workflow_keyed (cc_key c @ ''-0'') (w_db w)"
    and "b (w_calls w) = Inl err"
  shows "\<exists>w1 r. execute_campaign_command b c w = (Inl err, w1) \<and> w_queue w1 = w_queue w
    \<and> campaigns (w_db w1) = campaigns (set_campaign_status (cc_campaign_id c) C_RUNNING (w_db w))
    \<and> execute_campaign_command b' c w1 = (Inr r, w1)"
proof -
  let ?d = "set_campaign_status (cc_campaign_id c) C_RUNNING (w_db w)"
  obtain t where t: "campaign_workflow_types (ca_type campaign) = [t]"
    using assms(3) by (simp add: campaign_workflow_types_def)
  have "str_nat 0 = ''0''" by code_simp
  then have "\<exists>x d1. campaign_workflow (cc_now c) (cc_campaign_id c) ''start'' (cc_key c) (cc_actor c) 0 t ?d = Inr (x, d1)"
    using assms(6)
    by (auto simp: campaign_workflow_def add_workflow_def new_workflow_def workflow_keyed_def set_campaign_status_def Let_def
        split: option.splits)
  then obtain x d1 where
    "campaign_workflow (cc_now c) (cc_campaign_id c) ''start'' (cc_key c) (cc_actor c) 0 t ?d = Inr (x, d1)" by blast
  then have ws: "campaign_workflows (cc_now c) (cc_campaign_id c) ''start'' (cc_key c) (cc_actor c) 0 [t] ?d = Inr ([(t, x)], d1)"
    by simp
  define d2 where "d2 = add_audit (cc_now c) (cc_actor c) (cc_role c) ''campaign.start'' ''campaign''
     (RUuid (cc_campaign_id c)) (cc_key c) [(''action'', JStr ''start'')] (lower (campaign_status_value C_RUNNING)) (Some x) d1"
  define resp where "resp = \<lparr>cr_campaign = cc_campaign_id c, cr_workflow = Some x, cr_campaign_status = C_RUNNING,
     cr_action = ''start''\<rparr>"
  have s: "campaign_session c (w_db w) = Inr (([(t, x)], resp), d2)"
    using campaign_session_fresh [OF assms(1,5), of C_RUNNING "[(t, x)]" d1] assms(2,4) ws
    by (simp add: t d2_def resp_def)
  define w1 where "w1 = w\<lparr>w_db := d2, w_calls := Suc (w_calls w)\<rparr>"
  have e: "execute_campaign_command b c w = (Inl err, w1)"
    using s assms(7)
    by (simp add: execute_campaign_command_def in_session_def session_def dispatch_def w1_def)
  have cs: "campaigns d2 = campaigns ?d"
    using campaign_workflows_frame [OF ws] by (simp add: d2_def)
  have "find_row (\<lambda>x. ca_id x = cc_campaign_id c) (campaigns d2) \<noteq> None"
    using assms(1) by (simp add: cs set_campaign_status_def find_update_where)
  moreover have "audited (cc_key c) d2" by (simp add: d2_def)
  ultimately obtain r where "campaign_session c d2 = Inr (([], r), d2)"
    by (auto simp: campaign_session_def audit_by_key_Some Let_def)
  then have "execute_campaign_command b' c w1 = (Inr r, w1)"
    by (simp add: execute_campaign_command_def in_session_def session_def w1_def)
  with e cs show ?thesis by (auto simp: w1_def)
qed

lemma refused_start_is_lost_witness:
  "\<exists>w1 r. execute_campaign_command (\<lambda>i. Inl (External ''OperationalError'' ''broker'')) (demo_cmd ''start'' ''k1'') demo_world
        = (Inl (External ''OperationalError'' ''broker''), w1)
     \<and> execute_campaign_command demo_broker (demo_cmd ''start'' ''k1'') w1 = (Inr r, w1)"
proof -
  have 1: "find_row (\<lambda>x. ca_id x = cc_campaign_id (demo_cmd ''start'' ''k1'')) (campaigns (w_db demo_world))
      = Some demo_ctl_campaign"
    by (simp add: demo_cmd_def demo_world_def demo_ctl_campaign_def)
  have 2: "ca_status demo_ctl_campaign = C_PENDING" "ca_type demo_ctl_campaign \<noteq> ''both''" "cc_action (demo_cmd ''start'' ''k1'') = ''start''"
    by (simp_all add: demo_ctl_campaign_def demo_cmd_def)
  have 3: "\<not> audited (cc_key (demo_cmd ''start'' ''k1'')) (w_db demo_world)"
    "\<not> workflow_keyed (cc_key (demo_cmd ''start'' ''k1'') @ ''-0'') (w_db demo_world)"
    by (simp_all add: audited_def workflow_keyed_def demo_world_def empty_db_def)
  from refused_start_is_lost [OF 1 2 3, of "\<lambda>i. Inl (External ''OperationalError'' ''broker'')" _ demo_broker]
  show ?thesis by blast
qed

text \<open>
  A campaign that is paused, resumed or cancelled without an active workflow gets a new one. The
  loop creates a workflow whenever none is active, so cancelling a \<open>PENDING\<close> campaign that was never
  started leaves a \<open>PENDING\<close> workflow for a \<open>CANCELLED\<close> campaign, which nothing dispatches.
\<close>

theorem cancel_creates_orphan_workflow:
  assumes "find_row (\<lambda>x. ca_id x = cc_campaign_id c) (campaigns (w_db w)) = Some campaign"
    and "ca_status campaign = C_PENDING" "ca_type campaign \<noteq> ''both''" "cc_action c = ''cancel''"
    and "\<not> audited (cc_key c) (w_db w)" "\<not> workflow_keyed (cc_key c @ ''-0'') (w_db w)"
    and "workflow_runs (w_db w) = []"
  shows "\<exists>w1 r x. execute_campaign_command b c w = (Inr r, w1) \<and> cr_campaign_status r = C_CANCELLED
    \<and> workflow_runs (w_db w1) = [x] \<and> wf_status x = W_PENDING \<and> wf_target_id x = Some (RUuid (cc_campaign_id c))
    \<and> w_queue w1 = w_queue w"
proof -
  obtain t where t: "campaign_workflow_types (ca_type campaign) = [t]"
    using assms(3) by (simp add: campaign_workflow_types_def)
  let ?d = "set_campaign_status (cc_campaign_id c) C_CANCELLED (w_db w)"
  define row where "row = (new_workflow (cc_now c) ?d (cc_key c @ ''-0'') t ''campaign'' (RUuid (cc_campaign_id c)) (cc_actor c))
     \<lparr>wf_batch_size := Some 200\<rparr>"
  have runs: "workflow_runs ?d = []" using assms(7) by (simp add: set_campaign_status_def)
  have "str_nat 0 = ''0''" by code_simp
  then have ws: "campaign_workflows (cc_now c) (cc_campaign_id c) ''cancel'' (cc_key c) (cc_actor c) 0 [t] ?d
      = Inr ([(t, wf_id row)], ?d\<lparr>workflow_runs := [row], fresh_id := Suc (fresh_id ?d)\<rparr>)"
    by (simp add: campaign_workflow_def active_workflow_def add_workflow_def runs row_def)
  note s = campaign_session_fresh [OF assms(1,5), of C_CANCELLED, unfolded t assms(4), OF _ ws]
  have "campaign_next (ca_status campaign) ''cancel'' = Some C_CANCELLED" using assms(2) by simp
  from s [OF this] show ?thesis
    by (simp add: execute_campaign_command_def in_session_def session_def row_def new_workflow_def)
qed

lemma cancel_creates_orphan_workflow_witness:
  "\<exists>w1 r x. execute_campaign_command demo_broker (demo_cmd ''cancel'' ''k1'') demo_world = (Inr r, w1)
     \<and> workflow_runs (w_db w1) = [x] \<and> wf_status x = W_PENDING"
proof -
  have 1: "find_row (\<lambda>x. ca_id x = cc_campaign_id (demo_cmd ''cancel'' ''k1'')) (campaigns (w_db demo_world))
      = Some demo_ctl_campaign"
    by (simp add: demo_cmd_def demo_world_def demo_ctl_campaign_def)
  have 2: "ca_status demo_ctl_campaign = C_PENDING" "ca_type demo_ctl_campaign \<noteq> ''both''" "cc_action (demo_cmd ''cancel'' ''k1'') = ''cancel''"
    by (simp_all add: demo_ctl_campaign_def demo_cmd_def)
  have 3: "\<not> audited (cc_key (demo_cmd ''cancel'' ''k1'')) (w_db demo_world)"
    "\<not> workflow_keyed (cc_key (demo_cmd ''cancel'' ''k1'') @ ''-0'') (w_db demo_world)"
    "workflow_runs (w_db demo_world) = []"
    by (simp_all add: audited_def workflow_keyed_def demo_world_def empty_db_def)
  from cancel_creates_orphan_workflow [OF 1 2 3, of demo_broker] show ?thesis by blast
qed

end
