(* ===== verification/Workflow_Control.thy ===== *)
theory Workflow_Control
  imports Commands
begin

text \<open>
  \<open>app/services/workflow_control.py\<close>: the operator commands on workflows. A command commits the new
  status (and that of the campaign) first, and then stops the execution or dispatches it again.
  \<open>stop_task\<close> of the Browser Use client is a parameter.
\<close>

section \<open>Definitions\<close>

fun workflow_next :: "workflow_status \<Rightarrow> string \<Rightarrow> workflow_status option" where
  \<comment> \<open>\<open>_TRANSITIONS\<close>\<close>
  "workflow_next W_RUNNING a =
     (if a = ''pause'' then Some W_PAUSED else if a = ''cancel'' then Some W_CANCELLED else None)"
| "workflow_next W_PENDING a =
     (if a = ''pause'' then Some W_PAUSED else if a = ''cancel'' then Some W_CANCELLED else None)"
| "workflow_next W_PAUSED a =
     (if a = ''resume'' then Some W_PENDING else if a = ''cancel'' then Some W_CANCELLED else None)"
| "workflow_next W_FAILED a = (if a = ''retry'' then Some W_PENDING else None)"
| "workflow_next W_CANCELLED a = (if a = ''retry'' then Some W_PENDING else None)"
| "workflow_next W_COMPLETED a = None"

definition workflow_transition :: "string \<Rightarrow> string \<Rightarrow> workflow_status result" where
  "workflow_transition current action =
     (case enum_parse workflow_status_value workflow_status_members current of
        None \<Rightarrow> Inl (ValueError ''Invalid workflow transition'')
      | Some st \<Rightarrow>
          (case workflow_next st action of
             None \<Rightarrow> Inl (ValueError ''Invalid workflow transition'')
           | Some st' \<Rightarrow> Inr st'))"

fun synced_campaign_status :: "workflow_status \<Rightarrow> campaign_status \<Rightarrow> campaign_status" where
  "synced_campaign_status W_PAUSED old = C_PAUSED"
| "synced_campaign_status W_CANCELLED old = C_CANCELLED"
| "synced_campaign_status W_PENDING old = C_RUNNING"
| "synced_campaign_status _ old = old"

record workflow_cmd =
  wc_workflow_id :: uuid
  wc_action :: string
  wc_key :: string
  wc_actor :: string
  wc_role :: string
  wc_now :: datetime

record snapshot =
  sn_type :: string
  sn_target :: "ref option"
  sn_checkpoint :: "(string, json) dict"
  sn_celery_task_id :: "string option"

definition take_snapshot :: "workflow_run \<Rightarrow> snapshot" where
  "take_snapshot w = \<lparr>sn_type = wf_workflow_type w, sn_target = wf_target_id w,
     sn_checkpoint = dict_or_empty (wf_checkpoint w), sn_celery_task_id = wf_celery_task_id w\<rparr>"

definition command_row :: "datetime \<Rightarrow> string \<Rightarrow> workflow_status \<Rightarrow> workflow_run \<Rightarrow> workflow_run" where
  "command_row now action next w =
     w\<lparr>wf_status := next, wf_last_error := (if action = ''retry'' then None else wf_last_error w),
       wf_finished_at := (if next = W_CANCELLED then Some now else wf_finished_at w)\<rparr>"

definition sync_campaign :: "workflow_run \<Rightarrow> workflow_status \<Rightarrow> db \<Rightarrow> db result" where
  "sync_campaign w next d =
     (case wf_target_id w of
        None \<Rightarrow> Inr d
      | Some t \<Rightarrow>
          if prefix ''campaign.'' (wf_workflow_type w) \<and> ref_text t \<noteq> [] then
            (case uuid_of_ref t of
               Inl e \<Rightarrow> Inl e
             | Inr cid \<Rightarrow> Inr (d\<lparr>campaigns := update_where (\<lambda>c. ca_id c = cid)
                 (\<lambda>c. c\<lparr>ca_status := synced_campaign_status next (ca_status c)\<rparr>) (campaigns d)\<rparr>))
          else Inr d)"

definition workflow_session :: "workflow_cmd \<Rightarrow> db \<Rightarrow> exn + ((workflow_run + snapshot) \<times> db)" where
  \<comment> \<open>the first session: the view of a duplicate, or the snapshot to act on\<close>
  "workflow_session c d =
     (case get_workflow (wc_workflow_id c) d of
        None \<Rightarrow> Inl (LookupError ''Workflow not found'')
      | Some w \<Rightarrow>
          if audit_by_key (wc_key c) d \<noteq> None then Inr (Inl w, d)
          else
            (case workflow_transition (workflow_status_value (wf_status w)) (wc_action c) of
               Inl e \<Rightarrow> Inl e
             | Inr next \<Rightarrow>
                 (case sync_campaign w next
                         (set_workflow (wc_workflow_id c) (command_row (wc_now c) (wc_action c) next) d) of
                    Inl e \<Rightarrow> Inl e
                  | Inr d1 \<Rightarrow>
                      Inr (Inr (take_snapshot (command_row (wc_now c) (wc_action c) next w)),
                           add_audit (wc_now c) (wc_actor c) (wc_role c) (''workflow.'' @ wc_action c) ''workflow''
                             (RUuid (wc_workflow_id c)) (wc_key c) [(''action'', JStr (wc_action c))]
                             (lower (workflow_status_value next)) (Some (wc_workflow_id c)) d1))))"

definition stop_execution :: "(json \<Rightarrow> unit result) \<Rightarrow> snapshot \<Rightarrow> bool \<Rightarrow> world \<Rightarrow> unit result \<times> world" where
  "stop_execution stop_task s pause w =
     (let provider = (if sn_type s = ''browser_use.task'' then dict_get (sn_checkpoint s) ''provider_task_id'' else None);
          stopped = (case provider of None \<Rightarrow> Inr () | Some p \<Rightarrow> if json_truthy p then stop_task p else Inr ()) in
      case stopped of
        Inl e \<Rightarrow> (Inl e, w)
      | Inr _ \<Rightarrow>
          (Inr (), (case sn_celery_task_id s of
             None \<Rightarrow> w
           | Some tid \<Rightarrow> if tid = [] then w else w\<lparr>w_revoked := w_revoked w @ [(tid, \<not> pause)]\<rparr>)))"

definition target_json :: "ref option \<Rightarrow> json" where
  "target_json t = (case t of None \<Rightarrow> JNull | Some r \<Rightarrow> JStr (ref_text r))"

definition dispatch_workflow :: "broker \<Rightarrow> uuid \<Rightarrow> snapshot \<Rightarrow> world \<Rightarrow> string result \<times> world" where
  "dispatch_workflow b wid s w =
     (let target = target_json (sn_target s); wtext = JStr (str_uuid wid) in
      if sn_type s = ''campaign.sms'' then dispatch b (''run_campaign_task'', [target, wtext]) w
      else if sn_type s = ''campaign.lbc_message'' then dispatch b (''run_lbc_message_campaign_task'', [target, wtext]) w
      else if sn_type s = ''browser_use.task'' then
        (case dict_get (sn_checkpoint s) ''template_id'' of
           None \<Rightarrow> (Inl (KeyError ''template_id''), w)
         | Some t \<Rightarrow> dispatch b (''run_browser_use_task'', [wtext, t, target, JNull]) w)
      else if sn_type s = ''experimental.lab'' then
        (case dict_get (sn_checkpoint s) ''engine'' of
           None \<Rightarrow> (Inl (KeyError ''engine''), w)
         | Some e \<Rightarrow> dispatch b (''run_experimental_lab_task'', [wtext, e, target]) w)
      else if sn_type s = ''messaging.inbox_sync'' then dispatch b (''sync_lbc_inbox_task'', [wtext]) w
      else if sn_type s = ''account.inspect'' then
        (case (case sn_target s of None \<Rightarrow> Inl AttributeError | Some t \<Rightarrow> uuid_of_ref t) of
           Inl e \<Rightarrow> (Inl e, w)
         | Inr aid \<Rightarrow>
             (case find_row (\<lambda>a. pa_id a = aid) (platform_accounts (w_db w)) of
                None \<Rightarrow> (Inl (ValueError ''Account Browser Use profile is unavailable''), w)
              | Some a \<Rightarrow>
                  (case pa_browser_use_profile_id a of
                     None \<Rightarrow> (Inl (ValueError ''Account Browser Use profile is unavailable''), w)
                   | Some p \<Rightarrow>
                       if p = [] then (Inl (ValueError ''Account Browser Use profile is unavailable''), w)
                       else dispatch b (''inspect_account_task'', [wtext, target, JStr p]) w)))
      else (Inl (ValueError ''Workflow type cannot be dispatched''), w))"

definition view_workflow :: "uuid \<Rightarrow> db \<Rightarrow> workflow_run result" where
  "view_workflow wid d = (case get_workflow wid d of None \<Rightarrow> Inl AttributeError | Some w \<Rightarrow> Inr w)"

definition command_workflow :: "broker \<Rightarrow> (json \<Rightarrow> unit result) \<Rightarrow> workflow_cmd \<Rightarrow> world
    \<Rightarrow> workflow_run result \<times> world" where
  "command_workflow b stop_task c w =
     (let wid = wc_workflow_id c; action = wc_action c in
      case in_session (workflow_session c) w of
        (Inl e, w1) \<Rightarrow> (Inl e, w1)
      | (Inr (Inl view), w1) \<Rightarrow> (Inr view, w1)
      | (Inr (Inr s), w1) \<Rightarrow>
          if action \<in> {''pause'', ''cancel''} then
            (case stop_execution stop_task s (action = ''pause'') w1 of
               (Inl e, w2) \<Rightarrow> (Inl e, w2)
             | (Inr _, w2) \<Rightarrow> (view_workflow wid (w_db w2), w2))
          else if action \<in> {''resume'', ''retry''} then
            (case dispatch_workflow b wid s w1 of
               (Inl e, w2) \<Rightarrow> (Inl e, w2)
             | (Inr tid, w2) \<Rightarrow>
                 (let w3 = on_db (set_workflow wid (\<lambda>x. x\<lparr>wf_celery_task_id := Some tid, wf_finished_at := None\<rparr>)) w2 in
                  (view_workflow wid (w_db w3), w3)))
          else (view_workflow wid (w_db w1), w1))"

definition list_workflows :: "nat \<Rightarrow> db \<Rightarrow> workflow_run list" where
  \<comment> \<open>newest first; among equal times the later insertion first\<close>
  "list_workflows limit d =
     take limit (rev (sort_key wf_created_at (workflow_runs d)))"

section \<open>Transitions\<close>

lemma workflow_transition_value [simp]:
  "workflow_transition (workflow_status_value st) a =
     (case workflow_next st a of None \<Rightarrow> Inl (ValueError ''Invalid workflow transition'') | Some st' \<Rightarrow> Inr st')"
  by (simp add: workflow_transition_def)

lemma workflow_next_cases:
  "workflow_next st a = Some st' \<Longrightarrow>
     (a = ''pause'' \<and> st \<in> {W_RUNNING, W_PENDING} \<and> st' = W_PAUSED)
   \<or> (a = ''cancel'' \<and> st \<in> {W_RUNNING, W_PENDING, W_PAUSED} \<and> st' = W_CANCELLED)
   \<or> (a = ''resume'' \<and> st = W_PAUSED \<and> st' = W_PENDING)
   \<or> (a = ''retry'' \<and> st \<in> {W_FAILED, W_CANCELLED} \<and> st' = W_PENDING)"
  by (cases st) (auto split: if_splits)

lemma sync_campaign_frame:
  assumes "sync_campaign w next d = Inr d'"
  shows "workflow_runs d' = workflow_runs d" "audit_events d' = audit_events d"
  using assms by (auto simp: sync_campaign_def split: option.splits if_splits sum.splits)

lemma workflow_session_InrE:
  assumes "workflow_session c d = Inr (x, d')"
  obtains (dup) w where "get_workflow (wc_workflow_id c) d = Some w" "audited (wc_key c) d" "x = Inl w" "d' = d"
  | (fresh) w st d1 where "get_workflow (wc_workflow_id c) d = Some w" "\<not> audited (wc_key c) d"
      "workflow_next (wf_status w) (wc_action c) = Some st"
      "sync_campaign w st (set_workflow (wc_workflow_id c) (command_row (wc_now c) (wc_action c) st) d) = Inr d1"
      "x = Inr (take_snapshot (command_row (wc_now c) (wc_action c) st w))"
      "d' = add_audit (wc_now c) (wc_actor c) (wc_role c) (''workflow.'' @ wc_action c) ''workflow''
              (RUuid (wc_workflow_id c)) (wc_key c) [(''action'', JStr (wc_action c))]
              (lower (workflow_status_value st)) (Some (wc_workflow_id c)) d1"
proof (cases "get_workflow (wc_workflow_id c) d")
  case None
  with assms show ?thesis by (simp add: workflow_session_def)
next
  case w: (Some w)
  show ?thesis
  proof (cases "audit_by_key (wc_key c) d")
    case (Some a)
    then have "audited (wc_key c) d" by (simp add: audit_by_key_Some)
    with assms w Some show ?thesis by (intro dup) (auto simp: workflow_session_def)
  next
    case None
    then have new: "\<not> audited (wc_key c) d" by (simp add: audit_by_key_None_iff)
    from assms w None obtain st where st: "workflow_next (wf_status w) (wc_action c) = Some st"
      by (cases "workflow_next (wf_status w) (wc_action c)") (auto simp: workflow_session_def)
    from assms w None st obtain d1 where
      "sync_campaign w st (set_workflow (wc_workflow_id c) (command_row (wc_now c) (wc_action c) st) d) = Inr d1"
      by (cases "sync_campaign w st (set_workflow (wc_workflow_id c) (command_row (wc_now c) (wc_action c) st) d)")
        (auto simp: workflow_session_def)
    with assms w None st show ?thesis
      by (intro fresh [OF w new st]) (auto simp: workflow_session_def)
  qed
qed

lemma workflow_session_seen:
  assumes "workflow_session c d = Inr (x, d')"
  shows "audited (wc_key c) d' \<and> (audited k d \<longrightarrow> audited k d')"
  using assms
proof (cases rule: workflow_session_InrE)
  case (fresh w st d1)
  from sync_campaign_frame(2) [OF fresh(4)] fresh(6) show ?thesis by (simp add: audited_def [of _ d1] audited_def [of _ d])
qed simp

section \<open>The world after a command\<close>

lemma stop_execution_db: "w_db (snd (stop_execution stop_task s p w)) = w_db w"
  by (auto simp: stop_execution_def Let_def split: sum.splits option.splits)

lemma dispatch_workflow_db: "w_db (snd (dispatch_workflow b wid s w)) = w_db w"
proof -
  have if_snd: "w_db (snd (if P then x else y)) = w_db w" if "w_db (snd x) = w_db w" "w_db (snd y) = w_db w" for P x y
    using that by simp
  show ?thesis
    unfolding dispatch_workflow_def Let_def
    by (intro if_snd) (simp_all split: option.split sum.split)
qed

definition keeps_keys :: "db \<Rightarrow> db \<Rightarrow> bool" where
  "keeps_keys d d' = (audit_events d' = audit_events d \<and> campaigns d' = campaigns d
     \<and> map wf_status (workflow_runs d') = map wf_status (workflow_runs d) \<and> map wf_id (workflow_runs d') = map wf_id (workflow_runs d))"

lemma keeps_keys_refl [simp]: "keeps_keys d d"
  by (simp add: keeps_keys_def)

lemma keeps_keys_set:
  "keeps_keys d (set_workflow wid (\<lambda>x. x\<lparr>wf_celery_task_id := u, wf_finished_at := v\<rparr>) d)"
proof -
  have "map wf_status (update_where P (\<lambda>x. x\<lparr>wf_celery_task_id := u, wf_finished_at := v\<rparr>) rows) = map wf_status rows"
    "map wf_id (update_where P (\<lambda>x. x\<lparr>wf_celery_task_id := u, wf_finished_at := v\<rparr>) rows) = map wf_id rows"
    for P and rows :: "workflow_run list"
    by (rule map_update_where, simp)+
  then show ?thesis by (simp add: keeps_keys_def set_workflow_def)
qed

lemma command_workflow_cases:
  obtains (failed) e where "workflow_session c (w_db w) = Inl e" "command_workflow b stop_task c w = (Inl e, w)"
  | (dup) v where "workflow_session c (w_db w) = Inr (Inl v, w_db w)" "command_workflow b stop_task c w = (Inr v, w)"
      "audited (wc_key c) (w_db w)"
  | (passed) s d' where "workflow_session c (w_db w) = Inr (Inr s, d')"
      "keeps_keys d' (w_db (snd (command_workflow b stop_task c w)))"
proof (cases "workflow_session c (w_db w)")
  case (Inl e)
  then show ?thesis by (intro failed [of e]) (simp_all add: command_workflow_def in_session_def session_def)
next
  case (Inr y)
  then obtain x d' where x: "workflow_session c (w_db w) = Inr (x, d')" by (cases y) auto
  show ?thesis
  proof (cases x)
    case (Inl v)
    with x have "d' = w_db w" "audited (wc_key c) (w_db w)" by (auto elim: workflow_session_InrE)
    with x Inl show ?thesis
      by (intro dup [of v]) (simp_all add: command_workflow_def in_session_def session_def)
  next
    case (Inr s)
    define w1 where "w1 = w\<lparr>w_db := d'\<rparr>"
    have db1: "w_db w1 = d'" by (simp add: w1_def)
    have session: "in_session (workflow_session c) w = (Inr (Inr s), w1)"
      using x Inr by (simp add: in_session_def session_def w1_def)
    consider (stop) "wc_action c \<in> {''pause'', ''cancel''}"
      | (go) "wc_action c \<notin> {''pause'', ''cancel''}" "wc_action c \<in> {''resume'', ''retry''}"
      | (other) "wc_action c \<notin> {''pause'', ''cancel''}" "wc_action c \<notin> {''resume'', ''retry''}" by blast
    then have "keeps_keys d' (w_db (snd (command_workflow b stop_task c w)))"
    proof cases
      case stop
      obtain r w2 where r: "stop_execution stop_task s (wc_action c = ''pause'') w1 = (r, w2)" by fastforce
      then have "w_db w2 = d'" using stop_execution_db [of stop_task s "wc_action c = ''pause''" w1] db1 by simp
      with stop r show ?thesis by (cases r) (simp_all add: command_workflow_def session Let_def)
    next
      case go
      obtain r w2 where r: "dispatch_workflow b (wc_workflow_id c) s w1 = (r, w2)" by fastforce
      then have "w_db w2 = d'" using dispatch_workflow_db [of b "wc_workflow_id c" s w1] db1 by simp
      with go r show ?thesis
        by (cases r) (simp_all add: command_workflow_def session Let_def on_db_def keeps_keys_set)
    next
      case other
      then show ?thesis by (simp add: command_workflow_def session Let_def db1)
    qed
    with x Inr show ?thesis by (intro passed) auto
  qed
qed

definition workflow_seen :: "string \<Rightarrow> world \<Rightarrow> bool" where
  "workflow_seen k w = audited k (w_db w)"

interpretation workflow_command: idempotent_command workflow_seen wc_key "command_workflow b stop_task" for b stop_task
proof
  fix c :: workflow_cmd and w
  assume "workflow_seen (wc_key c) w"
  then show "snd (command_workflow b stop_task c w) = w"
    by (cases rule: command_workflow_cases [of c w b stop_task])
      (auto simp: workflow_seen_def elim: workflow_session_InrE)
next
  fix c :: workflow_cmd and w r w'
  assume "command_workflow b stop_task c w = (Inr r, w')"
  then show "workflow_seen (wc_key c) w'"
    by (cases rule: command_workflow_cases [of c w b stop_task])
      (auto simp: workflow_seen_def audited_def keeps_keys_def dest: workflow_session_seen)
next
  fix k and c :: workflow_cmd and w
  assume "workflow_seen k w"
  then show "workflow_seen k (snd (command_workflow b stop_task c w))"
    by (cases rule: command_workflow_cases [of c w b stop_task])
      (auto simp: workflow_seen_def audited_def keeps_keys_def dest: workflow_session_seen [where k = k])
qed

section \<open>Properties\<close>

definition demo_workflow :: "string \<Rightarrow> workflow_status \<Rightarrow> ref option \<Rightarrow> workflow_run" where
  "demo_workflow wtype st target =
     \<lparr>wf_id = 3, wf_idempotency_key = ''w3'', wf_workflow_type = wtype, wf_target_type = None, wf_target_id = target,
      wf_status = st, wf_progress_current = 0, wf_progress_total = None, wf_batch_number = 0, wf_batch_size = None,
      wf_celery_task_id = None, wf_checkpoint = None, wf_last_error_code = None, wf_last_error = None,
      wf_initiated_by = None, wf_started_at = None, wf_finished_at = None, wf_created_at = 0, wf_updated_at = 0\<rparr>"

definition demo_cancelled_campaign :: campaign where
  "demo_cancelled_campaign = \<lparr>ca_id = 5, ca_type = ''sms'', ca_message_template = [], ca_quota_per_sim = 15,
     ca_search_criteria = [], ca_status = C_CANCELLED, ca_sent = 0, ca_failed = 0, ca_scheduled_at = None,
     ca_last_error = None, ca_created_at = 0\<rparr>"

definition demo_wf_world :: "workflow_run \<Rightarrow> world" where
  "demo_wf_world x = \<lparr>w_db = empty_db\<lparr>campaigns := [demo_cancelled_campaign], workflow_runs := [x], fresh_id := 10\<rparr>,
     w_calls = 0, w_queue = [], w_revoked = []\<rparr>"

definition demo_wf_cmd :: "string \<Rightarrow> workflow_cmd" where
  "demo_wf_cmd action = \<lparr>wc_workflow_id = 3, wc_action = action, wc_key = ''k1'', wc_actor = ''ops'', wc_role = ''operator'', wc_now = 1\<rparr>"

definition demo_wf_broker :: broker where
  "demo_wf_broker i = Inr (str_nat i)"

definition demo_stop :: "json \<Rightarrow> unit result" where
  "demo_stop p = Inr ()"

lemmas demo_wf_defs = demo_workflow_def demo_cancelled_campaign_def demo_wf_world_def demo_wf_cmd_def

text \<open>
  Retrying a workflow command is harmless: after a command succeeded, any command with the same
  idempotency key leaves the world as it is (nothing is dispatched or revoked twice), whatever
  commands were executed in between.
\<close>

theorem workflow_command_idempotent:
  assumes "command_workflow b stop_task c w = (Inr r, w1)" and "wc_key c' = wc_key c"
    and "w2 = fold (\<lambda>c w. snd (command_workflow b stop_task c w)) cs w1"
  shows "snd (command_workflow b stop_task c' w2) = w2"
  using workflow_command.retry_noop [OF assms(1,2), of cs] assms(3)
  by (simp add: workflow_command.run_def)

lemma workflow_command_idempotent_witness:
  "w_queue (snd (command_workflow demo_wf_broker demo_stop (demo_wf_cmd ''resume'')
      (snd (command_workflow demo_wf_broker demo_stop (demo_wf_cmd ''resume'')
         (demo_wf_world (demo_workflow ''campaign.sms'' W_PAUSED (Some (RUuid 5))))))))
   = w_queue (snd (command_workflow demo_wf_broker demo_stop (demo_wf_cmd ''resume'')
         (demo_wf_world (demo_workflow ''campaign.sms'' W_PAUSED (Some (RUuid 5))))))"
proof -
  let ?w = "demo_wf_world (demo_workflow ''campaign.sms'' W_PAUSED (Some (RUuid 5)))"
  have "\<not> is_error (fst (command_workflow demo_wf_broker demo_stop (demo_wf_cmd ''resume'') ?w))" by code_simp
  then obtain r where "command_workflow demo_wf_broker demo_stop (demo_wf_cmd ''resume'') ?w
      = (Inr r, snd (command_workflow demo_wf_broker demo_stop (demo_wf_cmd ''resume'') ?w))"
    by (metis not_is_error_iff prod.collapse)
  from workflow_command_idempotent [OF this refl, of _ "[]"] show ?thesis by simp
qed

text \<open>
  What a workflow command commits. A command with a new key on an existing workflow either fails
  and leaves the world as it is, or moves that workflow along the transition table, leaves the status
  of every other workflow, and sets the campaign of a campaign workflow to \<open>PAUSED\<close>, \<open>CANCELLED\<close> or
  \<open>RUNNING\<close> accordingly, whether or not stopping or dispatching succeeds afterwards.
\<close>

theorem workflow_command_transition:
  assumes "get_workflow (wc_workflow_id c) (w_db w) = Some x" and "\<not> audited (wc_key c) (w_db w)"
  shows "(\<exists>e. command_workflow b stop_task c w = (Inl e, w))
    \<or> (\<exists>st. workflow_next (wf_status x) (wc_action c) = Some st
         \<and> map wf_status (workflow_runs (w_db (snd (command_workflow b stop_task c w))))
             = map (\<lambda>y. if wf_id y = wc_workflow_id c then st else wf_status y) (workflow_runs (w_db w))
         \<and> campaigns (w_db (snd (command_workflow b stop_task c w)))
             = map (\<lambda>y. if prefix ''campaign.'' (wf_workflow_type x) \<and> wf_target_id x = Some (RUuid (ca_id y))
                         then y\<lparr>ca_status := synced_campaign_status st (ca_status y)\<rparr> else y) (campaigns (w_db w)))"
proof (cases rule: command_workflow_cases [of c w b stop_task])
  case (failed e)
  then show ?thesis by blast
next
  case (dup v)
  with assms(2) show ?thesis by blast
next
  case (passed s d')
  from passed(1) show ?thesis
  proof (cases rule: workflow_session_InrE)
    case (dup v)
    with assms(2) show ?thesis by blast
  next
    case (fresh y st d1)
    have y: "y = x" using fresh(1) assms(1) by simp
    have runs: "workflow_runs d' = update_where (\<lambda>z. wf_id z = wc_workflow_id c) (command_row (wc_now c) (wc_action c) st)
        (workflow_runs (w_db w))"
      using sync_campaign_frame(1) [OF fresh(4)] fresh(6) by (simp add: set_workflow_def)
    then have "map wf_status (workflow_runs d') = map (\<lambda>z. if wf_id z = wc_workflow_id c then st else wf_status z) (workflow_runs (w_db w))"
      by (simp add: update_where_def command_row_def)
    moreover have "campaigns d' = map (\<lambda>z. if prefix ''campaign.'' (wf_workflow_type x) \<and> wf_target_id x = Some (RUuid (ca_id z))
        then z\<lparr>ca_status := synced_campaign_status st (ca_status z)\<rparr> else z) (campaigns (w_db w))"
    proof -
      have nonempty: "str_uuid u \<noteq> []" for u by (simp add: str_uuid_def hyphens_def)
      have "campaigns d' = campaigns d1" using fresh(6) by simp
      also have "\<dots> = map (\<lambda>z. if prefix ''campaign.'' (wf_workflow_type x) \<and> wf_target_id x = Some (RUuid (ca_id z))
        then z\<lparr>ca_status := synced_campaign_status st (ca_status z)\<rparr> else z) (campaigns (w_db w))"
        using fresh(4) unfolding y sync_campaign_def
        by (cases "wf_target_id x"; cases "the (wf_target_id x)")
          (auto simp: update_where_def ref_text_def nonempty split: if_splits intro!: map_cong)
      finally show ?thesis .
    qed
    ultimately show ?thesis
      using passed(2) fresh(3) y by (auto simp: keeps_keys_def)
  qed
qed

lemma workflow_command_transition_witness:
  "map wf_status (workflow_runs (w_db (snd (command_workflow demo_wf_broker demo_stop (demo_wf_cmd ''pause'')
     (demo_wf_world (demo_workflow ''campaign.sms'' W_RUNNING (Some (RUuid 5)))))))) = [W_PAUSED]"
proof -
  let ?x = "demo_workflow ''campaign.sms'' W_RUNNING (Some (RUuid 5))"
  have 1: "get_workflow (wc_workflow_id (demo_wf_cmd ''pause'')) (w_db (demo_wf_world ?x)) = Some ?x"
    by (simp add: get_workflow_def demo_wf_defs)
  have 2: "\<not> audited (wc_key (demo_wf_cmd ''pause'')) (w_db (demo_wf_world ?x))"
    by (simp add: audited_def demo_wf_defs empty_db_def)
  have 3: "\<not> is_error (fst (command_workflow demo_wf_broker demo_stop (demo_wf_cmd ''pause'') (demo_wf_world ?x)))" by code_simp
  have n: "workflow_next (wf_status ?x) (wc_action (demo_wf_cmd ''pause'')) = Some W_PAUSED" by (simp add: demo_wf_defs)
  have r: "workflow_runs (w_db (demo_wf_world ?x)) = [?x]" "wf_id ?x = wc_workflow_id (demo_wf_cmd ''pause'')"
    by (simp_all add: demo_wf_defs)
  from workflow_command_transition [OF 1 2, of demo_wf_broker demo_stop] 3 show ?thesis
    by (auto simp: n r)
qed

text \<open>
  A cancelled campaign can be set running again. \<open>campaign_control\<close> has no command for a
  \<open>CANCELLED\<close> or \<open>COMPLETED\<close> campaign, but retrying its cancelled (or failed) workflow through
  \<open>command_workflow\<close> sets the campaign to \<open>RUNNING\<close> whatever its status was.
\<close>

theorem retry_revives_campaign:
  assumes "get_workflow (wc_workflow_id c) (w_db w) = Some x" "\<not> audited (wc_key c) (w_db w)" "wc_action c = ''retry''"
    and "wf_status x \<in> {W_CANCELLED, W_FAILED}" "wf_workflow_type x = ''campaign.sms''" "wf_target_id x = Some (RUuid cid)"
    and "camp \<in> set (campaigns (w_db w))" "ca_id camp = cid" "ca_status camp = C_CANCELLED"
  shows "camp\<lparr>ca_status := C_RUNNING\<rparr> \<in> set (campaigns (w_db (snd (command_workflow b stop_task c w))))"
proof -
  let ?d = "set_workflow (wc_workflow_id c) (command_row (wc_now c) ''retry'' W_PENDING) (w_db w)"
  have nxt: "workflow_next (wf_status x) ''retry'' = Some W_PENDING" using assms(4) by auto
  have "str_uuid cid \<noteq> []" by (simp add: str_uuid_def hyphens_def)
  then obtain d1 where d1: "sync_campaign x W_PENDING ?d = Inr d1"
    and cs: "campaigns d1 = update_where (\<lambda>c. ca_id c = cid) (\<lambda>c. c\<lparr>ca_status := C_RUNNING\<rparr>) (campaigns (w_db w))"
    using assms(5,6) by (simp add: sync_campaign_def ref_text_def)
  obtain s d' where s: "workflow_session c (w_db w) = Inr (Inr s, d')" "campaigns d' = campaigns d1"
    using assms(1,2,3) nxt d1 by (simp add: workflow_session_def audit_by_key_None_iff [symmetric])
  have "campaigns (w_db (snd (command_workflow b stop_task c w))) = campaigns d1"
    by (cases rule: command_workflow_cases [of c w b stop_task]) (use s in \<open>auto simp: keeps_keys_def\<close>)
  with cs assms(7,8) show ?thesis by (auto simp: set_update_where image_iff intro!: bexI [of _ camp])
qed

lemma retry_revives_campaign_witness:
  "demo_cancelled_campaign\<lparr>ca_status := C_RUNNING\<rparr> \<in> set (campaigns (w_db (snd (command_workflow demo_wf_broker demo_stop
     (demo_wf_cmd ''retry'') (demo_wf_world (demo_workflow ''campaign.sms'' W_CANCELLED (Some (RUuid 5))))))))"
  by (rule retry_revives_campaign [where x = "demo_workflow ''campaign.sms'' W_CANCELLED (Some (RUuid 5))" and cid = 5])
    (simp_all add: get_workflow_def audited_def demo_wf_defs empty_db_def)

definition dispatchable :: "string \<Rightarrow> bool" where
  "dispatchable wtype = (wtype \<in> {''campaign.sms'', ''campaign.lbc_message'', ''browser_use.task'', ''experimental.lab'',
     ''messaging.inbox_sync'', ''account.inspect''})"

lemma dispatch_undispatchable:
  "\<not> dispatchable (sn_type s) \<Longrightarrow> dispatch_workflow b wid s w = (Inl (ValueError ''Workflow type cannot be dispatched''), w)"
  unfolding dispatch_workflow_def dispatchable_def Let_def by (simp only: insert_iff empty_iff if_False de_Morgan_disj)

text \<open>
  Retrying a workflow that cannot be dispatched loses it. For a failed or cancelled workflow of
  any other type (\<open>account.create\<close>, \<open>connector.*\<close>, \<open>analyzer.listing\<close>) the retry is committed first and
  then fails: the workflow is left \<open>PENDING\<close>, nothing is queued, and the same command sent again
  succeeds without any effect.
\<close>

theorem undispatchable_retry_strands:
  assumes "get_workflow (wc_workflow_id c) (w_db w) = Some x" "\<not> audited (wc_key c) (w_db w)" "wc_action c = ''retry''"
    and "wf_status x \<in> {W_CANCELLED, W_FAILED}" "\<not> dispatchable (wf_workflow_type x)"
    and "\<not> prefix ''campaign.'' (wf_workflow_type x)"
  shows "\<exists>w1 y. command_workflow b stop_task c w = (Inl (ValueError ''Workflow type cannot be dispatched''), w1)
    \<and> get_workflow (wc_workflow_id c) (w_db w1) = Some y \<and> wf_status y = W_PENDING \<and> w_queue w1 = w_queue w
    \<and> command_workflow b stop_task c w1 = (Inr y, w1)"
proof -
  let ?wid = "wc_workflow_id c"
  let ?d = "set_workflow ?wid (command_row (wc_now c) ''retry'' W_PENDING) (w_db w)"
  define y where "y = command_row (wc_now c) ''retry'' W_PENDING x"
  have nxt: "workflow_next (wf_status x) ''retry'' = Some W_PENDING" using assms(4) by auto
  have sync: "sync_campaign x W_PENDING ?d = Inr ?d"
    using assms(6) by (simp add: sync_campaign_def split: option.splits)
  define d' where "d' = add_audit (wc_now c) (wc_actor c) (wc_role c) ''workflow.retry'' ''workflow'' (RUuid ?wid) (wc_key c)
     [(''action'', JStr ''retry'')] (lower (workflow_status_value W_PENDING)) (Some ?wid) ?d"
  have s: "workflow_session c (w_db w) = Inr (Inr (take_snapshot y), d')"
    using assms(1,2,3) nxt sync by (simp add: workflow_session_def audit_by_key_None_iff [symmetric] d'_def y_def)
  define w1 where "w1 = w\<lparr>w_db := d'\<rparr>"
  have type: "sn_type (take_snapshot y) = wf_workflow_type x"
    by (simp add: take_snapshot_def y_def command_row_def)
  have e: "command_workflow b stop_task c w = (Inl (ValueError ''Workflow type cannot be dispatched''), w1)"
  proof -
    have "in_session (workflow_session c) w = (Inr (Inr (take_snapshot y)), w1)"
      using s by (simp add: in_session_def session_def w1_def)
    moreover have "dispatch_workflow b ?wid (take_snapshot y) w1 = (Inl (ValueError ''Workflow type cannot be dispatched''), w1)"
      by (rule dispatch_undispatchable) (simp only: type assms(5) not_False_eq_True)
    ultimately show ?thesis using assms(3) by (simp add: command_workflow_def Let_def)
  qed
  have "wf_id (command_row n a st r) = wf_id r" for n a st r by (simp add: command_row_def)
  then have "get_workflow ?wid d' = map_option (\<lambda>r. if wf_id r = ?wid then command_row (wc_now c) ''retry'' W_PENDING r else r)
      (get_workflow ?wid (w_db w))"
    by (simp add: get_workflow_def d'_def set_workflow_def find_update_where)
  moreover have "wf_id x = ?wid" using assms(1) by (auto simp: get_workflow_def dest: find_row_SomeD)
  ultimately have g: "get_workflow ?wid d' = Some y" using assms(1) by (simp add: y_def)
  have "audit_by_key (wc_key c) d' \<noteq> None" by (simp add: audit_by_key_None_iff d'_def)
  with g have "command_workflow b stop_task c w1 = (Inr y, w1)"
    by (simp add: command_workflow_def in_session_def session_def workflow_session_def w1_def)
  with e g show ?thesis by (intro exI [of _ w1] exI [of _ y]) (simp add: w1_def y_def command_row_def)
qed

lemma undispatchable_retry_strands_witness:
  "\<exists>w1. command_workflow demo_wf_broker demo_stop (demo_wf_cmd ''retry'') (demo_wf_world (demo_workflow ''account.create'' W_FAILED None))
     = (Inl (ValueError ''Workflow type cannot be dispatched''), w1)"
proof -
  have "\<exists>w1 y. command_workflow demo_wf_broker demo_stop (demo_wf_cmd ''retry'') (demo_wf_world (demo_workflow ''account.create'' W_FAILED None))
      = (Inl (ValueError ''Workflow type cannot be dispatched''), w1)
      \<and> get_workflow (wc_workflow_id (demo_wf_cmd ''retry'')) (w_db w1) = Some y \<and> wf_status y = W_PENDING
      \<and> w_queue w1 = w_queue (demo_wf_world (demo_workflow ''account.create'' W_FAILED None))
      \<and> command_workflow demo_wf_broker demo_stop (demo_wf_cmd ''retry'') w1 = (Inr y, w1)"
    by (rule undispatchable_retry_strands [where x = "demo_workflow ''account.create'' W_FAILED None"])
      (simp_all add: get_workflow_def audited_def demo_wf_defs empty_db_def dispatchable_def)
  then show ?thesis by blast
qed

end
