(* ===== verification/Provider_Poll.thy ===== *)
theory Provider_Poll
  imports Commands
begin

text \<open>
  The polling loop of \<open>account_control.inspect_account\<close> and
  \<open>browser_use_workflows._execute_browser_use_task\<close>: ask the provider until the task has ended or
  the time is up. The body of a turn is a parameter (a state step with a verdict); the loop is a
  \<open>partial_function\<close>, so that a loop that does not end is the value \<open>None\<close>.
\<close>

datatype 'a verdict = Break 'a | Raise exn | Again

datatype 'a poll_end = Broke 'a | Raised exn | TimedOut

partial_function (option) poll :: "(nat \<Rightarrow> 's \<Rightarrow> 'a verdict \<times> 's) \<Rightarrow> int \<Rightarrow> int \<Rightarrow> nat \<Rightarrow> int \<Rightarrow> 's
    \<Rightarrow> ('a poll_end \<times> 's) option" where
  "poll body timeout interval i elapsed s =
     (if elapsed < timeout then
        (case body i s of
           (Break x, s') \<Rightarrow> Some (Broke x, s')
         | (Raise e, s') \<Rightarrow> Some (Raised e, s')
         | (Again, s') \<Rightarrow> poll body timeout interval (Suc i) (elapsed + interval) s')
      else Some (TimedOut, s))"

text \<open>With a positive interval the loop ends, after at most \<open>timeout div interval + 1\<close> turns.\<close>

lemma poll_terminates:
  assumes "0 < interval"
  shows "\<exists>r. poll body timeout interval i elapsed s = Some r"
proof (induction "nat (timeout - elapsed)" arbitrary: i elapsed s rule: less_induct)
  case less
  show ?case
  proof (cases "elapsed < timeout")
    case False
    then show ?thesis by (simp add: poll.simps)
  next
    case True
    obtain v s' where b: "body i s = (v, s')" by fastforce
    show ?thesis
    proof (cases v)
      case Again
      have "nat (timeout - (elapsed + interval)) < nat (timeout - elapsed)" using True assms by simp
      from less [OF this, of "Suc i" s'] obtain r where
        "poll body timeout interval (Suc i) (elapsed + interval) s' = Some r" by blast
      with b Again True show ?thesis by (subst poll.simps) simp
    qed (use b True in \<open>simp_all add: poll.simps\<close>)
  qed
qed

text \<open>With an interval of 0, turns that never decide make the loop run forever.\<close>

lemma poll_diverges:
  fixes res :: "'a poll_end \<times> 's"
  assumes "poll body timeout interval i elapsed s = Some res"
  shows "interval = 0 \<longrightarrow> elapsed < timeout \<longrightarrow> \<not> (\<forall>i s. fst (body i s) = Again)"
proof (rule poll.raw_induct [where P = "\<lambda>body timeout interval i elapsed s res.
    interval = 0 \<longrightarrow> elapsed < timeout \<longrightarrow> \<not> (\<forall>i s. fst (body i s) = Again)", OF _ assms])
  fix loop :: "(nat \<Rightarrow> 's \<Rightarrow> 'a verdict \<times> 's) \<Rightarrow> int \<Rightarrow> int \<Rightarrow> nat \<Rightarrow> int \<Rightarrow> 's \<Rightarrow> ('a poll_end \<times> 's) option"
    and body timeout interval i elapsed s res
  assume IH: "\<And>body timeout interval i elapsed s res. loop body timeout interval i elapsed s = Some res \<Longrightarrow>
      interval = 0 \<longrightarrow> elapsed < timeout \<longrightarrow> \<not> (\<forall>i s. fst (body i s) = Again)"
    and eq: "(if elapsed < timeout
         then case body i s of (Break x, s') \<Rightarrow> Some (Broke x, s') | (Raise e, s') \<Rightarrow> Some (Raised e, s')
              | (Again, s') \<Rightarrow> loop body timeout interval (Suc i) (elapsed + interval) s'
         else Some (TimedOut, s)) = Some res"
  show "interval = 0 \<longrightarrow> elapsed < timeout \<longrightarrow> \<not> (\<forall>i s. fst (body i s) = Again)"
  proof (intro impI notI)
    assume *: "interval = 0" "elapsed < timeout" "\<forall>i s. fst (body i s) = Again"
    then obtain s' where "body i s = (Again, s')" by (metis prod.collapse)
    with eq * have "loop body timeout interval (Suc i) (elapsed + interval) s' = Some res" by simp
    from IH [OF this] * show False by simp
  qed
qed

text \<open>What each turn keeps holds after the loop.\<close>

lemma poll_invariant:
  fixes res :: "'a poll_end \<times> 's" and Q :: "'s \<Rightarrow> bool"
  assumes "poll body timeout interval i elapsed s = Some res"
  shows "(\<forall>i s. Q s \<longrightarrow> Q (snd (body i s))) \<longrightarrow> Q s \<longrightarrow> Q (snd res)"
proof (rule poll.raw_induct [where P = "\<lambda>body timeout interval i elapsed s res.
    (\<forall>i s. Q s \<longrightarrow> Q (snd (body i s))) \<longrightarrow> Q s \<longrightarrow> Q (snd res)", OF _ assms])
  fix loop :: "(nat \<Rightarrow> 's \<Rightarrow> 'a verdict \<times> 's) \<Rightarrow> int \<Rightarrow> int \<Rightarrow> nat \<Rightarrow> int \<Rightarrow> 's \<Rightarrow> ('a poll_end \<times> 's) option"
    and body timeout interval i elapsed s res
  assume IH: "\<And>body timeout interval i elapsed s res. loop body timeout interval i elapsed s = Some res \<Longrightarrow>
      (\<forall>i s. Q s \<longrightarrow> Q (snd (body i s))) \<longrightarrow> Q s \<longrightarrow> Q (snd res)"
    and eq: "(if elapsed < timeout
         then case body i s of (Break x, s') \<Rightarrow> Some (Broke x, s') | (Raise e, s') \<Rightarrow> Some (Raised e, s')
              | (Again, s') \<Rightarrow> loop body timeout interval (Suc i) (elapsed + interval) s'
         else Some (TimedOut, s)) = Some res"
  obtain v s' where b: "body i s = (v, s')" by fastforce
  show "(\<forall>i s. Q s \<longrightarrow> Q (snd (body i s))) \<longrightarrow> Q s \<longrightarrow> Q (snd res)"
  proof (intro impI)
    assume Q: "\<forall>i s. Q s \<longrightarrow> Q (snd (body i s))" "Q s"
    then have "Q s'" using b by (metis snd_conv)
    show "Q (snd res)"
    proof (cases "elapsed < timeout \<and> v = Again")
      case True
      with eq b have "loop body timeout interval (Suc i) (elapsed + interval) s' = Some res" by simp
      from IH [OF this] Q \<open>Q s'\<close> show ?thesis by blast
    next
      case False
      then have "snd res = s \<or> snd res = s'" using eq b by (cases v) (auto split: if_splits)
      then show ?thesis using Q(2) \<open>Q s'\<close> by auto
    qed
  qed
qed

text \<open>A loop that ends by a break ends with the state of the turn that decided.\<close>

lemma poll_Broke:
  fixes res :: "'a poll_end \<times> 's"
  assumes "poll body timeout interval i elapsed s = Some res"
  shows "\<forall>x. fst res = Broke x \<longrightarrow> (\<exists>i s. body i s = (Break x, snd res))"
proof (rule poll.raw_induct [where P = "\<lambda>body timeout interval i elapsed s res.
    \<forall>x. fst res = Broke x \<longrightarrow> (\<exists>i s. body i s = (Break x, snd res))", OF _ assms])
  fix loop :: "(nat \<Rightarrow> 's \<Rightarrow> 'a verdict \<times> 's) \<Rightarrow> int \<Rightarrow> int \<Rightarrow> nat \<Rightarrow> int \<Rightarrow> 's \<Rightarrow> ('a poll_end \<times> 's) option"
    and body timeout interval i elapsed s res
  assume IH: "\<And>body timeout interval i elapsed s res. loop body timeout interval i elapsed s = Some res \<Longrightarrow>
      \<forall>x. fst res = Broke x \<longrightarrow> (\<exists>i s. body i s = (Break x, snd res))"
    and eq: "(if elapsed < timeout
         then case body i s of (Break x, s') \<Rightarrow> Some (Broke x, s') | (Raise e, s') \<Rightarrow> Some (Raised e, s')
              | (Again, s') \<Rightarrow> loop body timeout interval (Suc i) (elapsed + interval) s'
         else Some (TimedOut, s)) = Some res"
  obtain v s' where b: "body i s = (v, s')" by fastforce
  show "\<forall>x. fst res = Broke x \<longrightarrow> (\<exists>i s. body i s = (Break x, snd res))"
  proof (cases "elapsed < timeout \<and> v = Again")
    case True
    with eq b have "loop body timeout interval (Suc i) (elapsed + interval) s' = Some res" by simp
    from IH [OF this] show ?thesis .
  next
    case False
    then have "fst res = Broke x \<Longrightarrow> body i s = (Break x, snd res)" for x
      using eq b by (cases v) (auto split: if_splits)
    then show ?thesis by blast
  qed
qed

end
