(* ===== verification/Account_Control.thy ===== *)
theory Account_Control
  imports Provider_Poll Config
begin

text \<open>
  \<open>app/services/account_control.py\<close>: commands on platform accounts, the life cycle of an account
  creation workflow, the inspection of an account through Browser Use, and the reconciliation of
  creation workflows whose worker died. The Browser Use client is a parameter.
\<close>

section \<open>Commands\<close>

fun account_next :: "account_status \<Rightarrow> string \<Rightarrow> account_status option" where
  \<comment> \<open>\<open>_TRANSITIONS\<close>\<close>
  "account_next ACTIF a = (if a = ''quarantine'' then Some QUARANTAINE else None)"
| "account_next RALENTI a =
     (if a = ''quarantine'' then Some QUARANTAINE else if a = ''warm'' then Some EN_CHAUFFE else None)"
| "account_next BLOQUE a =
     (if a = ''quarantine'' then Some QUARANTAINE else if a = ''restore'' then Some EN_CHAUFFE else None)"
| "account_next EN_CHAUFFE a = (if a = ''quarantine'' then Some QUARANTAINE else None)"
| "account_next EN_CREATION a =
     (if a = ''quarantine'' then Some QUARANTAINE else if a = ''warm'' then Some EN_CHAUFFE else None)"
| "account_next QUARANTAINE a = (if a = ''restore'' then Some EN_CHAUFFE else None)"

definition account_transition :: "string \<Rightarrow> string \<Rightarrow> account_status result" where
  "account_transition current action =
     (case enum_parse account_status_value account_status_members current of
        None \<Rightarrow> Inl (ValueError ''Invalid account transition'')
      | Some st \<Rightarrow>
          (case account_next st action of
             None \<Rightarrow> Inl (ValueError ''Invalid account transition'')
           | Some st' \<Rightarrow> Inr st'))"

record account_cmd =
  acc_account_id :: uuid
  acc_action :: string
  acc_key :: string
  acc_actor :: string
  acc_role :: string
  acc_now :: datetime

record account_response =
  ar_account :: "uuid option"
  ar_workflow :: "uuid option"
  ar_action :: string
  ar_result :: string

definition get_account :: "uuid \<Rightarrow> db \<Rightarrow> platform_account option" where
  "get_account i d = find_row (\<lambda>a. pa_id a = i) (platform_accounts d)"

definition set_account :: "uuid \<Rightarrow> (platform_account \<Rightarrow> platform_account) \<Rightarrow> db \<Rightarrow> db" where
  "set_account i f d = d\<lparr>platform_accounts := update_where (\<lambda>a. pa_id a = i) f (platform_accounts d)\<rparr>"

definition account_session :: "account_cmd \<Rightarrow> db \<Rightarrow> exn + ((account_response + uuid \<times> string option) \<times> db)" where
  \<comment> \<open>the first session: the answer to a duplicate, or the workflow and the profile of the account\<close>
  "account_session c d =
     (let action = acc_action c; aid = acc_account_id c; now = acc_now c in
      case audit_by_key (acc_key c) d of
        Some dup \<Rightarrow> Inr (Inl \<lparr>ar_account = Some aid, ar_workflow = ae_workflow_run_id dup, ar_action = action,
                            ar_result = ae_result_status dup\<rparr>, d)
      | None \<Rightarrow>
          (case get_account aid d of
             None \<Rightarrow> Inl (LookupError ''Account not found'')
           | Some account \<Rightarrow>
               if action = ''inspect'' \<and> pa_browser_use_profile_id account \<in> {None, Some []}
               then Inl (ValueError ''Account has no Browser Use profile'')
               else
                (let row = new_workflow now d (acc_key c) (''account.'' @ action) ''account'' (RUuid aid) (acc_actor c);
                     audit = (\<lambda>rs. add_audit now (acc_actor c) (acc_role c) (''account.'' @ action) ''account'' (RUuid aid)
                                (acc_key c) [(''action'', JStr action)] (lower (workflow_status_value rs)) (Some (fresh_id d)));
                     answer = (fresh_id d, pa_browser_use_profile_id account) in
                 if action = ''inspect'' then
                   (case add_workflow row d of
                      Inl e \<Rightarrow> Inl e
                    | Inr d1 \<Rightarrow> Inr (Inr answer, audit W_PENDING d1))
                 else
                   (case add_workflow (row\<lparr>wf_status := W_COMPLETED, wf_finished_at := Some now\<rparr>) d of
                      Inl e \<Rightarrow> Inl e
                    | Inr d1 \<Rightarrow>
                        (case account_transition (account_status_value (pa_status account)) action of
                           Inl e \<Rightarrow> Inl e
                         | Inr st \<Rightarrow>
                             Inr (Inr answer, audit W_COMPLETED
                               (set_account aid (\<lambda>a. a\<lparr>pa_status := st, pa_derniere_action := Some now\<rparr>) d1)))))))"

definition optional_text :: "string option \<Rightarrow> json" where
  "optional_text t = (case t of None \<Rightarrow> JNull | Some s \<Rightarrow> JStr s)"

definition execute_account_command :: "broker \<Rightarrow> account_cmd \<Rightarrow> world \<Rightarrow> account_response result \<times> world" where
  "execute_account_command b c w =
     (case in_session (account_session c) w of
        (Inl e, w1) \<Rightarrow> (Inl e, w1)
      | (Inr (Inl response), w1) \<Rightarrow> (Inr response, w1)
      | (Inr (Inr (wid, profile)), w1) \<Rightarrow>
          (let answer = \<lparr>ar_account = Some (acc_account_id c), ar_workflow = Some wid, ar_action = acc_action c,
                         ar_result = (if acc_action c = ''inspect'' then ''queued'' else ''completed'')\<rparr> in
           if acc_action c = ''inspect'' then
             (case dispatch b (''inspect_account_task'',
                     [JStr (str_uuid wid), JStr (str_uuid (acc_account_id c)), optional_text profile]) w1 of
                (Inl e, w2) \<Rightarrow> (Inl e, w2)
              | (Inr tid, w2) \<Rightarrow> (Inr answer, on_db (set_task_id wid tid) w2))
           else if acc_action c = ''warm'' then
             (case dispatch b (''check_account_pool_task'', []) w1 of
                (Inl e, w2) \<Rightarrow> (Inl e, w2)
              | (Inr _, w2) \<Rightarrow> (Inr answer, w2))
           else (Inr answer, w1)))"

definition remove_quarantined_account :: "account_cmd \<Rightarrow> db \<Rightarrow> account_response result \<times> db" where
  "remove_quarantined_account c =
     session (\<lambda>d.
       (let aid = acc_account_id c; now = acc_now c in
        case audit_by_key (acc_key c) d of
          Some dup \<Rightarrow> Inr (\<lparr>ar_account = Some aid, ar_workflow = ae_workflow_run_id dup, ar_action = ''delete'',
                          ar_result = ae_result_status dup\<rparr>, d)
        | None \<Rightarrow>
            (case get_account aid d of
               None \<Rightarrow> Inl (LookupError ''Account not found'')
             | Some account \<Rightarrow>
                 if pa_status account \<noteq> QUARANTAINE then Inl (ValueError ''Seuls les comptes en quarantaine'')
                 else
                  (let row = (new_workflow now d (acc_key c) ''account.delete'' ''account'' (RUuid aid) (acc_actor c))
                               \<lparr>wf_status := W_COMPLETED, wf_started_at := Some now, wf_finished_at := Some now\<rparr> in
                   case add_workflow row d of
                     Inl e \<Rightarrow> Inl e
                   | Inr d1 \<Rightarrow>
                       Inr (\<lparr>ar_account = Some aid, ar_workflow = Some (wf_id row), ar_action = ''delete'',
                             ar_result = ''completed''\<rparr>,
                            add_audit now (acc_actor c) (acc_role c) ''account.delete'' ''account'' (RUuid aid) (acc_key c)
                              [(''action'', JStr ''delete''), (''mode'', JStr ''soft_delete'')] ''completed'' (Some (wf_id row))
                              (set_account aid (\<lambda>a. a\<lparr>pa_deleted_at := Some now, pa_derniere_action := Some now\<rparr>) d1))))))"

section \<open>Account creation workflows\<close>

definition finish_account_creation_workflow :: "datetime \<Rightarrow> ref \<Rightarrow> string option \<Rightarrow> string option \<Rightarrow> db
    \<Rightarrow> unit result \<times> db" where
  "finish_account_creation_workflow now workflow_id account_id error =
     session (\<lambda>d.
       case uuid_of_ref workflow_id of
         Inl e \<Rightarrow> Inl e
       | Inr wid \<Rightarrow>
           (case get_workflow wid d of
              None \<Rightarrow> Inl AttributeError
            | Some w \<Rightarrow>
                (let failed = (error \<notin> {None, Some []});
                     cp = dict_or_empty (wf_checkpoint w);
                     previous = dict_get cp ''stage'';
                     with_account = (case account_id of None \<Rightarrow> [] | Some a \<Rightarrow>
                        if a = [] then [] else [(''account_id'', JStr a)]);
                     with_last = (case previous of None \<Rightarrow> [] | Some st \<Rightarrow>
                        if failed \<and> json_truthy st then [(''last_stage'', st)] else []);
                     stage = [(''stage'', JStr (if failed then ''failed'' else ''completed''))] in
                 Inr ((), set_workflow wid (\<lambda>x. x\<lparr>wf_status := (if failed then W_FAILED else W_COMPLETED),
                        wf_checkpoint := Some (dict_update cp (with_account @ with_last @ stage)),
                        wf_last_error := error, wf_finished_at := Some now\<rparr>) d))))"

definition update_account_creation_workflow :: "datetime \<Rightarrow> ref \<Rightarrow> workflow_status \<Rightarrow> (string, json) dict option
    \<Rightarrow> db \<Rightarrow> unit result \<times> db" where
  "update_account_creation_workflow now workflow_id status checkpoint =
     session (\<lambda>d.
       case uuid_of_ref workflow_id of
         Inl e \<Rightarrow> Inl e
       | Inr wid \<Rightarrow>
           (case get_workflow wid d of
              None \<Rightarrow> Inr ((), d)
            | Some w \<Rightarrow>
                if wf_workflow_type w \<noteq> ''account.create'' then Inr ((), d)
                else Inr ((), set_workflow wid (\<lambda>x. x\<lparr>wf_status := status,
                       wf_checkpoint := (case checkpoint of None \<Rightarrow> wf_checkpoint x
                          | Some c \<Rightarrow> Some (dict_update (dict_or_empty (wf_checkpoint x)) c)),
                       wf_started_at := (if status = W_RUNNING \<and> wf_started_at x = None then Some now
                                         else wf_started_at x)\<rparr>) d)))"

record create_cmd =
  cre_mode :: string
  cre_key :: string
  cre_actor :: string
  cre_role :: string
  cre_now :: datetime

definition create_session :: "create_cmd \<Rightarrow> db \<Rightarrow> exn + ((account_response + uuid) \<times> db)" where
  "create_session c d =
     (case workflow_by_key (cre_key c) d of
        Some w \<Rightarrow> Inr (Inl \<lparr>ar_account = None, ar_workflow = Some (wf_id w), ar_action = ''create'',
                          ar_result = lower (workflow_status_value (wf_status w))\<rparr>, d)
      | None \<Rightarrow>
          (let row = new_workflow (cre_now c) d (cre_key c) ''account.create'' ''account_pool'' (RText (cre_mode c)) (cre_actor c) in
           case add_workflow row d of
             Inl e \<Rightarrow> Inl e
           | Inr d1 \<Rightarrow>
               Inr (Inr (wf_id row),
                    add_audit (cre_now c) (cre_actor c) (cre_role c) ''account.create'' ''account_pool'' (RText (cre_mode c))
                      (cre_key c) [(''mode'', JStr (cre_mode c))] ''queued'' (Some (wf_id row)) d1)))"

definition create_account_command :: "broker \<Rightarrow> create_cmd \<Rightarrow> world \<Rightarrow> account_response result \<times> world" where
  "create_account_command b c w =
     (case in_session (create_session c) w of
        (Inl e, w1) \<Rightarrow> (Inl e, w1)
      | (Inr (Inl response), w1) \<Rightarrow> (Inr response, w1)
      | (Inr (Inr wid), w1) \<Rightarrow>
          (case dispatch b (''create_account_task'', [JStr (cre_mode c), JStr (str_uuid wid)]) w1 of
             (Inl e, w2) \<Rightarrow>
               (case finish_account_creation_workflow (cre_now c) (RUuid wid) None
                       (Some (''Account creation dispatch failed: '' @ take 400 (exn_str e))) (w_db w2) of
                  (Inl e', d) \<Rightarrow> (Inl e', w2\<lparr>w_db := d\<rparr>)
                | (Inr _, d) \<Rightarrow> (Inl e, w2\<lparr>w_db := d\<rparr>))
           | (Inr tid, w2) \<Rightarrow>
               (Inr \<lparr>ar_account = None, ar_workflow = Some wid, ar_action = ''create'', ar_result = ''queued''\<rparr>,
                on_db (set_task_id wid tid) w2)))"

definition reconcilable :: "datetime \<Rightarrow> int \<Rightarrow> int \<Rightarrow> workflow_run \<Rightarrow> bool" where
  "reconcilable now pending_timeout running_timeout w =
     (wf_workflow_type w = ''account.create'' \<and> wf_status w \<in> {W_PENDING, W_RUNNING}
      \<and> (case wf_started_at w of None \<Rightarrow> wf_created_at w | Some t \<Rightarrow> t)
          \<le> now - minutes (if wf_status w = W_PENDING then pending_timeout else running_timeout))"

definition reconcile_row :: "datetime \<Rightarrow> int \<Rightarrow> int \<Rightarrow> workflow_run \<Rightarrow> workflow_run" where
  "reconcile_row now pending_timeout running_timeout w =
     w\<lparr>wf_status := W_FAILED, wf_last_error_code := Some ''WORKER_TIMEOUT'',
       wf_last_error := Some (''Workflow account.create expire : aucune progression persist'' @ [CHR 0xE9]
         @ ''e depuis '' @ str_int (if wf_status w = W_PENDING then pending_timeout else running_timeout) @ '' minutes.''),
       wf_checkpoint := Some (dict_set ''stage'' (JStr ''reconciled_timeout'') (dict_or_empty (wf_checkpoint w))),
       wf_finished_at := Some now\<rparr>"

definition reconcile_account_creation_workflows :: "datetime \<Rightarrow> int \<Rightarrow> int \<Rightarrow> db \<Rightarrow> nat \<times> db" where
  "reconcile_account_creation_workflows now pending_timeout running_timeout d =
     (length (filter (reconcilable now pending_timeout running_timeout) (workflow_runs d)),
      d\<lparr>workflow_runs := update_where (reconcilable now pending_timeout running_timeout)
            (reconcile_row now pending_timeout running_timeout) (workflow_runs d)\<rparr>)"

section \<open>Inspection\<close>

record bu_client =
  bu_create_task :: "(string, json) dict \<Rightarrow> (string, json) dict result"  \<comment> \<open>of the payload\<close>
  bu_task_status :: "nat \<Rightarrow> json \<Rightarrow> (string, json) dict result"
  bu_task_detail :: "json \<Rightarrow> (string, json) dict result"
  bu_stop_task :: "json \<Rightarrow> unit result"

definition create_task_payload :: "string \<Rightarrow> (string, json) dict \<Rightarrow> string list \<Rightarrow> (string, json) dict \<Rightarrow> (string, json) dict" where
  \<comment> \<open>\<open>create_task\<close> of the client, without \<open>session_id\<close> and \<open>structured_output\<close>, which no caller gives\<close>
  "create_task_payload task metadata allowed session_settings =
     [(''task'', JStr task)]
     @ (if metadata = [] then [] else [(''metadata'', JObj metadata)])
     @ (if allowed = [] then [] else [(''allowedDomains'', JList (map JStr allowed))])
     @ (if session_settings = [] then [] else [(''sessionSettings'', JObj session_settings)])"

definition inspection_payload :: "uuid \<Rightarrow> string \<Rightarrow> (string, json) dict" where
  "inspection_payload aid profile = create_task_payload
     (''Controle la session du compte Leboncoin, les alertes visibles et la disponibilite de la messagerie. '' @
      ''Ne modifie rien.'')
     [(''template'', JStr ''account_diagnostic''), (''account_id'', JStr (str_uuid aid))]
     [''leboncoin.fr'', ''www.leboncoin.fr'']
     [(''profileId'', JStr profile), (''proxyCountryCode'', JStr ''FR'')]"

definition inspect_turn :: "bu_client \<Rightarrow> json \<Rightarrow> nat \<Rightarrow> unit \<Rightarrow> (string, json) dict verdict \<times> unit" where
  "inspect_turn client task_id i s =
     (case bu_task_status client i task_id of
        Inl e \<Rightarrow> (Raise e, ())
      | Inr status \<Rightarrow>
          if get_json status ''status'' \<in> {JStr ''finished'', JStr ''stopped''} then
            (case bu_task_detail client task_id of Inl e \<Rightarrow> (Raise e, ()) | Inr detail \<Rightarrow> (Break detail, ()))
          else (Again, ()))"

definition inspect_account :: "settings \<Rightarrow> bu_client \<Rightarrow> datetime \<Rightarrow> datetime \<Rightarrow> uuid \<Rightarrow> uuid \<Rightarrow> string \<Rightarrow> db
    \<Rightarrow> ((string, json) dict result \<times> db) option" where
  \<comment> \<open>\<open>None\<close>: the loop does not end\<close>
  "inspect_account s client started finished wid aid profile d =
     (case get_workflow wid d of
        None \<Rightarrow> Some (Inl AttributeError, d)
      | Some _ \<Rightarrow>
         (let d1 = set_workflow wid (\<lambda>x. x\<lparr>wf_status := W_RUNNING, wf_started_at := Some started\<rparr>) d in
          case bu_create_task client (inspection_payload aid profile) of
            Inl e \<Rightarrow> Some (Inl e, d1)
          | Inr task \<Rightarrow>
             (let task_id = json_or (get_json task ''id'') (get_json task ''taskId'') in
              case poll (inspect_turn client task_id) (browser_use_task_timeout_seconds s)
                     (browser_use_poll_interval_seconds s) 0 0 () of
                None \<Rightarrow> None
              | Some (Raised e, _) \<Rightarrow> Some (Inl e, d1)
              | Some (TimedOut, _) \<Rightarrow>
                  (case bu_stop_task client task_id of
                     Inl e \<Rightarrow> Some (Inl e, d1)
                   | Inr _ \<Rightarrow> Some (Inl (TimeoutError ''Account inspection timed out''), d1))
              | Some (Broke detail, _) \<Rightarrow>
                  Some (session (\<lambda>d.
                    case (get_workflow wid d, get_account aid d) of
                      (Some _, Some _) \<Rightarrow>
                        Inr (detail, set_account aid (\<lambda>a. a\<lparr>pa_browser_use_session_id := json_text_option (get_json task ''sessionId''),
                                                          pa_derniere_action := Some finished\<rparr>)
                             (set_workflow wid (\<lambda>x. x\<lparr>wf_status := W_COMPLETED, wf_finished_at := Some finished,
                                wf_checkpoint := Some [(''provider_task_id'', task_id), (''session_id'', get_json task ''sessionId''),
                                  (''output'', get_json detail ''output''), (''is_success'', get_json detail ''isSuccess'')]\<rparr>) d))
                    | _ \<Rightarrow> Inl AttributeError) d1))))"

section \<open>Lemmas\<close>

lemma account_transition_value [simp]:
  "account_transition (account_status_value st) a =
     (case account_next st a of None \<Rightarrow> Inl (ValueError ''Invalid account transition'') | Some st' \<Rightarrow> Inr st')"
  by (simp add: account_transition_def)

lemma set_account_simps [simp]:
  "audit_events (set_account i f d) = audit_events d" "workflow_runs (set_account i f d) = workflow_runs d"
  "campaigns (set_account i f d) = campaigns d"
  by (simp_all add: set_account_def)

lemma account_session_InrE:
  assumes "account_session c d = Inr (x, d')"
  obtains (dup) r where "audited (acc_key c) d" "x = Inl r" "d' = d"
  | (fresh) account d1 where "\<not> audited (acc_key c) d" "get_account (acc_account_id c) d = Some account"
      "audit_events d1 = audit_events d"
      "platform_accounts d1 =
         (if acc_action c = ''inspect'' then platform_accounts d
          else update_where (\<lambda>a. pa_id a = acc_account_id c)
                 (\<lambda>a. a\<lparr>pa_status := the (account_next (pa_status account) (acc_action c)), pa_derniere_action := Some (acc_now c)\<rparr>)
                 (platform_accounts d))"
      "acc_action c \<noteq> ''inspect'' \<Longrightarrow> account_next (pa_status account) (acc_action c) \<noteq> None"
      "\<exists>rs. d' = add_audit (acc_now c) (acc_actor c) (acc_role c) (''account.'' @ acc_action c) ''account''
         (RUuid (acc_account_id c)) (acc_key c) [(''action'', JStr (acc_action c))] rs (Some (fresh_id d)) d1"
      "x = Inr (fresh_id d, pa_browser_use_profile_id account)"
proof (cases "audit_by_key (acc_key c) d")
  case (Some dup)
  then have "audited (acc_key c) d" by (simp add: audit_by_key_Some)
  with Some assms show ?thesis by (intro that(1)) (auto simp: account_session_def Let_def)
next
  case None
  then have new: "\<not> audited (acc_key c) d" by (simp add: audit_by_key_None_iff)
  from assms None obtain account where a: "get_account (acc_account_id c) d = Some account"
    by (cases "get_account (acc_account_id c) d") (auto simp: account_session_def Let_def)
  show ?thesis
  proof (cases "acc_action c = ''inspect''")
    case True
    let ?row = "new_workflow (acc_now c) d (acc_key c) (''account.'' @ acc_action c) ''account'' (RUuid (acc_account_id c)) (acc_actor c)"
    from assms None a True obtain d1 where d1: "add_workflow ?row d = Inr d1"
      by (cases "add_workflow ?row d") (auto simp: account_session_def Let_def split: if_splits)
    from assms None a True d1 show ?thesis
      by (intro that(2) [OF new a, of d1])
        (use add_workflow_frame [OF d1] in \<open>auto simp: account_session_def Let_def split: if_splits\<close>)
  next
    case False
    let ?row = "(new_workflow (acc_now c) d (acc_key c) (''account.'' @ acc_action c) ''account'' (RUuid (acc_account_id c)) (acc_actor c))
       \<lparr>wf_status := W_COMPLETED, wf_finished_at := Some (acc_now c)\<rparr>"
    from assms None a False obtain d1 where d1: "add_workflow ?row d = Inr d1"
      by (cases "add_workflow ?row d") (auto simp: account_session_def Let_def)
    from assms None a False d1 obtain st where st: "account_next (pa_status account) (acc_action c) = Some st"
      by (cases "account_next (pa_status account) (acc_action c)") (auto simp: account_session_def Let_def)
    from assms None a False d1 st show ?thesis
      by (intro that(2) [OF new a, of "set_account (acc_account_id c) (\<lambda>a. a\<lparr>pa_status := st, pa_derniere_action := Some (acc_now c)\<rparr>) d1"])
        (use add_workflow_frame [OF d1] in \<open>auto simp: account_session_def Let_def set_account_def\<close>)
  qed
qed

lemma execute_account_db:
  "(\<exists>e. account_session c (w_db w) = Inl e \<and> execute_account_command b c w = (Inl e, w))
   \<or> (\<exists>x d'. account_session c (w_db w) = Inr (x, d')
        \<and> audit_events (w_db (snd (execute_account_command b c w))) = audit_events d'
        \<and> platform_accounts (w_db (snd (execute_account_command b c w))) = platform_accounts d'
        \<and> (\<forall>r. x = Inl r \<longrightarrow> d' = w_db w \<longrightarrow> execute_account_command b c w = (Inr r, w)))"
proof (cases "account_session c (w_db w)")
  case (Inl e)
  then show ?thesis by (simp add: execute_account_command_def in_session_def session_def)
next
  case (Inr y)
  then obtain x d' where x: "account_session c (w_db w) = Inr (x, d')" by (cases y) auto
  define w1 where "w1 = w\<lparr>w_db := d'\<rparr>"
  have s: "in_session (account_session c) w = (Inr x, w1)"
    using x by (simp add: in_session_def session_def w1_def)
  have keep: "audit_events (w_db w2) = audit_events d' \<and> platform_accounts (w_db w2) = platform_accounts d'"
    if "dispatch b t w1 = (r, w2)" for t r w2
  proof -
    have "w_db w2 = w_db (snd (dispatch b t w1))" by (simp only: that snd_conv)
    then show ?thesis by (simp add: w1_def)
  qed
  have "audit_events (w_db (snd (execute_account_command b c w))) = audit_events d'
      \<and> platform_accounts (w_db (snd (execute_account_command b c w))) = platform_accounts d'"
  proof (cases x)
    case (Inl r)
    then show ?thesis using s by (simp add: execute_account_command_def w1_def)
  next
    case (Inr z)
    then obtain wid profile where z: "x = Inr (wid, profile)" by (cases z) auto
    consider "acc_action c = ''inspect''" | "acc_action c = ''warm''" | "acc_action c \<notin> {''inspect'', ''warm''}" by blast
    then show ?thesis
    proof cases
      case 1
      obtain r w2 where "dispatch b (''inspect_account_task'', [JStr (str_uuid wid), JStr (str_uuid (acc_account_id c)), optional_text profile]) w1 = (r, w2)"
        by fastforce
      with keep [OF this] 1 s z show ?thesis
        by (cases r) (simp_all add: execute_account_command_def on_db_def set_task_id_def set_workflow_def)
    next
      case 2
      obtain r w2 where "dispatch b (''check_account_pool_task'', []) w1 = (r, w2)" by fastforce
      with keep [OF this] 2 s z show ?thesis by (cases r) (simp_all add: execute_account_command_def)
    next
      case 3
      with s z show ?thesis by (simp add: execute_account_command_def w1_def)
    qed
  qed
  moreover have "\<forall>r. x = Inl r \<longrightarrow> d' = w_db w \<longrightarrow> execute_account_command b c w = (Inr r, w)"
    using s by (auto simp: execute_account_command_def w1_def)
  ultimately show ?thesis using x by blast
qed

definition account_seen :: "string \<Rightarrow> world \<Rightarrow> bool" where
  "account_seen k w = audited k (w_db w)"

lemma account_session_seen:
  assumes "account_session c d = Inr (x, d')"
  shows "audited (acc_key c) d' \<and> (audited k d \<longrightarrow> audited k d')"
  using assms
proof (cases rule: account_session_InrE)
  case (fresh account d1)
  then obtain rs where "d' = add_audit (acc_now c) (acc_actor c) (acc_role c) (''account.'' @ acc_action c) ''account''
         (RUuid (acc_account_id c)) (acc_key c) [(''action'', JStr (acc_action c))] rs (Some (fresh_id d)) d1" by blast
  with fresh(3) show ?thesis by (simp add: audited_def [of _ d1] audited_def [of _ d])
qed simp

interpretation account_command: idempotent_command account_seen acc_key "execute_account_command b" for b
proof
  fix c :: account_cmd and w
  assume seen: "account_seen (acc_key c) w"
  have "x = Inl (the (case x of Inl r \<Rightarrow> Some r | Inr _ \<Rightarrow> None)) \<and> d' = w_db w"
    if "account_session c (w_db w) = Inr (x, d')" for x d'
    using that seen by (cases rule: account_session_InrE) (auto simp: account_seen_def)
  then show "snd (execute_account_command b c w) = w"
    using execute_account_db [of c w b] by (metis snd_conv)
next
  fix c :: account_cmd and w r w'
  assume "execute_account_command b c w = (Inr r, w')"
  then show "account_seen (acc_key c) w'"
    using execute_account_db [of c w b] by (auto simp: account_seen_def audited_def dest: account_session_seen)
next
  fix k and c :: account_cmd and w
  assume "account_seen k w"
  then show "account_seen k (snd (execute_account_command b c w))"
    using execute_account_db [of c w b]
    by (auto simp: account_seen_def audited_def dest: account_session_seen [where k = k])
qed

section \<open>Properties\<close>

definition demo_ac_account :: "account_status \<Rightarrow> platform_account" where
  "demo_ac_account st = \<lparr>pa_id = 9, pa_email = ''a@b.fr'', pa_phone_otp = None, pa_status = st,
     pa_datadome_trust_level = TRUST_LOW, pa_datadome_cookie = None, pa_datadome_cookie_updated_at = None,
     pa_session_path = None, pa_browser_use_profile_id = Some ''p'', pa_browser_use_session_id = None,
     pa_deleted_at = None, pa_score_sante = 80, pa_quota_actuel = 10, pa_erreurs_24h = 0,
     pa_date_creation = 0, pa_derniere_action = None\<rparr>"

definition demo_ac_workflow :: workflow_run where
  "demo_ac_workflow = \<lparr>wf_id = 3, wf_idempotency_key = ''w3'', wf_workflow_type = ''account.create'', wf_target_type = None,
     wf_target_id = None, wf_status = W_PENDING, wf_progress_current = 0, wf_progress_total = None, wf_batch_number = 0,
     wf_batch_size = None, wf_celery_task_id = None, wf_checkpoint = None, wf_last_error_code = None, wf_last_error = None,
     wf_initiated_by = None, wf_started_at = None, wf_finished_at = None, wf_created_at = 0, wf_updated_at = 0\<rparr>"

definition demo_ac_world :: "account_status \<Rightarrow> world" where
  "demo_ac_world st = \<lparr>w_db = empty_db\<lparr>platform_accounts := [demo_ac_account st], workflow_runs := [demo_ac_workflow],
     fresh_id := 10\<rparr>, w_calls = 0, w_queue = [], w_revoked = []\<rparr>"

definition demo_ac_cmd :: "string \<Rightarrow> account_cmd" where
  "demo_ac_cmd action = \<lparr>acc_account_id = 9, acc_action = action, acc_key = ''k1'', acc_actor = ''ops'', acc_role = ''operator'',
     acc_now = 1\<rparr>"

definition demo_ac_broker :: broker where
  "demo_ac_broker i = Inr (str_nat i)"

lemmas demo_ac_defs = demo_ac_account_def demo_ac_workflow_def demo_ac_world_def demo_ac_cmd_def

text \<open>
  What account commands can do. A command changes at most the status of its own account, along
  the transition table; in particular no command makes an account \<open>ACTIF\<close> (only the warm-up does),
  and a quarantined account leaves quarantine only by \<open>restore\<close>, back to warming.
\<close>

theorem account_command_statuses:
  assumes "distinct (map pa_id (platform_accounts (w_db w)))" and "a \<in> set (platform_accounts (w_db w))"
  shows "\<exists>a'\<in>set (platform_accounts (w_db (snd (execute_account_command b c w)))). pa_id a' = pa_id a
    \<and> (pa_status a' = pa_status a
        \<or> pa_id a = acc_account_id c \<and> account_next (pa_status a) (acc_action c) = Some (pa_status a'))
    \<and> (pa_status a' = ACTIF \<longrightarrow> pa_status a = ACTIF)
    \<and> (pa_status a = QUARANTAINE \<longrightarrow> pa_status a' = QUARANTAINE \<or> pa_status a' = EN_CHAUFFE \<and> acc_action c = ''restore'')"
proof -
  have table: "account_next st act = Some st' \<Longrightarrow> st' \<noteq> ACTIF \<and> (st = QUARANTAINE \<longrightarrow> st' = EN_CHAUFFE \<and> act = ''restore'')"
    for st act st' by (cases st) (auto split: if_splits)
  have same: ?thesis if "platform_accounts (w_db (snd (execute_account_command b c w))) = platform_accounts (w_db w)"
    using that assms(2) by auto
  show ?thesis
  proof (cases "account_session c (w_db w)")
    case (Inl e)
    then show ?thesis using execute_account_db [of c w b] by (intro same) auto
  next
    case (Inr y)
    then obtain x d' where x: "account_session c (w_db w) = Inr (x, d')" by (cases y) auto
    then have d': "platform_accounts (w_db (snd (execute_account_command b c w))) = platform_accounts d'"
      using execute_account_db [of c w b] by auto
    from x show ?thesis
    proof (cases rule: account_session_InrE)
      case (dup r)
      with d' show ?thesis by (intro same) simp
    next
      case (fresh account d1)
      have rows: "platform_accounts d' = platform_accounts d1" using fresh(6) by auto
      show ?thesis
      proof (cases "acc_action c = ''inspect'' \<or> pa_id a \<noteq> acc_account_id c")
        case True
        then have "a \<in> set (platform_accounts d1)" using fresh(4) assms(2) by (auto simp: set_update_where image_iff)
        with d' rows show ?thesis by auto
      next
        case False
        have "account \<in> set (platform_accounts (w_db w))" "pa_id account = acc_account_id c"
          using fresh(2) by (auto simp: get_account_def dest: find_row_SomeD)
        with False assms have "account = a" by (metis distinct_map inj_onD)
        with fresh(5) False obtain st where st: "account_next (pa_status a) (acc_action c) = Some st" by auto
        let ?a = "a\<lparr>pa_status := st, pa_derniere_action := Some (acc_now c)\<rparr>"
        have "?a \<in> set (platform_accounts d1)"
          using fresh(4) False assms(2) st \<open>account = a\<close> by (auto simp: set_update_where image_iff intro!: bexI [of _ a])
        with d' rows st table [OF st] False show ?thesis by (intro bexI [of _ ?a]) auto
      qed
    qed
  qed
qed

lemma account_command_statuses_witness:
  "\<exists>a'\<in>set (platform_accounts (w_db (snd (execute_account_command demo_ac_broker (demo_ac_cmd ''warm'') (demo_ac_world QUARANTAINE))))).
     pa_id a' = 9 \<and> pa_status a' \<noteq> ACTIF"
proof -
  have "\<exists>a'\<in>set (platform_accounts (w_db (snd (execute_account_command demo_ac_broker (demo_ac_cmd ''warm'') (demo_ac_world QUARANTAINE))))).
     pa_id a' = pa_id (demo_ac_account QUARANTAINE)
    \<and> (pa_status a' = pa_status (demo_ac_account QUARANTAINE)
        \<or> pa_id (demo_ac_account QUARANTAINE) = acc_account_id (demo_ac_cmd ''warm'')
          \<and> account_next (pa_status (demo_ac_account QUARANTAINE)) (acc_action (demo_ac_cmd ''warm'')) = Some (pa_status a'))
    \<and> (pa_status a' = ACTIF \<longrightarrow> pa_status (demo_ac_account QUARANTAINE) = ACTIF)
    \<and> (pa_status (demo_ac_account QUARANTAINE) = QUARANTAINE
        \<longrightarrow> pa_status a' = QUARANTAINE \<or> pa_status a' = EN_CHAUFFE \<and> acc_action (demo_ac_cmd ''warm'') = ''restore'')"
    by (rule account_command_statuses) (simp_all add: demo_ac_defs)
  then show ?thesis by (auto simp: demo_ac_defs)
qed

text \<open>
  Lost account creations are closed. After a reconciliation no \<open>account.create\<close> workflow is
  \<open>PENDING\<close> or \<open>RUNNING\<close> past its timeout; each one that was is \<open>FAILED\<close> with code \<open>WORKER_TIMEOUT\<close>,
  the number returned is how many there were, no other workflow changes, and a second run finds none.
\<close>

theorem reconcile_closes_lost_workflows:
  "(let (n, d') = reconcile_account_creation_workflows now p r d in
    (\<forall>w\<in>set (workflow_runs d'). \<not> reconcilable now p r w)
    \<and> n = length (filter (reconcilable now p r) (workflow_runs d))
    \<and> map wf_id (workflow_runs d') = map wf_id (workflow_runs d)
    \<and> map wf_status (workflow_runs d') = map (\<lambda>w. if reconcilable now p r w then W_FAILED else wf_status w) (workflow_runs d)
    \<and> (\<forall>w\<in>set (workflow_runs d). \<not> reconcilable now p r w \<longrightarrow> w \<in> set (workflow_runs d'))
    \<and> reconcile_account_creation_workflows now p r d' = (0, d'))"
proof -
  define rows where "rows = update_where (reconcilable now p r) (reconcile_row now p r) (workflow_runs d)"
  have none: "\<forall>w\<in>set rows. \<not> reconcilable now p r w"
    by (auto simp: rows_def set_update_where reconcilable_def reconcile_row_def)
  have ids: "map wf_id rows = map wf_id (workflow_runs d)"
    unfolding rows_def by (rule map_update_where) (simp add: reconcile_row_def)
  have sts: "map wf_status rows = map (\<lambda>w. if reconcilable now p r w then W_FAILED else wf_status w) (workflow_runs d)"
    by (simp add: rows_def update_where_def reconcile_row_def)
  have kept: "\<forall>w\<in>set (workflow_runs d). \<not> reconcilable now p r w \<longrightarrow> w \<in> set rows"
    by (auto simp: rows_def set_update_where image_iff)
  have f: "filter (reconcilable now p r) rows = []" using none by (simp add: filter_empty_conv)
  have u: "update_where (reconcilable now p r) (reconcile_row now p r) rows = rows"
    using none by (rule update_where_none)
  have run: "reconcile_account_creation_workflows now p r d
      = (length (filter (reconcilable now p r) (workflow_runs d)), d\<lparr>workflow_runs := rows\<rparr>)"
    by (simp add: reconcile_account_creation_workflows_def rows_def)
  have again: "reconcile_account_creation_workflows now p r (d\<lparr>workflow_runs := rows\<rparr>) = (0, d\<lparr>workflow_runs := rows\<rparr>)"
    by (simp add: reconcile_account_creation_workflows_def f u)
  show ?thesis
    unfolding run Let_def prod.case using none ids sts kept again by simp
qed

lemma reconcile_closes_lost_workflows_witness:
  "demo_ac_workflow \<in> set (workflow_runs (w_db (demo_ac_world ACTIF)))
    \<and> reconcilable (hours 2) 5 30 demo_ac_workflow
    \<and> map wf_status (workflow_runs (snd (reconcile_account_creation_workflows (hours 2) 5 30 (w_db (demo_ac_world ACTIF))))) = [W_FAILED]"
  using reconcile_closes_lost_workflows [of "hours 2" 5 30 "w_db (demo_ac_world ACTIF)"]
  by (simp add: Let_def case_prod_beta demo_ac_world_def demo_ac_workflow_def reconcilable_def duration_defs)

text \<open>
  A creation the broker refuses is not left pending. When the dispatch of \<open>create_account_command\<close>
  raises, the command raises the same exception and its workflow is \<open>FAILED\<close> with the reason.
\<close>

theorem refused_creation_is_failed:
  assumes "\<not> workflow_keyed (cre_key c) (w_db w)" and "b (w_calls w) = Inl err"
    and "\<forall>x\<in>set (workflow_runs (w_db w)). wf_id x \<noteq> fresh_id (w_db w)"
  shows "\<exists>w1 x. create_account_command b c w = (Inl err, w1) \<and> w_queue w1 = w_queue w
    \<and> get_workflow (fresh_id (w_db w)) (w_db w1) = Some x \<and> wf_status x = W_FAILED
    \<and> wf_last_error x = Some (''Account creation dispatch failed: '' @ take 400 (exn_str err))"
proof -
  let ?row = "new_workflow (cre_now c) (w_db w) (cre_key c) ''account.create'' ''account_pool'' (RText (cre_mode c)) (cre_actor c)"
  have row: "wf_id ?row = fresh_id (w_db w)" "wf_idempotency_key ?row = cre_key c" by (simp_all add: new_workflow_def)
  have key: "workflow_by_key (cre_key c) (w_db w) = None" using assms(1) by (simp add: workflow_by_key_None_iff)
  obtain d1 where d1: "add_workflow ?row (w_db w) = Inr d1" using assms(1) row(2) by (simp add: add_workflow_def workflow_keyed_def)
  define d2 where "d2 = add_audit (cre_now c) (cre_actor c) (cre_role c) ''account.create'' ''account_pool'' (RText (cre_mode c))
     (cre_key c) [(''mode'', JStr (cre_mode c))] ''queued'' (Some (wf_id ?row)) d1"
  have "find_row (\<lambda>x. wf_id x = fresh_id (w_db w)) (workflow_runs (w_db w)) = None"
    using assms(3) by (simp add: find_row_None_iff)
  then have g: "get_workflow (fresh_id (w_db w)) d2 = Some ?row"
    using add_workflow_frame(4) [OF d1] row(1) by (simp add: get_workflow_def d2_def find_row_append)
  define w1 where "w1 = w\<lparr>w_db := d2, w_calls := Suc (w_calls w)\<rparr>"
  have s: "in_session (create_session c) w = (Inr (Inr (fresh_id (w_db w))), w\<lparr>w_db := d2\<rparr>)"
    using key d1 row by (simp add: in_session_def session_def create_session_def d2_def Let_def)
  define f :: "workflow_run \<Rightarrow> workflow_run" where "f = (\<lambda>x. x\<lparr>wf_status := W_FAILED, wf_checkpoint := Some (dict_update [] [(''stage'', JStr ''failed'')]),
     wf_last_error := Some (''Account creation dispatch failed: '' @ take 400 (exn_str err)), wf_finished_at := Some (cre_now c)\<rparr>)"
  have cp: "wf_checkpoint ?row = None" by (simp add: new_workflow_def)
  have fin: "finish_account_creation_workflow (cre_now c) (RUuid (fresh_id (w_db w))) None
      (Some (''Account creation dispatch failed: '' @ take 400 (exn_str err))) d2
      = (Inr (), set_workflow (fresh_id (w_db w)) f d2)"
    by (simp add: finish_account_creation_workflow_def session_def g cp dict_or_empty_def dict_get_def f_def)
  have "get_workflow (fresh_id (w_db w)) (set_workflow (fresh_id (w_db w)) f d2) = Some (f ?row)"
    using g row(1) by (simp add: get_workflow_def set_workflow_def find_update_where f_def)
  moreover have "create_account_command b c w = (Inl err, w1\<lparr>w_db := set_workflow (fresh_id (w_db w)) f d2\<rparr>)"
    using s assms(2) fin by (simp add: create_account_command_def dispatch_def w1_def)
  ultimately show ?thesis by (intro exI) (auto simp: w1_def f_def)
qed

definition demo_create_cmd :: create_cmd where
  "demo_create_cmd = \<lparr>cre_mode = ''B'', cre_key = ''c1'', cre_actor = ''ops'', cre_role = ''admin'', cre_now = 1\<rparr>"

lemma refused_creation_is_failed_witness:
  "\<exists>w1. create_account_command (\<lambda>i. Inl (External ''OperationalError'' ''broker'')) demo_create_cmd (demo_ac_world ACTIF)
     = (Inl (External ''OperationalError'' ''broker''), w1)"
proof -
  have 1: "\<not> workflow_keyed (cre_key demo_create_cmd) (w_db (demo_ac_world ACTIF))"
    by (simp add: workflow_keyed_def demo_create_cmd_def demo_ac_defs)
  have 2: "\<forall>x\<in>set (workflow_runs (w_db (demo_ac_world ACTIF))). wf_id x \<noteq> fresh_id (w_db (demo_ac_world ACTIF))"
    by (simp add: demo_ac_defs)
  from refused_creation_is_failed [OF 1 _ 2, of "\<lambda>i. Inl (External ''OperationalError'' ''broker'')"]
  show ?thesis by blast
qed

text \<open>
  The inspection of an account ends, but not always its workflow. With a positive polling
  interval \<open>inspect_account\<close> returns; when the provider raises or the time is up, it raises and the
  workflow stays \<open>RUNNING\<close> (no handler closes it, and the reconciliation is for \<open>account.create\<close> only).
\<close>

theorem inspect_account_ends:
  assumes "0 < browser_use_poll_interval_seconds s" and "get_workflow wid d = Some w"
  shows "\<exists>res d'. inspect_account s client started finished wid aid profile d = Some (res, d')
    \<and> (is_error res \<longrightarrow> (\<exists>x. get_workflow wid d' = Some x \<and> wf_status x = W_RUNNING))"
proof -
  let ?d1 = "set_workflow wid (\<lambda>x. x\<lparr>wf_status := W_RUNNING, wf_started_at := Some started\<rparr>) d"
  have "wf_id w = wid" using assms(2) by (auto simp: get_workflow_def dest: find_row_SomeD)
  then have d1: "\<exists>x. get_workflow wid ?d1 = Some x \<and> wf_status x = W_RUNNING"
    using assms(2) by (simp add: get_workflow_def set_workflow_def find_update_where)
  show ?thesis
  proof (cases "bu_create_task client (inspection_payload aid profile)")
    case (Inl e)
    with assms(2) d1 show ?thesis by (simp add: inspect_account_def Let_def)
  next
    case (Inr task)
    define task_id where "task_id = json_or (get_json task ''id'') (get_json task ''taskId'')"
    obtain fin u where p: "poll (inspect_turn client task_id) (browser_use_task_timeout_seconds s)
        (browser_use_poll_interval_seconds s) 0 0 () = Some (fin, u)"
      using poll_terminates [OF assms(1)] by (metis prod.exhaust)
    show ?thesis
    proof (cases fin)
      case (Broke detail)
      with assms(2) Inr p d1 show ?thesis
        by (auto simp: inspect_account_def Let_def task_id_def session_def split: option.splits)
    next
      case (Raised e)
      with assms(2) Inr p d1 show ?thesis by (simp add: inspect_account_def Let_def task_id_def)
    next
      case TimedOut
      with assms(2) Inr p d1 show ?thesis
        by (cases "bu_stop_task client task_id") (simp_all add: inspect_account_def Let_def task_id_def)
    qed
  qed
qed

definition demo_bu :: bu_client where
  "demo_bu = \<lparr>bu_create_task = (\<lambda>t. Inr [(''id'', JStr ''t1'')]), bu_task_status = (\<lambda>i t. Inr []),
     bu_task_detail = (\<lambda>t. Inr []), bu_stop_task = (\<lambda>t. Inr ())\<rparr>"

lemma inspect_account_ends_witness:
  "\<exists>res d'. inspect_account default_settings demo_bu 0 1 3 9 ''p1'' (w_db (demo_ac_world ACTIF)) = Some (res, d')"
proof -
  have 1: "0 < browser_use_poll_interval_seconds default_settings" by (simp add: default_settings_def)
  have 2: "get_workflow 3 (w_db (demo_ac_world ACTIF)) = Some demo_ac_workflow"
    by (simp add: get_workflow_def demo_ac_defs)
  from inspect_account_ends [OF 1 2] show ?thesis by blast
qed

end
