(* ===== verification/Connector_Monitor.thy ===== *)
theory Connector_Monitor
  imports Tables Formatting Config
begin

text \<open>
  \<open>app/services/connector_monitor.py\<close>: the probes of the external services and the table of their
  last results. What a probe asks (a proxy list, a SIM list, an HTTP endpoint, a ping) is a parameter
  that answers, fails with an HTTP error, or raises another exception; which exceptions a probe
  catches is as in the source. A latency is a parameter.
\<close>

section \<open>Probes\<close>

record connector_probe_result =
  pr_name :: string
  pr_status :: connector_state
  pr_configured :: bool
  pr_latency_ms :: "int option"
  pr_error_code :: "string option"
  pr_error_summary :: "string option"
  pr_details :: "(string, json) dict option"

definition plain_result :: "string \<Rightarrow> connector_state \<Rightarrow> bool \<Rightarrow> connector_probe_result" where
  "plain_result name st configured = \<lparr>pr_name = name, pr_status = st, pr_configured = configured, pr_latency_ms = None,
     pr_error_code = None, pr_error_summary = None, pr_details = None\<rparr>"

definition ok_result :: "string \<Rightarrow> int \<Rightarrow> (string, json) dict option \<Rightarrow> connector_probe_result" where
  "ok_result name latency details =
     (plain_result name CONN_OK True)\<lparr>pr_latency_ms := Some latency, pr_details := details\<rparr>"

datatype 'a call =
    CallOk 'a
  | CallHttp "nat option" exn  \<comment> \<open>\<open>httpx.HTTPError\<close>, with the status of its response if it has one\<close>
  | CallRaise exn

definition failure_state :: "nat option \<Rightarrow> connector_state" where
  "failure_state status_code =
     (if status_code \<in> {Some 401, Some 403} then CONN_MISCONFIGURED
      else if status_code = Some 429 then CONN_DEGRADED
      else CONN_DOWN)"

definition failure :: "string \<Rightarrow> bool \<Rightarrow> int \<Rightarrow> nat option \<Rightarrow> exn \<Rightarrow> connector_probe_result" where
  "failure name configured latency status_code exc =
     \<lparr>pr_name = name, pr_status = failure_state status_code, pr_configured = configured, pr_latency_ms = Some latency,
      pr_error_code = Some (case status_code of None \<Rightarrow> exn_name exc
                            | Some n \<Rightarrow> if n = 0 then exn_name exc else ''HTTP_'' @ str_nat n),
      pr_error_summary = Some (take 300 (exn_str exc)), pr_details = None\<rparr>"

definition run_probe :: "string \<Rightarrow> (exn \<Rightarrow> bool) \<Rightarrow> int \<Rightarrow> 'a call \<Rightarrow> ('a \<Rightarrow> (string, json) dict option)
    \<Rightarrow> connector_probe_result result" where
  \<comment> \<open>the \<open>try\<close> statement of a probe; \<open>caught\<close> says which other exceptions its \<open>except\<close> lists\<close>
  "run_probe name caught latency answer details =
     (case answer of
        CallOk x \<Rightarrow> Inr (ok_result name latency (details x))
      | CallHttp status_code exc \<Rightarrow> Inr (failure name True latency status_code exc)
      | CallRaise exc \<Rightarrow> if caught exc then Inr (failure name True latency None exc) else Inl exc)"

fun is_key_error :: "exn \<Rightarrow> bool" where
  "is_key_error (KeyError k) = True" | "is_key_error _ = False"

fun is_index_error :: "exn \<Rightarrow> bool" where
  "is_index_error IndexError = True" | "is_index_error _ = False"

fun is_value_error :: "exn \<Rightarrow> bool" where
  "is_value_error (ValueError m) = True" | "is_value_error _ = False"

record probe_env =
  pe_latency :: int
  pe_database :: "unit call"
  pe_redis :: "unit call"
  pe_celery :: "unit call"
  pe_sims :: "string option list call"  \<comment> \<open>the status of each SIM\<close>
  pe_iproxy :: "unit call"
  pe_mailgun :: "json call"  \<comment> \<open>the state of the domain\<close>
  pe_browser_use :: "unit call"
  pe_smsapp :: "json option call"  \<comment> \<open>the balance\<close>
  pe_sentry :: bool
  pe_validate_token :: "string \<Rightarrow> unit result"  \<comment> \<open>decrypt and \<open>apify_validate_token\<close>\<close>

definition probe_iproxy :: "settings \<Rightarrow> probe_env \<Rightarrow> connector_probe_result result" where
  "probe_iproxy s E =
     (if iproxy_api_key s = [] \<or> iproxy_connection_id s = [] \<or> iproxy_proxy_id s = []
      then Inr (plain_result ''iproxy'' CONN_DISABLED False)
      else run_probe ''iproxy'' (\<lambda>e. is_key_error e \<or> is_index_error e \<or> is_value_error e) (pe_latency E) (pe_iproxy E)
             (\<lambda>_. None))"

definition probe_smstools :: "settings \<Rightarrow> probe_env \<Rightarrow> connector_probe_result result" where
  "probe_smstools s E =
     (if smstools_api_key s = [] then Inr (plain_result ''smstools'' CONN_DISABLED False)
      else run_probe ''smstools'' (\<lambda>e. is_key_error e \<or> is_value_error e) (pe_latency E) (pe_sims E)
             (\<lambda>sims. Some [(''active_sims'', JInt (int (length (filter (\<lambda>st. st = Some ''active'') sims))))]))"

definition probe_database :: "probe_env \<Rightarrow> connector_probe_result result" where
  "probe_database E = run_probe ''database'' (\<lambda>_. True) (pe_latency E) (pe_database E) (\<lambda>_. None)"

definition probe_redis :: "probe_env \<Rightarrow> connector_probe_result result" where
  "probe_redis E = run_probe ''redis'' (\<lambda>_. True) (pe_latency E) (pe_redis E) (\<lambda>_. None)"

definition probe_celery :: "probe_env \<Rightarrow> connector_probe_result result" where
  "probe_celery E = run_probe ''celery'' (\<lambda>_. True) (pe_latency E) (pe_celery E) (\<lambda>_. None)"

definition probe_browser_use :: "settings \<Rightarrow> probe_env \<Rightarrow> connector_probe_result result" where
  "probe_browser_use s E =
     (if browser_use_api_key s = [] then Inr (plain_result ''browser_use'' CONN_DISABLED False)
      else run_probe ''browser_use'' (\<lambda>_. False) (pe_latency E) (pe_browser_use E) (\<lambda>_. None))"

definition probe_mailgun :: "settings \<Rightarrow> probe_env \<Rightarrow> connector_probe_result result" where
  "probe_mailgun s E =
     (if mailgun_api_key s = [] \<or> mailgun_domain s = [] then Inr (plain_result ''mailgun'' CONN_DISABLED False)
      else run_probe ''mailgun'' is_value_error (pe_latency E) (pe_mailgun E) (\<lambda>st. Some [(''domain_state'', st)]))"

definition probe_smsapp :: "settings \<Rightarrow> probe_env \<Rightarrow> connector_probe_result result" where
  "probe_smsapp s E =
     (if smsapp_api_token s = [] then Inr (plain_result ''smsapp'' CONN_DISABLED False)
      else run_probe ''smsapp'' is_value_error (pe_latency E) (pe_smsapp E)
             (\<lambda>b. Some (case b of None \<Rightarrow> [] | Some x \<Rightarrow> [(''balance'', x)])))"

section \<open>Apify accounts\<close>

definition summarize_apify_accounts :: "string list \<Rightarrow> int option \<Rightarrow> connector_probe_result" where
  "summarize_apify_accounts states latency =
     (let total = length states; healthy = length (filter (\<lambda>s. s = ''active'') states); failed = total - healthy in
      \<lparr>pr_name = ''apify'',
       pr_status = (if total = 0 then CONN_DISABLED else if failed \<noteq> 0 then CONN_DEGRADED else CONN_OK),
       pr_configured = (total > 0), pr_latency_ms = latency,
       pr_error_code = (if failed \<noteq> 0 then Some ''ACCOUNT_PROBE_FAILURE'' else None),
       pr_error_summary = (if failed \<noteq> 0 then Some (str_nat failed @ '' compte(s) Apify en echec'') else None),
       pr_details = Some [(''accounts'', JInt (int total)), (''healthy'', JInt (int healthy)), (''failed'', JInt (int failed))]\<rparr>)"

definition read_apify_connector_status :: "db \<Rightarrow> connector_probe_result" where
  "read_apify_connector_status d = summarize_apify_accounts (map aa_status (apify_accounts d)) None"

definition probe_apify_row :: "probe_env \<Rightarrow> datetime \<Rightarrow> apify_account \<Rightarrow> apify_account" where
  "probe_apify_row E now a =
     (case pe_validate_token E (aa_token_ciphertext a) of
        Inl e \<Rightarrow> a\<lparr>aa_status := ''invalid'', aa_last_error := Some (exn_name e), aa_last_checked_at := Some now\<rparr>
      | Inr _ \<Rightarrow> a\<lparr>aa_status := ''active'', aa_last_error := None, aa_last_checked_at := Some now\<rparr>)"

definition probe_apify_accounts :: "probe_env \<Rightarrow> datetime \<Rightarrow> db \<Rightarrow> connector_probe_result \<times> db" where
  "probe_apify_accounts E now d =
     (let active = (\<lambda>a. aa_status a = ''active'') in
      if filter active (apify_accounts d) = []
      then (summarize_apify_accounts (map aa_status (apify_accounts d)) None, d)
      else
       (let rows = update_where active (probe_apify_row E now) (apify_accounts d) in
        (summarize_apify_accounts (map aa_status rows) (Some (pe_latency E)), d\<lparr>apify_accounts := rows\<rparr>)))"

section \<open>All probes\<close>

definition probe_configuration_states :: "settings \<Rightarrow> probe_env \<Rightarrow> connector_probe_result list result" where
  "probe_configuration_states s E =
     (case probe_smsapp s E of
        Inl e \<Rightarrow> Inl e
      | Inr smsapp \<Rightarrow> Inr
         [smsapp,
          plain_result ''sentry'' (if pe_sentry E then CONN_OK else CONN_DISABLED) (pe_sentry E),
          plain_result ''camoufox'' (if camoufox_enabled s then CONN_UNVERIFIED else CONN_DISABLED) (camoufox_enabled s),
          plain_result ''obscura'' (if obscura_enabled s then CONN_UNVERIFIED else CONN_DISABLED) (obscura_enabled s)])"

fun gather :: "'a result list \<Rightarrow> 'a list result" where
  \<comment> \<open>\<open>asyncio.gather\<close>: all results in order, or an exception\<close>
  "gather [] = Inr []"
| "gather (Inl e # rs) = Inl e"
| "gather (Inr x # rs) = map_sum id (\<lambda>xs. x # xs) (gather rs)"

definition collect_connector_probes :: "settings \<Rightarrow> probe_env \<Rightarrow> db \<Rightarrow> connector_probe_result list result" where
  "collect_connector_probes s E d =
     (case gather [probe_database E, probe_redis E, probe_celery E, probe_smstools s E, probe_iproxy s E,
                   probe_mailgun s E, probe_browser_use s E, Inr (read_apify_connector_status d)] of
        Inl e \<Rightarrow> Inl e
      | Inr live \<Rightarrow> map_sum id (\<lambda>states. live @ states) (probe_configuration_states s E))"

definition probe_connector :: "settings \<Rightarrow> probe_env \<Rightarrow> datetime \<Rightarrow> string \<Rightarrow> db
    \<Rightarrow> connector_probe_result result \<times> db" where
  "probe_connector s E now name d =
     (if name = ''database'' then (probe_database E, d)
      else if name = ''redis'' then (probe_redis E, d)
      else if name = ''celery'' then (probe_celery E, d)
      else if name = ''smstools'' then (probe_smstools s E, d)
      else if name = ''iproxy'' then (probe_iproxy s E, d)
      else if name = ''mailgun'' then (probe_mailgun s E, d)
      else if name = ''browser_use'' then (probe_browser_use s E, d)
      else if name = ''apify'' then (case probe_apify_accounts E now d of (r, d') \<Rightarrow> (Inr r, d'))
      else
        (case probe_configuration_states s E of
           Inl e \<Rightarrow> (Inl e, d)
         | Inr states \<Rightarrow>
             (case find_row (\<lambda>r. pr_name r = name) (rev states) of
                Some r \<Rightarrow> (Inr r, d)
              | None \<Rightarrow> (Inl (ValueError ''Unsupported connector''), d))))"

section \<open>The table of results\<close>

definition status_row :: "datetime \<Rightarrow> connector_probe_result \<Rightarrow> datetime option \<Rightarrow> connector_status" where
  "status_row now r last_success =
     \<lparr>cs_name = pr_name r, cs_status = pr_status r, cs_configured = pr_configured r, cs_latency_ms = pr_latency_ms r,
      cs_last_success_at = (if pr_status r = CONN_OK then Some now else last_success), cs_last_checked_at = now,
      cs_error_code = pr_error_code r, cs_error_summary = pr_error_summary r, cs_details = pr_details r\<rparr>"

definition upsert_status :: "datetime \<Rightarrow> connector_probe_result \<Rightarrow> connector_status list \<Rightarrow> connector_status list" where
  \<comment> \<open>\<open>INSERT ... ON CONFLICT (name) DO UPDATE\<close>; a failure keeps the old \<open>last_success_at\<close>\<close>
  "upsert_status now r t =
     (if pr_name r \<in> cs_name ` set t
      then update_where (\<lambda>c. cs_name c = pr_name r) (\<lambda>c. status_row now r (cs_last_success_at c)) t
      else t @ [status_row now r None])"

definition refresh_connector_statuses :: "settings \<Rightarrow> probe_env \<Rightarrow> datetime \<Rightarrow> db
    \<Rightarrow> connector_probe_result list result \<times> db" where
  "refresh_connector_statuses s E now d =
     (case collect_connector_probes s E d of
        Inl e \<Rightarrow> (Inl e, d)
      | Inr results \<Rightarrow> (Inr results, d\<lparr>connector_status := fold (upsert_status now) results (connector_status d)\<rparr>))"

section \<open>Lemmas\<close>

lemma status_row_name [simp]: "cs_name (status_row now r l) = pr_name r"
  by (simp add: status_row_def)

lemma update_status_names:
  "map cs_name (update_where (\<lambda>c. cs_name c = pr_name r) (\<lambda>c. status_row now r (cs_last_success_at c)) t) = map cs_name t"
  by (simp add: update_where_def)

lemma upsert_names: "map cs_name (upsert_status now r t) =
    (if pr_name r \<in> cs_name ` set t then map cs_name t else map cs_name t @ [pr_name r])"
  by (simp add: upsert_status_def update_status_names)

lemma upsert_distinct: "distinct (map cs_name t) \<Longrightarrow> distinct (map cs_name (upsert_status now r t))"
  by (simp add: upsert_names)

definition status_of :: "string \<Rightarrow> connector_status list \<Rightarrow> connector_status option" where
  "status_of name t = find_row (\<lambda>c. cs_name c = name) t"

lemma status_of_upsert:
  "status_of name (upsert_status now r t) =
     (if name = pr_name r
      then Some (status_row now r (case status_of name t of None \<Rightarrow> None | Some c \<Rightarrow> cs_last_success_at c))
      else status_of name t)"
proof (cases "pr_name r \<in> cs_name ` set t")
  case True
  have "find_row (\<lambda>c. cs_name c = name) (update_where (\<lambda>c. cs_name c = pr_name r) (\<lambda>c. status_row now r (cs_last_success_at c)) t)
      = map_option (\<lambda>c. if cs_name c = pr_name r then status_row now r (cs_last_success_at c) else c)
          (find_row (\<lambda>c. cs_name c = name) t)"
    by (induction t) auto
  moreover obtain c where "find_row (\<lambda>c. cs_name c = pr_name r) t = Some c"
    using True find_row_exists by (metis (mono_tags, lifting) imageE)
  ultimately show ?thesis
    using True by (auto simp: status_of_def upsert_status_def option.map_ident dest: find_row_SomeD split: option.splits
        intro!: option.expand)
next
  case False
  then have "find_row (\<lambda>c. cs_name c = pr_name r) t = None" by (auto simp: find_row_None_iff image_iff)
  with False show ?thesis
    by (auto simp: status_of_def upsert_status_def find_row_append split: option.splits)
qed

lemma status_of_fold_other:
  "name \<notin> pr_name ` set rs \<Longrightarrow> status_of name (fold (upsert_status now) rs t) = status_of name t"
  by (induction rs arbitrary: t) (auto simp: status_of_upsert)

lemma status_of_fold:
  assumes "distinct (map pr_name rs)" "r \<in> set rs"
  shows "status_of (pr_name r) (fold (upsert_status now) rs t) =
    Some (status_row now r (case status_of (pr_name r) t of None \<Rightarrow> None | Some c \<Rightarrow> cs_last_success_at c))"
  using assms
proof (induction rs arbitrary: t)
  case Nil
  then show ?case by simp
next
  case (Cons x rs)
  show ?case
  proof (cases "x = r")
    case True
    with Cons.prems have "pr_name r \<notin> pr_name ` set rs" by auto
    with True show ?thesis by (simp add: status_of_fold_other status_of_upsert)
  next
    case False
    with Cons.prems have "r \<in> set rs" "pr_name r \<noteq> pr_name x" by (auto simp: image_iff)
    with Cons show ?thesis by (simp add: status_of_upsert)
  qed
qed

lemma fold_upsert_distinct: "distinct (map cs_name t) \<Longrightarrow> distinct (map cs_name (fold (upsert_status now) rs t))"
  by (induction rs arbitrary: t) (auto simp: upsert_distinct)

lemma run_probe_name: "run_probe n c l a dt = Inr r \<Longrightarrow> pr_name r = n"
  by (auto simp: run_probe_def ok_result_def plain_result_def failure_def split: call.splits if_splits)

lemmas probe_defs = probe_database_def probe_redis_def probe_celery_def probe_smstools_def probe_iproxy_def
  probe_mailgun_def probe_browser_use_def probe_smsapp_def

lemma probe_names:
  "probe_database E = Inr r \<Longrightarrow> pr_name r = ''database''" "probe_redis E = Inr r \<Longrightarrow> pr_name r = ''redis''"
  "probe_celery E = Inr r \<Longrightarrow> pr_name r = ''celery''" "probe_smstools s E = Inr r \<Longrightarrow> pr_name r = ''smstools''"
  "probe_iproxy s E = Inr r \<Longrightarrow> pr_name r = ''iproxy''" "probe_mailgun s E = Inr r \<Longrightarrow> pr_name r = ''mailgun''"
  "probe_browser_use s E = Inr r \<Longrightarrow> pr_name r = ''browser_use''" "probe_smsapp s E = Inr r \<Longrightarrow> pr_name r = ''smsapp''"
  by (auto simp: probe_defs plain_result_def dest: run_probe_name split: if_splits)

lemma gather_InrD: "gather rs = Inr xs \<Longrightarrow> list_all2 (\<lambda>r x. r = Inr x) rs xs"
proof (induction rs arbitrary: xs)
  case Nil
  then show ?case by simp
next
  case (Cons r rs)
  then show ?case by (cases r; cases "gather rs") auto
qed

definition connector_names :: "string list" where
  "connector_names = [''database'', ''redis'', ''celery'', ''smstools'', ''iproxy'', ''mailgun'', ''browser_use'', ''apify'',
     ''smsapp'', ''sentry'', ''camoufox'', ''obscura'']"

lemma collect_names: "collect_connector_probes s E d = Inr rs \<Longrightarrow> map pr_name rs = connector_names"
  by (auto simp: collect_connector_probes_def probe_configuration_states_def connector_names_def probe_names
      read_apify_connector_status_def summarize_apify_accounts_def plain_result_def Let_def list_all2_Cons1
      dest!: gather_InrD split: sum.splits)

section \<open>Properties\<close>

text \<open>
  A refresh is one upsert per connector. When \<open>refresh_connector_statuses\<close> returns, it has probed
  the twelve connectors once each; every one has exactly one row, with the state just probed; its last
  success is now if the probe was \<open>ok\<close> and otherwise what it was before (so a failure never erases the
  last success); and the names in the table stay distinct.
\<close>

theorem refresh_upserts_connectors:
  assumes "distinct (map cs_name (connector_status d))" and "refresh_connector_statuses s E now d = (Inr rs, d')"
  shows "map pr_name rs = connector_names \<and> distinct (map cs_name (connector_status d'))
    \<and> (\<forall>r\<in>set rs. \<exists>c. status_of (pr_name r) (connector_status d') = Some c \<and> cs_status c = pr_status r
         \<and> cs_last_checked_at c = now
         \<and> cs_last_success_at c = (if pr_status r = CONN_OK then Some now
              else (case status_of (pr_name r) (connector_status d) of None \<Rightarrow> None | Some old \<Rightarrow> cs_last_success_at old)))"
proof -
  from assms(2) have c: "collect_connector_probes s E d = Inr rs"
    and d': "connector_status d' = fold (upsert_status now) rs (connector_status d)"
    by (auto simp: refresh_connector_statuses_def split: sum.splits)
  have names: "map pr_name rs = connector_names" using c by (rule collect_names)
  moreover have "distinct connector_names" by (simp add: connector_names_def)
  ultimately show ?thesis
    using assms(1) by (auto simp: d' fold_upsert_distinct status_of_fold status_row_def)
qed

definition demo_probe_env :: probe_env where
  "demo_probe_env = \<lparr>pe_latency = 3, pe_database = CallOk (), pe_redis = CallRaise (TimeoutError []), pe_celery = CallOk (),
     pe_sims = CallOk [], pe_iproxy = CallOk (), pe_mailgun = CallOk JNull, pe_browser_use = CallOk (), pe_smsapp = CallOk None,
     pe_sentry = False, pe_validate_token = (\<lambda>c. Inr ())\<rparr>"

lemma refresh_upserts_connectors_witness:
  "\<exists>rs d'. refresh_connector_statuses default_settings demo_probe_env 7 empty_db = (Inr rs, d') \<and> map pr_name rs = connector_names"
proof -
  have "\<not> is_error (fst (refresh_connector_statuses default_settings demo_probe_env 7 empty_db))" by code_simp
  then obtain rs where r: "refresh_connector_statuses default_settings demo_probe_env 7 empty_db
      = (Inr rs, snd (refresh_connector_statuses default_settings demo_probe_env 7 empty_db))"
    by (metis not_is_error_iff prod.collapse)
  have "distinct (map cs_name (connector_status empty_db))" by (simp add: empty_db_def)
  from refresh_upserts_connectors [OF this r] r show ?thesis by blast
qed

text \<open>
  A transient error disables an Apify account for good. The probe validates only accounts that are
  \<open>active\<close>, and marks an account \<open>invalid\<close> whatever the exception (a timeout as much as a refused
  token): after one failed validation, no later probe looks at the account again, even if its token is
  accepted.
\<close>

theorem invalid_apify_account_stays:
  assumes "a \<in> set (apify_accounts d)" "aa_status a = ''active''" "pe_validate_token E (aa_token_ciphertext a) = Inl e"
  shows "\<exists>a'\<in>set (apify_accounts (snd (probe_apify_accounts E now d))). aa_id a' = aa_id a \<and> aa_status a' = ''invalid''
    \<and> (\<forall>es. a' \<in> set (apify_accounts (fold (\<lambda>(E', t) d. snd (probe_apify_accounts E' t d)) es (snd (probe_apify_accounts E now d)))))"
proof -
  have keep: "x \<in> set (apify_accounts (snd (probe_apify_accounts E' t d')))"
    if "x \<in> set (apify_accounts d')" "aa_status x = ''invalid''" for x E' t d'
    using that by (auto simp: probe_apify_accounts_def Let_def set_update_where image_iff)
  have kept: "x \<in> set (apify_accounts (fold (\<lambda>(E', t) d. snd (probe_apify_accounts E' t d)) es d'))"
    if "x \<in> set (apify_accounts d')" "aa_status x = ''invalid''" for x es d'
    using that by (induction es arbitrary: d') (auto simp: keep)
  let ?a = "probe_apify_row E now a"
  have a: "?a \<in> set (apify_accounts (snd (probe_apify_accounts E now d)))"
    using assms(1,2) by (auto simp: probe_apify_accounts_def Let_def set_update_where image_iff filter_empty_conv intro!: bexI [of _ a])
  have st: "aa_status ?a = ''invalid''" "aa_id ?a = aa_id a" using assms(3) by (simp_all add: probe_apify_row_def)
  from a st kept [OF a st(1)] show ?thesis by blast
qed

definition demo_apify_account :: apify_account where
  "demo_apify_account = \<lparr>aa_id = 1, aa_workspace_id = 1, aa_label = ''main'', aa_apify_user_id = ''u'', aa_username = ''u'',
     aa_token_ciphertext = ''c'', aa_token_fingerprint = ''f'', aa_webhook_secret_ciphertext = ''w'',
     aa_webhook_secret_hash = ''h'', aa_status = ''active'', aa_last_checked_at = None, aa_last_error = None,
     aa_created_at = 0, aa_updated_at = 0\<rparr>"

lemma invalid_apify_account_stays_witness:
  "\<exists>a'\<in>set (apify_accounts (snd (probe_apify_accounts demo_probe_env 2
      (snd (probe_apify_accounts (demo_probe_env\<lparr>pe_validate_token := (\<lambda>c. Inl (TimeoutError []))\<rparr>) 1
         (empty_db\<lparr>apify_accounts := [demo_apify_account]\<rparr>)))))). aa_status a' = ''invalid''"
proof -
  let ?d = "empty_db\<lparr>apify_accounts := [demo_apify_account]\<rparr>"
  let ?E = "demo_probe_env\<lparr>pe_validate_token := (\<lambda>c. Inl (TimeoutError []))\<rparr>"
  have "demo_apify_account \<in> set (apify_accounts ?d)" "aa_status demo_apify_account = ''active''"
    "pe_validate_token ?E (aa_token_ciphertext demo_apify_account) = Inl (TimeoutError [])"
    by (simp_all add: demo_apify_account_def)
  from invalid_apify_account_stays [OF this, of 1] obtain a' where
    "aa_status a' = ''invalid''" and
    all: "\<And>es. a' \<in> set (apify_accounts (fold (\<lambda>(E', t) d. snd (probe_apify_accounts E' t d)) es (snd (probe_apify_accounts ?E 1 ?d))))"
    by blast
  with all [of "[(demo_probe_env, 2)]"] show ?thesis by auto
qed

end
