(* ===== verification/Operator_Runs.thy ===== *)
theory Operator_Runs
  imports Account_Control Connector_Monitor
begin

text \<open>
  The remaining commands of the control tower: \<open>operations.py\<close> (connectors), \<open>analyzer_control.py\<close>
  (analysis of a listing), \<open>experimental_lab.py\<close> (isolated browser engines) and
  \<open>browser_use_workflows.py\<close> (Browser Use Cloud tasks). Each one records a workflow and an audit event
  under an idempotency key, then runs or dispatches.
\<close>

section \<open>Connector commands (operations.py)\<close>

record connector_cmd =
  con_connector :: string
  con_action :: string
  con_key :: string
  con_actor :: string
  con_role :: string
  con_now :: datetime

record connector_response =
  cn_command :: uuid
  cn_status :: string
  cn_connector :: string
  cn_action :: string
  cn_detail :: "(string, json) dict"

definition optional_json :: "('a \<Rightarrow> json) \<Rightarrow> 'a option \<Rightarrow> json" where
  "optional_json f x = (case x of None \<Rightarrow> JNull | Some v \<Rightarrow> f v)"

definition dump_probe :: "connector_probe_result \<Rightarrow> (string, json) dict" where
  "dump_probe r =
     [(''name'', JStr (pr_name r)), (''status'', JStr (connector_state_value (pr_status r))),
      (''configured'', JBool (pr_configured r)), (''latency_ms'', optional_json JInt (pr_latency_ms r)),
      (''error_code'', optional_json JStr (pr_error_code r)), (''error_summary'', optional_json JStr (pr_error_summary r)),
      (''details'', optional_json JObj (pr_details r))]"

definition response_from_workflow :: "workflow_run \<Rightarrow> string \<Rightarrow> string \<Rightarrow> connector_response" where
  "response_from_workflow w connector action = \<lparr>cn_command = wf_id w,
     cn_status = lower (workflow_status_value (wf_status w)), cn_connector = connector, cn_action = action,
     cn_detail = dict_or_empty (wf_checkpoint w)\<rparr>"

definition connector_type :: "connector_cmd \<Rightarrow> string" where
  "connector_type c = ''connector.'' @ con_connector c @ ''.'' @ con_action c"

definition connector_session :: "connector_cmd \<Rightarrow> db \<Rightarrow> exn + ((connector_response + uuid) \<times> db)" where
  "connector_session c d =
     (case workflow_by_key (con_key c) d of
        Some w \<Rightarrow> Inr (Inl (response_from_workflow w (con_connector c) (con_action c)), d)
      | None \<Rightarrow>
          (case add_workflow ((new_workflow (con_now c) d (con_key c) (connector_type c) ''connector''
                   (RText (con_connector c)) (con_actor c))\<lparr>wf_status := W_RUNNING, wf_started_at := Some (con_now c)\<rparr>) d of
             Inl e \<Rightarrow> Inl e
           | Inr d1 \<Rightarrow>
               Inr (Inr (fresh_id d),
                    add_audit (con_now c) (con_actor c) (con_role c) (connector_type c) ''connector'' (RText (con_connector c))
                      (con_key c) [(''action'', JStr (con_action c))] ''running'' (Some (fresh_id d)) d1)))"

definition run_connector_action :: "settings \<Rightarrow> probe_env \<Rightarrow> bool result \<Rightarrow> datetime \<Rightarrow> string \<Rightarrow> string \<Rightarrow> db
    \<Rightarrow> (string, json) dict result \<times> db" where
  \<comment> \<open>\<open>rotated\<close> is the answer of \<open>boundaries.rotate_4g_ip()\<close>\<close>
  "run_connector_action s E rotated now connector action d =
     (if action = ''probe'' then
        (case probe_connector s E now connector d of (r, d') \<Rightarrow> (map_sum id dump_probe r, d'))
      else if connector = ''iproxy'' \<and> action = ''rotate_ip'' then
        (map_sum id (\<lambda>b. [(''rotated'', JBool b)]) rotated, d)
      else (Inl (ValueError ''Unsupported command''), d))"

definition finish_command :: "datetime \<Rightarrow> uuid \<Rightarrow> workflow_status \<Rightarrow> (string, json) dict \<Rightarrow> string option \<Rightarrow> db \<Rightarrow> db" where
  "finish_command now wid status detail error d =
     (set_workflow wid (\<lambda>w. w\<lparr>wf_status := status, wf_checkpoint := Some detail, wf_last_error := error,
                              wf_finished_at := Some now\<rparr>) d)
       \<lparr>audit_events := update_where (\<lambda>a. ae_workflow_run_id a = Some wid)
          (\<lambda>a. a\<lparr>ae_result_status := lower (workflow_status_value status)\<rparr>) (audit_events d)\<rparr>"

definition execute_connector_command :: "settings \<Rightarrow> probe_env \<Rightarrow> bool result \<Rightarrow> connector_cmd \<Rightarrow> db
    \<Rightarrow> connector_response result \<times> db" where
  "execute_connector_command s E rotated c d =
     (case session (connector_session c) d of
        (Inl e, d1) \<Rightarrow> (Inl e, d1)
      | (Inr (Inl response), d1) \<Rightarrow> (Inr response, d1)
      | (Inr (Inr wid), d1) \<Rightarrow>
          (case run_connector_action s E rotated (con_now c) (con_connector c) (con_action c) d1 of
             (Inl e, d2) \<Rightarrow>
               (Inl e, finish_command (con_now c) wid W_FAILED [(''error'', JStr (exn_name e))] (Some (take 500 (exn_str e))) d2)
           | (Inr detail, d2) \<Rightarrow>
               (Inr \<lparr>cn_command = wid, cn_status = ''completed'', cn_connector = con_connector c, cn_action = con_action c,
                     cn_detail = detail\<rparr>,
                finish_command (con_now c) wid W_COMPLETED detail None d2)))"

section \<open>Analysis of a listing (analyzer_control.py)\<close>

record target_cmd =
  tc_target :: uuid
  tc_key :: string
  tc_actor :: string
  tc_role :: string
  tc_now :: datetime

definition analysis_session :: "target_cmd \<Rightarrow> db \<Rightarrow> exn + ((workflow_run + uuid) \<times> db)" where
  "analysis_session c d =
     (case workflow_by_key (tc_key c) d of
        Some w \<Rightarrow> Inr (Inl w, d)
      | None \<Rightarrow>
          if find_row (\<lambda>l. li_id l = tc_target c) (listings d) = None then Inl (LookupError ''Listing not found'')
          else
           (case add_workflow ((new_workflow (tc_now c) d (tc_key c) ''analyzer.listing'' ''listing'' (RUuid (tc_target c))
                    (tc_actor c))\<lparr>wf_progress_total := Some 1, wf_batch_size := Some 1\<rparr>) d of
              Inl e \<Rightarrow> Inl e
            | Inr d1 \<Rightarrow>
                Inr (Inr (fresh_id d),
                     add_audit (tc_now c) (tc_actor c) (tc_role c) ''analyzer.listing.queue'' ''listing'' (RUuid (tc_target c))
                       (tc_key c) [] ''queued'' (Some (fresh_id d)) d1)))"

definition queue_listing_analysis :: "broker \<Rightarrow> target_cmd \<Rightarrow> world \<Rightarrow> workflow_run result \<times> world" where
  "queue_listing_analysis b c w =
     (case in_session (analysis_session c) w of
        (Inl e, w1) \<Rightarrow> (Inl e, w1)
      | (Inr (Inl view), w1) \<Rightarrow> (Inr view, w1)
      | (Inr (Inr wid), w1) \<Rightarrow>
          (case dispatch b (''analyze_batch_task'', [JList [JStr (str_uuid (tc_target c))]]) w1 of
             (Inl e, w2) \<Rightarrow> (Inl e, w2)
           | (Inr tid, w2) \<Rightarrow>
               (let w3 = on_db (set_task_id wid tid) w2 in
                ((case get_workflow wid (w_db w3) of None \<Rightarrow> Inl AttributeError | Some v \<Rightarrow> Inr v), w3))))"

section \<open>Experimental lab (experimental_lab.py)\<close>

record lab_cmd =
  lb_engine :: string
  lb_target_url :: string
  lb_key :: string
  lb_actor :: string
  lb_role :: string
  lb_now :: datetime

definition check_lab :: "settings \<Rightarrow> string \<Rightarrow> unit result" where
  "check_lab s engine =
     (if lab_api_token s = [] then Inl (ValueError ''Experimental lab is not configured'')
      else if engine = ''camoufox'' \<and> \<not> camoufox_enabled s then Inl (ValueError ''Camoufox is disabled'')
      else if engine = ''obscura'' \<and> \<not> obscura_enabled s then Inl (ValueError ''Obscura is disabled'')
      else if engine = ''both'' \<and> \<not> (camoufox_enabled s \<and> obscura_enabled s)
      then Inl (ValueError ''Both experimental engines must be enabled'')
      else Inr ())"

definition get_lab_run :: "uuid \<Rightarrow> db \<Rightarrow> workflow_run result" where
  "get_lab_run wid d =
     (case get_workflow wid d of
        None \<Rightarrow> Inl (LookupError ''Lab run not found'')
      | Some w \<Rightarrow> if wf_workflow_type w \<noteq> ''experimental.lab'' then Inl (LookupError ''Lab run not found'') else Inr w)"

definition lab_session :: "lab_cmd \<Rightarrow> db \<Rightarrow> exn + ((workflow_run + uuid) \<times> db)" where
  "lab_session c d =
     (case workflow_by_key (lb_key c) d of
        Some w \<Rightarrow> Inr (Inl w, d)
      | None \<Rightarrow>
          (case add_workflow ((new_workflow (lb_now c) d (lb_key c) ''experimental.lab'' ''url'' (RText (lb_target_url c))
                   (lb_actor c))\<lparr>wf_checkpoint := Some [(''engine'', JStr (lb_engine c))]\<rparr>) d of
             Inl e \<Rightarrow> Inl e
           | Inr d1 \<Rightarrow>
               Inr (Inr (fresh_id d),
                    add_audit (lb_now c) (lb_actor c) (lb_role c) ''experimental.lab.start'' ''url'' (RText (lb_target_url c))
                      (lb_key c) [(''engine'', JStr (lb_engine c))] ''queued'' (Some (fresh_id d)) d1)))"

definition create_lab_run :: "settings \<Rightarrow> broker \<Rightarrow> lab_cmd \<Rightarrow> world \<Rightarrow> workflow_run result \<times> world" where
  "create_lab_run s b c w =
     (case check_lab s (lb_engine c) of
        Inl e \<Rightarrow> (Inl e, w)
      | Inr _ \<Rightarrow>
     (case in_session (lab_session c) w of
        (Inl e, w1) \<Rightarrow> (Inl e, w1)
      | (Inr (Inl view), w1) \<Rightarrow> (Inr view, w1)
      | (Inr (Inr wid), w1) \<Rightarrow>
          (case dispatch b (''run_experimental_lab_task'',
                  [JStr (str_uuid wid), JStr (lb_engine c), JStr (lb_target_url c)]) w1 of
             (Inl e, w2) \<Rightarrow>
               (Inl e, on_db (set_workflow wid (\<lambda>x. x\<lparr>wf_status := W_FAILED, wf_last_error := Some (take 500 (exn_str e)),
                                                    wf_finished_at := Some (lb_now c)\<rparr>)) w2)
           | (Inr tid, w2) \<Rightarrow>
               (let w3 = on_db (set_task_id wid tid) w2 in (get_lab_run wid (w_db w3), w3)))))"

definition execute_lab_run :: "(string \<Rightarrow> string \<Rightarrow> string \<Rightarrow> json result) \<Rightarrow> datetime \<Rightarrow> datetime \<Rightarrow> uuid \<Rightarrow> string \<Rightarrow> string
    \<Rightarrow> db \<Rightarrow> json result \<times> db" where
  \<comment> \<open>\<open>post endpoint engine url\<close> is the lab service\<close>
  "execute_lab_run post started finished wid engine url d =
     (if get_workflow wid d = None then (Inl AttributeError, d)
      else
       (let d1 = set_workflow wid (\<lambda>x. x\<lparr>wf_status := W_RUNNING, wf_started_at := Some started\<rparr>) d in
        case post (if engine = ''both'' then ''compare'' else ''diagnostics'')
               (if engine = ''both'' then ''camoufox'' else engine) url of
          Inl e \<Rightarrow> (Inl e, set_workflow wid (\<lambda>x. x\<lparr>wf_status := W_FAILED, wf_last_error := Some (take 500 (exn_str e)),
                                                  wf_finished_at := Some finished\<rparr>) d1)
        | Inr result \<Rightarrow> (Inr result, set_workflow wid (\<lambda>x. x\<lparr>wf_status := W_COMPLETED,
                            wf_checkpoint := Some [(''engine'', JStr engine), (''result'', result)],
                            wf_finished_at := Some finished\<rparr>) d1)))"

definition cancel_lab_run :: "datetime \<Rightarrow> uuid \<Rightarrow> world \<Rightarrow> workflow_run result \<times> world" where
  "cancel_lab_run now wid w =
     (case get_lab_run wid (w_db w) of
        Inl e \<Rightarrow> (Inl e, w)
      | Inr run \<Rightarrow>
          (let w1 = (case wf_celery_task_id run of None \<Rightarrow> w
                     | Some t \<Rightarrow> if t = [] then w else w\<lparr>w_revoked := w_revoked w @ [(t, True)]\<rparr>);
               w2 = on_db (set_workflow wid (\<lambda>x. x\<lparr>wf_status := W_CANCELLED, wf_finished_at := Some now\<rparr>)) w1 in
           (get_lab_run wid (w_db w2), w2)))"

section \<open>Browser Use Cloud (browser_use_workflows.py)\<close>

definition lbc_domains :: "string list" where
  "lbc_domains = [''leboncoin.fr'', ''www.leboncoin.fr'']"

definition browser_use_templates :: "(string \<times> string \<times> string list) list" where
  \<comment> \<open>the templates with their prompts and allowed domains; 0x27 is the apostrophe\<close>
  "browser_use_templates =
     [(''listing_diagnostic'', ''Ouvre l'' @ [CHR 0x27] @ ''URL d'' @ [CHR 0x27] @
         ''annonce fournie et retourne son etat, son titre et les blocages visibles.'', lbc_domains),
      (''listing_enrichment'', ''Analyse l'' @ [CHR 0x27] @
         ''annonce fournie et retourne les criteres techniques explicitement visibles.'', lbc_domains),
      (''messaging_assist'', ''Ouvre la conversation indiquee et prepare le message sans l'' @ [CHR 0x27] @ ''envoyer.'',
         lbc_domains),
      (''account_diagnostic'', ''Controle l'' @ [CHR 0x27] @
         ''etat de la session du compte et retourne les actions requises sans modification.'', lbc_domains)]"

definition scheme_char :: "char \<Rightarrow> bool" where
  "scheme_char c = (let n = code_point c in (97 \<le> n \<and> n \<le> 122) \<or> (65 \<le> n \<and> n \<le> 90) \<or> (48 \<le> n \<and> n \<le> 57) \<or> n \<in> {43, 45, 46})"

definition drop_scheme :: "string \<Rightarrow> string" where
  "drop_scheme u =
     (case split_once CHR '':'' u of
        (scheme, Some rest) \<Rightarrow>
          if scheme \<noteq> [] \<and> \<not> is_digit (hd scheme) \<and> code_point (hd scheme) \<notin> {43, 45, 46} \<and> (\<forall>c\<in>set scheme. scheme_char c)
          then rest else u
      | (_, None) \<Rightarrow> u)"

definition url_host :: "string \<Rightarrow> string" where
  \<comment> \<open>\<open>urlparse(u).hostname or ""\<close>, lower case\<close>
  "url_host u =
     (let v = drop_scheme (filter (\<lambda>c. code_point c \<notin> {9, 10, 13}) (dropWhile (\<lambda>c. code_point c \<le> 32) u)) in
      if prefix ''//'' v then
        (let netloc = takeWhile (\<lambda>c. c \<notin> {CHR ''/'', CHR ''?'', CHR ''#''}) (drop 2 v);
             host = rev (takeWhile (\<lambda>c. c \<noteq> CHR ''@'') (rev netloc)) in
         lower (if prefix ''['' host then takeWhile (\<lambda>c. c \<noteq> CHR '']'') (drop 1 host)
                else takeWhile (\<lambda>c. c \<noteq> CHR '':'') host))
      else [])"

record browse_cmd =
  bc_template :: string
  bc_target_url :: string
  bc_key :: string
  bc_actor :: string
  bc_role :: string
  bc_prompt :: "string option"
  bc_now :: datetime

definition check_browse :: "settings \<Rightarrow> browse_cmd \<Rightarrow> unit result" where
  "check_browse s c =
     (if browser_use_api_key s = [] then Inl (ValueError ''Browser Use Cloud is not configured'')
      else case map_of browser_use_templates (bc_template c) of
        None \<Rightarrow> Inl (ValueError ''Unknown Browser Use template'')
      | Some (prompt, allowed) \<Rightarrow>
          if url_host (bc_target_url c) \<notin> set allowed then Inl (ValueError ''Target domain is not allowed for this template'')
          else if bc_prompt c \<notin> {None, Some []} \<and> bc_role c \<noteq> ''admin''
          then Inl (PermissionError ''Custom Browser Use tasks require the admin role'')
          else Inr ())"

record browse_created =
  bt_workflow :: uuid
  bt_status :: workflow_status
  bt_template :: string

definition browse_session :: "browse_cmd \<Rightarrow> db \<Rightarrow> exn + ((browse_created + uuid) \<times> db)" where
  "browse_session c d =
     (case workflow_by_key (bc_key c) d of
        Some w \<Rightarrow> Inr (Inl \<lparr>bt_workflow = wf_id w, bt_status = wf_status w, bt_template = bc_template c\<rparr>, d)
      | None \<Rightarrow>
          (case add_workflow ((new_workflow (bc_now c) d (bc_key c) ''browser_use.task'' ''url'' (RText (bc_target_url c))
                   (bc_actor c))\<lparr>wf_checkpoint := Some [(''template_id'', JStr (bc_template c))]\<rparr>) d of
             Inl e \<Rightarrow> Inl e
           | Inr d1 \<Rightarrow>
               Inr (Inr (fresh_id d),
                    add_audit (bc_now c) (bc_actor c) (bc_role c) ''browser_use.task.create'' ''url'' (RText (bc_target_url c))
                      (bc_key c) [(''template_id'', JStr (bc_template c)), (''custom'', JBool (bc_prompt c \<notin> {None, Some []}))]
                      ''queued'' (Some (fresh_id d)) d1)))"

definition create_browser_use_workflow :: "settings \<Rightarrow> broker \<Rightarrow> browse_cmd \<Rightarrow> world \<Rightarrow> browse_created result \<times> world" where
  "create_browser_use_workflow s b c w =
     (case check_browse s c of
        Inl e \<Rightarrow> (Inl e, w)
      | Inr _ \<Rightarrow>
     (case in_session (browse_session c) w of
        (Inl e, w1) \<Rightarrow> (Inl e, w1)
      | (Inr (Inl created), w1) \<Rightarrow> (Inr created, w1)
      | (Inr (Inr wid), w1) \<Rightarrow>
          (case dispatch b (''run_browser_use_task'',
                  [JStr (str_uuid wid), JStr (bc_template c), JStr (bc_target_url c), optional_text (bc_prompt c)]) w1 of
             (Inl e, w2) \<Rightarrow>
               (Inl e, on_db (set_workflow wid (\<lambda>x. x\<lparr>wf_status := W_FAILED, wf_last_error := Some (take 500 (exn_str e)),
                                                    wf_finished_at := Some (bc_now c)\<rparr>)) w2)
           | (Inr tid, w2) \<Rightarrow>
               (Inr \<lparr>bt_workflow = wid, bt_status = W_PENDING, bt_template = bc_template c\<rparr>, on_db (set_task_id wid tid) w2))))"

definition json_list :: "json \<Rightarrow> json list" where
  \<comment> \<open>\<open>value or []\<close> where the value is a list\<close>
  "json_list j = (case j of JList xs \<Rightarrow> xs | _ \<Rightarrow> [])"

definition safe_task_detail :: "(string, json) dict \<Rightarrow> (string, json) dict" where
  "safe_task_detail detail =
     (let get = get_json detail; steps = json_list (get ''steps'') in
      [(''provider_status'', get ''status''), (''output'', get ''output''), (''is_success'', get ''isSuccess''),
       (''output_files'', json_or (get ''outputFiles'') (JList [])), (''steps'', JList steps),
       (''live_url'', json_or (get ''liveUrl'') (get ''liveURL'')),
       (''duration_seconds'', json_or (get ''duration'') (get ''durationSeconds'')),
       (''screenshots'', JList (concat (map (\<lambda>st. case st of
           JObj kv \<Rightarrow> (let shot = json_or (get_json kv ''screenshotUrl'') (get_json kv ''screenshot'') in
                      if json_truthy shot then [shot] else [])
         | _ \<Rightarrow> []) steps)))])"

fun json_number :: "json \<Rightarrow> rat option" where
  \<comment> \<open>\<open>isinstance(value, (int, float))\<close>; a \<open>bool\<close> is an \<open>int\<close>\<close>
  "json_number (JInt i) = Some (of_int i)"
| "json_number (JFloat q) = Some q"
| "json_number (JBool b) = Some (if b then 1 else 0)"
| "json_number _ = None"

type_synonym checkpoint = "(string, json) dict"

definition browse_turn :: "settings \<Rightarrow> bu_client \<Rightarrow> uuid \<Rightarrow> json \<Rightarrow> nat \<Rightarrow> checkpoint \<times> db \<Rightarrow> unit verdict \<times> (checkpoint \<times> db)" where
  "browse_turn s client wid task_id i cd =
     (case cd of (cp, d) \<Rightarrow>
        (case bu_task_status client i task_id of
           Inl e \<Rightarrow> (Raise e, (cp, d))
         | Inr status \<Rightarrow>
             (let cp' = dict_update cp [(''provider_status'', get_json status ''status''), (''cost'', get_json status ''cost''),
                                        (''output'', get_json status ''output'')];
                  d' = set_workflow wid (\<lambda>x. x\<lparr>wf_checkpoint := Some cp'\<rparr>) d;
                  too_dear = (case json_number (get_json status ''cost'') of None \<Rightarrow> False
                              | Some q \<Rightarrow> q > browser_use_task_cost_limit s) in
              if too_dear then
                (case bu_stop_task client task_id of
                   Inl e \<Rightarrow> (Raise e, (cp', d'))
                 | Inr _ \<Rightarrow> (Raise (RuntimeError ''Browser Use task cost limit exceeded''), (cp', d')))
              else if get_json status ''status'' \<in> {JStr ''finished'', JStr ''stopped''} then (Break (), (cp', d'))
              else (Again, (cp', d')))))"

definition browse_payload :: "uuid \<Rightarrow> string \<Rightarrow> string \<Rightarrow> string \<Rightarrow> string list \<Rightarrow> (string, json) dict" where
  "browse_payload wid template url prompt allowed = create_task_payload
     (prompt @ [CHR 0x0A] @ ''URL cible: '' @ url)
     [(''workflow_id'', JStr (str_uuid wid)), (''template'', JStr template)] allowed []"

definition browse_task :: "settings \<Rightarrow> bu_client \<Rightarrow> datetime \<Rightarrow> uuid \<Rightarrow> string \<Rightarrow> string \<Rightarrow> string \<Rightarrow> string list \<Rightarrow> db
    \<Rightarrow> (checkpoint result \<times> db) option" where
  \<comment> \<open>\<open>_execute_browser_use_task\<close>\<close>
  "browse_task s client finished wid template url prompt allowed d =
     (case bu_create_task client (browse_payload wid template url prompt allowed) of
        Inl e \<Rightarrow> Some (Inl e, d)
      | Inr task \<Rightarrow>
         (let task_id = json_or (get_json task ''id'') (get_json task ''taskId'');
              cp = [(''template_id'', JStr template), (''provider_task_id'', task_id), (''session_id'', get_json task ''sessionId'')];
              d1 = set_workflow wid (\<lambda>x. x\<lparr>wf_checkpoint := Some cp\<rparr>) d in
          case poll (browse_turn s client wid task_id) (browser_use_task_timeout_seconds s)
                 (browser_use_poll_interval_seconds s) 0 0 (cp, d1) of
            None \<Rightarrow> None
          | Some (Raised e, (_, d2)) \<Rightarrow> Some (Inl e, d2)
          | Some (TimedOut, (_, d2)) \<Rightarrow>
              (case bu_stop_task client task_id of
                 Inl e \<Rightarrow> Some (Inl e, d2)
               | Inr _ \<Rightarrow> Some (Inl (TimeoutError ''Browser Use task timed out''), d2))
          | Some (Broke _, (cp2, d2)) \<Rightarrow>
              (case bu_task_detail client task_id of
                 Inl e \<Rightarrow> Some (Inl e, d2)
               | Inr detail \<Rightarrow>
                   (let cp3 = dict_update cp2 (safe_task_detail detail);
                        final = (if get_json detail ''status'' = JStr ''finished'' \<and> get_json detail ''isSuccess'' \<noteq> JBool False
                                 then W_COMPLETED else W_CANCELLED) in
                    Some (Inr cp3, set_workflow wid (\<lambda>x. x\<lparr>wf_status := final, wf_checkpoint := Some cp3,
                                                         wf_finished_at := Some finished\<rparr>) d2)))))"

definition execute_browser_use_workflow :: "settings \<Rightarrow> bu_client \<Rightarrow> datetime \<Rightarrow> datetime \<Rightarrow> uuid \<Rightarrow> string \<Rightarrow> string
    \<Rightarrow> string option \<Rightarrow> db \<Rightarrow> (checkpoint result \<times> db) option" where
  "execute_browser_use_workflow s client started finished wid template url custom d =
     (case map_of browser_use_templates template of
        None \<Rightarrow> Some (Inl (KeyError template), d)
      | Some (standard, allowed) \<Rightarrow>
         (let prompt = (case custom of None \<Rightarrow> standard | Some p \<Rightarrow> if p = [] then standard else p) in
          case browse_task s client finished wid template url prompt allowed
                 (set_workflow wid (\<lambda>x. x\<lparr>wf_status := W_RUNNING, wf_started_at := Some started\<rparr>) d) of
            None \<Rightarrow> None
          | Some (Inr cp, d1) \<Rightarrow> Some (Inr cp, d1)
          | Some (Inl e, d1) \<Rightarrow>
              Some (Inl e, set_workflow wid (\<lambda>x. x\<lparr>wf_status := W_FAILED, wf_last_error := Some (take 500 (exn_str e)),
                                                 wf_finished_at := Some finished\<rparr>) d1)))"

definition stop_browser_use_workflow :: "bu_client \<Rightarrow> datetime \<Rightarrow> uuid \<Rightarrow> db \<Rightarrow> workflow_run result \<times> db" where
  "stop_browser_use_workflow client now wid d =
     (case get_workflow wid d of
        None \<Rightarrow> (Inl (ValueError ''Browser Use workflow not found''), d)
      | Some w \<Rightarrow>
          if wf_workflow_type w \<noteq> ''browser_use.task'' then (Inl (ValueError ''Browser Use workflow not found''), d)
          else
           (let p = get_json (dict_or_empty (wf_checkpoint w)) ''provider_task_id'' in
            case (if json_truthy p then bu_stop_task client p else Inr ()) of
              Inl e \<Rightarrow> (Inl e, d)
            | Inr _ \<Rightarrow>
               (let d1 = set_workflow wid (\<lambda>x. x\<lparr>wf_status := W_CANCELLED, wf_finished_at := Some now\<rparr>) d in
                ((case get_workflow wid d1 of None \<Rightarrow> Inl AttributeError | Some v \<Rightarrow> Inr v), d1))))"

section \<open>The shared protocol\<close>

text \<open>
  The three dispatching commands guard, run one session that returns the row of a known key or the
  id of a new one, and go on with the new row. \<open>keyed_run\<close> is that protocol over the workflow keys;
  every instance is an \<open>idempotent_command\<close>.
\<close>

locale keyed_run =
  fixes key :: "'c \<Rightarrow> string" and guard :: "'c \<Rightarrow> unit result"
    and block :: "'c \<Rightarrow> db \<Rightarrow> exn + (('r + uuid) \<times> db)"
    and cont :: "'c \<Rightarrow> uuid \<Rightarrow> world \<Rightarrow> 'r result \<times> world"
    and exec :: "'c \<Rightarrow> world \<Rightarrow> 'r result \<times> world"
  assumes exec_eq: "exec c w = (case guard c of Inl e \<Rightarrow> (Inl e, w)
      | Inr _ \<Rightarrow> (case in_session (block c) w of
            (Inl e, w1) \<Rightarrow> (Inl e, w1)
          | (Inr (Inl v), w1) \<Rightarrow> (Inr v, w1)
          | (Inr (Inr wid), w1) \<Rightarrow> cont c wid w1))"
    and block_dup: "workflow_keyed (key c) d \<Longrightarrow> \<exists>v. block c d = Inr (Inl v, d)"
    and block_seen: "block c d = Inr (x, d') \<Longrightarrow> workflow_keyed (key c) d'"
    and block_keeps: "block c d = Inr (x, d') \<Longrightarrow> workflow_keyed k d \<Longrightarrow> workflow_keyed k d'"
    and cont_keeps: "workflow_keyed k (w_db w) \<Longrightarrow> workflow_keyed k (w_db (snd (cont c wid w)))"
begin

lemma exec_cases:
  obtains (refused) e where "exec c w = (Inl e, w)"
  | (known) v d' where "guard c = Inr ()" "block c (w_db w) = Inr (Inl v, d')" "exec c w = (Inr v, w\<lparr>w_db := d'\<rparr>)"
  | (fresh) wid d' where "guard c = Inr ()" "block c (w_db w) = Inr (Inr wid, d')" "exec c w = cont c wid (w\<lparr>w_db := d'\<rparr>)"
proof (cases "guard c")
  case (Inl e)
  then have "exec c w = (Inl e, w)" by (simp add: exec_eq)
  then show ?thesis by (rule refused)
next
  case (Inr u)
  show ?thesis
  proof (cases "block c (w_db w)")
    case (Inl e)
    with Inr have "exec c w = (Inl e, w)" by (simp add: exec_eq in_session_def session_def)
    then show ?thesis by (rule refused)
  next
    case (Inr p)
    obtain x d' where p: "p = (x, d')" by fastforce
    show ?thesis
    proof (cases x)
      case (Inl v)
      with Inr p \<open>guard c = Inr u\<close> show ?thesis
        by (intro known [of v d']) (simp_all add: exec_eq in_session_def session_def)
    next
      case (Inr wid)
      with \<open>block c (w_db w) = Inr p\<close> p \<open>guard c = Inr u\<close> show ?thesis
        by (intro fresh [of wid d']) (simp_all add: exec_eq in_session_def session_def)
    qed
  qed
qed

lemma exec_seen_noop: "workflow_keyed (key c) (w_db w) \<Longrightarrow> snd (exec c w) = w"
  using block_dup [of c "w_db w"] by (cases rule: exec_cases [of c w]) auto

lemma exec_success_seen: "exec c w = (Inr r, w') \<Longrightarrow> workflow_keyed (key c) (w_db w')"
proof (cases rule: exec_cases [of c w])
  case (fresh wid d')
  assume r: "exec c w = (Inr r, w')"
  have "w' = snd (cont c wid (w\<lparr>w_db := d'\<rparr>))" using fresh r by (metis snd_conv)
  with fresh cont_keeps [of "key c" "w\<lparr>w_db := d'\<rparr>" c wid] block_seen [of c "w_db w"] show ?thesis by simp
qed (use block_seen in auto)

lemma exec_seen_kept: "workflow_keyed k (w_db w) \<Longrightarrow> workflow_keyed k (w_db (snd (exec c w)))"
proof (cases rule: exec_cases [of c w])
  case (fresh wid d')
  assume "workflow_keyed k (w_db w)"
  with fresh cont_keeps [of k "w\<lparr>w_db := d'\<rparr>" c wid] block_keeps [of c "w_db w" "Inr wid" d' k] show ?thesis by simp
qed (use block_keeps in auto)

end

sublocale keyed_run \<subseteq> idempotent_command "\<lambda>k w. workflow_keyed k (w_db w)" key exec
  by unfold_locales (auto intro: exec_seen_noop exec_success_seen exec_seen_kept)

text \<open>What every creating session of these commands does to the keys.\<close>

lemma workflow_keyed_add_workflow:
  "add_workflow row d = Inr d' \<Longrightarrow> workflow_keyed k d' \<longleftrightarrow> k = wf_idempotency_key row \<or> workflow_keyed k d"
  by (auto simp: add_workflow_Inr workflow_keyed_def)

lemma workflow_keyed_add_audit [simp]:
  "workflow_keyed k (add_audit now actor role action ttype target k' summary rstatus wid d) = workflow_keyed k d"
  by (simp add: workflow_keyed_def)

lemma new_workflow_sel [simp]:
  "wf_idempotency_key (new_workflow now d k wtype ttype target actor) = k"
  "wf_id (new_workflow now d k wtype ttype target actor) = fresh_id d"
  "wf_status (new_workflow now d k wtype ttype target actor) = W_PENDING"
  "wf_workflow_type (new_workflow now d k wtype ttype target actor) = wtype"
  "wf_target_id (new_workflow now d k wtype ttype target actor) = Some target"
  by (simp_all add: new_workflow_def)

lemma browse_session_keys:
  assumes "browse_session c d = Inr (x, d')"
  shows "workflow_keyed k d' \<longleftrightarrow> k = bc_key c \<or> workflow_keyed k d"
  using assms workflow_by_key_Some [of "bc_key c" d]
  by (auto simp: browse_session_def workflow_keyed_add_workflow split: option.splits sum.splits)

lemma lab_session_keys:
  assumes "lab_session c d = Inr (x, d')"
  shows "workflow_keyed k d' \<longleftrightarrow> k = lb_key c \<or> workflow_keyed k d"
  using assms workflow_by_key_Some [of "lb_key c" d]
  by (auto simp: lab_session_def workflow_keyed_add_workflow split: option.splits sum.splits)

lemma analysis_session_keys:
  assumes "analysis_session c d = Inr (x, d')"
  shows "workflow_keyed k d' \<longleftrightarrow> k = tc_key c \<or> workflow_keyed k d"
  using assms workflow_by_key_Some [of "tc_key c" d]
  by (auto simp: analysis_session_def workflow_keyed_add_workflow split: option.splits sum.splits if_splits)

definition queue_row :: "broker \<Rightarrow> datetime \<Rightarrow> celery_task \<Rightarrow> uuid \<Rightarrow> world \<Rightarrow> unit result \<times> world" where
  \<comment> \<open>dispatch a task for a new row: the row gets the task id, or is closed as \<open>FAILED\<close>\<close>
  "queue_row b now task wid w =
     (case dispatch b task w of
        (Inl e, w2) \<Rightarrow>
          (Inl e, on_db (set_workflow wid (\<lambda>x. x\<lparr>wf_status := W_FAILED, wf_last_error := Some (take 500 (exn_str e)),
                                               wf_finished_at := Some now\<rparr>)) w2)
      | (Inr tid, w2) \<Rightarrow> (Inr (), on_db (set_task_id wid tid) w2))"

lemma dispatch_dbD: "dispatch b t w = (r, w') \<Longrightarrow> w_db w' = w_db w"
  using dispatch_db [of b t w] by simp

lemma queue_row_keys [simp]: "workflow_keyed k (w_db (snd (queue_row b now task wid w))) = workflow_keyed k (w_db w)"
proof -
  obtain r w2 where d: "dispatch b task w = (r, w2)" by fastforce
  then have "w_db w2 = w_db w" using dispatch_db [of b task w] by simp
  with d show ?thesis by (cases r) (simp_all add: queue_row_def on_db_def)
qed

lemma queue_row_keysD: "queue_row b now task wid w = (r, w') \<Longrightarrow> workflow_keyed k (w_db w') = workflow_keyed k (w_db w)"
  using queue_row_keys [of k b now task wid w] by simp

definition browse_continue :: "broker \<Rightarrow> browse_cmd \<Rightarrow> uuid \<Rightarrow> world \<Rightarrow> browse_created result \<times> world" where
  "browse_continue b c wid w =
     map_prod (map_sum id (\<lambda>_. \<lparr>bt_workflow = wid, bt_status = W_PENDING, bt_template = bc_template c\<rparr>)) id
       (queue_row b (bc_now c) (''run_browser_use_task'',
          [JStr (str_uuid wid), JStr (bc_template c), JStr (bc_target_url c), optional_text (bc_prompt c)]) wid w)"

definition lab_continue :: "broker \<Rightarrow> lab_cmd \<Rightarrow> uuid \<Rightarrow> world \<Rightarrow> workflow_run result \<times> world" where
  "lab_continue b c wid w =
     (case queue_row b (lb_now c) (''run_experimental_lab_task'',
          [JStr (str_uuid wid), JStr (lb_engine c), JStr (lb_target_url c)]) wid w of
        (Inl e, w') \<Rightarrow> (Inl e, w')
      | (Inr _, w') \<Rightarrow> (get_lab_run wid (w_db w'), w'))"

definition analysis_continue :: "broker \<Rightarrow> target_cmd \<Rightarrow> uuid \<Rightarrow> world \<Rightarrow> workflow_run result \<times> world" where
  "analysis_continue b c wid w =
     (case dispatch b (''analyze_batch_task'', [JList [JStr (str_uuid (tc_target c))]]) w of
        (Inl e, w2) \<Rightarrow> (Inl e, w2)
      | (Inr tid, w2) \<Rightarrow>
          (let w3 = on_db (set_task_id wid tid) w2 in
           ((case get_workflow wid (w_db w3) of None \<Rightarrow> Inl AttributeError | Some v \<Rightarrow> Inr v), w3)))"

interpretation browse_command: keyed_run bc_key "check_browse s" browse_session "browse_continue b"
  "create_browser_use_workflow s b" for s b
proof
  fix c :: browse_cmd and w
  show "create_browser_use_workflow s b c w = (case check_browse s c of Inl e \<Rightarrow> (Inl e, w)
      | Inr _ \<Rightarrow> (case in_session (browse_session c) w of
            (Inl e, w1) \<Rightarrow> (Inl e, w1)
          | (Inr (Inl v), w1) \<Rightarrow> (Inr v, w1)
          | (Inr (Inr wid), w1) \<Rightarrow> browse_continue b c wid w1))"
    by (simp add: create_browser_use_workflow_def browse_continue_def queue_row_def split: sum.split prod.split)
next
  fix c :: browse_cmd and d
  assume "workflow_keyed (bc_key c) d"
  then show "\<exists>v. browse_session c d = Inr (Inl v, d)" by (auto simp: browse_session_def workflow_by_key_Some)
next
  fix k wid and c :: browse_cmd and w :: world
  assume "workflow_keyed k (w_db w)"
  then show "workflow_keyed k (w_db (snd (browse_continue b c wid w)))" by (simp add: browse_continue_def)
qed (simp_all add: browse_session_keys)

interpretation lab_command: keyed_run lb_key "\<lambda>c. check_lab s (lb_engine c)" lab_session "lab_continue b" "create_lab_run s b"
  for s b
proof
  fix c :: lab_cmd and w
  show "create_lab_run s b c w = (case check_lab s (lb_engine c) of Inl e \<Rightarrow> (Inl e, w)
      | Inr _ \<Rightarrow> (case in_session (lab_session c) w of
            (Inl e, w1) \<Rightarrow> (Inl e, w1)
          | (Inr (Inl v), w1) \<Rightarrow> (Inr v, w1)
          | (Inr (Inr wid), w1) \<Rightarrow> lab_continue b c wid w1))"
    by (simp add: create_lab_run_def lab_continue_def queue_row_def Let_def split: sum.split prod.split)
next
  fix c :: lab_cmd and d
  assume "workflow_keyed (lb_key c) d"
  then show "\<exists>v. lab_session c d = Inr (Inl v, d)" by (auto simp: lab_session_def workflow_by_key_Some)
next
  fix k wid and c :: lab_cmd and w :: world
  assume "workflow_keyed k (w_db w)"
  then show "workflow_keyed k (w_db (snd (lab_continue b c wid w)))"
    by (auto simp: lab_continue_def queue_row_keysD split: prod.split sum.split)
qed (simp_all add: lab_session_keys)

interpretation analysis_command: keyed_run tc_key "\<lambda>c. Inr ()" analysis_session "analysis_continue b" "queue_listing_analysis b"
  for b
proof
  fix c :: target_cmd and w
  show "queue_listing_analysis b c w = (case Inr () of Inl e \<Rightarrow> (Inl e, w)
      | Inr _ \<Rightarrow> (case in_session (analysis_session c) w of
            (Inl e, w1) \<Rightarrow> (Inl e, w1)
          | (Inr (Inl v), w1) \<Rightarrow> (Inr v, w1)
          | (Inr (Inr wid), w1) \<Rightarrow> analysis_continue b c wid w1))"
    by (simp add: queue_listing_analysis_def analysis_continue_def Let_def split: sum.split prod.split)
next
  fix c :: target_cmd and d
  assume "workflow_keyed (tc_key c) d"
  then show "\<exists>v. analysis_session c d = Inr (Inl v, d)" by (auto simp: analysis_session_def workflow_by_key_Some)
next
  fix k wid and c :: target_cmd and w :: world
  assume "workflow_keyed k (w_db w)"
  then show "workflow_keyed k (w_db (snd (analysis_continue b c wid w)))"
    by (auto simp: analysis_continue_def Let_def on_db_def dispatch_dbD split: prod.split sum.split)
qed (simp_all add: analysis_session_keys)

section \<open>Properties\<close>

datatype operator_cmd = Browse browse_cmd | Lab lab_cmd | Analyse target_cmd

fun operator_key :: "operator_cmd \<Rightarrow> string" where
  "operator_key (Browse c) = bc_key c"
| "operator_key (Lab c) = lb_key c"
| "operator_key (Analyse c) = tc_key c"

fun operator_step :: "settings \<Rightarrow> broker \<Rightarrow> operator_cmd \<Rightarrow> world \<Rightarrow> unit result \<times> world" where
  "operator_step s b (Browse c) w = map_prod (map_sum id (\<lambda>_. ())) id (create_browser_use_workflow s b c w)"
| "operator_step s b (Lab c) w = map_prod (map_sum id (\<lambda>_. ())) id (create_lab_run s b c w)"
| "operator_step s b (Analyse c) w = map_prod (map_sum id (\<lambda>_. ())) id (queue_listing_analysis b c w)"

lemma map_result_Inr: "map_prod (map_sum id (\<lambda>_. ())) id p = (Inr r, w) \<Longrightarrow> \<exists>x. p = (Inr x, w)"
  by (cases p; cases "fst p") auto

interpretation operator_command: idempotent_command "\<lambda>k w. workflow_keyed k (w_db w)" operator_key "operator_step s b" for s b
proof
  fix c and w :: world
  assume "workflow_keyed (operator_key c) (w_db w)"
  then show "snd (operator_step s b c w) = w"
    by (cases c) (simp_all add: browse_command.exec_seen_noop lab_command.exec_seen_noop analysis_command.exec_seen_noop)
next
  fix c and w :: world and r w'
  assume "operator_step s b c w = (Inr r, w')"
  then show "workflow_keyed (operator_key c) (w_db w')"
    by (cases c) (auto dest!: map_result_Inr
        intro: browse_command.exec_success_seen lab_command.exec_success_seen analysis_command.exec_success_seen)
next
  fix k c and w :: world
  assume "workflow_keyed k (w_db w)"
  then show "workflow_keyed k (w_db (snd (operator_step s b c w)))"
    by (cases c) (simp_all add: browse_command.exec_seen_kept lab_command.exec_seen_kept analysis_command.exec_seen_kept)
qed

definition demo_browse :: "string \<Rightarrow> string option \<Rightarrow> browse_cmd" where
  "demo_browse url prompt = \<lparr>bc_template = ''listing_diagnostic'', bc_target_url = url, bc_key = ''b1'', bc_actor = ''ops'',
     bc_role = ''operator'', bc_prompt = prompt, bc_now = 5\<rparr>"

definition demo_lab :: lab_cmd where
  "demo_lab = \<lparr>lb_engine = ''camoufox'', lb_target_url = ''https://leboncoin.fr'', lb_key = ''b1'', lb_actor = ''ops'',
     lb_role = ''admin'', lb_now = 6\<rparr>"

definition demo_bu_settings :: settings where
  "demo_bu_settings = default_settings\<lparr>browser_use_api_key := ''key'', lab_api_token := ''t'', camoufox_enabled := True\<rparr>"

definition demo_op_world :: world where
  "demo_op_world = \<lparr>w_db = empty_db\<lparr>fresh_id := 10\<rparr>, w_calls = 0, w_queue = [], w_revoked = []\<rparr>"

text \<open>
  C23. One idempotency key, one run. In any interleaving of Browser Use tasks, lab runs and listing
  analyses, a command that succeeded makes every later command with the same key, of any of the
  three kinds, leave the database and the task queue as they are.
\<close>

theorem operator_runs_idempotent:
  assumes "operator_step s b c w = (Inr (), w1)" and "operator_key c' = operator_key c"
    and "w2 = fold (\<lambda>c w. snd (operator_step s b c w)) cs w1"
  shows "snd (operator_step s b c' w2) = w2"
  using operator_command.retry_noop [OF assms(1,2), of cs] assms(3) by (simp add: operator_command.run_def)

lemma operator_runs_idempotent_witness:
  "\<exists>w. w_queue w \<noteq> [] \<and> snd (operator_step demo_bu_settings demo_ac_broker (Lab demo_lab) w) = w"
proof -
  let ?c = "Browse (demo_browse ''https://www.leboncoin.fr/ad/1'' None)"
  have 1: "\<not> is_error (fst (operator_step demo_bu_settings demo_ac_broker ?c demo_op_world))
      \<and> w_queue (snd (operator_step demo_bu_settings demo_ac_broker ?c demo_op_world)) \<noteq> []" by code_simp
  then have "operator_step demo_bu_settings demo_ac_broker ?c demo_op_world
      = (Inr (), snd (operator_step demo_bu_settings demo_ac_broker ?c demo_op_world))"
    by (cases "operator_step demo_bu_settings demo_ac_broker ?c demo_op_world"; cases "fst (operator_step demo_bu_settings demo_ac_broker ?c demo_op_world)") auto
  from operator_runs_idempotent [OF this, of "Lab demo_lab" _ "[]"] 1 show ?thesis
    by (auto simp: demo_browse_def demo_lab_def)
qed

text \<open>
  What a Browser Use task can reach. A command that puts a task on the queue was configured, names
  a known template and a URL whose host is one of the two Leboncoin domains, and has a prompt of its
  own only if the role is \<open>admin\<close>; and the payload the worker then sends for this URL and template
  restricts the agent to exactly these domains.
\<close>

theorem browser_use_tasks_confined:
  assumes "w_queue (snd (create_browser_use_workflow s b c w)) \<noteq> w_queue w"
  shows "\<exists>standard. map_of browser_use_templates (bc_template c) = Some (standard, lbc_domains)
    \<and> browser_use_api_key s \<noteq> []
    \<and> url_host (bc_target_url c) \<in> {''leboncoin.fr'', ''www.leboncoin.fr''}
    \<and> (bc_prompt c \<in> {None, Some []} \<or> bc_role c = ''admin'')
    \<and> w_queue (snd (create_browser_use_workflow s b c w)) = w_queue w @
        [(''run_browser_use_task'', [JStr (str_uuid (fresh_id (w_db w))), JStr (bc_template c), JStr (bc_target_url c),
            optional_text (bc_prompt c)])]
    \<and> dict_get (browse_payload wid (bc_template c) (bc_target_url c) prompt lbc_domains) ''allowedDomains''
        = Some (JList [JStr ''leboncoin.fr'', JStr ''www.leboncoin.fr''])"
proof -
  have domains: "snd v = lbc_domains" if "map_of browser_use_templates t = Some v" for t v
    using that by (auto simp: browser_use_templates_def split: if_splits)
  from assms show ?thesis
  proof (cases rule: browse_command.exec_cases [of s b c w])
    case (fresh wid d')
    have wid: "wid = fresh_id (w_db w)"
      using fresh(2) by (auto simp: browse_session_def split: option.splits sum.splits)
    obtain standard where t: "map_of browser_use_templates (bc_template c) = Some (standard, lbc_domains)"
      and h: "browser_use_api_key s \<noteq> []" "url_host (bc_target_url c) \<in> set lbc_domains"
        "bc_prompt c \<in> {None, Some []} \<or> bc_role c = ''admin''"
      using fresh(1) domains by (fastforce simp: check_browse_def split: if_splits option.splits prod.splits)
    have "w_queue (snd (browse_continue b c wid (w\<lparr>w_db := d'\<rparr>))) = w_queue w @
        [(''run_browser_use_task'', [JStr (str_uuid (fresh_id (w_db w))), JStr (bc_template c), JStr (bc_target_url c),
            optional_text (bc_prompt c)])]"
      using assms fresh(3) wid
      by (auto simp: browse_continue_def queue_row_def dispatch_def on_db_def split: sum.splits)
    with t h fresh(3) show ?thesis
      by (simp add: lbc_domains_def browse_payload_def create_task_payload_def dict_get_def)
  qed auto
qed

lemma browser_use_tasks_confined_witness:
  "url_host ''https://www.leboncoin.fr/ad/1'' \<in> {''leboncoin.fr'', ''www.leboncoin.fr''}"
proof -
  have "w_queue (snd (create_browser_use_workflow demo_bu_settings demo_ac_broker
      (demo_browse ''https://www.leboncoin.fr/ad/1'' None) demo_op_world)) \<noteq> w_queue demo_op_world" by code_simp
  from browser_use_tasks_confined [OF this] show ?thesis by (simp add: demo_browse_def)
qed

text \<open>What a run of a Browser Use task keeps: its row stays, and the other rows are as they were.\<close>

definition own_row_only :: "uuid \<Rightarrow> db \<Rightarrow> db \<Rightarrow> bool" where
  "own_row_only wid d d' \<longleftrightarrow> (\<exists>y. get_workflow wid d' = Some y)
     \<and> filter (\<lambda>w. wf_id w \<noteq> wid) (workflow_runs d') = filter (\<lambda>w. wf_id w \<noteq> wid) (workflow_runs d)"

lemma get_set_workflow:
  assumes "get_workflow wid d = Some y" "\<And>x. wf_id (f x) = wf_id x"
  shows "get_workflow wid (set_workflow wid f d) = Some (f y)"
proof -
  have "wf_id y = wid" using assms(1) by (auto simp: get_workflow_def dest: find_row_SomeD)
  with assms show ?thesis by (simp add: get_workflow_def set_workflow_def find_update_where)
qed

lemma own_row_only_set:
  assumes "own_row_only wid d d'" "\<And>x. wf_id (f x) = wf_id x"
  shows "own_row_only wid d (set_workflow wid f d')"
proof -
  have "filter (\<lambda>w. wf_id w \<noteq> wid) (update_where (\<lambda>w. wf_id w = wid) f rows) = filter (\<lambda>w. wf_id w \<noteq> wid) rows" for rows
    by (induction rows) (auto simp: assms(2))
  with assms show ?thesis
    unfolding own_row_only_def using get_set_workflow [of wid d' _ f, OF _ assms(2)]
    by (auto simp: set_workflow_def)
qed

lemma browse_turn_keeps:
  "own_row_only wid d (snd cd) \<Longrightarrow> own_row_only wid d (snd (snd (browse_turn s client wid task_id i cd)))"
  by (cases cd) (auto simp: browse_turn_def Let_def own_row_only_set split: sum.splits)

lemma browse_turn_Break_cost:
  assumes "browse_turn s client wid task_id i cd = (Break u, (cp, d'))" and "json_number (get_json cp ''cost'') = Some q"
  shows "q \<le> browser_use_task_cost_limit s"
proof (cases "bu_task_status client i task_id")
  case (Inl e)
  with assms(1) show ?thesis by (cases cd) (simp add: browse_turn_def)
next
  case (Inr status)
  obtain cp0 d0 where cd: "cd = (cp0, d0)" by fastforce
  have cp: "cp = dict_update cp0 [(''provider_status'', get_json status ''status''), (''cost'', get_json status ''cost''),
                                (''output'', get_json status ''output'')]"
    and cheap: "\<not> (case json_number (get_json status ''cost'') of None \<Rightarrow> False | Some q \<Rightarrow> q > browser_use_task_cost_limit s)"
    using assms(1) Inr cd unfolding browse_turn_def Let_def by (simp_all split: if_splits sum.splits)
  have "get_json cp ''cost'' = get_json status ''cost''"
    unfolding cp get_json_def [of "dict_update _ _"] by (simp add: dict_update_def)
  with cheap assms(2) show ?thesis by simp
qed

text \<open>
  A Browser Use run ends in a final state. With a positive polling interval the run returns; its
  workflow is then \<open>FAILED\<close> exactly when it raised, with the message, and otherwise \<open>COMPLETED\<close> or
  \<open>CANCELLED\<close> with the returned checkpoint, whose cost is within the limit; no other workflow changes.
\<close>

theorem browser_use_run_ends:
  assumes "0 < browser_use_poll_interval_seconds s" and "get_workflow wid d = Some x"
    and "map_of browser_use_templates template = Some v"
  shows "\<exists>res d' y. execute_browser_use_workflow s client started finished wid template url custom d = Some (res, d')
    \<and> get_workflow wid d' = Some y
    \<and> (case res of
         Inl e \<Rightarrow> wf_status y = W_FAILED \<and> wf_last_error y = Some (take 500 (exn_str e))
       | Inr cp \<Rightarrow> wf_status y \<in> {W_COMPLETED, W_CANCELLED} \<and> wf_checkpoint y = Some cp
           \<and> (\<forall>q. json_number (get_json cp ''cost'') = Some q \<longrightarrow> q \<le> browser_use_task_cost_limit s))
    \<and> filter (\<lambda>w. wf_id w \<noteq> wid) (workflow_runs d') = filter (\<lambda>w. wf_id w \<noteq> wid) (workflow_runs d)"
proof -
  obtain standard allowed where v: "v = (standard, allowed)" by fastforce
  define prompt where "prompt = (case custom of None \<Rightarrow> standard | Some p \<Rightarrow> if p = [] then standard else p)"
  define f :: "workflow_run \<Rightarrow> workflow_run" where "f = (\<lambda>x. x\<lparr>wf_status := W_RUNNING, wf_started_at := Some started\<rparr>)"
  define g :: "exn \<Rightarrow> workflow_run \<Rightarrow> workflow_run" where
    "g = (\<lambda>e x. x\<lparr>wf_status := W_FAILED, wf_last_error := Some (take 500 (exn_str e)), wf_finished_at := Some finished\<rparr>)"
  have own: "own_row_only wid d (set_workflow wid f d)"
    using assms(2) by (intro own_row_only_set) (simp_all add: own_row_only_def f_def)
  have finish: ?thesis if "execute_browser_use_workflow s client started finished wid template url custom d = Some (res, d')"
    "get_workflow wid d' = Some y" "own_row_only wid d d'"
    "case res of Inl e \<Rightarrow> wf_status y = W_FAILED \<and> wf_last_error y = Some (take 500 (exn_str e))
       | Inr cp \<Rightarrow> wf_status y \<in> {W_COMPLETED, W_CANCELLED} \<and> wf_checkpoint y = Some cp
           \<and> (\<forall>q. json_number (get_json cp ''cost'') = Some q \<longrightarrow> q \<le> browser_use_task_cost_limit s)" for res d' y
    using that unfolding own_row_only_def by blast
  have err: ?thesis if "browse_task s client finished wid template url prompt allowed (set_workflow wid f d) = Some (Inl e, d2)"
    "own_row_only wid d d2" for e d2
  proof -
    from that(2) obtain y where y: "get_workflow wid d2 = Some y" by (auto simp: own_row_only_def)
    have own': "own_row_only wid d (set_workflow wid (g e) d2)" by (rule own_row_only_set [OF that(2)]) (simp add: g_def)
    have get': "get_workflow wid (set_workflow wid (g e) d2) = Some (g e y)" by (rule get_set_workflow [OF y]) (simp add: g_def)
    have run': "execute_browser_use_workflow s client started finished wid template url custom d = Some (Inl e, set_workflow wid (g e) d2)"
      using assms(3) v that(1) by (simp add: execute_browser_use_workflow_def prompt_def f_def g_def)
    show ?thesis by (rule finish [OF run' get' own']) (simp add: g_def)
  qed
  show ?thesis
  proof (cases "bu_create_task client (browse_payload wid template url prompt allowed)")
    case (Inl e)
    with own show ?thesis by (intro err [of e "set_workflow wid f d"]) (simp_all add: browse_task_def)
  next
    case (Inr task)
    define task_id where "task_id = json_or (get_json task ''id'') (get_json task ''taskId'')"
    define cp where "cp = [(''template_id'', JStr template), (''provider_task_id'', task_id), (''session_id'', get_json task ''sessionId'')]"
    define h :: "workflow_run \<Rightarrow> workflow_run" where "h = (\<lambda>x. x\<lparr>wf_checkpoint := Some cp\<rparr>)"
    define d1 where "d1 = set_workflow wid h (set_workflow wid f d)"
    have own1: "own_row_only wid d d1" unfolding d1_def by (rule own_row_only_set [OF own]) (simp add: h_def)
    obtain fin cp2 d2 where p: "poll (browse_turn s client wid task_id) (browser_use_task_timeout_seconds s)
        (browser_use_poll_interval_seconds s) 0 0 (cp, d1) = Some (fin, (cp2, d2))"
      using poll_terminates [OF assms(1)] by (metis prod.exhaust)
    have own2: "own_row_only wid d d2"
      using poll_invariant [OF p, of "\<lambda>cd. own_row_only wid d (snd cd)"] own1 browse_turn_keeps by auto
    note task = browse_task_def Let_def Inr p [unfolded task_id_def d1_def cp_def h_def] task_id_def
    show ?thesis
    proof (cases "\<exists>e. browse_task s client finished wid template url prompt allowed (set_workflow wid f d) = Some (Inl e, d2)")
      case True
      with own2 err show ?thesis by blast
    next
      case False
      then obtain u detail where u: "fin = Broke u" and detail: "bu_task_detail client task_id = Inr detail"
        by (cases fin) (auto simp: task split: sum.splits)
      define cp3 where "cp3 = dict_update cp2 (safe_task_detail detail)"
      define final where "final = (if get_json detail ''status'' = JStr ''finished'' \<and> get_json detail ''isSuccess'' \<noteq> JBool False
                                 then W_COMPLETED else W_CANCELLED)"
      define k :: "workflow_run \<Rightarrow> workflow_run" where
        "k = (\<lambda>x. x\<lparr>wf_status := final, wf_checkpoint := Some cp3, wf_finished_at := Some finished\<rparr>)"
      have res: "execute_browser_use_workflow s client started finished wid template url custom d
          = Some (Inr cp3, set_workflow wid k d2)"
        using assms(3) v u detail
        by (simp add: execute_browser_use_workflow_def prompt_def [symmetric] f_def [symmetric] task cp3_def final_def k_def)
      obtain y where y: "get_workflow wid d2 = Some y" using own2 by (auto simp: own_row_only_def)
      have y': "get_workflow wid (set_workflow wid k d2) = Some (k y)" by (rule get_set_workflow [OF y]) (simp add: k_def)
      have own3: "own_row_only wid d (set_workflow wid k d2)" by (rule own_row_only_set [OF own2]) (simp add: k_def)
      have "dict_get cp3 ''cost'' = dict_get cp2 ''cost''"
        unfolding cp3_def by (rule dict_get_update_keep) (simp add: safe_task_detail_def Let_def)
      then have cost: "get_json cp3 ''cost'' = get_json cp2 ''cost''" by (simp add: get_json_def)
      obtain i cd where "browse_turn s client wid task_id i cd = (Break u, (cp2, d2))"
        using poll_Broke [OF p] u by auto
      from browse_turn_Break_cost [OF this]
      have "\<forall>q. json_number (get_json cp3 ''cost'') = Some q \<longrightarrow> q \<le> browser_use_task_cost_limit s" by (simp add: cost)
      then show ?thesis by (intro finish [OF res y' own3]) (simp add: k_def final_def)
    qed
  qed
qed

lemma browser_use_run_ends_witness:
  "\<exists>res d' y. execute_browser_use_workflow default_settings demo_bu 0 1 3 ''listing_diagnostic'' ''https://leboncoin.fr'' None
     (w_db (demo_ac_world ACTIF)) = Some (res, d') \<and> get_workflow 3 d' = Some y
     \<and> wf_status y \<in> {W_FAILED, W_COMPLETED, W_CANCELLED}"
proof -
  have 1: "0 < browser_use_poll_interval_seconds default_settings" by (simp add: default_settings_def)
  have 2: "get_workflow 3 (w_db (demo_ac_world ACTIF)) = Some demo_ac_workflow"
    by (simp add: get_workflow_def demo_ac_defs)
  obtain v where 3: "map_of browser_use_templates ''listing_diagnostic'' = Some v"
    by (simp add: browser_use_templates_def)
  from browser_use_run_ends [OF 1 2 3, of demo_bu 0 1 "''https://leboncoin.fr''" None]
  show ?thesis by (fastforce split: sum.splits)
qed

end
