(* ===== verification/Sha256.thy ===== *)
theory Sha256
  imports Formatting "HOL-Library.Word"
begin

text \<open>
  What the sources use of \<open>hashlib\<close> and \<open>hmac\<close>: SHA-256 on bytes, its hexadecimal form and
  HMAC-SHA-256, on 8-bit and 32-bit words that wrap as the standard says; and \<open>str.encode()\<close>, UTF-8
  on the code points 0 to 255. No property rests on collision resistance: where a key is a digest,
  the theorems are about the digests.
\<close>

unbundle bit_operations_syntax

section \<open>Bytes\<close>

type_synonym byte = "8 word"

definition utf8_char :: "char \<Rightarrow> byte list" where
  "utf8_char c = (let n = code_point c in
     if n < 128 then [of_nat n] else [of_nat (192 + n div 64), of_nat (128 + n mod 64)])"

definition encode :: "string \<Rightarrow> byte list" where
  "encode s = concat (map utf8_char s)"

definition hexdigest :: "byte list \<Rightarrow> string" where
  "hexdigest bs = concat (map (\<lambda>b. [hex_digit (unat b div 16), hex_digit (unat b mod 16)]) bs)"

definition be_word :: "byte list \<Rightarrow> 32 word" where
  \<comment> \<open>four bytes, most significant first\<close>
  "be_word bs = foldl (\<lambda>w b. push_bit 8 w OR ucast b) 0 bs"

definition word_bytes :: "32 word \<Rightarrow> byte list" where
  "word_bytes w = [ucast (drop_bit 24 w), ucast (drop_bit 16 w), ucast (drop_bit 8 w), ucast w]"

fun chunks :: "nat \<Rightarrow> nat \<Rightarrow> 'a list \<Rightarrow> 'a list list" where
  \<comment> \<open>the first \<open>k\<close> pieces of length \<open>n\<close>\<close>
  "chunks n 0 xs = []"
| "chunks n (Suc k) xs = take n xs # chunks n k (drop n xs)"

section \<open>SHA-256\<close>

definition sha_constants :: "32 word list" where
  \<comment> \<open>the first 32 bits of the fractional parts of the cube roots of the first 64 primes, in decimal\<close>
  "sha_constants =
     [1116352408, 1899447441, 3049323471, 3921009573, 961987163, 1508970993, 2453635748, 2870763221,
      3624381080, 310598401, 607225278, 1426881987, 1925078388, 2162078206, 2614888103, 3248222580,
      3835390401, 4022224774, 264347078, 604807628, 770255983, 1249150122, 1555081692, 1996064986,
      2554220882, 2821834349, 2952996808, 3210313671, 3336571891, 3584528711, 113926993, 338241895,
      666307205, 773529912, 1294757372, 1396182291, 1695183700, 1986661051, 2177026350, 2456956037,
      2730485921, 2820302411, 3259730800, 3345764771, 3516065817, 3600352804, 4094571909, 275423344,
      430227734, 506948616, 659060556, 883997877, 958139571, 1322822218, 1537002063, 1747873779,
      1955562222, 2024104815, 2227730452, 2361852424, 2428436474, 2756734187, 3204031479, 3329325298]"

definition sha_initial :: "32 word list" where
  \<comment> \<open>the same for the square roots of the first eight primes\<close>
  "sha_initial =
     [1779033703, 3144134277, 1013904242, 2773480762, 1359893119, 2600822924, 528734635, 1541459225]"

definition rotr :: "nat \<Rightarrow> 32 word \<Rightarrow> 32 word" where
  "rotr n w = drop_bit n w OR push_bit (32 - n) w"

definition sha_pad :: "byte list \<Rightarrow> byte list" where
  "sha_pad msg =
     (let bits = of_nat (8 * length msg) :: 64 word in
      msg @ [0x80] @ replicate ((119 - length msg mod 64) mod 64) 0
        @ map (\<lambda>i. ucast (drop_bit (56 - 8 * i) bits)) [0..<8])"

fun sha_schedule :: "nat \<Rightarrow> 32 word list \<Rightarrow> 32 word list" where
  \<comment> \<open>\<open>n\<close> more words; the words so far are reversed\<close>
  "sha_schedule 0 ws = rev ws"
| "sha_schedule (Suc n) ws =
     (let w15 = ws ! 14; w2 = ws ! 1;
          s0 = rotr 7 w15 XOR rotr 18 w15 XOR drop_bit 3 w15;
          s1 = rotr 17 w2 XOR rotr 19 w2 XOR drop_bit 10 w2 in
      sha_schedule n ((ws ! 15 + s0 + ws ! 6 + s1) # ws))"

definition sha_round :: "32 word \<times> 32 word \<Rightarrow> 32 word list \<Rightarrow> 32 word list" where
  "sha_round kw st =
     (case st of
        [a, b, c, d, e, f, g, h] \<Rightarrow>
          (let s1 = rotr 6 e XOR rotr 11 e XOR rotr 25 e;
               ch = (e AND f) XOR (NOT e AND g);
               t1 = h + s1 + ch + fst kw + snd kw;
               s0 = rotr 2 a XOR rotr 13 a XOR rotr 22 a;
               maj = (a AND b) XOR (a AND c) XOR (b AND c) in
           [t1 + s0 + maj, a, b, c, d + t1, e, f, g])
      | _ \<Rightarrow> st)"

definition sha_block :: "byte list \<Rightarrow> 32 word list \<Rightarrow> 32 word list" where
  "sha_block blk st =
     (let ws = sha_schedule 48 (rev (map be_word (chunks 4 16 blk))) in
      map2 (+) st (fold sha_round (zip sha_constants ws) st))"

definition sha256 :: "byte list \<Rightarrow> byte list" where
  "sha256 msg =
     (let p = sha_pad msg in
      concat (map word_bytes (fold sha_block (chunks 64 (length p div 64) p) sha_initial)))"

definition sha256_hex :: "string \<Rightarrow> string" where
  \<comment> \<open>\<open>hashlib.sha256(s.encode()).hexdigest()\<close>\<close>
  "sha256_hex s = hexdigest (sha256 (encode s))"

definition hmac_sha256 :: "byte list \<Rightarrow> byte list \<Rightarrow> byte list" where
  "hmac_sha256 key msg =
     (let k = (if length key > 64 then sha256 key else key);
          k64 = k @ replicate (64 - length k) 0 in
      sha256 (map (\<lambda>b. b XOR 0x5C) k64 @ sha256 (map (\<lambda>b. b XOR 0x36) k64 @ msg)))"

section \<open>Lengths\<close>

lemma sha_pad_length: "64 dvd length (sha_pad msg)" "length msg < length (sha_pad msg)"
proof -
  define q r where "q = length msg div 64" and "r = length msg mod 64"
  have msg: "length msg = 64 * q + r" "r < 64" by (simp_all add: q_def r_def)
  have len: "length (sha_pad msg) = length msg + 9 + (119 - r) mod 64"
    by (simp add: sha_pad_def Let_def r_def)
  have "(length msg + 9 + (119 - r) mod 64) mod 64 = (length msg + 9 + (119 - r)) mod 64"
    by (rule mod_add_right_eq)
  also have "length msg + 9 + (119 - r) = 64 * (q + 2)" using msg by simp
  finally show "64 dvd length (sha_pad msg)" by (simp add: len dvd_eq_mod_eq_0)
  show "length msg < length (sha_pad msg)" by (simp add: len)
qed

lemma length_eight: "length [a, b, c, d, e, f, g, h] = 8"
  by simp

lemma length_sha_round:
  assumes "length st = 8"
  shows "length (sha_round kw st) = 8"
proof -
  obtain a b c d e f g h where st: "st = [a, b, c, d, e, f, g, h]"
    using assms by (auto simp: numeral_eq_Suc length_Suc_conv)
  show ?thesis unfolding st by (simp only: sha_round_def list.case Let_def length_eight)
qed

lemma length_fold_round: "length st = 8 \<Longrightarrow> length (fold sha_round kws st) = 8"
  by (induction kws arbitrary: st) (auto simp: length_sha_round)

lemma length_fold_block: "length st = 8 \<Longrightarrow> length (fold sha_block blks st) = 8"
  by (induction blks arbitrary: st) (auto simp: sha_block_def Let_def length_fold_round)

lemma length_concat_word_bytes [simp]: "length (concat (map word_bytes ws)) = 4 * length ws"
  by (induction ws) (auto simp: word_bytes_def)

lemma length_sha256 [simp]: "length (sha256 msg) = 32"
  unfolding sha256_def Let_def length_concat_word_bytes
  by (subst length_fold_block) (simp_all add: sha_initial_def)

lemma length_hexdigest [simp]: "length (hexdigest bs) = 2 * length bs"
  by (induction bs) (auto simp: hexdigest_def)

lemma length_sha256_hex [simp]: "length (sha256_hex s) = 64"
  by (simp add: sha256_hex_def)

text \<open>The hexadecimal form determines the digest.\<close>

lemma hexdigest_inject: "hexdigest bs = hexdigest cs \<Longrightarrow> bs = cs"
proof (induction bs arbitrary: cs)
  case Nil
  then show ?case by (cases cs) (auto simp: hexdigest_def)
next
  case (Cons b bs)
  from Cons.prems obtain c cs' where cs: "cs = c # cs'" by (cases cs) (auto simp: hexdigest_def)
  have lt: "unat x div 16 < 16" "unat x mod 16 < 16" for x :: byte
    using unsigned_less [of x, where 'a = nat] by simp_all
  from Cons.prems cs have "hex_digit (unat b div 16) = hex_digit (unat c div 16)"
    "hex_digit (unat b mod 16) = hex_digit (unat c mod 16)" "hexdigest bs = hexdigest cs'"
    by (auto simp: hexdigest_def)
  then have *: "unat b div 16 = unat c div 16" "unat b mod 16 = unat c mod 16" "bs = cs'"
    using lt hex_digit_inject Cons.IH by blast+
  have "unat b = unat c" using *(1,2) by (metis div_mult_mod_eq)
  with *(3) cs show ?case by (simp add: word_unat_eq_iff)
qed

end
