(* ===== verification/Ledger.thy ===== *)
theory Ledger
  imports Prelude
begin

text \<open>
  The contract of an operation that does something at most once per key because it records the key
  in the same transaction: the senders (\<open>sms_sequence.py\<close>, \<open>lbc_messaging.py\<close>) and the webhooks.
  \<open>keys\<close> is what a state has recorded and \<open>run\<close> gives the keys an execution handled.
\<close>

locale ledger =
  fixes inv :: "'d \<Rightarrow> bool" and keys :: "'d \<Rightarrow> 'k set" and run :: "'e \<Rightarrow> 'd \<Rightarrow> 'k list \<times> 'd"
  assumes run_inv: "inv d \<Longrightarrow> inv (snd (run e d))"
    and run_distinct: "inv d \<Longrightarrow> distinct (fst (run e d))"
    and run_fresh: "inv d \<Longrightarrow> set (fst (run e d)) \<inter> keys d = {}"
    and run_records: "inv d \<Longrightarrow> keys d \<union> set (fst (run e d)) \<subseteq> keys (snd (run e d))"
begin

fun history :: "'e list \<Rightarrow> 'd \<Rightarrow> 'k list \<times> 'd" where
  "history [] d = ([], d)"
| "history (e # es) d =
     (case run e d of (ks, d1) \<Rightarrow> (case history es d1 of (ks', d2) \<Rightarrow> (ks @ ks', d2)))"

text \<open>Over any history no key is handled twice, and none that was recorded before.\<close>

lemma history_once:
  "inv d \<Longrightarrow> distinct (fst (history es d)) \<and> set (fst (history es d)) \<inter> keys d = {}
     \<and> keys d \<union> set (fst (history es d)) \<subseteq> keys (snd (history es d)) \<and> inv (snd (history es d))"
proof (induction es arbitrary: d)
  case Nil
  then show ?case by simp
next
  case (Cons e es)
  obtain ks d1 where r: "run e d = (ks, d1)" by fastforce
  obtain ks' d2 where h: "history es d1 = (ks', d2)" by fastforce
  have "inv d1" using run_inv [OF Cons.prems, of e] r by simp
  from Cons.IH [OF this] h run_distinct [OF Cons.prems, of e] run_fresh [OF Cons.prems, of e]
    run_records [OF Cons.prems, of e] r
  show ?case by auto
qed

lemma history_distinct: "inv d \<Longrightarrow> distinct (fst (history es d))"
  using history_once by blast

lemma history_Cons_fst: "fst (history (e # es) d) = fst (run e d) @ fst (history es (snd (run e d)))"
  by (simp add: case_prod_beta)

end

end
