(* ===== verification/Sms_Sequence.thy ===== *)
theory Sms_Sequence
  imports Campaign_Runner Commands Phone_Extractor Sha256 Ledger
begin

text \<open>
  \<open>app/services/sms_sequence.py\<close>: contacts, their follow-up sequences of eight messages, and the run
  that sends what is due. The run is one transaction over many sends: the model keeps the calls of
  the gateway (\<open>ds_outbox\<close>) apart from the database, because a rolled back transaction does not
  call messages back. The SIM list, the gateway, the clock, the numbers blacklisted meanwhile and the
  rows other workers hold are parameters. The locale \<open>ledger\<close> gives that no step of a
  sequence is accepted twice over any history of runs that commit.
\<close>

section \<open>Steps and variants\<close>

definition SEQUENCE_DELAYS_DAYS :: "int list" where
  "SEQUENCE_DELAYS_DAYS = [0, 7, 14, 21, 28, 35, 42, 49]"

definition SEQUENCE_STEPS :: int where
  \<comment> \<open>\<open>len(SEQUENCE_DELAYS_DAYS)\<close>\<close>
  "SEQUENCE_STEPS = int (length SEQUENCE_DELAYS_DAYS)"

definition SMS_VARIANTS :: "(int \<times> (string \<times> string) list) list" where
  "SMS_VARIANTS =
     [(0, [(''initial_a'', ''Bonjour, votre v'' @ [CHR 0xE9] @ ''hicule {title} nous int'' @ [CHR 0xE9] @ ''resse. Est-il toujours disponible ? {url}''),
        (''initial_b'', ''Bonjour, nous sommes int'' @ [CHR 0xE9] @ ''ress'' @ [CHR 0xE9] @ ''s par {title}. Pouvez-vous confirmer sa disponibilit'' @ [CHR 0xE9] @ '' ? {url}'')]),
      (1, [(''j1_a'', ''Bonjour, je reviens vers vous au sujet de {title}. Merci pour votre retour. {url}''),
        (''j1_b'', ''Bonjour, petit suivi concernant {title}. Je reste disponible pour '' @ [CHR 0xE9] @ ''changer. {url}'')]),
      (2, [(''j2_a'', ''Bonjour, avez-vous pu voir mon message concernant {title} ? {url}''),
        (''j2_b'', ''Bonjour, je voulais v'' @ [CHR 0xE9] @ ''rifier si {title} est encore disponible. {url}'')]),
      (3, [(''j3_a'', ''Dernier rappel rapproch'' @ [CHR 0xE9] @ '' pour {title}. Nous pouvons '' @ [CHR 0xE9] @ ''changer quand vous '' @ [CHR 0xEA] @ ''tes disponible. {url}''),
        (''j3_b'', ''Bonjour, souhaitez-vous toujours '' @ [CHR 0xE9] @ ''changer au sujet de {title} ? {url}'')]),
      (4, [(''j7_a'', ''Bonjour, votre annonce {title} est-elle encore d'' @ [CHR 0x27] @ ''actualit'' @ [CHR 0xE9] @ '' ? {url}''),
        (''j7_b'', ''Bonjour, je reprends contact concernant {title}. Est-il toujours disponible ? {url}'')]),
      (5, [(''j14_a'', ''Je cl'' @ [CHR 0xF4] @ ''ture ma demande concernant {title}. R'' @ [CHR 0xE9] @ ''pondez si le v'' @ [CHR 0xE9] @ ''hicule est toujours disponible. {url}''),
        (''j14_b'', ''Dernier message concernant {title}. R'' @ [CHR 0xE9] @ ''pondez si votre annonce est toujours active. {url}'')]),
      (6, [(''j42_a'', ''Bonjour, je reviens vers vous au sujet de {title}. Est-il toujours disponible ? {url}''),
        (''j42_b'', ''Dernier suivi de la semaine concernant {title}. Merci pour votre retour. {url}'')]),
      (7, [(''j49_a'', ''Dernier message concernant {title}. R'' @ [CHR 0xE9] @ ''pondez si le v'' @ [CHR 0xE9] @ ''hicule est toujours disponible. {url}''),
        (''j49_b'', ''Je cl'' @ [CHR 0xF4] @ ''ture cette demande concernant {title}. Nous restons joignables si besoin. {url}'')])]"

definition sequence_digest :: "uuid \<Rightarrow> int \<Rightarrow> nat" where
  \<comment> \<open>the first byte of the digest of sequence and step\<close>
  "sequence_digest sid step = unat (hd (sha256 (encode (str_uuid sid @ '':'' @ str_int step))))"

definition choose_sms_variant :: "int \<Rightarrow> uuid \<Rightarrow> (string \<times> string) result" where
  "choose_sms_variant step sid =
     (case map_of SMS_VARIANTS step of
        None \<Rightarrow> Inl (KeyError (str_int step))
      | Some variants \<Rightarrow> Inr (variants ! (sequence_digest sid step mod length variants)))"

definition next_due_at :: "int \<Rightarrow> datetime \<Rightarrow> datetime" where
  "next_due_at step created_at = created_at + days (SEQUENCE_DELAYS_DAYS ! nat step)"

definition template_due :: "campaign_message_template \<Rightarrow> datetime \<Rightarrow> datetime result" where
  "template_due t created_at =
     (case split_once CHR '':'' (ct_send_time t) of
        (h, None) \<Rightarrow> Inl (ValueError ''not enough values to unpack (expected 2, got 1)'')
      | (h, Some m) \<Rightarrow>
          (case (py_int h, py_int m) of
             (Inr hour, Inr minute) \<Rightarrow>
               if \<not> (0 \<le> hour \<and> hour \<le> 23) then Inl (ValueError ''hour must be in 0..23'')
               else if \<not> (0 \<le> minute \<and> minute \<le> 59) then Inl (ValueError ''minute must be in 0..59'')
               else (let day = created_at + days (ct_delay_days t) in
                     Inr (day - day mod days 1 + hours hour + minutes minute))
           | (Inl e, _) \<Rightarrow> Inl e
           | (_, Inl e) \<Rightarrow> Inl e))"

section \<open>Contacts and sequences\<close>

record ensured =
  en_created :: bool
  en_status :: string
  en_phone :: string
  en_contact :: "uuid option"
  en_sequence :: "uuid option"

definition new_contact :: "datetime \<Rightarrow> string \<Rightarrow> db \<Rightarrow> contact" where
  "new_contact now phone d = \<lparr>co_id = fresh_id d, co_phone_e164 = phone, co_status = CT_ACTIVE,
     co_last_classification = None, co_last_inbound_at = None, co_created_at = now, co_updated_at = now\<rparr>"

definition add_contact :: "contact \<Rightarrow> db \<Rightarrow> db" where
  "add_contact c d = d\<lparr>contacts := contacts d @ [c], fresh_id := Suc (fresh_id d)\<rparr>"

definition contact_by_phone :: "string \<Rightarrow> db \<Rightarrow> contact option" where
  "contact_by_phone phone d = find_row (\<lambda>c. co_phone_e164 c = phone) (contacts d)"

definition ensure_sequence :: "datetime \<Rightarrow> uuid \<Rightarrow> uuid \<Rightarrow> uuid option \<Rightarrow> (string, json) dict option \<Rightarrow> db
    \<Rightarrow> (bool \<times> uuid) \<times> db" where
  \<comment> \<open>the sequence of a contact in a campaign, created or completed: lines 160 to 182\<close>
  "ensure_sequence now contact_id campaign_id listing_id context d =
     (case find_row (\<lambda>s. sq_contact_id s = contact_id \<and> sq_campaign_id s = Some campaign_id) (sms_sequences d) of
        None \<Rightarrow>
          ((True, fresh_id d),
           d\<lparr>sms_sequences := sms_sequences d @
               [\<lparr>sq_id = fresh_id d, sq_contact_id = contact_id, sq_listing_id = listing_id,
                 sq_campaign_id = Some campaign_id, sq_current_step = -1, sq_next_due_at = Some now,
                 sq_status = SQ_ACTIVE, sq_context_json = dict_or_empty context, sq_created_at = now,
                 sq_updated_at = now\<rparr>],
             fresh_id := Suc (fresh_id d)\<rparr>)
      | Some s \<Rightarrow>
          ((False, sq_id s),
           d\<lparr>sms_sequences := update_where (\<lambda>x. sq_id x = sq_id s)
               (\<lambda>x. x\<lparr>sq_context_json := dict_update (sq_context_json x) (dict_or_empty context),
                      sq_listing_id := (if sq_listing_id x = None then listing_id else sq_listing_id x)\<rparr>)
               (sms_sequences d)\<rparr>))"

definition ensure_contact_sequence_in_session :: "phone_lib \<Rightarrow> datetime \<Rightarrow> string \<Rightarrow> uuid \<Rightarrow> uuid option
    \<Rightarrow> (string, json) dict option \<Rightarrow> db \<Rightarrow> exn + (ensured \<times> db)" where
  "ensure_contact_sequence_in_session lib now phone campaign_id listing_id context d =
     (case extract_phone lib phone of
        None \<Rightarrow> Inl (ValueError ''invalid_phone'')
      | Some normalized \<Rightarrow>
          if is_blacklisted normalized d then
            Inr (\<lparr>en_created = False, en_status = ''blacklisted'', en_phone = normalized, en_contact = None,
                  en_sequence = None\<rparr>, d)
          else if (case find_row (\<lambda>c. ca_id c = campaign_id) (campaigns d) of
                     None \<Rightarrow> True | Some c \<Rightarrow> ca_status c \<noteq> C_RUNNING)
          then Inl (ValueError ''campaign_not_running'')
          else
            (let scheduled = (\<lambda>cid d. case ensure_sequence now cid campaign_id listing_id context d of
                   ((created, sid), d') \<Rightarrow>
                     Inr (\<lparr>en_created = created, en_status = ''scheduled'', en_phone = normalized,
                           en_contact = Some cid, en_sequence = Some sid\<rparr>, d')) in
             case contact_by_phone normalized d of
               None \<Rightarrow> scheduled (fresh_id d) (add_contact (new_contact now normalized d) d)
             | Some contact \<Rightarrow>
                 if co_status contact \<noteq> CT_ACTIVE then
                   Inr (\<lparr>en_created = False, en_status = contact_status_value (co_status contact),
                         en_phone = normalized, en_contact = Some (co_id contact), en_sequence = None\<rparr>, d)
                 else scheduled (co_id contact) d))"

definition run_sequences_if_created :: "broker \<Rightarrow> ensured \<Rightarrow> world \<Rightarrow> ensured result \<times> world" where
  "run_sequences_if_created b r w =
     (if en_created r then
        (case dispatch b (''run_sms_sequences_task'', []) w of
           (Inl e, w1) \<Rightarrow> (Inl e, w1)
         | (Inr _, w1) \<Rightarrow> (Inr r, w1))
      else (Inr r, w))"

definition ensure_contact_sequence :: "phone_lib \<Rightarrow> broker \<Rightarrow> datetime \<Rightarrow> string \<Rightarrow> uuid \<Rightarrow> uuid option
    \<Rightarrow> (string, json) dict option \<Rightarrow> world \<Rightarrow> ensured result \<times> world" where
  "ensure_contact_sequence lib b now phone campaign_id listing_id context w =
     (case in_session (ensure_contact_sequence_in_session lib now phone campaign_id listing_id context) w of
        (Inl e, w1) \<Rightarrow> (Inl e, w1)
      | (Inr r, w1) \<Rightarrow> run_sequences_if_created b r w1)"

definition contact_session :: "phone_lib \<Rightarrow> datetime \<Rightarrow> uuid \<Rightarrow> string \<Rightarrow> db \<Rightarrow> exn + (ensured \<times> db)" where
  "contact_session lib now lid phone d =
     (case find_row (\<lambda>l. li_id l = lid) (listings d) of
        None \<Rightarrow> Inl (ValueError ''listing_not_found'')
      | Some l \<Rightarrow>
          (case li_campaign_id l of
             None \<Rightarrow> Inl (ValueError ''campaign_required'')
           | Some cid \<Rightarrow>
               (let title = (case li_title l of None \<Rightarrow> ''votre vehicule''
                             | Some t \<Rightarrow> if t = [] then ''votre vehicule'' else t) in
                case ensure_contact_sequence_in_session lib now phone cid (Some lid)
                       (Some [(''title'', JStr title), (''url'', JStr (li_url l))]) d of
                  Inl e \<Rightarrow> Inl e
                | Inr (r, d1) \<Rightarrow>
                    Inr (r, (case en_contact r of
                               None \<Rightarrow> d1
                             | Some contact_id \<Rightarrow>
                                 d1\<lparr>listings := update_where (\<lambda>x. li_id x = lid)
                                      (\<lambda>x. x\<lparr>li_phone := Some (en_phone r), li_contact_id := Some contact_id\<rparr>)
                                      (listings d1)\<rparr>)))))"

definition ensure_contact_and_sequence :: "phone_lib \<Rightarrow> broker \<Rightarrow> datetime \<Rightarrow> uuid \<Rightarrow> string \<Rightarrow> world
    \<Rightarrow> ensured result \<times> world" where
  "ensure_contact_and_sequence lib b now lid phone w =
     (case in_session (contact_session lib now lid phone) w of
        (Inl e, w1) \<Rightarrow> (Inl e, w1)
      | (Inr r, w1) \<Rightarrow> run_sequences_if_created b r w1)"

definition stop_contact_sequences :: "uuid \<Rightarrow> contact_status \<Rightarrow> db \<Rightarrow> db" where
  "stop_contact_sequences contact_id status d =
     d\<lparr>contacts := update_where (\<lambda>c. co_id c = contact_id) (\<lambda>c. c\<lparr>co_status := status\<rparr>) (contacts d),
       sms_sequences := update_where (\<lambda>s. sq_contact_id s = contact_id \<and> sq_status s = SQ_ACTIVE)
         (\<lambda>s. s\<lparr>sq_status := SQ_CANCELLED, sq_next_due_at := None\<rparr>) (sms_sequences d)\<rparr>"

section \<open>The run of due sequences\<close>

record due_env =
  de_settings :: settings
  de_zone :: zone
  de_now :: datetime  \<comment> \<open>\<open>current\<close>, in UTC\<close>
  de_tx :: datetime  \<comment> \<open>\<open>now()\<close> of the transaction, the default of \<open>sent_at\<close>\<close>
  de_sims :: "nat \<Rightarrow> sim_info list result"  \<comment> \<open>\<open>boundaries.get_sim_list()\<close>, by turn\<close>
  de_send :: "nat \<Rightarrow> string \<Rightarrow> string \<Rightarrow> string \<Rightarrow> sms_result result"  \<comment> \<open>\<open>boundaries.send_sms\<close>, by turn\<close>
  de_stops :: "nat \<Rightarrow> blacklist list"  \<comment> \<open>the blacklist, as committed when a turn reads it\<close>
  de_locked :: "uuid \<Rightarrow> bool"  \<comment> \<open>rows locked by another worker: \<open>skip_locked\<close>\<close>
  de_text :: "json \<Rightarrow> string"  \<comment> \<open>\<open>str()\<close> of a JSON value that is not a string\<close>

record due_message =
  dm_sequence :: uuid
  dm_step :: int
  dm_turn :: nat
  dm_sim :: string
  dm_to :: string
  dm_body :: string
  dm_accepted :: bool

record due_run =
  ds_db :: db
  ds_processed :: int
  ds_sent :: int
  ds_stopped :: int
  ds_outbox :: "due_message list"  \<comment> \<open>the calls of \<open>send_sms\<close>, oldest first\<close>

definition sms_templates :: "uuid \<Rightarrow> int \<Rightarrow> db \<Rightarrow> campaign_message_template list" where
  "sms_templates cid step d =
     filter (\<lambda>t. ct_campaign_id t = cid \<and> ct_channel t = ''sms'' \<and> ct_step t = step \<and> ct_enabled t)
       (campaign_message_templates d)"

definition select_template :: "uuid \<Rightarrow> uuid \<Rightarrow> int \<Rightarrow> db \<Rightarrow> (string \<times> string) result" where
  "select_template sid cid step d =
     (let custom = sms_templates cid step d in
      if custom \<noteq> [] then
        (let t = custom ! (sequence_digest sid step mod length custom) in Inr (ct_variant_key t, ct_body t))
      else choose_sms_variant step sid)"

definition json_text :: "due_env \<Rightarrow> json \<Rightarrow> string" where
  "json_text E j = (case j of JStr s \<Rightarrow> s | _ \<Rightarrow> de_text E j)"

definition render_sequence :: "due_env \<Rightarrow> sms_sequence \<Rightarrow> listing option \<Rightarrow> string \<Rightarrow> string result" where
  "render_sequence E sq listing template =
     (let context = (case listing of
            None \<Rightarrow> sq_context_json sq
          | Some l \<Rightarrow> dict_update (sq_context_json sq)
              [(''title'', JStr (case li_title l of None \<Rightarrow> ''votre vehicule''
                                 | Some t \<Rightarrow> if t = [] then ''votre vehicule'' else t)),
               (''url'', JStr (li_url l))]);
          title = json_text E (json_or (get_json context ''title'') (JStr ''votre demande''));
          url = json_text E (json_or (get_json context ''url'') (JStr [])) in
      map_sum id (\<lambda>body. strip (replace_text ''  '' '' '' body)) (render_sms_body (de_settings E) template url title))"

definition allowed_sims :: "listing option \<Rightarrow> db \<Rightarrow> (string, int) dict" where
  "allowed_sims listing d =
     (case listing of
        None \<Rightarrow> []
      | Some l \<Rightarrow>
          (case li_sector_id l of
             None \<Rightarrow> []
           | Some sid \<Rightarrow> fold (\<lambda>r. dict_set (ss_sim_id r) (ss_daily_limit r))
               (filter (\<lambda>r. ss_sector_id r = sid) (sector_sims d)) []))"

definition used_today :: "due_env \<Rightarrow> string \<Rightarrow> db \<Rightarrow> int" where
  "used_today E sim_id d =
     int (length (filter (\<lambda>l. sl_sim_id l = sim_id \<and> sl_direction l = DIR_OUTBOUND
       \<and> de_now E - de_now E mod days 1 \<le> sl_sent_at l) (sms_log d)))"

definition sim_quota :: "campaign \<Rightarrow> (string, int) dict \<Rightarrow> string \<Rightarrow> int" where
  "sim_quota campaign allowed sim_id =
     min (ca_quota_per_sim campaign)
       (case dict_get allowed sim_id of None \<Rightarrow> ca_quota_per_sim campaign | Some q \<Rightarrow> q)"

definition eligible_sim :: "due_env \<Rightarrow> campaign \<Rightarrow> (string, int) dict \<Rightarrow> sim_info list \<Rightarrow> db \<Rightarrow> sim_info option" where
  \<comment> \<open>\<open>eligible_sims[0] if eligible_sims else None\<close>\<close>
  "eligible_sim E campaign allowed sims d =
     find_row (\<lambda>sim. si_status sim = Some ''active''
         \<and> (allowed = [] \<or> dict_get allowed (si_id sim) \<noteq> None)
         \<and> used_today E (si_id sim) d < sim_quota campaign allowed (si_id sim)) sims"

definition sequence_key :: "uuid \<Rightarrow> int \<Rightarrow> string" where
  "sequence_key sid step = ''sequence:'' @ str_uuid sid @ '':'' @ str_int step"

definition schedule_next :: "sms_sequence \<Rightarrow> uuid \<Rightarrow> int \<Rightarrow> db \<Rightarrow> datetime option result" where
  \<comment> \<open>when the message after \<open>step\<close> is due\<close>
  "schedule_next sq cid step d =
     (if step + 1 < SEQUENCE_STEPS then
        (case one_or_none (sms_templates cid (step + 1) d) of
           Inl e \<Rightarrow> Inl e
         | Inr (Some t) \<Rightarrow> map_sum id Some (template_due t (sq_created_at sq))
         | Inr None \<Rightarrow> Inr (Some (next_due_at (step + 1) (sq_created_at sq))))
      else Inr None)"

definition set_sequence :: "uuid \<Rightarrow> (sms_sequence \<Rightarrow> sms_sequence) \<Rightarrow> db \<Rightarrow> db" where
  "set_sequence sid f d = d\<lparr>sms_sequences := update_where (\<lambda>s. sq_id s = sid) f (sms_sequences d)\<rparr>"

definition advance_row :: "int \<Rightarrow> datetime option \<Rightarrow> sms_sequence \<Rightarrow> sms_sequence" where
  "advance_row step due s = s\<lparr>sq_current_step := step, sq_next_due_at := due,
     sq_status := (if due = None then SQ_COMPLETED else SQ_ACTIVE)\<rparr>"

definition sequence_log :: "due_env \<Rightarrow> uuid \<Rightarrow> contact \<Rightarrow> listing option \<Rightarrow> uuid \<Rightarrow> int \<Rightarrow> string \<Rightarrow> string \<Rightarrow> string
    \<Rightarrow> rat \<Rightarrow> uuid \<Rightarrow> sms_log" where
  "sequence_log E sid contact listing cid step variant body sim_id cost new_id =
     \<lparr>sl_id = new_id, sl_sim_id = sim_id, sl_to_phone = co_phone_e164 contact,
      sl_listing_id = map_option li_id listing, sl_body = body, sl_status = SMS_SENT, sl_project = ''P2'',
      sl_cost_eur = Some cost, sl_campaign_id = Some cid, sl_contact_id = Some (co_id contact),
      sl_direction = DIR_OUTBOUND, sl_sequence_step = Some step, sl_variant_key = Some variant,
      sl_classification = None, sl_idempotency_key = Some (sequence_key sid step), sl_received_at = None,
      sl_sent_at = de_tx E\<rparr>"

definition send_step :: "due_env \<Rightarrow> nat \<Rightarrow> sms_sequence \<Rightarrow> contact \<Rightarrow> listing option \<Rightarrow> uuid \<Rightarrow> int \<Rightarrow> string \<Rightarrow> string
    \<Rightarrow> string \<Rightarrow> due_run \<Rightarrow> due_run" where
  \<comment> \<open>the \<open>try\<close> statement: every exception in it is swallowed, after what it has done\<close>
  "send_step E i sq contact listing cid step variant body sim_id r =
     (let msg = (\<lambda>ok. \<lparr>dm_sequence = sq_id sq, dm_step = step, dm_turn = i, dm_sim = sim_id,
                       dm_to = co_phone_e164 contact, dm_body = body, dm_accepted = ok\<rparr>) in
      case de_send E i sim_id (co_phone_e164 contact) body of
        Inl e \<Rightarrow> r\<lparr>ds_outbox := ds_outbox r @ [msg False]\<rparr>
      | Inr res \<Rightarrow>
          if sr_status res \<noteq> SMS_SENT then r\<lparr>ds_outbox := ds_outbox r @ [msg False]\<rparr>
          else
           (let d = ds_db r;
                d1 = d\<lparr>sms_log := sms_log d @ [sequence_log E (sq_id sq) contact listing cid step variant body sim_id
                                                  (sr_cost res) (fresh_id d)],
                       fresh_id := Suc (fresh_id d)\<rparr>;
                d2 = set_sequence (sq_id sq) (\<lambda>s. s\<lparr>sq_current_step := step\<rparr>) d1;
                r1 = r\<lparr>ds_db := d2, ds_outbox := ds_outbox r @ [msg True]\<rparr> in
            case schedule_next sq cid step d2 of
              Inl e \<Rightarrow> r1
            | Inr due \<Rightarrow> r1\<lparr>ds_db := set_sequence (sq_id sq) (advance_row step due) d2, ds_sent := ds_sent r + 1\<rparr>))"

definition stop_sequence :: "uuid \<Rightarrow> sequence_status \<Rightarrow> due_run \<Rightarrow> due_run" where
  "stop_sequence sid st r = r\<lparr>ds_db := set_sequence sid (\<lambda>s. s\<lparr>sq_status := st\<rparr>) (ds_db r), ds_stopped := ds_stopped r + 1\<rparr>"

definition deliver_step :: "due_env \<Rightarrow> nat \<Rightarrow> sms_sequence \<Rightarrow> contact \<Rightarrow> campaign \<Rightarrow> int \<Rightarrow> due_run
    \<Rightarrow> exn option \<times> due_run" where
  \<comment> \<open>lines 277 to 413: choose the text and the SIM, then send or acknowledge what was sent\<close>
  "deliver_step E i sq contact campaign step r =
     (let d = ds_db r; cid = ca_id campaign;
          listing = (case sq_listing_id sq of None \<Rightarrow> None | Some lid \<Rightarrow> find_row (\<lambda>l. li_id l = lid) (listings d)) in
      case select_template (sq_id sq) cid step d of
        Inl e \<Rightarrow> (Some e, r)
      | Inr (variant, template) \<Rightarrow>
     (case render_sequence E sq listing template of
        Inl e \<Rightarrow> (Some e, r)
      | Inr body \<Rightarrow>
     (case de_sims E i of
        Inl e \<Rightarrow> (Some e, r)
      | Inr sims \<Rightarrow>
     (case eligible_sim E campaign (allowed_sims listing d) sims d of
        None \<Rightarrow> (None, r)
      | Some sim \<Rightarrow>
          if Some (sequence_key (sq_id sq) step) \<in> sl_idempotency_key ` set (sms_log d) then
            (case schedule_next sq cid step d of
               Inl e \<Rightarrow> (Some e, r)
             | Inr due \<Rightarrow> (None, r\<lparr>ds_db := set_sequence (sq_id sq) (advance_row step due) d\<rparr>))
          else (None, send_step E i sq contact listing cid step variant body (si_id sim) r)))))"

definition sequence_turn :: "due_env \<Rightarrow> nat \<Rightarrow> sms_sequence \<Rightarrow> due_run \<Rightarrow> exn option \<times> due_run" where
  "sequence_turn E i sq r0 =
     (let r = r0\<lparr>ds_processed := ds_processed r0 + 1\<rparr>; d = ds_db r;
          campaign = (case sq_campaign_id sq of None \<Rightarrow> None | Some cid \<Rightarrow> find_row (\<lambda>c. ca_id c = cid) (campaigns d)) in
      case (find_row (\<lambda>c. co_id c = sq_contact_id sq) (contacts d), campaign) of
        (Some contact, Some campaign) \<Rightarrow>
          if co_status contact \<noteq> CT_ACTIVE \<or> is_blacklisted (co_phone_e164 contact) (d\<lparr>blacklist := de_stops E i\<rparr>)
          then (None, stop_sequence (sq_id sq) SQ_CANCELLED r)
          else
           (let step = sq_current_step sq + 1 in
            if SEQUENCE_STEPS \<le> step then (None, stop_sequence (sq_id sq) SQ_COMPLETED r)
            else deliver_step E i sq contact campaign step r)
      | _ \<Rightarrow> (None, stop_sequence (sq_id sq) SQ_CANCELLED r))"

fun sequence_loop :: "due_env \<Rightarrow> nat \<Rightarrow> sms_sequence list \<Rightarrow> due_run \<Rightarrow> exn option \<times> due_run" where
  "sequence_loop E i [] r = (None, r)"
| "sequence_loop E i (sq # sqs) r =
     (case sequence_turn E i sq r of
        (Some e, r') \<Rightarrow> (Some e, r')
      | (None, r') \<Rightarrow> sequence_loop E (Suc i) sqs r')"

definition due_sequences :: "due_env \<Rightarrow> nat \<Rightarrow> db \<Rightarrow> sms_sequence list" where
  \<comment> \<open>SQL leaves the order open; the model takes the order of insertion\<close>
  "due_sequences E limit d =
     take limit (filter (\<lambda>s. sq_status s = SQ_ACTIVE
       \<and> (case sq_next_due_at s of None \<Rightarrow> False | Some t \<Rightarrow> t \<le> de_now E) \<and> \<not> de_locked E (sq_id s)) (sms_sequences d))"

record due_summary =
  du_status :: "string option"
  du_processed :: int
  du_sent :: int
  du_stopped :: int

record due_trace =
  dt_result :: "due_summary result"
  dt_db :: db
  dt_outbox :: "due_message list"

definition run_due_sms_sequences :: "due_env \<Rightarrow> nat \<Rightarrow> db \<Rightarrow> due_trace" where
  "run_due_sms_sequences E limit d =
     (if \<not> is_within_sms_window (de_settings E) (de_zone E) (de_now E) then
        \<lparr>dt_result = Inr \<lparr>du_status = Some ''outside_window'', du_processed = 0, du_sent = 0, du_stopped = 0\<rparr>,
         dt_db = d, dt_outbox = []\<rparr>
      else
        (case sequence_loop E 0 (due_sequences E limit d)
                \<lparr>ds_db = d, ds_processed = 0, ds_sent = 0, ds_stopped = 0, ds_outbox = []\<rparr> of
           (Some e, r) \<Rightarrow> \<lparr>dt_result = Inl e, dt_db = d, dt_outbox = ds_outbox r\<rparr>
         | (None, r) \<Rightarrow>
             \<lparr>dt_result = Inr \<lparr>du_status = None, du_processed = ds_processed r, du_sent = ds_sent r,
                              du_stopped = ds_stopped r\<rparr>,
              dt_db = ds_db r, dt_outbox = ds_outbox r\<rparr>))"

section \<open>What a turn does\<close>

text \<open>The run only writes sequences and the log; everything else it reads stays.\<close>

definition same_base :: "db \<Rightarrow> db \<Rightarrow> bool" where
  "same_base d d' \<longleftrightarrow> contacts d' = contacts d \<and> campaigns d' = campaigns d \<and> listings d' = listings d
     \<and> campaign_message_templates d' = campaign_message_templates d \<and> sector_sims d' = sector_sims d"

lemma same_base_refl [simp]: "same_base d d"
  by (simp add: same_base_def)

lemma same_base_trans: "same_base d d1 \<Longrightarrow> same_base d1 d2 \<Longrightarrow> same_base d d2"
  by (simp add: same_base_def)

lemma set_sequence_simps [simp]:
  "sms_log (set_sequence sid f d) = sms_log d" "contacts (set_sequence sid f d) = contacts d"
  "campaigns (set_sequence sid f d) = campaigns d" "listings (set_sequence sid f d) = listings d"
  "campaign_message_templates (set_sequence sid f d) = campaign_message_templates d"
  "sector_sims (set_sequence sid f d) = sector_sims d" "same_base d (set_sequence sid f d)"
  by (simp_all add: set_sequence_def same_base_def)

definition log_keys :: "db \<Rightarrow> string set" where
  "log_keys d = {k. Some k \<in> sl_idempotency_key ` set (sms_log d)}"

definition message_key :: "due_message \<Rightarrow> string" where
  "message_key m = sequence_key (dm_sequence m) (dm_step m)"

text \<open>
  \<open>sends E i sq d m l\<close>: in the state \<open>d\<close>, the turn \<open>i\<close> on \<open>sq\<close> is entitled to call the gateway with
  \<open>m\<close>, and to log \<open>l\<close> when the gateway accepts it.
\<close>

definition sequence_listing :: "sms_sequence \<Rightarrow> db \<Rightarrow> listing option" where
  "sequence_listing sq d = (case sq_listing_id sq of None \<Rightarrow> None | Some lid \<Rightarrow> find_row (\<lambda>l. li_id l = lid) (listings d))"

definition sim_allowed :: "db \<Rightarrow> listing option \<Rightarrow> string \<Rightarrow> bool" where
  \<comment> \<open>when the sector of the listing has SIMs of its own, the SIM is one of them\<close>
  "sim_allowed d listing sim_id \<longleftrightarrow>
     (\<forall>l sid. listing = Some l \<and> li_sector_id l = Some sid \<and> sid \<in> ss_sector_id ` set (sector_sims d) \<longrightarrow>
        (\<exists>r\<in>set (sector_sims d). ss_sector_id r = sid \<and> ss_sim_id r = sim_id))"

definition entitled :: "due_env \<Rightarrow> db \<Rightarrow> sms_sequence \<Rightarrow> due_message \<Rightarrow> bool" where
  "entitled E d sq m \<longleftrightarrow>
     dm_sequence m = sq_id sq \<and> dm_step m = sq_current_step sq + 1 \<and> dm_step m < SEQUENCE_STEPS
     \<and> (\<exists>contact\<in>set (contacts d). co_id contact = sq_contact_id sq \<and> co_status contact = CT_ACTIVE
          \<and> dm_to m = co_phone_e164 contact
          \<and> \<not> is_blacklisted (dm_to m) (d\<lparr>blacklist := de_stops E (dm_turn m)\<rparr>))
     \<and> (\<exists>sims sim. de_sims E (dm_turn m) = Inr sims \<and> sim \<in> set sims \<and> si_id sim = dm_sim m \<and> si_status sim = Some ''active'')
     \<and> sim_allowed d (sequence_listing sq d) (dm_sim m)
     \<and> (\<exists>cid variant template. sq_campaign_id sq = Some cid
          \<and> select_template (sq_id sq) cid (dm_step m) d = Inr (variant, template)
          \<and> render_sequence E sq (sequence_listing sq d) template = Inr (dm_body m))"

definition in_quota :: "due_env \<Rightarrow> db \<Rightarrow> string \<Rightarrow> bool" where
  "in_quota E d sim_id \<longleftrightarrow> (\<exists>campaign\<in>set (campaigns d). used_today E sim_id d < ca_quota_per_sim campaign)"

definition logs_message :: "due_env \<Rightarrow> due_message \<Rightarrow> sms_log \<Rightarrow> bool" where
  "logs_message E m l \<longleftrightarrow> sl_idempotency_key l = Some (message_key m) \<and> sl_sim_id l = dm_sim m
     \<and> sl_direction l = DIR_OUTBOUND \<and> sl_sent_at l = de_tx E \<and> sl_to_phone l = dm_to m \<and> sl_body l = dm_body m"

definition turn_effect :: "due_env \<Rightarrow> sms_sequence \<Rightarrow> due_run \<Rightarrow> due_run \<Rightarrow> bool" where
  "turn_effect E sq r r' \<longleftrightarrow> same_base (ds_db r) (ds_db r') \<and>
     (ds_outbox r' = ds_outbox r \<and> sms_log (ds_db r') = sms_log (ds_db r)
      \<or> (\<exists>m l. ds_outbox r' = ds_outbox r @ [m] \<and> entitled E (ds_db r) sq m \<and> in_quota E (ds_db r) (dm_sim m)
           \<and> message_key m \<notin> log_keys (ds_db r) \<and> logs_message E m l
           \<and> sms_log (ds_db r') = sms_log (ds_db r) @ (if dm_accepted m then [l] else [])))"

lemma send_step_outcome:
  "\<exists>ok l. ds_outbox (send_step E i sq contact listing cid step variant body sim_id r) = ds_outbox r @
       [\<lparr>dm_sequence = sq_id sq, dm_step = step, dm_turn = i, dm_sim = sim_id, dm_to = co_phone_e164 contact,
         dm_body = body, dm_accepted = ok\<rparr>]
     \<and> sms_log (ds_db (send_step E i sq contact listing cid step variant body sim_id r))
         = sms_log (ds_db r) @ (if ok then [l] else [])
     \<and> sl_idempotency_key l = Some (sequence_key (sq_id sq) step) \<and> sl_sim_id l = sim_id \<and> sl_direction l = DIR_OUTBOUND
     \<and> sl_sent_at l = de_tx E \<and> sl_to_phone l = co_phone_e164 contact \<and> sl_body l = body
     \<and> same_base (ds_db r) (ds_db (send_step E i sq contact listing cid step variant body sim_id r))"
proof (cases "de_send E i sim_id (co_phone_e164 contact) body")
  case (Inl e)
  then show ?thesis
    by (intro exI [of _ False] exI [of _ "sequence_log E (sq_id sq) contact listing cid step variant body sim_id 0 0"])
      (simp add: send_step_def sequence_log_def)
next
  case (Inr res)
  show ?thesis
  proof (cases "sr_status res = SMS_SENT")
    case False
    with Inr show ?thesis
      by (intro exI [of _ False] exI [of _ "sequence_log E (sq_id sq) contact listing cid step variant body sim_id 0 0"])
        (simp add: send_step_def sequence_log_def)
  next
    case True
    with Inr show ?thesis
      by (intro exI [of _ True]
          exI [of _ "sequence_log E (sq_id sq) contact listing cid step variant body sim_id (sr_cost res) (fresh_id (ds_db r))"])
        (simp add: send_step_def sequence_log_def Let_def same_base_def split: sum.split)
  qed
qed

lemma sim_quota_le: "sim_quota campaign allowed s \<le> ca_quota_per_sim campaign"
  by (simp add: sim_quota_def split: option.split)

lemma dict_get_fold: "dict_get (fold (\<lambda>r. dict_set (f r) (g r)) rs acc) k \<noteq> None \<longleftrightarrow> dict_get acc k \<noteq> None \<or> k \<in> f ` set rs"
  by (induction rs arbitrary: acc) (auto simp: dict_get_set)

lemma eligible_sim_allowed:
  assumes "eligible_sim E campaign (allowed_sims listing d) sims d' = Some sim"
  shows "sim \<in> set sims \<and> si_status sim = Some ''active'' \<and> sim_allowed d listing (si_id sim)"
proof -
  let ?allowed = "allowed_sims listing d"
  have sim: "sim \<in> set sims" "si_status sim = Some ''active''" "?allowed = [] \<or> dict_get ?allowed (si_id sim) \<noteq> None"
    using assms by (auto simp: eligible_sim_def dest: find_row_SomeD)
  have "\<exists>r\<in>set (sector_sims d). ss_sector_id r = sid \<and> ss_sim_id r = si_id sim"
    if l: "listing = Some l" "li_sector_id l = Some sid" and r: "r0 \<in> set (sector_sims d)" "ss_sector_id r0 = sid" for l sid r0
  proof -
    let ?rs = "filter (\<lambda>r. ss_sector_id r = sid) (sector_sims d)"
    have get: "dict_get ?allowed k \<noteq> None \<longleftrightarrow> k \<in> ss_sim_id ` set ?rs" for k
      using dict_get_fold [of ss_sim_id ss_daily_limit ?rs "[]" k] l by (simp add: allowed_sims_def dict_get_def)
    have "dict_get ?allowed (ss_sim_id r0) \<noteq> None" using r get by auto
    then have "?allowed \<noteq> []" by (auto simp: dict_get_def)
    with sim(3) have "si_id sim \<in> ss_sim_id ` set ?rs" using get by blast
    then show ?thesis by auto
  qed
  with sim(1,2) show ?thesis by (auto simp: sim_allowed_def)
qed

lemma deliver_step_effect:
  assumes "deliver_step E i sq contact campaign step r = (x, r')"
    and "contact \<in> set (contacts (ds_db r))" "co_id contact = sq_contact_id sq" "co_status contact = CT_ACTIVE"
      "\<not> is_blacklisted (co_phone_e164 contact) ((ds_db r)\<lparr>blacklist := de_stops E i\<rparr>)"
    and "campaign \<in> set (campaigns (ds_db r))" "sq_campaign_id sq = Some (ca_id campaign)"
    and "step = sq_current_step sq + 1" "step < SEQUENCE_STEPS"
  shows "turn_effect E sq r r'"
proof -
  let ?d = "ds_db r"
  define listing where "listing = sequence_listing sq ?d"
  have quiet: "turn_effect E sq r r" by (simp add: turn_effect_def)
  note run = assms(1) [unfolded deliver_step_def Let_def, folded sequence_listing_def, folded listing_def]
  show ?thesis
  proof (cases "select_template (sq_id sq) (ca_id campaign) step ?d")
    case (Inl e)
    with run quiet show ?thesis by simp
  next
    case (Inr vt)
    then obtain variant template where t: "select_template (sq_id sq) (ca_id campaign) step ?d = Inr (variant, template)"
      by (cases vt) auto
    show ?thesis
    proof (cases "render_sequence E sq listing template")
      case (Inl e)
      with run t quiet show ?thesis by simp
    next
      case (Inr body)
      note b = this
      show ?thesis
      proof (cases "de_sims E i")
        case (Inl e)
        with run t b quiet show ?thesis by simp
      next
        case (Inr sims)
        note s = this
        show ?thesis
        proof (cases "eligible_sim E campaign (allowed_sims listing ?d) sims ?d")
          case None
          with run t b s quiet show ?thesis by simp
        next
          case (Some sim)
          note run' = run [unfolded t b s Some sum.case option.case prod.case]
          have "used_today E (si_id sim) ?d < sim_quota campaign (allowed_sims listing ?d) (si_id sim)"
            using Some by (auto simp: eligible_sim_def dest: find_row_SomeD)
          then have quota: "in_quota E ?d (si_id sim)"
            unfolding in_quota_def using assms(6) sim_quota_le order_less_le_trans by blast
          show ?thesis
          proof (cases "Some (sequence_key (sq_id sq) step) \<in> sl_idempotency_key ` set (sms_log ?d)")
            case True
            with run' quiet show ?thesis
              by (auto simp: turn_effect_def split: sum.splits)
          next
            case False
            with run' have r': "r' = send_step E i sq contact listing (ca_id campaign) step variant body (si_id sim) r" by simp
            obtain ok l where o: "ds_outbox r' = ds_outbox r @
                 [\<lparr>dm_sequence = sq_id sq, dm_step = step, dm_turn = i, dm_sim = si_id sim, dm_to = co_phone_e164 contact,
                   dm_body = body, dm_accepted = ok\<rparr>]"
              "sms_log (ds_db r') = sms_log ?d @ (if ok then [l] else [])"
              "sl_idempotency_key l = Some (sequence_key (sq_id sq) step)" "sl_sim_id l = si_id sim"
              "sl_direction l = DIR_OUTBOUND" "sl_sent_at l = de_tx E" "sl_to_phone l = co_phone_e164 contact"
              "sl_body l = body" "same_base ?d (ds_db r')"
              using send_step_outcome [of E i sq contact listing "ca_id campaign" step variant body "si_id sim" r]
              unfolding r' by blast
            let ?m = "\<lparr>dm_sequence = sq_id sq, dm_step = step, dm_turn = i, dm_sim = si_id sim, dm_to = co_phone_e164 contact,
                   dm_body = body, dm_accepted = ok\<rparr>"
            have "entitled E ?d sq ?m"
              unfolding entitled_def using assms(2-9) t b s eligible_sim_allowed [OF Some] by (auto simp: listing_def)
            moreover have "message_key ?m \<notin> log_keys ?d" using False by (simp add: message_key_def log_keys_def)
            moreover have "logs_message E ?m l" using o by (simp add: logs_message_def message_key_def)
            ultimately show ?thesis
              unfolding turn_effect_def using o quota by (intro conjI disjI2 exI [of _ ?m] exI [of _ l]) simp_all
          qed
        qed
      qed
    qed
  qed
qed

lemma stop_sequence_effect [simp]: "turn_effect E sq r (stop_sequence sid st (r\<lparr>ds_processed := n\<rparr>))"
  by (simp add: turn_effect_def stop_sequence_def)

lemma sequence_turn_effect:
  assumes "sequence_turn E i sq r = (x, r')"
  shows "turn_effect E sq r r'"
proof -
  let ?d = "ds_db r"
  define r1 where "r1 = r\<lparr>ds_processed := ds_processed r + 1\<rparr>"
  define campaign where "campaign = (case sq_campaign_id sq of None \<Rightarrow> None | Some cid \<Rightarrow> find_row (\<lambda>c. ca_id c = cid) (campaigns ?d))"
  have r1: "ds_db r1 = ?d" "ds_outbox r1 = ds_outbox r" by (simp_all add: r1_def)
  note run = assms [unfolded sequence_turn_def Let_def, folded r1_def, unfolded r1, folded campaign_def]
  have stop: ?thesis if "r' = stop_sequence (sq_id sq) st r1" for st using that by (simp add: r1_def)
  show ?thesis
  proof (cases "find_row (\<lambda>c. co_id c = sq_contact_id sq) (contacts ?d)")
    case None
    with run stop show ?thesis by auto
  next
    case (Some contact)
    note c = this
    show ?thesis
    proof (cases campaign)
      case None
      with run c stop show ?thesis by auto
    next
      case (Some camp)
      then have camp: "camp \<in> set (campaigns ?d)" "sq_campaign_id sq = Some (ca_id camp)"
        by (auto simp: campaign_def split: option.splits dest: find_row_SomeD)
      have contact: "contact \<in> set (contacts ?d)" "co_id contact = sq_contact_id sq" using c by (auto dest: find_row_SomeD)
      consider (cancelled) "co_status contact \<noteq> CT_ACTIVE \<or> is_blacklisted (co_phone_e164 contact) (?d\<lparr>blacklist := de_stops E i\<rparr>)"
        | (finished) "\<not> (co_status contact \<noteq> CT_ACTIVE \<or> is_blacklisted (co_phone_e164 contact) (?d\<lparr>blacklist := de_stops E i\<rparr>))"
            "SEQUENCE_STEPS \<le> sq_current_step sq + 1"
        | (live) "\<not> (co_status contact \<noteq> CT_ACTIVE \<or> is_blacklisted (co_phone_e164 contact) (?d\<lparr>blacklist := de_stops E i\<rparr>))"
            "\<not> SEQUENCE_STEPS \<le> sq_current_step sq + 1" by blast
      then show ?thesis
      proof cases
        case cancelled
        with run c Some stop show ?thesis by auto
      next
        case finished
        with run c Some stop show ?thesis by auto
      next
        case live
        with run c Some have "deliver_step E i sq contact camp (sq_current_step sq + 1) r1 = (x, r')" by simp
        then have "turn_effect E sq r1 r'"
          using live contact camp r1 by (intro deliver_step_effect) auto
        then show ?thesis by (simp add: turn_effect_def r1)
      qed
    qed
  qed
qed

section \<open>What the loop does\<close>

definition accepted_keys :: "due_message list \<Rightarrow> string list" where
  "accepted_keys ms = map message_key (filter dm_accepted ms)"

lemma accepted_keys_simps [simp]:
  "accepted_keys [] = []"
  "accepted_keys (m # ms) = (if dm_accepted m then message_key m # accepted_keys ms else accepted_keys ms)"
  by (simp_all add: accepted_keys_def)

lemma entitled_same_base:
  assumes "same_base d d'"
  shows "entitled E d' sq m = entitled E d sq m"
proof -
  have "sequence_listing sq d' = sequence_listing sq d" "select_template sid cid step d' = select_template sid cid step d"
    "contacts d' = contacts d" "sim_allowed d' listing sim = sim_allowed d listing sim" for sid cid step listing sim
    using assms
    by (simp_all add: same_base_def sequence_listing_def select_template_def sms_templates_def sim_allowed_def cong: option.case_cong)
  moreover have "is_blacklisted p (d'\<lparr>blacklist := b\<rparr>) = is_blacklisted p (d\<lparr>blacklist := b\<rparr>)" for p b
    by (simp add: is_blacklisted_def)
  ultimately show ?thesis unfolding entitled_def by presburger
qed

definition loop_effect :: "due_env \<Rightarrow> sms_sequence list \<Rightarrow> due_run \<Rightarrow> due_message list \<Rightarrow> sms_log list \<Rightarrow> due_run \<Rightarrow> bool" where
  "loop_effect E sqs r ms ls r' \<longleftrightarrow> same_base (ds_db r) (ds_db r')
     \<and> ds_outbox r' = ds_outbox r @ ms \<and> sms_log (ds_db r') = sms_log (ds_db r) @ ls
     \<and> list_all2 (logs_message E) (filter dm_accepted ms) ls
     \<and> (\<forall>m\<in>set ms. \<exists>sq\<in>set sqs. entitled E (ds_db r) sq m)
     \<and> subseq (map dm_sequence ms) (map sq_id sqs)
     \<and> distinct (accepted_keys ms) \<and> set (accepted_keys ms) \<inter> log_keys (ds_db r) = {}"

lemma loop_effect_none: "loop_effect E sqs r [] [] r' \<longleftrightarrow>
    same_base (ds_db r) (ds_db r') \<and> ds_outbox r' = ds_outbox r \<and> sms_log (ds_db r') = sms_log (ds_db r)"
  by (simp add: loop_effect_def)

lemma turn_loop_effect:
  assumes "turn_effect E sq r r1"
  shows "\<exists>ms ls. loop_effect E [sq] r ms ls r1"
proof -
  have base: "same_base (ds_db r) (ds_db r1)" using assms by (simp add: turn_effect_def)
  from assms consider (quiet) "ds_outbox r1 = ds_outbox r" "sms_log (ds_db r1) = sms_log (ds_db r)"
    | (sent) m l where "ds_outbox r1 = ds_outbox r @ [m]" "entitled E (ds_db r) sq m" "message_key m \<notin> log_keys (ds_db r)"
        "logs_message E m l" "sms_log (ds_db r1) = sms_log (ds_db r) @ (if dm_accepted m then [l] else [])"
    unfolding turn_effect_def by blast
  then show ?thesis
  proof cases
    case quiet
    with base show ?thesis by (intro exI [of _ "[]"]) (simp add: loop_effect_none)
  next
    case sent
    have "dm_sequence m = sq_id sq" using sent(2) by (simp add: entitled_def)
    with sent base show ?thesis
      by (intro exI [of _ "[m]"] exI [of _ "if dm_accepted m then [l] else []"]) (auto simp: loop_effect_def)
  qed
qed

lemma loop_effect_append:
  assumes "loop_effect E sqs r ms ls r1" "loop_effect E sqs' r1 ms' ls' r'"
  shows "loop_effect E (sqs @ sqs') r (ms @ ms') (ls @ ls') r'"
proof -
  have base: "same_base (ds_db r) (ds_db r1)" using assms(1) by (simp add: loop_effect_def)
  have keys: "log_keys (ds_db r1) = log_keys (ds_db r) \<union> set (accepted_keys ms)"
  proof -
    have "list_all2 (logs_message E) (filter dm_accepted ms) ls" using assms(1) by (simp add: loop_effect_def)
    then have "map sl_idempotency_key ls = map Some (map message_key (filter dm_accepted ms))"
      by (induction rule: list_all2_induct) (auto simp: logs_message_def)
    then have "sl_idempotency_key ` set ls = Some ` set (accepted_keys ms)"
      unfolding accepted_keys_def by (metis image_set map_map)
    then show ?thesis using assms(1) by (auto simp: loop_effect_def log_keys_def image_iff image_Un)
  qed
  have app: "accepted_keys (ms @ ms') = accepted_keys ms @ accepted_keys ms'" by (simp add: accepted_keys_def)
  show ?thesis
    using assms keys entitled_same_base [OF base, of E] unfolding loop_effect_def app
    by (auto intro: same_base_trans list_all2_appendI list_emb_append_mono)
qed

lemma sequence_loop_effect:
  "sequence_loop E i sqs r = (x, r') \<Longrightarrow> \<exists>sqs' ms ls. prefix sqs' sqs \<and> loop_effect E sqs' r ms ls r'"
proof (induction sqs arbitrary: i r)
  case Nil
  then show ?case by (intro exI [of _ "[]"]) (simp add: loop_effect_none)
next
  case (Cons sq sqs)
  obtain y r1 where t: "sequence_turn E i sq r = (y, r1)" by fastforce
  obtain ms ls where one: "loop_effect E [sq] r ms ls r1"
    using turn_loop_effect [OF sequence_turn_effect [OF t]] by blast
  show ?case
  proof (cases y)
    case (Some e)
    with Cons.prems t one show ?thesis by (intro exI [of _ "[sq]"]) auto
  next
    case None
    with Cons.prems t have "sequence_loop E (Suc i) sqs r1 = (x, r')" by simp
    from Cons.IH [OF this] obtain sqs' ms' ls' where p: "prefix sqs' sqs" "loop_effect E sqs' r1 ms' ls' r'" by blast
    show ?thesis
      using loop_effect_append [OF one p(2)] p(1) by (intro exI [of _ "sq # sqs'"]) auto
  qed
qed

text \<open>What a whole run does, whether it commits or not.\<close>

lemma run_due_effect:
  defines "t E limit d \<equiv> run_due_sms_sequences E limit d"
  shows "\<exists>sqs ms ls r. prefix sqs (due_sequences E limit d)
     \<and> loop_effect E sqs \<lparr>ds_db = d, ds_processed = 0, ds_sent = 0, ds_stopped = 0, ds_outbox = []\<rparr> ms ls r
     \<and> dt_outbox (t E limit d) = ms
     \<and> (ms \<noteq> [] \<longrightarrow> is_within_sms_window (de_settings E) (de_zone E) (de_now E))
     \<and> (if is_error (dt_result (t E limit d)) then dt_db (t E limit d) = d
        else sms_log (dt_db (t E limit d)) = sms_log d @ ls \<and> same_base d (dt_db (t E limit d)))"
proof (cases "is_within_sms_window (de_settings E) (de_zone E) (de_now E)")
  case False
  then show ?thesis
    by (intro exI [of _ "[]"] exI [of _ "\<lparr>ds_db = d, ds_processed = 0, ds_sent = 0, ds_stopped = 0, ds_outbox = []\<rparr>"])
      (simp add: t_def run_due_sms_sequences_def loop_effect_none)
next
  case True
  let ?r = "\<lparr>ds_db = d, ds_processed = 0, ds_sent = 0, ds_stopped = 0, ds_outbox = []\<rparr>"
  obtain x r where l: "sequence_loop E 0 (due_sequences E limit d) ?r = (x, r)" by fastforce
  obtain sqs ms ls where e: "prefix sqs (due_sequences E limit d)" "loop_effect E sqs ?r ms ls r"
    using sequence_loop_effect [OF l] by blast
  show ?thesis
    using True l e by (intro exI [of _ sqs] exI [of _ ms] exI [of _ ls] exI [of _ r])
      (cases x; simp add: t_def run_due_sms_sequences_def loop_effect_def)
qed

section \<open>The opt-out notice survives the tidying of the text\<close>

fun double_space :: "string \<Rightarrow> bool" where
  "double_space (c # d # s) = (c = CHR '' '' \<and> d = CHR '' '' \<or> double_space (d # s))"
| "double_space s = False"

lemma double_space_append:
  "double_space (xs @ ys) \<longleftrightarrow> double_space xs \<or> double_space ys
     \<or> xs \<noteq> [] \<and> ys \<noteq> [] \<and> last xs = CHR '' '' \<and> hd ys = CHR '' ''"
proof (induction xs rule: double_space.induct)
  case (1 c d s)
  then show ?case by auto
qed (cases ys, auto)+

lemma lower_space_iff: "lower_char c = CHR '' '' \<longleftrightarrow> c = CHR '' ''"
proof
  assume *: "lower_char c = CHR '' ''"
  have up: "code_point (char_of (n + 32) :: char) = n + 32" if "n \<le> 222" for n :: nat using that by simp
  show "c = CHR '' ''"
  proof (rule ccontr)
    assume "c \<noteq> CHR '' ''"
    with * have "(65 \<le> code_point c \<and> code_point c \<le> 90) \<or> (192 \<le> code_point c \<and> code_point c \<le> 222)"
      and "lower_char c = char_of (code_point c + 32)"
      by (auto simp: lower_char_def Let_def split: if_splits)
    then have "code_point (lower_char c) = code_point c + 32" "65 \<le> code_point c" using up [of "code_point c"] by auto
    with * show False by simp
  qed
qed (simp add: lower_char_def)

lemma double_space_lower [simp]: "double_space (map lower_char s) = double_space s"
  by (induction s rule: double_space.induct) (auto simp: lower_space_iff)

lemma prefix_two_spaces: "prefix ''  '' s \<longleftrightarrow> (\<exists>u. s = CHR '' '' # CHR '' '' # u)"
  by (auto simp: prefix_def)

lemma replace_two: "replace_text ''  '' '' '' (CHR '' '' # CHR '' '' # v) = CHR '' '' # replace_text ''  '' '' '' v"
  by (subst replace_text.simps) simp

lemma replace_one:
  assumes "\<not> prefix ''  '' (c # s)"
  shows "replace_text ''  '' '' '' (c # s) = c # replace_text ''  '' '' '' s"
proof -
  have "\<not> (''  '' \<noteq> [] \<and> prefix ''  '' (c # s))" using assms by blast
  then show ?thesis by (subst replace_text.simps) (simp only: list.case if_False)
qed

lemma replace_keeps_right:
  assumes "\<not> double_space n" "n \<noteq> []" "last n \<noteq> CHR '' ''"
  shows "replace_text ''  '' '' '' (n @ b) = n @ replace_text ''  '' '' '' b"
  using assms
proof (induction n)
  case Nil
  then show ?case by simp
next
  case (Cons c n)
  have "\<not> prefix ''  '' (c # n @ b)"
    using Cons.prems by (cases n) (auto simp: prefix_two_spaces)
  then have step: "replace_text ''  '' '' '' ((c # n) @ b) = c # replace_text ''  '' '' '' (n @ b)"
    using replace_one by simp
  show ?case
  proof (cases n)
    case Nil
    with step show ?thesis by simp
  next
    case (Cons e n')
    then have "\<not> double_space n" "n \<noteq> []" "last n \<noteq> CHR '' ''" using Cons.prems by auto
    with step Cons.IH show ?thesis by simp
  qed
qed

lemma replace_splits_left:
  assumes "c \<noteq> CHR '' ''"
  shows "replace_text ''  '' '' '' (xs @ c # ys) = replace_text ''  '' '' '' xs @ replace_text ''  '' '' '' (c # ys)"
proof (induction "length xs" arbitrary: xs rule: less_induct)
  case less
  show ?case
  proof (cases xs)
    case Nil
    then show ?thesis by (simp add: replace_text.simps [of _ _ "[]"])
  next
    case (Cons x u)
    show ?thesis
    proof (cases "prefix ''  '' xs")
      case True
      then obtain v where v: "xs = CHR '' '' # CHR '' '' # v" by (auto simp: prefix_two_spaces)
      then have "replace_text ''  '' '' '' (v @ c # ys) = replace_text ''  '' '' '' v @ replace_text ''  '' '' '' (c # ys)"
        using less by simp
      with v show ?thesis by (simp add: replace_two)
    next
      case False
      then have "\<not> prefix ''  '' (xs @ c # ys)" using assms Cons by (cases u) (auto simp: prefix_two_spaces)
      moreover have "replace_text ''  '' '' '' (u @ c # ys) = replace_text ''  '' '' '' u @ replace_text ''  '' '' '' (c # ys)"
        using less Cons by simp
      ultimately show ?thesis
        using replace_one [of x u] replace_one [of x "u @ c # ys"] False Cons by simp
    qed
  qed
qed

lemma strip_keeps:
  assumes "n \<noteq> []" "\<not> is_space (hd n)" "\<not> is_space (last n)"
  shows "strip (a @ n @ b) = lstrip a @ n @ rev (lstrip (rev b))"
proof -
  have l: "lstrip (xs @ m @ ys) = lstrip xs @ m @ ys" if "m \<noteq> []" "\<not> is_space (hd m)" for xs m ys :: string
    using that by (induction xs) (auto simp: lstrip_def neq_Nil_conv)
  have "lstrip (a @ n @ b) = lstrip a @ n @ b" using assms by (intro l)
  moreover have "lstrip (rev b @ rev n @ rev (lstrip a)) = lstrip (rev b) @ rev n @ rev (lstrip a)"
    using assms by (intro l) (simp_all add: hd_rev)
  ultimately show ?thesis by (simp add: strip_def)
qed

lemma tidy_keeps_notice:
  assumes "contains (lower notice) (lower body)" "notice \<noteq> []" "\<not> double_space notice"
    and "\<And>c. lower_char c = lower_char (hd notice) \<Longrightarrow> \<not> is_space c"
    and "\<And>c. lower_char c = lower_char (last notice) \<Longrightarrow> \<not> is_space c"
  shows "contains (lower notice) (lower (strip (replace_text ''  '' '' '' body)))"
proof -
  obtain x y where "map lower_char body = x @ (lower notice @ y)"
    using assms(1) by (auto simp: contains_iff_sublist sublist_def lower_def)
  from map_eq_append_conv [THEN iffD1, OF this] obtain a v where av: "body = a @ v" "map lower_char v = lower notice @ y"
    by metis
  from map_eq_append_conv [THEN iffD1, OF av(2)] obtain n b where nb: "v = n @ b" "map lower_char n = lower notice"
    by metis
  have body: "body = a @ n @ b" and n: "lower n = lower notice" using av nb by (simp_all add: lower_def)
  have "map lower_char n = map lower_char notice" using n by (simp add: lower_def)
  note nm = this
  have len: "n \<noteq> []" using nm assms(2) by auto
  have "hd (map lower_char n) = hd (map lower_char notice)" "last (map lower_char n) = last (map lower_char notice)"
    using nm by simp_all
  then have ends: "lower_char (hd n) = lower_char (hd notice)" "lower_char (last n) = lower_char (last notice)"
    by (simp_all only: hd_map [OF len] hd_map [OF assms(2)] last_map [OF len] last_map [OF assms(2)])
  have dbl: "\<not> double_space n" using nm assms(3) double_space_lower by metis
  have sp: "\<not> is_space (hd n)" "\<not> is_space (last n)" using assms(4,5) ends by blast+
  have ns: "hd n \<noteq> CHR '' ''" "last n \<noteq> CHR '' ''" using sp by (auto simp: is_space_def)
  obtain c n' where cn: "n = c # n'" using len by (cases n) auto
  have "replace_text ''  '' '' '' body = replace_text ''  '' '' '' a @ replace_text ''  '' '' '' (n @ b)"
    unfolding body cn using replace_splits_left [of c a "n' @ b"] ns cn by simp
  also have "replace_text ''  '' '' '' (n @ b) = n @ replace_text ''  '' '' '' b"
    using replace_keeps_right dbl len ns by blast
  finally have "strip (replace_text ''  '' '' '' body) = lstrip (replace_text ''  '' '' '' a) @ n
      @ rev (lstrip (rev (replace_text ''  '' '' '' b)))"
    using strip_keeps [OF len sp] by simp
  then show ?thesis by (simp add: lower_append n contains_iff_sublist)
qed

definition full_notice :: "settings \<Rightarrow> string" where
  "full_notice s = ''STOP au '' @ sms_stop_number s @ '' pour ne plus recevoir de SMS''"

lemma map_sum_InrE:
  assumes "map_sum id f r = Inr y"
  obtains x where "r = Inr x" "y = f x"
  using assms by (cases r) auto

lemma render_sequence_notice:
  assumes "render_sequence E sq listing template = Inr body"
    and "sms_stop_number (de_settings E) \<noteq> []" "CHR '' '' \<notin> set (sms_stop_number (de_settings E))"
  shows "contains (lower (full_notice (de_settings E))) (lower body)"
proof -
  let ?s = "de_settings E" and ?n = "full_notice (de_settings E)"
  obtain url title raw where raw: "render_sms_body ?s template url title = Inr raw"
    "body = strip (replace_text ''  '' '' '' raw)"
    using assms(1) by (auto simp: render_sequence_def Let_def elim!: map_sum_InrE)
  have "contains (lower ?n) (lower raw)"
    using render_contains_notice [OF raw(1), of ?n] by (simp add: stop_notice_eq full_notice_def)
  moreover have "\<not> double_space ?n"
  proof -
    have "\<not> double_space xs" if "CHR '' '' \<notin> set xs" for xs using that
      by (induction xs rule: double_space.induct) auto
    then have "\<not> double_space (sms_stop_number ?s)" using assms(3) by blast
    moreover have "hd (sms_stop_number ?s) \<noteq> CHR '' ''" "last (sms_stop_number ?s) \<noteq> CHR '' ''"
      using assms(2,3) by (metis hd_in_set, metis last_in_set)
    ultimately have "\<not> double_space (sms_stop_number ?s @ '' pour ne plus recevoir de SMS'')"
      using double_space_append [of "sms_stop_number ?s"] by simp
    then show ?thesis
      using double_space_append [of "''STOP au ''" "sms_stop_number ?s @ '' pour ne plus recevoir de SMS''"] assms(2)
        \<open>hd (sms_stop_number ?s) \<noteq> CHR '' ''\<close>
      by (simp add: full_notice_def)
  qed
  moreover have "lower_char (CHR ''S'') = CHR ''s''" by code_simp
  then have "lower_char (hd ?n) = CHR ''s''" "lower_char (last ?n) = CHR ''s''" by (simp_all add: full_notice_def)
  moreover have "\<not> is_space c" if "lower_char c = CHR ''s''" for c
    using that by (auto simp: lower_char_def is_space_def Let_def split: if_splits)
  ultimately show ?thesis
    unfolding raw(2) by (intro tidy_keeps_notice) (auto simp: full_notice_def)
qed

section \<open>Properties\<close>

text \<open>Demonstration data: two contacts in two campaigns with one template each.\<close>

definition demo_contact :: "uuid \<Rightarrow> string \<Rightarrow> contact" where
  "demo_contact i phone = \<lparr>co_id = i, co_phone_e164 = phone, co_status = CT_ACTIVE, co_last_classification = None,
     co_last_inbound_at = None, co_created_at = 0, co_updated_at = 0\<rparr>"

definition demo_sequence :: "uuid \<Rightarrow> uuid \<Rightarrow> uuid \<Rightarrow> sms_sequence" where
  "demo_sequence i contact campaign = \<lparr>sq_id = i, sq_contact_id = contact, sq_listing_id = None, sq_campaign_id = Some campaign,
     sq_current_step = -1, sq_next_due_at = Some 0, sq_status = SQ_ACTIVE, sq_context_json = [], sq_created_at = 0,
     sq_updated_at = 0\<rparr>"

definition demo_template :: "uuid \<Rightarrow> uuid \<Rightarrow> int \<Rightarrow> string \<Rightarrow> campaign_message_template" where
  "demo_template i campaign step body = \<lparr>ct_id = i, ct_campaign_id = campaign, ct_channel = ''sms'', ct_step = step,
     ct_variant_key = ''v'', ct_delay_days = 1, ct_send_time = ''10:00'', ct_body = body, ct_enabled = True, ct_updated_at = 0\<rparr>"

definition demo_due_db :: "string \<Rightarrow> db" where
  "demo_due_db body = empty_db\<lparr>campaigns := [demo_campaign\<lparr>ca_status := C_RUNNING\<rparr>, demo_campaign\<lparr>ca_id := 6, ca_status := C_RUNNING\<rparr>],
     contacts := [demo_contact 1 ''+33600000001'', demo_contact 2 ''+33600000002''],
     sms_sequences := [demo_sequence 3 1 5, demo_sequence 4 2 6],
     campaign_message_templates := [demo_template 7 5 0 ''Bonjour'', demo_template 8 6 0 body],
     fresh_id := 10\<rparr>"

definition demo_due_env :: due_env where
  "demo_due_env = \<lparr>de_settings = default_settings, de_zone = demo_zone, de_now = hours 10, de_tx = hours 10,
     de_sims = (\<lambda>i. Inr [\<lparr>si_id = ''s1'', si_status = Some ''active'', si_quota_remaining = Some 1\<rparr>]),
     de_send = (\<lambda>i sim to body. Inr \<lparr>sr_status = SMS_SENT, sr_cost = 0\<rparr>), de_stops = (\<lambda>i. []), de_locked = (\<lambda>u. False),
     de_text = (\<lambda>j. [])\<rparr>"

lemma select_template_single:
  "sms_templates cid step d = [t] \<Longrightarrow> select_template sid cid step d = Inr (ct_variant_key t, ct_body t)"
  by (simp add: select_template_def)

lemma demo_due_window: "is_within_sms_window (de_settings demo_due_env) (de_zone demo_due_env) (de_now demo_due_env)"
  by code_simp

lemma demo_due_sequences: "due_sequences demo_due_env 100 (demo_due_db body) = [demo_sequence 3 1 5, demo_sequence 4 2 6]"
  by (simp add: due_sequences_def demo_due_db_def demo_sequence_def demo_due_env_def duration_defs)

lemma demo_first_turn:
  "\<exists>d1. sequence_turn demo_due_env 0 (demo_sequence 3 1 5)
      \<lparr>ds_db = demo_due_db body, ds_processed = 0, ds_sent = 0, ds_stopped = 0, ds_outbox = []\<rparr>
    = (None, \<lparr>ds_db = d1, ds_processed = 1, ds_sent = 1, ds_stopped = 0,
        ds_outbox = [\<lparr>dm_sequence = 3, dm_step = 0, dm_turn = 0, dm_sim = ''s1'', dm_to = ''+33600000001'',
          dm_body = ''Bonjour'' @ [CHR 0x0A] @ full_notice default_settings, dm_accepted = True\<rparr>]\<rparr>)
     \<and> same_base (demo_due_db body) d1"
proof -
  have render: "render_sequence demo_due_env (demo_sequence 3 1 5) None ''Bonjour''
      = Inr (''Bonjour'' @ [CHR 0x0A] @ full_notice default_settings)" by code_simp
  have tmpl: "sms_templates 5 0 (demo_due_db body) = [demo_template 7 5 0 ''Bonjour'']"
    by (simp add: sms_templates_def demo_due_db_def demo_template_def)
  have next0: "sms_templates 5 1 d = []" if "campaign_message_templates d = campaign_message_templates (demo_due_db body)" for d
    unfolding sms_templates_def that by (simp add: demo_due_db_def demo_template_def)
  have elig: "eligible_sim demo_due_env (demo_campaign\<lparr>ca_status := C_RUNNING\<rparr>) [] sims (demo_due_db body)
      = Some \<lparr>si_id = ''s1'', si_status = Some ''active'', si_quota_remaining = Some 1\<rparr>"
    if "sims = [\<lparr>si_id = ''s1'', si_status = Some ''active'', si_quota_remaining = Some 1\<rparr>]" for sims
    using that by (simp add: eligible_sim_def used_today_def sim_quota_def demo_campaign_def demo_due_db_def empty_db_def dict_get_def)
  have sched: "schedule_next (demo_sequence 3 1 5) 5 0 d = Inr (Some (days 7))"
    if "campaign_message_templates d = campaign_message_templates (demo_due_db body)" for d
    using next0 [OF that]
    by (simp add: schedule_next_def SEQUENCE_STEPS_def SEQUENCE_DELAYS_DAYS_def one_or_none_def next_due_at_def demo_sequence_def)
  have log: "sms_log (demo_due_db body) = []" by (simp add: demo_due_db_def empty_db_def)
  have camp: "ca_id (demo_campaign\<lparr>ca_status := C_RUNNING\<rparr>) = 5" by (simp add: demo_campaign_def)
  have c1: "find_row (\<lambda>c. co_id c = 1) (contacts (demo_due_db body)) = Some (demo_contact 1 ''+33600000001'')"
    by (simp add: demo_due_db_def demo_contact_def)
  have k1: "find_row (\<lambda>c. ca_id c = 5) (campaigns (demo_due_db body)) = Some (demo_campaign\<lparr>ca_status := C_RUNNING\<rparr>)"
    by (simp add: demo_due_db_def demo_campaign_def)
  have bl: "\<not> is_blacklisted p (d\<lparr>blacklist := []\<rparr>)" for p d by (simp add: is_blacklisted_def)
  show ?thesis
    unfolding sequence_turn_def Let_def deliver_step_def
    using render select_template_single [OF tmpl, of 3] elig [OF refl] sched log camp c1 k1 bl
    by (simp add: demo_sequence_def demo_contact_def demo_due_env_def allowed_sims_def send_step_def Let_def SEQUENCE_STEPS_def
        SEQUENCE_DELAYS_DAYS_def demo_template_def same_base_def sequence_log_def)
qed

lemma distinct_subseq: "subseq xs ys \<Longrightarrow> distinct ys \<Longrightarrow> distinct xs"
  by (induction rule: list_emb.induct) (auto elim: list_emb_set)

lemma demo_bad_run:
  "\<exists>m. dt_outbox (run_due_sms_sequences demo_due_env 100 (demo_due_db ''{nom}'')) = [m] \<and> dm_accepted m
     \<and> dm_sequence m = 3 \<and> is_error (dt_result (run_due_sms_sequences demo_due_env 100 (demo_due_db ''{nom}'')))"
proof -
  obtain d1 r1 where t1: "sequence_turn demo_due_env 0 (demo_sequence 3 1 5)
      \<lparr>ds_db = demo_due_db ''{nom}'', ds_processed = 0, ds_sent = 0, ds_stopped = 0, ds_outbox = []\<rparr> = (None, r1)"
    and r1: "ds_db r1 = d1" "ds_processed r1 = 1" "dm_accepted (hd (ds_outbox r1))" "length (ds_outbox r1) = 1"
      "dm_sequence (hd (ds_outbox r1)) = 3" and base: "same_base (demo_due_db ''{nom}'') d1"
    using demo_first_turn [of "''{nom}''"] by fastforce
  have fields: "contacts d1 = contacts (demo_due_db ''{nom}'')" "campaigns d1 = campaigns (demo_due_db ''{nom}'')"
    "campaign_message_templates d1 = campaign_message_templates (demo_due_db ''{nom}'')"
    using base by (simp_all add: same_base_def)
  have tmpl: "sms_templates 6 0 d1 = [demo_template 8 6 0 ''{nom}'']"
    unfolding sms_templates_def fields by (simp add: demo_due_db_def demo_template_def)
  have render: "render_sequence demo_due_env (demo_sequence 4 2 6) None ''{nom}'' = Inl (KeyError ''nom'')" by code_simp
  have c: "find_row (\<lambda>c. co_id c = 2) (contacts d1) = Some (demo_contact 2 ''+33600000002'')"
    unfolding fields by (simp add: demo_due_db_def demo_contact_def)
  have k: "find_row (\<lambda>c. ca_id c = 6) (campaigns d1) = Some (demo_campaign\<lparr>ca_id := 6, ca_status := C_RUNNING\<rparr>)"
    unfolding fields by (simp add: demo_due_db_def demo_campaign_def)
  have "\<exists>r2. sequence_turn demo_due_env 1 (demo_sequence 4 2 6) r1 = (Some (KeyError ''nom''), r2) \<and> ds_outbox r2 = ds_outbox r1"
    unfolding sequence_turn_def Let_def deliver_step_def
    using render select_template_single [OF tmpl, of 4] c k
    by (simp add: demo_sequence_def demo_contact_def demo_due_env_def r1 SEQUENCE_STEPS_def is_blacklisted_def
        SEQUENCE_DELAYS_DAYS_def demo_template_def)
  then obtain r2 where t2: "sequence_turn demo_due_env 1 (demo_sequence 4 2 6) r1 = (Some (KeyError ''nom''), r2)"
    "ds_outbox r2 = ds_outbox r1" by blast
  have run: "run_due_sms_sequences demo_due_env 100 (demo_due_db ''{nom}'')
      = \<lparr>dt_result = Inl (KeyError ''nom''), dt_db = demo_due_db ''{nom}'', dt_outbox = ds_outbox r1\<rparr>"
    using demo_due_window t1 t2 by (simp add: run_due_sms_sequences_def demo_due_sequences)
  obtain m where "ds_outbox r1 = [m]" using r1(4) by (auto simp: length_Suc_conv)
  with run r1 show ?thesis by simp
qed

text \<open>
  C5. Who gets a follow-up. Every message of a run goes out in the sending window, for the step after
  the last one of an active sequence that is due and that no other worker holds, to the number of its
  \<open>ACTIVE\<close> contact, which is not blacklisted when the turn reads the list; from a SIM that the gateway
  lists as active, and one of the sector of its listing where that sector has SIMs; its text is the text of
  the template selected for that step of its own campaign, with the listing of the sequence, and carries
  the opt-out notice; and a run sends at most one message per sequence, and at most \<open>limit\<close>.
\<close>

theorem due_messages_entitled:
  assumes "distinct (map sq_id (sms_sequences d))"
    and "sms_stop_number (de_settings E) \<noteq> []" "CHR '' '' \<notin> set (sms_stop_number (de_settings E))"
  shows "distinct (map dm_sequence (dt_outbox (run_due_sms_sequences E limit d)))
    \<and> length (dt_outbox (run_due_sms_sequences E limit d)) \<le> limit
    \<and> (\<forall>m\<in>set (dt_outbox (run_due_sms_sequences E limit d)).
        is_within_sms_window (de_settings E) (de_zone E) (de_now E)
        \<and> contains (lower (full_notice (de_settings E))) (lower (dm_body m))
        \<and> (\<exists>sq\<in>set (sms_sequences d). sq_id sq = dm_sequence m \<and> sq_status sq = SQ_ACTIVE
            \<and> (\<exists>due. sq_next_due_at sq = Some due \<and> due \<le> de_now E) \<and> \<not> de_locked E (sq_id sq)
            \<and> dm_step m = sq_current_step sq + 1 \<and> dm_step m < SEQUENCE_STEPS
            \<and> (\<exists>contact\<in>set (contacts d). co_id contact = sq_contact_id sq \<and> co_status contact = CT_ACTIVE
                \<and> co_phone_e164 contact = dm_to m
                \<and> \<not> is_blacklisted (dm_to m) (d\<lparr>blacklist := de_stops E (dm_turn m)\<rparr>))
            \<and> (\<exists>sims sim. de_sims E (dm_turn m) = Inr sims \<and> sim \<in> set sims \<and> si_id sim = dm_sim m
                \<and> si_status sim = Some ''active'')
            \<and> (\<forall>l sid. sequence_listing sq d = Some l \<and> li_sector_id l = Some sid \<and> sid \<in> ss_sector_id ` set (sector_sims d) \<longrightarrow>
                (\<exists>r\<in>set (sector_sims d). ss_sector_id r = sid \<and> ss_sim_id r = dm_sim m))
            \<and> (\<exists>cid variant template. sq_campaign_id sq = Some cid
                \<and> select_template (sq_id sq) cid (dm_step m) d = Inr (variant, template)
                \<and> render_sequence E sq (sequence_listing sq d) template = Inr (dm_body m))))"
proof -
  let ?t = "run_due_sms_sequences E limit d"
  obtain sqs ms ls r where sqs: "prefix sqs (due_sequences E limit d)"
    and e: "loop_effect E sqs \<lparr>ds_db = d, ds_processed = 0, ds_sent = 0, ds_stopped = 0, ds_outbox = []\<rparr> ms ls r"
    and out: "dt_outbox ?t = ms" and win: "ms \<noteq> [] \<longrightarrow> is_within_sms_window (de_settings E) (de_zone E) (de_now E)"
    using run_due_effect [of E limit d] by blast
  have due: "sq \<in> set (sms_sequences d) \<and> sq_status sq = SQ_ACTIVE \<and> (\<exists>due. sq_next_due_at sq = Some due \<and> due \<le> de_now E)
      \<and> \<not> de_locked E (sq_id sq)" if "sq \<in> set sqs" for sq
  proof -
    have "sq \<in> set (due_sequences E limit d)" using that set_mono_prefix [OF sqs] by blast
    then show ?thesis by (auto simp: due_sequences_def dest!: in_set_takeD split: option.splits)
  qed
  have "distinct (map sq_id (due_sequences E limit d))"
    unfolding due_sequences_def take_map [symmetric] by (intro distinct_take distinct_map_filter assms(1))
  then have "distinct (map sq_id sqs)" using sqs by (auto simp: prefix_def)
  moreover have "subseq (map dm_sequence ms) (map sq_id sqs)" using e by (simp add: loop_effect_def)
  ultimately have dist: "distinct (map dm_sequence ms)" by (rule distinct_subseq [rotated])
  have "length ms \<le> length sqs" using list_emb_length [OF \<open>subseq (map dm_sequence ms) (map sq_id sqs)\<close>] by simp
  moreover have "length sqs \<le> limit" using prefix_length_le [OF sqs] by (simp add: due_sequences_def)
  ultimately have len: "length ms \<le> limit" by simp
  have each: "is_within_sms_window (de_settings E) (de_zone E) (de_now E)
        \<and> contains (lower (full_notice (de_settings E))) (lower (dm_body m))
        \<and> (\<exists>sq\<in>set (sms_sequences d). sq_id sq = dm_sequence m \<and> sq_status sq = SQ_ACTIVE
            \<and> (\<exists>due. sq_next_due_at sq = Some due \<and> due \<le> de_now E) \<and> \<not> de_locked E (sq_id sq)
            \<and> dm_step m = sq_current_step sq + 1 \<and> dm_step m < SEQUENCE_STEPS
            \<and> (\<exists>contact\<in>set (contacts d). co_id contact = sq_contact_id sq \<and> co_status contact = CT_ACTIVE
                \<and> co_phone_e164 contact = dm_to m
                \<and> \<not> is_blacklisted (dm_to m) (d\<lparr>blacklist := de_stops E (dm_turn m)\<rparr>))
            \<and> (\<exists>sims sim. de_sims E (dm_turn m) = Inr sims \<and> sim \<in> set sims \<and> si_id sim = dm_sim m
                \<and> si_status sim = Some ''active'')
            \<and> (\<forall>l sid. sequence_listing sq d = Some l \<and> li_sector_id l = Some sid \<and> sid \<in> ss_sector_id ` set (sector_sims d) \<longrightarrow>
                (\<exists>r\<in>set (sector_sims d). ss_sector_id r = sid \<and> ss_sim_id r = dm_sim m))
            \<and> (\<exists>cid variant template. sq_campaign_id sq = Some cid
                \<and> select_template (sq_id sq) cid (dm_step m) d = Inr (variant, template)
                \<and> render_sequence E sq (sequence_listing sq d) template = Inr (dm_body m)))"
    if m: "m \<in> set ms" for m
  proof -
    obtain sq where sq: "sq \<in> set sqs" "entitled E d sq m" using e m by (auto simp: loop_effect_def)
    have "contains (lower (full_notice (de_settings E))) (lower (dm_body m))"
      using sq(2) render_sequence_notice [OF _ assms(2,3)] unfolding entitled_def by blast
    moreover have "is_within_sms_window (de_settings E) (de_zone E) (de_now E)" using win m by auto
    ultimately show ?thesis using sq(2) due [OF sq(1)] unfolding entitled_def sim_allowed_def by metis
  qed
  show ?thesis unfolding out using dist len each by blast
qed

lemma due_messages_entitled_witness:
  "\<exists>m\<in>set (dt_outbox (run_due_sms_sequences demo_due_env 100 (demo_due_db ''{nom}''))).
     \<exists>contact\<in>set (contacts (demo_due_db ''{nom}'')). co_phone_e164 contact = dm_to m \<and> co_status contact = CT_ACTIVE"
proof -
  have "distinct (map sq_id (sms_sequences (demo_due_db ''{nom}'')))" by (simp add: demo_due_db_def demo_sequence_def)
  moreover have "sms_stop_number (de_settings demo_due_env) \<noteq> []" "CHR '' '' \<notin> set (sms_stop_number (de_settings demo_due_env))"
    by (simp_all add: demo_due_env_def default_settings_def)
  ultimately show ?thesis
    using due_messages_entitled [of "demo_due_db ''{nom}''" demo_due_env 100] demo_bad_run by fastforce
qed

text \<open>The history of the runs, with any interference between them that leaves the logged rows.\<close>

type_synonym due_event = "(db \<Rightarrow> db) \<times> sms_log list \<times> due_env \<times> nat"

definition due_event_run :: "due_event \<Rightarrow> db \<Rightarrow> due_message list \<times> db" where
  \<comment> \<open>other sessions change the database as they like and log more rows; then a run, with the accepted
      messages of a committed one\<close>
  "due_event_run e d =
     (case e of (others, logged, E, limit) \<Rightarrow>
        (let t = run_due_sms_sequences E limit ((others d)\<lparr>sms_log := sms_log d @ logged\<rparr>) in
         (if is_error (dt_result t) then [] else filter dm_accepted (dt_outbox t), dt_db t)))"

fun due_history :: "due_event list \<Rightarrow> db \<Rightarrow> due_message list \<times> db" where
  "due_history [] d = ([], d)"
| "due_history (e # es) d = (case due_event_run e d of (ms, d1) \<Rightarrow> (case due_history es d1 of (ms', d2) \<Rightarrow> (ms @ ms', d2)))"

definition due_keys :: "due_event \<Rightarrow> db \<Rightarrow> string list \<times> db" where
  "due_keys e d = map_prod (map message_key) id (due_event_run e d)"

lemma due_event_run_effect:
  assumes "due_event_run e d = (ms, d')"
  shows "distinct (map message_key ms) \<and> set (map message_key ms) \<inter> log_keys d = {}
    \<and> log_keys d \<union> set (map message_key ms) \<subseteq> log_keys d'"
proof -
  obtain others logged E limit where e: "e = (others, logged, E, limit)" by (cases e) auto
  define d0 where "d0 = (others d)\<lparr>sms_log := sms_log d @ logged\<rparr>"
  have mono: "log_keys d \<subseteq> log_keys d0" by (auto simp: log_keys_def d0_def)
  let ?t = "run_due_sms_sequences E limit d0"
  have ms: "ms = (if is_error (dt_result ?t) then [] else filter dm_accepted (dt_outbox ?t))" and d': "d' = dt_db ?t"
    using assms unfolding e due_event_run_def prod.case Let_def d0_def [symmetric] by (simp_all only: prod.inject)
  obtain sqs ms0 ls r where
    eff: "loop_effect E sqs \<lparr>ds_db = d0, ds_processed = 0, ds_sent = 0, ds_stopped = 0, ds_outbox = []\<rparr> ms0 ls r"
    and out: "dt_outbox ?t = ms0"
    and db: "if is_error (dt_result ?t) then dt_db ?t = d0 else sms_log (dt_db ?t) = sms_log d0 @ ls \<and> same_base d0 (dt_db ?t)"
    using run_due_effect [of E limit d0] by blast
  show ?thesis
  proof (cases "is_error (dt_result ?t)")
    case True
    with ms d' db mono show ?thesis by simp
  next
    case False
    have keys: "map message_key ms = accepted_keys ms0" using ms False out by (simp add: accepted_keys_def)
    have "list_all2 (logs_message E) (filter dm_accepted ms0) ls" using eff by (simp add: loop_effect_def)
    then have "set (accepted_keys ms0) \<subseteq> {k. Some k \<in> sl_idempotency_key ` set ls}"
      unfolding accepted_keys_def
      by (induction rule: list_all2_induct) (auto simp: logs_message_def image_iff)
    then have "log_keys d0 \<union> set (accepted_keys ms0) \<subseteq> log_keys d'"
      using False db d' by (auto simp: log_keys_def)
    moreover have "distinct (accepted_keys ms0)" "set (accepted_keys ms0) \<inter> log_keys d0 = {}"
      using eff by (simp_all add: loop_effect_def)
    ultimately show ?thesis unfolding keys using mono by blast
  qed
qed

interpretation due_ledger: ledger "\<lambda>_. True" log_keys due_keys
proof
  fix e d
  obtain ms d' where r: "due_event_run e d = (ms, d')" by fastforce
  note * = due_event_run_effect [OF r]
  show "distinct (fst (due_keys e d))" "set (fst (due_keys e d)) \<inter> log_keys d = {}"
    "log_keys d \<union> set (fst (due_keys e d)) \<subseteq> log_keys (snd (due_keys e d))"
    using * by (simp_all add: due_keys_def r)
qed simp

lemma due_history_keys: "due_ledger.history es d = map_prod (map message_key) id (due_history es d)"
  by (induction es arbitrary: d) (simp_all add: due_keys_def case_prod_beta)

lemma demo_good_run:
  "\<exists>m d'. due_event_run (\<lambda>d. d, [], demo_due_env, 1) (demo_due_db ''Bonjour'') = ([m], d') \<and> dm_sequence m = 3"
proof -
  have due: "due_sequences demo_due_env (Suc 0) (demo_due_db ''Bonjour'') = [demo_sequence 3 1 5]"
    by (simp add: due_sequences_def demo_due_db_def demo_sequence_def demo_due_env_def duration_defs)
  have same: "demo_due_db ''Bonjour'' \<lparr>sms_log := sms_log (demo_due_db ''Bonjour'') @ []\<rparr> = demo_due_db ''Bonjour''" by simp
  obtain d1 where "sequence_turn demo_due_env 0 (demo_sequence 3 1 5)
      \<lparr>ds_db = demo_due_db ''Bonjour'', ds_processed = 0, ds_sent = 0, ds_stopped = 0, ds_outbox = []\<rparr>
    = (None, \<lparr>ds_db = d1, ds_processed = 1, ds_sent = 1, ds_stopped = 0,
        ds_outbox = [\<lparr>dm_sequence = 3, dm_step = 0, dm_turn = 0, dm_sim = ''s1'', dm_to = ''+33600000001'',
          dm_body = ''Bonjour'' @ [CHR 0x0A] @ full_notice default_settings, dm_accepted = True\<rparr>]\<rparr>)"
    using demo_first_turn [of "''Bonjour''"] by blast
  then show ?thesis
    using demo_due_window by (simp add: due_event_run_def same run_due_sms_sequences_def due Let_def)
qed

text \<open>
  C3. No step twice. Over any history of runs, whatever other sessions do to the database between
  them as long as logged messages stay, no step of a sequence is accepted by the gateway twice in
  committed runs; what was logged before the history is not sent again either.
\<close>

theorem no_step_twice:
  "distinct (map (\<lambda>m. (dm_sequence m, dm_step m)) (fst (due_history es d)))
    \<and> (\<forall>m\<in>set (fst (due_history es d)). sequence_key (dm_sequence m) (dm_step m) \<notin> log_keys d
         \<and> sequence_key (dm_sequence m) (dm_step m) \<in> log_keys (snd (due_history es d)))"
proof -
  have *: "distinct (map message_key (fst (due_history es d)))"
    "set (map message_key (fst (due_history es d))) \<inter> log_keys d = {}"
    "set (map message_key (fst (due_history es d))) \<subseteq> log_keys (snd (due_history es d))"
    using due_ledger.history_once [where d = d and es = es] by (simp_all add: due_history_keys)
  have "map message_key (fst (due_history es d))
      = map (case_prod sequence_key) (map (\<lambda>m. (dm_sequence m, dm_step m)) (fst (due_history es d)))"
    by (simp add: message_key_def)
  then have "distinct (map (\<lambda>m. (dm_sequence m, dm_step m)) (fst (due_history es d)))"
    using *(1) by (metis distinct_map)
  then show ?thesis using *(2,3) by (auto simp: message_key_def)
qed

lemma no_step_twice_witness:
  "\<exists>m\<in>set (fst (due_history [(\<lambda>d. d, [], demo_due_env, 1), (\<lambda>d. d, [], demo_due_env, 1)] (demo_due_db ''Bonjour''))).
     dm_sequence m = 3 \<and> sequence_key 3 (dm_step m)
       \<in> log_keys (snd (due_history [(\<lambda>d. d, [], demo_due_env, 1), (\<lambda>d. d, [], demo_due_env, 1)] (demo_due_db ''Bonjour'')))"
proof -
  let ?e = "(\<lambda>d. d, [], demo_due_env, 1) :: due_event"
  obtain m d' where "due_event_run ?e (demo_due_db ''Bonjour'') = ([m], d')" "dm_sequence m = 3"
    using demo_good_run by blast
  then have m: "m \<in> set (fst (due_history [?e, ?e] (demo_due_db ''Bonjour'')))" "dm_sequence m = 3"
    by (simp_all add: split_beta)
  show ?thesis
    using bspec [OF conjunct2 [OF no_step_twice [of "[?e, ?e]" "demo_due_db ''Bonjour''"]] m(1)]
    unfolding m(2) by (intro bexI [OF _ m(1)] conjI m(2)) (rule conjunct2)
qed

section \<open>A text that cannot be rendered\<close>














text \<open>Quotas count the rows logged in the same transaction.\<close>

lemma used_today_append:
  "used_today E s (d\<lparr>sms_log := xs @ ys\<rparr>) = used_today E s (d\<lparr>sms_log := xs\<rparr>) + used_today E s (d\<lparr>sms_log := ys\<rparr>)"
  by (simp add: used_today_def)

lemma used_today_log: "sms_log d = sms_log d' \<Longrightarrow> used_today E s d = used_today E s d'"
  by (simp add: used_today_def)

lemma turn_effect_quota:
  assumes "turn_effect E sq r r'" and "\<forall>c\<in>set (campaigns (ds_db r)). ca_quota_per_sim c \<le> Q"
  shows "used_today E s (ds_db r') \<le> max (used_today E s (ds_db r)) Q"
proof -
  from assms(1) consider (quiet) "sms_log (ds_db r') = sms_log (ds_db r)"
    | (sent) m l where "in_quota E (ds_db r) (dm_sim m)" "logs_message E m l"
        "sms_log (ds_db r') = sms_log (ds_db r) @ (if dm_accepted m then [l] else [])"
    unfolding turn_effect_def by blast
  then show ?thesis
  proof cases
    case quiet
    then show ?thesis using used_today_log [of "ds_db r'" "ds_db r" E s] by simp
  next
    case sent
    have up: "used_today E s (ds_db r') = used_today E s (ds_db r)
        + int (length (filter (\<lambda>l. sl_sim_id l = s \<and> sl_direction l = DIR_OUTBOUND
            \<and> de_now E - de_now E mod days 1 \<le> sl_sent_at l) (if dm_accepted m then [l] else [])))"
      by (simp add: used_today_def sent(3))
    show ?thesis
    proof (cases "sl_sim_id l = s")
      case False
      then show ?thesis unfolding up by simp
    next
      case True
      then have "dm_sim m = s" using sent(2) by (simp add: logs_message_def)
      then have "used_today E s (ds_db r) < Q" using sent(1) assms(2) by (auto simp: in_quota_def)
      then show ?thesis unfolding up by simp
    qed
  qed
qed

lemma sequence_loop_quota:
  "sequence_loop E i sqs r = (x, r') \<Longrightarrow> \<forall>c\<in>set (campaigns (ds_db r)). ca_quota_per_sim c \<le> Q \<Longrightarrow>
     used_today E s (ds_db r') \<le> max (used_today E s (ds_db r)) Q"
proof (induction sqs arbitrary: i r)
  case Nil
  then show ?case by simp
next
  case (Cons sq sqs)
  obtain y r1 where t: "sequence_turn E i sq r = (y, r1)" by fastforce
  have eff: "turn_effect E sq r r1" by (rule sequence_turn_effect [OF t])
  then have "campaigns (ds_db r1) = campaigns (ds_db r)" by (simp add: turn_effect_def same_base_def)
  moreover have "used_today E s (ds_db r1) \<le> max (used_today E s (ds_db r)) Q"
    using turn_effect_quota [OF eff Cons.prems(2)] .
  ultimately show ?case
    using Cons.prems t Cons.IH [of "Suc i" r1] by (cases y) (auto simp: max_def split: if_splits)
qed

text \<open>
  Daily limits of the SIMs. When every campaign allows at most \<open>Q\<close> messages per SIM and day, a run
  never brings the number of messages a SIM sent today above \<open>Q\<close>; a SIM already above is not used.
\<close>

theorem due_run_daily_limit:
  assumes "\<forall>c\<in>set (campaigns d). ca_quota_per_sim c \<le> Q"
  shows "used_today E s (dt_db (run_due_sms_sequences E limit d)) \<le> max (used_today E s d) Q"
proof -
  let ?r = "\<lparr>ds_db = d, ds_processed = 0, ds_sent = 0, ds_stopped = 0, ds_outbox = []\<rparr>"
  obtain x r where l: "sequence_loop E 0 (due_sequences E limit d) ?r = (x, r)" by fastforce
  have "used_today E s (ds_db r) \<le> max (used_today E s d) Q"
    using sequence_loop_quota [OF l, of Q s] assms by simp
  then show ?thesis by (cases x) (simp_all add: run_due_sms_sequences_def l)
qed

lemma due_run_daily_limit_witness:
  "used_today demo_due_env ''s1'' (dt_db (run_due_sms_sequences demo_due_env 100 (demo_due_db ''Bonsoir''))) \<le> 15"
proof -
  have 1: "\<forall>c\<in>set (campaigns (demo_due_db ''Bonsoir'')). ca_quota_per_sim c \<le> 15"
    by (simp add: demo_due_db_def demo_campaign_def)
  have 2: "used_today demo_due_env ''s1'' (demo_due_db ''Bonsoir'') = 0"
    by (simp add: used_today_def demo_due_db_def empty_db_def)
  show ?thesis using due_run_daily_limit [OF 1, of demo_due_env "''s1''" 100] 2 by simp
qed

text \<open>
  Two variants of the next step remove its delay. When a campaign has two enabled templates for
  the step after the one being sent, the query for its delay raises after the gateway accepted the
  message; the exception is swallowed, so the sequence has moved on but is still due: the next run
  sends the next step at once instead of days later. The message is not counted as sent.
\<close>

theorem two_variants_no_delay:
  assumes "de_send E i sim_id (co_phone_e164 contact) body = Inr res" "sr_status res = SMS_SENT"
    and "step + 1 < SEQUENCE_STEPS" and "2 \<le> length (sms_templates cid (step + 1) (ds_db r))"
    and "find_row (\<lambda>s. sq_id s = sq_id sq) (sms_sequences (ds_db r)) = Some row"
    and "r' = send_step E i sq contact listing cid step variant body sim_id r"
  shows "find_row (\<lambda>s. sq_id s = sq_id sq) (sms_sequences (ds_db r')) = Some (row\<lparr>sq_current_step := step\<rparr>)
    \<and> dm_accepted (last (ds_outbox r')) \<and> ds_sent r' = ds_sent r
    \<and> (\<forall>E'. de_now E \<le> de_now E' \<longrightarrow> row \<in> set (due_sequences E limit (ds_db r)) \<longrightarrow> \<not> de_locked E' (sq_id row) \<longrightarrow>
         row\<lparr>sq_current_step := step\<rparr> \<in> set (due_sequences E' (length (sms_sequences (ds_db r'))) (ds_db r')))"
proof -
  define d1 where "d1 = (ds_db r)\<lparr>sms_log := sms_log (ds_db r) @ [sequence_log E (sq_id sq) contact listing cid step variant
     body sim_id (sr_cost res) (fresh_id (ds_db r))], fresh_id := Suc (fresh_id (ds_db r))\<rparr>"
  define d2 where "d2 = set_sequence (sq_id sq) (\<lambda>s. s\<lparr>sq_current_step := step\<rparr>) d1"
  have "sms_templates cid (step + 1) d2 = sms_templates cid (step + 1) (ds_db r)"
    by (simp add: sms_templates_def d2_def d1_def)
  then have "one_or_none (sms_templates cid (step + 1) d2) = Inl MultipleResultsFound"
    using assms(4) by (auto simp: one_or_none_def split: list.split)
  then have sched: "schedule_next sq cid step d2 = Inl MultipleResultsFound" using assms(3) by (simp add: schedule_next_def)
  define msg where "msg = \<lparr>dm_sequence = sq_id sq, dm_step = step, dm_turn = i, dm_sim = sim_id,
                       dm_to = co_phone_e164 contact, dm_body = body, dm_accepted = True\<rparr>"
  have "r' = (case schedule_next sq cid step d2 of
         Inl e \<Rightarrow> r\<lparr>ds_db := d2, ds_outbox := ds_outbox r @ [msg]\<rparr>
       | Inr due \<Rightarrow> r\<lparr>ds_db := set_sequence (sq_id sq) (advance_row step due) d2, ds_outbox := ds_outbox r @ [msg],
                      ds_sent := ds_sent r + 1\<rparr>)"
    using assms(1,2) by (simp add: assms(6) send_step_def Let_def d1_def d2_def msg_def split: sum.split)
  then have "r' = r\<lparr>ds_db := d2, ds_outbox := ds_outbox r @ [msg]\<rparr>" by (simp add: sched)
  then have r': "ds_db r' = d2" "dm_accepted (last (ds_outbox r'))" "ds_sent r' = ds_sent r" by (simp_all add: msg_def)
  have seqs: "sms_sequences d2 = update_where (\<lambda>s. sq_id s = sq_id sq) (\<lambda>s. s\<lparr>sq_current_step := step\<rparr>) (sms_sequences (ds_db r))"
    by (simp add: d2_def d1_def set_sequence_def)
  have row: "row \<in> set (sms_sequences (ds_db r))" "sq_id row = sq_id sq" using find_row_SomeD [OF assms(5)] by auto
  have find: "find_row (\<lambda>s. sq_id s = sq_id sq) (sms_sequences d2) = Some (row\<lparr>sq_current_step := step\<rparr>)"
    unfolding seqs using assms(5) row(2) by (subst find_update_where) simp_all
  then have mem: "row\<lparr>sq_current_step := step\<rparr> \<in> set (sms_sequences d2)" by (auto dest: find_row_SomeD)
  have "row\<lparr>sq_current_step := step\<rparr> \<in> set (due_sequences E' (length (sms_sequences d2)) d2)"
    if "de_now E \<le> de_now E'" "row \<in> set (due_sequences E limit (ds_db r))" "\<not> de_locked E' (sq_id row)" for E'
  proof -
    have "sq_status row = SQ_ACTIVE" "case sq_next_due_at row of None \<Rightarrow> False | Some t \<Rightarrow> t \<le> de_now E"
      using that(2) by (auto simp: due_sequences_def dest!: in_set_takeD)
    then have "row\<lparr>sq_current_step := step\<rparr> \<in> set (filter (\<lambda>s. sq_status s = SQ_ACTIVE
       \<and> (case sq_next_due_at s of None \<Rightarrow> False | Some t \<Rightarrow> t \<le> de_now E') \<and> \<not> de_locked E' (sq_id s)) (sms_sequences d2))"
      using mem that(1,3) by (auto split: option.splits)
    moreover have "take (length (sms_sequences d2)) (filter P (sms_sequences d2)) = filter P (sms_sequences d2)" for P
      by simp
    ultimately show ?thesis by (simp only: due_sequences_def)
  qed
  with find r' show ?thesis by simp
qed

definition demo_variant_run :: due_run where
  "demo_variant_run = \<lparr>ds_db = (demo_due_db ''Bonjour'')\<lparr>campaign_message_templates :=
      [demo_template 7 5 0 ''Bonjour'', demo_template 8 5 1 ''Relance'', demo_template 9 5 1 ''Rappel'']\<rparr>,
     ds_processed = 1, ds_sent = 0, ds_stopped = 0, ds_outbox = []\<rparr>"

lemma two_variants_no_delay_witness:
  "ds_sent (send_step demo_due_env 0 (demo_sequence 3 1 5) (demo_contact 1 ''+33600000001'') None 5 0 ''v'' ''Bonjour'' ''s1''
     demo_variant_run) = 0"
proof -
  have 1: "de_send demo_due_env 0 ''s1'' (co_phone_e164 (demo_contact 1 ''+33600000001'')) ''Bonjour''
      = Inr \<lparr>sr_status = SMS_SENT, sr_cost = 0\<rparr>" by (simp add: demo_due_env_def)
  have 2: "(0::int) + 1 < SEQUENCE_STEPS" by (simp add: SEQUENCE_STEPS_def SEQUENCE_DELAYS_DAYS_def)
  have 3: "2 \<le> length (sms_templates 5 (0 + 1) (ds_db demo_variant_run))"
    by (simp add: sms_templates_def demo_variant_run_def demo_template_def)
  have 4: "find_row (\<lambda>s. sq_id s = sq_id (demo_sequence 3 1 5)) (sms_sequences (ds_db demo_variant_run))
      = Some (demo_sequence 3 1 5)" by (simp add: demo_variant_run_def demo_due_db_def demo_sequence_def)
  from two_variants_no_delay [OF 1 _ 2 3 4 refl, of None "''v''" 100] show ?thesis by (simp add: demo_variant_run_def)
qed

lemma ensure_sequence_found:
  assumes "ensure_sequence now contact_id cid lid ctx d = ((created, sid), d1)"
  shows "\<exists>s. find_row (\<lambda>s. sq_contact_id s = contact_id \<and> sq_campaign_id s = Some cid) (sms_sequences d1) = Some s
      \<and> sq_id s = sid \<and> contacts d1 = contacts d \<and> campaigns d1 = campaigns d \<and> blacklist d1 = blacklist d"
proof (cases "find_row (\<lambda>s. sq_contact_id s = contact_id \<and> sq_campaign_id s = Some cid) (sms_sequences d)")
  case None
  with assms show ?thesis by (auto simp: ensure_sequence_def find_row_append)
next
  case (Some s)
  with assms show ?thesis
    by (auto simp: ensure_sequence_def find_update_where)
qed

lemma ensure_InrE:
  assumes "ensure_contact_sequence_in_session lib now phone cid lid ctx d = Inr (r, d1)" "en_sequence r = Some sid"
  obtains normalized campaign contact d0 created where "extract_phone lib phone = Some normalized" "\<not> is_blacklisted normalized d"
    "find_row (\<lambda>c. ca_id c = cid) (campaigns d) = Some campaign" "ca_status campaign = C_RUNNING"
    "contact_by_phone normalized d0 = Some contact" "co_status contact = CT_ACTIVE"
    "campaigns d0 = campaigns d" "blacklist d0 = blacklist d"
    "ensure_sequence now (co_id contact) cid lid ctx d0 = ((created, sid), d1)"
    "r = \<lparr>en_created = created, en_status = ''scheduled'', en_phone = normalized, en_contact = Some (co_id contact),
          en_sequence = Some sid\<rparr>"
proof -
  obtain normalized where n: "extract_phone lib phone = Some normalized"
    using assms(1) by (cases "extract_phone lib phone") (auto simp: ensure_contact_sequence_in_session_def)
  have bl: "\<not> is_blacklisted normalized d" using assms n by (auto simp: ensure_contact_sequence_in_session_def)
  obtain campaign where c: "find_row (\<lambda>c. ca_id c = cid) (campaigns d) = Some campaign" "ca_status campaign = C_RUNNING"
    using assms n bl by (auto simp: ensure_contact_sequence_in_session_def split: option.splits if_splits)
  note run = assms(1) [unfolded ensure_contact_sequence_in_session_def, simplified n c bl option.case if_False Let_def]
  show thesis
  proof (cases "contact_by_phone normalized d")
    case None
    let ?d0 = "add_contact (new_contact now normalized d) d"
    obtain created sid' d' where e: "ensure_sequence now (fresh_id d) cid lid ctx ?d0 = ((created, sid'), d')"
      by (metis prod.exhaust)
    have "contact_by_phone normalized ?d0 = Some (new_contact now normalized d)"
      using None by (simp add: contact_by_phone_def add_contact_def find_row_append new_contact_def)
    with run None e assms(2) n bl c show thesis
      by (intro that [of normalized campaign ?d0 "new_contact now normalized d" created])
        (auto simp: new_contact_def add_contact_def)
  next
    case (Some contact)
    show thesis
    proof (cases "co_status contact = CT_ACTIVE")
      case False
      with run Some assms(2) show thesis by auto
    next
      case True
      obtain created sid' d' where e: "ensure_sequence now (co_id contact) cid lid ctx d = ((created, sid'), d')"
        by (metis prod.exhaust)
      with run Some True assms(2) n bl c show thesis
        by (intro that [of normalized campaign d contact created]) auto
    qed
  qed
qed

text \<open>
  One sequence per contact and campaign. Once a call has scheduled a sequence, a call for any text
  with the same number and the same campaign finds that contact and that sequence: it creates neither,
  and leaves the step, the due date and the status of every sequence as they were.
\<close>

theorem ensure_contact_sequence_once:
  assumes "ensure_contact_sequence_in_session lib now phone cid lid ctx d = Inr (r, d1)" "en_sequence r = Some sid"
    and "extract_phone lib phone' = extract_phone lib phone"
  shows "\<exists>d2. ensure_contact_sequence_in_session lib now' phone' cid lid' ctx' d1 = Inr (r\<lparr>en_created := False\<rparr>, d2)
    \<and> contacts d2 = contacts d1
    \<and> map (\<lambda>s. (sq_id s, sq_contact_id s, sq_campaign_id s, sq_current_step s, sq_next_due_at s, sq_status s)) (sms_sequences d2)
      = map (\<lambda>s. (sq_id s, sq_contact_id s, sq_campaign_id s, sq_current_step s, sq_next_due_at s, sq_status s)) (sms_sequences d1)"
proof -
  obtain normalized campaign contact d0 created where e: "extract_phone lib phone = Some normalized" "\<not> is_blacklisted normalized d"
    "find_row (\<lambda>c. ca_id c = cid) (campaigns d) = Some campaign" "ca_status campaign = C_RUNNING"
    "contact_by_phone normalized d0 = Some contact" "co_status contact = CT_ACTIVE"
    "campaigns d0 = campaigns d" "blacklist d0 = blacklist d"
    and s: "ensure_sequence now (co_id contact) cid lid ctx d0 = ((created, sid), d1)"
    and r: "r = \<lparr>en_created = created, en_status = ''scheduled'', en_phone = normalized, en_contact = Some (co_id contact),
          en_sequence = Some sid\<rparr>"
    using ensure_InrE [OF assms(1,2)] by metis
  obtain row where row: "find_row (\<lambda>s. sq_contact_id s = co_id contact \<and> sq_campaign_id s = Some cid) (sms_sequences d1) = Some row"
    "sq_id row = sid" "contacts d1 = contacts d0" "campaigns d1 = campaigns d0" "blacklist d1 = blacklist d0"
    using ensure_sequence_found [OF s] by blast
  define d2 where "d2 = snd (ensure_sequence now' (co_id contact) cid lid' ctx' d1)"
  have e2: "ensure_sequence now' (co_id contact) cid lid' ctx' d1 = ((False, sid), d2)"
    using row(1,2) by (simp add: d2_def ensure_sequence_def)
  have bl: "\<not> is_blacklisted normalized d1" using e(2,8) row(5) by (simp add: is_blacklisted_def)
  have "contact_by_phone normalized d1 = Some contact" using e(5) row(3) by (simp add: contact_by_phone_def)
  then have "ensure_contact_sequence_in_session lib now' phone' cid lid' ctx' d1 = Inr (r\<lparr>en_created := False\<rparr>, d2)"
    using e bl row(4) e2 assms(3) by (simp add: ensure_contact_sequence_in_session_def r)
  moreover have "contacts d2 = contacts d1" using row(1) by (simp add: d2_def ensure_sequence_def)
  moreover have "map (\<lambda>s. (sq_id s, sq_contact_id s, sq_campaign_id s, sq_current_step s, sq_next_due_at s, sq_status s)) (sms_sequences d2)
      = map (\<lambda>s. (sq_id s, sq_contact_id s, sq_campaign_id s, sq_current_step s, sq_next_due_at s, sq_status s)) (sms_sequences d1)"
    using row(1) by (simp add: d2_def ensure_sequence_def map_update_where)
  ultimately show ?thesis by blast
qed

definition demo_phone_lib :: phone_lib where
  "demo_phone_lib = \<lparr>parse_fr = (\<lambda>t. Some (True, ''+33600000001''))\<rparr>"

lemma ensure_contact_sequence_once_witness:
  "\<exists>r d1 d2. ensure_contact_sequence_in_session demo_phone_lib 9 ''06 00 00 00 01'' 5 None None (demo_due_db ''Bonjour'') = Inr (r, d1)
     \<and> ensure_contact_sequence_in_session demo_phone_lib 10 ''+33600000001'' 5 None None d1 = Inr (r\<lparr>en_created := False\<rparr>, d2)"
proof -
  have x: "extract_phone demo_phone_lib ''06 00 00 00 01'' = Some ''+33600000001''"
    "extract_phone demo_phone_lib ''+33600000001'' = Some ''+33600000001''" by code_simp+
  have "\<exists>r d1. ensure_contact_sequence_in_session demo_phone_lib 9 ''06 00 00 00 01'' 5 None None (demo_due_db ''Bonjour'') = Inr (r, d1)
      \<and> en_sequence r = Some 3"
    using x(1) by (simp add: ensure_contact_sequence_in_session_def is_blacklisted_def demo_due_db_def empty_db_def demo_campaign_def
        contact_by_phone_def demo_contact_def ensure_sequence_def demo_sequence_def)
  then obtain r d1 where 1: "ensure_contact_sequence_in_session demo_phone_lib 9 ''06 00 00 00 01'' 5 None None (demo_due_db ''Bonjour'') = Inr (r, d1)"
    "en_sequence r = Some 3" by blast
  from ensure_contact_sequence_once [OF 1, of "''+33600000001''" 10 None None] x 1(1) show ?thesis by auto
qed

end
