(* ===== verification/Inbound.thy ===== *)
theory Inbound
  imports Sms_Sequence
begin

text \<open>
  What comes in: \<open>webhooks/sms.py\<close> and \<open>services/sms_inbox.py\<close> (an inbound SMS is stored once,
  classified, and stops the sequences of its contact; a STOP also blacklists the sender),
  \<open>webhooks/call.py\<close> and \<open>services/call_history.py\<close> (calls). The background tasks of a request run
  after its response, in order. \<open>phonenumbers\<close> is a parameter, as is \<open>str()\<close> of a JSON value that is
  not a string.
\<close>

section \<open>Classification (sms_inbox.py)\<close>

definition normalize_inbound_phone :: "phone_lib \<Rightarrow> string \<Rightarrow> string option" where
  "normalize_inbound_phone lib raw =
     (case parse_fr lib raw of None \<Rightarrow> None | Some (valid, e164) \<Rightarrow> if valid then Some e164 else None)"

definition stop_words :: "string list" where
  "stop_words = [''stop'', ''arret'', ''arr'' @ [CHR 0xEA] @ ''t'', ''desabonnement'',
     ''d'' @ [CHR 0xE9] @ ''sabonnement'']"

definition positive_words :: "string list" where
  "positive_words = [''int'' @ [CHR 0xE9] @ ''ress'' @ [CHR 0xE9], ''interesse'', ''disponible'', ''appelez'', ''appellez'', ''oui'']"

definition negative_words :: "string list" where
  "negative_words = [''pas int'' @ [CHR 0xE9] @ ''ress'' @ [CHR 0xE9], ''pas interesse'', ''vendu'', ''non merci'']"

definition question_words :: "string list" where
  "question_words = [''combien'', ''prix'', ''kilom'' @ [CHR 0xE9] @ ''trage'', ''kilometrage'', ''o'' @ [CHR 0xF9], ''ou '']"

definition any_word :: "string list \<Rightarrow> string \<Rightarrow> bool" where
  "any_word ws s = (\<exists>w\<in>set ws. contains w s)"

definition normalize_body :: "string \<Rightarrow> string" where
  "normalize_body body = join '' '' (split_ws (strip (lower body)))"

definition classify_sms :: "string \<Rightarrow> sms_classification" where
  "classify_sms body =
     (let normalized = normalize_body body in
      if normalized \<in> set stop_words then CLS_STOP
      else if any_word positive_words normalized then CLS_POSITIVE
      else if any_word negative_words normalized then CLS_NEGATIVE
      else if any_word question_words normalized then CLS_INFORMATION
      else if normalized \<noteq> [] then CLS_AMBIGUOUS
      else CLS_INVALID)"

section \<open>Recording (sms_inbox.py)\<close>

record inbound_result =
  ir_status :: string
  ir_phone :: "string option"
  ir_classification :: sms_classification
  ir_listing :: "uuid option"

definition inbound_log :: "datetime \<Rightarrow> string \<Rightarrow> string \<Rightarrow> string \<Rightarrow> uuid option \<Rightarrow> listing option \<Rightarrow> sms_classification
    \<Rightarrow> string \<Rightarrow> uuid \<Rightarrow> sms_log" where
  "inbound_log now sim_id phone body contact_id listing classification event_key new_id =
     \<lparr>sl_id = new_id, sl_sim_id = sim_id, sl_to_phone = phone, sl_listing_id = map_option li_id listing,
      sl_body = body, sl_status = SMS_RECEIVED, sl_project = ''P2'', sl_cost_eur = None,
      sl_campaign_id = (case listing of None \<Rightarrow> None | Some l \<Rightarrow> li_campaign_id l), sl_contact_id = contact_id,
      sl_direction = DIR_INBOUND, sl_sequence_step = None, sl_variant_key = None,
      sl_classification = Some classification, sl_idempotency_key = Some (''inbound:'' @ event_key),
      sl_received_at = Some now, sl_sent_at = now\<rparr>"

definition add_log :: "sms_log \<Rightarrow> db \<Rightarrow> db result" where
  \<comment> \<open>\<open>idempotency_key\<close> is unique, and \<open>None\<close> is never equal to \<open>None\<close>\<close>
  "add_log l d =
     (if sl_idempotency_key l \<noteq> None \<and> sl_idempotency_key l \<in> sl_idempotency_key ` set (sms_log d)
      then Inl (IntegrityError ''sms_log_idempotency_key_key'')
      else Inr (d\<lparr>sms_log := sms_log d @ [l], fresh_id := Suc (fresh_id d)\<rparr>))"

definition inbound_contact_status :: "sms_classification \<Rightarrow> contact_status" where
  "inbound_contact_status cls =
     (case cls of CLS_STOP \<Rightarrow> CT_DO_NOT_CONTACT | CLS_INVALID \<Rightarrow> CT_INVALID | _ \<Rightarrow> CT_PAUSED)"

definition latest_listing :: "(listing \<Rightarrow> bool) \<Rightarrow> db \<Rightarrow> listing option" where
  "latest_listing P d = latest li_created_at (filter P (listings d))"

definition contact_or_new :: "datetime \<Rightarrow> string \<Rightarrow> db \<Rightarrow> (contact \<times> db) result" where
  "contact_or_new now phone d =
     (case one_or_none (filter (\<lambda>c. co_phone_e164 c = phone) (contacts d)) of
        Inl e \<Rightarrow> Inl e
      | Inr (Some c) \<Rightarrow> Inr (c, d)
      | Inr None \<Rightarrow> (let c = new_contact now phone d in Inr (c, add_contact c d)))"

definition inbound_session :: "datetime \<Rightarrow> string \<Rightarrow> string \<Rightarrow> string \<Rightarrow> sms_classification \<Rightarrow> string \<Rightarrow> db
    \<Rightarrow> exn + ((uuid \<times> listing option) \<times> db)" where
  "inbound_session now sim_id phone body cls event_key d =
     (case contact_or_new now phone d of
        Inl e \<Rightarrow> Inl e
      | Inr (contact, d1) \<Rightarrow>
          (let listing = latest_listing (\<lambda>l. li_contact_id l = Some (co_id contact)) d1 in
           case add_log (inbound_log now sim_id phone body (Some (co_id contact)) listing cls event_key (fresh_id d1)) d1 of
             Inl e \<Rightarrow> Inl e
           | Inr d2 \<Rightarrow>
               Inr ((co_id contact, listing),
                    d2\<lparr>contacts := update_where (\<lambda>c. co_id c = co_id contact)
                         (\<lambda>c. c\<lparr>co_last_classification := Some cls, co_last_inbound_at := Some now,
                                co_status := inbound_contact_status cls\<rparr>) (contacts d2)\<rparr>)))"

definition record_inbound_sms :: "phone_lib \<Rightarrow> datetime \<Rightarrow> string \<Rightarrow> string \<Rightarrow> string \<Rightarrow> string \<Rightarrow> db
    \<Rightarrow> inbound_result result \<times> db" where
  "record_inbound_sms lib now sim_id sender body event_key d =
     (case normalize_inbound_phone lib sender of
        None \<Rightarrow>
          (case add_log (inbound_log now sim_id (take 30 sender) body None None CLS_INVALID event_key (fresh_id d)) d of
             Inl e \<Rightarrow> (Inl e, d)
           | Inr d1 \<Rightarrow> (Inr \<lparr>ir_status = ''invalid'', ir_phone = None, ir_classification = CLS_INVALID, ir_listing = None\<rparr>, d1))
      | Some phone \<Rightarrow>
          (let cls = classify_sms body in
           case session (inbound_session now sim_id phone body cls event_key) d of
             (Inl e, d1) \<Rightarrow> (Inl e, d1)
           | (Inr (contact_id, listing), d1) \<Rightarrow>
               (Inr \<lparr>ir_status = ''recorded'', ir_phone = Some phone, ir_classification = cls,
                     ir_listing = map_option li_id listing\<rparr>,
                stop_contact_sequences contact_id (if cls = CLS_STOP then CT_DO_NOT_CONTACT else CT_PAUSED) d1)))"

section \<open>Replay of pending events (sms_inbox.py)\<close>

definition event_fields :: "(json \<Rightarrow> string) \<Rightarrow> json option \<Rightarrow> (string \<times> string \<times> string) result" where
  \<comment> \<open>SIM, sender and text of a stored payload\<close>
  "event_fields txt payload =
     (let p = (case payload of None \<Rightarrow> JObj [] | Some j \<Rightarrow> if json_truthy j then j else JObj []) in
      case p of
        JList (JObj kv # _) \<Rightarrow>
          (case (case dict_get kv ''message'' of None \<Rightarrow> JObj [] | Some m \<Rightarrow> m) of
             JObj m \<Rightarrow> Inr (str_field txt m ''receiver'', str_field txt m ''sender'', str_field txt m ''content'')
           | _ \<Rightarrow> Inl AttributeError)
      | JObj kv \<Rightarrow> Inr (str_first txt kv ''sim_id'' ''to'', str_first txt kv ''from'' ''sender'', str_first txt kv ''body'' ''content'')
      | _ \<Rightarrow> Inl AttributeError)"

fun replay_events :: "phone_lib \<Rightarrow> (json \<Rightarrow> string) \<Rightarrow> datetime \<Rightarrow> webhook_event list \<Rightarrow> db \<Rightarrow> (uuid list result) \<times> db" where
  \<comment> \<open>the events done; the inner sessions commit on their own\<close>
  "replay_events lib txt now [] d = (Inr [], d)"
| "replay_events lib txt now (ev # evs) d =
     (case event_fields txt (we_payload ev) of
        Inl e \<Rightarrow> (Inl e, d)
      | Inr (sim_id, sender, body) \<Rightarrow>
          (case record_inbound_sms lib now sim_id sender body (we_event_key ev) d of
             (Inl e, d1) \<Rightarrow> replay_events lib txt now evs d1
           | (Inr _, d1) \<Rightarrow>
               (case replay_events lib txt now evs d1 of
                  (Inl e, d2) \<Rightarrow> (Inl e, d2)
                | (Inr done, d2) \<Rightarrow> (Inr (we_id ev # done), d2))))"

definition pending_sms_event :: "webhook_event \<Rightarrow> bool" where
  "pending_sms_event ev = (we_source ev = ''sms'' \<and> \<not> we_processed ev)"

definition replay_pending_sms_events :: "phone_lib \<Rightarrow> (json \<Rightarrow> string) \<Rightarrow> datetime \<Rightarrow> (uuid \<Rightarrow> bool) \<Rightarrow> nat \<Rightarrow> db
    \<Rightarrow> nat result \<times> db" where
  "replay_pending_sms_events lib txt now locked limit d =
     (let events = take limit (sort_key we_created_at (filter (\<lambda>ev. pending_sms_event ev \<and> \<not> locked (we_id ev)) (webhook_events d))) in
      case replay_events lib txt now events d of
        (Inl e, d1) \<Rightarrow> (Inl e, d1)
      | (Inr ids, d1) \<Rightarrow>
          (Inr (length ids), d1\<lparr>webhook_events := update_where (\<lambda>ev. we_id ev \<in> set ids) (\<lambda>ev. ev\<lparr>we_processed := True\<rparr>)
                              (webhook_events d1)\<rparr>))"

section \<open>The SMS webhook (webhooks/sms.py)\<close>

record sms_item =
  it_webhook_id :: string
  it_webhook_type :: string
  it_message_id :: string
  it_date_utc :: string
  it_sender :: string
  it_receiver :: string
  it_content :: string

datatype sms_payload = SmsItems "sms_item list" | SmsDict "(string, json) dict"

definition is_stop :: "string \<Rightarrow> bool" where
  "is_stop body = (lower (strip body) \<in> set stop_words)"

definition event_key :: "string \<Rightarrow> string \<Rightarrow> string \<Rightarrow> string \<Rightarrow> string" where
  "event_key sim_id from_number body timestamp =
     take 32 (sha256_hex (sim_id @ '':'' @ from_number @ '':'' @ body @ '':'' @ timestamp))"

definition extract_sms_payload :: "(json \<Rightarrow> string) \<Rightarrow> sms_payload \<Rightarrow> string \<times> string \<times> string \<times> string" where
  "extract_sms_payload txt payload =
     (case payload of
        SmsItems [] \<Rightarrow> ([], [], [], [])
      | SmsItems (item # _) \<Rightarrow> (it_receiver item, it_sender item, it_content item, take 32 (it_webhook_id item))
      | SmsDict kv \<Rightarrow>
          (let sim_id = str_first txt kv ''sim_id'' ''to''; from_number = str_first txt kv ''from'' ''sender'';
               body = str_first txt kv ''body'' ''content''; timestamp = str_first txt kv ''ts'' ''timestamp'' in
           (sim_id, from_number, body, event_key sim_id from_number body timestamp)))"

definition item_json :: "sms_item \<Rightarrow> json" where
  "item_json i = JObj [(''webhook_id'', JStr (it_webhook_id i)), (''webhook_type'', JStr (it_webhook_type i)),
     (''message'', JObj [(''id'', JStr (it_message_id i)), (''date_utc'', JStr (it_date_utc i)), (''sender'', JStr (it_sender i)),
        (''receiver'', JStr (it_receiver i)), (''content'', JStr (it_content i))])]"

definition stored_payload :: "sms_payload \<Rightarrow> json" where
  "stored_payload p = (case p of SmsItems items \<Rightarrow> JList (map item_json items) | SmsDict kv \<Rightarrow> JObj kv)"

datatype background =
    RecordSms string string string string  \<comment> \<open>SIM, sender, text, event key\<close>
  | SendSms string string string  \<comment> \<open>SIM, recipient, text\<close>
  | RecordCall string string string  \<comment> \<open>SIM, sender, external key\<close>

record webhook_response =
  wr_duplicate :: bool
  wr_matched :: bool

definition unsubscribed_text :: string where
  "unsubscribed_text = ''Vous etes bien desinscrit. Cordialement, AutoTransfert.''"

definition receive_sms :: "(json \<Rightarrow> string) \<Rightarrow> datetime \<Rightarrow> sms_payload \<Rightarrow> db \<Rightarrow> (webhook_response \<times> background list) \<times> db" where
  "receive_sms txt now payload d =
     (let ok = \<lparr>wr_duplicate = False, wr_matched = True\<rparr> in
      case extract_sms_payload txt payload of
        (sim_id, from_number, body, key) \<Rightarrow>
          if key = [] then ((ok, []), d)
          else
           (case insert_event now key ''sms'' (Some (stored_payload payload)) d of
              (False, d1) \<Rightarrow> ((ok\<lparr>wr_duplicate := True\<rparr>, []), d1)
            | (True, d1) \<Rightarrow>
                if is_stop body then
                  ((ok, [RecordSms sim_id from_number body key, SendSms sim_id from_number unsubscribed_text]),
                   add_to_blacklist now from_number sim_id ''P1+P2'' d1)
                else ((ok, [RecordSms sim_id from_number body key]), d1)))"

definition safe_record_inbound_sms :: "phone_lib \<Rightarrow> datetime \<Rightarrow> string \<Rightarrow> string \<Rightarrow> string \<Rightarrow> string \<Rightarrow> db \<Rightarrow> db" where
  "safe_record_inbound_sms lib now sim_id sender body key d =
     (case record_inbound_sms lib now sim_id sender body key d of
        (Inl e, d1) \<Rightarrow> d1
      | (Inr _, d1) \<Rightarrow> d1\<lparr>webhook_events := update_where (\<lambda>ev. we_event_key ev = key) (\<lambda>ev. ev\<lparr>we_processed := True\<rparr>)
                             (webhook_events d1)\<rparr>)"

section \<open>Calls (call_history.py, webhooks/call.py)\<close>

definition record_incoming_call :: "phone_lib \<Rightarrow> datetime \<Rightarrow> string \<Rightarrow> string \<Rightarrow> string \<Rightarrow> db \<Rightarrow> unit result \<times> db" where
  "record_incoming_call lib now sim_id sender external_key d =
     (case normalize_inbound_phone lib sender of
        None \<Rightarrow> (Inr (), d)
      | Some phone \<Rightarrow>
          if phone = [] then (Inr (), d)
          else
          session (\<lambda>d.
            case one_or_none (filter (\<lambda>c. co_phone_e164 c = phone) (contacts d)) of
              Inl e \<Rightarrow> Inl e
            | Inr contact \<Rightarrow>
                (let cid = map_option co_id contact;
                     listing = latest_listing (\<lambda>l. li_phone l = Some phone \<or> li_contact_id l = cid) d;
                     row = \<lparr>cl_id = fresh_id d, cl_phone_e164 = phone, cl_sim_id = Some sim_id, cl_contact_id = cid,
                            cl_listing_id = map_option li_id listing, cl_result = None, cl_notes = None,
                            cl_external_key = external_key, cl_called_at = now\<rparr> in
                 Inr ((), d\<lparr>call_log := snd (insert_new cl_external_key row (call_log d)), fresh_id := Suc (fresh_id d)\<rparr>))) d)"

definition safe_record_call :: "phone_lib \<Rightarrow> datetime \<Rightarrow> string \<Rightarrow> string \<Rightarrow> string \<Rightarrow> db \<Rightarrow> db" where
  "safe_record_call lib now sim_id sender external_key d = snd (record_incoming_call lib now sim_id sender external_key d)"

definition run_background :: "phone_lib \<Rightarrow> datetime \<Rightarrow> background \<Rightarrow> (string \<times> string \<times> string) list \<times> db
    \<Rightarrow> (string \<times> string \<times> string) list \<times> db" where
  \<comment> \<open>the SMS asked for, and the database\<close>
  "run_background lib now task od =
     (case od of (outbox, d) \<Rightarrow>
        (case task of
           RecordSms sim_id sender body key \<Rightarrow> (outbox, safe_record_inbound_sms lib now sim_id sender body key d)
         | SendSms sim_id to body \<Rightarrow> (outbox @ [(sim_id, to, body)], d)
         | RecordCall sim_id sender key \<Rightarrow> (outbox, safe_record_call lib now sim_id sender key d)))"

definition handle_sms :: "phone_lib \<Rightarrow> (json \<Rightarrow> string) \<Rightarrow> datetime \<Rightarrow> sms_payload \<Rightarrow> db
    \<Rightarrow> webhook_response \<times> (string \<times> string \<times> string) list \<times> db" where
  \<comment> \<open>the request and then its background tasks\<close>
  "handle_sms lib txt now payload d =
     (case receive_sms txt now payload d of
        ((response, tasks), d1) \<Rightarrow> (response, fold (run_background lib now) tasks ([], d1)))"

record call_item =
  ci_webhook_id :: string
  ci_sender :: string
  ci_receiver :: string

record listing_view =
  lv_url :: string
  lv_title :: "string option"
  lv_price :: "int option"
  lv_km :: "int option"
  lv_source :: listing_source
  lv_vehicle :: "string option"
  lv_make :: "string option"
  lv_model :: "string option"

definition listing_payload :: "listing \<Rightarrow> listing_view" where
  "listing_payload l =
     (let parts = filter (\<lambda>p. p \<noteq> []) (List.map_filter id [li_make l, li_model l]);
          vehicle = strip (join '' '' parts) in
      \<lparr>lv_url = li_url l, lv_title = li_title l, lv_price = li_price l, lv_km = li_km l, lv_source = li_source l,
       lv_vehicle = (if vehicle = [] then None else Some vehicle), lv_make = li_make l, lv_model = li_model l\<rparr>)"

definition find_listing_for_call :: "string \<Rightarrow> string \<Rightarrow> db \<Rightarrow> listing_view option" where
  "find_listing_for_call sim_id from_number d =
     (let by_sms = (case latest sl_sent_at (filter (\<lambda>s. sl_sim_id s = sim_id \<and> sl_to_phone s = from_number) (sms_log d)) of
            None \<Rightarrow> None
          | Some s \<Rightarrow>
              (case sl_listing_id s of None \<Rightarrow> None | Some lid \<Rightarrow> find_row (\<lambda>l. li_id l = lid) (listings d))) in
      case by_sms of
        Some l \<Rightarrow> Some (listing_payload l)
      | None \<Rightarrow> map_option listing_payload (latest_listing (\<lambda>l. li_phone l = Some from_number) d))"

definition receive_call :: "datetime \<Rightarrow> call_item list \<Rightarrow> db
    \<Rightarrow> (webhook_response \<times> background list \<times> (string \<times> listing_view) option) \<times> db" where
  \<comment> \<open>the response, the background tasks, and what is broadcast on the web socket\<close>
  "receive_call now payload d =
     (case payload of
        [] \<Rightarrow> ((\<lparr>wr_duplicate = False, wr_matched = True\<rparr>, [], None), d)
      | item # _ \<Rightarrow>
          (let key = take 32 (ci_webhook_id item); from_number = ci_sender item; sim_id = ci_receiver item;
               tasks = [RecordCall sim_id from_number (''call:'' @ key)] in
           case insert_event now key ''call'' None d of
             (False, d1) \<Rightarrow> ((\<lparr>wr_duplicate = True, wr_matched = True\<rparr>, tasks, None), d1)
           | (True, d1) \<Rightarrow>
               (case find_listing_for_call sim_id from_number d1 of
                  None \<Rightarrow> ((\<lparr>wr_duplicate = False, wr_matched = False\<rparr>, tasks, None), d1)
                | Some l \<Rightarrow> ((\<lparr>wr_duplicate = False, wr_matched = True\<rparr>, tasks, Some (from_number, l)), d1))))"

section \<open>Lemmas\<close>

lemma one_or_none_filter:
  "one_or_none (filter P t) = Inr x \<Longrightarrow> x = find_row P t"
proof (induction t)
  case Nil
  then show ?case by (simp add: one_or_none_def)
next
  case (Cons r t)
  show ?case
  proof (cases "P r")
    case True
    with Cons.prems have "filter P t = []" "x = Some r" by (auto simp: one_or_none_def split: list.splits)
    with True show ?thesis by simp
  next
    case False
    with Cons show ?thesis by simp
  qed
qed

lemma contact_or_new_InrE:
  assumes "contact_or_new now phone d = Inr (c, d1)"
  obtains "contact_by_phone phone d1 = Some c" "sms_log d1 = sms_log d" "blacklist d1 = blacklist d"
    "contacts d1 = contacts d \<or> contacts d1 = contacts d @ [c] \<and> (\<forall>x\<in>set (contacts d). co_phone_e164 x \<noteq> phone)"
    "sms_sequences d1 = sms_sequences d" "webhook_events d1 = webhook_events d" "co_phone_e164 c = phone"
proof (cases "one_or_none (filter (\<lambda>c. co_phone_e164 c = phone) (contacts d))")
  case (Inl e)
  with assms show thesis by (simp add: contact_or_new_def)
next
  case (Inr x)
  have x: "x = find_row (\<lambda>c. co_phone_e164 c = phone) (contacts d)" by (rule one_or_none_filter [OF Inr])
  show thesis
  proof (cases x)
    case None
    then have old: "\<forall>y\<in>set (contacts d). co_phone_e164 y \<noteq> phone" using x by (simp add: find_row_None_iff)
    have c: "c = new_contact now phone d" "d1 = add_contact c d" using assms Inr None by (auto simp: contact_or_new_def Let_def)
    have "contact_by_phone phone d1 = Some c"
      using None x c by (simp add: contact_by_phone_def add_contact_def find_row_append new_contact_def)
    then show thesis using c old by (intro that) (auto simp: add_contact_def new_contact_def)
  next
    case (Some y)
    with assms Inr have "c = y" "d1 = d" by (auto simp: contact_or_new_def)
    moreover have found: "find_row (\<lambda>c. co_phone_e164 c = phone) (contacts d) = Some y" using x Some by simp
    ultimately show thesis using find_row_SomeD [OF found] by (intro that) (auto simp: contact_by_phone_def)
  qed
qed

lemma add_log_Inr: "add_log l d = Inr d' \<Longrightarrow> d' = d\<lparr>sms_log := sms_log d @ [l], fresh_id := Suc (fresh_id d)\<rparr>"
  by (auto simp: add_log_def split: if_splits)

lemma inbound_session_InrE:
  assumes "inbound_session now sim phone body cls key d = Inr ((cid, listing), d2)"
  obtains c d1 l where "contact_or_new now phone d = Inr (c, d1)" "cid = co_id c"
    "d2 = d1\<lparr>sms_log := sms_log d1 @ [l], fresh_id := Suc (fresh_id d1),
             contacts := update_where (\<lambda>x. co_id x = co_id c)
               (\<lambda>x. x\<lparr>co_last_classification := Some cls, co_last_inbound_at := Some now, co_status := inbound_contact_status cls\<rparr>)
               (contacts d1)\<rparr>"
proof -
  obtain c d1 where c: "contact_or_new now phone d = Inr (c, d1)"
    using assms by (cases "contact_or_new now phone d") (auto simp: inbound_session_def)
  obtain l d3 where "add_log l d1 = Inr d3" "cid = co_id c" "d2 = d3\<lparr>contacts := update_where (\<lambda>x. co_id x = co_id c)
               (\<lambda>x. x\<lparr>co_last_classification := Some cls, co_last_inbound_at := Some now, co_status := inbound_contact_status cls\<rparr>)
               (contacts d3)\<rparr>"
    using assms c by (auto simp: inbound_session_def Let_def split: sum.splits)
  moreover from this(1) have "d3 = d1\<lparr>sms_log := sms_log d1 @ [l], fresh_id := Suc (fresh_id d1)\<rparr>" by (rule add_log_Inr)
  ultimately show thesis using c by (intro that [of c d1 l]) simp_all
qed

text \<open>After a recorded message the contact of the number is stopped.\<close>

definition stopped_contact :: "string \<Rightarrow> contact_status \<Rightarrow> db \<Rightarrow> bool" where
  "stopped_contact phone st d \<longleftrightarrow> (\<exists>c. contact_by_phone phone d = Some c \<and> co_status c = st
     \<and> (\<forall>s\<in>set (sms_sequences d). sq_contact_id s = co_id c \<longrightarrow> sq_status s \<noteq> SQ_ACTIVE))
     \<and> (\<forall>c\<in>set (contacts d). co_phone_e164 c = phone \<longrightarrow> co_status c = st)"

lemma record_inbound_stops:
  assumes "record_inbound_sms lib now sim sender body key d = (Inr r, d1)" "ir_phone r = Some p"
    and "distinct (map co_phone_e164 (contacts d))"
  shows "stopped_contact p (if ir_classification r = CLS_STOP then CT_DO_NOT_CONTACT else CT_PAUSED) d1"
proof -
  have norm: "normalize_inbound_phone lib sender = Some p"
    using assms(1,2) by (auto simp: record_inbound_sms_def Let_def split: option.splits sum.splits prod.splits)
  define cls where "cls = classify_sms body"
  define st where "st = (if cls = CLS_STOP then CT_DO_NOT_CONTACT else CT_PAUSED)"
  obtain cid listing d2 where s: "inbound_session now sim p body cls key d = Inr ((cid, listing), d2)"
    and r: "ir_classification r = cls" and d1: "d1 = stop_contact_sequences cid st d2"
    using assms(1) norm
    by (auto simp: record_inbound_sms_def Let_def cls_def st_def session_def split: sum.splits prod.splits)
  obtain c d0 l where c: "contact_or_new now p d = Inr (c, d0)" "cid = co_id c"
    and d2: "d2 = d0\<lparr>sms_log := sms_log d0 @ [l], fresh_id := Suc (fresh_id d0),
             contacts := update_where (\<lambda>x. co_id x = co_id c)
               (\<lambda>x. x\<lparr>co_last_classification := Some cls, co_last_inbound_at := Some now, co_status := inbound_contact_status cls\<rparr>)
               (contacts d0)\<rparr>"
    by (rule inbound_session_InrE [OF s])
  obtain byp: "contact_by_phone p d0 = Some c"
    and rows: "contacts d0 = contacts d \<or> contacts d0 = contacts d @ [c] \<and> (\<forall>x\<in>set (contacts d). co_phone_e164 x \<noteq> p)"
    and pc: "co_phone_e164 c = p"
    by (rule contact_or_new_InrE [OF c(1)])
  have dist: "distinct (map co_phone_e164 (contacts d0))"
    using rows
  proof
    assume *: "contacts d0 = contacts d @ [c] \<and> (\<forall>x\<in>set (contacts d). co_phone_e164 x \<noteq> p)"
    then have "p \<notin> co_phone_e164 ` set (contacts d)" by blast
    with * assms(3) pc show ?thesis by simp
  qed (use assms(3) in simp)
  have mem: "c \<in> set (contacts d0)" using byp by (auto simp: contact_by_phone_def dest: find_row_SomeD)
  have only: "x = c" if "x \<in> set (contacts d0)" "co_phone_e164 x = p" for x
    using that mem pc dist by (metis distinct_map inj_onD)
  define f :: "contact \<Rightarrow> contact" where "f x = (if co_id x = cid then x\<lparr>co_last_classification := Some cls,
      co_last_inbound_at := Some now, co_status := st\<rparr> else x)" for x
  have cs: "contacts d1 = map f (contacts d0)"
    by (simp add: d1 d2 stop_contact_sequences_def c(2) update_where_def f_def)
  have keep: "co_phone_e164 (f x) = co_phone_e164 x" for x by (simp add: f_def)
  have "find_row (\<lambda>x. co_phone_e164 x = p) (map f xs) = map_option f (find_row (\<lambda>x. co_phone_e164 x = p) xs)" for xs
    by (induction xs) (simp_all add: keep)
  then have "contact_by_phone p d1 = Some (f c)" using byp cs by (simp add: contact_by_phone_def)
  moreover have "co_status (f c) = st" "co_id (f c) = cid" by (simp_all add: f_def c(2))
  moreover have "sq_status s \<noteq> SQ_ACTIVE" if s: "s \<in> set (sms_sequences d1)" "sq_contact_id s = cid" for s
  proof -
    have "s \<in> set (update_where (\<lambda>s. sq_contact_id s = cid \<and> sq_status s = SQ_ACTIVE)
        (\<lambda>s. s\<lparr>sq_status := SQ_CANCELLED, sq_next_due_at := None\<rparr>) (sms_sequences d2))"
      using s(1) by (simp add: d1 stop_contact_sequences_def)
    then show ?thesis by (cases rule: update_where_rowE) (use s(2) in simp_all)
  qed
  moreover have "co_status x = st" if "x \<in> set (contacts d1)" "co_phone_e164 x = p" for x
  proof -
    from that(1) obtain y where y: "y \<in> set (contacts d0)" "x = f y" by (auto simp: cs)
    then have "co_phone_e164 y = p" using that(2) by (simp add: f_def split: if_splits)
    with y(1) only have "y = c" by blast
    with y(2) show ?thesis by (simp add: f_def c(2))
  qed
  ultimately have "stopped_contact p st d1" unfolding stopped_contact_def by blast
  then show ?thesis by (simp add: st_def r)
qed

lemma due_message_contact:
  assumes "m \<in> set (dt_outbox (run_due_sms_sequences E limit d))"
  shows "\<exists>c\<in>set (contacts d). co_phone_e164 c = dm_to m \<and> co_status c = CT_ACTIVE"
proof -
  obtain sqs ms ls r where
    eff: "loop_effect E sqs \<lparr>ds_db = d, ds_processed = 0, ds_sent = 0, ds_stopped = 0, ds_outbox = []\<rparr> ms ls r"
    and out: "dt_outbox (run_due_sms_sequences E limit d) = ms"
    using run_due_effect [of E limit d] by blast
  obtain sq where "entitled E d sq m" using eff assms out by (auto simp: loop_effect_def)
  then show ?thesis by (auto simp: entitled_def)
qed

section \<open>Properties\<close>

text \<open>
  C15. An answer ends the follow-ups. Once an inbound message from a valid number is recorded, whatever
  it says, the contact of that number is \<open>DO_NOT_CONTACT\<close> (after a STOP) or \<open>PAUSED\<close>, has no active
  sequence, and no run of the sequences on that database writes to the number.
\<close>

theorem answer_ends_follow_ups:
  assumes "record_inbound_sms lib now sim sender body key d = (Inr r, d1)" "ir_phone r = Some p"
    and "distinct (map co_phone_e164 (contacts d))"
  shows "(\<exists>c. contact_by_phone p d1 = Some c
        \<and> co_status c = (if classify_sms body = CLS_STOP then CT_DO_NOT_CONTACT else CT_PAUSED)
        \<and> (\<forall>s\<in>set (sms_sequences d1). sq_contact_id s = co_id c \<longrightarrow> sq_status s \<noteq> SQ_ACTIVE))
    \<and> (\<forall>E limit m. m \<in> set (dt_outbox (run_due_sms_sequences E limit d1)) \<longrightarrow> dm_to m \<noteq> p)"
proof -
  have cls: "ir_classification r = classify_sms body"
    using assms(1,2) by (auto simp: record_inbound_sms_def Let_def split: option.splits sum.splits prod.splits)
  define st where "st = (if classify_sms body = CLS_STOP then CT_DO_NOT_CONTACT else CT_PAUSED)"
  have stopped: "stopped_contact p st d1"
    using record_inbound_stops [OF assms] cls by (simp add: st_def)
  have "dm_to m \<noteq> p" if "m \<in> set (dt_outbox (run_due_sms_sequences E limit d1))" for E limit m
  proof
    assume "dm_to m = p"
    with due_message_contact [OF that] stopped have "st = CT_ACTIVE" by (auto simp: stopped_contact_def)
    then show False by (simp add: st_def split: if_splits)
  qed
  with stopped show ?thesis unfolding st_def [symmetric] stopped_contact_def by blast
qed

lemma answer_ends_follow_ups_witness:
  "\<exists>r d1. record_inbound_sms demo_phone_lib 9 ''s1'' ''+33600000001'' ''STOP'' ''e1'' (demo_due_db ''Bonjour'') = (Inr r, d1)
     \<and> ''+33600000001'' \<notin> dm_to ` set (dt_outbox (run_due_sms_sequences demo_due_env 100 d1))"
proof -
  have "\<not> is_error (fst (record_inbound_sms demo_phone_lib 9 ''s1'' ''+33600000001'' ''STOP'' ''e1'' (demo_due_db ''Bonjour'')))
      \<and> (case fst (record_inbound_sms demo_phone_lib 9 ''s1'' ''+33600000001'' ''STOP'' ''e1'' (demo_due_db ''Bonjour'')) of
           Inl e \<Rightarrow> False | Inr r \<Rightarrow> ir_phone r = Some ''+33600000001'')" by code_simp
  then obtain r d1 where 1: "record_inbound_sms demo_phone_lib 9 ''s1'' ''+33600000001'' ''STOP'' ''e1'' (demo_due_db ''Bonjour'') = (Inr r, d1)"
    "ir_phone r = Some ''+33600000001''"
    by (cases "record_inbound_sms demo_phone_lib 9 ''s1'' ''+33600000001'' ''STOP'' ''e1'' (demo_due_db ''Bonjour'')") (auto split: sum.splits)
  have 2: "distinct (map co_phone_e164 (contacts (demo_due_db ''Bonjour'')))" by (simp add: demo_due_db_def demo_contact_def)
  have "''+33600000001'' \<notin> dm_to ` set (dt_outbox (run_due_sms_sequences demo_due_env 100 d1))"
  proof
    assume "''+33600000001'' \<in> dm_to ` set (dt_outbox (run_due_sms_sequences demo_due_env 100 d1))"
    then obtain m where m: "m \<in> set (dt_outbox (run_due_sms_sequences demo_due_env 100 d1))" "''+33600000001'' = dm_to m" by (rule imageE)
    from answer_ends_follow_ups [OF 1 2, THEN conjunct2, rule_format, OF m(1)] m(2) show False by simp
  qed
  with 1(1) show ?thesis by blast
qed

text \<open>
  A refusal reads as interest. A message whose text contains \<open>pas interesse\<close> (with or without
  accents) or \<open>pas disponible\<close> is classified \<open>POSITIVE\<close>, because the positive words are tried first;
  the first two negative phrases are dead: \<open>NEGATIVE\<close> needs \<open>vendu\<close> or \<open>non merci\<close>.
\<close>

theorem refusal_reads_positive:
  "(contains ''pas interesse'' (normalize_body body) \<or> contains (''pas int'' @ [CHR 0xE9] @ ''ress'' @ [CHR 0xE9]) (normalize_body body)
      \<or> contains ''pas disponible'' (normalize_body body) \<longrightarrow> classify_sms body = CLS_POSITIVE)
   \<and> (classify_sms body = CLS_NEGATIVE \<longrightarrow> contains ''vendu'' (normalize_body body) \<or> contains ''non merci'' (normalize_body body))"
proof -
  let ?n = "normalize_body body"
  have sub: "contains ''interesse'' ''pas interesse''"
    "contains (''int'' @ [CHR 0xE9] @ ''ress'' @ [CHR 0xE9]) (''pas int'' @ [CHR 0xE9] @ ''ress'' @ [CHR 0xE9])"
    "contains ''disponible'' ''pas disponible''" by code_simp+
  have pos: "any_word positive_words ?n"
    if "contains ''pas interesse'' ?n \<or> contains (''pas int'' @ [CHR 0xE9] @ ''ress'' @ [CHR 0xE9]) ?n \<or> contains ''pas disponible'' ?n"
    unfolding any_word_def positive_words_def using that sub [THEN contains_trans] by auto
  have short: "\<forall>w\<in>set stop_words. \<forall>v\<in>set [''pas interesse'', ''pas int'' @ [CHR 0xE9] @ ''ress'' @ [CHR 0xE9], ''pas disponible'']. \<not> contains v w"
    by code_simp
  then have nostop: "?n \<notin> set stop_words"
    if "contains ''pas interesse'' ?n \<or> contains (''pas int'' @ [CHR 0xE9] @ ''ress'' @ [CHR 0xE9]) ?n \<or> contains ''pas disponible'' ?n"
    using that by auto
  have neg: "contains ''vendu'' ?n \<or> contains ''non merci'' ?n" if "any_word negative_words ?n" "\<not> any_word positive_words ?n"
    using that pos unfolding any_word_def negative_words_def by auto
  show ?thesis
    using pos nostop neg by (auto simp: classify_sms_def Let_def split: if_splits)
qed

lemma refusal_reads_positive_witness:
  "classify_sms ''Non, pas interesse'' = CLS_POSITIVE \<and> contains ''pas interesse'' (normalize_body ''Non, pas interesse'')"
proof -
  have "contains ''pas interesse'' (normalize_body ''Non, pas interesse'')" by code_simp
  then show ?thesis using refusal_reads_positive [of "''Non, pas interesse''"] by blast
qed

text \<open>Background tasks keep the keys of the stored events.\<close>

definition event_keys :: "db \<Rightarrow> string set" where
  "event_keys d = we_event_key ` set (webhook_events d)"

lemma webhook_events_record [simp]:
  "webhook_events (snd (record_inbound_sms lib now sim sender body key d)) = webhook_events d"
proof (cases "normalize_inbound_phone lib sender")
  case None
  then show ?thesis by (auto simp: record_inbound_sms_def split: sum.split dest: add_log_Inr)
next
  case (Some phone)
  show ?thesis
  proof (cases "inbound_session now sim phone body (classify_sms body) key d")
    case (Inl e)
    with Some show ?thesis by (simp add: record_inbound_sms_def session_def Let_def)
  next
    case (Inr y)
    then obtain cid listing d2 where y: "inbound_session now sim phone body (classify_sms body) key d = Inr ((cid, listing), d2)"
      by (metis prod.exhaust)
    then have "webhook_events d2 = webhook_events d"
      by (elim inbound_session_InrE contact_or_new_InrE) simp
    with Some y show ?thesis by (simp add: record_inbound_sms_def session_def Let_def stop_contact_sequences_def)
  qed
qed

lemma event_keys_background [simp]: "event_keys (snd (run_background lib now task od)) = event_keys d" if "snd od = d"
proof -
  have mark: "event_keys (d\<lparr>webhook_events := update_where P (\<lambda>ev. ev\<lparr>we_processed := True\<rparr>) (webhook_events d)\<rparr>) = event_keys d" for P d
    using map_update_where [of we_event_key "\<lambda>ev. ev\<lparr>we_processed := True\<rparr>" P "webhook_events d"]
    unfolding event_keys_def by (simp flip: set_map)
  have call: "webhook_events (snd (record_incoming_call lib now sim sender key d)) = webhook_events d" for sim sender key
    by (auto simp: record_incoming_call_def session_def Let_def split: option.split sum.split)
  show ?thesis
  proof (cases task)
    case (RecordSms sim sender body key)
    obtain res d1 where r: "record_inbound_sms lib now sim sender body key d = (res, d1)" by fastforce
    then have "webhook_events d1 = webhook_events d" using webhook_events_record [of lib now sim sender body key d] by simp
    then have "event_keys d1 = event_keys d" by (simp add: event_keys_def)
    with r that RecordSms mark [where d = d1 and P = "\<lambda>ev. we_event_key ev = key"] show ?thesis
      by (cases od; cases res) (simp_all add: run_background_def safe_record_inbound_sms_def)
  qed (use that call in \<open>cases od; simp add: run_background_def safe_record_call_def event_keys_def\<close>)+
qed

lemma event_keys_fold: "event_keys (snd (fold (run_background lib now) tasks od)) = event_keys (snd od)"
  by (induction tasks arbitrary: od) simp_all

text \<open>
  C19. A delivery is handled once (rule R12). When the provider delivers a webhook again with the same
  event key, after the first delivery and its background tasks, the answer is a duplicate, no SMS is
  sent and the database does not change.
\<close>

theorem sms_webhook_once:
  assumes "handle_sms lib txt now payload d = (response, outbox, d1)"
    and "extract_sms_payload txt payload = (sim, sender, body, key)" "key \<noteq> []"
    and "extract_sms_payload txt payload' = (sim', sender', body', key)"
  shows "handle_sms lib' txt now' payload' d1 = (\<lparr>wr_duplicate = True, wr_matched = True\<rparr>, [], d1)"
proof -
  obtain res tasks d0 where r: "receive_sms txt now payload d = ((res, tasks), d0)" by (metis prod.exhaust)
  then have f: "fold (run_background lib now) tasks ([], d0) = (outbox, d1)"
    using assms(1) by (simp add: handle_sms_def)
  have black: "event_keys (add_to_blacklist t a b c x) = event_keys x" for t a b c x
    by (simp add: event_keys_def add_to_blacklist_def Let_def)
  have "key \<in> event_keys d0"
    using r assms(2,3)
    by (auto simp: receive_sms_def insert_event_def insert_new_def black Let_def new_event_def split: if_splits)
      (auto simp: event_keys_def)
  moreover have "event_keys d1 = event_keys d0" using event_keys_fold [of lib now tasks "([], d0)"] f by simp
  ultimately have "insert_event now' key ''sms'' (Some (stored_payload payload')) d1 = (False, d1)"
    by (auto simp: insert_event_def insert_new_def event_keys_def new_event_def)
  then show ?thesis using assms(3,4) by (simp add: handle_sms_def receive_sms_def)
qed

definition demo_item :: sms_item where
  "demo_item = \<lparr>it_webhook_id = ''w1'', it_webhook_type = ''INBOX_MESSAGE'', it_message_id = ''m1'', it_date_utc = ''d'',
     it_sender = ''0600000001'', it_receiver = ''s1'', it_content = ''STOP''\<rparr>"

lemma sms_webhook_once_witness:
  "\<exists>response outbox d1. handle_sms demo_phone_lib (\<lambda>j. []) 9 (SmsItems [demo_item]) (demo_due_db ''Bonjour'') = (response, outbox, d1)
     \<and> handle_sms demo_phone_lib (\<lambda>j. []) 10 (SmsItems [demo_item]) d1 = (\<lparr>wr_duplicate = True, wr_matched = True\<rparr>, [], d1)"
proof -
  obtain response outbox d1 where 1: "handle_sms demo_phone_lib (\<lambda>j. []) 9 (SmsItems [demo_item]) (demo_due_db ''Bonjour'') = (response, outbox, d1)"
    by (metis prod.exhaust)
  have 2: "extract_sms_payload (\<lambda>j. []) (SmsItems [demo_item]) = (''s1'', ''0600000001'', ''STOP'', ''w1'')"
    by (simp add: extract_sms_payload_def demo_item_def)
  from sms_webhook_once [OF 1 2 _ 2] 1 show ?thesis by blast
qed

text \<open>
  An unknown caller gets someone's listing. When no contact and no listing has the number of an
  inbound call, the query compares \<open>contact_id\<close> with \<open>None\<close>, which selects every listing that has no
  contact: the call is logged on the latest of those.
\<close>

theorem unknown_caller_gets_listing:
  assumes "normalize_inbound_phone lib sender = Some p" "p \<noteq> []"
    and "\<forall>c\<in>set (contacts d). co_phone_e164 c \<noteq> p" "\<forall>l\<in>set (listings d). li_phone l \<noteq> Some p"
    and "x \<in> set (listings d)" "li_contact_id x = None" "key \<notin> cl_external_key ` set (call_log d)"
  shows "\<exists>d1 row l. record_incoming_call lib now sim sender key d = (Inr (), d1) \<and> call_log d1 = call_log d @ [row]
    \<and> cl_contact_id row = None \<and> cl_listing_id row = Some (li_id l)
    \<and> l \<in> set (listings d) \<and> li_contact_id l = None \<and> li_created_at x \<le> li_created_at l"
proof -
  have none: "one_or_none (filter (\<lambda>c. co_phone_e164 c = p) (contacts d)) = Inr None"
    using assms(3) by (auto simp: one_or_none_def filter_empty_conv split: list.split)
  have sel: "filter (\<lambda>l. li_phone l = Some p \<or> li_contact_id l = None) (listings d) = filter (\<lambda>l. li_contact_id l = None) (listings d)"
    using assms(4) by (intro filter_cong) auto
  have xin: "x \<in> set (filter (\<lambda>l. li_contact_id l = None) (listings d))" using assms(5,6) by simp
  then obtain l where l: "latest li_created_at (filter (\<lambda>l. li_contact_id l = None) (listings d)) = Some l"
    by (cases "latest li_created_at (filter (\<lambda>l. li_contact_id l = None) (listings d))") (auto simp: filter_empty_conv)
  have "l \<in> set (listings d)" "li_contact_id l = None" "li_created_at x \<le> li_created_at l"
    using latest_SomeD [OF l] xin by auto
  then show ?thesis
    using assms(1,2,7) none l sel
    by (auto simp: record_incoming_call_def session_def latest_listing_def Let_def insert_new_def)
qed

lemma unknown_caller_gets_listing_witness:
  "\<exists>d1 row. record_incoming_call demo_phone_lib 9 ''s1'' ''0600000001'' ''call:w1''
       (empty_db\<lparr>listings := [demo_listing 1 ''+33700000007'']\<rparr>) = (Inr (), d1)
     \<and> call_log d1 = [row] \<and> cl_listing_id row = Some 1"
proof -
  let ?d = "empty_db\<lparr>listings := [demo_listing 1 ''+33700000007'']\<rparr>"
  have 1: "normalize_inbound_phone demo_phone_lib ''0600000001'' = Some ''+33600000001''"
    by (simp add: normalize_inbound_phone_def demo_phone_lib_def)
  have 2: "\<forall>c\<in>set (contacts ?d). co_phone_e164 c \<noteq> ''+33600000001''" "\<forall>l\<in>set (listings ?d). li_phone l \<noteq> Some ''+33600000001''"
    "demo_listing 1 ''+33700000007'' \<in> set (listings ?d)" "li_contact_id (demo_listing 1 ''+33700000007'') = None"
    "''call:w1'' \<notin> cl_external_key ` set (call_log ?d)"
    by (simp_all add: empty_db_def demo_listing_def)
  from unknown_caller_gets_listing [OF 1 _ 2, of 9 "''s1''"] show ?thesis
    by (auto simp: empty_db_def demo_listing_def)
qed

end
