(* ===== verification/Patterns.thy ===== *)
theory Patterns
  imports Formatting
begin

text \<open>
  The regular expressions that several services share, as executable matchers with their declarative
  meaning: the numeric codes of one-time messages (\<open>\b\d{4,8}\b\<close> in \<open>phone_operations.py\<close> and
  \<open>boundaries.py\<close>, \<open>\b\d{5,8}\b\<close> in \<open>webhooks/email.py\<close>), and the bearer tokens that
  \<open>phone_operations.py\<close> blanks out of error messages. Also \<open>ILIKE\<close>, the SQL search of the list pages.
\<close>

section \<open>Numeric codes\<close>

definition word_boundary :: "string \<Rightarrow> string \<Rightarrow> bool" where
  \<comment> \<open>the assertion \<open>\b\<close> between two texts\<close>
  "word_boundary pre post =
     ((pre \<noteq> [] \<and> is_word (last pre)) \<noteq> (post \<noteq> [] \<and> is_word (hd post)))"

definition code_match :: "nat \<Rightarrow> nat \<Rightarrow> string \<Rightarrow> string \<Rightarrow> string \<Rightarrow> bool" where
  \<comment> \<open>\<open>\b\d{lo,hi}\b\<close> matches \<open>m\<close> between \<open>pre\<close> and \<open>post\<close>\<close>
  "code_match lo hi pre m post =
     ((\<forall>c\<in>set m. is_digit c) \<and> lo \<le> length m \<and> length m \<le> hi
      \<and> word_boundary pre (m @ post) \<and> word_boundary (pre @ m) post)"

definition code_here :: "nat \<Rightarrow> nat \<Rightarrow> bool \<Rightarrow> string \<Rightarrow> bool" where
  \<comment> \<open>a match starts here: the run of digits has the right length, and no word character is on either
      side; the flag says that the character before is one\<close>
  "code_here lo hi w s =
     (let run = takeWhile is_digit s; post = dropWhile is_digit s in
      run \<noteq> [] \<and> \<not> w \<and> lo \<le> length run \<and> length run \<le> hi \<and> (post = [] \<or> \<not> is_word (hd post)))"

fun code_from :: "nat \<Rightarrow> nat \<Rightarrow> bool \<Rightarrow> string \<Rightarrow> string option" where
  \<comment> \<open>the first match in the rest of a text\<close>
  "code_from lo hi w [] = None"
| "code_from lo hi w (c # cs) =
     (if code_here lo hi w (c # cs) then Some (takeWhile is_digit (c # cs)) else code_from lo hi (is_word c) cs)"

definition first_code :: "nat \<Rightarrow> nat \<Rightarrow> string \<Rightarrow> string option" where
  "first_code lo hi s = code_from lo hi False s"

lemma digit_is_word: "is_digit c \<Longrightarrow> is_word c"
  by (simp add: is_digit_def is_word_def Let_def)

text \<open>A match is a maximal run of digits: the repetition can stop nowhere else.\<close>

lemma digit_run:
  assumes "\<forall>c\<in>set m. is_digit c" "post = [] \<or> \<not> is_word (hd post)"
  shows "takeWhile is_digit (m @ post) = m" "dropWhile is_digit (m @ post) = post"
proof -
  have "takeWhile is_digit post = [] \<and> dropWhile is_digit post = post"
    using assms(2) by (cases post) (auto dest: digit_is_word)
  with assms(1) show "takeWhile is_digit (m @ post) = m" "dropWhile is_digit (m @ post) = post" by simp_all
qed

lemma code_match_run:
  assumes "code_match lo hi pre m post" "0 < lo"
  shows "m \<noteq> []" "is_digit (hd m)" "pre = [] \<or> \<not> is_word (last pre)" "post = [] \<or> \<not> is_word (hd post)"
proof -
  show m: "m \<noteq> []" using assms by (auto simp: code_match_def)
  then show d: "is_digit (hd m)" using assms by (auto simp: code_match_def)
  have "is_word (hd (m @ post))" "is_word (last (pre @ m))"
    using m d assms by (auto simp: code_match_def intro: digit_is_word)
  then show "pre = [] \<or> \<not> is_word (last pre)" "post = [] \<or> \<not> is_word (hd post)"
    using assms m by (auto simp: code_match_def word_boundary_def)
qed

lemma code_matchI:
  assumes "m \<noteq> []" "\<forall>c\<in>set m. is_digit c" "lo \<le> length m" "length m \<le> hi"
    "pre = [] \<or> \<not> is_word (last pre)" "post = [] \<or> \<not> is_word (hd post)"
  shows "code_match lo hi pre m post"
  using assms digit_is_word hd_in_set [OF assms(1)] last_in_set [OF assms(1)]
  by (auto simp: code_match_def word_boundary_def)

definition prev_word :: "string \<Rightarrow> bool" where
  "prev_word pre = (pre \<noteq> [] \<and> is_word (last pre))"

lemma code_here_match:
  assumes "code_here lo hi (prev_word pre) s"
  shows "code_match lo hi pre (takeWhile is_digit s) (dropWhile is_digit s)"
  using assms by (intro code_matchI) (auto simp: code_here_def prev_word_def Let_def dest: set_takeWhileD)

lemma code_match_here:
  assumes "code_match lo hi pre m post" "0 < lo"
  shows "code_here lo hi (prev_word pre) (m @ post)"
proof -
  note r = code_match_run [OF assms]
  have "takeWhile is_digit (m @ post) = m" "dropWhile is_digit (m @ post) = post"
    using assms r(4) by (intro digit_run; simp add: code_match_def)+
  with assms r show ?thesis unfolding code_here_def by (auto simp: code_match_def prev_word_def)
qed

lemma prev_word_snoc [simp]: "prev_word (pre @ [c]) = is_word c"
  by (simp add: prev_word_def)

lemma code_from_sound:
  assumes "code_from lo hi (prev_word pre) s = Some m"
  shows "\<exists>mid post. s = mid @ m @ post \<and> code_match lo hi (pre @ mid) m post"
  using assms
proof (induction s arbitrary: pre)
  case Nil
  then show ?case by simp
next
  case (Cons c cs)
  show ?case
  proof (cases "code_here lo hi (prev_word pre) (c # cs)")
    case True
    then have "m = takeWhile is_digit (c # cs)" using Cons.prems by (simp del: takeWhile.simps)
    moreover have "c # cs = [] @ takeWhile is_digit (c # cs) @ dropWhile is_digit (c # cs)"
      by (simp only: append_Nil takeWhile_dropWhile_id)
    ultimately show ?thesis using code_here_match [OF True] by (metis append_Nil2)
  next
    case False
    then have "code_from lo hi (prev_word (pre @ [c])) cs = Some m" using Cons.prems by simp
    from Cons.IH [OF this] obtain mid post where "cs = mid @ m @ post" "code_match lo hi (pre @ [c] @ mid) m post" by auto
    then have "c # cs = (c # mid) @ m @ post \<and> code_match lo hi (pre @ (c # mid)) m post" by simp
    then show ?thesis by blast
  qed
qed

lemma code_from_leftmost:
  assumes "0 < lo" "s = mid @ m @ post" "code_match lo hi (pre @ mid) m post"
  shows "\<exists>mid' m' post'. code_from lo hi (prev_word pre) s = Some m' \<and> s = mid' @ m' @ post'
    \<and> length mid' \<le> length mid \<and> code_match lo hi (pre @ mid') m' post'"
  using assms(2,3)
proof (induction s arbitrary: pre mid)
  case Nil
  then show ?case using code_match_run(1) [OF Nil.prems(2) assms(1)] by simp
next
  case (Cons c cs)
  show ?case
  proof (cases "code_here lo hi (prev_word pre) (c # cs)")
    case True
    then have "code_from lo hi (prev_word pre) (c # cs) = Some (takeWhile is_digit (c # cs))"
      by (simp del: takeWhile.simps)
    moreover have "c # cs = [] @ takeWhile is_digit (c # cs) @ dropWhile is_digit (c # cs)"
      by (simp only: append_Nil takeWhile_dropWhile_id)
    ultimately show ?thesis using code_here_match [OF True] by (metis append_Nil2 le0 list.size(3))
  next
    case False
    have "mid \<noteq> []"
    proof
      assume "mid = []"
      with code_match_here [OF Cons.prems(2) assms(1)] Cons.prems(1) False show False by simp
    qed
    then obtain mid1 where mid: "mid = c # mid1" "cs = mid1 @ m @ post"
      using Cons.prems(1) by (cases mid) auto
    have "code_match lo hi ((pre @ [c]) @ mid1) m post" using Cons.prems(2) mid by simp
    from Cons.IH [OF mid(2) this] obtain mid' m' post' where
      i: "code_from lo hi (prev_word (pre @ [c])) cs = Some m'" "cs = mid' @ m' @ post'" "length mid' \<le> length mid1"
        "code_match lo hi ((pre @ [c]) @ mid') m' post'" by blast
    have "code_from lo hi (prev_word pre) (c # cs) = Some m'" using i(1) False by simp
    with i mid show ?thesis by (intro exI [of _ "c # mid'"] exI [of _ m'] exI [of _ post']) auto
  qed
qed

lemma prev_word_Nil [simp]: "prev_word [] = False"
  by (simp add: prev_word_def)

lemma first_code_sound: "first_code lo hi s = Some m \<Longrightarrow> \<exists>pre post. s = pre @ m @ post \<and> code_match lo hi pre m post"
  using code_from_sound [of lo hi "[]" s m] by (simp add: first_code_def)

lemma first_code_leftmost:
  "0 < lo \<Longrightarrow> s = pre @ m @ post \<Longrightarrow> code_match lo hi pre m post \<Longrightarrow>
     \<exists>pre' m' post'. first_code lo hi s = Some m' \<and> s = pre' @ m' @ post' \<and> length pre' \<le> length pre
       \<and> code_match lo hi pre' m' post'"
  using code_from_leftmost [of lo s pre m post hi "[]"] by (simp add: first_code_def)

text \<open>The result is the leftmost match, and there is none exactly when no part of the text matches.\<close>

lemma first_code_spec:
  assumes "0 < lo" "first_code lo hi s = Some m"
  shows "\<exists>pre post. s = pre @ m @ post \<and> code_match lo hi pre m post
    \<and> (\<forall>pre' m' post'. s = pre' @ m' @ post' \<and> code_match lo hi pre' m' post' \<longrightarrow> length pre \<le> length pre')"
proof -
  define P where "P pre = (\<exists>m post. s = pre @ m @ post \<and> code_match lo hi pre m post)" for pre
  have "\<exists>pre. P pre" using first_code_sound [OF assms(2)] by (auto simp: P_def)
  then obtain p where p: "P p" "\<And>q. P q \<Longrightarrow> length p \<le> length q"
    using ex_has_least_nat [of P _ length] by blast
  then obtain m0 post0 where "s = p @ m0 @ post0" "code_match lo hi p m0 post0" by (auto simp: P_def)
  from first_code_leftmost [OF assms(1) this] obtain p' m' post' where
    "first_code lo hi s = Some m'" "s = p' @ m' @ post'" "length p' \<le> length p" "code_match lo hi p' m' post'" by blast
  with assms(2) p(2) show ?thesis unfolding P_def by (metis le_trans option.inject)
qed

lemma first_code_None_iff:
  "0 < lo \<Longrightarrow> first_code lo hi s = None \<longleftrightarrow> (\<nexists>pre m post. s = pre @ m @ post \<and> code_match lo hi pre m post)"
  using first_code_sound [of lo hi s] first_code_leftmost [of lo s _ _ _ hi] by (metis not_None_eq option.discI)

section \<open>Bearer tokens\<close>

definition token_char :: "char \<Rightarrow> bool" where
  \<comment> \<open>\<open>[a-z0-9._~-]\<close>, ignoring case\<close>
  "token_char c = (let n = code_point c in
     (65 \<le> n \<and> n \<le> 90) \<or> (97 \<le> n \<and> n \<le> 122) \<or> (48 \<le> n \<and> n \<le> 57) \<or> n \<in> {45, 46, 95, 126})"

definition bearer_at :: "string \<Rightarrow> string option" where
  \<comment> \<open>\<open>bearer\s+[a-z0-9._~-]+\<close>, ignoring case, at the start of a text: the text after the match\<close>
  "bearer_at s =
     (let gap = drop 6 s; rest = dropWhile is_space gap in
      if lower (take 6 s) = ''bearer'' \<and> takeWhile is_space gap \<noteq> [] \<and> takeWhile token_char rest \<noteq> []
      then Some (dropWhile token_char rest) else None)"

definition redacted :: string where
  "redacted = ''Bearer [redacted]''"

lemma bearer_at_length: "bearer_at s = Some t \<Longrightarrow> length t < length s"
proof -
  assume "bearer_at s = Some t"
  then have "t = dropWhile token_char (dropWhile is_space (drop 6 s))" "s \<noteq> []"
    by (auto simp: bearer_at_def Let_def split: if_splits)
  then have "length t \<le> length (drop 6 s)" by (metis length_dropWhile_le le_trans)
  then show ?thesis using \<open>s \<noteq> []\<close> by (cases s) auto
qed

function redact :: "string \<Rightarrow> string" where
  \<comment> \<open>\<open>re.sub\<close> with the pattern above\<close>
  "redact s =
     (case s of
        [] \<Rightarrow> []
      | c # cs \<Rightarrow> (case bearer_at s of Some rest \<Rightarrow> redacted @ redact rest | None \<Rightarrow> c # redact cs))"
  by pat_completeness auto
termination
  by (relation "measure length") (auto dest: bearer_at_length)

declare redact.simps [simp del]

text \<open>Away from a match, and up to case in the first character, the text stays.\<close>

lemma redact_Nil [simp]: "redact [] = []"
  by (simp add: redact.simps)

lemma redact_Some: "bearer_at s = Some rest \<Longrightarrow> redact s = redacted @ redact rest"
proof -
  assume *: "bearer_at s = Some rest"
  then obtain c cs where "s = c # cs" by (cases s) (auto simp: bearer_at_def lower_def)
  with * show ?thesis by (simp add: redact.simps [of "c # cs"])
qed

lemma redact_None: "bearer_at (c # cs) = None \<Longrightarrow> redact (c # cs) = c # redact cs"
  by (simp add: redact.simps [of "c # cs"])

lemma bearer_at_b: "bearer_at s = Some rest \<Longrightarrow> s \<noteq> [] \<and> lower_char (hd s) = CHR ''b''"
  by (cases s) (auto simp: bearer_at_def lower_def Let_def split: if_splits)

lemma redact_other: "lower_char c \<noteq> CHR ''b'' \<Longrightarrow> redact (c # cs) = c # redact cs"
  using bearer_at_b [of "c # cs"] by (cases "bearer_at (c # cs)") (auto intro: redact_None)

lemma redact_hd:
  "(redact s = [] \<longleftrightarrow> s = []) \<and> (s \<noteq> [] \<longrightarrow> lower_char (hd (redact s)) = lower_char (hd s))"
proof (cases s)
  case Nil
  then show ?thesis by simp
next
  case (Cons c cs)
  show ?thesis
  proof (cases "bearer_at s")
    case None
    then show ?thesis using Cons by (simp add: redact_None)
  next
    case (Some rest)
    have "lower_char (CHR ''B'') = CHR ''b''" by code_simp
    with redact_Some [OF Some] bearer_at_b [OF Some] show ?thesis by (simp add: redacted_def)
  qed
qed

lemma redact_uncons:
  assumes "redact s = x # xs" "lower_char x \<noteq> CHR ''b''"
  obtains cs where "s = x # cs" "xs = redact cs"
proof (cases s)
  case Nil
  with assms show ?thesis by simp
next
  case (Cons c cs)
  with assms redact_hd [of s] have "lower_char c \<noteq> CHR ''b''" by auto
  with assms Cons that show ?thesis by (auto simp: redact_other)
qed

lemma space_not_b: "is_space c \<Longrightarrow> lower_char c \<noteq> CHR ''b''"
  by (auto simp: is_space_def lower_char_def Let_def)

lemma redact_spaces:
  "takeWhile is_space (redact s) = takeWhile is_space s \<and> dropWhile is_space (redact s) = redact (dropWhile is_space s)"
proof (induction s)
  case Nil
  then show ?case by simp
next
  case (Cons c cs)
  show ?case
  proof (cases "is_space c")
    case True
    then show ?thesis using Cons redact_other [OF space_not_b] by simp
  next
    case False
    obtain x xs where x: "redact (c # cs) = x # xs" using redact_hd [of "c # cs"] by (cases "redact (c # cs)") auto
    have "\<not> is_space x"
    proof
      assume sp: "is_space x"
      from x space_not_b [OF this] obtain ds where "c # cs = x # ds" by (rule redact_uncons)
      with sp False show False by simp
    qed
    with x False show ?thesis by simp
  qed
qed

lemma token_char_lower: "token_char (lower_char c) = token_char c"
proof -
  have "lower_char c = (if 65 \<le> code_point c \<and> code_point c \<le> 90 \<or> 192 \<le> code_point c \<and> code_point c \<le> 222 \<and> code_point c \<noteq> 215
      then char_of (code_point c + 32) else c)" by (simp add: lower_char_def Let_def)
  moreover have "code_point (char_of (n + 32) :: char) = n + 32" if "n \<le> 222" for n :: nat using that by simp
  ultimately show ?thesis
    by (auto simp: token_char_def Let_def)
qed

lemma redact_token: "takeWhile token_char (redact s) = [] \<longleftrightarrow> takeWhile token_char s = []"
proof (cases s)
  case (Cons c cs)
  then obtain x xs where x: "redact s = x # xs" "lower_char x = lower_char c"
    using redact_hd [of s] by (cases "redact s") auto
  then have "token_char x = token_char c" by (metis token_char_lower)
  with x Cons show ?thesis by simp
qed simp

lemma redact_prefix:
  assumes "lower (take n (redact s)) = w" "length w = n" "CHR ''b'' \<notin> set w"
  shows "take n s = take n (redact s) \<and> drop n (redact s) = redact (drop n s)"
  using assms
proof (induction n arbitrary: s w)
  case 0
  then show ?case by simp
next
  case (Suc n)
  then obtain x xs where x: "redact s = x # xs" by (cases "redact s") (auto simp: lower_def)
  with Suc.prems have "lower_char x \<noteq> CHR ''b''" by (auto simp: lower_def)
  with x obtain cs where cs: "s = x # cs" "xs = redact cs" by (rule redact_uncons)
  have "lower (take n (redact cs)) = tl w" "length (tl w) = n" "CHR ''b'' \<notin> set (tl w)"
    using Suc.prems x cs by (auto simp: lower_def)
  from Suc.IH [OF this] x cs show ?case by simp
qed

lemma bearer_at_iff:
  "bearer_at s \<noteq> None \<longleftrightarrow> lower (take 6 s) = ''bearer'' \<and> takeWhile is_space (drop 6 s) \<noteq> []
     \<and> takeWhile token_char (dropWhile is_space (drop 6 s)) \<noteq> []"
  by (simp add: bearer_at_def Let_def)

lemma bearer_at_keep:
  assumes "bearer_at (c # redact cs) \<noteq> None"
  shows "bearer_at (c # cs) \<noteq> None"
proof -
  have six: "take 6 (c # t) = c # take 5 t" "drop 6 (c # t) = drop 5 t" for t by simp_all
  have "lower_char c # lower (take 5 (redact cs)) = ''bearer''"
    using assms unfolding bearer_at_iff six by (simp add: lower_def)
  then have "lower (take 5 (redact cs)) = ''earer''" by simp
  from redact_prefix [OF this] have "take 5 cs = take 5 (redact cs)" "drop 5 (redact cs) = redact (drop 5 cs)" by simp_all
  with assms show ?thesis
    unfolding bearer_at_iff six using redact_spaces [of "drop 5 cs"] by (simp add: redact_token)
qed

text \<open>No bearer token is left in a redacted text, nor in a prefix of it.\<close>

lemma redacted_suffix:
  assumes "suffix t (redacted @ r)" "bearer_at t \<noteq> None"
  shows "suffix t r"
proof -
  from assms(1) obtain u where u: "redacted @ r = u @ t" by (auto simp: suffix_def)
  show ?thesis
  proof (cases "length redacted \<le> length u")
    case True
    with u have "r = drop (length redacted) u @ t" by (metis append_eq_append_conv_if)
    then show ?thesis by (simp add: suffix_def)
  next
    case False
    then have len: "length u < 17" by (simp add: redacted_def)
    have "t = drop (length u) redacted @ r" using u False by (metis append_eq_append_conv_if append_eq_conv_conj le_cases not_le drop_append diff_is_0_eq drop0)
    moreover have "\<forall>n<17. n \<noteq> 0 \<longrightarrow> lower_char (redacted ! n) \<noteq> CHR ''b''" by code_simp
    moreover have "hd (drop (length u) redacted @ r) = redacted ! length u"
      using len by (simp add: hd_drop_conv_nth redacted_def)
    moreover have "t \<noteq> [] \<and> lower_char (hd t) = CHR ''b''" using assms(2) bearer_at_b by blast
    ultimately have "length u = 0" using len by metis
    with u have "t = redacted @ r" by simp
    moreover have "bearer_at (redacted @ r) = None"
      by (simp add: bearer_at_def redacted_def is_space_def token_char_def)
    ultimately show ?thesis using assms(2) by simp
  qed
qed

lemma redact_clean: "suffix t (redact s) \<Longrightarrow> bearer_at t = None"
proof (induction s arbitrary: t rule: redact.induct)
  case (1 s)
  show ?case
  proof (cases s)
    case Nil
    with "1.prems" show ?thesis by (simp add: bearer_at_def lower_def)
  next
    case (Cons c cs)
    show ?thesis
    proof (cases "bearer_at s")
      case None
      with Cons "1.prems" have "t = c # redact cs \<or> suffix t (redact cs)"
        by (simp add: redact_None suffix_Cons)
      then show ?thesis
      proof
        assume "t = c # redact cs"
        moreover have "bearer_at (c # cs) = None" using None Cons by simp
        ultimately show ?thesis using bearer_at_keep [of c cs] by blast
      next
        assume "suffix t (redact cs)"
        with "1.IH"(1) [OF Cons None] show ?thesis .
      qed
    next
      case (Some rest)
      show ?thesis
      proof (rule ccontr)
        assume b: "bearer_at t \<noteq> None"
        with "1.prems" Some have "suffix t (redact rest)" by (simp add: redact_Some redacted_suffix)
        with "1.IH"(2) [OF Cons Some] b show False by simp
      qed
    qed
  qed
qed

lemma bearer_at_append: "bearer_at u \<noteq> None \<Longrightarrow> bearer_at (u @ v) \<noteq> None"
proof -
  assume u: "bearer_at u \<noteq> None"
  then have ne: "drop 6 u \<noteq> []" and sp: "takeWhile is_space (drop 6 u) \<noteq> []"
    and tk: "takeWhile token_char (dropWhile is_space (drop 6 u)) \<noteq> []"
    unfolding bearer_at_iff by auto
  then have len: "6 < length u" by simp
  have *: "dropWhile is_space (drop 6 u @ v) = dropWhile is_space (drop 6 u) @ v"
  proof -
    from tk have "dropWhile is_space (drop 6 u) \<noteq> []" by (metis takeWhile.simps(1))
    then have "\<exists>x\<in>set (drop 6 u). \<not> is_space x" by (simp only: dropWhile_eq_Nil_conv) blast
    then show ?thesis by (metis dropWhile_append1)
  qed
  from sp have "takeWhile is_space (drop 6 u @ v) \<noteq> []" by (cases "drop 6 u") (auto split: if_splits)
  moreover from tk have "takeWhile token_char (dropWhile is_space (drop 6 u) @ v) \<noteq> []"
    by (cases "dropWhile is_space (drop 6 u)") (auto split: if_splits)
  ultimately show ?thesis using u len unfolding bearer_at_iff by (simp add: *)
qed

lemma redact_clean_infix:
  assumes "sublist t (redact s)"
  shows "bearer_at t = None"
proof (rule ccontr)
  assume b: "bearer_at t \<noteq> None"
  from assms obtain p q where "redact s = p @ t @ q" by (auto simp: sublist_def)
  then have "suffix (t @ q) (redact s)" by (simp add: suffix_def)
  from redact_clean [OF this] bearer_at_append [OF b, of q] show False by simp
qed

section \<open>Search\<close>

text \<open>
  PostgreSQL's \<open>LIKE\<close>: a percent sign stands for any text, an underscore for any character, and a
  backslash takes the next character literally. \<open>ILIKE\<close> ignores case.
\<close>

fun like :: "string \<Rightarrow> string \<Rightarrow> bool" where
  "like [] t = (t = [])"
| "like (p # ps) [] = (p = CHR ''%'' \<and> like ps [])"
| "like (p # ps) (c # cs) =
     (if p = CHR ''%'' then like ps (c # cs) \<or> like (p # ps) cs
      else if p = CHR ''_'' then like ps cs
      else if p = CHR 0x5C then (case ps of [] \<Rightarrow> False | q # qs \<Rightarrow> q = c \<and> like qs cs)
      else p = c \<and> like ps cs)"

definition ilike :: "string \<Rightarrow> string \<Rightarrow> bool" where
  \<comment> \<open>\<open>column.ilike(pattern)\<close>\<close>
  "ilike t pat = like (lower pat) (lower t)"

definition search_pattern :: "string \<Rightarrow> string" where
  "search_pattern query = ''%'' @ strip query @ ''%''"

definition plain_text :: "string \<Rightarrow> bool" where
  "plain_text s = (\<forall>c\<in>set s. c \<noteq> CHR ''%'' \<and> c \<noteq> CHR ''_'' \<and> c \<noteq> CHR 0x5C)"

lemma like_percent: "like (CHR ''%'' # ps) t \<longleftrightarrow> (\<exists>u v. t = u @ v \<and> like ps v)"
proof (induction t)
  case Nil
  then show ?case by simp
next
  case (Cons c t)
  have "(\<exists>u v. c # t = u @ v \<and> like ps v) \<longleftrightarrow> like ps (c # t) \<or> (\<exists>u v. t = u @ v \<and> like ps v)"
    by (auto simp: Cons_eq_append_conv)
  with Cons show ?case by simp
qed

lemma like_plain: "plain_text q \<Longrightarrow> like (q @ ps) t \<longleftrightarrow> (\<exists>v. t = q @ v \<and> like ps v)"
proof (induction q arbitrary: t)
  case Nil
  then show ?case by simp
next
  case (Cons c q)
  then show ?case by (cases t) (auto simp: plain_text_def)
qed

lemma like_search: "plain_text q \<Longrightarrow> like (''%'' @ q @ ''%'') t \<longleftrightarrow> contains q t"
  using like_percent [of "[]"] by (simp add: like_percent like_plain contains_iff_sublist sublist_def) blast

lemma lower_char_plain: "c \<noteq> CHR ''%'' \<and> c \<noteq> CHR ''_'' \<and> c \<noteq> CHR 0x5C \<Longrightarrow>
    lower_char c \<noteq> CHR ''%'' \<and> lower_char c \<noteq> CHR ''_'' \<and> lower_char c \<noteq> CHR 0x5C"
proof -
  assume *: "c \<noteq> CHR ''%'' \<and> c \<noteq> CHR ''_'' \<and> c \<noteq> CHR 0x5C"
  have up: "code_point (char_of (n + 32) :: char) = n + 32" if "n \<le> 222" for n :: nat using that by simp
  show ?thesis
  proof (cases "lower_char c = c")
    case False
    then have "97 \<le> code_point (lower_char c) \<and> code_point (lower_char c) \<le> 122 \<or> 224 \<le> code_point (lower_char c)"
      using up [of "code_point c"] by (auto simp: lower_char_def Let_def split: if_splits)
    then show ?thesis by auto
  qed (use * in simp)
qed

text \<open>A search without wildcards finds the texts that contain the query, whatever the case.\<close>

lemma ilike_search:
  assumes "plain_text query"
  shows "ilike t (search_pattern query) \<longleftrightarrow> contains (lower (strip query)) (lower t)"
proof -
  have "plain_text (strip query)" using assms set_strip [of query] unfolding plain_text_def by blast
  then have "plain_text (lower (strip query))"
    unfolding plain_text_def lower_def set_map ball_simps(9) by (meson lower_char_plain)
  from like_search [OF this, of "lower t"] show ?thesis
    by (simp add: ilike_def search_pattern_def lower_def lower_char_def)
qed

end
