(* ===== verification/Security.thy ===== *)
theory Security
  imports Config Sha256
begin

text \<open>
  The access checks of \<open>app/security.py\<close>: operator roles, the shared tokens of the control tower and
  of the SMS webhooks, Mailgun's signatures, and the signed tokens of the web socket with the code
  that issues them (\<open>front/app/api/auth/ws-token/route.ts\<close>). The clock is an argument; \<open>hmac\<close> and
  \<open>hashlib\<close> are the functions of theory Sha256.
\<close>

section \<open>Roles\<close>

definition role_aliases :: "(string, string) dict" where
  "role_aliases = [(''operateur'', ''operator''), (''manager'', ''operator''), (''administrateur'', ''admin'')]"

definition role_rank :: "(string, int) dict" where
  "role_rank = [(''viewer'', 0), (''operator'', 1), (''admin'', 2)]"

definition require_control_role :: "string \<Rightarrow> string \<Rightarrow> unit result" where
  "require_control_role role minimum =
     (let normalized = (case dict_get role_aliases (lower role) of None \<Rightarrow> lower role | Some r \<Rightarrow> r);
          rank = (case dict_get role_rank normalized of None \<Rightarrow> -1 | Some n \<Rightarrow> n) in
      case dict_get role_rank minimum of
        None \<Rightarrow> Inl (HTTPException 403 ''INSUFFICIENT_ROLE'')
      | Some needed \<Rightarrow> if rank < needed then Inl (HTTPException 403 ''INSUFFICIENT_ROLE'') else Inr ())"

section \<open>Shared secrets\<close>

definition is_ascii :: "string \<Rightarrow> bool" where
  "is_ascii s = (\<forall>c\<in>set s. code_point c < 128)"

definition compare_digest :: "string \<Rightarrow> string \<Rightarrow> bool result" where
  \<comment> \<open>\<open>secrets.compare_digest\<close> on two \<open>str\<close> accepts ASCII only\<close>
  "compare_digest a b =
     (if is_ascii a \<and> is_ascii b then Inr (a = b)
      else Inl (TypeError ''comparing strings with non-ASCII characters is not supported''))"

definition check_digest :: "string \<Rightarrow> string \<Rightarrow> string \<Rightarrow> unit result" where
  \<comment> \<open>\<open>if not secrets.compare_digest(supplied, expected): raise HTTPException(401, code)\<close>\<close>
  "check_digest code supplied expected =
     (case compare_digest supplied expected of
        Inl e \<Rightarrow> Inl e
      | Inr same \<Rightarrow> if same then Inr () else Inl (HTTPException 401 code))"

definition require_control_token :: "settings \<Rightarrow> string option \<Rightarrow> unit result" where
  "require_control_token s header =
     (if control_tower_token s = [] then Inl (HTTPException 503 ''CONTROL_TOWER_NOT_CONFIGURED'')
      else case header of
        None \<Rightarrow> Inl (HTTPException 401 ''UNAUTHORIZED'')
      | Some supplied \<Rightarrow> check_digest ''UNAUTHORIZED'' supplied (control_tower_token s))"

definition text_or :: "string option \<Rightarrow> string option \<Rightarrow> string option" where
  \<comment> \<open>\<open>a or b\<close>\<close>
  "text_or a b = (case a of None \<Rightarrow> b | Some t \<Rightarrow> if t = [] then b else a)"

definition require_webhook_secret :: "settings \<Rightarrow> string option \<Rightarrow> string option \<Rightarrow> unit result" where
  "require_webhook_secret s header query =
     (if smstools_webhook_secret s = [] then Inl (HTTPException 503 ''WEBHOOK_SECRET_NOT_CONFIGURED'')
      else case text_or header query of
        None \<Rightarrow> Inl (HTTPException 401 ''INVALID_WEBHOOK_SIGNATURE'')
      | Some supplied \<Rightarrow> check_digest ''INVALID_WEBHOOK_SIGNATURE'' supplied (smstools_webhook_secret s))"

section \<open>Signatures\<close>

definition hmac_hex :: "string \<Rightarrow> string \<Rightarrow> string" where
  \<comment> \<open>\<open>hmac.new(key.encode(), text.encode(), hashlib.sha256).hexdigest()\<close>\<close>
  "hmac_hex key msg = hexdigest (hmac_sha256 (encode key) (encode msg))"

definition verify_mailgun_signature :: "settings \<Rightarrow> datetime \<Rightarrow> string \<Rightarrow> string \<Rightarrow> string \<Rightarrow> unit result" where
  "verify_mailgun_signature s now timestamp token signature =
     (case py_int timestamp of
        Inl e \<Rightarrow> Inl (HTTPException 401 ''INVALID_WEBHOOK_SIGNATURE'')
      | Inr t \<Rightarrow>
          if seconds 900 < \<bar>now - seconds t\<bar> then Inl (HTTPException 401 ''EXPIRED_WEBHOOK_SIGNATURE'')
          else if mailgun_webhook_signing_key s = []
          then Inl (HTTPException 503 ''MAILGUN_SIGNING_KEY_NOT_CONFIGURED'')
          else check_digest ''INVALID_WEBHOOK_SIGNATURE'' signature
                 (hmac_hex (mailgun_webhook_signing_key s) (timestamp @ token)))"

definition websocket_token_is_valid :: "settings \<Rightarrow> datetime \<Rightarrow> string option \<Rightarrow> bool result" where
  "websocket_token_is_valid s now token =
     (case token of
        None \<Rightarrow> Inr False
      | Some t \<Rightarrow>
          if control_tower_token s = [] \<or> t = [] then Inr False
          else case split_once CHR ''.'' t of
            (expires, None) \<Rightarrow> Inr False
          | (expires, Some signature) \<Rightarrow>
              (case py_int expires of
                 Inl e \<Rightarrow> Inr False
               | Inr deadline \<Rightarrow>
                   if deadline < now div seconds 1 then Inr False
                   else compare_digest signature (hmac_hex (control_tower_token s) expires)))"

definition issue_websocket_token :: "settings \<Rightarrow> datetime \<Rightarrow> string result" where
  \<comment> \<open>the route \<open>ws-token\<close> of the front end, for an authenticated session\<close>
  "issue_websocket_token s now =
     (if control_tower_token s = [] then Inl (HTTPException 503 ''not_configured'')
      else (let expires = str_int (now div seconds 1 + 60) in
            Inr (expires @ ''.'' @ hmac_hex (control_tower_token s) expires)))"

section \<open>Facts\<close>

lemma length_hmac_sha256 [simp]: "length (hmac_sha256 k m) = 32"
  by (simp add: hmac_sha256_def Let_def)

lemma hex_digit_ascii: "d < 16 \<Longrightarrow> code_point (hex_digit d) < 128"
  by (simp add: hex_digit_def)

lemma is_ascii_hexdigest [simp]: "is_ascii (hexdigest bs)"
proof -
  have lt: "unat b div 16 < 16" "unat b mod 16 < 16" for b :: byte
    using unsigned_less [of b, where 'a = nat] by simp_all
  show ?thesis unfolding is_ascii_def hexdigest_def using lt by (auto intro: hex_digit_ascii)
qed

lemma is_ascii_hmac_hex [simp]: "is_ascii (hmac_hex k m)"
  by (simp add: hmac_hex_def)

lemma length_hmac_hex [simp]: "length (hmac_hex k m) = 64"
  by (simp add: hmac_hex_def)

lemma compare_digest_Inr: "compare_digest a b = Inr x \<longleftrightarrow> is_ascii a \<and> is_ascii b \<and> x = (a = b)"
  by (auto simp: compare_digest_def)

lemma check_digest_ok: "check_digest code a b = Inr () \<longleftrightarrow> is_ascii a \<and> a = b"
  by (auto simp: check_digest_def compare_digest_def)

lemma split_once_iff: "split_once c s = (a, Some b) \<longleftrightarrow> s = a @ c # b \<and> c \<notin> set a"
proof (induction s arbitrary: a)
  case Nil
  then show ?case by simp
next
  case (Cons x xs)
  show ?case
  proof (cases "x = c")
    case True
    then show ?thesis by (cases a) auto
  next
    case False
    obtain a' o' where s: "split_once c xs = (a', o')" by fastforce
    show ?thesis
    proof (cases a)
      case Nil
      with False s show ?thesis by simp
    next
      case (Cons y ys)
      with False s Cons.IH [of ys] show ?thesis by auto
    qed
  qed
qed

lemma digit_no_dot: "is_digit c \<Longrightarrow> c \<noteq> CHR ''.''"
  by (auto simp: is_digit_def Let_def)

lemma str_nat_no_dot: "CHR ''.'' \<notin> set (str_nat n)"
  by (blast dest: str_nat_digits digit_no_dot)

lemma verify_mailgun_ok:
  "verify_mailgun_signature s now ts token sig = Inr () \<longleftrightarrow>
     (\<exists>t. py_int ts = Inr t \<and> \<bar>now - seconds t\<bar> \<le> seconds 900) \<and> mailgun_webhook_signing_key s \<noteq> []
     \<and> sig = hmac_hex (mailgun_webhook_signing_key s) (ts @ token)"
  by (cases "py_int ts") (auto simp: verify_mailgun_signature_def check_digest_ok)

section \<open>Properties\<close>

text \<open>
  C24. Web socket tokens round trip. A token that the front end issues is accepted by the back end for
  the sixty seconds after its issue, to the second, and is refused from then on, whatever the key.
\<close>

theorem websocket_token_roundtrip:
  assumes "control_tower_token s \<noteq> []" "0 \<le> issued"
  shows "\<exists>t. issue_websocket_token s issued = Inr t
    \<and> (\<forall>now. websocket_token_is_valid s now (Some t) = Inr (now div seconds 1 \<le> issued div seconds 1 + 60))"
proof -
  define n where "n = nat (issued div seconds 1 + 60)"
  have n: "issued div seconds 1 + 60 = int n" using assms(2) by (simp add: n_def duration_defs)
  let ?t = "str_nat n @ ''.'' @ hmac_hex (control_tower_token s) (str_nat n)"
  have "issue_websocket_token s issued = Inr ?t"
    using assms(1) by (simp add: issue_websocket_token_def Let_def n str_int_def)
  moreover have "split_once CHR ''.'' ?t = (str_nat n, Some (hmac_hex (control_tower_token s) (str_nat n)))"
    by (subst split_once_iff) (simp add: str_nat_no_dot)
  then have "websocket_token_is_valid s now (Some ?t) = Inr (now div seconds 1 \<le> issued div seconds 1 + 60)" for now
    using assms(1) by (simp add: websocket_token_is_valid_def n compare_digest_def)
  ultimately show ?thesis by blast
qed

lemma websocket_token_roundtrip_witness:
  "\<exists>t. issue_websocket_token (default_settings\<lparr>control_tower_token := ''k''\<rparr>) (seconds 1000) = Inr t
    \<and> websocket_token_is_valid (default_settings\<lparr>control_tower_token := ''k''\<rparr>) (seconds 1060) (Some t) = Inr True
    \<and> websocket_token_is_valid (default_settings\<lparr>control_tower_token := ''k''\<rparr>) (seconds 1061) (Some t) = Inr False"
proof -
  let ?s = "default_settings\<lparr>control_tower_token := ''k''\<rparr>"
  have "control_tower_token ?s \<noteq> []" "(0::int) \<le> seconds 1000" by (simp_all add: duration_defs)
  from websocket_token_roundtrip [OF this] obtain t where "issue_websocket_token ?s (seconds 1000) = Inr t"
    "\<And>now. websocket_token_is_valid ?s now (Some t) = Inr (now div seconds 1 \<le> seconds 1000 div seconds 1 + 60)" by blast
  then show ?thesis by (simp add: duration_defs)
qed

lemma websocket_token_cases:
  "websocket_token_is_valid s now (Some t) = Inr True \<longleftrightarrow>
     control_tower_token s \<noteq> [] \<and> (\<exists>expires deadline. t = expires @ ''.'' @ hmac_hex (control_tower_token s) expires
        \<and> CHR ''.'' \<notin> set expires \<and> py_int expires = Inr deadline \<and> now div seconds 1 \<le> deadline)"
  "is_error (websocket_token_is_valid s now (Some t)) \<longleftrightarrow>
     control_tower_token s \<noteq> [] \<and> (\<exists>expires signature deadline. t = expires @ ''.'' @ signature
        \<and> CHR ''.'' \<notin> set expires \<and> py_int expires = Inr deadline \<and> now div seconds 1 \<le> deadline \<and> \<not> is_ascii signature)"
proof -
  let ?k = "control_tower_token s"
  obtain expires o' where sp: "split_once CHR ''.'' t = (expires, o')" by fastforce
  have uniq: "t = a @ ''.'' @ b \<and> CHR ''.'' \<notin> set a \<longleftrightarrow> a = expires \<and> o' = Some b" for a b
    using split_once_iff [of "CHR ''.''" t a b] sp by auto
  show "websocket_token_is_valid s now (Some t) = Inr True \<longleftrightarrow> ?k \<noteq> [] \<and> (\<exists>expires deadline. t = expires @ ''.'' @ hmac_hex ?k expires
        \<and> CHR ''.'' \<notin> set expires \<and> py_int expires = Inr deadline \<and> now div seconds 1 \<le> deadline)"
  proof -
    have "(\<exists>a deadline. t = a @ ''.'' @ hmac_hex ?k a \<and> CHR ''.'' \<notin> set a \<and> py_int a = Inr deadline \<and> now div seconds 1 \<le> deadline)
      \<longleftrightarrow> o' = Some (hmac_hex ?k expires) \<and> (\<exists>deadline. py_int expires = Inr deadline \<and> now div seconds 1 \<le> deadline)"
      using uniq by metis
    moreover have "t \<noteq> []" if "o' \<noteq> None" using sp that by auto
    ultimately show ?thesis
      by (auto simp: websocket_token_is_valid_def sp compare_digest_Inr split: option.splits sum.splits)
  qed
  show "is_error (websocket_token_is_valid s now (Some t)) \<longleftrightarrow> ?k \<noteq> [] \<and> (\<exists>expires signature deadline. t = expires @ ''.'' @ signature
        \<and> CHR ''.'' \<notin> set expires \<and> py_int expires = Inr deadline \<and> now div seconds 1 \<le> deadline \<and> \<not> is_ascii signature)"
  proof -
    have "(\<exists>a b deadline. t = a @ ''.'' @ b \<and> CHR ''.'' \<notin> set a \<and> py_int a = Inr deadline \<and> now div seconds 1 \<le> deadline \<and> \<not> is_ascii b)
      \<longleftrightarrow> (\<exists>b. o' = Some b \<and> \<not> is_ascii b) \<and> (\<exists>deadline. py_int expires = Inr deadline \<and> now div seconds 1 \<le> deadline)"
      using uniq by metis
    moreover have "t \<noteq> []" if "o' \<noteq> None" using sp that by auto
    ultimately show ?thesis
      by (auto simp: websocket_token_is_valid_def sp compare_digest_def is_error_def split: option.splits sum.splits)
  qed
qed

text \<open>
  Which tokens open the web socket. A token is accepted exactly when it is a numeral of a second
  that has not passed, a point, and the HMAC of that numeral under the configured key; without a
  configured key none is. The check raises, instead of refusing, exactly for an unexpired token whose
  signature holds a character outside ASCII.
\<close>

theorem websocket_token_exact:
  "(websocket_token_is_valid s now (Some t) = Inr True \<longleftrightarrow>
     control_tower_token s \<noteq> [] \<and> (\<exists>expires deadline. t = expires @ ''.'' @ hmac_hex (control_tower_token s) expires
        \<and> CHR ''.'' \<notin> set expires \<and> py_int expires = Inr deadline \<and> now div seconds 1 \<le> deadline))
   \<and> (is_error (websocket_token_is_valid s now (Some t)) \<longleftrightarrow>
     control_tower_token s \<noteq> [] \<and> (\<exists>expires signature deadline. t = expires @ ''.'' @ signature
        \<and> CHR ''.'' \<notin> set expires \<and> py_int expires = Inr deadline \<and> now div seconds 1 \<le> deadline \<and> \<not> is_ascii signature))"
  using websocket_token_cases by blast

end
