(* ===== verification/Email.thy ===== *)
theory Email
  imports Commands Patterns Security
begin

text \<open>
  The operational mailboxes: the identities of \<open>email_identities.py\<close> and their routes
  (\<open>api/email_identities.py\<close>), the messages of \<open>email_inbox.py\<close> and theirs (\<open>api/email_inbox.py\<close>), and
  the Mailgun webhook \<open>webhooks/email.py\<close>, which files a message and hands its verification code to the
  account creation through Redis. Redis and the choices of \<open>secrets\<close> are parameters.
\<close>

section \<open>Identities (email_identities.py)\<close>

definition FIRST_NAMES :: "string list" where
  "FIRST_NAMES = [''Alice'', ''Camille'', ''Chloe'', ''Emma'', ''Julien'', ''Lucas'', ''Manon'', ''Marie'', ''Nicolas'', ''Thomas'']"

definition LAST_NAMES :: "string list" where
  "LAST_NAMES = [''Bernard'', ''Dubois'', ''Durand'', ''Garcia'', ''Lefevre'', ''Martin'', ''Moreau'', ''Petit'', ''Robert'', ''Roux'']"

record generated_identity =
  gi_first_name :: string
  gi_last_name :: string
  gi_email :: string

definition local_part :: "string \<Rightarrow> string" where
  "local_part v = filter (\<lambda>c. 97 \<le> code_point c \<and> code_point c \<le> 122) (lower v)"

definition build_identity :: "nat \<times> nat \<times> nat \<Rightarrow> string \<Rightarrow> generated_identity" where
  \<comment> \<open>the two choices of a name and the three random bytes of the suffix come from \<open>secrets\<close>\<close>
  "build_identity pick domain =
     (case pick of (i, j, n) \<Rightarrow>
       (let first_name = FIRST_NAMES ! (i mod length FIRST_NAMES); last_name = LAST_NAMES ! (j mod length LAST_NAMES) in
        \<lparr>gi_first_name = first_name, gi_last_name = last_name,
         gi_email = local_part first_name @ ''.'' @ local_part last_name @ ''-'' @ digits hex_digit 16 6 n @ ''@'' @ domain\<rparr>))"

definition list_identities :: "db \<Rightarrow> email_identity list" where
  "list_identities d = newest_first ei_created_at (email_identities d)"

definition add_identity :: "datetime \<Rightarrow> generated_identity \<Rightarrow> db \<Rightarrow> db" where
  "add_identity now g d = d\<lparr>email_identities := email_identities d @
       [\<lparr>ei_id = fresh_id d, ei_first_name = gi_first_name g, ei_last_name = gi_last_name g, ei_email = gi_email g,
         ei_status = EI_AVAILABLE, ei_reserved_by = None, ei_reserved_at = None, ei_used_at = None,
         ei_created_at = now, ei_updated_at = now\<rparr>], fresh_id := Suc (fresh_id d)\<rparr>"

definition generate_batch :: "settings \<Rightarrow> (nat \<Rightarrow> nat \<times> nat \<times> nat) \<Rightarrow> datetime \<Rightarrow> nat \<Rightarrow> db \<Rightarrow> email_identity list result \<times> db" where
  \<comment> \<open>the flush raises when two addresses are equal\<close>
  "generate_batch s pick now count d =
     (let domain = lower (strip (operational_domain s)) in
      if domain = [] then (Inl (ValueError ''OPERATIONAL_DOMAIN_NOT_CONFIGURED''), d)
      else session (\<lambda>d. let d1 = fold (\<lambda>i. add_identity now (build_identity (pick i) domain)) [0..<count] d in
                     if distinct (map ei_email (email_identities d1))
                     then Inr (drop (length (email_identities d)) (email_identities d1), d1)
                     else Inl (IntegrityError ''email_identities_email_key'')) d)"

definition identity_after :: "string \<Rightarrow> string \<Rightarrow> datetime \<Rightarrow> email_identity \<Rightarrow> email_identity result" where
  \<comment> \<open>the identity after the action\<close>
  "identity_after action actor now i =
     (if action = ''reserve'' then
        (if ei_status i \<noteq> EI_AVAILABLE then Inl (ValueError ''IDENTITY_NOT_AVAILABLE'')
         else Inr (i\<lparr>ei_status := EI_RESERVED, ei_reserved_by := Some actor, ei_reserved_at := Some now\<rparr>))
      else if action = ''release'' then
        (if ei_status i \<noteq> EI_RESERVED then Inl (ValueError ''IDENTITY_NOT_RESERVED'')
         else Inr (i\<lparr>ei_status := EI_AVAILABLE, ei_reserved_by := None, ei_reserved_at := None\<rparr>))
      else if action = ''use'' then
        (if ei_status i \<noteq> EI_RESERVED then Inl (ValueError ''IDENTITY_NOT_RESERVED'')
         else Inr (i\<lparr>ei_status := EI_USED, ei_used_at := Some now\<rparr>))
      else if action = ''disable'' then Inr (i\<lparr>ei_status := EI_DISABLED\<rparr>)
      else Inr i)"

definition command_identity :: "uuid \<Rightarrow> string \<Rightarrow> string \<Rightarrow> datetime \<Rightarrow> db \<Rightarrow> email_identity result \<times> db" where
  "command_identity iid action actor now =
     session (\<lambda>d. case find_row (\<lambda>i. ei_id i = iid) (email_identities d) of
        None \<Rightarrow> Inl (LookupError ''EMAIL_IDENTITY_NOT_FOUND'')
      | Some i \<Rightarrow>
          (case identity_after action actor now i of
             Inl e \<Rightarrow> Inl e
           | Inr i' \<Rightarrow> Inr (i', d\<lparr>email_identities := update_where (\<lambda>r. ei_id r = iid) (\<lambda>_. i') (email_identities d)\<rparr>)))"

section \<open>Routes of the identities (api/email_identities.py)\<close>

definition require_admin :: "string \<Rightarrow> unit result" where
  "require_admin role = (if role \<noteq> ''admin'' then Inl (HTTPException 403 ''ADMIN_REQUIRED'') else Inr ())"

fun value_error_status :: "nat \<Rightarrow> exn \<Rightarrow> exn" where
  \<comment> \<open>\<open>except LookupError: 404\<close>, \<open>except ValueError: code\<close>\<close>
  "value_error_status code (LookupError m) = HTTPException 404 m"
| "value_error_status code (KeyError m) = HTTPException 404 m"
| "value_error_status code (ValueError m) = HTTPException code m"
| "value_error_status code e = e"

definition generate_email_identities :: "settings \<Rightarrow> (nat \<Rightarrow> nat \<times> nat \<times> nat) \<Rightarrow> datetime \<Rightarrow> nat \<Rightarrow> string \<Rightarrow> db
    \<Rightarrow> email_identity list result \<times> db" where
  "generate_email_identities s pick now count role d =
     (case require_admin role of
        Inl e \<Rightarrow> (Inl e, d)
      | Inr _ \<Rightarrow>
          (case generate_batch s pick now count d of
             (Inl (ValueError m), d1) \<Rightarrow> (Inl (HTTPException 503 m), d1)
           | (r, d1) \<Rightarrow> (r, d1)))"

definition email_identity_command :: "uuid \<Rightarrow> string \<Rightarrow> string \<Rightarrow> string \<Rightarrow> datetime \<Rightarrow> db \<Rightarrow> email_identity result \<times> db" where
  "email_identity_command iid action role operator now d =
     (case require_admin role of
        Inl e \<Rightarrow> (Inl e, d)
      | Inr _ \<Rightarrow> apfst (map_sum (value_error_status 409) id) (command_identity iid action (take 120 operator) now d))"

section \<open>Messages (email_inbox.py)\<close>

definition store_inbound_message :: "datetime \<Rightarrow> string \<Rightarrow> string \<Rightarrow> string \<Rightarrow> string \<Rightarrow> string \<Rightarrow> string \<Rightarrow> db \<Rightarrow> bool result \<times> db" where
  "store_inbound_message now key recipient sender subject body_plain body_html =
     session (\<lambda>d. let normalized = lower (strip recipient) in
       case find_row (\<lambda>i. ei_email i = normalized) (email_identities d) of
         None \<Rightarrow> Inr (False, d)
       | Some i \<Rightarrow>
           if key \<in> em_event_key ` set (email_messages d) then Inl (IntegrityError ''email_messages_event_key_key'')
           else Inr (True, d\<lparr>email_messages := email_messages d @
             [\<lparr>em_id = fresh_id d, em_identity_id = ei_id i, em_event_key = key, em_sender = strip sender,
               em_recipient = normalized, em_subject = subject, em_body_plain = body_plain, em_body_html = body_html,
               em_received_at = now, em_read_at = None, em_expires_at = now + days 7\<rparr>], fresh_id := Suc (fresh_id d)\<rparr>))"

definition email_matches :: "uuid option \<Rightarrow> string option \<Rightarrow> bool \<Rightarrow> email_message \<Rightarrow> bool" where
  \<comment> \<open>the conditions of \<open>list_email_messages\<close>; an empty query is none\<close>
  "email_matches iid query unread_only m =
     ((case iid of None \<Rightarrow> True | Some i \<Rightarrow> em_identity_id m = i)
      \<and> (unread_only \<longrightarrow> em_read_at m = None)
      \<and> (case query of None \<Rightarrow> True | Some q \<Rightarrow> q = []
           \<or> ilike (em_sender m) (search_pattern q) \<or> ilike (em_subject m) (search_pattern q)))"

definition list_email_messages :: "uuid option \<Rightarrow> string option \<Rightarrow> bool \<Rightarrow> nat \<Rightarrow> nat \<Rightarrow> db \<Rightarrow> email_message list \<times> nat" where
  "list_email_messages iid query unread_only limit offset d =
     (let found = filter (email_matches iid query unread_only) (email_messages d) in
      (page limit offset (newest_first em_received_at found), length found))"

definition get_email_message :: "uuid \<Rightarrow> db \<Rightarrow> email_message option" where
  "get_email_message mid d = find_row (\<lambda>m. em_id m = mid) (email_messages d)"

definition mark_email_message_read :: "uuid \<Rightarrow> datetime \<Rightarrow> db \<Rightarrow> email_message option \<times> db" where
  "mark_email_message_read mid now d =
     (case get_email_message mid d of
        None \<Rightarrow> (None, d)
      | Some m \<Rightarrow>
          if em_read_at m = None
          then (Some (m\<lparr>em_read_at := Some now\<rparr>),
                d\<lparr>email_messages := update_where (\<lambda>r. em_id r = mid) (\<lambda>r. r\<lparr>em_read_at := Some now\<rparr>) (email_messages d)\<rparr>)
          else (Some m, d))"

definition delete_email_message :: "uuid \<Rightarrow> db \<Rightarrow> bool \<times> db" where
  "delete_email_message mid d =
     (case get_email_message mid d of
        None \<Rightarrow> (False, d)
      | Some m \<Rightarrow> (True, d\<lparr>email_messages := snd (delete_where (\<lambda>r. em_id r = mid) (email_messages d))\<rparr>))"

definition purge_expired_email_messages :: "datetime \<Rightarrow> db \<Rightarrow> nat \<times> db" where
  "purge_expired_email_messages now d =
     (case delete_where (\<lambda>m. em_expires_at m \<le> now) (email_messages d) of
        (n, rows) \<Rightarrow> (n, d\<lparr>email_messages := rows\<rparr>))"

section \<open>Routes of the messages (api/email_inbox.py)\<close>

definition found_or_404 :: "string \<Rightarrow> 'a option \<Rightarrow> 'a result" where
  "found_or_404 code r = (case r of None \<Rightarrow> Inl (HTTPException 404 code) | Some x \<Rightarrow> Inr x)"

definition route_get_message :: "uuid \<Rightarrow> db \<Rightarrow> email_message result" where
  "route_get_message mid d = found_or_404 ''EMAIL_MESSAGE_NOT_FOUND'' (get_email_message mid d)"

definition route_mark_read :: "uuid \<Rightarrow> datetime \<Rightarrow> db \<Rightarrow> email_message result \<times> db" where
  "route_mark_read mid now d = apfst (found_or_404 ''EMAIL_MESSAGE_NOT_FOUND'') (mark_email_message_read mid now d)"

definition route_delete_message :: "uuid \<Rightarrow> string \<Rightarrow> db \<Rightarrow> unit result \<times> db" where
  "route_delete_message mid role d =
     (case require_admin role of
        Inl e \<Rightarrow> (Inl e, d)
      | Inr _ \<Rightarrow> (case delete_email_message mid d of
                   (True, d1) \<Rightarrow> (Inr (), d1)
                 | (False, d1) \<Rightarrow> (Inl (HTTPException 404 ''EMAIL_MESSAGE_NOT_FOUND''), d1)))"

section \<open>The webhook (webhooks/email.py)\<close>

record mail_world =
  mw_db :: db
  mw_redis :: "(string, string \<times> datetime) dict"  \<comment> \<open>key, value and instant of expiry\<close>

record email_form =
  ef_recipient :: string
  ef_sender :: string
  ef_subject :: string
  ef_body_plain :: string
  ef_body_html :: string
  ef_timestamp :: string
  ef_token :: string
  ef_signature :: string

definition extract_verification_code :: "string \<Rightarrow> string option" where
  "extract_verification_code body = first_code 5 8 body"

definition email_event_key :: "email_form \<Rightarrow> string" where
  "email_event_key f = take 32 (sha256_hex (''email:'' @ ef_recipient f @ '':'' @ ef_sender f @ '':'' @ ef_subject f @ '':''
     @ ef_timestamp f @ '':'' @ ef_token f))"

definition setex :: "unit result \<Rightarrow> datetime \<Rightarrow> string \<Rightarrow> int \<Rightarrow> string \<Rightarrow> mail_world \<Rightarrow> unit result \<times> mail_world" where
  \<comment> \<open>\<open>redis.setex(key, ttl, value)\<close>, with the answer of the server\<close>
  "setex reply now key ttl v w =
     (case reply of
        Inl e \<Rightarrow> (Inl e, w)
      | Inr _ \<Rightarrow> (Inr (), w\<lparr>mw_redis := dict_set key (v, now + seconds ttl) (mw_redis w)\<rparr>))"

definition hand_over_code :: "unit result \<Rightarrow> datetime \<Rightarrow> email_form \<Rightarrow> mail_world \<Rightarrow> unit result \<times> mail_world" where
  \<comment> \<open>the part after the message is stored\<close>
  "hand_over_code reply now f w =
     (case extract_verification_code (ef_body_plain f) of
        None \<Rightarrow> (Inr (), w)
      | Some code \<Rightarrow>
          if find_row (\<lambda>a. pa_email a = ef_recipient f) (platform_accounts (mw_db w)) = None then (Inr (), w)
          else setex reply now (''email_code:'' @ ef_recipient f) 600 code w)"

definition receive_email :: "settings \<Rightarrow> unit result \<Rightarrow> datetime \<Rightarrow> email_form \<Rightarrow> mail_world \<Rightarrow> bool result \<times> mail_world" where
  \<comment> \<open>the result says whether the message is a duplicate\<close>
  "receive_email s reply now f w =
     (case verify_mailgun_signature s now (ef_timestamp f) (ef_token f) (ef_signature f) of
        Inl e \<Rightarrow> (Inl e, w)
      | Inr _ \<Rightarrow>
          (case insert_event now (email_event_key f) ''email'' None (mw_db w) of
             (False, d1) \<Rightarrow> (Inr True, w\<lparr>mw_db := d1\<rparr>)
           | (True, d1) \<Rightarrow>
               (case store_inbound_message now (email_event_key f) (ef_recipient f) (ef_sender f) (ef_subject f)
                       (ef_body_plain f) (ef_body_html f) d1 of
                  (Inl e, d2) \<Rightarrow> (Inl e, w\<lparr>mw_db := d2\<rparr>)
                | (Inr _, d2) \<Rightarrow> apfst (map_sum id (\<lambda>_. False)) (hand_over_code reply now f (w\<lparr>mw_db := d2\<rparr>)))))"

section \<open>The identities keep their shape\<close>

text \<open>What the status of an identity says about its other columns, and the keys of the table.\<close>

definition identity_ok :: "email_identity \<Rightarrow> bool" where
  "identity_ok i =
     (case ei_status i of
        EI_AVAILABLE \<Rightarrow> ei_reserved_by i = None \<and> ei_reserved_at i = None \<and> ei_used_at i = None
      | EI_RESERVED \<Rightarrow> ei_reserved_by i \<noteq> None \<and> ei_reserved_at i \<noteq> None \<and> ei_used_at i = None
      | EI_USED \<Rightarrow> ei_reserved_by i \<noteq> None \<and> ei_reserved_at i \<noteq> None \<and> ei_used_at i \<noteq> None
      | EI_DISABLED \<Rightarrow> (ei_used_at i \<noteq> None \<longrightarrow> ei_reserved_by i \<noteq> None))"

definition identities_typed :: "db \<Rightarrow> bool" where
  "identities_typed d =
     (distinct (map ei_id (email_identities d)) \<and> distinct (map ei_email (email_identities d))
      \<and> (\<forall>i\<in>set (email_identities d). ei_id i < fresh_id d \<and> identity_ok i))"

datatype identity_op =
    GenerateIdentities "nat \<Rightarrow> nat \<times> nat \<times> nat" datetime nat
  | CommandIdentity uuid string string datetime

fun run_identity_op :: "settings \<Rightarrow> identity_op \<Rightarrow> db \<Rightarrow> db" where
  "run_identity_op s (GenerateIdentities pick now count) d = snd (generate_batch s pick now count d)"
| "run_identity_op s (CommandIdentity iid action actor now) d = snd (command_identity iid action actor now d)"

definition fresh_rows :: "db \<Rightarrow> bool" where
  "fresh_rows d = (distinct (map ei_id (email_identities d)) \<and> (\<forall>i\<in>set (email_identities d). ei_id i < fresh_id d \<and> identity_ok i))"

lemma add_identity_fresh: "fresh_rows d \<Longrightarrow> fresh_rows (add_identity now g d)"
  by (auto simp: fresh_rows_def add_identity_def identity_ok_def less_Suc_eq)

lemma add_identities_fresh: "fresh_rows d \<Longrightarrow> fresh_rows (fold (\<lambda>i. add_identity now (g i)) is d)"
  by (induction "is" arbitrary: d) (auto intro: add_identity_fresh)

lemma generate_typed:
  assumes "identities_typed d"
  shows "identities_typed (snd (generate_batch s pick now count d))"
proof -
  let ?d1 = "fold (\<lambda>i. add_identity now (build_identity (pick i) (lower (strip (operational_domain s))))) [0..<count] d"
  have "fresh_rows d" using assms by (simp add: identities_typed_def fresh_rows_def)
  then have "fresh_rows ?d1" by (rule add_identities_fresh)
  then have "distinct (map ei_email (email_identities ?d1)) \<Longrightarrow> identities_typed ?d1"
    by (simp add: identities_typed_def fresh_rows_def)
  with assms show ?thesis by (simp add: generate_batch_def session_def Let_def)
qed

lemma identity_after_ok:
  assumes "identity_after action actor now i = Inr i'" "identity_ok i"
  shows "identity_ok i' \<and> ei_id i' = ei_id i \<and> ei_email i' = ei_email i"
  using assms by (auto simp: identity_after_def identity_ok_def split: if_splits email_identity_status.splits)

lemma command_identity_cases:
  obtains e where "command_identity iid action actor now d = (Inl e, d)"
  | i i' where "i \<in> set (email_identities d)" "ei_id i = iid" "identity_after action actor now i = Inr i'"
      "command_identity iid action actor now d
         = (Inr i', d\<lparr>email_identities := update_where (\<lambda>r. ei_id r = iid) (\<lambda>_. i') (email_identities d)\<rparr>)"
proof (cases "find_row (\<lambda>i. ei_id i = iid) (email_identities d)")
  case None
  then show ?thesis using that(1) by (simp add: command_identity_def session_def)
next
  case (Some i)
  then have i: "i \<in> set (email_identities d)" "ei_id i = iid" by (auto dest: find_row_SomeD)
  show ?thesis
  proof (cases "identity_after action actor now i")
    case (Inl e)
    with Some show ?thesis using that(1) by (simp add: command_identity_def session_def)
  next
    case (Inr i')
    with Some i show ?thesis using that(2) by (simp add: command_identity_def session_def)
  qed
qed

lemma update_by_id:
  assumes "distinct (map key t)" "i \<in> set t" "key i = k" "\<And>r. r \<in> set t \<Longrightarrow> key r = k \<Longrightarrow> col i' = col i"
  shows "map col (update_where (\<lambda>r. key r = k) (\<lambda>_. i') t) = map col t"
proof -
  have "r = i" if "r \<in> set t" "key r = k" for r
    using assms(1-3) that by (metis distinct_map inj_onD)
  with assms(2,3,4) show ?thesis by (auto simp: update_where_def)
qed

lemma command_typed:
  assumes "identities_typed d"
  shows "identities_typed (snd (command_identity iid action actor now d))"
proof (rule command_identity_cases [of iid action actor now d])
  fix e assume "command_identity iid action actor now d = (Inl e, d)"
  with assms show ?thesis by simp
next
  fix i i'
  assume i: "i \<in> set (email_identities d)" "ei_id i = iid" "identity_after action actor now i = Inr i'"
    and run: "command_identity iid action actor now d
         = (Inr i', d\<lparr>email_identities := update_where (\<lambda>r. ei_id r = iid) (\<lambda>_. i') (email_identities d)\<rparr>)"
  have ok: "identity_ok i' \<and> ei_id i' = ei_id i \<and> ei_email i' = ei_email i"
    using identity_after_ok [OF i(3)] assms i(1) by (simp add: identities_typed_def)
  let ?t = "update_where (\<lambda>r. ei_id r = iid) (\<lambda>_. i') (email_identities d)"
  have "map ei_id ?t = map ei_id (email_identities d)" "map ei_email ?t = map ei_email (email_identities d)"
    using assms i ok by (auto intro!: update_by_id simp: identities_typed_def)
  moreover have "\<forall>r\<in>set ?t. ei_id r < fresh_id d \<and> identity_ok r"
    using assms i ok by (auto simp: set_update_where identities_typed_def)
  ultimately show ?thesis using assms by (simp add: run identities_typed_def)
qed

text \<open>
  C34. Identities are well-typed in every reachable state. In the states that batches and commands reach,
  in any order, from a well-typed table, addresses and ids are unique, an available identity has no
  holder, and a reserved or used one has a holder with the instant of the reservation; and a command
  that succeeds on an identity moves it from available to reserved, from reserved to available or used,
  or to disabled, and leaves every other identity as it is.
\<close>

theorem email_identities_typed:
  assumes "identities_typed d"
  shows "identities_typed (fold (run_identity_op s) ops d)
    \<and> (\<forall>i'. fst (command_identity iid action actor now d) = Inr i' \<longrightarrow>
        (\<exists>i\<in>set (email_identities d). ei_id i = iid
           \<and> ((ei_status i, ei_status i') \<in> {(EI_AVAILABLE, EI_RESERVED), (EI_RESERVED, EI_AVAILABLE), (EI_RESERVED, EI_USED)}
              \<or> ei_status i' = EI_DISABLED \<or> i' = i))
        \<and> (\<forall>r\<in>set (email_identities d). ei_id r \<noteq> iid \<longrightarrow> r \<in> set (email_identities (snd (command_identity iid action actor now d)))))"
proof
  show "identities_typed (fold (run_identity_op s) ops d)"
    using assms
  proof (induction ops arbitrary: d)
    case (Cons op ops)
    from Cons.prems have "identities_typed (run_identity_op s op d)"
      by (cases op) (simp_all add: generate_typed command_typed)
    with Cons.IH show ?case by simp
  qed simp
  show "\<forall>i'. fst (command_identity iid action actor now d) = Inr i' \<longrightarrow>
        (\<exists>i\<in>set (email_identities d). ei_id i = iid
           \<and> ((ei_status i, ei_status i') \<in> {(EI_AVAILABLE, EI_RESERVED), (EI_RESERVED, EI_AVAILABLE), (EI_RESERVED, EI_USED)}
              \<or> ei_status i' = EI_DISABLED \<or> i' = i))
        \<and> (\<forall>r\<in>set (email_identities d). ei_id r \<noteq> iid \<longrightarrow> r \<in> set (email_identities (snd (command_identity iid action actor now d))))"
  proof (rule command_identity_cases [of iid action actor now d])
    fix i i'
    assume i: "i \<in> set (email_identities d)" "ei_id i = iid" "identity_after action actor now i = Inr i'"
      and run: "command_identity iid action actor now d
         = (Inr i', d\<lparr>email_identities := update_where (\<lambda>r. ei_id r = iid) (\<lambda>_. i') (email_identities d)\<rparr>)"
    have "(ei_status i, ei_status i') \<in> {(EI_AVAILABLE, EI_RESERVED), (EI_RESERVED, EI_AVAILABLE), (EI_RESERVED, EI_USED)}
              \<or> ei_status i' = EI_DISABLED \<or> i' = i"
      using i(3) by (cases "ei_status i") (auto simp: identity_after_def split: if_splits)
    with i show ?thesis by (auto simp: run set_update_where image_iff)
  qed auto
qed

lemma email_identities_typed_witness:
  "\<exists>i'. fst (command_identity 0 ''reserve'' ''ops'' 5 (snd (generate_batch (default_settings\<lparr>operational_domain := ''x.fr''\<rparr>) (\<lambda>i. (i, i, i)) 1 2 empty_db)))
      = Inr i' \<and> ei_status i' = EI_RESERVED
    \<and> identities_typed (fold (run_identity_op default_settings) [CommandIdentity 0 ''reserve'' ''ops'' 5]
        (snd (generate_batch (default_settings\<lparr>operational_domain := ''x.fr''\<rparr>) (\<lambda>i. (i, i, i)) 1 2 empty_db)))"
proof -
  let ?d = "snd (generate_batch (default_settings\<lparr>operational_domain := ''x.fr''\<rparr>) (\<lambda>i. (i, i, i)) 1 2 empty_db)"
  have "identities_typed empty_db" by (simp add: identities_typed_def empty_db_def)
  then have t: "identities_typed ?d" by (rule generate_typed)
  have "case fst (command_identity 0 ''reserve'' ''ops'' 5 ?d) of Inl e \<Rightarrow> False | Inr i' \<Rightarrow> ei_status i' = EI_RESERVED"
    by code_simp
  then have "\<exists>i'. fst (command_identity 0 ''reserve'' ''ops'' 5 ?d) = Inr i' \<and> ei_status i' = EI_RESERVED"
    by (auto split: sum.splits)
  with email_identities_typed [OF t, of default_settings "[CommandIdentity 0 ''reserve'' ''ops'' 5]" 0 "''reserve''" "''ops''" 5]
  show ?thesis by blast
qed

section \<open>The verification codes\<close>

lemma hand_over_redis:
  assumes "hand_over_code reply now f w = (r, w')"
  shows "mw_db w' = mw_db w \<and> (mw_redis w' = mw_redis w
    \<or> (\<exists>code. extract_verification_code (ef_body_plain f) = Some code
         \<and> (\<exists>a\<in>set (platform_accounts (mw_db w)). pa_email a = ef_recipient f) \<and> reply = Inr ()
         \<and> mw_redis w' = dict_set (''email_code:'' @ ef_recipient f) (code, now + seconds 600) (mw_redis w)))"
proof (cases "extract_verification_code (ef_body_plain f)")
  case (Some code)
  show ?thesis
  proof (cases "find_row (\<lambda>a. pa_email a = ef_recipient f) (platform_accounts (mw_db w))")
    case None
    with Some assms show ?thesis by (auto simp: hand_over_code_def)
  next
    case (Some a)
    with \<open>extract_verification_code (ef_body_plain f) = Some code\<close> assms show ?thesis
      by (auto simp: hand_over_code_def setex_def split: sum.splits dest!: find_row_SomeD)
  qed
qed (use assms in \<open>auto simp: hand_over_code_def\<close>)

lemma store_inbound_accounts [simp]:
  "platform_accounts (snd (store_inbound_message now k r s su bp bh d)) = platform_accounts d"
  "webhook_events (snd (store_inbound_message now k r s su bp bh d)) = webhook_events d"
  by (auto simp: store_inbound_message_def session_def Let_def split: option.splits)

lemma insert_event_accounts [simp]: "platform_accounts (snd (insert_event now k src p d)) = platform_accounts d"
  by (simp add: insert_event_def split: prod.splits)

lemma receive_email_cases:
  obtains e where "verify_mailgun_signature s now (ef_timestamp f) (ef_token f) (ef_signature f) = Inl e"
      "receive_email s reply now f w = (Inl e, w)"
  | "verify_mailgun_signature s now (ef_timestamp f) (ef_token f) (ef_signature f) = Inr ()"
      "email_event_key f \<in> we_event_key ` set (webhook_events (mw_db w))" "receive_email s reply now f w = (Inr True, w)"
  | e d1 where "verify_mailgun_signature s now (ef_timestamp f) (ef_token f) (ef_signature f) = Inr ()"
      "email_event_key f \<notin> we_event_key ` set (webhook_events (mw_db w))"
      "email_event_key f \<in> we_event_key ` set (webhook_events d1)"
      "receive_email s reply now f w = (Inl e, w\<lparr>mw_db := d1\<rparr>)"
  | d1 r w' where "verify_mailgun_signature s now (ef_timestamp f) (ef_token f) (ef_signature f) = Inr ()"
      "email_event_key f \<notin> we_event_key ` set (webhook_events (mw_db w))"
      "email_event_key f \<in> we_event_key ` set (webhook_events d1)" "platform_accounts d1 = platform_accounts (mw_db w)"
      "hand_over_code reply now f (w\<lparr>mw_db := d1\<rparr>) = (r, w')"
      "receive_email s reply now f w = (map_sum id (\<lambda>_. False) r, w')"
proof (cases "verify_mailgun_signature s now (ef_timestamp f) (ef_token f) (ef_signature f)")
  case (Inl e)
  then show ?thesis using that(1) by (simp add: receive_email_def)
next
  case (Inr u)
  then have v: "verify_mailgun_signature s now (ef_timestamp f) (ef_token f) (ef_signature f) = Inr ()" by simp
  let ?k = "email_event_key f"
  show ?thesis
  proof (cases "?k \<in> we_event_key ` set (webhook_events (mw_db w))")
    case True
    then have "insert_event now ?k ''email'' None (mw_db w) = (False, mw_db w)"
      by (simp add: insert_event_def insert_new_def new_event_def)
    with True v show ?thesis using that(2) by (simp add: receive_email_def)
  next
    case False
    obtain d1 where i: "insert_event now ?k ''email'' None (mw_db w) = (True, d1)"
      "?k \<in> we_event_key ` set (webhook_events d1)" "platform_accounts d1 = platform_accounts (mw_db w)"
      using False by (auto simp: insert_event_def insert_new_def new_event_def)
    obtain q d2 where st: "store_inbound_message now ?k (ef_recipient f) (ef_sender f) (ef_subject f)
        (ef_body_plain f) (ef_body_html f) d1 = (q, d2)" by fastforce
    then have d2: "webhook_events d2 = webhook_events d1" "platform_accounts d2 = platform_accounts d1"
      using store_inbound_accounts [of now ?k "ef_recipient f" "ef_sender f" "ef_subject f" "ef_body_plain f" "ef_body_html f" d1]
      by simp_all
    show ?thesis
    proof (cases q)
      case (Inl e)
      with v i st False d2 show ?thesis using that(3) [of d2 e] by (simp add: receive_email_def)
    next
      case (Inr x)
      obtain r w' where h: "hand_over_code reply now f (w\<lparr>mw_db := d2\<rparr>) = (r, w')" by fastforce
      with v i st False d2 Inr show ?thesis using that(4) [of d2 r w'] by (simp add: receive_email_def)
    qed
  qed
qed

definition mail_keys :: "mail_world \<Rightarrow> string set" where
  "mail_keys w = we_event_key ` set (webhook_events (mw_db w))"

lemma receive_email_keys: "mail_keys w \<subseteq> mail_keys (snd (receive_email s reply now f w))"
proof -
  have ins: "we_event_key ` set (webhook_events d) \<subseteq> we_event_key ` set (webhook_events (snd (insert_event now k src p d)))" for k src p d
    by (auto simp: insert_event_def insert_new_def split: prod.splits)
  show ?thesis
  proof (cases "verify_mailgun_signature s now (ef_timestamp f) (ef_token f) (ef_signature f)")
    case (Inr u)
    obtain fresh d1 where i: "insert_event now (email_event_key f) ''email'' None (mw_db w) = (fresh, d1)" by fastforce
    have d1: "mail_keys w \<subseteq> we_event_key ` set (webhook_events d1)"
      using ins [of "mw_db w" "email_event_key f" "''email''" None] i by (simp add: mail_keys_def)
    obtain q d2 where st: "store_inbound_message now (email_event_key f) (ef_recipient f) (ef_sender f) (ef_subject f)
        (ef_body_plain f) (ef_body_html f) d1 = (q, d2)" by fastforce
    have d2: "webhook_events d2 = webhook_events d1"
      using store_inbound_accounts(2) [of now "email_event_key f" "ef_recipient f" "ef_sender f" "ef_subject f" "ef_body_plain f"
          "ef_body_html f" d1] by (simp add: st)
    obtain r w' where h: "hand_over_code reply now f (w\<lparr>mw_db := d2\<rparr>) = (r, w')" by fastforce
    have "mw_db w' = d2" using hand_over_redis [OF h] by simp
    with Inr i d1 d2 st h show ?thesis
      by (cases fresh; cases q) (simp_all add: receive_email_def mail_keys_def)
  qed (simp add: receive_email_def)
qed

datatype mail_step = Delivery "unit result" datetime email_form | Meanwhile "mail_world \<Rightarrow> mail_world"

fun mail_run :: "settings \<Rightarrow> mail_step list \<Rightarrow> mail_world \<Rightarrow> mail_world" where
  \<comment> \<open>deliveries, and what the rest of the application does between them\<close>
  "mail_run s [] w = w"
| "mail_run s (Delivery reply now f # steps) w = mail_run s steps (snd (receive_email s reply now f w))"
| "mail_run s (Meanwhile g # steps) w = mail_run s steps (g w)"

definition mail_keeps_events :: "mail_step \<Rightarrow> bool" where
  \<comment> \<open>no code of the application deletes a webhook event\<close>
  "mail_keeps_events st \<longleftrightarrow> (case st of Meanwhile g \<Rightarrow> \<forall>w. mail_keys w \<subseteq> mail_keys (g w) | _ \<Rightarrow> True)"

lemma mail_run_keys: "\<forall>st\<in>set steps. mail_keeps_events st \<Longrightarrow> k \<in> mail_keys w \<Longrightarrow> k \<in> mail_keys (mail_run s steps w)"
proof (induction s steps w rule: mail_run.induct)
  case (2 s reply now f steps w)
  then show ?case using receive_email_keys [of w s reply now f] by auto
next
  case (3 s g steps w)
  then show ?case by (auto simp: mail_keeps_events_def)
qed simp

lemma repeated_email:
  assumes "email_event_key f \<in> mail_keys w"
  shows "snd (receive_email s reply now f w) = w"
proof (rule receive_email_cases [of s now f reply w])
  fix e d1 assume "email_event_key f \<notin> we_event_key ` set (webhook_events (mw_db w))"
  with assms show ?thesis by (simp add: mail_keys_def)
next
  fix d1 r w' assume "email_event_key f \<notin> we_event_key ` set (webhook_events (mw_db w))"
  with assms show ?thesis by (simp add: mail_keys_def)
qed simp_all

text \<open>
  C18. Only signed messages hand over codes, and each only once. A delivery changes the store of codes only by
  setting, for ten minutes, the code of its own recipient, which is the address of an account; the delivery
  is fresh and carries a valid signature no older than a quarter of an hour; and the code is the first number
  of five to eight digits that stands alone in its text. Once it has, a delivery with the same recipient, sender, subject,
  timestamp and token, whatever its text, and whatever deliveries and other work come between them, changes
  neither the database nor the store of codes.
\<close>

theorem email_codes_are_signed:
  assumes "receive_email s reply now f w = (r, w')" "mw_redis w' \<noteq> mw_redis w"
    and "\<forall>st\<in>set steps. mail_keeps_events st" and "email_event_key f' = email_event_key f"
  shows "(\<exists>code pre post. mw_redis w' = dict_set (''email_code:'' @ ef_recipient f) (code, now + seconds 600) (mw_redis w)
    \<and> (\<exists>a\<in>set (platform_accounts (mw_db w)). pa_email a = ef_recipient f)
    \<and> ef_body_plain f = pre @ code @ post \<and> code_match 5 8 pre code post
    \<and> (\<forall>pre' m post'. ef_body_plain f = pre' @ m @ post' \<and> code_match 5 8 pre' m post' \<longrightarrow> length pre \<le> length pre')
    \<and> email_event_key f \<notin> we_event_key ` set (webhook_events (mw_db w))
    \<and> ef_signature f = hmac_hex (mailgun_webhook_signing_key s) (ef_timestamp f @ ef_token f)
    \<and> (\<exists>t. py_int (ef_timestamp f) = Inr t \<and> \<bar>now - seconds t\<bar> \<le> seconds 900))
    \<and> email_event_key f \<in> we_event_key ` set (webhook_events (mw_db w'))
    \<and> snd (receive_email s reply' now' f' (mail_run s steps w')) = mail_run s steps w'"
proof -
  have "email_event_key f \<in> mail_keys w' \<Longrightarrow> ?thesis" if "\<exists>code pre post. mw_redis w' = dict_set (''email_code:'' @ ef_recipient f) (code, now + seconds 600) (mw_redis w)
    \<and> (\<exists>a\<in>set (platform_accounts (mw_db w)). pa_email a = ef_recipient f)
    \<and> ef_body_plain f = pre @ code @ post \<and> code_match 5 8 pre code post
    \<and> (\<forall>pre' m post'. ef_body_plain f = pre' @ m @ post' \<and> code_match 5 8 pre' m post' \<longrightarrow> length pre \<le> length pre')
    \<and> email_event_key f \<notin> we_event_key ` set (webhook_events (mw_db w))
    \<and> ef_signature f = hmac_hex (mailgun_webhook_signing_key s) (ef_timestamp f @ ef_token f)
    \<and> (\<exists>t. py_int (ef_timestamp f) = Inr t \<and> \<bar>now - seconds t\<bar> \<le> seconds 900)"
  proof -
    assume k: "email_event_key f \<in> mail_keys w'"
    then have "email_event_key f' \<in> mail_keys (mail_run s steps w')" using mail_run_keys [OF assms(3) k] assms(4) by simp
    from repeated_email [OF this] that k show ?thesis by (simp add: mail_keys_def)
  qed
  note finish = this
  show ?thesis
  proof (rule receive_email_cases [of s now f reply w])
    fix e assume "receive_email s reply now f w = (Inl e, w)"
    with assms(1,2) show ?thesis by simp
  next
    assume "receive_email s reply now f w = (Inr True, w)"
    with assms(1,2) show ?thesis by simp
  next
    fix e d1 assume "receive_email s reply now f w = (Inl e, w\<lparr>mw_db := d1\<rparr>)"
    with assms(1,2) show ?thesis by auto
  next
    fix d1 q w1
    assume v: "verify_mailgun_signature s now (ef_timestamp f) (ef_token f) (ef_signature f) = Inr ()"
      and new: "email_event_key f \<notin> we_event_key ` set (webhook_events (mw_db w))"
      and stored: "email_event_key f \<in> we_event_key ` set (webhook_events d1)"
      and acc: "platform_accounts d1 = platform_accounts (mw_db w)"
      and h: "hand_over_code reply now f (w\<lparr>mw_db := d1\<rparr>) = (q, w1)"
      and run: "receive_email s reply now f w = (map_sum id (\<lambda>_. False) q, w1)"
    have w1: "w1 = w'" using run assms(1) by simp
    from hand_over_redis [OF h] assms(2) w1 obtain code where
      code: "first_code 5 8 (ef_body_plain f) = Some code"
      and set: "\<exists>a\<in>set (platform_accounts (mw_db w)). pa_email a = ef_recipient f"
        "mw_redis w' = dict_set (''email_code:'' @ ef_recipient f) (code, now + seconds 600) (mw_redis w)"
      and db: "mw_db w' = d1"
      by (auto simp: extract_verification_code_def acc)
    have "\<exists>pre post. ef_body_plain f = pre @ code @ post \<and> code_match 5 8 pre code post
      \<and> (\<forall>pre' m post'. ef_body_plain f = pre' @ m @ post' \<and> code_match 5 8 pre' m post' \<longrightarrow> length pre \<le> length pre')"
      using code by (intro first_code_spec) simp_all
    with set new v show ?thesis
      by (intro finish) (auto simp: verify_mailgun_ok mail_keys_def db stored)
  qed
qed

text \<open>Demonstration data: a signed message for an account in creation.\<close>

definition demo_mail_settings :: settings where
  "demo_mail_settings = default_settings\<lparr>mailgun_webhook_signing_key := ''key''\<rparr>"

definition demo_mail :: email_form where
  "demo_mail = \<lparr>ef_recipient = ''a@b.fr'', ef_sender = ''lbc'', ef_subject = [], ef_body_plain = ''Code : 123456.'', ef_body_html = [],
     ef_timestamp = ''100'', ef_token = ''t'', ef_signature = hmac_hex ''key'' ''100t''\<rparr>"

definition demo_mail_world :: mail_world where
  "demo_mail_world = \<lparr>mw_db = empty_db\<lparr>platform_accounts :=
       [\<lparr>pa_id = 9, pa_email = ''a@b.fr'', pa_phone_otp = None, pa_status = EN_CREATION, pa_datadome_trust_level = TRUST_LOW,
         pa_datadome_cookie = None, pa_datadome_cookie_updated_at = None, pa_session_path = None,
         pa_browser_use_profile_id = None, pa_browser_use_session_id = None, pa_deleted_at = None, pa_score_sante = 80,
         pa_quota_actuel = 10, pa_erreurs_24h = 0, pa_date_creation = 0, pa_derniere_action = None\<rparr>]\<rparr>, mw_redis = []\<rparr>"

lemma demo_mail_fields:
  "ef_recipient demo_mail = ''a@b.fr''" "ef_body_plain demo_mail = ''Code : 123456.''" "ef_timestamp demo_mail = ''100''"
  "ef_token demo_mail = ''t''" "ef_signature demo_mail = hmac_hex ''key'' ''100t''" "mw_redis demo_mail_world = []"
  "mailgun_webhook_signing_key demo_mail_settings = ''key''"
  by (simp_all add: demo_mail_def demo_mail_world_def demo_mail_settings_def default_settings_def)

lemma demo_mail_verified:
  "verify_mailgun_signature demo_mail_settings (seconds 100) (ef_timestamp demo_mail) (ef_token demo_mail) (ef_signature demo_mail) = Inr ()"
proof -
  have "py_int ''100'' = Inr 100" by code_simp
  then show ?thesis unfolding verify_mailgun_ok by (simp add: demo_mail_fields duration_defs)
qed

lemma demo_mail_code: "extract_verification_code (ef_body_plain demo_mail) = Some ''123456''"
  unfolding demo_mail_fields by code_simp

lemma demo_mail_event:
  "\<exists>d1. insert_event now k ''email'' None (mw_db demo_mail_world) = (True, d1) \<and> k \<in> we_event_key ` set (webhook_events d1)
     \<and> platform_accounts d1 = platform_accounts (mw_db demo_mail_world) \<and> email_identities d1 = []"
  by (simp add: insert_event_def insert_new_def new_event_def demo_mail_world_def empty_db_def)

lemma demo_mail_run:
  "\<exists>d1. email_event_key demo_mail \<in> we_event_key ` set (webhook_events d1)
    \<and> receive_email demo_mail_settings reply (seconds 100) demo_mail demo_mail_world
       = (case reply of Inl e \<Rightarrow> (Inl e, demo_mail_world\<lparr>mw_db := d1\<rparr>)
          | Inr _ \<Rightarrow> (Inr False, \<lparr>mw_db = d1, mw_redis = [(''email_code:a@b.fr'', (''123456'', seconds 700))]\<rparr>))"
proof -
  let ?k = "email_event_key demo_mail"
  obtain d1 where d1: "insert_event (seconds 100) ?k ''email'' None (mw_db demo_mail_world) = (True, d1)"
    "?k \<in> we_event_key ` set (webhook_events d1)" "platform_accounts d1 = platform_accounts (mw_db demo_mail_world)"
    "email_identities d1 = []" using demo_mail_event by blast
  have st: "store_inbound_message (seconds 100) ?k r se su bp bh d1 = (Inr False, d1)" for r se su bp bh
    by (simp add: store_inbound_message_def session_def Let_def d1(4))
  have "find_row (\<lambda>a. pa_email a = ef_recipient demo_mail) (platform_accounts d1) \<noteq> None"
    by (simp add: d1(3) demo_mail_def demo_mail_world_def)
  then have h: "hand_over_code reply (seconds 100) demo_mail (demo_mail_world\<lparr>mw_db := d1\<rparr>)
      = setex reply (seconds 100) (''email_code:'' @ ef_recipient demo_mail) 600 ''123456'' (demo_mail_world\<lparr>mw_db := d1\<rparr>)"
    by (auto simp: hand_over_code_def demo_mail_code)
  have "receive_email demo_mail_settings reply (seconds 100) demo_mail demo_mail_world
     = apfst (map_sum id (\<lambda>_. False))
         (setex reply (seconds 100) (''email_code:'' @ ef_recipient demo_mail) 600 ''123456'' (demo_mail_world\<lparr>mw_db := d1\<rparr>))"
    unfolding receive_email_def demo_mail_verified sum.case d1(1) prod.case bool.case st h ..
  moreover have "ef_recipient demo_mail = ''a@b.fr''" "mw_redis demo_mail_world = []"
    by (simp_all add: demo_mail_def demo_mail_world_def)
  ultimately show ?thesis using d1(2)
    by (intro exI [of _ d1]) (auto simp: setex_def dict_set_def duration_defs split: sum.splits)
qed

lemma email_codes_are_signed_witness:
  "\<exists>code w1. mw_redis (snd (receive_email demo_mail_settings (Inr ()) (seconds 100) demo_mail demo_mail_world))
        = dict_set ''email_code:a@b.fr'' (code, seconds 700) [] \<and> contains code ''Code : 123456.''
     \<and> w1 = mail_run demo_mail_settings [Meanwhile (\<lambda>w. w\<lparr>mw_redis := []\<rparr>)]
               (snd (receive_email demo_mail_settings (Inr ()) (seconds 100) demo_mail demo_mail_world))
     \<and> snd (receive_email demo_mail_settings (Inr ()) (seconds 160) demo_mail w1) = w1"
proof -
  let ?run = "receive_email demo_mail_settings (Inr ()) (seconds 100) demo_mail demo_mail_world"
  have "mw_redis (snd ?run) \<noteq> mw_redis demo_mail_world" "?run = (fst ?run, snd ?run)"
    using demo_mail_run [of "Inr ()"] by (auto simp: demo_mail_fields)
  moreover have "\<forall>st\<in>set [Meanwhile (\<lambda>w. w\<lparr>mw_redis := []\<rparr>)]. mail_keeps_events st" by (simp add: mail_keeps_events_def mail_keys_def)
  ultimately have *: "(\<exists>code pre post. mw_redis (snd ?run) = dict_set (''email_code:'' @ ''a@b.fr'') (code, seconds 100 + seconds 600) []
      \<and> ''Code : 123456.'' = pre @ code @ post)
      \<and> snd (receive_email demo_mail_settings (Inr ()) (seconds 160) demo_mail
            (mail_run demo_mail_settings [Meanwhile (\<lambda>w. w\<lparr>mw_redis := []\<rparr>)] (snd ?run)))
        = mail_run demo_mail_settings [Meanwhile (\<lambda>w. w\<lparr>mw_redis := []\<rparr>)] (snd ?run)"
    using email_codes_are_signed [of demo_mail_settings "Inr ()" "seconds 100" demo_mail demo_mail_world "fst ?run" "snd ?run"
        "[Meanwhile (\<lambda>w. w\<lparr>mw_redis := []\<rparr>)]" demo_mail "Inr ()" "seconds 160"]
    unfolding demo_mail_fields by blast
  then obtain code pre post where c: "mw_redis (snd ?run) = dict_set (''email_code:'' @ ''a@b.fr'') (code, seconds 100 + seconds 600) []"
    "''Code : 123456.'' = pre @ code @ post" by blast
  have "contains code ''Code : 123456.''" using c(2) unfolding contains_iff_sublist sublist_def by blast
  moreover have "seconds 100 + seconds 600 = seconds 700" by (simp add: duration_defs)
  moreover have "''email_code:'' @ ''a@b.fr'' = ''email_code:a@b.fr''" by simp
  ultimately show ?thesis using c(1) conjunct2 [OF *] by metis
qed

text \<open>
  A code that Redis refuses is lost. When the hand-over raises, the event is already committed, so
  that the delivery that Mailgun repeats is answered as a duplicate and changes nothing: the account
  creation never gets its code.
\<close>

theorem refused_code_is_lost:
  assumes "receive_email s (Inl e) now f w = (Inl e, w1)" "w1 \<noteq> w"
    and "verify_mailgun_signature s later (ef_timestamp f) (ef_token f) (ef_signature f) = Inr ()"
  shows "mw_redis w1 = mw_redis w \<and> receive_email s reply later f w1 = (Inr True, w1)"
proof -
  have *: "mw_redis w1 = mw_redis w \<and> email_event_key f \<in> we_event_key ` set (webhook_events (mw_db w1))"
  proof (rule receive_email_cases [of s now f "Inl e" w])
    fix e' assume "receive_email s (Inl e) now f w = (Inl e', w)"
    with assms show ?thesis by simp
  next
    assume "receive_email s (Inl e) now f w = (Inr True, w)"
    with assms show ?thesis by simp
  next
    fix e' d1 assume "email_event_key f \<in> we_event_key ` set (webhook_events d1)"
      "receive_email s (Inl e) now f w = (Inl e', w\<lparr>mw_db := d1\<rparr>)"
    with assms show ?thesis by auto
  next
    fix d1 r w' assume k: "email_event_key f \<in> we_event_key ` set (webhook_events d1)"
      "hand_over_code (Inl e) now f (w\<lparr>mw_db := d1\<rparr>) = (r, w')"
      "receive_email s (Inl e) now f w = (map_sum id (\<lambda>_. False) r, w')"
    then have "w' = w1" using assms(1) by simp
    with hand_over_redis [OF k(2)] k(1) show ?thesis by auto
  qed
  then have "insert_event later (email_event_key f) ''email'' None (mw_db w1) = (False, mw_db w1)"
    by (simp add: insert_event_def insert_new_def new_event_def)
  with * assms(3) show ?thesis by (simp add: receive_email_def)
qed

lemma refused_code_is_lost_witness:
  "\<exists>w1. receive_email demo_mail_settings (Inl (External ''ConnectionError'' [])) (seconds 100) demo_mail demo_mail_world
      = (Inl (External ''ConnectionError'' []), w1)
    \<and> receive_email demo_mail_settings (Inr ()) (seconds 100) demo_mail w1 = (Inr True, w1) \<and> mw_redis w1 = []"
proof -
  let ?e = "External ''ConnectionError'' []"
  obtain d1 where k: "email_event_key demo_mail \<in> we_event_key ` set (webhook_events d1)"
    and run: "receive_email demo_mail_settings (Inl ?e) (seconds 100) demo_mail demo_mail_world
       = (Inl ?e, demo_mail_world\<lparr>mw_db := d1\<rparr>)"
    using demo_mail_run [of "Inl ?e"] by auto
  from k have "demo_mail_world\<lparr>mw_db := d1\<rparr> \<noteq> demo_mail_world" by (auto simp: demo_mail_world_def empty_db_def)
  from refused_code_is_lost [OF run this demo_mail_verified, of "Inr ()"] run show ?thesis
    by (auto simp: demo_mail_world_def)
qed

end
