(* ===== verification/Boundaries.thy ===== *)
theory Boundaries
  imports Commands Patterns Config
begin

text \<open>
  The calls to outside services of \<open>app/boundaries.py\<close>: SMSTools (sending with retries, the SIM list),
  iproxy.online, and SMSApp (buying a number with a list of countries, polling for its code, the state
  and cancellation of an order). The HTTP exchanges are parameters: what the service answers to the
  nth request; so is \<open>datetime.fromisoformat\<close>. The Apify and Anthropic clients are not modelled.
\<close>

section \<open>HTTP\<close>

datatype http_reply =
    Reply nat "json option"  \<comment> \<open>the status code, and the body when it is JSON\<close>
  | HttpTimeout
  | HttpNetworkError
  | HttpError exn

definition transport_error :: "http_reply \<Rightarrow> exn option" where
  \<comment> \<open>the exception of a request that got no reply\<close>
  "transport_error r =
     (case r of
        Reply _ _ \<Rightarrow> None
      | HttpTimeout \<Rightarrow> Some (External ''TimeoutException'' [])
      | HttpNetworkError \<Rightarrow> Some (External ''NetworkError'' [])
      | HttpError e \<Rightarrow> Some e)"

definition successful :: "nat \<Rightarrow> bool" where
  "successful code = (200 \<le> code \<and> code < 300)"

definition response_json :: "http_reply \<Rightarrow> json result" where
  \<comment> \<open>\<open>resp.raise_for_status()\<close>, then \<open>resp.json()\<close>\<close>
  "response_json r =
     (case r of
        Reply code body \<Rightarrow>
          if \<not> successful code then Inl (External ''HTTPStatusError'' (str_nat code))
          else (case body of None \<Rightarrow> Inl (ValueError ''Expecting value'') | Some j \<Rightarrow> Inr j)
      | _ \<Rightarrow> (case transport_error r of Some e \<Rightarrow> Inl e | None \<Rightarrow> Inl AttributeError))"

definition json_item :: "json \<Rightarrow> string \<Rightarrow> json result" where
  \<comment> \<open>\<open>data[k]\<close> for a text \<open>k\<close>\<close>
  "json_item j k =
     (case j of
        JObj kv \<Rightarrow> (case dict_get kv k of None \<Rightarrow> Inl (KeyError k) | Some v \<Rightarrow> Inr v)
      | _ \<Rightarrow> Inl (TypeError ''indices must be integers or slices, not str''))"

definition json_get :: "json \<Rightarrow> string \<Rightarrow> json result" where
  \<comment> \<open>\<open>data.get(k)\<close>\<close>
  "json_get j k = (case j of JObj kv \<Rightarrow> Inr (get_json kv k) | _ \<Rightarrow> Inl AttributeError)"

definition bind :: "'a result \<Rightarrow> ('a \<Rightarrow> 'b result) \<Rightarrow> 'b result" where
  "bind r f = (case r of Inl e \<Rightarrow> Inl e | Inr x \<Rightarrow> f x)"

lemma bind_simps [simp]: "bind (Inl e) f = Inl e" "bind (Inr x) f = f x"
  by (simp_all add: bind_def)

lemma bind_Inr: "bind r f = Inr y \<longleftrightarrow> (\<exists>x. r = Inr x \<and> f x = Inr y)"
  by (cases r) auto

section \<open>SMSTools\<close>

record sent_sms =
  st_id :: string
  st_status :: sms_status
  st_cost :: rat
  st_sim :: string
  st_to :: string

fun cost_number :: "(json \<Rightarrow> rat option) \<Rightarrow> json \<Rightarrow> rat option" where
  \<comment> \<open>a \<open>float\<close> field of a pydantic model; the argument is its reading of the other JSON values\<close>
  "cost_number other (JInt i) = Some (of_int i)"
| "cost_number other (JFloat q) = Some q"
| "cost_number other j = other j"

definition sms_of_reply :: "(json \<Rightarrow> rat option) \<Rightarrow> string \<Rightarrow> string \<Rightarrow> json \<Rightarrow> sent_sms result" where
  "sms_of_reply other sim to data =
     bind (json_item data ''id'') (\<lambda>i.
     bind (json_get data ''status'') (\<lambda>st.
     bind (case data of JObj kv \<Rightarrow> Inr (case dict_get kv ''cost'' of None \<Rightarrow> JFloat 0 | Some c \<Rightarrow> c) | _ \<Rightarrow> Inl AttributeError) (\<lambda>c.
       case (i, cost_number other c) of
         (JStr mid, Some cost) \<Rightarrow>
           Inr \<lparr>st_id = mid, st_status = (if st = JStr ''sent'' then SMS_SENT else SMS_FAILED), st_cost = cost, st_sim = sim, st_to = to\<rparr>
       | _ \<Rightarrow> Inl (ValueError ''validation error for SmsResult''))))"

datatype sms_attempt = Sent "sent_sms result" | RetryAfter int

definition backoff :: "nat \<Rightarrow> int" where
  "backoff n = 2 ^ n"

definition try_send :: "(json \<Rightarrow> rat option) \<Rightarrow> string \<Rightarrow> string \<Rightarrow> nat \<Rightarrow> http_reply \<Rightarrow> sms_attempt" where
  \<comment> \<open>what the attempt of that number does with the reply\<close>
  "try_send other sim to n r =
     (case r of
        Reply code body \<Rightarrow>
          if code = 402 then Sent (Inl (InsufficientCreditError sim))
          else if code = 429 \<and> n < 3 then RetryAfter (backoff n)
          else Sent (bind (response_json r) (sms_of_reply other sim to))
      | HttpError e \<Rightarrow> Sent (Inl e)
      | _ \<Rightarrow> (case transport_error r of
                Some e \<Rightarrow> if n \<ge> 3 then Sent (Inl e) else RetryAfter (backoff n)
              | None \<Rightarrow> RetryAfter (backoff n)))"

record sms_calls =
  sc_result :: "sent_sms result"
  sc_posts :: nat  \<comment> \<open>requests made, each with the same recipient and text\<close>
  sc_slept :: int  \<comment> \<open>seconds slept between them\<close>

fun send_attempts :: "(json \<Rightarrow> rat option) \<Rightarrow> (nat \<Rightarrow> http_reply) \<Rightarrow> string \<Rightarrow> string \<Rightarrow> nat list \<Rightarrow> nat \<Rightarrow> int \<Rightarrow> sms_calls" where
  "send_attempts other http sim to [] posts slept =
     \<lparr>sc_result = Inl (RuntimeError ''SMSTools''), sc_posts = posts, sc_slept = slept\<rparr>"
| "send_attempts other http sim to (n # ns) posts slept =
     (case try_send other sim to n (http n) of
        Sent r \<Rightarrow> \<lparr>sc_result = r, sc_posts = Suc posts, sc_slept = slept\<rparr>
      | RetryAfter t \<Rightarrow> send_attempts other http sim to ns (Suc posts) (slept + t))"

definition send_sms :: "(json \<Rightarrow> rat option) \<Rightarrow> (nat \<Rightarrow> http_reply) \<Rightarrow> string \<Rightarrow> string \<Rightarrow> sms_calls" where
  "send_sms other http sim to = send_attempts other http sim to [1, 2, 3] 0 0"

definition get_sim_list :: "http_reply \<Rightarrow> json result" where
  "get_sim_list r = bind (response_json r) (\<lambda>j. json_item j ''sims'')"

section \<open>iproxy.online\<close>

record proxy_info =
  px_url :: string
  px_asn_org :: string
  px_country :: string

definition default_proxy :: "string \<Rightarrow> proxy_info" where
  \<comment> \<open>\<open>ProxyInfo(url=url)\<close> with the defaults of the class\<close>
  "default_proxy url = \<lparr>px_url = url, px_asn_org = [], px_country = ''FR''\<rparr>"

definition choose_access :: "string \<Rightarrow> json list \<Rightarrow> json result" where
  \<comment> \<open>the access of that id, and the first one when there is none\<close>
  "choose_access pid accesses =
     (case accesses of
        [] \<Rightarrow> Inl IndexError
      | a # _ \<Rightarrow>
          (case find_row (\<lambda>x. json_item x ''id'' = Inr (JStr pid) \<or> is_error (json_item x ''id'')) accesses of
             None \<Rightarrow> Inr a
           | Some x \<Rightarrow> (case json_item x ''id'' of Inl e \<Rightarrow> Inl e | Inr _ \<Rightarrow> Inr x)))"

definition proxy_url :: "(json \<Rightarrow> string) \<Rightarrow> json \<Rightarrow> string result" where
  \<comment> \<open>scheme, credentials, host and port put together; the argument is the text of the other JSON values\<close>
  "proxy_url txt proxy =
     bind (json_item proxy ''auth'') (\<lambda>auth.
     bind (json_item proxy ''listen_service'') (\<lambda>scheme.
     bind (json_item auth ''login'') (\<lambda>login.
     bind (json_item auth ''password'') (\<lambda>password.
     bind (json_item proxy ''hostname'') (\<lambda>host.
     bind (json_item proxy ''port'') (\<lambda>port.
       Inr (json_str txt scheme @ ''://'' @ json_str txt login @ '':'' @ json_str txt password @ ''@'' @ json_str txt host
            @ '':'' @ json_str txt port)))))))"

definition get_4g_proxy :: "(json \<Rightarrow> string) \<Rightarrow> settings \<Rightarrow> http_reply \<Rightarrow> proxy_info result" where
  "get_4g_proxy txt s r =
     (if iproxy_api_key s = [] then Inl (ValueError ''IPROXY_API_KEY is required'')
      else if iproxy_proxy_id s = [] then Inl (ValueError ''IPROXY_PROXY_ID is required'')
      else bind (response_json r) (\<lambda>j.
           bind (json_item j ''proxy_accesses'') (\<lambda>accesses.
           bind (case accesses of JList xs \<Rightarrow> choose_access (iproxy_proxy_id s) xs | _ \<Rightarrow> Inl (TypeError ''not a list'')) (\<lambda>proxy.
           bind (proxy_url txt proxy) (\<lambda>url. Inr (default_proxy url))))))"

definition rotate_4g_ip :: "settings \<Rightarrow> http_reply \<Rightarrow> bool result" where
  "rotate_4g_ip s r =
     (if iproxy_api_key s = [] then Inl (ValueError ''IPROXY_API_KEY is required'')
      else case r of Reply code _ \<Rightarrow> Inr (code = 200)
           | _ \<Rightarrow> (case transport_error r of Some e \<Rightarrow> Inl e | None \<Rightarrow> Inr False))"

section \<open>SMSApp\<close>

record activation_order =
  ao_id :: string
  ao_phone :: string
  ao_country :: string
  ao_service :: string
  ao_cost :: rat
  ao_expires :: int

fun smsapp_expiry_timestamp :: "(string \<Rightarrow> datetime option) \<Rightarrow> json \<Rightarrow> int" where
  \<comment> \<open>the argument is \<open>datetime.fromisoformat\<close>, with UTC for a naive result; \<open>None\<close> is its \<open>ValueError\<close>\<close>
  "smsapp_expiry_timestamp parse_iso (JInt i) = i"
| "smsapp_expiry_timestamp parse_iso (JBool b) = (if b then 1 else 0)"
| "smsapp_expiry_timestamp parse_iso (JFloat q) = (if q < 0 then - \<lfloor>- q\<rfloor> else \<lfloor>q\<rfloor>)"
| "smsapp_expiry_timestamp parse_iso (JStr t) =
     (case (if t = [] then None else parse_iso (replace_text ''Z'' ''+00:00'' t)) of
        None \<Rightarrow> 0
      | Some instant \<Rightarrow> if instant < 0 then - ((- instant) div seconds 1) else instant div seconds 1)"
| "smsapp_expiry_timestamp parse_iso j = 0"

definition text_field :: "string \<Rightarrow> json \<Rightarrow> string \<Rightarrow> string result" where
  \<comment> \<open>a \<open>str\<close> field of \<open>ActivationOrder\<close> read with \<open>data.get(k, default)\<close>\<close>
  "text_field dflt data k =
     (case data of
        JObj kv \<Rightarrow> (case dict_get kv k of None \<Rightarrow> Inr dflt | Some (JStr t) \<Rightarrow> Inr t | Some _ \<Rightarrow> Inl (ValueError ''ActivationOrder''))
      | _ \<Rightarrow> Inl AttributeError)"

definition order_of_reply :: "(json \<Rightarrow> string) \<Rightarrow> (json \<Rightarrow> rat option) \<Rightarrow> (string \<Rightarrow> datetime option) \<Rightarrow> string \<Rightarrow> string \<Rightarrow> json
    \<Rightarrow> activation_order result" where
  "order_of_reply txt float_of parse_iso country service data =
     bind (json_item data ''id'') (\<lambda>i.
     bind (text_field [] data ''phone'') (\<lambda>phone.
     bind (text_field country data ''country'') (\<lambda>c.
     bind (text_field service data ''service'') (\<lambda>sv.
     bind (json_get data ''expires'') (\<lambda>ex.
       case cost_number float_of (case data of JObj kv \<Rightarrow> (case dict_get kv ''cost'' of None \<Rightarrow> JFloat 0 | Some v \<Rightarrow> v) | _ \<Rightarrow> JNull) of
         None \<Rightarrow> Inl (ValueError ''could not convert to float'')
       | Some cost \<Rightarrow> Inr \<lparr>ao_id = json_str txt i, ao_phone = phone, ao_country = c, ao_service = sv, ao_cost = cost,
                          ao_expires = smsapp_expiry_timestamp parse_iso ex\<rparr>)))))"

definition buy_number :: "(json \<Rightarrow> string) \<Rightarrow> (json \<Rightarrow> rat option) \<Rightarrow> (string \<Rightarrow> datetime option) \<Rightarrow> (string \<Rightarrow> http_reply)
    \<Rightarrow> string \<Rightarrow> string \<Rightarrow> activation_order result" where
  \<comment> \<open>the service answers per country\<close>
  "buy_number txt float_of parse_iso buy country service =
     bind (response_json (buy country)) (order_of_reply txt float_of parse_iso country service)"

fun split_char :: "char \<Rightarrow> string \<Rightarrow> string list" where
  \<comment> \<open>\<open>s.split(c)\<close>\<close>
  "split_char c [] = [[]]"
| "split_char c (x # xs) =
     (if x = c then [] # split_char c xs
      else (case split_char c xs of [] \<Rightarrow> [[x]] | w # ws \<Rightarrow> (x # w) # ws))"

definition otp_countries :: "settings \<Rightarrow> string list" where
  \<comment> \<open>the countries in the order they are tried\<close>
  "otp_countries s =
     (let configured = map (\<lambda>c. lower (strip c)) (filter (\<lambda>c. strip c \<noteq> []) (split_char CHR '','' (smsapp_otp_countries s)));
          preferred = lower (strip (smsapp_otp_country s)) in
      (if preferred = [] then [] else [preferred]) @ filter (\<lambda>c. c \<noteq> preferred) configured)"

definition offered :: "string \<Rightarrow> json \<Rightarrow> bool result" where
  \<comment> \<open>whether the catalogue of a country has the service available\<close>
  "offered service payload =
     (let services = (case payload of JObj kv \<Rightarrow> (case dict_get kv ''services'' of None \<Rightarrow> payload | Some v \<Rightarrow> v) | _ \<Rightarrow> payload) in
      case services of
        JList items \<Rightarrow> Inr (\<exists>x\<in>set items. case x of
            JObj kv \<Rightarrow> get_json kv ''name'' = JStr service \<and> get_json kv ''available'' = JBool True | _ \<Rightarrow> False)
      | JObj kv \<Rightarrow> Inr False  \<comment> \<open>iterating over a dictionary gives its keys\<close>
      | JStr t \<Rightarrow> Inr False
      | _ \<Rightarrow> Inl (TypeError ''object is not iterable''))"

fun try_countries :: "(string \<Rightarrow> http_reply) \<Rightarrow> (string \<Rightarrow> activation_order result) \<Rightarrow> string \<Rightarrow> string list \<Rightarrow> activation_order result" where
  "try_countries catalogue buy service [] = Inl (RuntimeError ''Aucun numero SMSApp disponible'')"
| "try_countries catalogue buy service (c # cs) =
     bind (response_json (catalogue c)) (\<lambda>payload.
     bind (offered service payload) (\<lambda>yes.
       if yes then buy c else try_countries catalogue buy service cs))"

definition buy_number_with_fallback :: "settings \<Rightarrow> (string \<Rightarrow> http_reply) \<Rightarrow> (string \<Rightarrow> activation_order result) \<Rightarrow> string
    \<Rightarrow> activation_order result" where
  "buy_number_with_fallback s catalogue buy service =
     (if otp_countries s = [] then Inl (RuntimeError ''Aucun pays SMSApp configure'')
      else try_countries catalogue buy service (otp_countries s))"

definition otp_of_reply :: "(json \<Rightarrow> string) \<Rightarrow> json \<Rightarrow> string option result" where
  \<comment> \<open>the code in one answer of \<open>/sms/{order_id}\<close>\<close>
  "otp_of_reply txt data =
     (case data of
        JObj kv \<Rightarrow>
          if get_json kv ''status'' = JStr ''RECEIVED'' \<and> json_truthy (get_json kv ''sms'') then
            bind (case get_json kv ''sms'' of
                    JList (JObj first # _) \<Rightarrow>
                      (case dict_get first ''text'' of None \<Rightarrow> Inr [] | Some (JStr t) \<Rightarrow> Inr t
                       | Some _ \<Rightarrow> Inl (TypeError ''expected string or bytes-like object''))
                  | JList _ \<Rightarrow> Inl AttributeError
                  | other \<Rightarrow> Inr (json_str txt other))
              (\<lambda>text. Inr (first_code 4 8 text))
          else Inr None
      | _ \<Rightarrow> Inl AttributeError)"

partial_function (option) poll_otp :: "(json \<Rightarrow> string) \<Rightarrow> (nat \<Rightarrow> http_reply) \<Rightarrow> (nat \<Rightarrow> datetime) \<Rightarrow> datetime \<Rightarrow> nat
    \<Rightarrow> string option result option" where
  \<comment> \<open>the loop, with the clock at the start of each turn\<close>
  "poll_otp txt http clock deadline i =
     (if clock i < deadline then
        (case bind (response_json (http i)) (otp_of_reply txt) of
           Inl e \<Rightarrow> Some (Inl e)
         | Inr (Some code) \<Rightarrow> Some (Inr (Some code))
         | Inr None \<Rightarrow> poll_otp txt http clock deadline (Suc i))
      else Some (Inr None))"

definition poll_sms :: "(json \<Rightarrow> string) \<Rightarrow> (nat \<Rightarrow> http_reply) \<Rightarrow> (nat \<Rightarrow> datetime) \<Rightarrow> int \<Rightarrow> string option result option" where
  "poll_sms txt http clock max_wait = poll_otp txt http clock (clock 0 + seconds max_wait) 0"

definition get_sms_activation :: "http_reply \<Rightarrow> (string, json) dict result" where
  "get_sms_activation r =
     bind (response_json r) (\<lambda>data. Inr (case data of JObj kv \<Rightarrow> kv | _ \<Rightarrow> [(''status'', JStr ''UNKNOWN''), (''sms'', data)]))"

definition cancel_number :: "http_reply \<Rightarrow> bool result" where
  "cancel_number r = (case r of Reply code _ \<Rightarrow> Inr (code = 200)
     | _ \<Rightarrow> (case transport_error r of Some e \<Rightarrow> Inl e | None \<Rightarrow> Inr False))"

definition generate_email :: "settings \<Rightarrow> string option \<Rightarrow> nat \<Rightarrow> string" where
  \<comment> \<open>the four random bytes come from \<open>secrets.token_hex\<close>\<close>
  "generate_email s domain n =
     ''contact.'' @ digits hex_digit 16 8 n @ ''@'' @ (case domain of None \<Rightarrow> operational_domain s
        | Some t \<Rightarrow> if t = [] then operational_domain s else t)"

section \<open>Properties\<close>

definition retried :: "http_reply \<Rightarrow> bool" where
  \<comment> \<open>a reply after which the message is posted again\<close>
  "retried r = (case r of Reply code _ \<Rightarrow> code = 429 | HttpTimeout \<Rightarrow> True | HttpNetworkError \<Rightarrow> True | HttpError _ \<Rightarrow> False)"

lemma try_send_RetryAfter:
  "try_send other sim to n r = RetryAfter t \<longleftrightarrow> retried r \<and> n < 3 \<and> t = 2 ^ n"
  by (cases r) (auto simp: try_send_def retried_def transport_error_def backoff_def)

lemma try_send_Sent:
  assumes "try_send other sim to n r = Sent (Inr m)"
  shows "\<exists>code j. r = Reply code (Some j) \<and> successful code \<and> st_to m = to \<and> st_sim m = sim
    \<and> (st_status m = SMS_SENT \<longleftrightarrow> json_get j ''status'' = Inr (JStr ''sent''))"
proof (cases r)
  case (Reply code body)
  with assms have "bind (response_json r) (sms_of_reply other sim to) = Inr m"
    by (auto simp: try_send_def split: if_splits)
  then obtain j where j: "response_json r = Inr j" "sms_of_reply other sim to j = Inr m" by (auto simp: bind_Inr)
  from j(1) Reply have "successful code" "body = Some j" by (auto simp: response_json_def split: if_splits option.splits)
  moreover have "st_to m = to \<and> st_sim m = sim \<and> (st_status m = SMS_SENT \<longleftrightarrow> json_get j ''status'' = Inr (JStr ''sent''))"
  proof -
    from j(2) obtain i st c where "json_get j ''status'' = Inr st"
      "(case (i, cost_number other c) of
         (JStr mid, Some cost) \<Rightarrow>
           Inr \<lparr>st_id = mid, st_status = (if st = JStr ''sent'' then SMS_SENT else SMS_FAILED), st_cost = cost, st_sim = sim, st_to = to\<rparr>
       | _ \<Rightarrow> Inl (ValueError ''validation error for SmsResult'')) = Inr m"
      unfolding sms_of_reply_def bind_Inr by blast
    then show ?thesis by (cases i; cases "cost_number other c") (auto split: if_splits)
  qed
  ultimately show ?thesis using Reply by blast
qed (use assms in \<open>auto simp: try_send_def transport_error_def split: if_splits\<close>)

text \<open>
  Sending is bounded, and a lost answer repeats the message. \<open>send_sms\<close> posts at most three times and
  sleeps at most six seconds; it posts again exactly after a 429, a timeout or a network error, with
  the same recipient and text, so that a message whose acceptance was lost in a timeout goes out twice;
  it reports a message only on the word of the last reply, as sent only when that reply says so, and a
  lack of credit exactly when that reply is a 402.
\<close>

theorem send_sms_attempts:
  "(let c = send_sms other http sim to in
     1 \<le> sc_posts c \<and> sc_posts c \<le> 3 \<and> sc_slept c \<le> 6
     \<and> (\<forall>k. 1 \<le> k \<and> k < sc_posts c \<longrightarrow> retried (http k))
     \<and> (sc_posts c < 3 \<longrightarrow> \<not> retried (http (sc_posts c)))
     \<and> (\<forall>m. sc_result c = Inr m \<longrightarrow> (\<exists>code j. http (sc_posts c) = Reply code (Some j) \<and> successful code \<and> st_to m = to \<and> st_sim m = sim
           \<and> (st_status m = SMS_SENT \<longleftrightarrow> json_get j ''status'' = Inr (JStr ''sent''))))
     \<and> (\<forall>body. http (sc_posts c) = Reply 402 body \<longrightarrow> sc_result c = Inl (InsufficientCreditError sim)))"
proof -
  note last = try_send_Sent [where other = other and sim = sim and to = to]
  have credit: "try_send other sim to n (Reply 402 body) = Sent (Inl (InsufficientCreditError sim))" for n body
    by (simp add: try_send_def)
  have once: "try_send other sim to n r = Sent q \<Longrightarrow> n < 3 \<Longrightarrow> \<not> retried r" for n r q
    using try_send_RetryAfter [of other sim to n r "2 ^ n"] by auto
  have never: "try_send other sim to 3 r \<noteq> RetryAfter t" for r t
    using try_send_RetryAfter by simp
  have less: "1 \<le> k \<and> k < 2 \<longleftrightarrow> k = 1" "1 \<le> k \<and> k < 3 \<longleftrightarrow> k = 1 \<or> k = 2" for k :: nat by auto
  show ?thesis
  proof (cases "try_send other sim to 1 (http 1)")
    case (Sent q)
    then show ?thesis
      using last [of 1 "http 1"] once [OF Sent] credit [of 1] by (auto simp: send_sms_def Let_def)
  next
    case (RetryAfter t1)
    then have r1: "retried (http 1)" "t1 = 2" by (simp_all add: try_send_RetryAfter)
    show ?thesis
    proof (cases "try_send other sim to 2 (http 2)")
      case (Sent q)
      then show ?thesis
        using RetryAfter r1 last [of 2 "http 2"] once [OF Sent] credit [of 2]
        by (auto simp: send_sms_def Let_def less numeral_2_eq_2 [symmetric] simp flip: One_nat_def)
    next
      case (RetryAfter t2)
      then have r2: "retried (http 2)" "t2 = 4" by (simp_all add: try_send_RetryAfter)
      obtain q where "try_send other sim to 3 (http 3) = Sent q"
        using never by (cases "try_send other sim to 3 (http 3)") auto
      then show ?thesis
        using RetryAfter \<open>try_send other sim to 1 (http 1) = RetryAfter t1\<close> r1 r2 last [of 3 "http 3"] credit [of 3]
        by (auto simp: send_sms_def Let_def less numeral_3_eq_3 [symmetric] simp flip: One_nat_def)
    qed
  qed
qed

definition demo_lossy :: "nat \<Rightarrow> http_reply" where
  "demo_lossy n = (if n = 1 then HttpTimeout
     else Reply 200 (Some (JObj [(''id'', JStr ''7''), (''status'', JStr ''sent''), (''cost'', JFloat 0)])))"

lemma send_sms_attempts_witness:
  "sc_posts (send_sms (\<lambda>j. None) demo_lossy ''s'' ''+33'') = 2 \<and> retried (demo_lossy 1)
     \<and> \<not> is_error (sc_result (send_sms (\<lambda>j. None) demo_lossy ''s'' ''+33''))"
proof -
  let ?c = "send_sms (\<lambda>j. None) demo_lossy ''s'' ''+33''"
  have c: "sc_posts ?c = 2" "\<not> is_error (sc_result ?c)" by code_simp+
  moreover have "\<forall>k. 1 \<le> k \<and> k < sc_posts ?c \<longrightarrow> retried (demo_lossy k)"
    using send_sms_attempts [of "\<lambda>j. None" demo_lossy "''s''" "''+33''"] unfolding Let_def by blast
  then have "retried (demo_lossy 1)" by (simp add: c(1))
  ultimately show ?thesis by blast
qed

lemma poll_otp_returns:
  assumes "\<And>i. clock i + seconds 3 \<le> clock (Suc i)"
  shows "\<exists>r. poll_otp txt http clock deadline i = Some r"
proof (induction "nat (deadline - clock i)" arbitrary: i rule: less_induct)
  case less
  show ?case
  proof (cases "clock i < deadline")
    case False
    then show ?thesis by (simp add: poll_otp.simps)
  next
    case True
    have "nat (deadline - clock (Suc i)) < nat (deadline - clock i)"
      using True assms [of i] by (simp add: duration_defs)
    from less [OF this] obtain r where "poll_otp txt http clock deadline (Suc i) = Some r" by blast
    with True show ?thesis by (subst poll_otp.simps) (auto split: sum.splits option.splits)
  qed
qed

lemma poll_otp_code:
  fixes res :: "string option result"
  assumes "poll_otp txt http clock deadline i = Some res"
  shows "\<forall>code. res = Inr (Some code) \<longrightarrow> (\<exists>k\<ge>i. clock k < deadline \<and> bind (response_json (http k)) (otp_of_reply txt) = Inr (Some code))"
proof (rule poll_otp.raw_induct [where P = "\<lambda>txt http clock deadline i res.
    \<forall>code. res = Inr (Some code) \<longrightarrow> (\<exists>k\<ge>i. clock k < deadline \<and> bind (response_json (http k)) (otp_of_reply txt) = Inr (Some code))", OF _ assms])
  fix loop :: "(json \<Rightarrow> string) \<Rightarrow> (nat \<Rightarrow> http_reply) \<Rightarrow> (nat \<Rightarrow> datetime) \<Rightarrow> datetime \<Rightarrow> nat \<Rightarrow> string option result option"
    and tx :: "json \<Rightarrow> string" and http clock deadline i and res :: "string option result"
  assume IH: "\<And>tx http clock deadline i res. loop tx http clock deadline i = Some res \<Longrightarrow>
      \<forall>code. res = Inr (Some code) \<longrightarrow> (\<exists>k\<ge>i. clock k < deadline \<and> bind (response_json (http k)) (otp_of_reply tx) = Inr (Some code))"
    and eq: "(if clock i < deadline then
        (case bind (response_json (http i)) (otp_of_reply tx) of
           Inl e \<Rightarrow> Some (Inl e)
         | Inr None \<Rightarrow> loop tx http clock deadline (Suc i)
         | Inr (Some code) \<Rightarrow> Some (Inr (Some code)))
      else Some (Inr None)) = Some res"
  show "\<forall>code. res = Inr (Some code) \<longrightarrow> (\<exists>k\<ge>i. clock k < deadline \<and> bind (response_json (http k)) (otp_of_reply tx) = Inr (Some code))"
  proof (intro allI impI)
    fix code assume res: "res = Inr (Some code)"
    show "\<exists>k\<ge>i. clock k < deadline \<and> bind (response_json (http k)) (otp_of_reply tx) = Inr (Some code)"
    proof (cases "bind (response_json (http i)) (otp_of_reply tx) = Inr None")
      case True
      with eq res have "loop tx http clock deadline (Suc i) = Some res" by (auto split: if_splits)
      with IH res obtain k where "Suc i \<le> k" "clock k < deadline"
        "bind (response_json (http k)) (otp_of_reply tx) = Inr (Some code)" by blast
      then show ?thesis by (intro exI [of _ k]) simp
    next
      case False
      with eq res show ?thesis by (auto split: if_splits sum.splits option.splits intro!: exI [of _ i])
    qed
  qed
qed

lemma otp_of_reply_code:
  assumes "otp_of_reply txt data = Inr (Some code)"
  shows "4 \<le> length code \<and> length code \<le> 8 \<and> (\<forall>c\<in>set code. is_digit c)"
proof -
  obtain body where "first_code 4 8 body = Some code"
    using assms by (auto simp: otp_of_reply_def bind_Inr split: json.splits if_splits)
  from first_code_sound [OF this] show ?thesis by (auto simp: code_match_def)
qed

text \<open>
  Waiting for a one-time code ends. With a clock that advances by the three seconds of the pause in
  each turn, \<open>poll_sms\<close> returns whatever the service answers, and a code it returns is made of four to
  eight digits and was in an answer to a request of a turn that began before the deadline.
\<close>

theorem poll_sms_returns:
  assumes "\<And>i. clock i + seconds 3 \<le> clock (Suc i)"
  shows "\<exists>r. poll_sms txt http clock max_wait = Some r
    \<and> (\<forall>code. r = Inr (Some code) \<longrightarrow> 4 \<le> length code \<and> length code \<le> 8 \<and> (\<forall>c\<in>set code. is_digit c)
        \<and> (\<exists>k. clock k < clock 0 + seconds max_wait \<and> bind (response_json (http k)) (otp_of_reply txt) = Inr (Some code)))"
proof -
  obtain r where r: "poll_otp txt http clock (clock 0 + seconds max_wait) 0 = Some r"
    using poll_otp_returns [where clock = clock and i = 0, OF assms] by blast
  have "4 \<le> length code \<and> length code \<le> 8 \<and> (\<forall>c\<in>set code. is_digit c)
        \<and> (\<exists>k. clock k < clock 0 + seconds max_wait \<and> bind (response_json (http k)) (otp_of_reply txt) = Inr (Some code))"
    if "r = Inr (Some code)" for code
  proof -
    from poll_otp_code [OF r] that obtain k where k: "clock k < clock 0 + seconds max_wait"
      "bind (response_json (http k)) (otp_of_reply txt) = Inr (Some code)" by blast
    from k(2) obtain data where "otp_of_reply txt data = Inr (Some code)" by (auto simp: bind_Inr)
    from otp_of_reply_code [OF this] k show ?thesis by blast
  qed
  with r show ?thesis by (auto simp: poll_sms_def)
qed

lemma poll_sms_returns_witness:
  "\<exists>r. poll_sms (\<lambda>j. []) (\<lambda>i. Reply 200 (Some (JObj []))) (\<lambda>i. seconds (3 * int i)) 120 = Some r"
  using poll_sms_returns [of "\<lambda>i. seconds (3 * int i)" "\<lambda>j. []" "\<lambda>i. Reply 200 (Some (JObj []))" 120]
  by (auto simp: duration_defs)

end
