(* ===== verification/Redaction.thy ===== *)
theory Redaction
  imports Patterns
begin

text \<open>
  What the substitution of bearer tokens (\<open>_sanitize_error\<close> of \<open>phone_operations.py\<close>, the function
  \<open>redact\<close> of theory Patterns) does, against a description of tokens by their letters: a token is cut
  out with its word whatever its letters are, the text around it stays, and nothing of the shape of a
  token is left.
\<close>

text \<open>
  The shape of a token, without the matcher: the six letters of the word, each small or capital, some
  white space, and a run of token characters. An open text ends where such a run may go on.
\<close>

definition bearer_word :: "string \<Rightarrow> bool" where
  "bearer_word w = list_all2 (\<lambda>c cs. c \<in> set cs) w [''bB'', ''eE'', ''aA'', ''rR'', ''eE'', ''rR'']"

definition blanks :: "string \<Rightarrow> bool" where
  "blanks g = (g \<noteq> [] \<and> (\<forall>c\<in>set g. is_space c))"

definition token_letters :: string where
  "token_letters = ''ABCDEFGHIJKLMNOPQRSTUVWXYZabcdefghijklmnopqrstuvwxyz0123456789-._~''"

definition token_run :: "string \<Rightarrow> bool" where
  "token_run t = (set t \<subseteq> set token_letters)"

definition open_token :: "string \<Rightarrow> bool" where
  "open_token u = (\<exists>a w g t. u = a @ w @ g @ t \<and> bearer_word w \<and> blanks g \<and> token_run t)"

lemma in_chars: "c \<in> set s \<longleftrightarrow> code_point c \<in> set (map of_char s)"
  by auto

lemma token_codes: "map of_char token_letters = [65..<91] @ [97..<123] @ [48..<58] @ [45, 46, 95, 126 :: nat]"
  unfolding token_letters_def by simp

lemma token_char_iff: "token_char c \<longleftrightarrow> c \<in> set token_letters"
  unfolding in_chars token_codes set_append set_upt by (auto simp: token_char_def Let_def)

lemma token_run_iff: "token_run t \<longleftrightarrow> (\<forall>c\<in>set t. token_char c)"
  by (auto simp: token_run_def token_char_iff)

lemma lower_char_b:
  "lower_char c = CHR ''b'' \<longleftrightarrow> c \<in> set ''bB''" "lower_char c = CHR ''e'' \<longleftrightarrow> c \<in> set ''eE''"
  "lower_char c = CHR ''a'' \<longleftrightarrow> c \<in> set ''aA''" "lower_char c = CHR ''r'' \<longleftrightarrow> c \<in> set ''rR''"
proof -
  have eq: "lower_char c = d \<longleftrightarrow> code_point (lower_char c) = code_point d" for d by simp
  have n: "code_point (lower_char c) = (let n = code_point c in
      if (65 \<le> n \<and> n \<le> 90) \<or> (192 \<le> n \<and> n \<le> 222 \<and> n \<noteq> 215) then n + 32 else n)"
    by (auto simp: lower_char_def Let_def)
  show "lower_char c = CHR ''b'' \<longleftrightarrow> c \<in> set ''bB''" "lower_char c = CHR ''e'' \<longleftrightarrow> c \<in> set ''eE''"
    "lower_char c = CHR ''a'' \<longleftrightarrow> c \<in> set ''aA''" "lower_char c = CHR ''r'' \<longleftrightarrow> c \<in> set ''rR''"
    unfolding eq n in_chars by (auto simp: Let_def)
qed

lemma bearer_word_iff: "bearer_word w \<longleftrightarrow> lower w = ''bearer''"
proof -
  have "bearer_word w \<longleftrightarrow> list_all2 (\<lambda>c d. lower_char c = d) w ''bearer''"
    by (simp only: bearer_word_def list_all2_Cons2 list.rel_inject list_all2_Nil2 lower_char_b [symmetric])
  also have "\<dots> \<longleftrightarrow> lower w = ''bearer''"
    by (simp only: lower_def list.rel_map(1) [of "(=)" lower_char, symmetric] list.rel_eq)
  finally show ?thesis .
qed

lemma bearer_word_length: "bearer_word w \<Longrightarrow> length w = 6"
  by (auto simp: bearer_word_def dest: list_all2_lengthD)

lemma bearer_word_Cons: "bearer_word w \<Longrightarrow> \<exists>c cs. w = c # cs \<and> lower_char c = CHR ''b'' \<and> \<not> is_space c"
proof -
  assume "bearer_word w"
  then obtain c cs where "w = c # cs" "lower_char c = CHR ''b''" by (cases w) (auto simp: bearer_word_iff lower_def)
  moreover from this(2) have "\<not> is_space c" using space_not_b by blast
  ultimately show ?thesis by blast
qed

lemma takeDrop_run:
  assumes "\<forall>c\<in>set t. P c" "v = [] \<or> \<not> P (hd v)"
  shows "takeWhile P (t @ v) = t \<and> dropWhile P (t @ v) = v"
  using assms by (cases v) (simp_all add: dropWhile_append3 takeWhile_append2)

lemma bearer_at_token:
  assumes "bearer_word w" "blanks g" "token_run t" "t \<noteq> []" "v = [] \<or> hd v \<notin> set token_letters"
  shows "bearer_at (w @ g @ t @ v) = Some v"
proof -
  obtain c cs where t: "t = c # cs" "token_char c" using assms(3,4) by (cases t) (auto simp: token_run_iff)
  then have "\<not> is_space c" by (auto simp: token_char_def is_space_def Let_def)
  then have g: "takeWhile is_space (g @ t @ v) = g \<and> dropWhile is_space (g @ t @ v) = t @ v"
    using assms(2) t(1) by (intro takeDrop_run) (auto simp: blanks_def)
  have "takeWhile token_char (t @ v) = t \<and> dropWhile token_char (t @ v) = v"
    using assms(3,5) by (intro takeDrop_run) (auto simp: token_run_iff token_char_iff)
  with g show ?thesis
    using assms(1,2,4) bearer_word_length [OF assms(1)] by (simp add: bearer_at_def Let_def bearer_word_iff blanks_def)
qed

lemma bearer_at_shape:
  "bearer_at s = Some v \<Longrightarrow> \<exists>w g t. s = w @ g @ t @ v \<and> bearer_word w \<and> blanks g \<and> token_run t \<and> t \<noteq> []"
proof -
  assume s: "bearer_at s = Some v"
  let ?gap = "drop 6 s" and ?rest = "dropWhile is_space (drop 6 s)"
  from s have k: "lower (take 6 s) = ''bearer''" "takeWhile is_space ?gap \<noteq> []" "takeWhile token_char ?rest \<noteq> []"
      "v = dropWhile token_char ?rest"
    by (simp_all add: bearer_at_def Let_def split: if_splits)
  have "s = take 6 s @ takeWhile is_space ?gap @ takeWhile token_char ?rest @ dropWhile token_char ?rest"
    by (metis append_take_drop_id takeWhile_dropWhile_id)
  with k show ?thesis
    by (intro exI [of _ "take 6 s"] exI [of _ "takeWhile is_space ?gap"] exI [of _ "takeWhile token_char ?rest"])
      (auto simp: bearer_word_iff blanks_def token_run_iff dest: set_takeWhileD)
qed

text \<open>What stands before a token is redacted as if it stood alone, unless it is open.\<close>

lemma lower_bearer_tl: "lower x = ''bearer'' \<Longrightarrow> c \<in> set (tl x) \<Longrightarrow> lower_char c \<noteq> CHR ''b''"
proof -
  assume "lower x = ''bearer''" "c \<in> set (tl x)"
  then have "lower_char c \<in> set (tl ''bearer'')" by (metis lower_def list.set_map imageI map_tl)
  then show ?thesis by auto
qed

lemma open_token_suffix: "open_token r \<Longrightarrow> open_token (p @ r)"
  by (auto simp: open_token_def) (metis append.assoc)

lemma bearer_at_before:
  assumes "\<not> open_token u" "u \<noteq> []" "lower_char b = CHR ''b''"
  shows "bearer_at (u @ b # s) = map_option (\<lambda>r. r @ b # s) (bearer_at u)"
proof (cases "length u < 6")
  case True
  define x where "x = take 6 (u @ b # s)"
  have "x = u @ b # take (5 - length u) s" using True by (simp add: x_def take_Cons' le_Suc_eq)
  then have "b \<in> set (tl x)" using assms(2) by (cases u) simp_all
  then have "lower x \<noteq> ''bearer''" using lower_bearer_tl assms(3) by blast
  moreover have "lower (take 6 u) \<noteq> ''bearer''" using True by (auto simp: lower_def dest: arg_cong [of _ _ length])
  ultimately show ?thesis by (simp add: bearer_at_def x_def)
next
  case False
  let ?g = "drop 6 u"
  have parts: "take 6 (u @ b # s) = take 6 u" "drop 6 (u @ b # s) = ?g @ b # s" using False by simp_all
  have at: "bearer_at (u @ b # s) = (let gap = ?g @ b # s; rest = dropWhile is_space gap in
      if lower (take 6 u) = ''bearer'' \<and> takeWhile is_space gap \<noteq> [] \<and> takeWhile token_char rest \<noteq> []
      then Some (dropWhile token_char rest) else None)"
    by (simp only: bearer_at_def parts)
  have nb: "\<not> is_space b" using assms(3) space_not_b by blast
  show ?thesis
  proof (cases "lower (take 6 u) = ''bearer''")
    case word: True
    have split: "u = [] @ take 6 u @ takeWhile is_space ?g @ dropWhile is_space ?g" by simp
    have closed: "\<not> token_run (dropWhile is_space ?g)" if "takeWhile is_space ?g \<noteq> []"
    proof
      assume "token_run (dropWhile is_space ?g)"
      moreover have "blanks (takeWhile is_space ?g)" using that by (auto simp: blanks_def dest: set_takeWhileD)
      ultimately have "open_token u" unfolding open_token_def using split word bearer_word_iff by blast
      with assms(1) show False by simp
    qed
    show ?thesis
    proof (cases "takeWhile is_space ?g = []")
      case True
      then have "takeWhile is_space (?g @ b # s) = []" using nb by (cases ?g) (auto split: if_splits)
      with True show ?thesis unfolding at by (simp add: bearer_at_def)
    next
      case gap: False
      let ?r = "dropWhile is_space ?g"
      from closed [OF gap] obtain z where z: "z \<in> set ?r" "\<not> token_char z" by (auto simp: token_run_iff)
      then have "\<exists>y\<in>set ?g. \<not> is_space y" by (metis dropWhile_eq_Nil_conv list.set(1) empty_iff)
      then have g: "dropWhile is_space (?g @ b # s) = ?r @ b # s" "takeWhile is_space (?g @ b # s) = takeWhile is_space ?g"
        by (auto simp: dropWhile_append1 takeWhile_append1)
      from z have r: "dropWhile token_char (?r @ b # s) = dropWhile token_char ?r @ b # s"
          "takeWhile token_char (?r @ b # s) = takeWhile token_char ?r"
        by (auto simp: dropWhile_append1 takeWhile_append1)
      show ?thesis using word gap unfolding at by (simp add: bearer_at_def g r Let_def)
    qed
  next
    case no_word: False
    then show ?thesis unfolding at by (simp add: bearer_at_def)
  qed
qed

lemma redact_before:
  assumes "\<not> open_token u" "lower_char b = CHR ''b''"
  shows "redact (u @ b # s) = redact u @ redact (b # s)"
  using assms(1)
proof (induction u rule: redact.induct)
  case (1 u)
  show ?case
  proof (cases u)
    case (Cons c cs)
    note at = bearer_at_before [OF "1.prems" _ assms(2), of s]
    show ?thesis
    proof (cases "bearer_at u")
      case None
      have "\<not> open_token cs" using "1.prems" open_token_suffix [of cs "[c]"] Cons by auto
      with "1.IH"(1) [OF Cons None] at None Cons show ?thesis by (simp add: redact_None)
    next
      case (Some r)
      from bearer_at_shape [OF Some] have "\<not> open_token r" using "1.prems" open_token_suffix by (metis append.assoc)
      with "1.IH"(2) [OF Cons Some] at Some Cons show ?thesis by (simp add: redact_Some)
    qed
  qed simp
qed

text \<open>A token is cut out of the text with its word, whatever its letters.\<close>

lemma redact_token_out:
  assumes "\<not> open_token u" "bearer_word w" "blanks g" "token_run t" "t \<noteq> []" "v = [] \<or> hd v \<notin> set token_letters"
  shows "redact (u @ w @ g @ t @ v) = redact u @ redacted @ redact v"
proof -
  obtain c cs where w: "w = c # cs" "lower_char c = CHR ''b''" using bearer_word_Cons [OF assms(2)] by blast
  have "redact (u @ w @ g @ t @ v) = redact u @ redact (w @ g @ t @ v)"
    using redact_before [OF assms(1) w(2), of "cs @ g @ t @ v"] w(1) by simp
  with redact_Some [OF bearer_at_token [OF assms(2-6)]] show ?thesis by simp
qed

lemma redact_plain:
  assumes "\<And>a w z. s = a @ w @ z \<Longrightarrow> \<not> bearer_word w"
  shows "redact s = s"
  using assms
proof (induction s)
  case (Cons c cs)
  have "bearer_at (c # cs) = None"
  proof (cases "bearer_at (c # cs)")
    case (Some v)
    from bearer_at_shape [OF this] obtain w z where "c # cs = [] @ w @ z" "bearer_word w" by auto
    with Cons.prems show ?thesis by blast
  qed
  moreover have "redact cs = cs" using Cons.prems by (intro Cons.IH) (metis append_Cons)
  ultimately show ?case by (simp add: redact_None)
qed simp

lemma redact_no_token:
  assumes "redact s = a @ w @ g @ t @ v" "bearer_word w" "blanks g" "token_run t" "t \<noteq> []"
  shows False
proof -
  have "sublist (w @ g @ t) (redact s)" using assms(1) by (auto simp: sublist_def)
  then have "bearer_at (w @ g @ t) = None" by (rule redact_clean_infix)
  with bearer_at_token [OF assms(2-5), of "[]"] show False by simp
qed

end
