(* ===== verification/Phone_Operations.thy ===== *)
theory Phone_Operations
  imports Boundaries Redaction
begin

text \<open>
  The life of the numbers bought for one-time codes (\<open>phone_operations.py\<close>) and their routes
  (\<open>api/phone_operations.py\<close>): purchase, refresh from the provider, cancellation, the marks of the
  account creation, the periodic reconciliation, and the list and summary views. The provider's
  answers are parameters (theory Boundaries says how they come about), and so is the clock.
\<close>

section \<open>Status\<close>

definition ACTIVE_STATUSES :: "phone_activation_status list" where
  "ACTIVE_STATUSES = [PH_RESERVED, PH_WAITING]"

definition TERMINAL_STATUSES :: "phone_activation_status list" where
  "TERMINAL_STATUSES = [PH_USED, PH_CANCELLED, PH_EXPIRED, PH_REFUNDED, PH_FAILED]"

section \<open>Text\<close>

definition sanitize_error :: "exn \<Rightarrow> string" where
  "sanitize_error e = take 500 (redact (exn_str e))"

definition or_none :: "string \<Rightarrow> string option" where
  \<comment> \<open>\<open>text or None\<close>\<close>
  "or_none s = (if s = [] then None else Some s)"

definition upper_char :: "char \<Rightarrow> char" where
  \<comment> \<open>the letters whose upper case has two letters or lies outside Latin-1 stay\<close>
  "upper_char c = (let n = code_point c in
     if (97 \<le> n \<and> n \<le> 122) \<or> (224 \<le> n \<and> n \<le> 254 \<and> n \<noteq> 247) then char_of (n - 32) else c)"

definition upper :: "string \<Rightarrow> string" where
  "upper s = map upper_char s"

definition sms_text :: "(json \<Rightarrow> string) \<Rightarrow> (string, json) dict \<Rightarrow> string option" where
  "sms_text txt payload =
     (let field = (\<lambda>kv. or_none (strip (json_str txt (json_or (get_json kv ''text'') (JStr []))))) in
      case get_json payload ''sms'' of
        JList (JObj kv # _) \<Rightarrow> field kv
      | JList (x # _) \<Rightarrow> or_none (strip (json_str txt x))
      | JObj kv \<Rightarrow> field kv
      | JStr t \<Rightarrow> or_none (strip t)
      | _ \<Rightarrow> None)"

definition otp_code :: "string option \<Rightarrow> string option" where
  "otp_code t = (case t of None \<Rightarrow> None | Some s \<Rightarrow> if s = [] then None else first_code 4 8 s)"

section \<open>Purchase\<close>

definition activation_expiry :: "activation_order \<Rightarrow> datetime \<Rightarrow> datetime" where
  "activation_expiry order now = (if ao_expires order > 0 then seconds (ao_expires order) else now + minutes 2)"

definition new_activation :: "activation_order \<Rightarrow> phone_activation_origin \<Rightarrow> ref option \<Rightarrow> uuid option \<Rightarrow> datetime \<Rightarrow> db \<Rightarrow> phone_activation" where
  "new_activation order origin wid account now d =
     \<lparr>ph_id = fresh_id d, ph_provider = ''smsapp'', ph_provider_order_id = ao_id order, ph_phone_e164 = ao_phone order,
      ph_country = ao_country order, ph_service = ao_service order, ph_cost = ao_cost order, ph_status = PH_WAITING,
      ph_origin = origin, ph_platform_account_id = account, ph_workflow_id = wid, ph_expires_at = activation_expiry order now,
      ph_received_at = None, ph_used_at = None, ph_received_sms = None, ph_received_code = None, ph_last_error = None,
      ph_created_at = now, ph_updated_at = now\<rparr>"

definition by_order :: "string \<Rightarrow> db \<Rightarrow> phone_activation option result" where
  "by_order oid d = one_or_none (filter (\<lambda>p. ph_provider_order_id p = oid) (phone_activations d))"

definition set_phone :: "uuid \<Rightarrow> (phone_activation \<Rightarrow> phone_activation) \<Rightarrow> db \<Rightarrow> db" where
  "set_phone pid f d = d\<lparr>phone_activations := update_where (\<lambda>p. ph_id p = pid) f (phone_activations d)\<rparr>"

definition assign_activation :: "ref option \<Rightarrow> uuid option \<Rightarrow> phone_activation \<Rightarrow> phone_activation" where
  "assign_activation wid account p =
     p\<lparr>ph_platform_account_id := (if account = None then ph_platform_account_id p else account),
       ph_workflow_id := (if wid = None then ph_workflow_id p else wid)\<rparr>"

definition record_phone_activation :: "activation_order \<Rightarrow> phone_activation_origin \<Rightarrow> ref option \<Rightarrow> uuid option \<Rightarrow> datetime \<Rightarrow> db
    \<Rightarrow> phone_activation result \<times> db" where
  "record_phone_activation order origin wid account now =
     session (\<lambda>d. bind (by_order (ao_id order) d) (\<lambda>old.
       case old of
         Some p \<Rightarrow> Inr (assign_activation wid account p, set_phone (ph_id p) (assign_activation wid account) d)
       | None \<Rightarrow>
           (let p = new_activation order origin wid account now d in
            Inr (p, d\<lparr>phone_activations := phone_activations d @ [p], fresh_id := Suc (fresh_id d)\<rparr>))))"

definition reserve_phone_activation :: "(string \<Rightarrow> string \<Rightarrow> activation_order result) \<Rightarrow> (string \<Rightarrow> activation_order result)
    \<Rightarrow> string option \<Rightarrow> string \<Rightarrow> phone_activation_origin \<Rightarrow> ref option \<Rightarrow> datetime \<Rightarrow> db \<Rightarrow> phone_activation result \<times> db" where
  \<comment> \<open>the first two arguments are \<open>buy_number\<close> and \<open>buy_number_with_fallback\<close>\<close>
  "reserve_phone_activation buy buy_any country service origin wid now d =
     (case (case country of None \<Rightarrow> buy_any service | Some c \<Rightarrow> if c = [] then buy_any service else buy c service) of
        Inl e \<Rightarrow> (Inl e, d)
      | Inr order \<Rightarrow> record_phone_activation order origin wid None now d)"

section \<open>Refresh and cancellation\<close>

definition apply_state :: "string \<Rightarrow> string option \<Rightarrow> datetime \<Rightarrow> phone_activation \<Rightarrow> phone_activation" where
  \<comment> \<open>what the provider's status and text change in the row\<close>
  "apply_state st body now p =
     (if st = ''RECEIVED'' \<and> body \<noteq> None
      then p\<lparr>ph_status := PH_RECEIVED, ph_received_sms := body, ph_received_code := otp_code body,
             ph_received_at := Some now, ph_last_error := None, ph_updated_at := now\<rparr>
      else if st = ''CANCELLED'' \<or> st = ''CANCELED'' then p\<lparr>ph_status := PH_CANCELLED, ph_updated_at := now\<rparr>
      else if st = ''EXPIRED'' \<or> st = ''TIMEOUT'' then p\<lparr>ph_status := PH_EXPIRED, ph_updated_at := now\<rparr>
      else if st = ''REFUNDED'' then p\<lparr>ph_status := PH_REFUNDED, ph_updated_at := now\<rparr>
      else p\<lparr>ph_updated_at := now\<rparr>)"

definition provider_update :: "(json \<Rightarrow> string) \<Rightarrow> (string, json) dict \<Rightarrow> datetime \<Rightarrow> phone_activation \<Rightarrow> phone_activation" where
  "provider_update txt payload now p =
     apply_state (upper (json_str txt (json_or (get_json payload ''status'') (JStr [])))) (sms_text txt payload) now p"

definition refresh_row :: "(json \<Rightarrow> string) \<Rightarrow> (string \<Rightarrow> (string, json) dict result) \<Rightarrow> datetime \<Rightarrow> phone_activation \<Rightarrow> phone_activation" where
  "refresh_row txt provider now p =
     (if ph_status p \<in> set TERMINAL_STATUSES \<or> ph_status p = PH_RECEIVED then p
      else if ph_expires_at p \<le> now then p\<lparr>ph_status := PH_EXPIRED, ph_updated_at := now\<rparr>
      else case provider (ph_provider_order_id p) of
        Inl e \<Rightarrow> p\<lparr>ph_last_error := Some (sanitize_error e), ph_updated_at := now\<rparr>
      | Inr payload \<Rightarrow> provider_update txt payload now p)"

definition on_phone :: "uuid \<Rightarrow> (phone_activation \<Rightarrow> phone_activation) \<Rightarrow> db \<Rightarrow> phone_activation result \<times> db" where
  \<comment> \<open>\<open>db.get\<close>, \<open>LookupError\<close> when there is no row, and the assignments to the row\<close>
  "on_phone pid f =
     session (\<lambda>d. case find_row (\<lambda>p. ph_id p = pid) (phone_activations d) of
        None \<Rightarrow> Inl (LookupError ''phone_activation_not_found'')
      | Some p \<Rightarrow> Inr (f p, set_phone pid f d))"

definition refresh_phone_activation :: "(json \<Rightarrow> string) \<Rightarrow> (string \<Rightarrow> (string, json) dict result) \<Rightarrow> datetime \<Rightarrow> uuid \<Rightarrow> db
    \<Rightarrow> phone_activation result \<times> db" where
  "refresh_phone_activation txt provider now pid = on_phone pid (refresh_row txt provider now)"

definition cancel_row :: "(string \<Rightarrow> bool result) \<Rightarrow> datetime \<Rightarrow> phone_activation \<Rightarrow> phone_activation" where
  "cancel_row provider now p =
     (if ph_status p \<in> set TERMINAL_STATUSES then p
      else case provider (ph_provider_order_id p) of
        Inl e \<Rightarrow> p\<lparr>ph_last_error := Some (sanitize_error e), ph_updated_at := now\<rparr>
      | Inr cancelled \<Rightarrow>
          if cancelled then p\<lparr>ph_status := PH_CANCELLED, ph_last_error := None, ph_updated_at := now\<rparr>
          else p\<lparr>ph_last_error := Some ''provider_cancellation_rejected'', ph_updated_at := now\<rparr>)"

definition cancel_phone_activation :: "(string \<Rightarrow> bool result) \<Rightarrow> datetime \<Rightarrow> uuid \<Rightarrow> db \<Rightarrow> phone_activation result \<times> db" where
  "cancel_phone_activation provider now pid = on_phone pid (cancel_row provider now)"

section \<open>The marks of the account creation\<close>

definition link_phone_activation :: "string \<Rightarrow> uuid \<Rightarrow> db \<Rightarrow> phone_activation result \<times> db" where
  "link_phone_activation oid account =
     session (\<lambda>d. bind (by_order oid d) (\<lambda>found.
       case found of
         None \<Rightarrow> Inl (LookupError ''phone_activation_not_found'')
       | Some p \<Rightarrow> Inr (p\<lparr>ph_platform_account_id := Some account\<rparr>,
                      set_phone (ph_id p) (\<lambda>p. p\<lparr>ph_platform_account_id := Some account\<rparr>) d)))"

definition on_order :: "string \<Rightarrow> (phone_activation \<Rightarrow> phone_activation) \<Rightarrow> db \<Rightarrow> unit result \<times> db" where
  \<comment> \<open>the assignments to the row of an order, if there is one\<close>
  "on_order oid f =
     session (\<lambda>d. bind (by_order oid d) (\<lambda>found.
       case found of None \<Rightarrow> Inr ((), d) | Some p \<Rightarrow> Inr ((), set_phone (ph_id p) f d)))"

definition mark_phone_activation_received :: "string \<Rightarrow> string \<Rightarrow> string option \<Rightarrow> datetime \<Rightarrow> db \<Rightarrow> unit result \<times> db" where
  "mark_phone_activation_received oid code body now =
     on_order oid (\<lambda>p. p\<lparr>ph_status := PH_RECEIVED, ph_received_code := Some code,
       ph_received_sms := (case body of None \<Rightarrow> ph_received_sms p | Some t \<Rightarrow> if t = [] then ph_received_sms p else Some t),
       ph_received_at := Some now\<rparr>)"

definition mark_phone_activation_used :: "string \<Rightarrow> datetime \<Rightarrow> db \<Rightarrow> unit result \<times> db" where
  "mark_phone_activation_used oid now = on_order oid (\<lambda>p. p\<lparr>ph_status := PH_USED, ph_used_at := Some now\<rparr>)"

section \<open>Reconciliation\<close>

record phone_reconciled =
  pr_checked :: nat
  pr_expired :: nat
  pr_received :: nat

definition active_phones :: "nat \<Rightarrow> db \<Rightarrow> phone_activation list" where
  "active_phones limit d =
     page limit 0 (newest_first ph_created_at (filter (\<lambda>p. ph_status p \<in> set ACTIVE_STATUSES) (phone_activations d)))"

definition expire_due :: "datetime \<Rightarrow> phone_activation list \<Rightarrow> db \<Rightarrow> db" where
  \<comment> \<open>the first session: the rows read that are past their time\<close>
  "expire_due now rows d =
     d\<lparr>phone_activations := update_where (\<lambda>p. p \<in> set rows \<and> ph_expires_at p \<le> now) (\<lambda>p. p\<lparr>ph_status := PH_EXPIRED\<rparr>)
          (phone_activations d)\<rparr>"

fun refresh_each :: "(json \<Rightarrow> string) \<Rightarrow> (string \<Rightarrow> (string, json) dict result) \<Rightarrow> (nat \<Rightarrow> datetime) \<Rightarrow> nat \<Rightarrow> uuid list \<Rightarrow> db
    \<Rightarrow> nat result \<times> db" where
  \<comment> \<open>the refreshes, each in its own session; the result counts the numbers that have received\<close>
  "refresh_each txt provider clock i [] d = (Inr 0, d)"
| "refresh_each txt provider clock i (pid # pids) d =
     (case refresh_phone_activation txt provider (clock i) pid d of
        (Inl e, d1) \<Rightarrow> (Inl e, d1)
      | (Inr p, d1) \<Rightarrow>
          (case refresh_each txt provider clock (Suc i) pids d1 of
             (Inl e, d2) \<Rightarrow> (Inl e, d2)
           | (Inr n, d2) \<Rightarrow> (Inr ((if ph_status p = PH_RECEIVED then 1 else 0) + n), d2)))"

definition reconcile_phone_activations :: "(json \<Rightarrow> string) \<Rightarrow> (string \<Rightarrow> (string, json) dict result) \<Rightarrow> (nat \<Rightarrow> datetime) \<Rightarrow> datetime
    \<Rightarrow> nat \<Rightarrow> db \<Rightarrow> phone_reconciled result \<times> db" where
  \<comment> \<open>\<open>clock i\<close> is the instant of the refresh number \<open>i\<close>\<close>
  "reconcile_phone_activations txt provider clock now limit d =
     (let rows = active_phones limit d;
          due = filter (\<lambda>p. ph_expires_at p \<le> now) rows;
          live = filter (\<lambda>p. \<not> ph_expires_at p \<le> now) rows in
      case refresh_each txt provider clock 0 (map ph_id live) (expire_due now rows d) of
        (Inl e, d1) \<Rightarrow> (Inl e, d1)
      | (Inr n, d1) \<Rightarrow> (Inr \<lparr>pr_checked = length rows, pr_expired = length due, pr_received = n\<rparr>, d1))"

section \<open>Views\<close>

definition given :: "string option \<Rightarrow> (string \<Rightarrow> bool) \<Rightarrow> bool" where
  \<comment> \<open>a filter that applies when its argument is given and not empty\<close>
  "given x P = (case x of None \<Rightarrow> True | Some t \<Rightarrow> t = [] \<or> P t)"

definition list_phone_activations :: "string option \<Rightarrow> string option \<Rightarrow> nat \<Rightarrow> nat \<Rightarrow> db \<Rightarrow> phone_activation list \<times> nat" where
  "list_phone_activations st query limit offset d =
     (let found = filter (\<lambda>p. given st (\<lambda>t. phone_activation_status_value (ph_status p) = t)
            \<and> given query (\<lambda>q. ilike (ph_phone_e164 p) (search_pattern q) \<or> ilike (ph_provider_order_id p) (search_pattern q)
                 \<or> ilike (ph_country p) (search_pattern q))) (phone_activations d) in
      (page limit offset (newest_first ph_created_at found), length found))"

definition list_sms_messages :: "string option \<Rightarrow> string option \<Rightarrow> string option \<Rightarrow> nat \<Rightarrow> nat \<Rightarrow> db \<Rightarrow> sms_log list \<times> nat" where
  "list_sms_messages direction st query limit offset d =
     (let found = filter (\<lambda>m. given direction (\<lambda>t. sms_direction_value (sl_direction m) = t)
            \<and> given st (\<lambda>t. sms_status_value (sl_status m) = t)
            \<and> given query (\<lambda>q. ilike (sl_to_phone m) (search_pattern q) \<or> ilike (sl_body m) (search_pattern q))) (Tables.sms_log d) in
      (page limit offset (newest_first sl_sent_at found), length found))"

record phone_summary =
  sum_active :: nat
  sum_received :: nat
  sum_expiring_soon :: nat
  sum_sms_sent :: nat
  sum_sms_received :: nat
  sum_sms_failed :: nat

definition phone_operations_summary :: "datetime \<Rightarrow> db \<Rightarrow> phone_summary" where
  "phone_operations_summary now d =
     (let phones = (\<lambda>P. length (filter P (phone_activations d))); msgs = (\<lambda>P. length (filter P (Tables.sms_log d))) in
      \<lparr>sum_active = phones (\<lambda>p. ph_status p \<in> set ACTIVE_STATUSES),
       sum_received = phones (\<lambda>p. ph_status p = PH_RECEIVED),
       sum_expiring_soon = phones (\<lambda>p. ph_status p \<in> set ACTIVE_STATUSES \<and> now < ph_expires_at p
          \<and> ph_expires_at p \<le> now + minutes 5),
       sum_sms_sent = msgs (\<lambda>m. sl_direction m = DIR_OUTBOUND),
       sum_sms_received = msgs (\<lambda>m. sl_direction m = DIR_INBOUND),
       sum_sms_failed = msgs (\<lambda>m. sl_status m = SMS_FAILED)\<rparr>)"

section \<open>Routes (api/phone_operations.py)\<close>

definition create_activation :: "settings \<Rightarrow> (string \<Rightarrow> string \<Rightarrow> activation_order result) \<Rightarrow> (string \<Rightarrow> activation_order result)
    \<Rightarrow> string option \<Rightarrow> string \<Rightarrow> datetime \<Rightarrow> db \<Rightarrow> phone_activation result \<times> db" where
  "create_activation s buy buy_any country service now d =
     (if smsapp_api_token s = [] then (Inl (HTTPException 503 ''SMSAPP_NOT_CONFIGURED''), d)
      else case reserve_phone_activation buy buy_any country service ORIGIN_MANUAL None now d of
        (Inl e, d1) \<Rightarrow> (Inl (HTTPException 502 ''PHONE_RESERVATION_FAILED''), d1)
      | (Inr p, d1) \<Rightarrow> (Inr p, d1))"

fun not_found :: "exn \<Rightarrow> exn" where
  "not_found (LookupError m) = HTTPException 404 ''PHONE_ACTIVATION_NOT_FOUND''"
| "not_found e = e"

definition refresh_activation :: "(json \<Rightarrow> string) \<Rightarrow> (string \<Rightarrow> (string, json) dict result) \<Rightarrow> datetime \<Rightarrow> uuid \<Rightarrow> db
    \<Rightarrow> phone_activation result \<times> db" where
  "refresh_activation txt provider now pid d = apfst (map_sum not_found id) (refresh_phone_activation txt provider now pid d)"

definition cancel_activation :: "(string \<Rightarrow> bool result) \<Rightarrow> datetime \<Rightarrow> uuid \<Rightarrow> db \<Rightarrow> phone_activation result \<times> db" where
  "cancel_activation provider now pid d = apfst (map_sum not_found id) (cancel_phone_activation provider now pid d)"

section \<open>The state machine of a number\<close>

text \<open>
  The steps that the provider drives, with any answers at any instants, as a relation on databases; a
  status moves forward only, and \<open>row_step\<close> says what every step does to a row.
\<close>

inductive provider_step :: "(json \<Rightarrow> string) \<Rightarrow> db \<Rightarrow> db \<Rightarrow> bool" for tx where
  Refresh: "provider_step tx d (snd (refresh_phone_activation tx provider now pid d))"
| Cancel: "provider_step tx d (snd (cancel_phone_activation canceller now pid d))"
| Reconcile: "provider_step tx d (snd (reconcile_phone_activations tx provider clock now limit d))"

fun status_moves :: "phone_activation_status \<Rightarrow> phone_activation_status list" where
  "status_moves PH_RESERVED = [PH_RECEIVED, PH_CANCELLED, PH_EXPIRED, PH_REFUNDED]"
| "status_moves PH_WAITING = [PH_RECEIVED, PH_CANCELLED, PH_EXPIRED, PH_REFUNDED]"
| "status_moves PH_RECEIVED = [PH_CANCELLED]"
| "status_moves _ = []"

definition phone_ok :: "phone_activation \<Rightarrow> bool" where
  "phone_ok p =
     ((ph_status p = PH_RECEIVED \<longrightarrow> ph_received_at p \<noteq> None \<and> (ph_received_sms p \<noteq> None \<or> ph_received_code p \<noteq> None))
      \<and> (ph_status p = PH_USED \<longrightarrow> ph_used_at p \<noteq> None))"

definition row_step :: "phone_activation \<Rightarrow> phone_activation \<Rightarrow> bool" where
  "row_step p q =
     (ph_id q = ph_id p \<and> ph_provider_order_id q = ph_provider_order_id p \<and> (phone_ok p \<longrightarrow> phone_ok q)
      \<and> (ph_status q = ph_status p \<or> ph_status q \<in> set (status_moves (ph_status p)))
      \<and> (ph_status p \<in> set TERMINAL_STATUSES \<longrightarrow> q = p))"

definition rows_step :: "db \<Rightarrow> db \<Rightarrow> bool" where
  "rows_step d d' = (list_all2 row_step (phone_activations d) (phone_activations d') \<and> fresh_id d' = fresh_id d)"

lemma row_step_refl [simp]: "row_step p p"
  by (simp add: row_step_def)

lemma status_moves_trans:
  "s2 = s1 \<or> s2 \<in> set (status_moves s1) \<Longrightarrow> s3 = s2 \<or> s3 \<in> set (status_moves s2) \<Longrightarrow> s3 = s1 \<or> s3 \<in> set (status_moves s1)"
proof (induction s1 rule: status_moves.induct)
  case 1
  then show ?case by (simp only: status_moves.simps list.set insert_iff empty_iff simp_thms; elim disjE; simp)
next
  case 2
  then show ?case by (simp only: status_moves.simps list.set insert_iff empty_iff simp_thms; elim disjE; simp)
next
  case 3
  then show ?case by (simp only: status_moves.simps list.set insert_iff empty_iff simp_thms; elim disjE; simp)
qed simp_all

lemma row_stepD:
  assumes "row_step p q"
  shows "ph_id q = ph_id p" "ph_provider_order_id q = ph_provider_order_id p" "phone_ok p \<Longrightarrow> phone_ok q"
    "ph_status q = ph_status p \<or> ph_status q \<in> set (status_moves (ph_status p))"
    "ph_status p \<in> set TERMINAL_STATUSES \<Longrightarrow> q = p"
  using assms unfolding row_step_def by blast+

lemma row_step_trans:
  assumes pq: "row_step p q" and qr: "row_step q r"
  shows "row_step p r"
  unfolding row_step_def
proof (intro conjI impI)
  show "ph_id r = ph_id p" by (rule trans [OF row_stepD(1) [OF qr] row_stepD(1) [OF pq]])
  show "ph_provider_order_id r = ph_provider_order_id p" by (rule trans [OF row_stepD(2) [OF qr] row_stepD(2) [OF pq]])
  show "phone_ok r" if "phone_ok p" by (rule row_stepD(3) [OF qr row_stepD(3) [OF pq that]])
  show "ph_status r = ph_status p \<or> ph_status r \<in> set (status_moves (ph_status p))"
    by (rule status_moves_trans [OF row_stepD(4) [OF pq] row_stepD(4) [OF qr]])
  show "r = p" if t: "ph_status p \<in> set TERMINAL_STATUSES"
  proof -
    have "q = p" by (rule row_stepD(5) [OF pq t])
    then show "r = p" using row_stepD(5) [OF qr] t by simp
  qed
qed

lemma rows_step_refl [simp]: "rows_step d d"
  by (simp add: rows_step_def list_all2_same)

lemma rows_step_trans: "rows_step d d1 \<Longrightarrow> rows_step d1 d2 \<Longrightarrow> rows_step d d2"
  unfolding rows_step_def using list_all2_trans [where ?P1.0 = row_step and ?P2.0 = row_step and ?P3.0 = row_step]
  by (auto intro: row_step_trans)

lemma update_rows_step:
  "(\<And>p. p \<in> set t \<Longrightarrow> P p \<Longrightarrow> row_step p (f p)) \<Longrightarrow> list_all2 row_step t (update_where P f t)"
  by (simp add: update_where_def list_all2_conv_all_nth)

lemma set_phone_step: "(\<And>p. row_step p (f p)) \<Longrightarrow> rows_step d (set_phone pid f d)"
  by (simp add: rows_step_def set_phone_def update_rows_step)

lemma on_phone_step: "(\<And>p. row_step p (f p)) \<Longrightarrow> rows_step d (snd (on_phone pid f d))"
  by (auto simp: on_phone_def session_def set_phone_step split: option.splits)

lemma row_step_active:
  assumes "ph_status p \<in> set ACTIVE_STATUSES" "ph_id q = ph_id p" "ph_provider_order_id q = ph_provider_order_id p"
    "ph_status q = ph_status p \<or> ph_status q \<in> {PH_CANCELLED, PH_EXPIRED, PH_REFUNDED}
     \<or> ph_status q = PH_RECEIVED \<and> ph_received_at q \<noteq> None \<and> ph_received_sms q \<noteq> None"
  shows "row_step p q"
  using assms by (cases "ph_status p") (auto simp: row_step_def ACTIVE_STATUSES_def TERMINAL_STATUSES_def phone_ok_def)

lemma apply_state_step:
  assumes "ph_status p \<in> set ACTIVE_STATUSES"
  shows "row_step p (apply_state st body now p)"
proof -
  have cancelled: "row_step p (p\<lparr>ph_status := PH_CANCELLED, ph_updated_at := now\<rparr>)"
    and expired: "row_step p (p\<lparr>ph_status := PH_EXPIRED, ph_updated_at := now\<rparr>)"
    and refunded: "row_step p (p\<lparr>ph_status := PH_REFUNDED, ph_updated_at := now\<rparr>)"
    using assms by (intro row_step_active; simp)+
  have got: "row_step p (p\<lparr>ph_status := PH_RECEIVED, ph_received_sms := body, ph_received_code := otp_code body,
      ph_received_at := Some now, ph_last_error := None, ph_updated_at := now\<rparr>)" if "body \<noteq> None"
    using assms that by (intro row_step_active) simp_all
  have same: "row_step p (p\<lparr>ph_updated_at := now\<rparr>)"
    using assms by (intro row_step_active) simp_all
  show ?thesis unfolding apply_state_def by (simp add: cancelled expired refunded got same)
qed

lemma refresh_row_step: "row_step p (refresh_row txt provider now p)"
proof (cases "ph_status p \<in> set ACTIVE_STATUSES")
  case True
  have expired: "row_step p (p\<lparr>ph_status := PH_EXPIRED, ph_updated_at := now\<rparr>)"
    using True by (intro row_step_active) simp_all
  have failed: "row_step p (p\<lparr>ph_last_error := e, ph_updated_at := now\<rparr>)" for e
    using True by (intro row_step_active) simp_all
  show ?thesis
    using expired failed apply_state_step [OF True] unfolding refresh_row_def provider_update_def
    by (simp split: if_split sum.split)
next
  case False
  then have "refresh_row txt provider now p = p"
    by (cases "ph_status p") (simp_all add: refresh_row_def ACTIVE_STATUSES_def TERMINAL_STATUSES_def)
  then show ?thesis by simp
qed

lemma cancel_row_step: "row_step p (cancel_row provider now p)"
  by (cases "ph_status p") (auto simp: cancel_row_def row_step_def TERMINAL_STATUSES_def phone_ok_def split: sum.splits)

lemma refresh_each_step: "rows_step d (snd (refresh_each txt provider clock i pids d))"
proof (induction pids arbitrary: i d)
  case Nil
  then show ?case by simp
next
  case (Cons pid pids)
  have "rows_step d (snd (refresh_phone_activation txt provider (clock i) pid d))"
    by (simp add: refresh_phone_activation_def on_phone_step refresh_row_step)
  with Cons show ?case
    by (auto split: prod.splits sum.splits intro: rows_step_trans) (metis rows_step_trans snd_conv)+
qed

lemma expire_due_step: "set rows \<subseteq> {p. ph_status p \<in> set ACTIVE_STATUSES} \<Longrightarrow> rows_step d (expire_due now rows d)"
  unfolding rows_step_def expire_due_def
  by (auto intro!: update_rows_step simp: row_step_def ACTIVE_STATUSES_def TERMINAL_STATUSES_def phone_ok_def dest!: subsetD)

lemma active_phones_active: "set (active_phones limit d) \<subseteq> {p. ph_status p \<in> set ACTIVE_STATUSES} \<inter> set (phone_activations d)"
  unfolding active_phones_def using set_page by fastforce

lemma provider_step_rows: "provider_step txt d d' \<Longrightarrow> rows_step d d'"
proof (induction rule: provider_step.induct)
  case (Refresh d provider now pid)
  show ?case by (simp add: refresh_phone_activation_def on_phone_step refresh_row_step)
next
  case (Cancel d canceller now pid)
  show ?case by (simp add: cancel_phone_activation_def on_phone_step cancel_row_step)
next
  case (Reconcile d provider clock now limit)
  have "rows_step d (expire_due now (active_phones limit d) d)"
    using active_phones_active by (intro expire_due_step) blast
  then have "rows_step d (snd (refresh_each txt provider clock 0 pids (expire_due now (active_phones limit d) d)))" for pids
    using refresh_each_step rows_step_trans by blast
  then show ?case
    by (auto simp: reconcile_phone_activations_def Let_def split: prod.splits sum.splits) (metis snd_conv)+
qed

section \<open>Well-typed tables\<close>

definition phones_typed :: "db \<Rightarrow> bool" where
  "phones_typed d =
     (distinct (map ph_id (phone_activations d)) \<and> distinct (map ph_provider_order_id (phone_activations d))
      \<and> (\<forall>p\<in>set (phone_activations d). ph_id p < fresh_id d \<and> phone_ok p))"

lemma rows_step_maps:
  "list_all2 row_step t u \<Longrightarrow> map ph_id u = map ph_id t \<and> map ph_provider_order_id u = map ph_provider_order_id t"
  by (induction rule: list_all2_induct) (auto dest: row_stepD)

lemma rows_step_typed:
  assumes "rows_step d d'" "phones_typed d"
  shows "phones_typed d'"
proof -
  from assms(1) have l: "list_all2 row_step (phone_activations d) (phone_activations d')" and f: "fresh_id d' = fresh_id d"
    by (simp_all add: rows_step_def)
  have "ph_id q < fresh_id d \<and> phone_ok q" if "q \<in> set (phone_activations d')" for q
  proof -
    from that l obtain p where "p \<in> set (phone_activations d)" "row_step p q"
      by (metis in_set_conv_nth list_all2_conv_all_nth)
    with assms(2) show ?thesis by (auto simp: phones_typed_def dest: row_stepD)
  qed
  with assms(2) rows_step_maps [OF l] f show ?thesis by (simp add: phones_typed_def)
qed

lemma set_phone_typed:
  assumes "phones_typed d" "\<And>p. ph_id (f p) = ph_id p \<and> ph_provider_order_id (f p) = ph_provider_order_id p \<and> (phone_ok p \<longrightarrow> phone_ok (f p))"
  shows "phones_typed (set_phone pid f d)"
  using assms map_update_where [of ph_id f] map_update_where [of ph_provider_order_id f]
  by (auto simp: phones_typed_def set_phone_def set_update_where)

lemma by_order_None: "by_order oid d = Inr None \<Longrightarrow> oid \<notin> ph_provider_order_id ` set (phone_activations d)"
  by (auto simp: by_order_def one_or_none_def filter_empty_conv split: list.splits)

lemma by_order_Some: "by_order oid d = Inr (Some p) \<Longrightarrow> p \<in> set (phone_activations d) \<and> ph_provider_order_id p = oid"
proof -
  assume "by_order oid d = Inr (Some p)"
  then have "filter (\<lambda>p. ph_provider_order_id p = oid) (phone_activations d) = [p]"
    by (auto simp: by_order_def one_or_none_def split: list.splits)
  then have "p \<in> set (filter (\<lambda>p. ph_provider_order_id p = oid) (phone_activations d))" by simp
  then show ?thesis by simp
qed

lemma on_order_typed:
  assumes "phones_typed d" "\<And>p. ph_id (f p) = ph_id p \<and> ph_provider_order_id (f p) = ph_provider_order_id p \<and> (phone_ok p \<longrightarrow> phone_ok (f p))"
  shows "phones_typed (snd (on_order oid f d))"
proof (cases "by_order oid d")
  case (Inr found)
  then show ?thesis using assms by (cases found) (simp_all add: on_order_def session_def set_phone_typed)
qed (use assms in \<open>simp add: on_order_def session_def\<close>)

lemma record_typed:
  assumes "phones_typed d"
  shows "phones_typed (snd (record_phone_activation order origin wid account now d))"
proof (cases "by_order (ao_id order) d")
  case (Inl e)
  with assms show ?thesis by (simp add: record_phone_activation_def session_def)
next
  case (Inr found)
  show ?thesis
  proof (cases found)
    case (Some p)
    with Inr show ?thesis using assms
      by (simp add: record_phone_activation_def session_def)
        (rule set_phone_typed, auto simp: assign_activation_def phone_ok_def)
  next
    case None
    with Inr have "ao_id order \<notin> ph_provider_order_id ` set (phone_activations d)" by (auto dest: by_order_None)
    with Inr None show ?thesis using assms
      by (auto simp: record_phone_activation_def session_def Let_def phones_typed_def new_activation_def phone_ok_def less_Suc_eq)
  qed
qed

lemma link_typed: "phones_typed d \<Longrightarrow> phones_typed (snd (link_phone_activation oid account d))"
proof (cases "by_order oid d")
  case (Inr found)
  then show "phones_typed d \<Longrightarrow> ?thesis"
    by (cases found) (auto simp: link_phone_activation_def session_def phone_ok_def intro!: set_phone_typed)
qed (simp add: link_phone_activation_def session_def)

text \<open>Everything the service does to the table.\<close>

inductive phone_step :: "(json \<Rightarrow> string) \<Rightarrow> db \<Rightarrow> db \<Rightarrow> bool" for tx where
  Provider: "provider_step tx d d' \<Longrightarrow> phone_step tx d d'"
| Record: "phone_step tx d (snd (record_phone_activation order origin wid account now d))"
| Link: "phone_step tx d (snd (link_phone_activation oid account d))"
| Received: "phone_step tx d (snd (mark_phone_activation_received oid code body now d))"
| Used: "phone_step tx d (snd (mark_phone_activation_used oid now d))"

lemma phone_step_typed: "phone_step tx d d' \<Longrightarrow> phones_typed d \<Longrightarrow> phones_typed d'"
proof (induction rule: phone_step.induct)
  case (Provider d d')
  then show ?case using provider_step_rows rows_step_typed by blast
next
  case (Received d oid code body now)
  then show ?case unfolding mark_phone_activation_received_def
    by (intro on_order_typed) (auto simp: phone_ok_def)
next
  case (Used d oid now)
  then show ?case unfolding mark_phone_activation_used_def
    by (intro on_order_typed) (auto simp: phone_ok_def)
qed (simp_all add: record_typed link_typed)

section \<open>Properties\<close>

text \<open>
  The provider only moves numbers forward, and a finished number stays as it is. Whatever the
  provider answers, and in whatever order numbers are refreshed, cancelled and reconciled, rows keep
  their place and identity, a status only moves along \<open>status_moves\<close> (from reserved or waiting to
  received, cancelled, expired or refunded, and from received to cancelled), and the row of a used,
  cancelled, expired, refunded or failed number does not change in any column.
\<close>

theorem finished_numbers_stay:
  assumes "(provider_step tx)\<^sup>*\<^sup>* d d'"
  shows "list_all2 (\<lambda>p q. ph_id q = ph_id p \<and> ph_provider_order_id q = ph_provider_order_id p
      \<and> (ph_status q = ph_status p \<or> ph_status q \<in> set (status_moves (ph_status p)))
      \<and> (ph_status p \<in> set TERMINAL_STATUSES \<longrightarrow> q = p)) (phone_activations d) (phone_activations d')"
proof -
  from assms have "rows_step d d'"
    by (induction rule: rtranclp_induct) (auto intro: rows_step_trans provider_step_rows)
  then have "list_all2 row_step (phone_activations d) (phone_activations d')" by (simp add: rows_step_def)
  then show ?thesis by (rule list_all2_mono) (auto dest: row_stepD)
qed

definition demo_phone :: "phone_activation_status \<Rightarrow> phone_activation" where
  "demo_phone st = \<lparr>ph_id = 1, ph_provider = ''smsapp'', ph_provider_order_id = ''o1'', ph_phone_e164 = ''+33600000001'',
     ph_country = ''fr'', ph_service = ''leboncoin'', ph_cost = 0, ph_status = st, ph_origin = ORIGIN_MANUAL,
     ph_platform_account_id = None, ph_workflow_id = None, ph_expires_at = 100, ph_received_at = None, ph_used_at = None,
     ph_received_sms = None, ph_received_code = None, ph_last_error = None, ph_created_at = 0, ph_updated_at = 0\<rparr>"

definition demo_phone_db :: "phone_activation_status \<Rightarrow> db" where
  "demo_phone_db st = empty_db\<lparr>phone_activations := [demo_phone st], fresh_id := 2\<rparr>"

lemma finished_numbers_stay_witness:
  "(provider_step (\<lambda>j. []))\<^sup>*\<^sup>* (demo_phone_db PH_CANCELLED)
      (snd (cancel_phone_activation (\<lambda>oid. Inr True) 5 1 (demo_phone_db PH_CANCELLED)))
   \<and> phone_activations (snd (cancel_phone_activation (\<lambda>oid. Inr True) 5 1 (demo_phone_db PH_CANCELLED))) = [demo_phone PH_CANCELLED]"
proof -
  let ?d = "demo_phone_db PH_CANCELLED"
  have step: "(provider_step (\<lambda>j. []))\<^sup>*\<^sup>* ?d (snd (cancel_phone_activation (\<lambda>oid. Inr True) 5 1 ?d))"
    by (rule r_into_rtranclp) (rule provider_step.Cancel)
  have d: "phone_activations ?d = [demo_phone PH_CANCELLED]" "ph_status (demo_phone PH_CANCELLED) \<in> set TERMINAL_STATUSES"
    by (simp_all add: demo_phone_db_def demo_phone_def TERMINAL_STATUSES_def)
  have "phone_activations (snd (cancel_phone_activation (\<lambda>oid. Inr True) 5 1 ?d)) = [demo_phone PH_CANCELLED]"
    using finished_numbers_stay [OF step] d by (auto simp: list_all2_Cons1)
  with step show ?thesis by blast
qed

text \<open>
  The table of numbers is well-typed in every reachable state. Purchases, refreshes,
  cancellations, reconciliations and the marks of the account creation, in any order, keep ids and
  provider orders unique; a received number has the instant and the text or the code it received, and
  a used number the instant of its use.
\<close>

theorem phone_table_typed:
  assumes "phones_typed d" "(phone_step tx)\<^sup>*\<^sup>* d d'"
  shows "phones_typed d'"
  using assms(2,1) by (induction rule: rtranclp_induct) (auto intro: phone_step_typed)

lemma phone_table_typed_witness:
  "phones_typed (snd (mark_phone_activation_received ''o1'' ''1234'' None 7 (demo_phone_db PH_WAITING)))"
proof -
  have "phones_typed (demo_phone_db PH_WAITING)"
    by (simp add: phones_typed_def demo_phone_db_def demo_phone_def phone_ok_def)
  moreover have "(phone_step (\<lambda>j. []))\<^sup>*\<^sup>* (demo_phone_db PH_WAITING)
      (snd (mark_phone_activation_received ''o1'' ''1234'' None 7 (demo_phone_db PH_WAITING)))"
    by (rule r_into_rtranclp) (rule phone_step.Received)
  ultimately show ?thesis by (rule phone_table_typed)
qed

text \<open>
  A late code reopens a finished number. The marks of the account creation look at no status: a
  code that arrives for a number that was cancelled, refunded or has expired makes it received again,
  so that it counts as a live number and can be cancelled a second time.
\<close>

theorem late_code_reopens_number:
  assumes "phones_typed d" "p \<in> set (phone_activations d)" "ph_status p \<in> set TERMINAL_STATUSES"
    and "d' = snd (mark_phone_activation_received (ph_provider_order_id p) code None now d)"
  shows "\<exists>q\<in>set (phone_activations d'). ph_id q = ph_id p \<and> ph_status q = PH_RECEIVED \<and> ph_received_code q = Some code
    \<and> PH_CANCELLED \<in> set (status_moves (ph_status q))"
proof -
  have "filter (\<lambda>r. ph_provider_order_id r = ph_provider_order_id p) (phone_activations d) = [p]"
    using assms(1,2) by (intro filter_key_unique) (simp_all add: phones_typed_def)
  then have "by_order (ph_provider_order_id p) d = Inr (Some p)" by (simp add: by_order_def one_or_none_def)
  then have "phone_activations d' = update_where (\<lambda>r. ph_id r = ph_id p)
      (\<lambda>p. p\<lparr>ph_status := PH_RECEIVED, ph_received_code := Some code, ph_received_at := Some now\<rparr>) (phone_activations d)"
    by (simp add: assms(4) mark_phone_activation_received_def on_order_def session_def set_phone_def)
  then have "p\<lparr>ph_status := PH_RECEIVED, ph_received_code := Some code, ph_received_at := Some now\<rparr> \<in> set (phone_activations d')"
    using assms(2) by (force simp: set_update_where)
  then show ?thesis by (rule bexI [rotated]) simp
qed

lemma late_code_reopens_number_witness:
  "\<exists>q\<in>set (phone_activations (snd (mark_phone_activation_received ''o1'' ''1234'' None 7 (demo_phone_db PH_CANCELLED)))).
     ph_status q = PH_RECEIVED"
proof -
  have 1: "phones_typed (demo_phone_db PH_CANCELLED)"
    by (simp add: phones_typed_def demo_phone_db_def demo_phone_def phone_ok_def)
  have 2: "demo_phone PH_CANCELLED \<in> set (phone_activations (demo_phone_db PH_CANCELLED))" by (simp add: demo_phone_db_def)
  have 3: "ph_status (demo_phone PH_CANCELLED) \<in> set TERMINAL_STATUSES" by (simp add: demo_phone_def TERMINAL_STATUSES_def)
  have "ph_provider_order_id (demo_phone PH_CANCELLED) = ''o1''" by (simp add: demo_phone_def)
  with late_code_reopens_number [OF 1 2 3 refl, of "''1234''" 7] show ?thesis by auto
qed

text \<open>
  What a provider that raises leaves in the table is a function of the redacted text of its error.
\<close>

lemma error_text_only:
  assumes "sanitize_error e' = sanitize_error e" "provider oid = Inl e" "canceller oid = Inl e"
  shows "refresh_row tx (provider(oid := Inl e')) now = refresh_row tx provider now"
    and "cancel_row (canceller(oid := Inl e')) now = cancel_row canceller now"
  using assms by (auto simp: refresh_row_def cancel_row_def fun_eq_iff)

lemma refresh_each_cong:
  assumes "\<And>now. refresh_row tx f now = refresh_row tx g now"
  shows "refresh_each tx f clock i pids d = refresh_each tx g clock i pids d"
proof (induction pids arbitrary: i d)
  case (Cons pid pids)
  have "refresh_phone_activation tx f (clock i) pid = refresh_phone_activation tx g (clock i) pid"
    by (simp add: refresh_phone_activation_def assms)
  then show ?case by (simp add: Cons.IH cong: sum.case_cong)
qed simp

text \<open>
  C35. A bearer token in a provider's error leaves no trace in the table of numbers. When the error of a
  refresh, a cancellation or a reconciliation names a token (the word in small or capital letters,
  white space, a run of token characters that the next character ends), the replies and the whole
  database are the same for every other token and every other spelling of the word in its place: a
  live number keeps its status and gets the first five hundred characters of the message with
  \<open>Bearer [redacted]\<close> for the word and the token, and nothing of the shape of a token is left in
  them. What stands before the token must not end in a token of its own that would swallow the word:
  of \<open>Bearer bearer abc\<close> the last word is stored. Only this table is redacted so.
\<close>

theorem stored_errors_are_redacted:
  assumes e: "exn_str e = u @ w @ g @ t @ v" "bearer_word w" "blanks g" "token_run t" "t \<noteq> []"
    and e': "exn_str e' = u @ w' @ g' @ t' @ v" "bearer_word w'" "blanks g'" "token_run t'" "t' \<noteq> []"
    and ends: "\<not> open_token u" "v = [] \<or> hd v \<notin> set token_letters"
    and raises: "provider oid = Inl e" "canceller oid = Inl e"
    and live: "ph_provider_order_id p = oid" "ph_status p \<in> set ACTIVE_STATUSES" "now < ph_expires_at p"
  shows "refresh_phone_activation tx (provider(oid := Inl e')) now pid d = refresh_phone_activation tx provider now pid d
    \<and> cancel_phone_activation (canceller(oid := Inl e')) now pid d = cancel_phone_activation canceller now pid d
    \<and> reconcile_phone_activations tx (provider(oid := Inl e')) clock now limit d
        = reconcile_phone_activations tx provider clock now limit d
    \<and> (\<exists>m. refresh_row tx provider now p = p\<lparr>ph_last_error := Some m, ph_updated_at := now\<rparr>
        \<and> cancel_row canceller now p = p\<lparr>ph_last_error := Some m, ph_updated_at := now\<rparr> \<and> length m \<le> 500
        \<and> (\<forall>a x y z b. m = a @ x @ y @ z @ b \<and> bearer_word x \<and> blanks y \<and> token_run z \<longrightarrow> z = [])
        \<and> ((\<forall>a x b. bearer_word x \<longrightarrow> u \<noteq> a @ x @ b \<and> v \<noteq> a @ x @ b) \<longrightarrow> m = take 500 (u @ ''Bearer [redacted]'' @ v)))"
proof -
  have red: "redact (exn_str e) = redact u @ redacted @ redact v"
    using redact_token_out [OF ends(1) e(2-5) ends(2)] e(1) by simp
  have "redact (exn_str e') = redact u @ redacted @ redact v"
    using redact_token_out [OF ends(1) e'(2-5) ends(2)] e'(1) by simp
  with red have same: "sanitize_error e' = sanitize_error e" by (simp only: sanitize_error_def)
  note rows = error_text_only [of e' e provider oid canceller, OF same raises]
  have clean: "z = []" if "sanitize_error e = a @ x @ y @ z @ b" "bearer_word x" "blanks y" "token_run z" for a x y z b
  proof (rule ccontr)
    assume "z \<noteq> []"
    have "redact (exn_str e) = a @ x @ y @ z @ (b @ drop 500 (redact (exn_str e)))"
      using that(1) append_take_drop_id [of 500 "redact (exn_str e)"] by (simp add: sanitize_error_def)
    from redact_no_token [OF this that(2-4) \<open>z \<noteq> []\<close>] show False .
  qed
  have plain: "sanitize_error e = take 500 (u @ ''Bearer [redacted]'' @ v)"
    if "\<forall>a x b. bearer_word x \<longrightarrow> u \<noteq> a @ x @ b \<and> v \<noteq> a @ x @ b"
    using redact_plain [of u] redact_plain [of v] that by (simp only: sanitize_error_def red redacted_def) metis
  have "refresh_row tx provider now p = p\<lparr>ph_last_error := Some (sanitize_error e), ph_updated_at := now\<rparr>"
    "cancel_row canceller now p = p\<lparr>ph_last_error := Some (sanitize_error e), ph_updated_at := now\<rparr>"
    using live raises by (auto simp: refresh_row_def cancel_row_def ACTIVE_STATUSES_def TERMINAL_STATUSES_def)
  moreover have "length (sanitize_error e) \<le> 500" by (simp add: sanitize_error_def)
  ultimately have "\<exists>m. refresh_row tx provider now p = p\<lparr>ph_last_error := Some m, ph_updated_at := now\<rparr>
      \<and> cancel_row canceller now p = p\<lparr>ph_last_error := Some m, ph_updated_at := now\<rparr> \<and> length m \<le> 500
      \<and> (\<forall>a x y z b. m = a @ x @ y @ z @ b \<and> bearer_word x \<and> blanks y \<and> token_run z \<longrightarrow> z = [])
      \<and> ((\<forall>a x b. bearer_word x \<longrightarrow> u \<noteq> a @ x @ b \<and> v \<noteq> a @ x @ b) \<longrightarrow> m = take 500 (u @ ''Bearer [redacted]'' @ v))"
    using clean plain by blast
  then show ?thesis
    by (simp add: refresh_phone_activation_def cancel_phone_activation_def reconcile_phone_activations_def rows
        refresh_each_cong [OF rows(1)])
qed

definition demo_refused :: "string \<Rightarrow> exn" where
  "demo_refused token = External ''HTTPStatusError'' (''401 for '' @ token @ '' at /status'')"

lemma demo_plain: "\<not> open_token ''401 for ''"
proof
  assume "open_token ''401 for ''"
  then obtain a w g t where u: "''401 for '' = a @ w @ g @ t" and w: "bearer_word w" "blanks g" by (auto simp: open_token_def)
  from bearer_word_Cons [OF w(1)] obtain c cs where c: "w = c # cs" "lower_char c = CHR ''b''" by blast
  with u have "c \<in> set ''401 for ''" by (metis append_Cons in_set_conv_decomp)
  with c(2) show False by (auto simp: lower_char_b)
qed

lemma stored_errors_are_redacted_witness:
  "ph_last_error (refresh_row (\<lambda>j. []) (\<lambda>oid. Inl (demo_refused ''BEARER abc.1'')) 5 (demo_phone PH_WAITING))
      = Some ''401 for Bearer [redacted] at /status''
   \<and> cancel_phone_activation (\<lambda>oid. Inl (demo_refused ''bearer zz~9'')) 5 1 (demo_phone_db PH_WAITING)
      = cancel_phone_activation (\<lambda>oid. Inl (demo_refused ''BEARER abc.1'')) 5 1 (demo_phone_db PH_WAITING)"
proof -
  let ?u = "''401 for ''" and ?v = "'' at /status''" and ?e = "demo_refused ''BEARER abc.1''" and ?e' = "demo_refused ''bearer zz~9''"
  have e: "exn_str ?e = ?u @ ''BEARER'' @ '' '' @ ''abc.1'' @ ?v" "exn_str ?e' = ?u @ ''bearer'' @ '' '' @ ''zz~9'' @ ?v"
    by (simp_all add: demo_refused_def)
  have s: "bearer_word ''BEARER''" "bearer_word ''bearer''" "blanks '' ''" "token_run ''abc.1''" "token_run ''zz~9''"
    "?v = [] \<or> hd ?v \<notin> set token_letters"
    by (simp_all add: bearer_word_def blanks_def is_space_def token_run_def token_letters_def)
  have no_b: "\<not> bearer_word x" if "s = a @ x @ b" "CHR ''b'' \<notin> lower_char ` set s" for s a x b
    using that bearer_word_Cons [of x] by fastforce
  have clear: "CHR ''b'' \<notin> lower_char ` set ?u" "CHR ''b'' \<notin> lower_char ` set ?v" by (auto simp: image_iff eq_commute [of "CHR ''b''"] lower_char_b)
  have plain: "\<forall>a x b. bearer_word x \<longrightarrow> ?u \<noteq> a @ x @ b \<and> ?v \<noteq> a @ x @ b" using no_b [OF _ clear(1)] no_b [OF _ clear(2)] by metis
  let ?p = "demo_phone PH_WAITING"
  have p: "ph_provider_order_id ?p = ''o1''" "ph_status ?p \<in> set ACTIVE_STATUSES" "5 < ph_expires_at ?p"
    by (simp_all add: demo_phone_def ACTIVE_STATUSES_def)
  note all = stored_errors_are_redacted [OF e(1) s(1,3,4) _ e(2) s(2,3,5) _ demo_plain s(6), of "\<lambda>oid. Inl ?e" "''o1''" "\<lambda>oid. Inl ?e", OF _ _ _ _ p]
  have "\<exists>m. ph_last_error (refresh_row (\<lambda>j. []) (\<lambda>oid. Inl ?e) 5 ?p) = Some m \<and> m = take 500 (?u @ ''Bearer [redacted]'' @ ?v)"
    using all [of "\<lambda>j. []"] plain by auto
  moreover have "cancel_phone_activation (\<lambda>oid. Inl ?e') 5 1 (demo_phone_db PH_WAITING)
      = cancel_phone_activation ((\<lambda>oid. Inl ?e)(''o1'' := Inl ?e')) 5 1 (demo_phone_db PH_WAITING)"
    by (simp add: cancel_phone_activation_def on_phone_def session_def demo_phone_db_def demo_phone_def cancel_row_def set_phone_def
        update_where_def TERMINAL_STATUSES_def)
  ultimately show ?thesis using all [of "\<lambda>j. []" 1 "demo_phone_db PH_WAITING"] by simp
qed

end
