(* ===== verification/Scraper.thy ===== *)
theory Scraper
  imports Phone_Extractor Commands
begin

text \<open>
  The collection of listings (\<open>scraper.py\<close>): the clean-up of what a page shows, the classification of
  a blocked session, the choice of the account and the loop over the result pages of the two sources.
  The browser and the crawler are parameters that give the items of the page of a number, as the
  extraction script and schema in the source build them; \<open>json.dumps\<close> is one too. The euro sign is
  outside the model's characters. Logging and Sentry are left out.
\<close>

section \<open>Blocked sessions\<close>

definition is_datadome_blocked :: "string \<Rightarrow> bool" where
  "is_datadome_blocked message =
     (\<exists>w\<in>set [''datadome'', ''captcha'', ''verify you are human'']. contains w (lower message))"

definition classify_lbc_error :: "exn \<Rightarrow> exn" where
  "classify_lbc_error e =
     (if is_datadome_blocked (exn_str e) then External ''DataDomeBlockedError'' ''LeBonCoin blocked this session with DataDome''
      else External ''LbcScrapeError'' (''LeBonCoin scraping failed: '' @ exn_str e))"

section \<open>Listings\<close>

record raw_listing =
  rl_source :: listing_source
  rl_url :: string
  rl_title :: "string option"
  rl_price :: "int option"
  rl_km :: "int option"
  rl_location :: "string option"
  rl_phone :: "string option"
  rl_raw_data :: "string option"
  rl_make :: "string option"
  rl_model :: "string option"
  rl_year :: "int option"
  rl_fuel :: "string option"
  rl_transmission :: "string option"

definition new_raw_listing :: "listing_source \<Rightarrow> string \<Rightarrow> raw_listing" where
  \<comment> \<open>\<open>RawListing(source=..., url=...)\<close> with the defaults of the class\<close>
  "new_raw_listing source url = \<lparr>rl_source = source, rl_url = url, rl_title = None, rl_price = None, rl_km = None,
     rl_location = None, rl_phone = None, rl_raw_data = None, rl_make = None, rl_model = None, rl_year = None,
     rl_fuel = None, rl_transmission = None\<rparr>"

definition parse_digits :: "string option \<Rightarrow> int option" where
  \<comment> \<open>\<open>_parse_price\<close> and \<open>_parse_km\<close>: the digits of the text put together\<close>
  "parse_digits t =
     (case t of
        None \<Rightarrow> None
      | Some s \<Rightarrow> (let ds = filter is_digit s in if ds = [] then None else Some (int (parse_nat ds))))"

definition parse_year :: "string option \<Rightarrow> int option" where
  "parse_year raw =
     (case raw of
        None \<Rightarrow> None
      | Some s \<Rightarrow> if s = [] then None else (case py_int (take 4 s) of Inl e \<Rightarrow> None | Inr y \<Rightarrow> Some y))"

fun word_in :: "string \<Rightarrow> bool \<Rightarrow> string \<Rightarrow> bool" where
  \<comment> \<open>\<open>\b\<close>word\<open>\b\<close> in the rest of a text; the flag says that a word character is before it\<close>
  "word_in w before [] = False"
| "word_in w before (c # cs) =
     ((\<not> before \<and> prefix w (c # cs) \<and> (case drop (length w) (c # cs) of [] \<Rightarrow> True | d # _ \<Rightarrow> \<not> is_word d))
      \<or> word_in w (is_word c) cs)"

definition looks_like_meta :: "string \<Rightarrow> bool" where
  "looks_like_meta line = (contains ''EUR'' line \<or> word_in ''km'' False (lower line))"

definition is_line_break :: "char \<Rightarrow> bool" where
  "is_line_break c = (code_point c \<in> {10, 11, 12, 13, 28, 29, 30, 133})"

fun split_lines :: "string \<Rightarrow> string \<Rightarrow> string list" where
  \<comment> \<open>\<open>splitlines\<close>, up to empty lines; the accumulator holds the current line, reversed\<close>
  "split_lines acc [] = [rev acc]"
| "split_lines acc (c # cs) = (if is_line_break c then rev acc # split_lines [] cs else split_lines (c # acc) cs)"

definition pick_lbc_title :: "string \<Rightarrow> string \<Rightarrow> string option \<Rightarrow> string option" where
  "pick_lbc_title raw_title raw_text location =
     (let title = strip raw_title in
      if title \<noteq> [] \<and> \<not> looks_like_meta title \<and> Some title \<noteq> location then Some title
      else find_row (\<lambda>line. \<not> (Some line = location \<or> looks_like_meta line))
             (filter (\<lambda>l. l \<noteq> []) (map strip (split_lines [] raw_text))))"

definition non_empty :: "string \<Rightarrow> string option" where
  "non_empty s = (if s = [] then None else Some s)"

definition enrich_with_phone :: "phone_lib \<Rightarrow> raw_listing \<Rightarrow> raw_listing" where
  "enrich_with_phone lib l =
     (if (case rl_phone l of None \<Rightarrow> False | Some p \<Rightarrow> p \<noteq> []) then l
      else case rl_title l of
        None \<Rightarrow> l
      | Some t \<Rightarrow> if t = [] then l else l\<lparr>rl_phone := extract_phone lib t\<rparr>)"

section \<open>Leboncoin\<close>

record page_item =
  \<comment> \<open>what the extraction script returns for an anchor\<close>
  pi_url :: string
  pi_title :: string
  pi_price :: string
  pi_location :: string
  pi_text :: string

definition parse_lbc_item :: "phone_lib \<Rightarrow> (page_item \<Rightarrow> string) \<Rightarrow> page_item \<Rightarrow> raw_listing list" where
  "parse_lbc_item lib dumps item =
     (let url = strip (pi_url item); location = non_empty (strip (pi_location item)) in
      if url = [] then []
      else [enrich_with_phone lib ((new_raw_listing SRC_LBC url)
        \<lparr>rl_title := pick_lbc_title (pi_title item) (pi_text item) location,
         rl_price := parse_digits (Some (if pi_price item \<noteq> [] then pi_price item else pi_text item)),
         rl_location := location, rl_raw_data := Some (dumps item)\<rparr>)])"

definition parse_lbc_search_items :: "phone_lib \<Rightarrow> (page_item \<Rightarrow> string) \<Rightarrow> page_item list \<Rightarrow> raw_listing list" where
  "parse_lbc_search_items lib dumps items = concat (map (parse_lbc_item lib dumps) items)"

record scrape_params =
  sp_max_pages :: int
  sp_start_page :: int

definition bounded_pages :: "scrape_params \<Rightarrow> int" where
  "bounded_pages p = max 1 (min (sp_max_pages p) 100)"

definition page_numbers :: "scrape_params \<Rightarrow> int list" where
  \<comment> \<open>\<open>range(start_page, max_pages + 1)\<close>\<close>
  "page_numbers p = [max 1 (sp_start_page p) .. bounded_pages p]"

fun lbc_pages :: "(int \<Rightarrow> page_item list result) \<Rightarrow> int list \<Rightarrow> string list \<Rightarrow> page_item list \<Rightarrow> page_item list result" where
  \<comment> \<open>the loop over the pages, with the addresses seen and the items kept\<close>
  "lbc_pages browser [] seen raw = Inr raw"
| "lbc_pages browser (n # ns) seen raw =
     (case browser n of
        Inl e \<Rightarrow> Inl e
      | Inr items \<Rightarrow>
          (let new = filter (\<lambda>i. pi_url i \<notin> set seen) items in
           if new = [] then Inr raw else lbc_pages browser ns (map pi_url new @ seen) (raw @ new)))"

definition usable_account :: "uuid option \<Rightarrow> platform_account \<Rightarrow> bool" where
  "usable_account aid a =
     (pa_deleted_at a = None \<and> pa_status a = ACTIF \<and> pa_session_path a \<noteq> None
      \<and> (case aid of None \<Rightarrow> True | Some i \<Rightarrow> pa_id a = i))"

definition last_action :: "platform_account \<Rightarrow> bool \<times> datetime" where
  \<comment> \<open>ascending, accounts that never acted last\<close>
  "last_action a = (case pa_derniere_action a of None \<Rightarrow> (True, 0) | Some t \<Rightarrow> (False, t))"

definition earlier :: "bool \<times> datetime \<Rightarrow> bool \<times> datetime \<Rightarrow> bool" where
  "earlier x y = ((\<not> fst x \<and> fst y) \<or> (fst x = fst y \<and> snd x < snd y))"

fun least_recent :: "platform_account list \<Rightarrow> platform_account option" where
  "least_recent [] = None"
| "least_recent (a # as) =
     (case least_recent as of None \<Rightarrow> Some a
      | Some b \<Rightarrow> if earlier (last_action b) (last_action a) then Some b else Some a)"

definition scrape_account :: "uuid option \<Rightarrow> db \<Rightarrow> platform_account option" where
  "scrape_account aid d = least_recent (filter (usable_account aid) (platform_accounts d))"

definition quarantine :: "uuid \<Rightarrow> db \<Rightarrow> db" where
  "quarantine aid d =
     d\<lparr>platform_accounts := update_where (\<lambda>a. pa_id a = aid) (\<lambda>a. a\<lparr>pa_status := QUARANTAINE\<rparr>) (platform_accounts d)\<rparr>"

definition scrape_lbc :: "phone_lib \<Rightarrow> (page_item \<Rightarrow> string) \<Rightarrow> (int \<Rightarrow> page_item list result) \<Rightarrow> scrape_params \<Rightarrow> uuid option
    \<Rightarrow> db \<Rightarrow> raw_listing list result \<times> db" where
  "scrape_lbc lib dumps browser params aid d =
     (case scrape_account aid d of
        None \<Rightarrow> (Inr [], d)
      | Some account \<Rightarrow>
          (case lbc_pages browser (page_numbers params) [] [] of
             Inr raw \<Rightarrow> (Inr (parse_lbc_search_items lib dumps raw), d)
           | Inl e \<Rightarrow> (Inl (classify_lbc_error e),
                       if is_datadome_blocked (exn_str e) then quarantine (pa_id account) d else d)))"

section \<open>La Centrale\<close>

datatype lc_page = NoContent | Extracted "(string, string) dict list"

definition item_text :: "(string, string) dict \<Rightarrow> string \<Rightarrow> string" where
  "item_text item k = (case dict_get item k of None \<Rightarrow> [] | Some v \<Rightarrow> v)"

definition lc_url :: "(string, string) dict \<Rightarrow> string" where
  "lc_url item =
     (let raw = item_text item ''url'' in
      if raw \<noteq> [] \<and> \<not> prefix ''http'' raw then ''https://www.lacentrale.fr'' @ raw else raw)"

definition lc_listing :: "phone_lib \<Rightarrow> ((string, string) dict \<Rightarrow> string) \<Rightarrow> (string, string) dict \<Rightarrow> raw_listing" where
  "lc_listing lib dumps item =
     enrich_with_phone lib ((new_raw_listing SRC_LA_CENTRALE (lc_url item))
       \<lparr>rl_title := non_empty (strip (item_text item ''title'')), rl_price := parse_digits (Some (item_text item ''price'')),
        rl_km := parse_digits (Some (item_text item ''km'')), rl_location := non_empty (strip (item_text item ''location'')),
        rl_raw_data := Some (dumps item)\<rparr>)"

fun lc_items :: "phone_lib \<Rightarrow> ((string, string) dict \<Rightarrow> string) \<Rightarrow> (string, string) dict list \<Rightarrow> string list \<Rightarrow> raw_listing list
    \<Rightarrow> string list \<times> raw_listing list" where
  \<comment> \<open>the items of one page: the addresses seen and the listings so far\<close>
  "lc_items lib dumps [] seen acc = (seen, acc)"
| "lc_items lib dumps (i # is) seen acc =
     (if lc_url i = [] \<or> lc_url i \<in> set seen then lc_items lib dumps is seen acc
      else lc_items lib dumps is (lc_url i # seen) (acc @ [lc_listing lib dumps i]))"

fun lc_pages :: "phone_lib \<Rightarrow> ((string, string) dict \<Rightarrow> string) \<Rightarrow> (int \<Rightarrow> lc_page result) \<Rightarrow> int list \<Rightarrow> string list \<Rightarrow> raw_listing list
    \<Rightarrow> raw_listing list result" where
  "lc_pages lib dumps crawler [] seen acc = Inr acc"
| "lc_pages lib dumps crawler (n # ns) seen acc =
     (case crawler n of
        Inl e \<Rightarrow> Inl e
      | Inr NoContent \<Rightarrow> Inr acc
      | Inr (Extracted items) \<Rightarrow>
          (case lc_items lib dumps items seen acc of
             (seen', acc') \<Rightarrow> if length acc' = length acc then Inr acc' else lc_pages lib dumps crawler ns seen' acc'))"

definition scrape_la_centrale :: "phone_lib \<Rightarrow> ((string, string) dict \<Rightarrow> string) \<Rightarrow> (int \<Rightarrow> lc_page result) \<Rightarrow> scrape_params
    \<Rightarrow> raw_listing list result" where
  "scrape_la_centrale lib dumps crawler params = lc_pages lib dumps crawler (page_numbers params) [] []"

section \<open>Facts\<close>

text \<open>A start beyond the number of pages reads nothing.\<close>

lemma page_numbers_empty: "bounded_pages p < sp_start_page p \<Longrightarrow> page_numbers p = []"
  by (simp add: page_numbers_def)

lemma lc_items_kept: "lc_items lib dumps is seen acc = (seen', acc') \<Longrightarrow> set seen \<subseteq> set seen' \<and> (\<exists>new. acc' = acc @ new)"
  by (induction "is" arbitrary: seen acc) (force split: if_splits)+

lemma enrich_url [simp]: "rl_url (enrich_with_phone lib l) = rl_url l" "rl_source (enrich_with_phone lib l) = rl_source l"
  by (simp_all add: enrich_with_phone_def split: option.splits)

lemma lc_listing_url [simp]: "rl_url (lc_listing lib dumps i) = lc_url i"
  by (simp add: lc_listing_def new_raw_listing_def)

lemma lc_items_distinct:
  assumes "lc_items lib dumps is seen acc = (seen', acc')" "distinct (map rl_url acc)" "rl_url ` set acc \<subseteq> set seen"
  shows "distinct (map rl_url acc') \<and> rl_url ` set acc' \<subseteq> set seen'"
  using assms
proof (induction "is" arbitrary: seen acc)
  case Nil
  then show ?case by simp
next
  case (Cons i "is")
  show ?case
  proof (cases "lc_url i = [] \<or> lc_url i \<in> set seen")
    case True
    with Cons show ?thesis by auto
  next
    case False
    have "lc_items lib dumps is (lc_url i # seen) (acc @ [lc_listing lib dumps i]) = (seen', acc')"
      using Cons.prems(1) False by simp
    from Cons.IH [OF this] Cons.prems False show ?thesis by auto
  qed
qed

end
