(* ===== verification/Listing_Persistence.thy ===== *)
theory Listing_Persistence
  imports Scraper Sha256 Ledger
begin

text \<open>
  The storage of collected listings (\<open>listing_persistence.py\<close>): the fingerprint of a listing and the
  insertion with \<open>ON CONFLICT DO NOTHING\<close>, which the unique address and the unique fingerprint can
  both trigger. The clock of the transaction is a parameter. The contract \<open>ledger\<close> is interpreted on
  the insertion, with the address as the key.
\<close>

section \<open>The fingerprint\<close>

definition text_part :: "string option \<Rightarrow> string" where
  \<comment> \<open>\<open>str(value or "").strip().lower()\<close> for a text\<close>
  "text_part t = (case t of None \<Rightarrow> [] | Some s \<Rightarrow> lower (strip s))"

definition number_part :: "int option \<Rightarrow> string" where
  \<comment> \<open>the same for a number: \<open>0\<close> is false, so it reads as no number\<close>
  "number_part n = (case n of None \<Rightarrow> [] | Some i \<Rightarrow> if i = 0 then [] else str_int i)"

definition canonical_listing :: "raw_listing \<Rightarrow> string" where
  "canonical_listing l =
     join ''|'' [text_part (Some (listing_source_value (rl_source l))), text_part (rl_title l), number_part (rl_price l),
       number_part (rl_km l), text_part (rl_location l)]"

definition listing_content_hash :: "raw_listing \<Rightarrow> string" where
  "listing_content_hash l = sha256_hex (canonical_listing l)"

section \<open>The insertion\<close>

definition new_listing :: "datetime \<Rightarrow> uuid option \<Rightarrow> raw_listing \<Rightarrow> db \<Rightarrow> listing" where
  \<comment> \<open>\<open>pg_insert(Listing).values(...)\<close> with the defaults of the other columns\<close>
  "new_listing now sid l d =
     \<lparr>li_id = fresh_id d, li_source = rl_source l, li_url = rl_url l, li_content_hash = Some (listing_content_hash l),
      li_sector_id = sid, li_contact_id = None, li_title = rl_title l, li_price = rl_price l, li_km = rl_km l,
      li_location = rl_location l, li_phone = rl_phone l, li_raw_data = rl_raw_data l, li_make = rl_make l,
      li_model = rl_model l, li_year = rl_year l, li_fuel = rl_fuel l, li_transmission = rl_transmission l,
      li_price_score = None, li_market_avg_price = None, li_market_sample_size = None, li_reliability_score = None,
      li_ai_summary = None, li_known_issues_json = None, li_inspection_tips_json = None, li_negotiation_tip = None,
      li_status = LS_NOUVELLE, li_campaign_id = None, li_created_at = now, li_updated_at = now\<rparr>"

definition listing_conflict :: "raw_listing \<Rightarrow> db \<Rightarrow> bool" where
  \<comment> \<open>one of the two unique columns has the value already\<close>
  "listing_conflict l d =
     (rl_url l \<in> li_url ` set (listings d) \<or> Some (listing_content_hash l) \<in> li_content_hash ` set (listings d))"

definition add_listing :: "datetime \<Rightarrow> uuid option \<Rightarrow> raw_listing \<Rightarrow> db \<Rightarrow> db" where
  "add_listing now sid l d = d\<lparr>listings := listings d @ [new_listing now sid l d], fresh_id := Suc (fresh_id d)\<rparr>"

fun persist_each :: "datetime \<Rightarrow> uuid option \<Rightarrow> raw_listing list \<Rightarrow> db \<Rightarrow> string list \<times> db" where
  \<comment> \<open>the addresses that went in\<close>
  "persist_each now sid [] d = ([], d)"
| "persist_each now sid (l # ls) d =
     (if rl_url l = [] \<or> listing_conflict l d then persist_each now sid ls d
      else (case persist_each now sid ls (add_listing now sid l d) of (urls, d') \<Rightarrow> (rl_url l # urls, d')))"

definition persist_listings :: "datetime \<Rightarrow> uuid option \<Rightarrow> raw_listing list \<Rightarrow> db \<Rightarrow> (nat \<times> nat) \<times> db" where
  \<comment> \<open>the numbers inserted and skipped; an empty list opens no session\<close>
  "persist_listings now sid ls d =
     (case persist_each now sid ls d of (urls, d') \<Rightarrow> ((length urls, length ls - length urls), d'))"

section \<open>Facts\<close>

definition listing_keys :: "db \<Rightarrow> bool" where
  \<comment> \<open>the unique columns; several rows may have no fingerprint\<close>
  "listing_keys d =
     (distinct (map li_url (listings d)) \<and> distinct (filter (\<lambda>h. h \<noteq> None) (map li_content_hash (listings d))))"

definition only_listings :: "db \<Rightarrow> db \<Rightarrow> bool" where
  \<comment> \<open>rows are added to the table of listings, and nothing else changes\<close>
  "only_listings d d' =
     (\<exists>new. listings d' = listings d @ new \<and> (\<forall>r\<in>set new. li_status r = LS_NOUVELLE)
        \<and> d'\<lparr>listings := listings d, fresh_id := fresh_id d\<rparr> = d)"

lemma only_listings_refl [simp]: "only_listings d d"
  by (simp add: only_listings_def)

lemma only_listings_trans: "only_listings d d1 \<Longrightarrow> only_listings d1 d2 \<Longrightarrow> only_listings d d2"
  unfolding only_listings_def
proof (elim exE conjE)
  fix new new1
  assume a: "listings d1 = listings d @ new" "\<forall>r\<in>set new. li_status r = LS_NOUVELLE"
    "d1\<lparr>listings := listings d, fresh_id := fresh_id d\<rparr> = d"
    "listings d2 = listings d1 @ new1" "\<forall>r\<in>set new1. li_status r = LS_NOUVELLE"
    "d2\<lparr>listings := listings d1, fresh_id := fresh_id d1\<rparr> = d1"
  have "d2\<lparr>listings := listings d, fresh_id := fresh_id d\<rparr>
      = d2\<lparr>listings := listings d1, fresh_id := fresh_id d1\<rparr>\<lparr>listings := listings d, fresh_id := fresh_id d\<rparr>" by simp
  also have "\<dots> = d" using a(3,6) by simp
  finally have "d2\<lparr>listings := listings d, fresh_id := fresh_id d\<rparr> = d" .
  with a show "\<exists>new. listings d2 = listings d @ new \<and> (\<forall>r\<in>set new. li_status r = LS_NOUVELLE)
      \<and> d2\<lparr>listings := listings d, fresh_id := fresh_id d\<rparr> = d"
    by (intro exI [of _ "new @ new1"]) auto
qed

lemma only_listings_add: "only_listings d (add_listing now sid l d)"
  by (auto simp: only_listings_def add_listing_def new_listing_def intro!: exI [of _ "[new_listing now sid l d]"])

lemma listings_add [simp]: "listings (add_listing now sid l d) = listings d @ [new_listing now sid l d]"
  by (simp add: add_listing_def)

lemma new_listing_keys [simp]: "li_url (new_listing now sid l d) = rl_url l"
  "li_content_hash (new_listing now sid l d) = Some (listing_content_hash l)"
  by (simp_all add: new_listing_def)

lemma listing_keys_add: "listing_keys d \<Longrightarrow> \<not> listing_conflict l d \<Longrightarrow> listing_keys (add_listing now sid l d)"
  by (auto simp: listing_keys_def listing_conflict_def)

lemma listing_conflict_add [simp]: "listing_conflict l d \<Longrightarrow> listing_conflict l (add_listing now sid k d)"
  by (auto simp: listing_conflict_def)

lemma listing_conflict_self [simp]: "listing_conflict l (add_listing now sid l d)"
  by (simp add: listing_conflict_def)

lemma persist_each_kept:
  "persist_each now sid ls d = (urls, d') \<Longrightarrow> only_listings d d' \<and> (listing_conflict k d \<longrightarrow> listing_conflict k d')
     \<and> (listing_keys d \<longrightarrow> listing_keys d')"
proof (induction ls arbitrary: d urls)
  case Nil
  then show ?case by simp
next
  case (Cons l ls)
  show ?case
  proof (cases "rl_url l = [] \<or> listing_conflict l d")
    case True
    with Cons show ?thesis by auto
  next
    case False
    then obtain urls1 where *: "persist_each now sid ls (add_listing now sid l d) = (urls1, d')"
      using Cons.prems by (auto split: prod.splits)
    from Cons.IH [OF this] False show ?thesis
      using only_listings_trans [OF only_listings_add] listing_keys_add by auto
  qed
qed

lemma persist_each_urls:
  "persist_each now sid ls d = (urls, d') \<Longrightarrow> map li_url (listings d') = map li_url (listings d) @ urls
     \<and> length urls \<le> length ls \<and> [] \<notin> set urls"
proof (induction ls arbitrary: d urls)
  case Nil
  then show ?case by simp
next
  case (Cons l ls)
  show ?case
  proof (cases "rl_url l = [] \<or> listing_conflict l d")
    case True
    with Cons show ?thesis by fastforce
  next
    case False
    then obtain urls1 where *: "persist_each now sid ls (add_listing now sid l d) = (urls1, d')"
      and "urls = rl_url l # urls1"
      using Cons.prems by (auto split: prod.splits)
    with Cons.IH [OF *] False show ?thesis by auto
  qed
qed

lemma persist_each_conflict:
  "persist_each now sid ls d = (urls, d') \<Longrightarrow> \<forall>l\<in>set ls. rl_url l = [] \<or> listing_conflict l d'"
proof (induction ls arbitrary: d urls)
  case Nil
  then show ?case by simp
next
  case (Cons l ls)
  show ?case
  proof (cases "rl_url l = [] \<or> listing_conflict l d")
    case True
    with Cons have *: "persist_each now sid ls d = (urls, d')" by simp
    from Cons.IH [OF this] persist_each_kept [OF *, of l] True show ?thesis by auto
  next
    case False
    then obtain urls1 where *: "persist_each now sid ls (add_listing now sid l d) = (urls1, d')"
      using Cons.prems by (auto split: prod.splits)
    from Cons.IH [OF this] persist_each_kept [OF *, of l] show ?thesis by auto
  qed
qed

lemma persist_each_nothing:
  "\<forall>l\<in>set ls. rl_url l = [] \<or> listing_conflict l d \<Longrightarrow> persist_each now sid ls d = ([], d)"
  by (induction ls) auto

lemma persist_each_distinct:
  assumes "listing_keys d" "persist_each now sid ls d = (urls, d')"
  shows "distinct urls \<and> set urls \<inter> set (map li_url (listings d)) = {}"
proof -
  have "distinct (map li_url (listings d'))"
    using persist_each_kept [OF assms(2)] assms(1) by (auto simp: listing_keys_def)
  moreover have "map li_url (listings d') = map li_url (listings d) @ urls"
    using persist_each_urls [OF assms(2)] by blast
  ultimately show ?thesis by (metis distinct_append inf_commute)
qed

lemma persist_each_ledger:
  assumes "listing_keys d"
  shows "listing_keys (snd (persist_each now sid ls d)) \<and> distinct (fst (persist_each now sid ls d))
     \<and> set (fst (persist_each now sid ls d)) \<inter> li_url ` set (listings d) = {}
     \<and> li_url ` set (listings d) \<union> set (fst (persist_each now sid ls d)) = li_url ` set (listings (snd (persist_each now sid ls d)))"
proof -
  obtain urls d' where r: "persist_each now sid ls d = (urls, d')" by fastforce
  have "set (map li_url (listings d')) = set (map li_url (listings d) @ urls)"
    using persist_each_urls [OF r] by simp
  with persist_each_kept [OF r] persist_each_distinct [OF assms r] assms r show ?thesis by simp
qed

interpretation listings_once: ledger listing_keys "\<lambda>d. li_url ` set (listings d)"
  "\<lambda>e d. persist_each (fst e) (fst (snd e)) (snd (snd e)) d"
  by unfold_locales (use persist_each_ledger in blast)+

section \<open>Properties\<close>

text \<open>
  Collecting twice stores once. Whatever the batch, the rows that were there stay as they are and
  only new rows of the status NOUVELLE are added, no address and no fingerprint is ever stored twice,
  the two counters add up to the batch and the first counts the new rows, every listing with an
  address is afterwards represented by its address or its fingerprint, and storing the batch again
  (for any sector, at any time) inserts nothing.
\<close>

theorem persist_listings_once:
  assumes "listing_keys d" and "persist_listings now sid ls d = ((inserted, skipped), d')"
  shows "listing_keys d' \<and> only_listings d d' \<and> length (listings d') = length (listings d) + inserted
     \<and> inserted + skipped = length ls
     \<and> (\<forall>l\<in>set ls. rl_url l = [] \<or> listing_conflict l d')
     \<and> persist_listings now' sid' ls d' = ((0, length ls), d')"
proof -
  obtain urls where r: "persist_each now sid ls d = (urls, d')" "inserted = length urls" "skipped = length ls - length urls"
    using assms(2) by (auto simp: persist_listings_def split: prod.splits)
  have "length (map li_url (listings d')) = length (map li_url (listings d) @ urls)"
    using persist_each_urls [OF r(1)] by metis
  then have "length (listings d') = length (listings d) + length urls" by simp
  moreover have "persist_each now' sid' ls d' = ([], d')"
    using persist_each_conflict [OF r(1)] by (rule persist_each_nothing)
  ultimately show ?thesis
    using persist_each_kept [OF r(1)] persist_each_urls [OF r(1)] persist_each_conflict [OF r(1)] assms(1) r
    by (simp add: persist_listings_def)
qed

definition demo_raw :: raw_listing where
  "demo_raw = (new_raw_listing SRC_LBC ''https://lbc/1'')\<lparr>rl_title := Some ''Clio'', rl_price := Some 5000\<rparr>"

lemma persist_listings_once_witness:
  "listing_keys empty_db \<and> persist_listings 0 None [demo_raw] empty_db = ((1, 0), add_listing 0 None demo_raw empty_db)
     \<and> persist_listings 5 None [demo_raw] (add_listing 0 None demo_raw empty_db) = ((0, 1), add_listing 0 None demo_raw empty_db)"
proof -
  have k: "listing_keys empty_db" by (simp add: listing_keys_def empty_db_def)
  have u: "rl_url demo_raw \<noteq> []" by (simp add: demo_raw_def new_raw_listing_def)
  have "\<not> listing_conflict demo_raw empty_db" by (simp add: listing_conflict_def empty_db_def)
  with u have p: "persist_listings 0 None [demo_raw] empty_db = ((1, 0), add_listing 0 None demo_raw empty_db)"
    by (simp add: persist_listings_def)
  from persist_listings_once [OF k p, of 5 None] p k show ?thesis by simp
qed

text \<open>
  The fingerprint has no address in it: two advertisements of a source with the same title, price,
  mileage and place are one row, although their addresses differ.
\<close>

lemma same_fingerprint_one_row:
  assumes "rl_url b \<noteq> rl_url a" "rl_url a \<noteq> []" "rl_url b \<noteq> []" "canonical_listing b = canonical_listing a"
    and "\<not> listing_conflict a d"
  shows "persist_listings now sid [a, b] d = ((1, 1), add_listing now sid a d)"
proof -
  have "listing_conflict b (add_listing now sid a d)"
    using assms(4) by (simp add: listing_conflict_def listing_content_hash_def)
  with assms show ?thesis by (simp add: persist_listings_def)
qed

end
