(* ===== verification/Sector_Collection.thy ===== *)
theory Sector_Collection
  imports Listing_Persistence Resource_Lock Campaign_Runner
begin

text \<open>
  The collection of a sector (\<open>sector_collection.py\<close>): the schedule, the choice of the due sectors and
  one run, from the session that plans it to the release of its leases. The pages of the two sources,
  the clocks, the time zone and \<open>isoformat\<close> are parameters, and so is what the other sessions do at
  each point where the run holds no transaction. The schedule is read in the form HH:MM, the one the
  API accepts.
\<close>

section \<open>Schedule\<close>

definition parse_hhmm :: "string \<Rightarrow> int result" where
  \<comment> \<open>\<open>time.fromisoformat\<close> on HH:MM, as microseconds since midnight\<close>
  "parse_hhmm s =
     (if length s = 5 \<and> s ! 2 = CHR '':'' \<and> all_digits (take 2 s) \<and> all_digits (drop 3 s)
         \<and> parse_nat (take 2 s) < 24 \<and> parse_nat (drop 3 s) < 60
      then Inr (hours (int (parse_nat (take 2 s))) + minutes (int (parse_nat (drop 3 s))))
      else Inl (ValueError ''Invalid isoformat string''))"

definition in_window :: "int \<Rightarrow> int \<Rightarrow> int \<Rightarrow> bool" where
  "in_window start stop current =
     (if start \<le> stop then start \<le> current \<and> current < stop else start \<le> current \<or> current < stop)"

definition is_within_sector_schedule :: "zone \<Rightarrow> string \<Rightarrow> string \<Rightarrow> datetime \<Rightarrow> bool result" where
  "is_within_sector_schedule z schedule_start schedule_end now =
     (case parse_hhmm schedule_start of
        Inl e \<Rightarrow> Inl e
      | Inr start \<Rightarrow>
          (case parse_hhmm schedule_end of
             Inl e \<Rightarrow> Inl e
           | Inr stop \<Rightarrow> Inr (in_window start stop (zone_local z now mod days 1))))"

definition is_sector_due :: "datetime option \<Rightarrow> int \<Rightarrow> datetime \<Rightarrow> bool" where
  "is_sector_due last_started_at frequency_minutes now =
     (case last_started_at of None \<Rightarrow> True | Some t \<Rightarrow> t + minutes frequency_minutes \<le> now)"

definition last_run :: "uuid \<Rightarrow> db \<Rightarrow> collection_run option" where
  "last_run sid d = latest cr_started_at (filter (\<lambda>r. cr_sector_id r = sid) (collection_runs d))"

fun due_each :: "zone \<Rightarrow> datetime \<Rightarrow> db \<Rightarrow> sector list \<Rightarrow> string list result" where
  "due_each z now d [] = Inr []"
| "due_each z now d (s # ss) =
     (case is_within_sector_schedule z (sec_schedule_start s) (sec_schedule_end s) now of
        Inl e \<Rightarrow> Inl e
      | Inr inside \<Rightarrow>
          map_sum id (\<lambda>ids. if inside \<and> is_sector_due (map_option cr_started_at (last_run (sec_id s) d)) (sec_frequency_minutes s) now
                            then str_uuid (sec_id s) # ids else ids)
            (due_each z now d ss))"

definition get_due_sector_ids :: "zone \<Rightarrow> datetime \<Rightarrow> db \<Rightarrow> string list result" where
  "get_due_sector_ids z now d = due_each z now d (filter (\<lambda>s. sec_status s = SECTOR_ACTIF) (sectors d))"

section \<open>The plan of a run\<close>

record collect_env =
  ce_zone :: zone
  ce_start :: datetime  \<comment> \<open>the clock of the planning session\<close>
  ce_claim_at :: "resource \<Rightarrow> datetime"  \<comment> \<open>the clock of the claim of a resource\<close>
  ce_persist_at :: datetime
  ce_end :: datetime
  ce_lib :: phone_lib
  ce_dumps :: "page_item \<Rightarrow> string"
  ce_dumps_lc :: "(string, string) dict \<Rightarrow> string"
  ce_browser :: "int \<Rightarrow> page_item list result"  \<comment> \<open>the pages of Leboncoin for the search of the sector\<close>
  ce_crawler :: "int \<Rightarrow> lc_page result"  \<comment> \<open>the pages of La Centrale\<close>
  ce_isoformat :: "datetime \<Rightarrow> string"
  ce_before_read :: "db \<Rightarrow> db"  \<comment> \<open>the other sessions before the resources are read\<close>
  ce_before_claim :: "resource \<Rightarrow> db \<Rightarrow> db"
  ce_before_scrape :: "db \<Rightarrow> db"
  ce_before_persist :: "db \<Rightarrow> db"
  ce_before_close :: "db \<Rightarrow> db"
  ce_before_release :: "resource \<Rightarrow> db \<Rightarrow> db"

definition seen_today :: "zone \<Rightarrow> datetime \<Rightarrow> uuid \<Rightarrow> db \<Rightarrow> int" where
  "seen_today z now sid d =
     (let local_now = zone_local z now; today_start = zone_instant z (local_now - local_now mod days 1) in
      sum_list (map cr_listings_seen
        (filter (\<lambda>r. cr_sector_id r = sid \<and> today_start \<le> cr_started_at r \<and> cr_status r = RUN_COMPLETED) (collection_runs d))))"

definition new_run :: "datetime \<Rightarrow> sector \<Rightarrow> (string, json) dict \<Rightarrow> db \<Rightarrow> collection_run" where
  "new_run now s checkpoint d =
     \<lparr>cr_id = fresh_id d, cr_sector_id = sec_id s, cr_source = sec_source s, cr_status = RUN_RUNNING,
      cr_checkpoint = checkpoint, cr_listings_seen = 0, cr_last_error = None, cr_started_at = now, cr_finished_at = None\<rparr>"

definition add_run :: "collection_run \<Rightarrow> db \<Rightarrow> db" where
  "add_run r d = d\<lparr>collection_runs := collection_runs d @ [r], fresh_id := Suc (fresh_id d)\<rparr>"

datatype plan = Skip string | Collect sector collection_run int  \<comment> \<open>the remaining volume\<close>

definition plan_collection :: "zone \<Rightarrow> datetime \<Rightarrow> uuid \<Rightarrow> db \<Rightarrow> exn + (plan \<times> db)" where
  \<comment> \<open>the first session\<close>
  "plan_collection z now sid d =
     (case find_row (\<lambda>s. sec_id s = sid) (sectors d) of
        None \<Rightarrow> Inl (ValueError ''sector not found'')
      | Some s \<Rightarrow>
          (case is_within_sector_schedule z (sec_schedule_start s) (sec_schedule_end s) now of
             Inl e \<Rightarrow> Inl e
           | Inr inside \<Rightarrow>
               (let previous = last_run sid d; remaining = sec_daily_volume s - seen_today z now sid d in
                if \<not> inside then Inr (Skip ''outside_schedule'', d)
                else if \<not> is_sector_due (map_option cr_started_at previous) (sec_frequency_minutes s) now
                then Inr (Skip ''not_due'', d)
                else if remaining \<le> 0 then Inr (Skip ''daily_volume_reached'', d)
                else (let checkpoint = (case previous of None \<Rightarrow> [] | Some p \<Rightarrow> cr_checkpoint p);
                          run = new_run now s checkpoint d in
                      Inr (Collect s run remaining, add_run run d)))))"

fun json_int :: "json \<Rightarrow> int result" where
  \<comment> \<open>\<open>int(value)\<close>\<close>
  "json_int (JInt i) = Inr i"
| "json_int (JBool b) = Inr (if b then 1 else 0)"
| "json_int (JFloat q) = Inr (if 0 \<le> q then \<lfloor>q\<rfloor> else \<lceil>q\<rceil>)"
| "json_int (JStr s) = py_int s"
| "json_int v = Inl (TypeError ''int() argument must be a string, a bytes-like object or a real number'')"

definition start_page :: "(string, json) dict \<Rightarrow> int result" where
  \<comment> \<open>\<open>int(checkpoint.get("next_page", 1))\<close>\<close>
  "start_page checkpoint = (case dict_get checkpoint ''next_page'' of None \<Rightarrow> Inr 1 | Some v \<Rightarrow> json_int v)"

definition page_budget :: "int \<Rightarrow> int" where
  "page_budget remaining = max 1 (min (remaining div 20 + 1) 100)"

section \<open>Leases\<close>

definition lease_seconds :: int where
  \<comment> \<open>the default \<open>ttl_seconds\<close> of \<open>claim_resource\<close>\<close>
  "lease_seconds = 300"

fun claim_first :: "collect_env \<Rightarrow> string \<Rightarrow> string \<Rightarrow> uuid list \<Rightarrow> db \<Rightarrow> uuid option result \<times> db" where
  \<comment> \<open>the loop over the resources of a kind, up to the first that is granted\<close>
  "claim_first E owner kind [] d = (Inr None, d)"
| "claim_first E owner kind (i # is) d =
     (case claim_resource (ce_claim_at E (kind, i)) kind i owner lease_seconds (ce_before_claim E (kind, i) d) of
        (Inl e, d') \<Rightarrow> (Inl e, d')
      | (Inr granted, d') \<Rightarrow> if granted then (Inr (Some i), d') else claim_first E owner kind is d')"

definition claim_kind :: "collect_env \<Rightarrow> string \<Rightarrow> string \<Rightarrow> uuid list \<Rightarrow> resource list \<Rightarrow> db \<Rightarrow> unit result \<times> resource list \<times> db" where
  \<comment> \<open>one turn of the loop over proxies and SIMs; the leases so far go in and come out\<close>
  "claim_kind E owner kind is leases d =
     (if is = [] then (Inr (), leases, d)
      else (case claim_first E owner kind is d of
              (Inl e, d') \<Rightarrow> (Inl e, leases, d')
            | (Inr None, d') \<Rightarrow> (Inl (RuntimeError (''No available '' @ kind @ '' assigned to sector'')), leases, d')
            | (Inr (Some i), d') \<Rightarrow> (Inr (), leases @ [(kind, i)], d')))"

definition claim_account :: "collect_env \<Rightarrow> string \<Rightarrow> sector \<Rightarrow> sector_account list \<Rightarrow> db \<Rightarrow> uuid option result \<times> resource list \<times> db" where
  "claim_account E owner s accounts d =
     (if sec_source s \<noteq> ''leboncoin'' then (Inr None, [], d)
      else (case claim_first E owner ''account'' (map sa_id accounts) d of
              (Inl e, d') \<Rightarrow> (Inl e, [], d')
            | (Inr None, d') \<Rightarrow> (Inl (RuntimeError ''No available LBC account assigned to sector''), [], d')
            | (Inr (Some i), d') \<Rightarrow>
                (Inr (map_option sa_account_id (find_row (\<lambda>a. sa_id a = i) accounts)), [(''account'', i)], d')))"

definition claim_all :: "collect_env \<Rightarrow> string \<Rightarrow> sector \<Rightarrow> db \<Rightarrow> uuid option result \<times> resource list \<times> db" where
  "claim_all E owner s d0 =
     (let d = ce_before_read E d0 in
      case claim_account E owner s (filter (\<lambda>r. sa_sector_id r = sec_id s) (sector_accounts d)) d of
        (Inl e, leases, d1) \<Rightarrow> (Inl e, leases, d1)
      | (Inr account_id, leases, d1) \<Rightarrow>
          (case claim_kind E owner ''proxy'' (map sp_id (filter (\<lambda>r. sp_sector_id r = sec_id s) (sector_proxies d))) leases d1 of
             (Inl e, leases, d2) \<Rightarrow> (Inl e, leases, d2)
           | (Inr u, leases, d2) \<Rightarrow>
               (case claim_kind E owner ''sim'' (map ss_id (filter (\<lambda>r. ss_sector_id r = sec_id s) (sector_sims d))) leases d2 of
                  (Inl e, leases, d3) \<Rightarrow> (Inl e, leases, d3)
                | (Inr u, leases, d3) \<Rightarrow> (Inr account_id, leases, d3))))"

fun release_all :: "collect_env \<Rightarrow> string \<Rightarrow> resource list \<Rightarrow> db \<Rightarrow> db" where
  "release_all E owner [] d = d"
| "release_all E owner (r # rs) d =
     release_all E owner rs (snd (release_resource (fst r) (snd r) owner (ce_before_release E r d)))"

section \<open>The run\<close>

definition scrape :: "collect_env \<Rightarrow> sector \<Rightarrow> scrape_params \<Rightarrow> uuid option \<Rightarrow> db \<Rightarrow> raw_listing list result \<times> db" where
  "scrape E s params account_id d =
     (if sec_source s = ''leboncoin'' then scrape_lbc (ce_lib E) (ce_dumps E) (ce_browser E) params account_id d
      else if sec_source s = ''la_centrale'' then (scrape_la_centrale (ce_lib E) (ce_dumps_lc E) (ce_crawler E) params, d)
      else (Inl (ValueError (''unsupported source: '' @ sec_source s)), d))"

definition set_run :: "uuid \<Rightarrow> (collection_run \<Rightarrow> collection_run) \<Rightarrow> db \<Rightarrow> unit result \<times> db" where
  \<comment> \<open>\<open>current = await db.get(CollectionRun, run.id)\<close> and the assignments to it\<close>
  "set_run rid f d =
     (case find_row (\<lambda>r. cr_id r = rid) (collection_runs d) of
        None \<Rightarrow> (Inl AttributeError, d)
      | Some r \<Rightarrow> (Inr (), d\<lparr>collection_runs := update_where (\<lambda>r. cr_id r = rid) f (collection_runs d)\<rparr>))"

definition completed_run :: "collect_env \<Rightarrow> scrape_params \<Rightarrow> int \<Rightarrow> collection_run \<Rightarrow> collection_run" where
  "completed_run E params seen r =
     r\<lparr>cr_status := RUN_COMPLETED, cr_listings_seen := seen,
       cr_checkpoint := [(''next_page'', JInt (sp_start_page params + sp_max_pages params)),
                         (''last_run_at'', JStr (ce_isoformat E (ce_end E)))],
       cr_finished_at := Some (ce_end E)\<rparr>"

definition failed_run :: "collect_env \<Rightarrow> exn \<Rightarrow> collection_run \<Rightarrow> collection_run" where
  "failed_run E e r =
     r\<lparr>cr_status := RUN_FAILED, cr_last_error := Some (take 1000 (exn_str e)), cr_finished_at := Some (ce_end E)\<rparr>"

datatype collect_reply =
    Skipped string
  | Collected nat nat nat  \<comment> \<open>inserted, skipped, seen\<close>

definition collect_body :: "collect_env \<Rightarrow> string \<Rightarrow> sector \<Rightarrow> uuid \<Rightarrow> scrape_params \<Rightarrow> db
    \<Rightarrow> collect_reply result \<times> resource list \<times> db" where
  \<comment> \<open>the block of the \<open>try\<close>, with the leases it leaves\<close>
  "collect_body E owner s rid params d =
     (case claim_all E owner s d of
        (Inl e, leases, d1) \<Rightarrow> (Inl e, leases, d1)
      | (Inr account_id, leases, d1) \<Rightarrow>
          (case scrape E s params account_id (ce_before_scrape E d1) of
             (Inl e, d2) \<Rightarrow> (Inl e, leases, d2)
           | (Inr found, d2) \<Rightarrow>
               (case persist_listings (ce_persist_at E) (Some (sec_id s)) found (ce_before_persist E d2) of
                  ((inserted, skipped), d3) \<Rightarrow>
                    (case set_run rid (completed_run E params (int (length found))) (ce_before_close E d3) of
                       (Inl e, d4) \<Rightarrow> (Inl e, leases, d4)
                     | (Inr u, d4) \<Rightarrow> (Inr (Collected inserted skipped (length found)), leases, d4)))))"

definition collect_run :: "collect_env \<Rightarrow> string \<Rightarrow> sector \<Rightarrow> uuid \<Rightarrow> scrape_params \<Rightarrow> db \<Rightarrow> collect_reply result \<times> db" where
  \<comment> \<open>\<open>try\<close>, \<open>except\<close> and \<open>finally\<close>\<close>
  "collect_run E owner s rid params d =
     (case collect_body E owner s rid params d of
        (Inr reply, leases, d1) \<Rightarrow> (Inr reply, release_all E owner leases d1)
      | (Inl e, leases, d1) \<Rightarrow>
          (case set_run rid (failed_run E e) (ce_before_close E d1) of
             (Inl e', d2) \<Rightarrow> (Inl e', release_all E owner leases d2)
           | (Inr u, d2) \<Rightarrow> (Inl e, release_all E owner leases d2)))"

definition collect_sector :: "collect_env \<Rightarrow> uuid \<Rightarrow> db \<Rightarrow> collect_reply result \<times> db" where
  "collect_sector E sid d =
     (case session (plan_collection (ce_zone E) (ce_start E) sid) d of
        (Inl e, d1) \<Rightarrow> (Inl e, d1)
      | (Inr (Skip reason), d1) \<Rightarrow> (Inr (Skipped reason), d1)
      | (Inr (Collect s run remaining), d1) \<Rightarrow>
          (case start_page (cr_checkpoint run) of
             Inl e \<Rightarrow> (Inl e, d1)
           | Inr start \<Rightarrow>
               collect_run E (''collection:'' @ str_uuid (cr_id run)) s (cr_id run)
                 \<lparr>sp_max_pages = page_budget remaining, sp_start_page = start\<rparr> d1))"

section \<open>Facts on the schedule\<close>

text \<open>A window that ends when it starts never opens; any other one opens on its first minute.\<close>

lemma empty_window [simp]: "\<not> in_window t t current"
  by (simp add: in_window_def)

lemma in_window_start: "start \<noteq> stop \<Longrightarrow> in_window start stop start"
  by (simp add: in_window_def)

lemma in_window_complement: "start \<noteq> stop \<Longrightarrow> in_window stop start current \<longleftrightarrow> \<not> in_window start stop current"
  by (auto simp: in_window_def)

lemma page_budget_mono: "m \<le> n \<Longrightarrow> page_budget m \<le> page_budget n"
  by (auto simp: page_budget_def zdiv_mono1 intro!: max.mono min.mono)

lemma page_budget_bounds: "1 \<le> page_budget n \<and> page_budget n \<le> 100"
  by (simp add: page_budget_def)

lemma bounded_page_budget [simp]: "bounded_pages \<lparr>sp_max_pages = page_budget n, sp_start_page = p\<rparr> = page_budget n"
  by (simp add: bounded_pages_def page_budget_def)

section \<open>Facts on the leases\<close>

definition owned :: "db \<Rightarrow> string \<Rightarrow> resource set" where
  "owned d owner = {r. \<exists>u. resource_lock d r = Some (u, Some owner)}"

definition courteous :: "string \<Rightarrow> (db \<Rightarrow> db) \<Rightarrow> bool" where
  \<comment> \<open>another session that never writes this owner into a lock\<close>
  "courteous owner f = (\<forall>d. lock_keys d \<longrightarrow> lock_keys (f d) \<and> owned (f d) owner \<subseteq> owned d owner)"

definition courteous_env :: "string \<Rightarrow> collect_env \<Rightarrow> bool" where
  "courteous_env owner E =
     (courteous owner (ce_before_read E) \<and> (\<forall>r. courteous owner (ce_before_claim E r)) \<and> courteous owner (ce_before_scrape E)
      \<and> courteous owner (ce_before_persist E) \<and> courteous owner (ce_before_close E) \<and> (\<forall>r. courteous owner (ce_before_release E r)))"

lemma courteousD: "courteous owner f \<Longrightarrow> lock_keys d \<Longrightarrow> owned d owner \<subseteq> L \<Longrightarrow> lock_keys (f d) \<and> owned (f d) owner \<subseteq> L"
  unfolding courteous_def by blast

lemma claim_resource_cases:
  obtains (error) e where "claim_resource now kind i owner ttl d = (Inl e, d)"
  | (granted) "try_claim now ttl (kind, i) owner d = (True, snd (claim_resource now kind i owner ttl d))"
      "fst (claim_resource now kind i owner ttl d) = Inr True"
  | (denied) "try_claim now ttl (kind, i) owner d = (False, snd (claim_resource now kind i owner ttl d))"
      "fst (claim_resource now kind i owner ttl d) = Inr False"
proof -
  obtain res d' where r: "claim_resource now kind i owner ttl d = (res, d')" by fastforce
  show thesis
  proof (cases res)
    case (Inl e)
    with r have "d' = d" by (auto simp: claim_resource_def session_def split: if_splits sum.splits)
    with r Inl show thesis by (intro error) simp
  next
    case (Inr b)
    with r granted denied show thesis by (cases b) (simp_all add: try_claim_def)
  qed
qed

lemma owned_claim:
  assumes "lock_keys d" "owned d owner \<subseteq> L"
  shows "lock_keys (snd (try_claim now ttl r owner d)) \<and> owned (snd (try_claim now ttl r owner d)) owner \<subseteq> insert r L"
  using assms try_claim_keys [OF assms(1)] by (auto simp: owned_def try_claim_lock split: if_splits)

lemma claim_first_owned:
  assumes "\<And>r. courteous owner (ce_before_claim E r)" "lock_keys d" "owned d owner \<subseteq> L"
    and "claim_first E owner kind is d = (res, d')"
  shows "lock_keys d' \<and> owned d' owner \<subseteq> (case res of Inr (Some i) \<Rightarrow> insert (kind, i) L | _ \<Rightarrow> L)"
  using assms(2-)
proof (induction "is" arbitrary: d)
  case Nil
  then show ?case by auto
next
  case (Cons i "is")
  define d1 where "d1 = ce_before_claim E (kind, i) d"
  have d1: "lock_keys d1" "owned d1 owner \<subseteq> L" using courteousD [OF assms(1) Cons.prems(1,2)] by (auto simp: d1_def)
  let ?t = "ce_claim_at E (kind, i)"
  show ?case
  proof (cases rule: claim_resource_cases [of ?t kind i owner lease_seconds d1])
    case (error e)
    with Cons.prems d1 show ?thesis by (simp add: d1_def [symmetric]) auto
  next
    case granted
    with Cons.prems have "res = Inr (Some i)" "d' = snd (try_claim ?t lease_seconds (kind, i) owner d1)"
      by (auto simp: d1_def [symmetric] split: prod.splits)
    with owned_claim [OF d1] show ?thesis by simp
  next
    case denied
    then have "snd (claim_resource ?t kind i owner lease_seconds d1) = d1"
      using try_claim_denied [OF d1(1), of ?t lease_seconds "(kind, i)" owner] by simp
    with denied Cons.prems have "claim_first E owner kind is d1 = (res, d')"
      by (auto simp: d1_def [symmetric] split: prod.splits)
    with Cons.IH [OF d1] show ?thesis by blast
  qed
qed

lemma claim_kind_owned:
  assumes "\<And>r. courteous owner (ce_before_claim E r)" "lock_keys d" "owned d owner \<subseteq> set leases"
    and "claim_kind E owner kind is leases d = (res, leases', d')"
  shows "lock_keys d' \<and> owned d' owner \<subseteq> set leases'"
proof (cases "is = []")
  case True
  with assms show ?thesis by (auto simp: claim_kind_def)
next
  case False
  obtain res1 d1 where c: "claim_first E owner kind is d = (res1, d1)" by fastforce
  from claim_first_owned [OF assms(1-3) c] assms(4) c False show ?thesis
    by (auto simp: claim_kind_def split: sum.splits option.splits)
qed

lemma claim_all_owned:
  assumes "courteous_env owner E" "lock_keys d" "owned d owner = {}"
    and "claim_all E owner s d = (res, leases, d')"
  shows "lock_keys d' \<and> owned d' owner \<subseteq> set leases"
proof -
  have E: "\<And>r. courteous owner (ce_before_claim E r)" "courteous owner (ce_before_read E)"
    using assms(1) by (auto simp: courteous_env_def)
  define d0 where "d0 = ce_before_read E d"
  have d0: "lock_keys d0" "owned d0 owner \<subseteq> {}"
    using courteousD [OF E(2) assms(2), of "{}"] assms(3) by (auto simp: d0_def)
  obtain res1 leases1 d1 where a:
    "claim_account E owner s (filter (\<lambda>r. sa_sector_id r = sec_id s) (sector_accounts d0)) d0 = (res1, leases1, d1)"
    by (metis prod_cases3)
  have 1: "lock_keys d1 \<and> owned d1 owner \<subseteq> set leases1"
  proof (cases "sec_source s = ''leboncoin''")
    case False
    with a d0 show ?thesis by (auto simp: claim_account_def)
  next
    case True
    obtain res0 d0' where c: "claim_first E owner ''account'' (map sa_id (filter (\<lambda>r. sa_sector_id r = sec_id s) (sector_accounts d0))) d0
      = (res0, d0')" by fastforce
    from claim_first_owned [OF E(1) d0 c] a c True show ?thesis
      by (auto simp: claim_account_def split: sum.splits option.splits)
  qed
  obtain res2 leases2 d2 where p: "claim_kind E owner ''proxy'' (map sp_id (filter (\<lambda>r. sp_sector_id r = sec_id s) (sector_proxies d0))) leases1 d1
      = (res2, leases2, d2)" by (metis prod_cases3)
  have 2: "lock_keys d2 \<and> owned d2 owner \<subseteq> set leases2" using claim_kind_owned [OF E(1) _ _ p] 1 by blast
  obtain res3 leases3 d3 where i: "claim_kind E owner ''sim'' (map ss_id (filter (\<lambda>r. ss_sector_id r = sec_id s) (sector_sims d0))) leases2 d2
      = (res3, leases3, d3)" by (metis prod_cases3)
  have 3: "lock_keys d3 \<and> owned d3 owner \<subseteq> set leases3" using claim_kind_owned [OF E(1) _ _ i] 2 by blast
  from assms(4) a p i 1 2 3 show ?thesis
    by (auto simp: claim_all_def d0_def [symmetric] Let_def split: sum.splits)
qed

lemma release_all_owned:
  assumes "\<And>r. courteous owner (ce_before_release E r)" "lock_keys d" "owned d owner \<subseteq> set rs"
  shows "lock_keys (release_all E owner rs d) \<and> owned (release_all E owner rs d) owner = {}"
  using assms(2,3)
proof (induction rs arbitrary: d)
  case Nil
  then show ?case by auto
next
  case (Cons r rs)
  define d1 where "d1 = ce_before_release E r d"
  have d1: "lock_keys d1" "owned d1 owner \<subseteq> set (r # rs)"
    using courteousD [OF assms(1) Cons.prems] by (auto simp: d1_def)
  have "lock_keys (do_release r owner d1)" using d1(1) by (rule do_release_keys)
  moreover have "owned (do_release r owner d1) owner \<subseteq> set rs"
    using d1(2) by (auto simp: owned_def do_release_lock split: if_splits)
  ultimately show ?case using Cons.IH by (simp add: d1_def do_release_def)
qed

definition same_locks :: "db \<Rightarrow> db \<Rightarrow> bool" where
  "same_locks d d' = (sector_accounts d' = sector_accounts d \<and> sector_sims d' = sector_sims d \<and> sector_proxies d' = sector_proxies d)"

lemma same_locks_owned: "same_locks d d' \<Longrightarrow> lock_keys d' = lock_keys d \<and> owned d' owner = owned d owner"
  by (simp add: same_locks_def lock_keys_def owned_def resource_lock_def split: prod.splits)

lemma scrape_locks: "scrape E s params a d = (res, d') \<Longrightarrow> same_locks d d'"
  by (auto simp: scrape_def scrape_lbc_def quarantine_def same_locks_def split: if_splits option.splits sum.splits)

lemma only_listings_locks: "only_listings d d' \<Longrightarrow> same_locks d d'"
proof -
  assume "only_listings d d'"
  then have "d'\<lparr>listings := listings d, fresh_id := fresh_id d\<rparr> = d" by (auto simp: only_listings_def)
  then have "sector_accounts d = sector_accounts (d'\<lparr>listings := listings d, fresh_id := fresh_id d\<rparr>)
     \<and> sector_sims d = sector_sims (d'\<lparr>listings := listings d, fresh_id := fresh_id d\<rparr>)
     \<and> sector_proxies d = sector_proxies (d'\<lparr>listings := listings d, fresh_id := fresh_id d\<rparr>)" by simp
  then show ?thesis by (simp add: same_locks_def)
qed

lemma persist_only: "persist_listings now sid ls d = (c, d') \<Longrightarrow> only_listings d d'"
  using persist_each_kept by (fastforce simp: persist_listings_def split: prod.splits)

lemma set_run_locks: "set_run rid f d = (res, d') \<Longrightarrow> same_locks d d'"
  by (auto simp: set_run_def same_locks_def split: option.splits)

lemma plan_locks: "plan_collection z now sid d = Inr (p, d') \<Longrightarrow> same_locks d d'"
  by (auto simp: plan_collection_def same_locks_def add_run_def Let_def split: option.splits sum.splits if_splits)

lemma collect_body_owned:
  assumes "courteous_env owner E" "lock_keys d" "owned d owner = {}"
    and "collect_body E owner s rid params d = (res, leases, d')"
  shows "lock_keys d' \<and> owned d' owner \<subseteq> set leases"
proof -
  have E: "courteous owner (ce_before_scrape E)" "courteous owner (ce_before_persist E)" "courteous owner (ce_before_close E)"
    using assms(1) by (auto simp: courteous_env_def)
  obtain res1 leases1 d1 where c: "claim_all E owner s d = (res1, leases1, d1)" by (metis prod_cases3)
  have 1: "lock_keys d1" "owned d1 owner \<subseteq> set leases1" using claim_all_owned [OF assms(1-3) c] by auto
  show ?thesis
  proof (cases res1)
    case (Inl e)
    with assms(4) c 1 show ?thesis by (simp add: collect_body_def)
  next
    case (Inr a)
    obtain res2 d2 where sc: "scrape E s params a (ce_before_scrape E d1) = (res2, d2)" by fastforce
    have 2: "lock_keys d2" "owned d2 owner \<subseteq> set leases1"
      using courteousD [OF E(1) 1] same_locks_owned [OF scrape_locks [OF sc], of owner] by auto
    show ?thesis
    proof (cases res2)
      case (Inl e)
      with assms(4) c sc Inr 2 show ?thesis by (simp add: collect_body_def)
    next
      case found: (Inr found)
      obtain i k d3 where p: "persist_listings (ce_persist_at E) (Some (sec_id s)) found (ce_before_persist E d2) = ((i, k), d3)"
        by (metis surj_pair)
      have 3: "lock_keys d3" "owned d3 owner \<subseteq> set leases1"
        using courteousD [OF E(2) 2] same_locks_owned [OF only_listings_locks [OF persist_only [OF p]], of owner] by auto
      obtain res4 d4 where r: "set_run rid (completed_run E params (int (length found))) (ce_before_close E d3) = (res4, d4)" by fastforce
      have "lock_keys d4 \<and> owned d4 owner \<subseteq> set leases1"
        using courteousD [OF E(3) 3] same_locks_owned [OF set_run_locks [OF r], of owner] by auto
      with assms(4) c sc Inr found p r show ?thesis
        by (auto simp: collect_body_def split: sum.splits)
    qed
  qed
qed

lemma collect_run_released:
  assumes "courteous_env owner E" "lock_keys d" "owned d owner = {}"
    and "collect_run E owner s rid params d = (res, d')"
  shows "lock_keys d' \<and> owned d' owner = {}"
proof -
  have E: "\<And>r. courteous owner (ce_before_release E r)" "courteous owner (ce_before_close E)"
    using assms(1) by (auto simp: courteous_env_def)
  obtain res1 leases d1 where b: "collect_body E owner s rid params d = (res1, leases, d1)" by (metis prod_cases3)
  have 1: "lock_keys d1" "owned d1 owner \<subseteq> set leases" using collect_body_owned [OF assms(1-3) b] by auto
  show ?thesis
  proof (cases res1)
    case (Inr reply)
    with assms(4) b release_all_owned [OF E(1) 1] show ?thesis by (auto simp: collect_run_def)
  next
    case (Inl e)
    obtain res2 d2 where r: "set_run rid (failed_run E e) (ce_before_close E d1) = (res2, d2)" by fastforce
    have "lock_keys d2" "owned d2 owner \<subseteq> set leases"
      using courteousD [OF E(2) 1] same_locks_owned [OF set_run_locks [OF r], of owner] by auto
    with assms(4) b Inl r release_all_owned [OF E(1), of d2 leases] show ?thesis
      by (auto simp: collect_run_def split: sum.splits)
  qed
qed

definition run_owner :: "db \<Rightarrow> string" where
  \<comment> \<open>the owner of the leases of a run planned in this state\<close>
  "run_owner d = ''collection:'' @ str_uuid (fresh_id d)"

lemma plan_run:
  assumes "plan_collection z now sid d = Inr (Collect s run remaining, d')"
  shows "run = new_run now s (case last_run sid d of None \<Rightarrow> [] | Some p \<Rightarrow> cr_checkpoint p) d \<and> d' = add_run run d
     \<and> find_row (\<lambda>s. sec_id s = sid) (sectors d) = Some s \<and> sec_id s = sid
     \<and> remaining = sec_daily_volume s - seen_today z now sid d \<and> 0 < remaining
     \<and> is_sector_due (map_option cr_started_at (last_run sid d)) (sec_frequency_minutes s) now
     \<and> is_within_sector_schedule z (sec_schedule_start s) (sec_schedule_end s) now = Inr True"
  using assms by (auto simp: plan_collection_def Let_def split: option.splits sum.splits if_splits dest: find_row_SomeD)

section \<open>Properties\<close>

text \<open>
  C8. A collection leaves no lease behind. Whatever happens in a run (no account free, a page that
  fails, a blocked session, a run row that disappeared, or success), and whatever the other sessions
  do in between as long as they do not write the name of this run into a lock, no account, proxy or
  SIM is locked by the run at the end.
\<close>

theorem collection_releases_leases:
  assumes "lock_keys d" "owned d (run_owner d) = {}" "courteous_env (run_owner d) E"
  shows "owned (snd (collect_sector E sid d)) (run_owner d) = {} \<and> lock_keys (snd (collect_sector E sid d))"
proof (cases "plan_collection (ce_zone E) (ce_start E) sid d")
  case (Inl e)
  with assms show ?thesis by (simp add: collect_sector_def session_def)
next
  case (Inr p)
  obtain pl d1 where p: "plan_collection (ce_zone E) (ce_start E) sid d = Inr (pl, d1)" using Inr by (cases p) auto
  have 1: "lock_keys d1" "owned d1 (run_owner d) = {}"
    using same_locks_owned [OF plan_locks [OF p], of "run_owner d"] assms by auto
  show ?thesis
  proof (cases pl)
    case (Skip reason)
    with p 1 show ?thesis by (simp add: collect_sector_def session_def)
  next
    case (Collect s run remaining)
    then have run: "cr_id run = fresh_id d" using plan_run [OF p [unfolded Collect]] by (simp add: new_run_def)
    show ?thesis
    proof (cases "start_page (cr_checkpoint run)")
      case (Inl e)
      with p 1 Collect show ?thesis by (simp add: collect_sector_def session_def)
    next
      case (Inr start)
      obtain res d' where c: "collect_run E (run_owner d) s (cr_id run)
          \<lparr>sp_max_pages = page_budget remaining, sp_start_page = start\<rparr> d1 = (res, d')" by fastforce
      with p Collect Inr run have "collect_sector E sid d = (res, d')"
        by (simp add: collect_sector_def session_def run_owner_def)
      with collect_run_released [OF assms(3) 1 c] show ?thesis by simp
    qed
  qed
qed

section \<open>The row of the run\<close>

definition run_row :: "uuid \<Rightarrow> db \<Rightarrow> collection_run option" where
  "run_row rid d = find_row (\<lambda>r. cr_id r = rid) (collection_runs d)"

definition lock_blind :: "(db \<Rightarrow> 'a) \<Rightarrow> bool" where
  \<comment> \<open>an observation that does not look at the three tables with locks\<close>
  "lock_blind obs =
     (\<forall>d a s p. obs (d\<lparr>sector_accounts := a\<rparr>) = obs d \<and> obs (d\<lparr>sector_sims := s\<rparr>) = obs d \<and> obs (d\<lparr>sector_proxies := p\<rparr>) = obs d)"

definition keeping_env :: "(db \<Rightarrow> 'a) \<Rightarrow> collect_env \<Rightarrow> bool" where
  \<comment> \<open>the other sessions leave the observation as it is\<close>
  "keeping_env obs E =
     (\<forall>d r. obs (ce_before_read E d) = obs d \<and> obs (ce_before_claim E r d) = obs d \<and> obs (ce_before_scrape E d) = obs d
        \<and> obs (ce_before_persist E d) = obs d \<and> obs (ce_before_close E d) = obs d \<and> obs (ce_before_release E r d) = obs d)"

lemma keeping_envD:
  assumes "keeping_env obs E"
  shows "obs (ce_before_read E d) = obs d" "obs (ce_before_claim E r d) = obs d" "obs (ce_before_scrape E d) = obs d"
    "obs (ce_before_persist E d) = obs d" "obs (ce_before_close E d) = obs d" "obs (ce_before_release E r d) = obs d"
  using assms unfolding keeping_env_def by blast+

lemma lock_blindD:
  assumes "lock_blind obs"
  shows "obs (d\<lparr>sector_accounts := a\<rparr>) = obs d" "obs (d\<lparr>sector_sims := ss\<rparr>) = obs d" "obs (d\<lparr>sector_proxies := p\<rparr>) = obs d"
  using assms unfolding lock_blind_def by blast+

lemma snd_session: "snd (session f d) = (case f d of Inl e \<Rightarrow> d | Inr (x, d') \<Rightarrow> d')"
  by (simp add: session_def split: sum.splits prod.splits)

lemma claim_resource_blind: "lock_blind obs \<Longrightarrow> obs (snd (claim_resource now kind i owner ttl d)) = obs d"
  unfolding claim_resource_def
  by (cases "claim_rows sa_id sa_lock sa_set_lock now i owner ttl (sector_accounts d)";
      cases "claim_rows ss_id ss_lock ss_set_lock now i owner ttl (sector_sims d)";
      cases "claim_rows sp_id sp_lock sp_set_lock now i owner ttl (sector_proxies d)")
    (simp_all add: snd_session lock_blindD split: prod.splits)

lemma release_resource_blind: "lock_blind obs \<Longrightarrow> obs (snd (release_resource kind i owner d)) = obs d"
  by (simp add: release_resource_def lock_blindD)

lemma claim_first_kept:
  assumes "lock_blind obs" "keeping_env obs E"
  shows "obs (snd (claim_first E owner kind is d)) = obs d"
proof (induction "is" arbitrary: d)
  case Nil
  then show ?case by simp
next
  case (Cons i "is")
  obtain res d1 where c: "claim_resource (ce_claim_at E (kind, i)) kind i owner lease_seconds (ce_before_claim E (kind, i) d) = (res, d1)"
    by fastforce
  have "obs d1 = obs d"
    using claim_resource_blind [OF assms(1)] c keeping_envD(2) [OF assms(2), of "(kind, i)" d] by (metis snd_conv)
  with Cons c show ?case by (simp split: sum.splits)
qed

lemma claim_kind_kept:
  assumes "lock_blind obs" "keeping_env obs E" "claim_kind E owner kind is leases d = (res, leases', d')"
  shows "obs d' = obs d"
  using assms claim_first_kept [OF assms(1,2), of owner kind "is" d]
  by (auto simp: claim_kind_def split: if_splits prod.splits sum.splits option.splits)

lemma claim_account_kept:
  assumes "lock_blind obs" "keeping_env obs E" "claim_account E owner s accounts d = (res, leases, d')"
  shows "obs d' = obs d"
  using assms claim_first_kept [OF assms(1,2), of owner "''account''" "map sa_id accounts" d]
  by (auto simp: claim_account_def split: if_splits prod.splits sum.splits option.splits)

lemma claim_all_kept:
  assumes "lock_blind obs" "keeping_env obs E" "claim_all E owner s d = (res, leases, d')"
  shows "obs d' = obs d"
  using assms
  by (auto simp: claim_all_def Let_def keeping_envD split: prod.splits sum.splits
      dest!: claim_kind_kept [OF assms(1,2)] claim_account_kept [OF assms(1,2)])

lemma release_all_kept: "lock_blind obs \<Longrightarrow> keeping_env obs E \<Longrightarrow> obs (release_all E owner rs d) = obs d"
proof (induction rs arbitrary: d)
  case Nil
  then show ?case by simp
next
  case (Cons r rs)
  have "obs (snd (release_resource (fst r) (snd r) owner (ce_before_release E r d))) = obs d"
    using release_resource_blind [OF Cons.prems(1)] keeping_envD(6) [OF Cons.prems(2), of r d] by metis
  with Cons show ?case by simp
qed

lemma run_row_blind [simp]: "lock_blind (run_row rid)"
  by (simp add: lock_blind_def run_row_def)

lemma scrape_runs: "scrape E s params a d = (res, d') \<Longrightarrow> collection_runs d' = collection_runs d"
  by (auto simp: scrape_def scrape_lbc_def quarantine_def split: if_splits option.splits sum.splits)

lemma only_listings_runs: "only_listings d d' \<Longrightarrow> collection_runs d' = collection_runs d \<and> sectors d' = sectors d"
proof -
  assume "only_listings d d'"
  then have "d'\<lparr>listings := listings d, fresh_id := fresh_id d\<rparr> = d" by (auto simp: only_listings_def)
  then have "collection_runs d = collection_runs (d'\<lparr>listings := listings d, fresh_id := fresh_id d\<rparr>)
     \<and> sectors d = sectors (d'\<lparr>listings := listings d, fresh_id := fresh_id d\<rparr>)" by simp
  then show ?thesis by simp
qed

lemma set_run_row:
  assumes "set_run rid f d = (res, d')" "\<And>r. cr_id (f r) = cr_id r" "run_row rid d = Some row"
  shows "res = Inr () \<and> run_row rid d' = Some (f row)"
proof -
  have row: "find_row (\<lambda>r. cr_id r = rid) (collection_runs d) = Some row" using assms(3) by (simp add: run_row_def)
  then have "cr_id row = rid" by (blast dest: find_row_SomeD)
  with assms(1,2) row show ?thesis
    by (auto simp: set_run_def run_row_def
      find_update_where [where Q = "\<lambda>r. cr_id r = cr_id row" and P = "\<lambda>r. cr_id r = cr_id row" and f = f])
qed

lemma completed_run_id [simp]: "cr_id (completed_run E params n r) = cr_id r"
  by (simp add: completed_run_def)

lemma failed_run_id [simp]: "cr_id (failed_run E e r) = cr_id r"
  by (simp add: failed_run_def)

lemma collect_body_row:
  assumes "keeping_env (run_row rid) E" "run_row rid d = Some row" "collect_body E owner s rid params d = (res, leases, d')"
  shows "case res of Inl e \<Rightarrow> run_row rid d' = Some row
       | Inr reply \<Rightarrow> \<exists>i k n. reply = Collected i k n \<and> run_row rid d' = Some (completed_run E params (int n) row)"
proof -
  obtain res1 leases1 d1 where c: "claim_all E owner s d = (res1, leases1, d1)" by (metis prod_cases3)
  have 1: "run_row rid d1 = Some row" using claim_all_kept [OF run_row_blind assms(1) c] assms(2) by simp
  show ?thesis
  proof (cases res1)
    case (Inl e)
    with assms(3) c 1 show ?thesis by (auto simp: collect_body_def)
  next
    case (Inr a)
    obtain res2 d2 where sc: "scrape E s params a (ce_before_scrape E d1) = (res2, d2)" by fastforce
    have 2: "run_row rid d2 = Some row"
      using keeping_envD(3) [OF assms(1)] scrape_runs [OF sc] 1 by (simp add: run_row_def)
    show ?thesis
    proof (cases res2)
      case (Inl e)
      with assms(3) c sc Inr 2 show ?thesis by (auto simp: collect_body_def)
    next
      case found: (Inr found)
      obtain i k d3 where p: "persist_listings (ce_persist_at E) (Some (sec_id s)) found (ce_before_persist E d2) = ((i, k), d3)"
        by (metis surj_pair)
      have 3: "run_row rid (ce_before_close E d3) = Some row"
        using keeping_envD(4,5) [OF assms(1)] only_listings_runs [OF persist_only [OF p]] 2 by (simp add: run_row_def)
      obtain res4 d4 where r: "set_run rid (completed_run E params (int (length found))) (ce_before_close E d3) = (res4, d4)" by fastforce
      have "res4 = Inr () \<and> run_row rid d4 = Some (completed_run E params (int (length found)) row)"
        by (rule set_run_row [OF r _ 3]) simp
      with assms(3) c sc Inr found p r show ?thesis by (auto simp: collect_body_def)
    qed
  qed
qed

lemma collect_run_row:
  assumes "keeping_env (run_row rid) E" "run_row rid d = Some row" "collect_run E owner s rid params d = (res, d')"
  shows "case res of Inl e \<Rightarrow> run_row rid d' = Some (failed_run E e row)
       | Inr reply \<Rightarrow> \<exists>i k n. reply = Collected i k n \<and> run_row rid d' = Some (completed_run E params (int n) row)"
proof -
  obtain res1 leases d1 where b: "collect_body E owner s rid params d = (res1, leases, d1)" by (metis prod_cases3)
  show ?thesis
  proof (cases res1)
    case (Inr reply)
    with collect_body_row [OF assms(1,2) b] assms(3) b show ?thesis
      by (auto simp: collect_run_def release_all_kept [OF run_row_blind assms(1)])
  next
    case (Inl e)
    with collect_body_row [OF assms(1,2) b] have "run_row rid (ce_before_close E d1) = Some row"
      by (simp add: keeping_envD(5) [OF assms(1)])
    obtain res2 d2 where r: "set_run rid (failed_run E e) (ce_before_close E d1) = (res2, d2)" by fastforce
    have "res2 = Inr () \<and> run_row rid d2 = Some (failed_run E e row)"
      by (rule set_run_row [OF r]) (simp, fact)
    with assms(3) b Inl r show ?thesis
      by (auto simp: collect_run_def release_all_kept [OF run_row_blind assms(1)])
  qed
qed

definition run_ids :: "db \<Rightarrow> bool" where
  \<comment> \<open>new identifiers are new\<close>
  "run_ids d = (\<forall>r\<in>set (collection_runs d). cr_id r < fresh_id d)"

lemma run_row_add: "run_ids d \<Longrightarrow> cr_id run = fresh_id d \<Longrightarrow> run_row (fresh_id d) (add_run run d) = Some run"
proof -
  assume *: "run_ids d" "cr_id run = fresh_id d"
  then have "find_row (\<lambda>r. cr_id r = fresh_id d) (collection_runs d) = None"
    by (auto simp: run_ids_def find_row_None_iff)
  with * show ?thesis by (simp add: run_row_def add_run_def find_row_append)
qed

text \<open>
  The books of a collection. A run that starts (the session planned it, its checkpoint reads as a
  page) always ends: it returns the counters and its row is COMPLETED with the number of listings
  seen and the checkpoint moved on by the pages it was allowed, or it raises and its row is FAILED
  with the text of that exception and the checkpoint of the run before; in both cases it has a date
  of end, and it never counts as running. This holds whatever the other sessions do to other rows.
\<close>

theorem collection_run_closed:
  assumes "run_ids d" "keeping_env (run_row (fresh_id d)) E"
    and "plan_collection (ce_zone E) (ce_start E) sid d = Inr (Collect s run remaining, d1)"
    and "start_page (cr_checkpoint run) = Inr start"
  shows "\<exists>res d' row. collect_sector E sid d = (res, d') \<and> run_row (fresh_id d) d' = Some row
     \<and> cr_sector_id row = sid \<and> cr_started_at row = ce_start E \<and> cr_finished_at row = Some (ce_end E)
     \<and> (case res of
          Inr reply \<Rightarrow> \<exists>i k n. reply = Collected i k n \<and> cr_status row = RUN_COMPLETED \<and> cr_listings_seen row = int n
            \<and> start_page (cr_checkpoint row) = Inr (start + page_budget remaining) \<and> cr_last_error row = None
        | Inl e \<Rightarrow> cr_status row = RUN_FAILED \<and> cr_last_error row = Some (take 1000 (exn_str e))
            \<and> cr_checkpoint row = cr_checkpoint run \<and> cr_listings_seen row = 0)"
proof -
  note pl = plan_run [OF assms(3)]
  have run: "cr_id run = fresh_id d" "cr_sector_id run = sid" "cr_started_at run = ce_start E" "cr_last_error run = None"
    "cr_listings_seen run = 0"
    using pl by (auto simp: new_run_def)
  have row: "run_row (fresh_id d) d1 = Some run" using run_row_add [OF assms(1) run(1)] pl by simp
  obtain res d' where c: "collect_run E (run_owner d) s (fresh_id d)
      \<lparr>sp_max_pages = page_budget remaining, sp_start_page = start\<rparr> d1 = (res, d')" by fastforce
  then have "collect_sector E sid d = (res, d')"
    using assms(3,4) run by (simp add: collect_sector_def session_def run_owner_def)
  with collect_run_row [OF assms(2) row c] run show ?thesis
    by (cases res) (auto simp: failed_run_def completed_run_def start_page_def dict_get_def)
qed

section \<open>The pages over several runs\<close>

definition books :: "db \<Rightarrow> listing list \<times> collection_run list \<times> sector list \<times> uuid" where
  "books d = (listings d, collection_runs d, sectors d, fresh_id d)"

lemma books_blind [simp]: "lock_blind books"
  by (simp add: lock_blind_def books_def)

lemma books_eqD: "books d' = books d \<Longrightarrow>
    listings d' = listings d \<and> collection_runs d' = collection_runs d \<and> sectors d' = sectors d \<and> fresh_id d' = fresh_id d"
  by (simp add: books_def)

lemma scrape_books: "scrape E s params a d = (res, d') \<Longrightarrow> books d' = books d"
  by (auto simp: scrape_def scrape_lbc_def quarantine_def books_def split: if_splits option.splits sum.splits)

lemma persist_each_fresh: "persist_each now sid ls d = (urls, d') \<Longrightarrow> fresh_id d \<le> fresh_id d'"
proof (induction ls arbitrary: d urls)
  case Nil
  then show ?case by simp
next
  case (Cons l ls)
  show ?case
  proof (cases "rl_url l = [] \<or> listing_conflict l d")
    case True
    with Cons show ?thesis by auto
  next
    case False
    then obtain urls1 where "persist_each now sid ls (add_listing now sid l d) = (urls1, d')"
      using Cons.prems by (auto split: prod.splits)
    from Cons.IH [OF this] show ?thesis by (simp add: add_listing_def)
  qed
qed

lemma persist_fresh: "persist_listings now sid ls d = (c, d') \<Longrightarrow> fresh_id d \<le> fresh_id d'"
  using persist_each_fresh by (fastforce simp: persist_listings_def split: prod.splits)

fun closing :: "collect_env \<Rightarrow> scrape_params \<Rightarrow> collect_reply result \<Rightarrow> collection_run \<Rightarrow> collection_run" where
  \<comment> \<open>what the last session of a run does to its row\<close>
  "closing E params (Inl e) = failed_run E e"
| "closing E params (Inr (Collected i k n)) = completed_run E params (int n)"
| "closing E params (Inr (Skipped reason)) = id"

lemma set_run_ok:
  assumes "rid \<in> cr_id ` set (collection_runs d)"
  shows "set_run rid f d = (Inr (), d\<lparr>collection_runs := update_where (\<lambda>r. cr_id r = rid) f (collection_runs d)\<rparr>)"
proof -
  have "find_row (\<lambda>r. cr_id r = rid) (collection_runs d) \<noteq> None" using assms by (auto simp: find_row_None_iff)
  then show ?thesis by (auto simp: set_run_def)
qed

lemma collect_body_books:
  assumes "keeping_env books E" "rid \<in> cr_id ` set (collection_runs d)" "collect_body E owner s rid params d = (res, leases, d')"
  shows "sectors d' = sectors d \<and> fresh_id d \<le> fresh_id d'
     \<and> (case res of Inl e \<Rightarrow> collection_runs d' = collection_runs d
        | Inr reply \<Rightarrow> \<exists>i k n. reply = Collected i k n
            \<and> collection_runs d' = update_where (\<lambda>r. cr_id r = rid) (completed_run E params (int n)) (collection_runs d))
     \<and> (page_numbers params = [] \<longrightarrow> listings d' = listings d \<and> (\<forall>i k n. res = Inr (Collected i k n) \<longrightarrow> i = 0 \<and> k = 0 \<and> n = 0))"
proof -
  obtain res1 leases1 d1 where c: "claim_all E owner s d = (res1, leases1, d1)" by (metis prod_cases3)
  have 1: "books d1 = books d" using claim_all_kept [OF books_blind assms(1) c] .
  show ?thesis
  proof (cases res1)
    case (Inl e)
    with assms(3) c books_eqD [OF 1] show ?thesis by (auto simp: collect_body_def)
  next
    case (Inr a)
    obtain res2 d2 where sc: "scrape E s params a (ce_before_scrape E d1) = (res2, d2)" by fastforce
    have 2: "books d2 = books d" using keeping_envD(3) [OF assms(1), of d1] scrape_books [OF sc] 1 by simp
    show ?thesis
    proof (cases res2)
      case (Inl e)
      with assms(3) c sc Inr books_eqD [OF 2] show ?thesis by (auto simp: collect_body_def)
    next
      case found: (Inr found)
      have none: "page_numbers params = [] \<Longrightarrow> found = []"
        using sc found by (auto simp: scrape_def scrape_lbc_def scrape_la_centrale_def parse_lbc_search_items_def
          split: if_splits option.splits)
      obtain i k d3 where p: "persist_listings (ce_persist_at E) (Some (sec_id s)) found (ce_before_persist E d2) = ((i, k), d3)"
        by (metis surj_pair)
      have 3: "books (ce_before_persist E d2) = books d" using keeping_envD(4) [OF assms(1), of d2] 2 by simp
      have 4: "collection_runs d3 = collection_runs d" "sectors d3 = sectors d" "fresh_id d \<le> fresh_id d3"
        using only_listings_runs [OF persist_only [OF p]] persist_fresh [OF p] books_eqD [OF 3] by auto
      have 5: "books (ce_before_close E d3) = books d3" using keeping_envD(5) [OF assms(1)] .
      have "rid \<in> cr_id ` set (collection_runs (ce_before_close E d3))" using books_eqD [OF 5] 4 assms(2) by simp
      note r = set_run_ok [OF this]
      have idle: "page_numbers params = [] \<longrightarrow> i = 0 \<and> k = 0 \<and> listings d3 = listings d"
        using none p books_eqD [OF 3] by (auto simp: persist_listings_def)
      have "res = Inr (Collected i k (length found)) \<and> d' = (ce_before_close E d3)\<lparr>collection_runs :=
          update_where (\<lambda>r. cr_id r = rid) (completed_run E params (int (length found))) (collection_runs (ce_before_close E d3))\<rparr>"
        using assms(3) c sc Inr found p r by (simp add: collect_body_def)
      with 4 books_eqD [OF 5] none idle show ?thesis by simp
    qed
  qed
qed

lemma collect_run_books:
  assumes "keeping_env books E" "rid \<in> cr_id ` set (collection_runs d)" "collect_run E owner s rid params d = (res, d')"
  shows "sectors d' = sectors d \<and> fresh_id d \<le> fresh_id d'
     \<and> collection_runs d' = update_where (\<lambda>r. cr_id r = rid) (closing E params res) (collection_runs d)
     \<and> (\<forall>reason. res \<noteq> Inr (Skipped reason))
     \<and> (page_numbers params = [] \<longrightarrow> listings d' = listings d \<and> (\<forall>i k n. res = Inr (Collected i k n) \<longrightarrow> i = 0 \<and> k = 0 \<and> n = 0))"
proof -
  obtain res1 leases d1 where b: "collect_body E owner s rid params d = (res1, leases, d1)" by (metis prod_cases3)
  note body = collect_body_books [OF assms(1,2) b]
  have rel: "books (release_all E owner leases x) = books x" for x using release_all_kept [OF books_blind assms(1)] .
  show ?thesis
  proof (cases res1)
    case (Inr reply)
    then have "res = Inr reply" "d' = release_all E owner leases d1" using assms(3) b by (simp_all add: collect_run_def)
    with body Inr books_eqD [OF rel [of d1]] show ?thesis by auto
  next
    case (Inl e)
    have 1: "books (ce_before_close E d1) = books d1" using keeping_envD(5) [OF assms(1)] .
    have "rid \<in> cr_id ` set (collection_runs (ce_before_close E d1))" using books_eqD [OF 1] body Inl assms(2) by simp
    note r = set_run_ok [OF this]
    define d2 where "d2 = (ce_before_close E d1)\<lparr>collection_runs := update_where (\<lambda>r. cr_id r = rid) (failed_run E e)
        (collection_runs (ce_before_close E d1))\<rparr>"
    have "res = Inl e" "d' = release_all E owner leases d2" using assms(3) b Inl r by (simp_all add: collect_run_def d2_def)
    with body Inl books_eqD [OF rel [of d2]] books_eqD [OF 1] show ?thesis by (auto simp: d2_def)
  qed
qed

lemma latest_last: "\<forall>r\<in>set t. key r \<le> key x \<Longrightarrow> latest key (t @ [x]) = Some x"
  by (induction t) auto

definition exhausted :: "uuid \<Rightarrow> int \<Rightarrow> db \<Rightarrow> bool" where
  \<comment> \<open>the last run of the sector left a checkpoint beyond every page the daily volume allows\<close>
  "exhausted sid volume d =
     (run_ids d \<and> (\<forall>r\<in>set (collection_runs d). 0 \<le> cr_listings_seen r)
      \<and> (\<exists>r p. last_run sid d = Some r \<and> start_page (cr_checkpoint r) = Inr p \<and> page_budget volume < p))"

lemma closing_simps [simp]: "cr_id (closing E params res r) = cr_id r" "cr_sector_id (closing E params res r) = cr_sector_id r"
  "cr_started_at (closing E params res r) = cr_started_at r"
proof -
  have "cr_id (closing E params res r) = cr_id r \<and> cr_sector_id (closing E params res r) = cr_sector_id r
     \<and> cr_started_at (closing E params res r) = cr_started_at r"
    by (cases "(E, params, res)" rule: closing.cases) (auto simp: failed_run_def completed_run_def)
  then show "cr_id (closing E params res r) = cr_id r" "cr_sector_id (closing E params res r) = cr_sector_id r"
    "cr_started_at (closing E params res r) = cr_started_at r" by simp_all
qed

lemma seen_today_nonneg: "\<forall>r\<in>set (collection_runs d). 0 \<le> cr_listings_seen r \<Longrightarrow> 0 \<le> seen_today z now sid d"
  by (auto simp: seen_today_def Let_def intro!: sum_list_nonneg)

text \<open>What a run that starts leaves in the table of runs.\<close>

lemma collect_sector_run:
  assumes "keeping_env books E" "run_ids d" "0 \<le> sec_frequency_minutes s"
    and "plan_collection (ce_zone E) (ce_start E) sid d = Inr (Collect s run remaining, d1)"
    and "start_page (cr_checkpoint run) = Inr start"
    and "collect_sector E sid d = (res, d')"
  defines "params \<equiv> \<lparr>sp_max_pages = page_budget remaining, sp_start_page = start\<rparr>"
  shows "sectors d' = sectors d \<and> collection_runs d' = collection_runs d @ [closing E params res run]
     \<and> run_ids d' \<and> last_run sid d' = Some (closing E params res run) \<and> (\<forall>reason. res \<noteq> Inr (Skipped reason))
     \<and> (page_numbers params = [] \<longrightarrow> listings d' = listings d \<and> (\<forall>i k n. res = Inr (Collected i k n) \<longrightarrow> i = 0 \<and> k = 0 \<and> n = 0))"
proof -
  note pl = plan_run [OF assms(4)]
  have run: "cr_id run = fresh_id d" "cr_sector_id run = sid" "cr_started_at run = ce_start E"
    using pl by (auto simp: new_run_def)
  have d1: "sectors d1 = sectors d" "collection_runs d1 = collection_runs d @ [run]" "fresh_id d1 = Suc (fresh_id d)"
    "listings d1 = listings d"
    using pl by (auto simp: add_run_def)
  have "collect_run E (run_owner d) s (fresh_id d) params d1 = (res, d')"
    using assms(4-6) run by (simp add: collect_sector_def session_def run_owner_def params_def)
  note cr = collect_run_books [OF assms(1) _ this]
  have "fresh_id d \<in> cr_id ` set (collection_runs d1)" using d1 run by simp
  note cr = cr [OF this]
  have old: "\<forall>r\<in>set (collection_runs d). cr_id r \<noteq> fresh_id d" using assms(2) by (auto simp: run_ids_def)
  have runs: "collection_runs d' = collection_runs d @ [closing E params res run]"
    using cr d1 run update_where_none [OF old, of "closing E params res"] by (simp add: update_where_def)
  have ids: "run_ids d'" using assms(2) runs cr d1 run by (fastforce simp: run_ids_def)
  have "\<forall>r\<in>set (filter (\<lambda>r. cr_sector_id r = sid) (collection_runs d)). cr_started_at r \<le> ce_start E"
  proof (cases "last_run sid d")
    case None
    then show ?thesis by (simp add: last_run_def)
  next
    case (Some l)
    then have "cr_started_at l + minutes (sec_frequency_minutes s) \<le> ce_start E" using pl by (simp add: is_sector_due_def)
    moreover have "0 \<le> minutes (sec_frequency_minutes s)" using assms(3) by (simp add: duration_defs)
    ultimately have "cr_started_at l \<le> ce_start E" by simp
    with latest_SomeD [OF Some [unfolded last_run_def]] show ?thesis by force
  qed
  then have "last_run sid d' = Some (closing E params res run)"
    using runs run latest_last [where key = cr_started_at and x = "closing E params res run"] by (simp add: last_run_def)
  with cr d1 runs ids show ?thesis by simp
qed

lemma exhausted_run:
  assumes "keeping_env books E" "exhausted sid (sec_daily_volume s) d" "0 \<le> sec_frequency_minutes s"
    and "find_row (\<lambda>s. sec_id s = sid) (sectors d) = Some s" and "collect_sector E sid d = (res, d')"
  shows "exhausted sid (sec_daily_volume s) d' \<and> listings d' = listings d \<and> sectors d' = sectors d
     \<and> (\<forall>i k n. res = Inr (Collected i k n) \<longrightarrow> i = 0 \<and> k = 0 \<and> n = 0)"
proof (cases "plan_collection (ce_zone E) (ce_start E) sid d")
  case (Inl e)
  with assms(2,5) show ?thesis by (auto simp: collect_sector_def session_def)
next
  case (Inr p)
  obtain pl d1 where p: "plan_collection (ce_zone E) (ce_start E) sid d = Inr (pl, d1)" using Inr by (cases p) auto
  show ?thesis
  proof (cases pl)
    case (Skip reason)
    then have "d1 = d"
      using p by (auto simp: plan_collection_def Let_def split: option.splits sum.splits if_splits)
    with assms(2,5) p Skip show ?thesis by (auto simp: collect_sector_def session_def)
  next
    case (Collect s' run remaining)
    note pl = plan_run [OF p [unfolded Collect]]
    then have s': "s' = s" using assms(4) by simp
    obtain l q where l: "last_run sid d = Some l" "start_page (cr_checkpoint l) = Inr q" "page_budget (sec_daily_volume s) < q"
      using assms(2) by (auto simp: exhausted_def)
    have ids: "run_ids d" "\<forall>r\<in>set (collection_runs d). 0 \<le> cr_listings_seen r" using assms(2) by (auto simp: exhausted_def)
    have start: "start_page (cr_checkpoint run) = Inr q" using pl l by (simp add: new_run_def)
    have "remaining \<le> sec_daily_volume s" using pl s' seen_today_nonneg [OF ids(2)] by simp
    then have budget: "page_budget remaining < q" using l(3) page_budget_mono order_le_less_trans by blast
    let ?params = "\<lparr>sp_max_pages = page_budget remaining, sp_start_page = q\<rparr>"
    have none: "page_numbers ?params = []" using budget by (simp add: page_numbers_empty)
    note run = collect_sector_run [OF assms(1) ids(1) _ p [unfolded Collect] start assms(5), unfolded s', OF assms(3)]
    have "0 \<le> cr_listings_seen (closing E ?params res run)"
      using run pl by (cases "(E, ?params, res)" rule: closing.cases) (auto simp: failed_run_def completed_run_def new_run_def)
    moreover have "\<exists>p. start_page (cr_checkpoint (closing E ?params res run)) = Inr p \<and> page_budget (sec_daily_volume s) < p"
    proof (cases "(E, ?params, res)" rule: closing.cases)
      case (1 E' params' e)
      then show ?thesis using start l(3) by (auto simp: failed_run_def)
    next
      case (2 E' params' i k n)
      then show ?thesis using l(3) page_budget_bounds [of remaining]
        by (auto simp: completed_run_def start_page_def dict_get_def)
    next
      case (3 E' params' reason)
      then show ?thesis using run by auto
    qed
    ultimately show ?thesis using run ids(2) none by (auto simp: exhausted_def)
  qed
qed

fun collect_history :: "collect_env list \<Rightarrow> uuid \<Rightarrow> db \<Rightarrow> collect_reply result list \<times> db" where
  \<comment> \<open>the runs of a sector, one after the other\<close>
  "collect_history [] sid d = ([], d)"
| "collect_history (E # Es) sid d =
     (case collect_sector E sid d of (res, d1) \<Rightarrow> (case collect_history Es sid d1 of (rs, d2) \<Rightarrow> (res # rs, d2)))"

lemma exhausted_history:
  assumes "\<forall>E\<in>set Es. keeping_env books E" "exhausted sid (sec_daily_volume s) d" "0 \<le> sec_frequency_minutes s"
    and "find_row (\<lambda>s. sec_id s = sid) (sectors d) = Some s" and "collect_history Es sid d = (rs, d')"
  shows "listings d' = listings d \<and> (\<forall>i k n. Inr (Collected i k n) \<in> set rs \<longrightarrow> i = 0 \<and> k = 0 \<and> n = 0)"
  using assms
proof (induction Es arbitrary: d rs)
  case Nil
  then show ?case by auto
next
  case (Cons E Es)
  obtain res d1 where c: "collect_sector E sid d = (res, d1)" by fastforce
  obtain rs1 where h: "collect_history Es sid d1 = (rs1, d')" "rs = res # rs1" using Cons.prems(5) c by (auto split: prod.splits)
  have "keeping_env books E" using Cons.prems(1) by simp
  note run = exhausted_run [OF this Cons.prems(2-4) c]
  have "listings d' = listings d1 \<and> (\<forall>i k n. Inr (Collected i k n) \<in> set rs1 \<longrightarrow> i = 0 \<and> k = 0 \<and> n = 0)"
    by (rule Cons.IH) (use Cons.prems run h in auto)
  with run h show ?case by auto
qed

text \<open>
  A sector is read once. After the first completed collection of a sector every later one, in any
  number, at any time and whatever the sites then show, reads no page: it stores no listing and
  reports none seen. The reason is the checkpoint: a run stops after as many pages as its budget and
  stores the next page, which is beyond the budget of every later run of the same daily volume
  (\<open>range(start_page, max_pages + 1)\<close> is empty), and each such run moves it on. The other sessions may
  do anything between the steps but write listings, runs or sectors.
\<close>

theorem second_collection_reads_nothing:
  assumes "run_ids d" "\<forall>r\<in>set (collection_runs d). 0 \<le> cr_listings_seen r" "last_run sid d = None"
    and "find_row (\<lambda>s. sec_id s = sid) (sectors d) = Some s" "0 \<le> sec_frequency_minutes s"
    and "\<forall>E\<in>set (E0 # Es). keeping_env books E"
    and "collect_sector E0 sid d = (Inr (Collected i k n), d1)" and "collect_history Es sid d1 = (rs, d2)"
  shows "listings d2 = listings d1 \<and> (\<forall>i k n. Inr (Collected i k n) \<in> set rs \<longrightarrow> i = 0 \<and> k = 0 \<and> n = 0)"
proof -
  obtain s' run remaining d0 where p: "plan_collection (ce_zone E0) (ce_start E0) sid d = Inr (Collect s' run remaining, d0)"
    using assms(7) by (auto simp: collect_sector_def session_def split: sum.splits plan.splits)
  note pl = plan_run [OF p]
  then have s': "s' = s" using assms(4) by simp
  have run: "cr_checkpoint run = []" using pl assms(3) by (simp add: new_run_def)
  then have start: "start_page (cr_checkpoint run) = Inr 1" by (simp add: start_page_def dict_get_def)
  have "filter (\<lambda>r. cr_sector_id r = sid) (collection_runs d) = []" using assms(3) by (simp add: last_run_def)
  then have "\<forall>r\<in>set (collection_runs d). cr_sector_id r \<noteq> sid" by (simp add: filter_empty_conv)
  then have "seen_today (ce_zone E0) (ce_start E0) sid d = 0"
    by (simp add: seen_today_def Let_def filter_empty_conv)
  then have remaining: "remaining = sec_daily_volume s" using pl s' by simp
  have E0: "keeping_env books E0" using assms(6) by simp
  note first = collect_sector_run [OF E0 assms(1) _ p start assms(7), unfolded s', OF assms(5)]
  have "exhausted sid (sec_daily_volume s) d1"
    using first assms(2) remaining page_budget_bounds [of "sec_daily_volume s"]
    by (auto simp: exhausted_def completed_run_def start_page_def dict_get_def)
  moreover have "find_row (\<lambda>s. sec_id s = sid) (sectors d1) = Some s" using first assms(4) by simp
  ultimately show ?thesis using exhausted_history [OF _ _ assms(5) _ assms(8)] assms(6) by simp
qed

text \<open>
  A failed collection is not tried again. When a run raises (no lease free, a page that fails), the
  task of the queue is retried after one and two minutes; a call within the frequency of the sector,
  which the API keeps at five minutes or more, finds the failed run as the last one and returns
  \<open>not_due\<close> (or the sector is outside its hours) without an effect.
\<close>

theorem failed_collection_not_retried:
  assumes "keeping_env books E" "run_ids d" "find_row (\<lambda>s. sec_id s = sid) (sectors d) = Some s" "0 \<le> sec_frequency_minutes s"
    and "plan_collection (ce_zone E) (ce_start E) sid d = Inr (Collect s run remaining, d0)"
    and "start_page (cr_checkpoint run) = Inr start"
    and "collect_sector E sid d = (res, d1)" and "ce_start E' < ce_start E + minutes (sec_frequency_minutes s)"
  shows "collect_sector E' sid d1 = (Inr (Skipped ''not_due''), d1) \<or> collect_sector E' sid d1 = (Inr (Skipped ''outside_schedule''), d1)"
proof -
  note run = collect_sector_run [OF assms(1,2,4,5,6,7)]
  have "cr_started_at run = ce_start E" using plan_run [OF assms(5)] by (simp add: new_run_def)
  then have "map_option cr_started_at (last_run sid d1) = Some (ce_start E)" using run by simp
  with assms(8) have due: "\<not> is_sector_due (map_option cr_started_at (last_run sid d1)) (sec_frequency_minutes s) (ce_start E')"
    by (simp only: is_sector_due_def option.case not_le)
  have s: "find_row (\<lambda>s. sec_id s = sid) (sectors d1) = Some s" using run assms(3) by simp
  obtain a b where "parse_hhmm (sec_schedule_start s) = Inr a" "parse_hhmm (sec_schedule_end s) = Inr b"
    using plan_run [OF assms(5)] by (auto simp: is_within_sector_schedule_def split: sum.splits)
  then obtain inside where w: "is_within_sector_schedule (ce_zone E') (sec_schedule_start s) (sec_schedule_end s) (ce_start E') = Inr inside"
    by (simp add: is_within_sector_schedule_def)
  show ?thesis
  proof (cases inside)
    case True
    with s w due show ?thesis by (simp add: collect_sector_def session_def plan_collection_def Let_def)
  next
    case False
    with s w show ?thesis by (simp add: collect_sector_def session_def plan_collection_def Let_def)
  qed
qed

section \<open>A sector of La Centrale\<close>

definition demo_sector :: sector where
  "demo_sector = \<lparr>sec_id = 7, sec_workspace_id = 0, sec_name = ''Nord'', sec_source = ''la_centrale'', sec_region = ''HDF'',
     sec_department = ''59'', sec_radius_km = 0, sec_brand_model = None, sec_mileage_max = None, sec_price_min = None,
     sec_price_max = None, sec_frequency_minutes = 60, sec_schedule_start = ''06:00'', sec_schedule_end = ''22:00'',
     sec_daily_volume = 50, sec_status = SECTOR_ACTIF, sec_created_at = 0\<rparr>"

definition demo_proxy_row :: sector_proxy where
  "demo_proxy_row = \<lparr>sp_id = 4, sp_sector_id = 7, sp_proxy_id = ''p'', sp_locked_until = None, sp_locked_by = None\<rparr>"

definition demo_sector_db :: db where
  "demo_sector_db = empty_db\<lparr>sectors := [demo_sector], sector_proxies := [demo_proxy_row], fresh_id := 10\<rparr>"

definition demo_lib :: phone_lib where
  "demo_lib = \<lparr>parse_fr = (\<lambda>s. None)\<rparr>"

definition demo_collect :: "int \<Rightarrow> (int \<Rightarrow> lc_page result) \<Rightarrow> collect_env" where
  "demo_collect day crawler =
     \<lparr>ce_zone = demo_zone, ce_start = days day + hours 9, ce_claim_at = (\<lambda>r. days day + hours 9), ce_persist_at = days day + hours 9,
      ce_end = days day + hours 10, ce_lib = demo_lib, ce_dumps = (\<lambda>i. []), ce_dumps_lc = (\<lambda>i. []), ce_browser = (\<lambda>n. Inr []),
      ce_crawler = crawler, ce_isoformat = (\<lambda>t. ''iso''), ce_before_read = id, ce_before_claim = (\<lambda>r. id), ce_before_scrape = id,
      ce_before_persist = id, ce_before_close = id, ce_before_release = (\<lambda>r. id)\<rparr>"

definition demo_page :: "int \<Rightarrow> lc_page result" where
  "demo_page n = (if n = 1 then Inr (Extracted [[(''url'', ''/a''), (''title'', ''Clio'')]]) else Inr NoContent)"

definition demo_pages :: "int \<Rightarrow> lc_page result" where
  \<comment> \<open>a new listing on every page\<close>
  "demo_pages n = Inr (Extracted [[(''url'', str_int n)]])"

definition demo_run :: collection_run where
  "demo_run = new_run (hours 9) demo_sector [] demo_sector_db"

lemma demo_plan: "plan_collection (ce_zone (demo_collect 0 pages)) (ce_start (demo_collect 0 pages)) 7 demo_sector_db
    = Inr (Collect demo_sector demo_run 50, add_run demo_run demo_sector_db)"
proof -
  have "plan_collection demo_zone (hours 9) 7 demo_sector_db = Inr (Collect demo_sector demo_run 50, add_run demo_run demo_sector_db)"
    by code_simp
  then show ?thesis by (simp add: demo_collect_def duration_defs)
qed

lemma demo_start: "start_page (cr_checkpoint demo_run) = Inr 1"
  by code_simp

lemma demo_collect_keeps [simp]: "keeping_env obs (demo_collect day pages)"
  by (simp add: keeping_env_def demo_collect_def)

lemma demo_collect_courteous [simp]: "courteous_env owner (demo_collect day pages)"
  by (simp add: courteous_env_def courteous_def demo_collect_def)

lemma demo_sector_ids: "run_ids demo_sector_db" "collection_runs demo_sector_db = []" "listings demo_sector_db = []"
  "sectors demo_sector_db = [demo_sector]" "fresh_id demo_sector_db = 10" "last_run 7 demo_sector_db = None"
  by (simp_all add: demo_sector_db_def empty_db_def run_ids_def last_run_def)

lemma collection_releases_leases_witness:
  "owned (snd (collect_sector (demo_collect 0 demo_page) 7 demo_sector_db)) (run_owner demo_sector_db) = {}"
proof -
  have "lock_keys demo_sector_db" by code_simp
  moreover have "owned demo_sector_db (run_owner demo_sector_db) = {}"
    by (auto simp: owned_def resource_lock_def lock_at_def demo_sector_db_def empty_db_def demo_proxy_row_def sp_lock_def)
  ultimately show ?thesis using collection_releases_leases [OF _ _ demo_collect_courteous] by blast
qed

lemma collection_run_closed_witness:
  "\<exists>res d' row. collect_sector (demo_collect 0 demo_page) 7 demo_sector_db = (res, d') \<and> run_row (fresh_id demo_sector_db) d' = Some row
     \<and> cr_status row \<noteq> RUN_RUNNING"
  using collection_run_closed [OF demo_sector_ids(1) demo_collect_keeps demo_plan demo_start, of demo_page]
  by (elim exE conjE, intro exI conjI) (assumption+, auto split: sum.splits)

lemma persist_one: "rl_url l \<noteq> [] \<Longrightarrow> listings d = [] \<Longrightarrow> persist_listings now sid [l] d = ((1, 0), add_listing now sid l d)"
  by (simp add: persist_listings_def listing_conflict_def)

lemma demo_first_run:
  "\<exists>d1. collect_sector (demo_collect 0 demo_page) 7 demo_sector_db = (Inr (Collected 1 0 1), d1)"
proof -
  let ?E = "demo_collect 0 demo_page"
  let ?params = "\<lparr>sp_max_pages = page_budget 50, sp_start_page = 1\<rparr>"
  define d0 where "d0 = add_run demo_run demo_sector_db"
  obtain leases d1 where c: "claim_all ?E (run_owner demo_sector_db) demo_sector d0 = (Inr None, leases, d1)"
  proof -
    have "fst (claim_all ?E (run_owner demo_sector_db) demo_sector d0) = Inr None"
      unfolding d0_def by code_simp
    then show thesis using that by (metis prod_cases3 fst_conv)
  qed
  have b: "books d1 = books d0" using claim_all_kept [OF books_blind demo_collect_keeps c] .
  have d0: "listings d0 = []" "collection_runs d0 = [demo_run]" by (simp_all add: d0_def add_run_def demo_sector_ids)
  obtain l where l: "scrape ?E demo_sector ?params None d1 = (Inr [l], d1)" "rl_url l \<noteq> []"
  proof -
    have "scrape_la_centrale demo_lib (\<lambda>i. []) demo_page ?params
        = Inr [lc_listing demo_lib (\<lambda>i. []) [(''url'', ''/a''), (''title'', ''Clio'')]]" by code_simp
    moreover have "rl_url (lc_listing demo_lib (\<lambda>i. []) [(''url'', ''/a''), (''title'', ''Clio'')]) \<noteq> []"
      by (simp add: lc_url_def item_text_def dict_get_def)
    ultimately show thesis using that by (simp add: scrape_def demo_sector_def demo_collect_def)
  qed
  have p: "persist_listings (ce_persist_at ?E) (Some (sec_id demo_sector)) [l] d1 = ((1, 0), add_listing (ce_persist_at ?E) (Some (sec_id demo_sector)) l d1)"
    using l b d0 by (intro persist_one) (auto simp: books_def)
  define d3 where "d3 = add_listing (ce_persist_at ?E) (Some (sec_id demo_sector)) l d1"
  have "cr_id demo_run \<in> cr_id ` set (collection_runs d3)" using b d0 by (simp add: d3_def add_listing_def books_def)
  note r = set_run_ok [OF this]
  have quiet: "ce_before_scrape ?E = id" "ce_before_persist ?E = id" "ce_before_close ?E = id" by (simp_all add: demo_collect_def)
  have "fst (collect_run ?E (run_owner demo_sector_db) demo_sector (cr_id demo_run) ?params d0) = Inr (Collected 1 0 1)"
    using c l p r by (simp add: collect_run_def collect_body_def quiet flip: d3_def)
  moreover have "run_owner demo_sector_db = ''collection:'' @ str_uuid (cr_id demo_run)"
    by (simp add: run_owner_def demo_run_def new_run_def)
  ultimately have "fst (collect_sector ?E 7 demo_sector_db) = Inr (Collected 1 0 1)"
    using demo_start by (simp add: collect_sector_def session_def demo_plan d0_def)
  then show ?thesis by (metis prod.collapse)
qed

lemma second_collection_reads_nothing_witness:
  "\<exists>d1 rs d2. collect_sector (demo_collect 0 demo_page) 7 demo_sector_db = (Inr (Collected 1 0 1), d1)
     \<and> collect_history [demo_collect 1 demo_pages, demo_collect 2 demo_pages] 7 d1 = (rs, d2) \<and> listings d2 = listings d1"
proof -
  obtain d1 where c: "collect_sector (demo_collect 0 demo_page) 7 demo_sector_db = (Inr (Collected 1 0 1), d1)"
    using demo_first_run by blast
  obtain rs d2 where h: "collect_history [demo_collect 1 demo_pages, demo_collect 2 demo_pages] 7 d1 = (rs, d2)" by fastforce
  have "find_row (\<lambda>s. sec_id s = 7) (sectors demo_sector_db) = Some demo_sector" "0 \<le> sec_frequency_minutes demo_sector"
    by (simp_all add: demo_sector_ids demo_sector_def)
  note * = second_collection_reads_nothing [OF demo_sector_ids(1) _ demo_sector_ids(6) this _ c h]
  have "listings d2 = listings d1" by (rule * [THEN conjunct1]) (simp_all add: demo_sector_ids)
  with c h show ?thesis by blast
qed

lemma failed_collection_not_retried_witness:
  "\<exists>e d1. collect_sector (demo_collect 0 (\<lambda>n. Inl (TimeoutError ''page''))) 7 demo_sector_db = (Inl e, d1)
     \<and> (\<exists>reason. collect_sector ((demo_collect 0 demo_page)\<lparr>ce_start := hours 9 + minutes 1\<rparr>) 7 d1 = (Inr (Skipped reason), d1))"
proof -
  let ?E = "demo_collect 0 (\<lambda>n. Inl (TimeoutError ''page''))"
  let ?E' = "(demo_collect 0 demo_page)\<lparr>ce_start := hours 9 + minutes 1\<rparr>"
  have "fst (collect_sector ?E 7 demo_sector_db) = Inl (TimeoutError ''page'')" by code_simp
  then obtain d1 where c: "collect_sector ?E 7 demo_sector_db = (Inl (TimeoutError ''page''), d1)" by (metis prod.collapse)
  have s: "find_row (\<lambda>s. sec_id s = 7) (sectors demo_sector_db) = Some demo_sector" "0 \<le> sec_frequency_minutes demo_sector"
    by (simp_all add: demo_sector_ids demo_sector_def)
  have t: "ce_start ?E' < ce_start ?E + minutes (sec_frequency_minutes demo_sector)"
    by (simp add: demo_collect_def demo_sector_def duration_defs)
  from failed_collection_not_retried [OF demo_collect_keeps demo_sector_ids(1) s demo_plan demo_start c t] c show ?thesis by blast
qed

end
