(* ===== verification/Lbc_Messaging.thy ===== *)
theory Lbc_Messaging
  imports Sms_Sequence Account_Control Boundaries Campaign_Control
begin

text \<open>
  The messages on Leboncoin (\<open>lbc_messaging.py\<close>): the run of a campaign over its eligible listings,
  with the queue that makes each message happen at most once, the choice of the account, the Browser
  Use task that sends it, and the reading of the inbox. The Browser Use client, the clocks, the
  phone library and what the other sessions do between the transactions are parameters. The order in
  which SQL gives the eligible listings is the order of the table.
\<close>

section \<open>Search criteria\<close>

definition text_value :: "nat \<Rightarrow> json \<Rightarrow> string option result" where
  \<comment> \<open>a \<open>str | None\<close> field with its maximal length; the coercions of pydantic do not apply to what
      \<open>model_dump\<close> stored\<close>
  "text_value len j =
     (case j of
        JNull \<Rightarrow> Inr None
      | JStr s \<Rightarrow> if length s \<le> len then Inr (Some s) else Inl (ValueError ''string_too_long'')
      | _ \<Rightarrow> Inl (ValueError ''string_type''))"

definition int_value :: "int \<Rightarrow> int \<Rightarrow> json \<Rightarrow> int option result" where
  "int_value lo hi j =
     (case j of
        JNull \<Rightarrow> Inr None
      | JInt i \<Rightarrow> if lo \<le> i \<and> i \<le> hi then Inr (Some i) else Inl (ValueError ''out of range'')
      | _ \<Rightarrow> Inl (ValueError ''int_type''))"

definition criteria_of :: "(string, json) dict \<Rightarrow> vehicle_search_criteria result" where
  \<comment> \<open>\<open>VehicleSearchCriteria.model_validate(raw)\<close>\<close>
  "criteria_of kv =
     bind (text_value 120 (get_json kv ''brand_model'')) (\<lambda>brand.
     bind (text_value 80 (get_json kv ''vehicle_type'')) (\<lambda>kind.
     bind (text_value 120 (get_json kv ''region'')) (\<lambda>region.
     bind (text_value 10 (get_json kv ''department'')) (\<lambda>department.
     bind (int_value 0 2000000 (get_json kv ''budget_min'')) (\<lambda>lo.
     bind (int_value 0 2000000 (get_json kv ''budget_max'')) (\<lambda>hi.
     bind (int_value 1900 2100 (get_json kv ''year_max'')) (\<lambda>year.
     bind (int_value 0 2000000 (get_json kv ''mileage_max'')) (\<lambda>km.
       validate_budget \<lparr>vs_brand_model = brand, vs_vehicle_type = kind, vs_region = region, vs_department = department,
         vs_budget_min = lo, vs_budget_max = hi, vs_year_max = year, vs_mileage_max = km\<rparr>))))))))"

definition column_like :: "string option \<Rightarrow> string \<Rightarrow> bool" where
  \<comment> \<open>\<open>column.ilike("%term%")\<close>; a NULL does not match\<close>
  "column_like col term = (case col of None \<Rightarrow> False | Some t \<Rightarrow> ilike t (''%'' @ term @ ''%''))"

definition column_holds :: "int option \<Rightarrow> (int \<Rightarrow> bool) \<Rightarrow> bool" where
  "column_holds col P = (case col of None \<Rightarrow> False | Some n \<Rightarrow> P n)"

definition matches_criteria :: "vehicle_search_criteria \<Rightarrow> listing \<Rightarrow> bool" where
  \<comment> \<open>\<open>_apply_vehicle_criteria\<close>\<close>
  "matches_criteria v l =
     ((case vs_brand_model v of None \<Rightarrow> True
       | Some t \<Rightarrow> list_all (\<lambda>term. column_like (li_title l) term \<or> column_like (li_make l) term \<or> column_like (li_model l) term) (split_ws t))
      \<and> (case vs_vehicle_type v of None \<Rightarrow> True | Some t \<Rightarrow> t = [] \<or> column_like (li_title l) t)
      \<and> (case vs_region v of None \<Rightarrow> True | Some t \<Rightarrow> t = [] \<or> column_like (li_location l) t)
      \<and> (case vs_department v of None \<Rightarrow> True | Some t \<Rightarrow> t = [] \<or> column_like (li_location l) t)
      \<and> (case vs_budget_min v of None \<Rightarrow> True | Some n \<Rightarrow> column_holds (li_price l) (\<lambda>p. n \<le> p))
      \<and> (case vs_budget_max v of None \<Rightarrow> True | Some n \<Rightarrow> column_holds (li_price l) (\<lambda>p. p \<le> n))
      \<and> (case vs_year_max v of None \<Rightarrow> True | Some n \<Rightarrow> column_holds (li_year l) (\<lambda>y. y \<le> n))
      \<and> (case vs_mileage_max v of None \<Rightarrow> True | Some n \<Rightarrow> column_holds (li_km l) (\<lambda>k. k \<le> n)))"

section \<open>Eligible listings\<close>

definition LBC_MESSAGE_BATCH_SIZE :: nat where
  "LBC_MESSAGE_BATCH_SIZE = 25"

definition outbound_message_key :: "uuid \<Rightarrow> uuid \<Rightarrow> nat \<Rightarrow> string" where
  "outbound_message_key cid lid step =
     ''outbound:'' @ take 40 (sha256_hex (str_uuid cid @ '':'' @ str_uuid lid @ '':'' @ str_nat step))"

definition outbound_to :: "uuid \<Rightarrow> lbc_message_log \<Rightarrow> bool" where
  "outbound_to lid m = (lm_listing_id m = Some lid \<and> lm_direction m = LBC_OUTBOUND)"

definition sent_count :: "uuid \<Rightarrow> db \<Rightarrow> nat" where
  "sent_count lid d = length (filter (\<lambda>m. outbound_to lid m \<and> lm_status m \<in> {LBCM_QUEUED, LBCM_SENT}) (lbc_message_log d))"

definition latest_due :: "uuid \<Rightarrow> db \<Rightarrow> datetime option" where
  \<comment> \<open>\<open>max(next_due_at)\<close>; NULLs are ignored\<close>
  "latest_due lid d =
     map_option (\<lambda>m. case lm_next_due_at m of None \<Rightarrow> 0 | Some t \<Rightarrow> t)
       (latest (\<lambda>m. case lm_next_due_at m of None \<Rightarrow> 0 | Some t \<Rightarrow> t)
         (filter (\<lambda>m. outbound_to lid m \<and> lm_next_due_at m \<noteq> None) (lbc_message_log d)))"

definition lbc_eligible :: "datetime \<Rightarrow> db \<Rightarrow> listing \<Rightarrow> bool" where
  "lbc_eligible now d l =
     (li_source l = SRC_LBC \<and> sent_count (li_id l) d < 3
      \<and> (sent_count (li_id l) d = 0 \<or> (case latest_due (li_id l) d of None \<Rightarrow> False | Some t \<Rightarrow> t \<le> now))
      \<and> \<not> (\<exists>s\<in>set (sms_log d). sl_listing_id s = Some (li_id l)))"

definition campaign_listings :: "datetime \<Rightarrow> campaign \<Rightarrow> vehicle_search_criteria \<Rightarrow> db \<Rightarrow> listing list" where
  \<comment> \<open>restricted to the listings of the campaign when it has some\<close>
  "campaign_listings now c v d =
     (let assigned = (\<exists>l\<in>set (listings d). li_campaign_id l = Some (ca_id c)) in
      filter (\<lambda>l. lbc_eligible now d l \<and> (assigned \<longrightarrow> li_campaign_id l = Some (ca_id c)) \<and> matches_criteria v l) (listings d))"

definition message_accounts :: "db \<Rightarrow> platform_account list" where
  "message_accounts d =
     filter (\<lambda>a. pa_deleted_at a = None \<and> pa_status a = ACTIF \<and> pa_browser_use_profile_id a \<noteq> None) (platform_accounts d)"

definition get_campaign :: "uuid \<Rightarrow> db \<Rightarrow> campaign option" where
  "get_campaign cid d = find_row (\<lambda>c. ca_id c = cid) (campaigns d)"

definition set_campaign :: "uuid \<Rightarrow> (campaign \<Rightarrow> campaign) \<Rightarrow> db \<Rightarrow> db" where
  "set_campaign cid f d = d\<lparr>campaigns := update_where (\<lambda>c. ca_id c = cid) f (campaigns d)\<rparr>"

section \<open>The run of a campaign\<close>

record lbc_env =
  le_settings :: settings
  le_now :: datetime
  le_usage_at :: datetime
  le_clock :: "nat \<Rightarrow> datetime"  \<comment> \<open>the clock when the message of a turn is queued\<close>
  le_done_at :: "nat \<Rightarrow> datetime"
  le_close_at :: datetime
  le_client :: "nat \<Rightarrow> bu_client"
  le_before_usage :: "db \<Rightarrow> db"  \<comment> \<open>the other sessions, at each point without a transaction\<close>
  le_before_turn :: "nat \<Rightarrow> db \<Rightarrow> db"
  le_before_templates :: "nat \<Rightarrow> db \<Rightarrow> db"
  le_before_queue :: "nat \<Rightarrow> db \<Rightarrow> db"
  le_during :: "nat \<Rightarrow> db \<Rightarrow> db"
  le_before_close :: "db \<Rightarrow> db"

record lbc_batch =
  lb_campaign :: campaign
  lb_listings :: "listing list"
  lb_more :: bool
  lb_accounts :: "platform_account list"

definition plan_batch :: "lbc_env \<Rightarrow> uuid \<Rightarrow> uuid \<Rightarrow> db \<Rightarrow> exn + ((campaign_status + lbc_batch) \<times> db)" where
  \<comment> \<open>the first session; \<open>Inl\<close> in the result is the status of a campaign that is not to be run\<close>
  "plan_batch E cid wid d =
     (case (get_campaign cid d, get_workflow wid d) of
        (Some c, Some w) \<Rightarrow>
          if ca_status c \<notin> {C_RUNNING, C_PENDING} then Inr (Inl (ca_status c), d)
          else
            (case criteria_of (ca_search_criteria c) of
               Inl e \<Rightarrow> Inl e
             | Inr v \<Rightarrow>
                 (let c' = c\<lparr>ca_status := C_RUNNING\<rparr>;
                      eligible = campaign_listings (le_now E) c' v d;
                      d1 = set_campaign cid (\<lambda>c. c\<lparr>ca_status := C_RUNNING\<rparr>) d;
                      d2 = set_workflow wid (\<lambda>w. w\<lparr>wf_status := W_RUNNING,
                             wf_started_at := (case wf_started_at w of None \<Rightarrow> Some (le_now E) | Some t \<Rightarrow> Some t),
                             wf_progress_total := Some (int (length eligible))\<rparr>) d1 in
                  Inr (Inr \<lparr>lb_campaign = c', lb_listings = take LBC_MESSAGE_BATCH_SIZE eligible,
                            lb_more = (LBC_MESSAGE_BATCH_SIZE < length eligible), lb_accounts = message_accounts d\<rparr>, d2)))
      | _ \<Rightarrow> Inl (ValueError ''Campaign or workflow not found''))"

definition finish_failed :: "datetime \<Rightarrow> uuid \<Rightarrow> uuid \<Rightarrow> string \<Rightarrow> db \<Rightarrow> db" where
  "finish_failed now cid wid msg d =
     set_workflow wid (\<lambda>w. w\<lparr>wf_status := W_FAILED, wf_last_error := Some msg, wf_finished_at := Some now\<rparr>)
       (set_campaign cid (\<lambda>c. c\<lparr>ca_status := C_PAUSED, ca_last_error := Some msg\<rparr>) d)"

definition pause_for_quota :: "uuid \<Rightarrow> uuid \<Rightarrow> db \<Rightarrow> db" where
  "pause_for_quota cid wid d =
     set_workflow wid (\<lambda>w. w\<lparr>wf_status := W_PAUSED, wf_last_error := Some ''All LBC account quotas are exhausted''\<rparr>)
       (set_campaign cid (\<lambda>c. c\<lparr>ca_status := C_PAUSED, ca_last_error := Some ''All LBC account quotas are exhausted''\<rparr>) d)"

definition mark_lbc_message_campaign_failed :: "datetime \<Rightarrow> uuid \<Rightarrow> uuid \<Rightarrow> string \<Rightarrow> db \<Rightarrow> db" where
  "mark_lbc_message_campaign_failed now cid wid error d =
     (let msg = (if take 500 error = [] then ''LBC campaign worker failed'' else take 500 error) in
      set_workflow wid (\<lambda>w. w\<lparr>wf_status := W_FAILED, wf_last_error := Some msg, wf_finished_at := Some now\<rparr>)
        (set_campaign cid (\<lambda>c. c\<lparr>ca_status := C_FAILED, ca_last_error := Some msg\<rparr>) d))"

definition may_continue :: "uuid \<Rightarrow> uuid \<Rightarrow> db \<Rightarrow> bool" where
  "may_continue cid wid d =
     (case (get_campaign cid d, get_workflow wid d) of
        (Some c, Some w) \<Rightarrow> ca_status c = C_RUNNING \<and> wf_status w = W_RUNNING
      | _ \<Rightarrow> False)"

definition today_account_usage :: "datetime \<Rightarrow> db \<Rightarrow> (uuid, int) dict" where
  "today_account_usage now d =
     (let start = now - now mod days 1;
          ids = concat (map (\<lambda>m. case lm_account_id m of None \<Rightarrow> [] | Some a \<Rightarrow> [a])
                  (filter (\<lambda>m. lm_direction m = LBC_OUTBOUND \<and> lm_status m = LBCM_SENT \<and> start \<le> lm_created_at m) (lbc_message_log d))) in
      map (\<lambda>a. (a, int (count_list ids a))) (remdups ids))"

definition usage_of :: "(uuid, int) dict \<Rightarrow> uuid \<Rightarrow> int" where
  "usage_of u a = (case dict_get u a of None \<Rightarrow> 0 | Some n \<Rightarrow> n)"

definition choose_account :: "(uuid, int) dict \<Rightarrow> platform_account list \<Rightarrow> platform_account option" where
  \<comment> \<open>the least used account that is under its quota; the first one among equals\<close>
  "choose_account u accounts =
     first_max (\<lambda>a. - usage_of u (pa_id a)) (filter (\<lambda>a. usage_of u (pa_id a) < pa_quota_actuel a) accounts)"

definition lbc_templates :: "uuid \<Rightarrow> nat \<Rightarrow> db \<Rightarrow> campaign_message_template list" where
  "lbc_templates cid step d =
     filter (\<lambda>t. ct_campaign_id t = cid \<and> ct_channel t = ''lbc'' \<and> ct_step t = int step \<and> ct_enabled t) (campaign_message_templates d)"

definition lbc_text :: "campaign \<Rightarrow> listing \<Rightarrow> nat \<Rightarrow> db \<Rightarrow> (string \<times> int) option result" where
  \<comment> \<open>the message and the days until the next one; \<open>None\<close> is the \<open>continue\<close> without a template\<close>
  "lbc_text c l step d =
     (let templates = lbc_templates (ca_id c) step d;
          fields = [(''title'', case li_title l of None \<Rightarrow> [] | Some t \<Rightarrow> t), (''url'', li_url l)] in
      if templates = [] then
        if step = 0 then bind (format_str fields (ca_message_template c)) (\<lambda>m. Inr (Some (m, 3))) else Inr None
      else (let t = templates ! (sequence_digest (li_id l) (int step) mod length templates) in
            bind (format_str fields (ct_body t)) (\<lambda>m. Inr (Some (m, ct_delay_days t)))))"

definition new_message :: "datetime \<Rightarrow> string \<Rightarrow> uuid \<Rightarrow> uuid \<Rightarrow> string \<Rightarrow> nat \<Rightarrow> datetime \<Rightarrow> db \<Rightarrow> lbc_message_log" where
  "new_message now key lid aid message step due d =
     \<lparr>lm_id = fresh_id d, lm_external_key = key, lm_listing_id = Some lid, lm_account_id = Some aid, lm_direction = LBC_OUTBOUND,
      lm_status = LBCM_QUEUED, lm_content_hash = Some (sha256_hex message), lm_preview = Some (take 160 message),
      lm_sequence_step = Some (int step), lm_next_due_at = Some due, lm_phone_extracted = False, lm_error_code = None,
      lm_processed_at = None, lm_created_at = now\<rparr>"

definition insert_message :: "lbc_message_log \<Rightarrow> db \<Rightarrow> bool \<times> db" where
  \<comment> \<open>\<open>INSERT ... ON CONFLICT (external_key) DO NOTHING RETURNING id\<close>\<close>
  "insert_message m d =
     (case insert_new lm_external_key m (lbc_message_log d) of
        (fresh, rows) \<Rightarrow> (fresh, if fresh then d\<lparr>lbc_message_log := rows, fresh_id := Suc (fresh_id d)\<rparr> else d))"

definition queue_message :: "datetime \<Rightarrow> string \<Rightarrow> uuid \<Rightarrow> uuid \<Rightarrow> string \<Rightarrow> nat \<Rightarrow> datetime \<Rightarrow> db \<Rightarrow> bool \<times> db" where
  "queue_message now key lid aid message step due d = insert_message (new_message now key lid aid message step due d) d"

definition mark_message :: "datetime \<Rightarrow> string \<Rightarrow> lbc_message_status \<Rightarrow> string option \<Rightarrow> db \<Rightarrow> db" where
  "mark_message now key status error d =
     d\<lparr>lbc_message_log := update_where (\<lambda>m. lm_external_key m = key)
         (\<lambda>m. m\<lparr>lm_status := status, lm_error_code := error, lm_processed_at := Some now\<rparr>) (lbc_message_log d)\<rparr>"

definition message_turn :: "bu_client \<Rightarrow> json \<Rightarrow> nat \<Rightarrow> unit \<Rightarrow> (string, json) dict verdict \<times> unit" where
  "message_turn client task_id i u =
     (case bu_task_status client i task_id of
        Inl e \<Rightarrow> (Raise e, ())
      | Inr status \<Rightarrow>
          if get_json status ''status'' \<in> {JStr ''finished'', JStr ''stopped''} then
            (case bu_task_detail client task_id of Inl e \<Rightarrow> (Raise e, ()) | Inr detail \<Rightarrow> (Break detail, ()))
          else (Again, ()))"

definition wait_for_task :: "settings \<Rightarrow> bu_client \<Rightarrow> (string, json) dict \<Rightarrow> (string, json) dict result option" where
  \<comment> \<open>\<open>None\<close>: the loop does not end\<close>
  "wait_for_task s client task =
     (let task_id = json_or (get_json task ''id'') (get_json task ''taskId'') in
      case poll (message_turn client task_id) (browser_use_task_timeout_seconds s) (browser_use_poll_interval_seconds s) 0 0 () of
        None \<Rightarrow> None
      | Some (Broke detail, _) \<Rightarrow> Some (Inr detail)
      | Some (Raised e, _) \<Rightarrow> Some (Inl e)
      | Some (TimedOut, _) \<Rightarrow>
          Some (bind (bu_stop_task client task_id) (\<lambda>_. Inl (TimeoutError ''Browser Use messaging task timed out''))))"

definition message_payload :: "string \<Rightarrow> string \<Rightarrow> string \<Rightarrow> (string, json) dict" where
  "message_payload profile url message = create_task_payload
     (''Ouvre l'annonce cible, ouvre la messagerie vendeur, envoie exactement le message suivant puis confirme l'envoi: '' @ message
       @ [CHR 0x0A] @ ''URL: '' @ url)
     [(''template'', JStr ''messaging_send'')] [''leboncoin.fr'', ''www.leboncoin.fr'']
     [(''profileId'', JStr profile), (''proxyCountryCode'', JStr ''FR'')]"

definition send_message_task :: "settings \<Rightarrow> bu_client \<Rightarrow> string \<Rightarrow> string \<Rightarrow> string \<Rightarrow> (string, json) dict result option" where
  "send_message_task s client profile url message =
     (case bu_create_task client (message_payload profile url message) of
        Inl e \<Rightarrow> Some (Inl e)
      | Inr task \<Rightarrow> wait_for_task s client task)"

record lbc_call =
  lc_turn :: nat
  lc_key :: string
  lc_listing :: listing
  lc_account :: platform_account
  lc_step :: nat
  lc_text :: string
  lc_confirmed :: bool

record lbc_run =
  lr_db :: db
  lr_usage :: "(uuid, int) dict"
  lr_sent :: int
  lr_failed :: int
  lr_calls :: "lbc_call list"  \<comment> \<open>the calls of \<open>_send_message_task\<close>, oldest first\<close>

datatype turn_end = Next | Halt | QuotaOut | Failed exn

definition deliver :: "lbc_env \<Rightarrow> nat \<Rightarrow> listing \<Rightarrow> platform_account \<Rightarrow> nat \<Rightarrow> string \<Rightarrow> string \<Rightarrow> lbc_run \<Rightarrow> lbc_run option" where
  \<comment> \<open>the \<open>try\<close> of a turn, once the message is queued\<close>
  "deliver E i l account step key message r =
     (case send_message_task (le_settings E) (le_client E i)
             (case pa_browser_use_profile_id account of None \<Rightarrow> [] | Some p \<Rightarrow> p) (li_url l) message of
        None \<Rightarrow> None
      | Some res \<Rightarrow>
          (let d = le_during E i (lr_db r);
               checked = bind res (\<lambda>detail. if get_json detail ''isSuccess'' = JBool False
                          then Inl (RuntimeError ''Browser Use did not confirm message delivery'') else Inr ());
               call = \<lparr>lc_turn = i, lc_key = key, lc_listing = l, lc_account = account, lc_step = step, lc_text = message,
                       lc_confirmed = (checked = Inr ())\<rparr>;
               r1 = r\<lparr>lr_calls := lr_calls r @ [call]\<rparr> in
           Some (case checked of
              Inr _ \<Rightarrow> r1\<lparr>lr_db := mark_message (le_done_at E i) key LBCM_SENT None d,
                       lr_usage := dict_set (pa_id account) (usage_of (lr_usage r) (pa_id account) + 1) (lr_usage r),
                       lr_sent := lr_sent r + 1\<rparr>
            | Inl e \<Rightarrow> r1\<lparr>lr_db := mark_message (le_done_at E i) key LBCM_FAILED (Some (exn_name e)) d,
                       lr_failed := lr_failed r + 1\<rparr>)))"

definition lbc_turn :: "lbc_env \<Rightarrow> campaign \<Rightarrow> uuid \<Rightarrow> platform_account list \<Rightarrow> nat \<Rightarrow> listing \<Rightarrow> lbc_run \<Rightarrow> (turn_end \<times> lbc_run) option" where
  "lbc_turn E c wid accounts i l r =
     (let d0 = le_before_turn E i (lr_db r) in
      if \<not> may_continue (ca_id c) wid d0 then Some (Halt, r\<lparr>lr_db := d0\<rparr>)
      else
        (case choose_account (lr_usage r) accounts of
           None \<Rightarrow> Some (QuotaOut, r\<lparr>lr_db := pause_for_quota (ca_id c) wid d0\<rparr>)
         | Some account \<Rightarrow>
             (let d1 = le_before_templates E i d0; step = sent_count (li_id l) d1 in
              case lbc_text c l step d1 of
                Inl e \<Rightarrow> Some (Failed e, r\<lparr>lr_db := d1\<rparr>)
              | Inr None \<Rightarrow> Some (Next, r\<lparr>lr_db := d1\<rparr>)
              | Inr (Some (message, delay)) \<Rightarrow>
                  (let key = outbound_message_key (ca_id c) (li_id l) step in
                   case queue_message (le_clock E i) key (li_id l) (pa_id account) message step
                          (le_clock E i + days delay) (le_before_queue E i d1) of
                     (False, d2) \<Rightarrow> Some (Next, r\<lparr>lr_db := d2\<rparr>)
                   | (True, d2) \<Rightarrow> map_option (\<lambda>r'. (Next, r')) (deliver E i l account step key message (r\<lparr>lr_db := d2\<rparr>))))))"

fun lbc_loop :: "lbc_env \<Rightarrow> campaign \<Rightarrow> uuid \<Rightarrow> platform_account list \<Rightarrow> nat \<Rightarrow> listing list \<Rightarrow> lbc_run \<Rightarrow> (turn_end \<times> lbc_run) option" where
  "lbc_loop E c wid accounts i [] r = Some (Next, r)"
| "lbc_loop E c wid accounts i (l # ls) r =
     (case lbc_turn E c wid accounts i l r of
        None \<Rightarrow> None
      | Some (Next, r') \<Rightarrow> lbc_loop E c wid accounts (Suc i) ls r'
      | Some (t, r') \<Rightarrow> Some (t, r'))"

definition batch_checkpoint :: "int \<Rightarrow> int \<Rightarrow> bool \<Rightarrow> (string, json) dict" where
  "batch_checkpoint sent failed backlog =
     [(''channel'', JStr ''lbc_message''), (''last_batch_sent'', JInt sent), (''last_batch_failed'', JInt failed),
      (''has_more_backlog'', JBool backlog)]"

definition close_batch :: "lbc_env \<Rightarrow> uuid \<Rightarrow> uuid \<Rightarrow> bool \<Rightarrow> int \<Rightarrow> int \<Rightarrow> db \<Rightarrow> exn + (campaign_status \<times> db)" where
  \<comment> \<open>the last session\<close>
  "close_batch E cid wid backlog sent failed d =
     (case (get_campaign cid d, get_workflow wid d) of
        (Some c, Some w) \<Rightarrow>
          (let final = (if ca_status c \<in> {C_PAUSED, C_CANCELLED} then ca_status c else if backlog then C_RUNNING else C_COMPLETED);
               ws = (if final = C_RUNNING then W_RUNNING else if final = C_PAUSED then W_PAUSED
                     else if final = C_CANCELLED then W_CANCELLED else W_COMPLETED) in
           Inr (final,
             set_workflow wid (\<lambda>w. w\<lparr>wf_progress_current := wf_progress_current w + sent + failed,
                 wf_batch_number := wf_batch_number w + 1, wf_checkpoint := Some (batch_checkpoint sent failed backlog), wf_status := ws,
                 wf_finished_at := (if ws \<in> {W_COMPLETED, W_CANCELLED} then Some (le_close_at E) else wf_finished_at w)\<rparr>)
               (set_campaign cid (\<lambda>c. c\<lparr>ca_status := final, ca_sent := ca_sent c + sent, ca_failed := ca_failed c + failed\<rparr>) d)))
      | _ \<Rightarrow> Inl AttributeError)"

record lbc_outcome =
  lo_result :: "(string \<times> int \<times> int) result"  \<comment> \<open>status, sent, failed\<close>
  lo_db :: db
  lo_calls :: "lbc_call list"

definition run_lbc_message_campaign :: "lbc_env \<Rightarrow> uuid \<Rightarrow> uuid \<Rightarrow> db \<Rightarrow> lbc_outcome option" where
  \<comment> \<open>\<open>None\<close>: a task of Browser Use is waited for without end\<close>
  "run_lbc_message_campaign E cid wid d =
     (if browser_use_api_key (le_settings E) = [] then
        Some \<lparr>lo_result = Inl (RuntimeError ''Browser Use Cloud is not configured''), lo_db = d, lo_calls = []\<rparr>
      else
        (case session (plan_batch E cid wid) d of
           (Inl e, d1) \<Rightarrow> Some \<lparr>lo_result = Inl e, lo_db = d1, lo_calls = []\<rparr>
         | (Inr (Inl st), d1) \<Rightarrow> Some \<lparr>lo_result = Inr (lower (campaign_status_value st), 0, 0), lo_db = d1, lo_calls = []\<rparr>
         | (Inr (Inr b), d1) \<Rightarrow>
             (let d2 = le_before_usage E d1 in
              if lb_accounts b = [] then
                Some \<lparr>lo_result = Inr (''paused'', 0, 0), lo_db = finish_failed (le_usage_at E) cid wid ''No active Browser Use profile'' d2,
                      lo_calls = []\<rparr>
              else
                (case lbc_loop E (lb_campaign b) wid (lb_accounts b) 0 (lb_listings b)
                        \<lparr>lr_db = d2, lr_usage = today_account_usage (le_usage_at E) d2, lr_sent = 0, lr_failed = 0, lr_calls = []\<rparr> of
                   None \<Rightarrow> None
                 | Some (Failed e, r) \<Rightarrow> Some \<lparr>lo_result = Inl e, lo_db = lr_db r, lo_calls = lr_calls r\<rparr>
                 | Some (QuotaOut, r) \<Rightarrow>
                     Some \<lparr>lo_result = Inr (''paused'', lr_sent r, lr_failed r), lo_db = lr_db r, lo_calls = lr_calls r\<rparr>
                 | Some (t, r) \<Rightarrow>
                     (case session (close_batch E cid wid (lb_more b) (lr_sent r) (lr_failed r)) (le_before_close E (lr_db r)) of
                        (Inl e, d3) \<Rightarrow> Some \<lparr>lo_result = Inl e, lo_db = d3, lo_calls = lr_calls r\<rparr>
                      | (Inr st, d3) \<Rightarrow>
                          Some \<lparr>lo_result = Inr (lower (campaign_status_value st), lr_sent r, lr_failed r), lo_db = d3,
                                lo_calls = lr_calls r\<rparr>)))))"


section \<open>The inbox\<close>

record inbox_env =
  ie_settings :: settings
  ie_now :: datetime
  ie_client :: "uuid \<Rightarrow> bu_client"  \<comment> \<open>the client, for the account of that id\<close>
  ie_numbers :: "string \<Rightarrow> (bool \<times> string) list"  \<comment> \<open>\<open>PhoneNumberMatcher\<close>: valid or not, and the E.164 form\<close>
  ie_lib :: phone_lib
  ie_text :: "json \<Rightarrow> string"
  ie_loads :: "string \<Rightarrow> json result"
  ie_broker :: broker

fun add_numbers :: "(bool \<times> string) list \<Rightarrow> string list \<Rightarrow> string list" where
  "add_numbers [] acc = acc"
| "add_numbers ((valid, e164) # ms) acc = add_numbers ms (if valid \<and> e164 \<notin> set acc then acc @ [e164] else acc)"

definition extract_phone_numbers :: "inbox_env \<Rightarrow> string \<Rightarrow> string list" where
  "extract_phone_numbers E t = add_numbers (ie_numbers E t) []"

definition inbox_payload :: "string \<Rightarrow> (string, json) dict" where
  "inbox_payload profile = create_task_payload
     (''Ouvre la messagerie Leboncoin et retourne uniquement les nouveaux messages recus avec leur identifiant stable et l'URL de l'annonce. ''
       @ ''Ne reponds a aucun message.'')
     [(''template'', JStr ''inbox_sync'')] [''leboncoin.fr'', ''www.leboncoin.fr'']
     [(''profileId'', JStr profile), (''proxyCountryCode'', JStr ''FR'')]
     @ [(''structuredOutput'', JObj [(''type'', JStr ''object''),
          (''properties'', JObj [(''messages'', JObj [(''type'', JStr ''array''),
            (''items'', JObj [(''type'', JStr ''object''),
               (''properties'', JObj (map (\<lambda>k. (k, JObj [(''type'', JStr ''string'')])) [''external_key'', ''listing_url'', ''text''])),
               (''required'', JList (map JStr [''external_key'', ''listing_url'', ''text'']))])])]),
          (''required'', JList [JStr ''messages''])])]"

definition iterated :: "json \<Rightarrow> json list result" where
  \<comment> \<open>the values a \<open>for\<close> loop goes through\<close>
  "iterated j =
     (case j of
        JList xs \<Rightarrow> Inr xs
      | JObj kv \<Rightarrow> Inr (map (\<lambda>p. JStr (fst p)) kv)
      | JStr s \<Rightarrow> Inr (map (\<lambda>c. JStr [c]) s)
      | _ \<Rightarrow> Inl (TypeError ''object is not iterable''))"

definition fetch_inbox_messages :: "inbox_env \<Rightarrow> bu_client \<Rightarrow> string \<Rightarrow> json result option" where
  "fetch_inbox_messages E client profile =
     (case bu_create_task client (inbox_payload profile) of
        Inl e \<Rightarrow> Some (Inl e)
      | Inr task \<Rightarrow>
          map_option (\<lambda>res. bind res (\<lambda>detail.
              let parsed = json_or (get_json detail ''structuredOutput'') (get_json detail ''parsedOutput'') in
              bind (case parsed of JStr s \<Rightarrow> ie_loads E s | _ \<Rightarrow> Inr parsed) (\<lambda>p.
                Inr (case p of JObj kv \<Rightarrow> (case dict_get kv ''messages'' of None \<Rightarrow> JList [] | Some v \<Rightarrow> v) | _ \<Rightarrow> JList []))))
            (wait_for_task (ie_settings E) client task))"

definition inbound_row :: "inbox_env \<Rightarrow> uuid \<Rightarrow> string \<Rightarrow> string \<Rightarrow> listing option \<Rightarrow> string list \<Rightarrow> db \<Rightarrow> lbc_message_log" where
  "inbound_row E aid key text l phones d =
     \<lparr>lm_id = fresh_id d, lm_external_key = key, lm_listing_id = map_option li_id l, lm_account_id = Some aid,
      lm_direction = LBC_INBOUND, lm_status = LBCM_RECEIVED, lm_content_hash = Some (sha256_hex text), lm_preview = Some (take 160 text),
      lm_sequence_step = None, lm_next_due_at = None, lm_phone_extracted = (phones \<noteq> []), lm_error_code = None,
      lm_processed_at = Some (ie_now E), lm_created_at = ie_now E\<rparr>"

definition persist_inbound_message :: "inbox_env \<Rightarrow> uuid \<Rightarrow> (string, json) dict \<Rightarrow> world \<Rightarrow> (bool \<times> string list) \<times> world" where
  \<comment> \<open>the contact and its sequence are stored by a session of their own, inside the session of the message; its
      failure is only logged\<close>
  "persist_inbound_message E aid message w =
     (let text = str_field (ie_text E) message ''text'';
          key = ''inbound:'' @ take 130 (str_field (ie_text E) message ''external_key'');
          url = str_field (ie_text E) message ''listing_url'';
          phones = extract_phone_numbers E text;
          l = find_row (\<lambda>l. li_url l = url) (listings (w_db w));
          fresh = (key \<notin> lm_external_key ` set (lbc_message_log (w_db w))) in
      if \<not> fresh then ((False, phones), w)
      else
        (case (phones, l) of
           (p # ps, Some x) \<Rightarrow>
             (case ensure_contact_and_sequence (ie_lib E) (ie_broker E) (ie_now E) (li_id x) p w of
                (res, w1) \<Rightarrow>
                  ((True, phones), on_db (\<lambda>d. snd (insert_message (inbound_row E aid key text l phones d)
                      (d\<lparr>listings := update_where (\<lambda>y. li_id y = li_id x) (\<lambda>y. y\<lparr>li_phone := Some p\<rparr>) (listings d)\<rparr>))) w1))
         | _ \<Rightarrow> ((True, phones), on_db (\<lambda>d. snd (insert_message (inbound_row E aid key text l phones d) d)) w)))"

fun persist_all :: "inbox_env \<Rightarrow> uuid \<Rightarrow> json list \<Rightarrow> nat \<Rightarrow> nat \<Rightarrow> world \<Rightarrow> (nat \<times> nat) result \<times> world" where
  "persist_all E aid [] received phones w = (Inr (received, phones), w)"
| "persist_all E aid (m # ms) received phones w =
     (case m of
        JObj kv \<Rightarrow>
          (case persist_inbound_message E aid kv w of
             ((inserted, found), w1) \<Rightarrow>
               persist_all E aid ms (if inserted then Suc received else received) (if inserted then phones + length found else phones) w1)
      | _ \<Rightarrow> (Inl AttributeError, w))"

fun sync_accounts :: "inbox_env \<Rightarrow> platform_account list \<Rightarrow> nat \<Rightarrow> nat \<Rightarrow> world \<Rightarrow> ((nat \<times> nat) result \<times> world) option" where
  "sync_accounts E [] received phones w = Some (Inr (received, phones), w)"
| "sync_accounts E (a # as) received phones w =
     (case fetch_inbox_messages E (ie_client E (pa_id a)) (case pa_browser_use_profile_id a of None \<Rightarrow> [] | Some p \<Rightarrow> p) of
        None \<Rightarrow> None
      | Some res \<Rightarrow>
          (case bind res iterated of
             Inl e \<Rightarrow> Some (Inl e, w)
           | Inr ms \<Rightarrow>
               (case persist_all E (pa_id a) ms received phones w of
                  (Inl e, w1) \<Rightarrow> Some (Inl e, w1)
                | (Inr (received', phones'), w1) \<Rightarrow> sync_accounts E as received' phones' w1)))"

definition sync_result :: "nat \<Rightarrow> nat \<Rightarrow> nat \<Rightarrow> (string, json) dict" where
  "sync_result accounts received phones =
     [(''accounts'', JInt (int accounts)), (''received'', JInt (int received)), (''phones'', JInt (int phones))]"

definition sync_lbc_inbox :: "inbox_env \<Rightarrow> ref option \<Rightarrow> world \<Rightarrow> ((string, json) dict result \<times> world) option" where
  "sync_lbc_inbox E workflow_id w =
     (if browser_use_api_key (ie_settings E) = [] then Some (Inr (sync_result 0 0 0), w)
      else
        (case (case workflow_id of None \<Rightarrow> Inr None | Some r \<Rightarrow> map_sum id Some (uuid_of_ref r)) of
           Inl e \<Rightarrow> Some (Inl e, w)
         | Inr wid \<Rightarrow>
             (let update = (\<lambda>f w. case wid of
                    None \<Rightarrow> (Inr (), w)
                  | Some i \<Rightarrow> (case get_workflow i (w_db w) of None \<Rightarrow> (Inl AttributeError, w)
                             | Some _ \<Rightarrow> (Inr (), on_db (set_workflow i f) w))) in
              case update (\<lambda>x. x\<lparr>wf_status := W_RUNNING, wf_started_at := Some (ie_now E)\<rparr>) w of
                (Inl e, w1) \<Rightarrow> Some (Inl e, w1)
              | (Inr _, w1) \<Rightarrow>
                  (let accounts = message_accounts (w_db w1) in
                   case sync_accounts E accounts 0 0 w1 of
                     None \<Rightarrow> None
                   | Some (Inl e, w2) \<Rightarrow> Some (Inl e, w2)
                   | Some (Inr (received, phones), w2) \<Rightarrow>
                       (let result = sync_result (length accounts) received phones in
                        case update (\<lambda>x. x\<lparr>wf_status := W_COMPLETED, wf_checkpoint := Some result, wf_finished_at := Some (ie_now E)\<rparr>) w2 of
                          (Inl e, w3) \<Rightarrow> Some (Inl e, w3)
                        | (Inr _, w3) \<Rightarrow> Some (Inr result, w3))))))"

definition inbox_session :: "datetime \<Rightarrow> string \<Rightarrow> string \<Rightarrow> string \<Rightarrow> db \<Rightarrow> exn + ((uuid + uuid) \<times> db)" where
  \<comment> \<open>\<open>Inl\<close> in the result is the workflow of a known key\<close>
  "inbox_session now key actor role d =
     (case workflow_by_key key d of
        Some w \<Rightarrow> Inr (Inl (wf_id w), d)
      | None \<Rightarrow>
          (case add_workflow (new_workflow now d key ''messaging.inbox_sync'' ''platform'' (RText ''leboncoin'') actor) d of
             Inl e \<Rightarrow> Inl e
           | Inr d1 \<Rightarrow>
               Inr (Inr (fresh_id d), d1\<lparr>audit_events := audit_events d1 @
                      [\<lparr>ae_id = fresh_id d1, ae_actor = actor, ae_role = role, ae_action = ''messaging.inbox_sync'',
                        ae_target_type = Some ''platform'', ae_target_id = Some (RText ''leboncoin''), ae_idempotency_key = Some key,
                        ae_input_summary = None, ae_result_status = ''queued'', ae_workflow_run_id = Some (fresh_id d),
                        ae_created_at = now\<rparr>], fresh_id := Suc (fresh_id d1)\<rparr>)))"

definition queue_inbox_sync :: "broker \<Rightarrow> datetime \<Rightarrow> string \<Rightarrow> string \<Rightarrow> string \<Rightarrow> world \<Rightarrow> uuid result \<times> world" where
  "queue_inbox_sync b now key actor role w =
     (case in_session (inbox_session now key actor role) w of
        (Inl e, w1) \<Rightarrow> (Inl e, w1)
      | (Inr (Inl wid), w1) \<Rightarrow> (Inr wid, w1)
      | (Inr (Inr wid), w1) \<Rightarrow>
          (case dispatch b (''sync_lbc_inbox_task'', [JStr (str_uuid wid)]) w1 of
             (Inl e, w2) \<Rightarrow> (Inl e, w2)
           | (Inr tid, w2) \<Rightarrow> (Inr wid, on_db (set_task_id wid tid) w2)))"

definition list_lbc_messages :: "nat \<Rightarrow> db \<Rightarrow> lbc_message_log list" where
  "list_lbc_messages limit d = page limit 0 (newest_first lm_created_at (lbc_message_log d))"


section \<open>Criteria survive storage\<close>

definition criteria_ok :: "vehicle_search_criteria \<Rightarrow> bool" where
  \<comment> \<open>the constraints of the fields\<close>
  "criteria_ok v =
     (let short = (\<lambda>n x. case x of None \<Rightarrow> True | Some (s::string) \<Rightarrow> length s \<le> n);
          inside = (\<lambda>lo hi x. case x of None \<Rightarrow> True | Some (i::int) \<Rightarrow> lo \<le> i \<and> i \<le> hi) in
      short 120 (vs_brand_model v) \<and> short 80 (vs_vehicle_type v) \<and> short 120 (vs_region v) \<and> short 10 (vs_department v)
      \<and> inside 0 2000000 (vs_budget_min v) \<and> inside 0 2000000 (vs_budget_max v) \<and> inside 1900 2100 (vs_year_max v)
      \<and> inside 0 2000000 (vs_mileage_max v))"

definition opt_text :: "string \<Rightarrow> string option \<Rightarrow> (string, json) dict" where
  "opt_text k x = (case x of None \<Rightarrow> [] | Some s \<Rightarrow> [(k, JStr s)])"

definition opt_int :: "string \<Rightarrow> int option \<Rightarrow> (string, json) dict" where
  "opt_int k x = (case x of None \<Rightarrow> [] | Some s \<Rightarrow> [(k, JInt s)])"

lemma dump_criteria_opts:
  "dump_criteria v = opt_text ''brand_model'' (vs_brand_model v) @ opt_text ''vehicle_type'' (vs_vehicle_type v)
      @ opt_text ''region'' (vs_region v) @ opt_text ''department'' (vs_department v)
      @ opt_int ''budget_min'' (vs_budget_min v) @ opt_int ''budget_max'' (vs_budget_max v)
      @ opt_int ''year_max'' (vs_year_max v) @ opt_int ''mileage_max'' (vs_mileage_max v)"
  by (simp add: dump_criteria_def opt_text_def opt_int_def Let_def)

lemma dict_get_opt [simp]:
  "dict_get (opt_text k x @ d) k' = (if k = k' \<and> x \<noteq> None then map_option JStr x else dict_get d k')"
  "dict_get (opt_int k n @ d) k' = (if k = k' \<and> n \<noteq> None then map_option JInt n else dict_get d k')"
  "dict_get (opt_text k x) k' = (if k = k' then map_option JStr x else None)"
  "dict_get (opt_int k n) k' = (if k = k' then map_option JInt n else None)"
  by (auto simp: dict_get_def opt_text_def opt_int_def split: option.splits)

lemma text_value_opt: "text_value n (case x of None \<Rightarrow> JNull | Some s \<Rightarrow> JStr s) = Inr x"
  if "case x of None \<Rightarrow> True | Some s \<Rightarrow> length s \<le> n"
  using that by (auto simp: text_value_def split: option.splits)

lemma int_value_opt: "int_value lo hi (case x of None \<Rightarrow> JNull | Some s \<Rightarrow> JInt s) = Inr x"
  if "case x of None \<Rightarrow> True | Some i \<Rightarrow> lo \<le> i \<and> i \<le> hi"
  using that by (auto simp: int_value_def split: option.splits)

lemma get_dump:
  "get_json (dump_criteria v) ''brand_model'' = (case vs_brand_model v of None \<Rightarrow> JNull | Some s \<Rightarrow> JStr s)"
  "get_json (dump_criteria v) ''vehicle_type'' = (case vs_vehicle_type v of None \<Rightarrow> JNull | Some s \<Rightarrow> JStr s)"
  "get_json (dump_criteria v) ''region'' = (case vs_region v of None \<Rightarrow> JNull | Some s \<Rightarrow> JStr s)"
  "get_json (dump_criteria v) ''department'' = (case vs_department v of None \<Rightarrow> JNull | Some s \<Rightarrow> JStr s)"
  "get_json (dump_criteria v) ''budget_min'' = (case vs_budget_min v of None \<Rightarrow> JNull | Some s \<Rightarrow> JInt s)"
  "get_json (dump_criteria v) ''budget_max'' = (case vs_budget_max v of None \<Rightarrow> JNull | Some s \<Rightarrow> JInt s)"
  "get_json (dump_criteria v) ''year_max'' = (case vs_year_max v of None \<Rightarrow> JNull | Some s \<Rightarrow> JInt s)"
  "get_json (dump_criteria v) ''mileage_max'' = (case vs_mileage_max v of None \<Rightarrow> JNull | Some s \<Rightarrow> JInt s)"
  by (auto simp: get_json_def dump_criteria_opts split: option.splits)

text \<open>
  Search criteria survive storage. What a campaign stores of valid criteria (\<open>model_dump\<close> without the
  absent fields) is read back by the message run as the same criteria, so the run selects the
  listings the campaign was created for.
\<close>

theorem criteria_roundtrip:
  assumes "criteria_ok v" and "validate_budget v = Inr v"
  shows "criteria_of (dump_criteria v) = Inr v"
proof -
  have "criteria_of (dump_criteria v) = validate_budget v"
    using assms(1) unfolding criteria_of_def get_dump criteria_ok_def Let_def
    by (cases v) (simp add: text_value_opt int_value_opt)
  with assms(2) show ?thesis by simp
qed

lemma criteria_roundtrip_witness:
  "criteria_of (dump_criteria \<lparr>vs_brand_model = Some ''Clio'', vs_vehicle_type = None, vs_region = None, vs_department = None,
      vs_budget_min = Some 10, vs_budget_max = Some 20, vs_year_max = None, vs_mileage_max = None\<rparr>)
    = Inr \<lparr>vs_brand_model = Some ''Clio'', vs_vehicle_type = None, vs_region = None, vs_department = None,
      vs_budget_min = Some 10, vs_budget_max = Some 20, vs_year_max = None, vs_mileage_max = None\<rparr>"
  by (rule criteria_roundtrip) (simp_all add: criteria_ok_def validate_budget_def)

section \<open>At most once\<close>

definition message_keys :: "db \<Rightarrow> string set" where
  "message_keys d = lm_external_key ` set (lbc_message_log d)"

definition additive :: "(db \<Rightarrow> db) \<Rightarrow> bool" where
  \<comment> \<open>another session: no row of the message log is ever deleted\<close>
  "additive f = (\<forall>d. message_keys d \<subseteq> message_keys (f d))"

definition lbc_env_ok :: "lbc_env \<Rightarrow> bool" where
  "lbc_env_ok E =
     (0 < browser_use_poll_interval_seconds (le_settings E) \<and> additive (le_before_usage E) \<and> additive (le_before_close E)
      \<and> (\<forall>i. additive (le_before_turn E i) \<and> additive (le_before_templates E i) \<and> additive (le_before_queue E i) \<and> additive (le_during E i)))"

lemma additiveD: "additive f \<Longrightarrow> k \<in> message_keys d \<Longrightarrow> k \<in> message_keys (f d)"
  by (auto simp: additive_def)

lemma wait_for_task_returns: "0 < browser_use_poll_interval_seconds s \<Longrightarrow> \<exists>r. wait_for_task s client task = Some r"
proof -
  assume "0 < browser_use_poll_interval_seconds s"
  from poll_terminates [OF this] obtain fin u where
    "poll (message_turn client (json_or (get_json task ''id'') (get_json task ''taskId''))) (browser_use_task_timeout_seconds s)
       (browser_use_poll_interval_seconds s) 0 0 () = Some (fin, u)" by (metis prod.exhaust)
  then show ?thesis by (cases fin) (simp_all add: wait_for_task_def)
qed

lemma send_message_task_returns: "0 < browser_use_poll_interval_seconds s \<Longrightarrow> \<exists>r. send_message_task s client p u m = Some r"
  using wait_for_task_returns by (auto simp: send_message_task_def split: sum.splits)

lemma message_keys_mark [simp]: "message_keys (mark_message now key st e d) = message_keys d"
proof -
  have "map lm_external_key (lbc_message_log (mark_message now key st e d)) = map lm_external_key (lbc_message_log d)"
    by (simp add: mark_message_def map_update_where)
  then show ?thesis unfolding message_keys_def by (metis set_map)
qed

lemma message_keys_other [simp]:
  "message_keys (pause_for_quota cid wid d) = message_keys d" "message_keys (set_workflow wid f d) = message_keys d"
  "message_keys (set_campaign cid g d) = message_keys d" "message_keys (finish_failed now cid wid msg d) = message_keys d"
  by (simp_all add: message_keys_def pause_for_quota_def finish_failed_def set_workflow_def set_campaign_def)

lemma insert_message_keys:
  assumes "insert_message m d = (fresh, d')"
  shows "message_keys d' = insert (lm_external_key m) (message_keys d) \<and> fresh = (lm_external_key m \<notin> message_keys d)"
  using assms by (auto simp: insert_message_def insert_new_def message_keys_def split: if_splits)

lemma queue_message_keys:
  assumes "queue_message now key lid aid message step due d = (fresh, d')"
  shows "message_keys d' = insert key (message_keys d) \<and> fresh = (key \<notin> message_keys d)"
  using insert_message_keys [OF assms [unfolded queue_message_def]] by (simp add: new_message_def)

definition call_step :: "lbc_run \<Rightarrow> lbc_run \<Rightarrow> lbc_call list \<Rightarrow> bool" where
  \<comment> \<open>new calls, and what they leave in the log\<close>
  "call_step r r' new =
     (lr_calls r' = lr_calls r @ new \<and> distinct (map lc_key new) \<and> lc_key ` set new \<inter> message_keys (lr_db r) = {}
      \<and> message_keys (lr_db r) \<union> lc_key ` set new \<subseteq> message_keys (lr_db r'))"

lemma call_step_trans: "call_step r r1 new1 \<Longrightarrow> call_step r1 r2 new2 \<Longrightarrow> call_step r r2 (new1 @ new2)"
  unfolding call_step_def set_append map_append distinct_append image_Un append_assoc set_map
  by (elim conjE, intro conjI) (simp, assumption+, blast+)

lemma deliver_step:
  assumes "additive (le_during E i)" "deliver E i l account step key message r = Some r'"
  shows "message_keys (lr_db r) \<subseteq> message_keys (lr_db r') \<and> (\<exists>call. lr_calls r' = lr_calls r @ [call] \<and> lc_key call = key
     \<and> lc_turn call = i \<and> lc_listing call = l \<and> lc_account call = account \<and> lc_step call = step \<and> lc_text call = message
     \<and> lr_usage r' = (if lc_confirmed call then dict_set (pa_id account) (usage_of (lr_usage r) (pa_id account) + 1) (lr_usage r) else lr_usage r)
     \<and> lr_sent r' = lr_sent r + (if lc_confirmed call then 1 else 0) \<and> lr_failed r' = lr_failed r + (if lc_confirmed call then 0 else 1))"
  using assms(2) by (auto simp: deliver_def Let_def intro: additiveD [OF assms(1)] split: option.splits sum.splits)

definition own_templates :: "uuid \<Rightarrow> db \<Rightarrow> campaign_message_template list" where
  "own_templates cid d = filter (\<lambda>t. ct_campaign_id t = cid) (campaign_message_templates d)"

definition templates_kept :: "lbc_env \<Rightarrow> uuid \<Rightarrow> bool" where
  \<comment> \<open>nobody edits the templates of the campaign during its run\<close>
  "templates_kept E cid =
     (\<forall>f\<in>insert (le_before_usage E) (range (le_before_turn E) \<union> range (le_before_templates E) \<union> range (le_before_queue E) \<union> range (le_during E)).
        \<forall>d. own_templates cid (f d) = own_templates cid d)"

lemma templates_keptD:
  assumes "templates_kept E cid"
  shows "own_templates cid (le_before_usage E d) = own_templates cid d" "own_templates cid (le_before_turn E i d) = own_templates cid d"
    "own_templates cid (le_before_templates E i d) = own_templates cid d" "own_templates cid (le_before_queue E i d) = own_templates cid d"
    "own_templates cid (le_during E i d) = own_templates cid d"
  using assms by (auto simp: templates_kept_def)

lemma lbc_templates_own: "lbc_templates cid step d = filter (\<lambda>t. ct_channel t = ''lbc'' \<and> ct_step t = int step \<and> ct_enabled t) (own_templates cid d)"
  by (simp add: lbc_templates_def own_templates_def)

lemma lbc_text_own: "own_templates (ca_id c) d = own_templates (ca_id c) d' \<Longrightarrow> lbc_text c l step d = lbc_text c l step d'"
  by (simp add: lbc_text_def lbc_templates_own)

lemma own_templates_other [simp]:
  "own_templates k (pause_for_quota cid wid d) = own_templates k d" "own_templates k (set_workflow wid f d) = own_templates k d"
  "own_templates k (set_campaign cid g d) = own_templates k d" "own_templates k (mark_message now key st e d) = own_templates k d"
  by (simp_all add: own_templates_def pause_for_quota_def set_workflow_def set_campaign_def mark_message_def)

lemma queue_message_templates: "queue_message now key lid aid m step due d = (fresh, d') \<Longrightarrow> own_templates k d' = own_templates k d"
  by (auto simp: queue_message_def insert_message_def insert_new_def own_templates_def split: if_splits)

lemma deliver_templates:
  assumes "templates_kept E cid" "deliver E i l account step key message r = Some r'"
  shows "own_templates cid (lr_db r') = own_templates cid (lr_db r)"
  using assms(2) by (auto simp: deliver_def Let_def templates_keptD [OF assms(1)] split: option.splits sum.splits)

lemma lbc_turn_templates:
  assumes "templates_kept E (ca_id c)" "lbc_turn E c wid accounts i l r = Some (t, r')"
  shows "own_templates (ca_id c) (lr_db r') = own_templates (ca_id c) (lr_db r)"
  using assms(2)
  by (auto simp: lbc_turn_def Let_def templates_keptD [OF assms(1)] dest!: queue_message_templates [where k = "ca_id c"]
      deliver_templates [OF assms(1)] split: if_splits option.splits sum.splits prod.splits bool.splits)

definition one_call :: "lbc_env \<Rightarrow> campaign \<Rightarrow> platform_account list \<Rightarrow> listing \<Rightarrow> lbc_run \<Rightarrow> lbc_run \<Rightarrow> lbc_call \<Rightarrow> bool" where
  \<comment> \<open>the call of a turn and what it does to the counters\<close>
  "one_call E c accounts l r r' call =
     (lc_listing call = l \<and> lc_account call \<in> set accounts
      \<and> lc_key call = outbound_message_key (ca_id c) (li_id l) (lc_step call)
      \<and> (templates_kept E (ca_id c) \<longrightarrow> (\<exists>delay. lbc_text c l (lc_step call) (lr_db r) = Inr (Some (lc_text call, delay))))
      \<and> usage_of (lr_usage r) (pa_id (lc_account call)) < pa_quota_actuel (lc_account call)
      \<and> lr_usage r' = (if lc_confirmed call
            then dict_set (pa_id (lc_account call)) (usage_of (lr_usage r) (pa_id (lc_account call)) + 1) (lr_usage r) else lr_usage r)
      \<and> lr_sent r' = lr_sent r + (if lc_confirmed call then 1 else 0)
      \<and> lr_failed r' = lr_failed r + (if lc_confirmed call then 0 else 1))"

definition no_call :: "lbc_run \<Rightarrow> lbc_run \<Rightarrow> bool" where
  "no_call r r' = (call_step r r' [] \<and> lr_usage r' = lr_usage r \<and> lr_sent r' = lr_sent r \<and> lr_failed r' = lr_failed r)"

lemma lbc_turn_step:
  assumes "lbc_env_ok E" "lbc_turn E c wid accounts i l r = Some (t, r')"
  shows "no_call r r' \<or> (\<exists>call. call_step r r' [call] \<and> one_call E c accounts l r r' call \<and> t = Next)"
proof -
  define d0 where "d0 = le_before_turn E i (lr_db r)"
  define d1 where "d1 = le_before_templates E i d0"
  define d2 where "d2 = le_before_queue E i d1"
  have ok: "additive (le_before_turn E i)" "additive (le_before_templates E i)" "additive (le_before_queue E i)" "additive (le_during E i)"
    using assms(1) by (simp_all add: lbc_env_ok_def)
  have k: "message_keys (lr_db r) \<subseteq> message_keys d0" "message_keys d0 \<subseteq> message_keys d1" "message_keys d1 \<subseteq> message_keys d2"
    using ok by (simp_all add: additive_def d0_def d1_def d2_def)
  have quiet: ?thesis if "lr_calls r' = lr_calls r" "lr_usage r' = lr_usage r" "lr_sent r' = lr_sent r" "lr_failed r' = lr_failed r"
    "message_keys (lr_db r) \<subseteq> message_keys (lr_db r')"
    using that by (simp add: no_call_def call_step_def)
  show ?thesis
  proof (cases "may_continue (ca_id c) wid d0")
    case False
    with assms(2) k show ?thesis by (intro quiet) (auto simp: lbc_turn_def d0_def [symmetric])
  next
    case go: True
    show ?thesis
    proof (cases "choose_account (lr_usage r) accounts")
      case None
      with assms(2) k go show ?thesis by (intro quiet) (auto simp: lbc_turn_def d0_def [symmetric])
    next
      case (Some account)
      then have acc: "account \<in> set accounts" "usage_of (lr_usage r) (pa_id account) < pa_quota_actuel account"
        using first_max_SomeD [of _ _ account] by (fastforce simp: choose_account_def)+
      define step where "step = sent_count (li_id l) d1"
      show ?thesis
      proof (cases "lbc_text c l step d1")
        case (Inl e)
        with assms(2) k go Some show ?thesis
          by (intro quiet) (auto simp: lbc_turn_def d0_def [symmetric] d1_def [symmetric] step_def Let_def)
      next
        case tx: (Inr m)
        show ?thesis
        proof (cases m)
          case None
          with assms(2) k go Some tx show ?thesis
            by (intro quiet) (auto simp: lbc_turn_def d0_def [symmetric] d1_def [symmetric] step_def Let_def)
        next
          case m: (Some md)
          obtain message delay where md: "md = (message, delay)" by fastforce
          define key where "key = outbound_message_key (ca_id c) (li_id l) step"
          obtain fresh d3 where q: "queue_message (le_clock E i) key (li_id l) (pa_id account) message step (le_clock E i + days delay) d2
              = (fresh, d3)" by fastforce
          note qk = queue_message_keys [OF q]
          have turn: "lbc_turn E c wid accounts i l r = (if \<not> fresh then Some (Next, r\<lparr>lr_db := d3\<rparr>)
              else map_option (\<lambda>r'. (Next, r')) (deliver E i l account step key message (r\<lparr>lr_db := d3\<rparr>)))"
            using go Some tx m md q
            by (simp add: lbc_turn_def d0_def [symmetric] d1_def [symmetric] d2_def [symmetric] step_def [symmetric] key_def [symmetric] Let_def)
          show ?thesis
          proof (cases fresh)
            case False
            with assms(2) turn have "t = Next" "r' = r\<lparr>lr_db := d3\<rparr>" by simp_all
            moreover have "message_keys (lr_db r) \<subseteq> message_keys d3" using k qk by blast
            ultimately show ?thesis by (intro quiet) simp_all
          next
            case True
            then obtain r1 where dl: "deliver E i l account step key message (r\<lparr>lr_db := d3\<rparr>) = Some r1" "t = Next" "r' = r1"
              using assms(2) turn by auto
            from deliver_step [OF ok(4) dl(1)] obtain call where call: "message_keys d3 \<subseteq> message_keys (lr_db r1)"
              "lr_calls r1 = lr_calls r @ [call]" "lc_key call = key" "lc_listing call = l" "lc_account call = account"
              "lc_step call = step" "lc_text call = message"
              "lr_usage r1 = (if lc_confirmed call then dict_set (pa_id account) (usage_of (lr_usage r) (pa_id account) + 1) (lr_usage r) else lr_usage r)"
              "lr_sent r1 = lr_sent r + (if lc_confirmed call then 1 else 0)" "lr_failed r1 = lr_failed r + (if lc_confirmed call then 0 else 1)"
              by auto
            have "call_step r r' [call]"
              using call dl k qk True by (auto simp: call_step_def)
            moreover have "lbc_text c l step (lr_db r) = Inr (Some (message, delay))" if kept: "templates_kept E (ca_id c)"
              using tx m md lbc_text_own [of c "lr_db r" d1 l step] templates_keptD [OF kept] by (simp add: d0_def d1_def)
            then have "one_call E c accounts l r r' call"
              using call dl acc by (auto simp: one_call_def key_def)
            ultimately show ?thesis using dl(2) by blast
          qed
        qed
      qed
    qed
  qed
qed


definition confirmed_by :: "uuid \<Rightarrow> lbc_call list \<Rightarrow> int" where
  "confirmed_by a cs = int (length (filter (\<lambda>x. lc_confirmed x \<and> pa_id (lc_account x) = a) cs))"

definition under_quota :: "(uuid, int) dict \<Rightarrow> lbc_call list \<Rightarrow> bool" where
  \<comment> \<open>each call is made while its account is under its quota, the earlier calls counted\<close>
  "under_quota u cs = (\<forall>n<length cs. usage_of u (pa_id (lc_account (cs ! n))) + confirmed_by (pa_id (lc_account (cs ! n))) (take n cs)
      < pa_quota_actuel (lc_account (cs ! n)))"

definition lbc_step :: "lbc_env \<Rightarrow> campaign \<Rightarrow> platform_account list \<Rightarrow> listing list \<Rightarrow> lbc_run \<Rightarrow> lbc_run \<Rightarrow> lbc_call list \<Rightarrow> bool" where
  "lbc_step E c accounts ls r r' cs =
     (call_step r r' cs \<and> subseq (map lc_listing cs) ls \<and> under_quota (lr_usage r) cs
      \<and> (\<forall>x\<in>set cs. lc_account x \<in> set accounts \<and> lc_key x = outbound_message_key (ca_id c) (li_id (lc_listing x)) (lc_step x)
           \<and> (templates_kept E (ca_id c) \<longrightarrow> (\<exists>delay. lbc_text c (lc_listing x) (lc_step x) (lr_db r) = Inr (Some (lc_text x, delay)))))
      \<and> lr_sent r' = lr_sent r + int (length (filter lc_confirmed cs))
      \<and> lr_failed r' = lr_failed r + int (length (filter (\<lambda>x. \<not> lc_confirmed x) cs)))"

lemma usage_of_set: "usage_of (dict_set a n u) b = (if a = b then n else usage_of u b)"
  by (simp add: usage_of_def dict_get_set)

lemma under_quota_Cons:
  assumes "usage_of u (pa_id (lc_account x)) < pa_quota_actuel (lc_account x)"
    and "under_quota (if lc_confirmed x then dict_set (pa_id (lc_account x)) (usage_of u (pa_id (lc_account x)) + 1) u else u) cs"
  shows "under_quota u (x # cs)"
  unfolding under_quota_def
proof (intro allI impI)
  fix n assume n: "n < length (x # cs)"
  show "usage_of u (pa_id (lc_account ((x # cs) ! n))) + confirmed_by (pa_id (lc_account ((x # cs) ! n))) (take n (x # cs))
      < pa_quota_actuel (lc_account ((x # cs) ! n))"
  proof (cases n)
    case 0
    with assms(1) show ?thesis by (simp add: confirmed_by_def)
  next
    case (Suc k)
    with n assms(2) have "usage_of (if lc_confirmed x then dict_set (pa_id (lc_account x)) (usage_of u (pa_id (lc_account x)) + 1) u else u)
        (pa_id (lc_account (cs ! k))) + confirmed_by (pa_id (lc_account (cs ! k))) (take k cs) < pa_quota_actuel (lc_account (cs ! k))"
      unfolding under_quota_def by auto
    with Suc show ?thesis by (auto simp: confirmed_by_def usage_of_set split: if_splits)
  qed
qed

lemma lbc_loop_step:
  assumes ok: "lbc_env_ok E"
  shows "lbc_loop E c wid accounts i ls r = Some (t, r') \<Longrightarrow> \<exists>cs. lbc_step E c accounts ls r r' cs"
proof (induction ls arbitrary: i r)
  case Nil
  then show ?case by (intro exI [of _ "[]"]) (auto simp: lbc_step_def call_step_def under_quota_def)
next
  case (Cons l ls)
  obtain t1 r1 where turn: "lbc_turn E c wid accounts i l r = Some (t1, r1)"
    using Cons.prems by (auto split: option.splits)
  have rest: "\<exists>cs. lbc_step E c accounts ls r1 r' cs"
  proof (cases t1)
    case Next
    with Cons turn show ?thesis by auto
  qed (use Cons.prems turn in \<open>auto intro!: exI [of _ "[]"] simp: lbc_step_def call_step_def under_quota_def\<close>)
  then obtain cs where cs: "lbc_step E c accounts ls r1 r' cs" by blast
  have same: "lbc_text c x n (lr_db r1) = lbc_text c x n (lr_db r)" if "templates_kept E (ca_id c)" for x n
    by (rule lbc_text_own, rule lbc_turn_templates [OF that turn])
  from lbc_turn_step [OF ok turn] show ?case
  proof
    assume "no_call r r1"
    with cs have "lbc_step E c accounts (l # ls) r r' cs"
      using call_step_trans [of r r1 "[]" r' cs] by (auto simp: lbc_step_def no_call_def same)
    then show ?thesis by blast
  next
    assume "\<exists>call. call_step r r1 [call] \<and> one_call E c accounts l r r1 call \<and> t1 = Next"
    then obtain call where call: "call_step r r1 [call]" "one_call E c accounts l r r1 call" by blast
    have "call_step r r' (call # cs)"
      using call_step_trans [OF call(1), of r' cs] cs by (simp add: lbc_step_def)
    moreover have "under_quota (lr_usage r) (call # cs)"
      using cs call(2) by (intro under_quota_Cons) (auto simp: lbc_step_def one_call_def)
    ultimately have "lbc_step E c accounts (l # ls) r r' (call # cs)"
      using cs call(2) by (auto simp: lbc_step_def one_call_def same)
    then show ?thesis by blast
  qed
qed


section \<open>Properties of a run\<close>

definition usage_base :: "lbc_env \<Rightarrow> uuid \<Rightarrow> uuid \<Rightarrow> db \<Rightarrow> (uuid, int) dict" where
  \<comment> \<open>the usage a run starts from\<close>
  "usage_base E cid wid d = today_account_usage (le_usage_at E) (le_before_usage E (snd (session (plan_batch E cid wid) d)))"

definition lbc_entitled :: "lbc_env \<Rightarrow> uuid \<Rightarrow> uuid \<Rightarrow> db \<Rightarrow> campaign \<Rightarrow> vehicle_search_criteria \<Rightarrow> lbc_call list \<Rightarrow> bool" where
  \<comment> \<open>whom the calls of a run may reach, and with what\<close>
  "lbc_entitled E cid wid d c v cs =
     (get_campaign cid d = Some c \<and> ca_status c \<in> {C_RUNNING, C_PENDING} \<and> criteria_of (ca_search_criteria c) = Inr v
      \<and> subseq (map lc_listing cs) (take LBC_MESSAGE_BATCH_SIZE (campaign_listings (le_now E) c v d))
      \<and> under_quota (usage_base E cid wid d) cs
      \<and> (\<forall>x\<in>set cs. lc_account x \<in> set (message_accounts d)
           \<and> lc_key x = outbound_message_key cid (li_id (lc_listing x)) (lc_step x)
           \<and> (templates_kept E cid \<longrightarrow> (\<exists>delay. lbc_text c (lc_listing x) (lc_step x) d = Inr (Some (lc_text x, delay))))))"

lemma plan_batch_InrE:
  assumes "session (plan_batch E cid wid) d = (Inr (Inr b), d1)"
  obtains c w v where "get_campaign cid d = Some c" "get_workflow wid d = Some w" "ca_status c \<in> {C_RUNNING, C_PENDING}"
    "criteria_of (ca_search_criteria c) = Inr v"
    "b = \<lparr>lb_campaign = c\<lparr>ca_status := C_RUNNING\<rparr>,
          lb_listings = take LBC_MESSAGE_BATCH_SIZE (campaign_listings (le_now E) (c\<lparr>ca_status := C_RUNNING\<rparr>) v d),
          lb_more = (LBC_MESSAGE_BATCH_SIZE < length (campaign_listings (le_now E) (c\<lparr>ca_status := C_RUNNING\<rparr>) v d)),
          lb_accounts = message_accounts d\<rparr>"
    "d1 = set_workflow wid (\<lambda>w. w\<lparr>wf_status := W_RUNNING,
             wf_started_at := (case wf_started_at w of None \<Rightarrow> Some (le_now E) | Some t \<Rightarrow> Some t),
             wf_progress_total := Some (int (length (campaign_listings (le_now E) (c\<lparr>ca_status := C_RUNNING\<rparr>) v d)))\<rparr>)
           (set_campaign cid (\<lambda>c. c\<lparr>ca_status := C_RUNNING\<rparr>) d)"
  using assms by (auto simp: session_def plan_batch_def Let_def split: option.splits sum.splits if_splits)

lemma campaign_listings_status [simp]: "campaign_listings now (c\<lparr>ca_status := s\<rparr>) v d = campaign_listings now c v d"
  by (simp add: campaign_listings_def)

lemma lbc_text_status [simp]: "lbc_text (c\<lparr>ca_status := s\<rparr>) l n d = lbc_text c l n d"
  by (simp add: lbc_text_def Let_def)

lemma get_campaign_id: "get_campaign cid d = Some c \<Longrightarrow> ca_id c = cid"
  by (auto simp: get_campaign_def dest: find_row_SomeD)

lemma plan_batch_keys: "message_keys (snd (session (plan_batch E cid wid) d)) = message_keys d"
proof (cases "session (plan_batch E cid wid) d")
  case (Pair res d1)
  show ?thesis
  proof (cases "\<exists>b. res = Inr (Inr b)")
    case True
    then obtain b where "session (plan_batch E cid wid) d = (Inr (Inr b), d1)" using Pair by auto
    then have "message_keys d1 = message_keys d" by (elim plan_batch_InrE) simp
    with Pair show ?thesis by simp
  next
    case False
    with Pair have "d1 = d"
      by (auto simp: session_def plan_batch_def Let_def split: option.splits sum.splits if_splits)
    with Pair show ?thesis by simp
  qed
qed

lemma close_batch_keys: "session (close_batch E cid wid backlog n k) d = (res, d') \<Longrightarrow> message_keys d' = message_keys d"
  by (auto simp: session_def close_batch_def Let_def split: option.splits sum.splits)

lemma lbc_run_cases:
  assumes ok: "lbc_env_ok E" and run: "run_lbc_message_campaign E cid wid d = Some out"
  shows "(lo_calls out = [] \<or> (\<exists>c v. lbc_entitled E cid wid d c v (lo_calls out)))
     \<and> distinct (map lc_key (lo_calls out)) \<and> lc_key ` set (lo_calls out) \<inter> message_keys d = {}
     \<and> message_keys d \<union> lc_key ` set (lo_calls out) \<subseteq> message_keys (lo_db out)"
proof -
  obtain res d1 where plan: "session (plan_batch E cid wid) d = (res, d1)" by fastforce
  define d2 where "d2 = le_before_usage E d1"
  have "additive (le_before_usage E)" using ok by (simp add: lbc_env_ok_def)
  then have k: "message_keys d1 = message_keys d" "message_keys d1 \<subseteq> message_keys d2"
    using plan_batch_keys [of E cid wid d] plan by (auto simp: additive_def d2_def)
  have quiet: ?thesis if "lo_calls out = []" "message_keys d \<subseteq> message_keys (lo_db out)"
    using that by simp
  show ?thesis
  proof (cases "browser_use_api_key (le_settings E) = [] \<or> (\<nexists>b. res = Inr (Inr b) \<and> lb_accounts b \<noteq> [])")
    case True
    with run plan k show ?thesis
      by (intro quiet) (auto simp: run_lbc_message_campaign_def d2_def [symmetric] Let_def split: if_splits sum.splits)
  next
    case False
    then obtain b where b: "res = Inr (Inr b)" "lb_accounts b \<noteq> []" by auto
    obtain t r where loop: "lbc_loop E (lb_campaign b) wid (lb_accounts b) 0 (lb_listings b)
          \<lparr>lr_db = d2, lr_usage = today_account_usage (le_usage_at E) d2, lr_sent = 0, lr_failed = 0, lr_calls = []\<rparr> = Some (t, r)"
      using run plan b False by (auto simp: run_lbc_message_campaign_def d2_def [symmetric] Let_def split: option.splits)
    have closed: "lo_calls out = lr_calls r \<and> message_keys (lr_db r) \<subseteq> message_keys (lo_db out)"
    proof (cases "t = QuotaOut \<or> (\<exists>e. t = Failed e)")
      case True
      then show ?thesis using run plan b False loop
        by (auto simp: run_lbc_message_campaign_def d2_def [symmetric] Let_def)
    next
      case go: False
      obtain res' d3 where cl: "session (close_batch E cid wid (lb_more b) (lr_sent r) (lr_failed r)) (le_before_close E (lr_db r)) = (res', d3)"
        by fastforce
      have "message_keys (lr_db r) \<subseteq> message_keys d3"
        using close_batch_keys [OF cl] ok by (simp add: lbc_env_ok_def additive_def)
      then show ?thesis using run plan b False loop go cl
        by (cases t; cases res') (auto simp: run_lbc_message_campaign_def d2_def [symmetric] Let_def)
    qed
    from lbc_loop_step [OF ok loop] obtain cs where cs: "lbc_step E (lb_campaign b) (lb_accounts b) (lb_listings b)
        \<lparr>lr_db = d2, lr_usage = today_account_usage (le_usage_at E) d2, lr_sent = 0, lr_failed = 0, lr_calls = []\<rparr> r cs" by blast
    then have "call_step \<lparr>lr_db = d2, lr_usage = today_account_usage (le_usage_at E) d2, lr_sent = 0, lr_failed = 0, lr_calls = []\<rparr> r cs"
      unfolding lbc_step_def by (elim conjE)
    then have step: "lo_calls out = cs" "distinct (map lc_key cs)" "lc_key ` set cs \<inter> message_keys d2 = {}"
      "message_keys d2 \<union> lc_key ` set cs \<subseteq> message_keys (lr_db r)"
      using closed by (simp_all add: call_step_def)
    obtain c v where c: "get_campaign cid d = Some c" "ca_status c \<in> {C_RUNNING, C_PENDING}" "criteria_of (ca_search_criteria c) = Inr v"
      "lb_campaign b = c\<lparr>ca_status := C_RUNNING\<rparr>" "lb_accounts b = message_accounts d"
      "lb_listings b = take LBC_MESSAGE_BATCH_SIZE (campaign_listings (le_now E) c v d)"
      using plan [unfolded b(1)] by (elim plan_batch_InrE) auto
    have d1: "own_templates cid d1 = own_templates cid d"
      using plan [unfolded b(1)] by (elim plan_batch_InrE) simp
    have "lbc_text c x n d2 = lbc_text c x n d" if "templates_kept E cid" for x n
      by (rule lbc_text_own) (use get_campaign_id [OF c(1)] d1 templates_keptD(1) [OF that] in \<open>simp add: d2_def\<close>)
    then have "lbc_entitled E cid wid d c v (lo_calls out)"
      using cs c step(1) get_campaign_id [OF c(1)] plan
      by (auto simp: lbc_entitled_def lbc_step_def usage_base_def d2_def)
    then show ?thesis using step k closed by blast
  qed
qed

lemma lbc_loop_returns:
  assumes "0 < browser_use_poll_interval_seconds (le_settings E)"
  shows "lbc_loop E c wid accounts i ls r \<noteq> None"
proof (induction ls arbitrary: i r)
  case (Cons l ls)
  have "lbc_turn E c wid accounts i l r \<noteq> None"
    using send_message_task_returns [OF assms]
    by (auto simp: lbc_turn_def deliver_def Let_def split: option.splits sum.splits prod.splits bool.splits)
      (metis option.distinct(1))+
  then show ?case using Cons.IH by (auto split: turn_end.splits)
qed simp

lemma lbc_run_returns:
  assumes "lbc_env_ok E"
  shows "\<exists>out. run_lbc_message_campaign E cid wid d = Some out"
proof -
  obtain res d1 where plan: "session (plan_batch E cid wid) d = (res, d1)" by fastforce
  have loop: "\<exists>t r'. lbc_loop E c wid accounts 0 ls r = Some (t, r')" for c accounts ls r
    using lbc_loop_returns [of E c wid accounts 0 ls r] assms by (auto simp: lbc_env_ok_def)
  show ?thesis
  proof (cases "browser_use_api_key (le_settings E) = [] \<or> (\<nexists>b. res = Inr (Inr b) \<and> lb_accounts b \<noteq> [])")
    case True
    with plan show ?thesis by (auto simp: run_lbc_message_campaign_def Let_def split: sum.splits)
  next
    case False
    then obtain b where b: "res = Inr (Inr b)" "lb_accounts b \<noteq> []" by auto
    obtain t r where tr: "lbc_loop E (lb_campaign b) wid (lb_accounts b) 0 (lb_listings b)
          \<lparr>lr_db = le_before_usage E d1, lr_usage = today_account_usage (le_usage_at E) (le_before_usage E d1), lr_sent = 0,
           lr_failed = 0, lr_calls = []\<rparr> = Some (t, r)" using loop by metis
    obtain res' d3 where "session (close_batch E cid wid (lb_more b) (lr_sent r) (lr_failed r)) (le_before_close E (lr_db r)) = (res', d3)"
      by fastforce
    with plan b False tr show ?thesis
      by (cases t; cases res') (simp_all add: run_lbc_message_campaign_def Let_def)
  qed
qed


definition lbc_quiet :: "lbc_env \<Rightarrow> bool" where
  \<comment> \<open>no other session changes anything during the run\<close>
  "lbc_quiet E = (0 < browser_use_poll_interval_seconds (le_settings E) \<and> le_before_usage E = id \<and> le_before_close E = id
     \<and> le_before_turn E = (\<lambda>i. id) \<and> le_before_templates E = (\<lambda>i. id) \<and> le_before_queue E = (\<lambda>i. id) \<and> le_during E = (\<lambda>i. id))"

lemma lbc_quiet_ok: "lbc_quiet E \<Longrightarrow> lbc_env_ok E"
  by (simp add: lbc_quiet_def lbc_env_ok_def additive_def)

text \<open>Demonstration data: a campaign with two listings and an account with one message left today.\<close>

definition demo_lbc_listing :: "uuid \<Rightarrow> listing" where
  "demo_lbc_listing i = (demo_listing i [])\<lparr>li_source := SRC_LBC, li_phone := None\<rparr>"

definition demo_lbc_account :: "int \<Rightarrow> platform_account" where
  "demo_lbc_account quota = (demo_ac_account ACTIF)\<lparr>pa_quota_actuel := quota\<rparr>"

definition demo_lbc_db :: "int \<Rightarrow> uuid list \<Rightarrow> lbc_message_log list \<Rightarrow> db" where
  "demo_lbc_db quota ids ms = empty_db\<lparr>campaigns := [demo_campaign\<lparr>ca_type := ''lbc''\<rparr>],
     workflow_runs := [demo_ac_workflow\<lparr>wf_workflow_type := ''campaign.lbc_message''\<rparr>],
     listings := map demo_lbc_listing ids, platform_accounts := [demo_lbc_account quota], lbc_message_log := ms, fresh_id := 100\<rparr>"

definition demo_lbc_env :: lbc_env where
  "demo_lbc_env = \<lparr>le_settings = default_settings\<lparr>browser_use_api_key := ''key''\<rparr>, le_now = hours 10, le_usage_at = hours 10,
     le_clock = (\<lambda>i. hours 10), le_done_at = (\<lambda>i. hours 10), le_close_at = hours 10,
     le_client = (\<lambda>i. \<lparr>bu_create_task = (\<lambda>p. Inr [(''id'', JStr ''t'')]), bu_task_status = (\<lambda>n t. Inr [(''status'', JStr ''finished'')]),
        bu_task_detail = (\<lambda>t. Inr [(''isSuccess'', JBool True)]), bu_stop_task = (\<lambda>t. Inr ())\<rparr>),
     le_before_usage = id, le_before_turn = (\<lambda>i. id), le_before_templates = (\<lambda>i. id), le_before_queue = (\<lambda>i. id),
     le_during = (\<lambda>i. id), le_before_close = id\<rparr>"

lemma demo_lbc_quiet: "lbc_quiet demo_lbc_env"
  by (simp add: lbc_quiet_def demo_lbc_env_def default_settings_def)

lemmas demo_lbc_simps = demo_lbc_listing_def demo_lbc_account_def demo_lbc_db_def demo_lbc_env_def demo_listing_def demo_campaign_def
  demo_ac_workflow_def demo_ac_account_def empty_db_def

lemma demo_lbc_send: "send_message_task (le_settings demo_lbc_env) (le_client demo_lbc_env i) p u m = Some (Inr [(''isSuccess'', JBool True)])"
  by (simp add: demo_lbc_env_def send_message_task_def wait_for_task_def poll.simps message_turn_def default_settings_def get_json_def
      json_or_def dict_get_def)

lemma demo_criteria: "criteria_of [] = Inr \<lparr>vs_brand_model = None, vs_vehicle_type = None, vs_region = None, vs_department = None,
      vs_budget_min = None, vs_budget_max = None, vs_year_max = None, vs_mileage_max = None\<rparr>"
  by (simp add: criteria_of_def text_value_def int_value_def get_json_def dict_get_def validate_budget_def)

lemma demo_lbc_listings:
  "campaign_listings now (demo_campaign\<lparr>ca_type := t, ca_status := s\<rparr>) \<lparr>vs_brand_model = None, vs_vehicle_type = None, vs_region = None,
      vs_department = None, vs_budget_min = None, vs_budget_max = None, vs_year_max = None, vs_mileage_max = None\<rparr>
      (demo_lbc_db quota ids [])
    = map demo_lbc_listing ids"
  by (auto simp: campaign_listings_def demo_lbc_simps matches_criteria_def lbc_eligible_def sent_count_def Let_def
      intro!: filter_True)


lemma demo_lbc_text:
  assumes "ca_message_template c = ''Bonjour''" "campaign_message_templates d = []"
  shows "lbc_text c l 0 d = Inr (Some (''Bonjour'', 3))"
proof -
  have "format_str fields ''Bonjour'' = Inr ''Bonjour''" for fields by simp
  then show ?thesis by (simp add: lbc_text_def lbc_templates_def Let_def assms)
qed


lemma may_continue_cong:
  "campaigns d = campaigns d' \<Longrightarrow> workflow_runs d = workflow_runs d' \<Longrightarrow> may_continue cid wid d = may_continue cid wid d'"
  by (simp add: may_continue_def get_campaign_def get_workflow_def)

lemma lbc_turn_quota:
  assumes "lbc_quiet E" "may_continue (ca_id c) wid (lr_db r)" "choose_account (lr_usage r) accounts = None"
  shows "lbc_turn E c wid accounts i l r = Some (QuotaOut, r\<lparr>lr_db := pause_for_quota (ca_id c) wid (lr_db r)\<rparr>)"
  using assms by (simp add: lbc_turn_def lbc_quiet_def)

lemma lbc_turn_sends:
  assumes "lbc_quiet E" "may_continue (ca_id c) wid (lr_db r)" "choose_account (lr_usage r) accounts = Some a"
    and "step = sent_count (li_id l) (lr_db r)" "key = outbound_message_key (ca_id c) (li_id l) step"
    and "lbc_text c l step (lr_db r) = Inr (Some (m, delay))"
    and "queue_message (le_clock E i) key (li_id l) (pa_id a) m step (le_clock E i + days delay) (lr_db r) = (True, d2)"
    and "send_message_task (le_settings E) (le_client E i) (case pa_browser_use_profile_id a of None \<Rightarrow> [] | Some p \<Rightarrow> p) (li_url l) m
      = Some (Inr detail)"
    and "get_json detail ''isSuccess'' \<noteq> JBool False"
  shows "lbc_turn E c wid accounts i l r = Some (Next, r\<lparr>lr_calls := lr_calls r @ [\<lparr>lc_turn = i, lc_key = key, lc_listing = l,
       lc_account = a, lc_step = step, lc_text = m, lc_confirmed = True\<rparr>],
     lr_db := mark_message (le_done_at E i) key LBCM_SENT None d2, lr_usage := dict_set (pa_id a) (usage_of (lr_usage r) (pa_id a) + 1) (lr_usage r),
     lr_sent := lr_sent r + 1\<rparr>)"
  using assms by (simp add: lbc_turn_def deliver_def lbc_quiet_def Let_def)

lemma demo_lbc_run:
  "\<exists>out x. run_lbc_message_campaign demo_lbc_env 5 3 (demo_lbc_db 1 [20, 21] []) = Some out \<and> lo_calls out = [x]
     \<and> lc_listing x = demo_lbc_listing 20 \<and> lc_text x = ''Bonjour'' \<and> lc_confirmed x \<and> lo_result out = Inr (''paused'', 1, 0)"
proof -
  let ?d = "demo_lbc_db 1 [20, 21] []"
  let ?c = "demo_campaign\<lparr>ca_type := ''lbc''\<rparr>"
  define b where "b = \<lparr>lb_campaign = ?c\<lparr>ca_status := C_RUNNING\<rparr>, lb_listings = [demo_lbc_listing 20, demo_lbc_listing 21],
     lb_more = False, lb_accounts = [demo_lbc_account 1]\<rparr>"
  define d1 where "d1 = set_workflow 3 (\<lambda>w. w\<lparr>wf_status := W_RUNNING,
     wf_started_at := (case wf_started_at w of None \<Rightarrow> Some (hours 10) | Some t \<Rightarrow> Some t), wf_progress_total := Some 2\<rparr>)
       (set_campaign 5 (\<lambda>c. c\<lparr>ca_status := C_RUNNING\<rparr>) ?d)"
  have rows: "get_campaign 5 ?d = Some ?c" "get_workflow 3 ?d = Some (demo_ac_workflow\<lparr>wf_workflow_type := ''campaign.lbc_message''\<rparr>)"
      "message_accounts ?d = [demo_lbc_account 1]" "ca_status ?c = C_PENDING" "ca_search_criteria ?c = []"
    by (simp_all add: get_campaign_def get_workflow_def message_accounts_def demo_lbc_simps)
  have ls: "campaign_listings (hours 10) (?c\<lparr>ca_status := C_RUNNING\<rparr>) \<lparr>vs_brand_model = None, vs_vehicle_type = None, vs_region = None,
      vs_department = None, vs_budget_min = None, vs_budget_max = None, vs_year_max = None, vs_mileage_max = None\<rparr> ?d
      = [demo_lbc_listing 20, demo_lbc_listing 21]"
    using demo_lbc_listings [where t = "''lbc''" and s = C_RUNNING and quota = 1 and ids = "[20, 21]"] by simp
  have now: "le_now demo_lbc_env = hours 10" by (simp add: demo_lbc_env_def)
  have plan: "session (plan_batch demo_lbc_env 5 3) ?d = (Inr (Inr b), d1)"
    unfolding session_def plan_batch_def rows option.case prod.case Let_def demo_criteria sum.case now ls
    by (simp add: b_def d1_def LBC_MESSAGE_BATCH_SIZE_def)
  have b: "lb_accounts b = [demo_lbc_account 1]" "lb_listings b = [demo_lbc_listing 20, demo_lbc_listing 21]"
      "lb_campaign b = ?c\<lparr>ca_status := C_RUNNING\<rparr>" by (simp_all add: b_def)
  have d1: "lbc_message_log d1 = []" "campaign_message_templates d1 = []"
      "may_continue 5 3 d1"
    by (simp_all add: d1_def set_workflow_def set_campaign_def may_continue_def get_campaign_def get_workflow_def update_where_def
        demo_lbc_simps)
  note go = d1(3)
  have acc: "choose_account [] [demo_lbc_account 1] = Some (demo_lbc_account 1)"
    "choose_account [(9, 1)] [demo_lbc_account 1] = None"
    by (simp_all add: choose_account_def usage_of_def demo_lbc_account_def demo_ac_account_def dict_get_def)
  define key where "key = outbound_message_key 5 20 0"
  define m where "m = (new_message (hours 10) key 20 9 ''Bonjour'' 0 (hours 10 + days 3) d1)"
  define call where "call = \<lparr>lc_turn = 0, lc_key = key, lc_listing = demo_lbc_listing 20, lc_account = demo_lbc_account 1, lc_step = 0,
      lc_text = ''Bonjour'', lc_confirmed = True\<rparr>"
  have usage: "today_account_usage t d1 = []" for t by (simp add: today_account_usage_def d1)
  have body: "lbc_text (lb_campaign b) (demo_lbc_listing 20) 0 d1 = Inr (Some (''Bonjour'', 3))"
    using b d1(2) by (intro demo_lbc_text) (simp_all add: demo_campaign_def)
  have camp: "ca_id (lb_campaign b) = 5" using b by (simp add: demo_campaign_def)
  have sc: "sent_count 20 d1 = 0" by (simp add: sent_count_def d1)
  define d2 where "d2 = d1\<lparr>lbc_message_log := [m], fresh_id := Suc (fresh_id d1)\<rparr>"
  have q: "queue_message (hours 10) key 20 9 ''Bonjour'' 0 (hours 10 + days 3) d1 = (True, d2)"
    using d1(1) by (simp add: queue_message_def insert_message_def insert_new_def m_def [symmetric] d2_def)
  define d3 where "d3 = mark_message (hours 10) key LBCM_SENT None d2"
  have env: "le_clock demo_lbc_env i = hours 10" "le_done_at demo_lbc_env i = hours 10" for i by (simp_all add: demo_lbc_env_def)
  have go3: "may_continue 5 3 d3"
    using may_continue_cong [of d3 d1 5 3] go by (simp add: d3_def d2_def mark_message_def)
  have row: "li_id (demo_lbc_listing 20) = 20" "pa_id (demo_lbc_account 1) = 9"
    by (simp_all add: demo_lbc_listing_def demo_lbc_account_def demo_ac_account_def demo_listing_def)
  have "lbc_turn demo_lbc_env (lb_campaign b) 3 [demo_lbc_account 1] 0 (demo_lbc_listing 20)
      \<lparr>lr_db = d1, lr_usage = [], lr_sent = 0, lr_failed = 0, lr_calls = []\<rparr>
    = Some (Next, \<lparr>lr_db = d3, lr_usage = [(9, 1)], lr_sent = 1, lr_failed = 0, lr_calls = [call]\<rparr>)"
    by (subst lbc_turn_sends [OF demo_lbc_quiet, where a = "demo_lbc_account 1" and step = 0 and key = key and m = "''Bonjour''"
          and delay = 3 and ?d2.0 = d2 and detail = "[(''isSuccess'', JBool True)]"])
      (use go acc sc body camp q in \<open>simp_all add: demo_lbc_send d3_def call_def key_def row env get_json_def dict_get_def dict_set_def
         usage_of_def\<close>)
  moreover have "lbc_turn demo_lbc_env (lb_campaign b) 3 [demo_lbc_account 1] 1 (demo_lbc_listing 21)
      \<lparr>lr_db = d3, lr_usage = [(9, 1)], lr_sent = 1, lr_failed = 0, lr_calls = [call]\<rparr>
    = Some (QuotaOut, \<lparr>lr_db = pause_for_quota 5 3 d3, lr_usage = [(9, 1)], lr_sent = 1, lr_failed = 0, lr_calls = [call]\<rparr>)"
    using go3 acc(2) camp by (subst lbc_turn_quota [OF demo_lbc_quiet]) simp_all
  ultimately have "run_lbc_message_campaign demo_lbc_env 5 3 ?d = Some \<lparr>lo_result = Inr (''paused'', 1, 0),
      lo_db = pause_for_quota 5 3 d3, lo_calls = [call]\<rparr>"
    using plan b usage demo_lbc_quiet by (simp add: run_lbc_message_campaign_def demo_lbc_env_def lbc_quiet_def)
  then show ?thesis by (simp add: call_def)
qed


text \<open>
  C13. Whom a message run reaches. If the other sessions only add to the message log, every call of a
  run goes to one of the first 25 eligible listings of the campaign (source LBC, matching its criteria,
  fewer than three messages, due, no SMS), each at most once, from an active account with a browser
  profile that is under its daily quota at that moment; only a campaign that was RUNNING or PENDING makes
  calls; and when nobody edits the templates of the campaign during the run, the text of each call is the one that
  the template of its step and listing, as stored when the run starts, gives for that listing.
\<close>

theorem lbc_messages_entitled:
  assumes "lbc_env_ok E" "run_lbc_message_campaign E cid wid d = Some out" "lo_calls out \<noteq> []"
  shows "\<exists>c v. get_campaign cid d = Some c \<and> ca_status c \<in> {C_RUNNING, C_PENDING} \<and> criteria_of (ca_search_criteria c) = Inr v
    \<and> subseq (map lc_listing (lo_calls out)) (take 25 (campaign_listings (le_now E) c v d))
    \<and> under_quota (usage_base E cid wid d) (lo_calls out)
    \<and> (\<forall>x\<in>set (lo_calls out). lc_account x \<in> set (message_accounts d)
         \<and> lc_key x = outbound_message_key cid (li_id (lc_listing x)) (lc_step x))
    \<and> (templates_kept E cid \<longrightarrow> (\<forall>x\<in>set (lo_calls out). \<exists>delay. lbc_text c (lc_listing x) (lc_step x) d = Inr (Some (lc_text x, delay))))"
proof -
  obtain c v where "lbc_entitled E cid wid d c v (lo_calls out)" using lbc_run_cases [OF assms(1,2)] assms(3) by blast
  then show ?thesis unfolding lbc_entitled_def LBC_MESSAGE_BATCH_SIZE_def by (intro exI [of _ c] exI [of _ v]) blast
qed

lemma lbc_messages_entitled_witness:
  "\<exists>out x c delay. run_lbc_message_campaign demo_lbc_env 5 3 (demo_lbc_db 1 [20, 21] []) = Some out
     \<and> lo_calls out = [x] \<and> lbc_text c (lc_listing x) (lc_step x) (demo_lbc_db 1 [20, 21] []) = Inr (Some (''Bonjour'', delay))
     \<and> lc_account x \<in> set (message_accounts (demo_lbc_db 1 [20, 21] []))"
proof -
  obtain out x where out: "run_lbc_message_campaign demo_lbc_env 5 3 (demo_lbc_db 1 [20, 21] []) = Some out" "lo_calls out = [x]"
    "lc_text x = ''Bonjour''" using demo_lbc_run by blast
  have "templates_kept demo_lbc_env 5" by (auto simp: templates_kept_def demo_lbc_env_def)
  then show ?thesis
    using lbc_messages_entitled [OF lbc_quiet_ok [OF demo_lbc_quiet] out(1)] out by auto
qed

section \<open>Histories\<close>

type_synonym lbc_event = "(db \<Rightarrow> db) \<times> lbc_env \<times> uuid \<times> uuid"

definition lbc_event_ok :: "lbc_event \<Rightarrow> bool" where
  "lbc_event_ok e = (case e of (others, E, cid, wid) \<Rightarrow> additive others \<and> lbc_env_ok E)"

definition lbc_event_run :: "lbc_event \<Rightarrow> db \<Rightarrow> lbc_call list \<times> db" where
  \<comment> \<open>other sessions, then a run\<close>
  "lbc_event_run e d =
     (case e of (others, E, cid, wid) \<Rightarrow>
        (case run_lbc_message_campaign E cid wid (others d) of None \<Rightarrow> ([], others d) | Some out \<Rightarrow> (lo_calls out, lo_db out)))"

fun lbc_history :: "lbc_event list \<Rightarrow> db \<Rightarrow> lbc_call list \<times> db" where
  "lbc_history [] d = ([], d)"
| "lbc_history (e # es) d =
     (case lbc_event_run e d of (xs, d1) \<Rightarrow> (case lbc_history es d1 of (ys, d2) \<Rightarrow> (xs @ ys, d2)))"

definition lbc_keys :: "lbc_event \<Rightarrow> db \<Rightarrow> string list \<times> db" where
  "lbc_keys e d = (if lbc_event_ok e then map_prod (map lc_key) id (lbc_event_run e d) else ([], d))"

lemma lbc_event_effect:
  assumes "lbc_event_ok e" "lbc_event_run e d = (xs, d')"
  shows "distinct (map lc_key xs) \<and> lc_key ` set xs \<inter> message_keys d = {} \<and> message_keys d \<union> lc_key ` set xs \<subseteq> message_keys d'"
proof -
  obtain others E cid wid where e: "e = (others, E, cid, wid)" by (cases e) auto
  have ok: "lbc_env_ok E" and mono: "message_keys d \<subseteq> message_keys (others d)"
    using assms(1) by (auto simp: lbc_event_ok_def e additive_def)
  obtain out where out: "run_lbc_message_campaign E cid wid (others d) = Some out" using lbc_run_returns [OF ok] by blast
  with assms(2) have "xs = lo_calls out" "d' = lo_db out" by (simp_all add: lbc_event_run_def e)
  then show ?thesis using lbc_run_cases [OF ok out] mono by blast
qed

interpretation lbc_ledger: ledger "\<lambda>_. True" message_keys lbc_keys
proof
  fix e d
  obtain xs d' where r: "lbc_event_run e d = (xs, d')" by fastforce
  show "distinct (fst (lbc_keys e d))" "set (fst (lbc_keys e d)) \<inter> message_keys d = {}"
    "message_keys d \<union> set (fst (lbc_keys e d)) \<subseteq> message_keys (snd (lbc_keys e d))"
    using lbc_event_effect [OF _ r] by (simp_all add: lbc_keys_def r)
qed simp

lemma lbc_history_keys:
  "\<forall>e\<in>set es. lbc_event_ok e \<Longrightarrow> lbc_ledger.history es d = map_prod (map lc_key) id (lbc_history es d)"
  by (induction es arbitrary: d) (simp_all add: lbc_keys_def case_prod_beta)

text \<open>
  C7. No message twice. Over any history of runs, of any campaigns and workflows, between and during
  which the other sessions only add to the message log, the Browser Use client is asked at most once
  to send the message of a given step of a campaign to a listing, whatever the client answers; a key
  that was in the log before is not sent.
\<close>

theorem lbc_no_message_twice:
  assumes "\<forall>e\<in>set es. lbc_event_ok e"
  shows "distinct (map lc_key (fst (lbc_history es d))) \<and> lc_key ` set (fst (lbc_history es d)) \<inter> message_keys d = {}
    \<and> lc_key ` set (fst (lbc_history es d)) \<subseteq> message_keys (snd (lbc_history es d))"
  using lbc_ledger.history_once [where d = d and es = es] by (simp add: lbc_history_keys [OF assms])

lemma lbc_no_message_twice_witness:
  "distinct (map lc_key (fst (lbc_history [(id, demo_lbc_env, 5, 3), (id, demo_lbc_env, 5, 3)] (demo_lbc_db 1 [20, 21] []))))
    \<and> fst (lbc_history [(id, demo_lbc_env, 5, 3), (id, demo_lbc_env, 5, 3)] (demo_lbc_db 1 [20, 21] [])) \<noteq> []"
proof
  let ?e = "(id, demo_lbc_env, 5, 3) :: lbc_event"
  have ok: "lbc_event_ok ?e"
    using lbc_quiet_ok [OF demo_lbc_quiet] by (simp add: lbc_event_ok_def additive_def)
  show "distinct (map lc_key (fst (lbc_history [?e, ?e] (demo_lbc_db 1 [20, 21] []))))"
    using lbc_no_message_twice [of "[?e, ?e]" "demo_lbc_db 1 [20, 21] []"] ok by simp
  obtain out x where "run_lbc_message_campaign demo_lbc_env 5 3 (demo_lbc_db 1 [20, 21] []) = Some out" "lo_calls out = [x]"
    using demo_lbc_run by blast
  then have "lbc_event_run ?e (demo_lbc_db 1 [20, 21] []) = ([x], lo_db out)" by (simp add: lbc_event_run_def)
  then show "fst (lbc_history [?e, ?e] (demo_lbc_db 1 [20, 21] [])) \<noteq> []" by (simp add: split_beta)
qed

section \<open>The books of a run\<close>

definition counters :: "uuid \<Rightarrow> db \<Rightarrow> (int \<times> int) option" where
  "counters cid d = map_option (\<lambda>c. (ca_sent c, ca_failed c)) (get_campaign cid d)"

lemma get_campaign_set:
  assumes "\<And>c. ca_id (f c) = ca_id c"
  shows "get_campaign cid (set_campaign cid' f d) = map_option (\<lambda>c. if cid = cid' then f c else c) (get_campaign cid d)"
proof -
  have "find_row (\<lambda>c. ca_id c = cid) (update_where (\<lambda>c. ca_id c = cid') f rows)
      = map_option (\<lambda>c. if cid = cid' then f c else c) (find_row (\<lambda>c. ca_id c = cid) rows)" for rows
    using assms by (induction rows) (auto simp: update_where_def)
  then show ?thesis by (simp add: get_campaign_def set_campaign_def)
qed

lemma get_campaign_workflow [simp]: "get_campaign cid (set_workflow wid f d) = get_campaign cid d"
  by (simp add: get_campaign_def set_workflow_def)

lemma counters_other [simp]:
  "counters cid (set_workflow wid f d) = counters cid d"
  "counters cid (pause_for_quota cid' wid d) = counters cid d" "counters cid (finish_failed now cid' wid msg d) = counters cid d"
  by (auto simp: counters_def pause_for_quota_def finish_failed_def get_campaign_set option.map_comp comp_def intro!: option.map_cong0)

lemma lbc_turn_campaigns:
  assumes "lbc_quiet E" "lbc_turn E c wid accounts i l r = Some (t, r')"
  shows "if t = QuotaOut then counters cid (lr_db r') = counters cid (lr_db r) else campaigns (lr_db r') = campaigns (lr_db r)"
proof -
  have q: "campaigns d' = campaigns d" if "queue_message now key lid aid m step due d = (b, d')" for now key lid aid m step due d b d'
    using that by (auto simp: queue_message_def insert_message_def split: prod.splits if_splits)
  have dl: "campaigns (lr_db r2) = campaigns (lr_db r1)" if "deliver E i l a step key m r1 = Some r2" for a step key m r1 r2
    using that assms(1) by (auto simp: deliver_def Let_def mark_message_def lbc_quiet_def split: option.splits sum.splits)
  show ?thesis
    using assms by (auto simp: lbc_turn_def Let_def lbc_quiet_def split: if_splits option.splits sum.splits prod.splits bool.splits
        dest!: q dl)
qed

lemma lbc_loop_campaigns:
  assumes "lbc_quiet E"
  shows "lbc_loop E c wid accounts i ls r = Some (t, r') \<Longrightarrow>
    if t = QuotaOut then counters cid (lr_db r') = counters cid (lr_db r) else campaigns (lr_db r') = campaigns (lr_db r)"
proof (induction ls arbitrary: i r)
  case (Cons l ls)
  obtain t1 r1 where turn: "lbc_turn E c wid accounts i l r = Some (t1, r1)"
    using Cons.prems by (auto split: option.splits)
  note step = lbc_turn_campaigns [OF assms turn, of cid]
  show ?case
  proof (cases "t1 = Next")
    case True
    then have "campaigns (lr_db r1) = campaigns (lr_db r)" using step by simp
    then have "counters cid (lr_db r1) = counters cid (lr_db r)" by (simp add: counters_def get_campaign_def)
    with Cons turn True \<open>campaigns (lr_db r1) = campaigns (lr_db r)\<close> show ?thesis by auto
  next
    case False
    with Cons.prems turn have "t = t1" "r' = r1" by (cases t1; simp)+
    with step show ?thesis by simp
  qed
qed simp

lemma lower_status_paused: "lower (campaign_status_value s) = ''paused'' \<longleftrightarrow> s = C_PAUSED"
  by (cases s; hypsubst; code_simp)

text \<open>
  The books of a run. When no other session interferes, the result of a run counts its confirmed
  and its failed calls, and the campaign's counters grow by the same numbers, except when the run
  stops because the quotas are exhausted: then it reports what it did but the counters of the
  campaign stay as they were before the run.
\<close>

theorem lbc_run_books:
  assumes quiet: "lbc_quiet E" and run: "run_lbc_message_campaign E cid wid d = Some out"
    and res: "lo_result out = Inr (st, n, k)" and cnt: "counters cid d = Some (s, f)"
  shows "n = int (length (filter lc_confirmed (lo_calls out))) \<and> k = int (length (filter (\<lambda>x. \<not> lc_confirmed x) (lo_calls out)))
    \<and> counters cid (lo_db out) = Some (if st = ''paused'' then (s, f) else (s + n, f + k))"
proof -
  obtain r0 d1 where plan: "session (plan_batch E cid wid) d = (r0, d1)" by fastforce
  have api: "browser_use_api_key (le_settings E) \<noteq> []" using run res by (auto simp: run_lbc_message_campaign_def)
  have quiet': "le_before_usage E = id" "le_before_close E = id" using quiet by (simp_all add: lbc_quiet_def)
  show ?thesis
  proof (cases "\<exists>b. r0 = Inr (Inr b)")
    case False
    with plan have "d1 = d" by (auto simp: session_def plan_batch_def Let_def split: option.splits sum.splits if_splits)
    with False run res plan api cnt show ?thesis
      by (auto simp: run_lbc_message_campaign_def split: sum.splits)
  next
    case True
    then obtain b where b: "r0 = Inr (Inr b)" by blast
    from plan [unfolded b] obtain c where c: "get_campaign cid d = Some c" "counters cid d1 = counters cid d"
      "get_campaign cid d1 = Some (c\<lparr>ca_status := C_RUNNING\<rparr>)"
      by (elim plan_batch_InrE) (simp add: get_campaign_set counters_def)
    show ?thesis
    proof (cases "lb_accounts b = []")
      case True
      with run res plan api b cnt c quiet' show ?thesis
        by (auto simp: run_lbc_message_campaign_def Let_def)
    next
      case False
      let ?r = "\<lparr>lr_db = d1, lr_usage = today_account_usage (le_usage_at E) d1, lr_sent = 0, lr_failed = 0, lr_calls = []\<rparr>"
      obtain t r where loop: "lbc_loop E (lb_campaign b) wid (lb_accounts b) 0 (lb_listings b) ?r = Some (t, r)"
        using run plan b False api quiet' by (auto simp: run_lbc_message_campaign_def Let_def split: option.splits)
      from lbc_loop_step [OF lbc_quiet_ok [OF quiet] loop] have books:
        "lr_sent r = int (length (filter lc_confirmed (lr_calls r)))" "lr_failed r = int (length (filter (\<lambda>x. \<not> lc_confirmed x) (lr_calls r)))"
        by (auto simp: lbc_step_def call_step_def)
      note camps = lbc_loop_campaigns [OF quiet loop, of cid]
      show ?thesis
      proof (cases "t = QuotaOut")
        case True
        with run res plan api b False quiet' loop books camps c cnt show ?thesis
          by (auto simp: run_lbc_message_campaign_def Let_def)
      next
        case go: False
        obtain r1 d3 where cl: "session (close_batch E cid wid (lb_more b) (lr_sent r) (lr_failed r)) (lr_db r) = (r1, d3)" by fastforce
        have out: "\<exists>s. r1 = Inr s \<and> st = lower (campaign_status_value s)" "n = lr_sent r" "k = lr_failed r" "lo_calls out = lr_calls r" "lo_db out = d3"
          using run res plan api b False quiet' loop go cl
          by (cases t; cases r1; auto simp: run_lbc_message_campaign_def Let_def)+
        have "get_campaign cid (lr_db r) = get_campaign cid d1" using camps go by (simp add: get_campaign_def)
        then have "counters cid d3 = Some (s + n, f + k) \<and> st \<noteq> ''paused''"
          using cl out c cnt
          by (auto simp: session_def close_batch_def Let_def counters_def get_campaign_set lower_status_paused
              split: option.splits sum.splits if_splits)
        with out books show ?thesis by simp
      qed
    qed
  qed
qed

lemma lbc_run_books_witness:
  "\<exists>out. run_lbc_message_campaign demo_lbc_env 5 3 (demo_lbc_db 1 [20, 21] []) = Some out
     \<and> lo_result out = Inr (''paused'', 1, 0) \<and> counters 5 (lo_db out) = Some (0, 0)"
proof -
  obtain out where out: "run_lbc_message_campaign demo_lbc_env 5 3 (demo_lbc_db 1 [20, 21] []) = Some out"
    "lo_result out = Inr (''paused'', 1, 0)" using demo_lbc_run by blast
  have "counters 5 (demo_lbc_db 1 [20, 21] []) = Some (0, 0)" by (simp add: counters_def get_campaign_def demo_lbc_simps)
  from lbc_run_books [OF demo_lbc_quiet out this] out show ?thesis by auto
qed


section \<open>Failed messages block a campaign\<close>

definition lbc_matching :: "campaign \<Rightarrow> vehicle_search_criteria \<Rightarrow> db \<Rightarrow> listing list" where
  \<comment> \<open>the listings of a campaign without the conditions on earlier messages\<close>
  "lbc_matching c v d =
     (let assigned = (\<exists>l\<in>set (listings d). li_campaign_id l = Some (ca_id c)) in
      filter (\<lambda>l. li_source l = SRC_LBC \<and> \<not> (\<exists>s\<in>set (sms_log d). sl_listing_id s = Some (li_id l))
        \<and> (assigned \<longrightarrow> li_campaign_id l = Some (ca_id c)) \<and> matches_criteria v l) (listings d))"

definition blocked :: "uuid \<Rightarrow> db \<Rightarrow> listing \<Rightarrow> bool" where
  \<comment> \<open>nothing queued or sent, but the key of the first message is taken: the message failed\<close>
  "blocked cid d l = (sent_count (li_id l) d = 0 \<and> outbound_message_key cid (li_id l) 0 \<in> message_keys d)"

definition starved :: "uuid \<Rightarrow> uuid \<Rightarrow> campaign \<Rightarrow> vehicle_search_criteria \<Rightarrow> db \<Rightarrow> bool" where
  "starved cid wid c v d =
     (get_campaign cid d = Some c \<and> ca_status c = C_RUNNING \<and> criteria_of (ca_search_criteria c) = Inr v \<and> get_workflow wid d \<noteq> None
      \<and> LBC_MESSAGE_BATCH_SIZE < length (lbc_matching c v d)
      \<and> list_all (\<lambda>l. sent_count (li_id l) d = 0) (lbc_matching c v d)
      \<and> list_all (\<lambda>l. blocked cid d l \<and> (\<exists>x. lbc_text c l 0 d = Inr (Some x))) (take LBC_MESSAGE_BATCH_SIZE (lbc_matching c v d)))"

definition lbc_able :: "db \<Rightarrow> lbc_env \<Rightarrow> bool" where
  \<comment> \<open>a run without interference, at a time when some account is under its quota\<close>
  "lbc_able d E = (lbc_quiet E \<and> browser_use_api_key (le_settings E) \<noteq> []
     \<and> choose_account (today_account_usage (le_usage_at E) d) (message_accounts d) \<noteq> None)"

fun lbc_runs :: "lbc_env list \<Rightarrow> uuid \<Rightarrow> uuid \<Rightarrow> db \<Rightarrow> ((string \<times> int \<times> int) result \<times> lbc_call list) option list" where
  \<comment> \<open>runs one after another, as the task requeues them: results and calls\<close>
  "lbc_runs [] cid wid d = []"
| "lbc_runs (E # Es) cid wid d =
     (case run_lbc_message_campaign E cid wid d of
        None \<Rightarrow> [None]
      | Some out \<Rightarrow> Some (lo_result out, lo_calls out) # lbc_runs Es cid wid (lo_db out))"

definition same_lbc_base :: "db \<Rightarrow> db \<Rightarrow> bool" where
  \<comment> \<open>what a run without calls leaves as it is\<close>
  "same_lbc_base d d' =
     (listings d' = listings d \<and> sms_log d' = sms_log d \<and> lbc_message_log d' = lbc_message_log d
      \<and> platform_accounts d' = platform_accounts d \<and> campaign_message_templates d' = campaign_message_templates d)"

lemma same_base_simps:
  assumes "same_lbc_base d d'"
  shows "lbc_matching c v d' = lbc_matching c v d" "sent_count i d' = sent_count i d" "message_keys d' = message_keys d"
    "lbc_text c l n d' = lbc_text c l n d" "message_accounts d' = message_accounts d" "today_account_usage t d' = today_account_usage t d"
    "campaign_listings t c v d' = campaign_listings t c v d"
  using assms unfolding same_lbc_base_def
  by (simp_all add: lbc_matching_def sent_count_def message_keys_def lbc_text_def lbc_templates_def message_accounts_def
      today_account_usage_def campaign_listings_def lbc_eligible_def latest_due_def)

lemma campaign_listings_fresh:
  assumes "list_all (\<lambda>l. sent_count (li_id l) d = 0) (lbc_matching c v d)"
  shows "campaign_listings now c v d = lbc_matching c v d"
  using assms unfolding campaign_listings_def lbc_matching_def Let_def list_all_iff
  by (intro filter_cong) (auto simp: lbc_eligible_def)

lemma lbc_turn_blocked:
  assumes "lbc_quiet E" "may_continue (ca_id c) wid (lr_db r)" "choose_account (lr_usage r) accounts \<noteq> None"
    and "blocked (ca_id c) (lr_db r) l" "lbc_text c l 0 (lr_db r) = Inr (Some x)"
  shows "lbc_turn E c wid accounts i l r = Some (Next, r)"
proof -
  obtain a where a: "choose_account (lr_usage r) accounts = Some a" using assms(3) by blast
  have "queue_message now (outbound_message_key (ca_id c) (li_id l) 0) lid aid m 0 due (lr_db r) = (False, lr_db r)" for now lid aid m due
    using assms(4) by (simp add: blocked_def queue_message_def insert_message_def insert_new_def new_message_def message_keys_def)
  with assms a show ?thesis
    by (cases x) (simp add: lbc_turn_def lbc_quiet_def Let_def blocked_def)
qed

lemma lbc_loop_blocked:
  assumes "lbc_quiet E" "may_continue (ca_id c) wid (lr_db r)" "choose_account (lr_usage r) accounts \<noteq> None"
  shows "list_all (\<lambda>l. blocked (ca_id c) (lr_db r) l \<and> (\<exists>x. lbc_text c l 0 (lr_db r) = Inr (Some x))) ls
    \<Longrightarrow> lbc_loop E c wid accounts i ls r = Some (Next, r)"
proof (induction ls arbitrary: i)
  case (Cons l ls)
  then obtain x where "blocked (ca_id c) (lr_db r) l" "lbc_text c l 0 (lr_db r) = Inr (Some x)" by auto
  from lbc_turn_blocked [OF assms this] Cons show ?case by simp
qed simp

lemma get_workflow_set:
  assumes "\<And>w. wf_id (f w) = wf_id w"
  shows "get_workflow wid (set_workflow wid f d) = map_option f (get_workflow wid d)"
proof -
  have "find_row (\<lambda>w. wf_id w = wid) (update_where (\<lambda>w. wf_id w = wid) f rows) = map_option f (find_row (\<lambda>w. wf_id w = wid) rows)" for rows
    using assms by (induction rows) (auto simp: update_where_def)
  then show ?thesis by (simp add: get_workflow_def set_workflow_def)
qed

lemma get_workflow_campaign [simp]: "get_workflow wid (set_campaign cid f d) = get_workflow wid d"
  by (simp add: get_workflow_def set_campaign_def)

lemma lower_running: "lower ''RUNNING'' = ''running''"
  by code_simp

lemma starved_run:
  assumes st: "starved cid wid c v d" and able: "lbc_able d E"
  shows "\<exists>d' c'. run_lbc_message_campaign E cid wid d = Some \<lparr>lo_result = Inr (''running'', 0, 0), lo_db = d', lo_calls = []\<rparr>
    \<and> starved cid wid c' v d' \<and> same_lbc_base d d'"
proof -
  have quiet: "lbc_quiet E" and api: "browser_use_api_key (le_settings E) \<noteq> []"
    and acc: "choose_account (today_account_usage (le_usage_at E) d) (message_accounts d) \<noteq> None"
    using able by (simp_all add: lbc_able_def)
  have quiet': "le_before_usage E = id" "le_before_close E = id" using quiet by (simp_all add: lbc_quiet_def)
  have c: "get_campaign cid d = Some c" "ca_status c = C_RUNNING" "criteria_of (ca_search_criteria c) = Inr v"
    using st by (simp_all add: starved_def)
  obtain w where w: "get_workflow wid d = Some w" using st by (auto simp: starved_def)
  have cid: "ca_id c = cid" using get_campaign_id [OF c(1)] .
  have run: "c\<lparr>ca_status := C_RUNNING\<rparr> = c" using c(2) by (cases c) simp
  let ?ls = "lbc_matching c v d"
  have ls: "campaign_listings (le_now E) c v d = ?ls" using st by (intro campaign_listings_fresh) (simp add: starved_def)
  define b where "b = \<lparr>lb_campaign = c, lb_listings = take LBC_MESSAGE_BATCH_SIZE ?ls, lb_more = True, lb_accounts = message_accounts d\<rparr>"
  define d1 where "d1 = set_workflow wid (\<lambda>w. w\<lparr>wf_status := W_RUNNING,
     wf_started_at := (case wf_started_at w of None \<Rightarrow> Some (le_now E) | Some t \<Rightarrow> Some t), wf_progress_total := Some (int (length ?ls))\<rparr>)
       (set_campaign cid (\<lambda>c. c\<lparr>ca_status := C_RUNNING\<rparr>) d)"
  have plan: "session (plan_batch E cid wid) d = (Inr (Inr b), d1)"
    using st unfolding session_def plan_batch_def c w option.case prod.case Let_def sum.case run ls
    by (simp add: b_def d1_def starved_def)
  have base: "same_lbc_base d d1" by (simp add: same_lbc_base_def d1_def set_workflow_def set_campaign_def)
  note same = same_base_simps [OF base]
  have rows: "get_campaign cid d1 = Some c" "get_workflow wid d1 = Some (w\<lparr>wf_status := W_RUNNING,
     wf_started_at := (case wf_started_at w of None \<Rightarrow> Some (le_now E) | Some t \<Rightarrow> Some t), wf_progress_total := Some (int (length ?ls))\<rparr>)"
    by (simp_all add: d1_def get_campaign_set get_workflow_set c w run)
  have go: "may_continue cid wid d1" by (simp add: may_continue_def rows c)
  let ?r = "\<lparr>lr_db = d1, lr_usage = today_account_usage (le_usage_at E) d1, lr_sent = 0, lr_failed = 0, lr_calls = []\<rparr>"
  have "message_accounts d \<noteq> []" using acc by (auto simp: choose_account_def)
  moreover have loop: "lbc_loop E c wid (message_accounts d) 0 (take LBC_MESSAGE_BATCH_SIZE ?ls) ?r = Some (Next, ?r)"
    using quiet go acc st by (intro lbc_loop_blocked) (simp_all add: cid same starved_def blocked_def list_all_iff)
  moreover define d2 where "d2 = set_workflow wid (\<lambda>w. w\<lparr>wf_batch_number := wf_batch_number w + 1,
      wf_checkpoint := Some (batch_checkpoint 0 0 True), wf_status := W_RUNNING\<rparr>) (set_campaign cid (\<lambda>c. c\<lparr>ca_status := C_RUNNING\<rparr>) d1)"
  have close: "session (close_batch E cid wid True 0 0) d1 = (Inr C_RUNNING, d2)"
    using rows c by (simp add: session_def close_batch_def Let_def d2_def)
  have after: "get_campaign cid d2 = Some c" "get_workflow wid d2 \<noteq> None" "same_lbc_base d1 d2"
    by (simp_all add: d2_def get_campaign_set get_workflow_set rows run same_lbc_base_def)
      (simp_all add: set_workflow_def set_campaign_def)
  ultimately have "run_lbc_message_campaign E cid wid d = Some \<lparr>lo_result = Inr (''running'', 0, 0), lo_db = d2, lo_calls = []\<rparr>"
    using plan api quiet' close by (simp add: run_lbc_message_campaign_def b_def lower_running del: lower_def)
  moreover have base2: "same_lbc_base d d2" using base after(3) by (simp add: same_lbc_base_def)
  moreover have "starved cid wid c v d2"
    using st after by (simp add: starved_def blocked_def same_base_simps [OF base2])
  ultimately show ?thesis by blast
qed


text \<open>
  Failed messages block a campaign. A message that failed is never tried again, because its key
  stays in the log, but its listing stays eligible, because only queued and sent messages count. So
  once the first 25 listings of a campaign have failed, every later run picks the same 25, sends
  nothing, reports RUNNING with nothing sent and nothing failed, and leaves the listings behind them
  unreached, as often as it is requeued.
\<close>

theorem failed_messages_starve_campaign:
  assumes "starved cid wid c v d" "list_all (lbc_able d) Es"
  shows "lbc_runs Es cid wid d = replicate (length Es) (Some (Inr (''running'', 0, 0), []))"
  using assms
proof (induction Es arbitrary: c d)
  case (Cons E Es)
  then have "lbc_able d E" by simp
  from starved_run [OF Cons.prems(1) this] obtain d' c' where
    run: "run_lbc_message_campaign E cid wid d = Some \<lparr>lo_result = Inr (''running'', 0, 0), lo_db = d', lo_calls = []\<rparr>"
    and st: "starved cid wid c' v d'" and same: "same_lbc_base d d'" by blast
  have "list_all (lbc_able d') Es"
    using Cons.prems(2) by (auto simp: lbc_able_def list_all_iff same_base_simps [OF same])
  from Cons.IH [OF st this] run show ?case by simp
qed simp

definition demo_failed :: "uuid \<Rightarrow> lbc_message_log" where
  "demo_failed i = (new_message 0 (outbound_message_key 5 i 0) i 9 ''Bonjour'' 0 0 empty_db)\<lparr>lm_status := LBCM_FAILED\<rparr>"

lemma failed_messages_starve_campaign_witness:
  "lbc_runs (replicate 12 demo_lbc_env) 5 3
      ((demo_lbc_db 5 [20..<46] (map demo_failed [20..<45]))\<lparr>campaigns := [demo_campaign\<lparr>ca_status := C_RUNNING\<rparr>]\<rparr>)
    = replicate 12 (Some (Inr (''running'', 0, 0), []))"
proof -
  define d where "d = (demo_lbc_db 5 [20..<46] (map demo_failed [20..<45]))\<lparr>campaigns := [demo_campaign\<lparr>ca_status := C_RUNNING\<rparr>]\<rparr>"
  define v where "v = \<lparr>vs_brand_model = None, vs_vehicle_type = None, vs_region = None,
      vs_department = None, vs_budget_min = None, vs_budget_max = None, vs_year_max = None, vs_mileage_max = None\<rparr>"
  let ?c = "demo_campaign\<lparr>ca_status := C_RUNNING\<rparr>"
  have ls: "lbc_matching ?c v d = map demo_lbc_listing [20..<46]"
    unfolding d_def v_def lbc_matching_def Let_def
    by (rule trans [OF filter_True]) (auto simp: demo_lbc_simps matches_criteria_def simp del: upt_rec_numeral)
  have id: "li_id (demo_lbc_listing i) = i" for i by (simp add: demo_lbc_listing_def demo_listing_def)
  have sc: "sent_count i d = 0" for i
    by (simp add: sent_count_def d_def demo_lbc_db_def demo_failed_def new_message_def filter_empty_conv del: upt_rec_numeral)
  have keys: "outbound_message_key 5 i 0 \<in> message_keys d" if "i \<in> set [20..<45]" for i
    using that by (simp add: message_keys_def d_def demo_lbc_db_def demo_failed_def new_message_def image_image del: upt_rec_numeral)
  have body: "lbc_text ?c l 0 d = Inr (Some (''Bonjour'', 3))" for l
    by (intro demo_lbc_text) (simp_all add: d_def demo_lbc_db_def empty_db_def demo_campaign_def)
  have tk: "take LBC_MESSAGE_BATCH_SIZE (map demo_lbc_listing [20..<46]) = map demo_lbc_listing [20..<45]"
    by (simp add: LBC_MESSAGE_BATCH_SIZE_def take_map take_upt del: upt_rec_numeral)
  have "starved 5 3 ?c v d"
    using demo_criteria keys body sc
    unfolding starved_def ls tk
    by (simp add: id list_all_iff blocked_def LBC_MESSAGE_BATCH_SIZE_def v_def get_campaign_def get_workflow_def d_def demo_lbc_db_def
        demo_campaign_def demo_ac_workflow_def del: upt_rec_numeral)
  moreover have "lbc_able d demo_lbc_env"
  proof -
    have "message_accounts d = [demo_lbc_account 5]" by (simp add: message_accounts_def d_def demo_lbc_simps)
    moreover have "today_account_usage t d = []" for t
      by (simp add: today_account_usage_def d_def demo_lbc_db_def demo_failed_def new_message_def filter_empty_conv del: upt_rec_numeral)
    ultimately show ?thesis
      by (simp add: lbc_able_def demo_lbc_quiet choose_account_def usage_of_def dict_get_def)
        (simp add: demo_lbc_env_def demo_lbc_account_def)
  qed
  ultimately show ?thesis
    using failed_messages_starve_campaign [of 5 3 ?c v d "replicate 12 demo_lbc_env"] unfolding d_def
    by (simp add: list_all_iff)
qed

end
