(* ===== verification/Apify_Base.thy ===== *)
theory Apify_Base
  imports Commands Config Sha256 "HOL-Library.Char_ord" "HOL-Library.List_Lexorder"
begin

text \<open>
  What the Apify services share: the encryption of tokens and secrets (\<open>apify_secrets.py\<close>; Fernet of
  the cryptography package is a parameter, the fingerprint is HMAC-SHA256), \<open>json.dumps\<close> as the
  services call it (the text of a float is a parameter), and the lookups of accounts, bindings and runs.
\<close>

section \<open>Secrets\<close>

record fernet =
  fe_key_ok :: "string \<Rightarrow> bool"  \<comment> \<open>the constructor accepts the key\<close>
  fe_encrypt :: "string \<Rightarrow> nat \<Rightarrow> string \<Rightarrow> string"  \<comment> \<open>key, randomness of the token, text\<close>
  fe_decrypt :: "string \<Rightarrow> string \<Rightarrow> string option"  \<comment> \<open>\<open>None\<close> for \<open>InvalidToken\<close>\<close>

record secret_codec =
  sc_fernet :: fernet
  sc_key :: string
  sc_fingerprint_key :: string

definition apify_codec :: "fernet \<Rightarrow> string \<Rightarrow> string \<Rightarrow> secret_codec result" where
  \<comment> \<open>\<open>ApifySecretCodec(encryption_key, fingerprint_key)\<close>\<close>
  "apify_codec fe key fingerprint_key =
     (if key = [] then Inl (RuntimeError ''APIFY_TOKEN_ENCRYPTION_KEY is required'')
      else if \<not> fe_key_ok fe key then Inl (ValueError ''Fernet key must be 32 url-safe base64-encoded bytes.'')
      else Inr \<lparr>sc_fernet = fe, sc_key = key, sc_fingerprint_key = fingerprint_key\<rparr>)"

definition settings_codec :: "fernet \<Rightarrow> settings \<Rightarrow> secret_codec result" where
  \<comment> \<open>\<open>_codec()\<close> of the three services\<close>
  "settings_codec fe s = apify_codec fe (apify_token_encryption_key s) (secret_key s)"

definition encrypt_secret :: "secret_codec \<Rightarrow> nat \<Rightarrow> string \<Rightarrow> string" where
  "encrypt_secret c nonce text = fe_encrypt (sc_fernet c) (sc_key c) nonce text"

definition decrypt_secret :: "secret_codec \<Rightarrow> string \<Rightarrow> string result" where
  "decrypt_secret c token =
     (case fe_decrypt (sc_fernet c) (sc_key c) token of
        None \<Rightarrow> Inl (RuntimeError ''Unable to decrypt Apify secret'')
      | Some text \<Rightarrow> Inr text)"

definition secret_fingerprint :: "secret_codec \<Rightarrow> string \<Rightarrow> string" where
  "secret_fingerprint c text = hexdigest (hmac_sha256 (encode (sc_fingerprint_key c)) (encode text))"

definition mask_secret :: "string \<Rightarrow> string" where
  "mask_secret text =
     (if length text \<le> 8 then ''********'' else take 4 text @ ''...'' @ drop (length text - 4) text)"

definition open_secret :: "fernet \<Rightarrow> settings \<Rightarrow> string \<Rightarrow> string result" where
  \<comment> \<open>\<open>_codec().decrypt(value)\<close>\<close>
  "open_secret fe s token = (case settings_codec fe s of Inl e \<Rightarrow> Inl e | Inr c \<Rightarrow> decrypt_secret c token)"

text \<open>The documented behaviour of Fernet: what was encrypted with a key is decrypted with it.\<close>

definition fernet_law :: "fernet \<Rightarrow> bool" where
  "fernet_law fe = (\<forall>key nonce text. fe_key_ok fe key \<longrightarrow> fe_decrypt fe key (fe_encrypt fe key nonce text) = Some text)"

lemma decrypt_encrypt:
  assumes "fernet_law fe" "apify_codec fe key fk = Inr c"
  shows "decrypt_secret c (encrypt_secret c nonce text) = Inr text"
  using assms by (auto simp: apify_codec_def decrypt_secret_def encrypt_secret_def fernet_law_def split: if_splits)

lemma mask_hides: "length text > 8 \<Longrightarrow> length (mask_secret text) = 11"
  by (simp add: mask_secret_def)

section \<open>JSON text\<close>

definition escape_char :: "char \<Rightarrow> string" where
  "escape_char c =
     (let n = code_point c in
      if n = 34 then [CHR 0x5C, c]
      else if n = 92 then [c, c]
      else if n = 8 then [CHR 0x5C, CHR ''b''] else if n = 9 then [CHR 0x5C, CHR ''t'']
      else if n = 10 then [CHR 0x5C, CHR ''n''] else if n = 12 then [CHR 0x5C, CHR ''f'']
      else if n = 13 then [CHR 0x5C, CHR ''r'']
      else if n < 32 then CHR 0x5C # ''u00'' @ digits hex_digit 16 2 n
      else [c])"

definition json_quote :: "string \<Rightarrow> string" where
  \<comment> \<open>with \<open>ensure_ascii=False\<close>\<close>
  "json_quote s = CHR 0x22 # concat (map escape_char s) @ [CHR 0x22]"

fun sort_keys :: "json \<Rightarrow> json" where
  "sort_keys (JObj kvs) = JObj (sort_key fst (map (\<lambda>(k, v). (k, sort_keys v)) kvs))"
| "sort_keys (JList vs) = JList (map sort_keys vs)"
| "sort_keys v = v"

fun json_dumps :: "(rat \<Rightarrow> string) \<Rightarrow> string \<Rightarrow> string \<Rightarrow> json \<Rightarrow> string" where
  \<comment> \<open>the two separators are those of items and of keys\<close>
  "json_dumps fl sep ksep JNull = ''null''"
| "json_dumps fl sep ksep (JBool b) = (if b then ''true'' else ''false'')"
| "json_dumps fl sep ksep (JInt i) = str_int i"
| "json_dumps fl sep ksep (JFloat q) = fl q"
| "json_dumps fl sep ksep (JStr s) = json_quote s"
| "json_dumps fl sep ksep (JList vs) = ''['' @ join sep (map (json_dumps fl sep ksep) vs) @ '']''"
| "json_dumps fl sep ksep (JObj kvs) =
     CHR 0x7B # join sep (map (\<lambda>(k, v). json_quote k @ ksep @ json_dumps fl sep ksep v) kvs) @ [CHR 0x7D]"

definition compact_dumps :: "(rat \<Rightarrow> string) \<Rightarrow> json \<Rightarrow> string" where
  \<comment> \<open>\<open>json.dumps(value, sort_keys=True, separators=(",", ":"))\<close>\<close>
  "compact_dumps fl v = json_dumps fl '','' '':'' (sort_keys v)"

definition plain_dumps :: "(rat \<Rightarrow> string) \<Rightarrow> json \<Rightarrow> string" where
  \<comment> \<open>\<open>json.dumps(value)\<close>\<close>
  "plain_dumps fl v = json_dumps fl '', '' '': '' v"

definition ascii_json :: "string \<Rightarrow> string" where
  \<comment> \<open>\<open>ensure_ascii\<close>, the default: what is not printable ASCII becomes an escape sequence\<close>
  "ascii_json s = concat (map (\<lambda>c. if code_point c > 126 then CHR 0x5C # ''u00'' @ digits hex_digit 16 2 (code_point c) else [c]) s)"

definition schema_fingerprint :: "(rat \<Rightarrow> string) \<Rightarrow> json option \<Rightarrow> string option" where
  "schema_fingerprint fl schema = map_option (\<lambda>s. sha256_hex (compact_dumps fl s)) schema"

section \<open>Rows\<close>

definition get_apify_account :: "uuid \<Rightarrow> db \<Rightarrow> apify_account option" where
  "get_apify_account aid d = find_row (\<lambda>a. aa_id a = aid) (apify_accounts d)"

definition get_binding :: "uuid \<Rightarrow> db \<Rightarrow> apify_actor_binding option" where
  "get_binding bid d = find_row (\<lambda>b. ab_id b = bid) (apify_actor_bindings d)"

definition set_binding :: "uuid \<Rightarrow> (apify_actor_binding \<Rightarrow> apify_actor_binding) \<Rightarrow> db \<Rightarrow> db" where
  "set_binding bid f d = d\<lparr>apify_actor_bindings := update_where (\<lambda>b. ab_id b = bid) f (apify_actor_bindings d)\<rparr>"

definition get_run :: "uuid \<Rightarrow> db \<Rightarrow> apify_run option" where
  "get_run rid d = find_row (\<lambda>r. ar_id r = rid) (apify_runs d)"

definition set_apify_run :: "uuid \<Rightarrow> (apify_run \<Rightarrow> apify_run) \<Rightarrow> db \<Rightarrow> db" where
  "set_apify_run rid f d = d\<lparr>apify_runs := update_where (\<lambda>r. ar_id r = rid) f (apify_runs d)\<rparr>"

definition get_profile :: "uuid \<Rightarrow> db \<Rightarrow> apify_normalization_profile option" where
  "get_profile pid d = find_row (\<lambda>p. ap_id p = pid) (apify_normalization_profiles d)"

definition active_profile :: "apify_actor_binding \<Rightarrow> db \<Rightarrow> apify_normalization_profile option" where
  "active_profile b d = (case ab_active_profile_id b of None \<Rightarrow> None | Some pid \<Rightarrow> get_profile pid d)"

definition profile_dict :: "apify_normalization_profile option \<Rightarrow> (string, json) dict option" where
  \<comment> \<open>\<open>_profile_payload\<close> and \<open>_profile_dict\<close>\<close>
  "profile_dict p =
     (case p of
        None \<Rightarrow> None
      | Some pr \<Rightarrow> Some [(''mappings'', JObj (map (\<lambda>(f, path). (f, JStr path)) (ap_mappings pr))),
                      (''aliases'', JObj (ap_aliases pr)), (''priorities'', JObj (ap_priorities pr)),
                      (''thresholds'', JObj (ap_thresholds pr))])"

definition system_audit :: "datetime \<Rightarrow> string \<Rightarrow> string \<Rightarrow> string \<Rightarrow> (string, json) dict option \<Rightarrow> string \<Rightarrow> db \<Rightarrow> db" where
  \<comment> \<open>an \<open>AuditEvent\<close> of the actor system and the role admin, without a key\<close>
  "system_audit now action ttype target summary rstatus d =
     d\<lparr>audit_events := audit_events d @
         [\<lparr>ae_id = fresh_id d, ae_actor = ''system'', ae_role = ''admin'', ae_action = action, ae_target_type = Some ttype,
           ae_target_id = Some (RText target), ae_idempotency_key = None, ae_input_summary = summary,
           ae_result_status = rstatus, ae_workflow_run_id = None, ae_created_at = now\<rparr>],
       fresh_id := Suc (fresh_id d)\<rparr>"

end
