(* ===== verification/Apify_Accounts.thy ===== *)
theory Apify_Accounts
  imports Apify_Base
begin

text \<open>
  Apify accounts and bindings (\<open>apify_accounts.py\<close>): registration of a token, its replacement, suspension
  and deletion of an account, the catalogue, creation, change and activation of a binding with its
  webhook at Apify. A call to Apify inside a session stays done when the session is rolled back, so a
  block is a function from the database to its result and the calls it made. The answers of Apify, the
  random values and the clock are parameters.
\<close>

type_synonym identity = "(string, json) dict"

datatype hook_call =
    HookDelete string string  \<comment> \<open>token, webhook\<close>
  | HookCreate string string string string string  \<comment> \<open>token, resource type, resource, address, secret\<close>

record accounts_env =
  xa_settings :: settings
  xa_fernet :: fernet
  xa_text :: "json \<Rightarrow> string"
  xa_float :: "rat \<Rightarrow> string"
  xa_now :: datetime
  xa_nonce :: nat  \<comment> \<open>randomness of the encryptions\<close>
  xa_secret :: string  \<comment> \<open>\<open>secrets.token_urlsafe(32)\<close>\<close>
  xa_identity :: "string \<Rightarrow> identity result"  \<comment> \<open>\<open>apify_validate_token\<close>\<close>
  xa_actors :: "string \<Rightarrow> (string, json) dict list result"
  xa_tasks :: "string \<Rightarrow> (string, json) dict list result"
  xa_delete :: "string \<Rightarrow> string \<Rightarrow> unit result"
  xa_create :: "hook_call \<Rightarrow> (string, json) dict result"

section \<open>Blocks with calls\<close>

type_synonym 'a hooked = "db \<Rightarrow> (exn + ('a \<times> db)) \<times> hook_call list"

definition hk_bind :: "'a hooked \<Rightarrow> ('a \<Rightarrow> 'b hooked) \<Rightarrow> 'b hooked" where
  "hk_bind m f d =
     (case m d of
        (Inl e, cs) \<Rightarrow> (Inl e, cs)
      | (Inr (x, d1), cs) \<Rightarrow> (case f x d1 of (r, cs') \<Rightarrow> (r, cs @ cs')))"

definition hk_pure :: "(db \<Rightarrow> exn + ('a \<times> db)) \<Rightarrow> 'a hooked" where
  "hk_pure f d = (f d, [])"

definition hk_value :: "'a result \<Rightarrow> 'a hooked" where
  "hk_value r = hk_pure (\<lambda>d. map_sum id (\<lambda>x. (x, d)) r)"

definition hk_do :: "(db \<Rightarrow> db) \<Rightarrow> unit hooked" where
  "hk_do f = hk_pure (\<lambda>d. Inr ((), f d))"

definition hk_get :: "exn \<Rightarrow> (db \<Rightarrow> 'a option) \<Rightarrow> 'a hooked" where
  \<comment> \<open>a row, or the exception when there is none\<close>
  "hk_get e f = hk_pure (\<lambda>d. case f d of None \<Rightarrow> Inl e | Some x \<Rightarrow> Inr (x, d))"

definition hk_read :: "(db \<Rightarrow> 'a result) \<Rightarrow> 'a hooked" where
  "hk_read f = hk_pure (\<lambda>d. map_sum id (\<lambda>x. (x, d)) (f d))"

definition hk_check :: "bool \<Rightarrow> exn \<Rightarrow> unit hooked" where
  "hk_check ok e = hk_value (if ok then Inr () else Inl e)"

definition hk_call :: "hook_call \<Rightarrow> 'a result \<Rightarrow> 'a hooked" where
  "hk_call c reply d = (map_sum id (\<lambda>x. (x, d)) reply, [c])"

definition hk_session :: "'a hooked \<Rightarrow> db \<Rightarrow> ('a result \<times> db) \<times> hook_call list" where
  "hk_session m d = (case m d of (r, cs) \<Rightarrow> (session (\<lambda>_. r) d, cs))"

lemma hk_bind_Inr:
  "hk_bind m f d = (Inr (y, d2), cs) \<longleftrightarrow>
     (\<exists>x d1 cs1 cs2. m d = (Inr (x, d1), cs1) \<and> f x d1 = (Inr (y, d2), cs2) \<and> cs = cs1 @ cs2)"
  by (auto simp: hk_bind_def split: prod.splits sum.splits)

lemma hk_pure_Inr: "hk_pure f d = (Inr (x, d1), cs) \<longleftrightarrow> f d = Inr (x, d1) \<and> cs = []"
  by (auto simp: hk_pure_def)

lemma hk_value_Inr: "hk_value r d = (Inr (x, d1), cs) \<longleftrightarrow> r = Inr x \<and> d1 = d \<and> cs = []"
  by (cases r) (auto simp: hk_value_def hk_pure_def)

lemma hk_read_Inr: "hk_read f d = (Inr (x, d1), cs) \<longleftrightarrow> f d = Inr x \<and> d1 = d \<and> cs = []"
  by (cases "f d") (auto simp: hk_read_def hk_pure_def)

lemma hk_do_Inr: "hk_do f d = (Inr (x, d1), cs) \<longleftrightarrow> d1 = f d \<and> cs = []"
  by (auto simp: hk_do_def hk_pure_def)

lemma hk_get_Inr: "hk_get e f d = (Inr (x, d1), cs) \<longleftrightarrow> f d = Some x \<and> d1 = d \<and> cs = []"
  by (auto simp: hk_get_def hk_pure_def split: option.splits)

lemma hk_check_Inr: "hk_check ok e d = (Inr (x, d1), cs) \<longleftrightarrow> ok \<and> d1 = d \<and> cs = []"
  by (auto simp: hk_check_def hk_value_def hk_pure_def)

lemma hk_call_Inr: "hk_call c reply d = (Inr (x, d1), cs) \<longleftrightarrow> reply = Inr x \<and> d1 = d \<and> cs = [c]"
  by (cases reply) (auto simp: hk_call_def)

lemmas hk_Inr = hk_bind_Inr hk_pure_Inr hk_value_Inr hk_do_Inr hk_get_Inr hk_check_Inr hk_call_Inr hk_read_Inr

lemmas hk_defs = hk_bind_def hk_pure_def hk_value_def hk_do_def hk_get_def hk_check_def hk_call_def hk_read_def

section \<open>Accounts\<close>

definition apify_workspace :: "datetime \<Rightarrow> db \<Rightarrow> workspace \<times> db" where
  \<comment> \<open>\<open>_workspace\<close>: the oldest workspace, created when there is none\<close>
  "apify_workspace now d =
     (case sort_key ws_created_at (workspaces d) of
        w # _ \<Rightarrow> (w, d)
      | [] \<Rightarrow> (let w = \<lparr>ws_id = fresh_id d, ws_name = ''AutoTransfert'', ws_created_at = now\<rparr> in
               (w, d\<lparr>workspaces := workspaces d @ [w], fresh_id := Suc (fresh_id d)\<rparr>)))"

record account_out =
  ao_row :: apify_account
  ao_masked :: string

definition account_output :: "accounts_env \<Rightarrow> apify_account \<Rightarrow> account_out result" where
  \<comment> \<open>the answer to the operator; the status must be one of the enumeration\<close>
  "account_output E a =
     (case open_secret (xa_fernet E) (xa_settings E) (aa_token_ciphertext a) of
        Inl e \<Rightarrow> Inl e
      | Inr token \<Rightarrow>
          (case enum_parse apify_account_status_value apify_account_status_members (aa_status a) of
             None \<Rightarrow> Inl (ValueError ''apify_account_status'')
           | Some _ \<Rightarrow> Inr \<lparr>ao_row = a, ao_masked = mask_secret token\<rparr>))"

definition identity_id :: "accounts_env \<Rightarrow> identity \<Rightarrow> string result" where
  "identity_id E i = (case dict_get i ''id'' of None \<Rightarrow> Inl (KeyError ''id'') | Some v \<Rightarrow> Inr (json_str (xa_text E) v))"

definition identity_name :: "accounts_env \<Rightarrow> identity \<Rightarrow> string" where
  "identity_name E i = json_str (xa_text E) (json_or (get_json i ''username'') (get_json i ''id''))"

definition set_apify_account :: "uuid \<Rightarrow> (apify_account \<Rightarrow> apify_account) \<Rightarrow> db \<Rightarrow> db" where
  "set_apify_account aid f d = d\<lparr>apify_accounts := update_where (\<lambda>a. aa_id a = aid) f (apify_accounts d)\<rparr>"

definition account_audit :: "accounts_env \<Rightarrow> string \<Rightarrow> uuid \<Rightarrow> (string, json) dict option \<Rightarrow> string \<Rightarrow> db \<Rightarrow> db" where
  "account_audit E action aid summary rstatus =
     system_audit (xa_now E) action ''apify_account'' (str_uuid aid) summary rstatus"

definition add_apify_account :: "apify_account \<Rightarrow> db \<Rightarrow> db result" where
  \<comment> \<open>\<open>db.add(row); await db.flush()\<close> with the unique label of the workspace\<close>
  "add_apify_account a d =
     (if \<exists>b\<in>set (apify_accounts d). aa_workspace_id b = aa_workspace_id a \<and> aa_label b = aa_label a
      then Inl (IntegrityError ''uq_apify_account_label'')
      else Inr (d\<lparr>apify_accounts := apify_accounts d @ [a], fresh_id := Suc (fresh_id d)\<rparr>))"

definition create_account_block :: "accounts_env \<Rightarrow> secret_codec \<Rightarrow> string \<Rightarrow> string \<Rightarrow> identity \<Rightarrow> db
    \<Rightarrow> exn + (account_out \<times> db)" where
  "create_account_block E c label token i d =
     (case apify_workspace (xa_now E) d of
        (ws, d1) \<Rightarrow>
          if list_ex (\<lambda>a. aa_workspace_id a = ws_id ws \<and> aa_token_fingerprint a = secret_fingerprint c token) (apify_accounts d1)
          then Inl (ValueError ''apify_token_already_registered'')
          else
            (case identity_id E i of
               Inl e \<Rightarrow> Inl e
             | Inr user \<Rightarrow>
                 (let row = \<lparr>aa_id = fresh_id d1, aa_workspace_id = ws_id ws, aa_label = strip label, aa_apify_user_id = user,
                              aa_username = identity_name E i, aa_token_ciphertext = encrypt_secret c (xa_nonce E) token,
                              aa_token_fingerprint = secret_fingerprint c token,
                              aa_webhook_secret_ciphertext = encrypt_secret c (Suc (xa_nonce E)) (xa_secret E),
                              aa_webhook_secret_hash = secret_fingerprint c (xa_secret E), aa_status = ''active'',
                              aa_last_checked_at = Some (xa_now E), aa_last_error = None, aa_created_at = xa_now E,
                              aa_updated_at = xa_now E\<rparr> in
                  case add_apify_account row d1 of
                    Inl e \<Rightarrow> Inl e
                  | Inr d2 \<Rightarrow>
                      (let d3 = account_audit E ''apify.account.create'' (aa_id row)
                              (Some [(''label'', JStr (aa_label row)), (''username'', JStr (aa_username row))]) ''success'' d2 in
                       map_sum id (\<lambda>out. (out, d3)) (account_output E row)))))"

definition create_account :: "accounts_env \<Rightarrow> string \<Rightarrow> string \<Rightarrow> db \<Rightarrow> account_out result \<times> db" where
  "create_account E label token d =
     (case xa_identity E token of
        Inl e \<Rightarrow> (Inl e, d)
      | Inr i \<Rightarrow>
          (case settings_codec (xa_fernet E) (xa_settings E) of
             Inl e \<Rightarrow> (Inl e, d)
           | Inr c \<Rightarrow> session (create_account_block E c label token i) d))"

fun outputs :: "('r \<Rightarrow> 'o result) \<Rightarrow> 'r list \<Rightarrow> 'o list result" where
  "outputs f [] = Inr []"
| "outputs f (r # rs) = (case f r of Inl e \<Rightarrow> Inl e | Inr x \<Rightarrow> map_sum id ((#) x) (outputs f rs))"

definition list_accounts :: "accounts_env \<Rightarrow> db \<Rightarrow> account_out list result \<times> db" where
  "list_accounts E =
     session (\<lambda>d. case apify_workspace (xa_now E) d of
        (ws, d1) \<Rightarrow>
          map_sum id (\<lambda>os. (os, d1)) (outputs (account_output E)
            (sort_key aa_created_at (filter (\<lambda>a. aa_workspace_id a = ws_id ws) (apify_accounts d1)))))"

definition replaced_account :: "accounts_env \<Rightarrow> secret_codec \<Rightarrow> string \<Rightarrow> identity \<Rightarrow> string \<Rightarrow> apify_account \<Rightarrow> apify_account" where
  "replaced_account E c token i user a =
     a\<lparr>aa_token_ciphertext := encrypt_secret c (xa_nonce E) token, aa_token_fingerprint := secret_fingerprint c token,
       aa_apify_user_id := user, aa_username := identity_name E i, aa_status := ''active'',
       aa_last_checked_at := Some (xa_now E), aa_last_error := None\<rparr>"

definition replace_token_block :: "accounts_env \<Rightarrow> secret_codec \<Rightarrow> uuid \<Rightarrow> string \<Rightarrow> identity \<Rightarrow> db
    \<Rightarrow> exn + (account_out \<times> db)" where
  "replace_token_block E c aid token i d =
     (case get_apify_account aid d of
        None \<Rightarrow> Inl (LookupError ''apify_account_not_found'')
      | Some row \<Rightarrow>
          if list_ex (\<lambda>a. aa_workspace_id a = aa_workspace_id row \<and> aa_token_fingerprint a = secret_fingerprint c token
                         \<and> aa_id a \<noteq> aa_id row) (apify_accounts d)
          then Inl (ValueError ''apify_token_already_registered'')
          else
            (case identity_id E i of
               Inl e \<Rightarrow> Inl e
             | Inr user \<Rightarrow>
                 (let f = replaced_account E c token i user;
                      d1 = account_audit E ''apify.account.token.replace'' aid None ''success'' (set_apify_account aid f d) in
                  map_sum id (\<lambda>out. (out, d1)) (account_output E (f row)))))"

definition replace_account_token :: "accounts_env \<Rightarrow> uuid \<Rightarrow> string \<Rightarrow> db \<Rightarrow> account_out result \<times> db" where
  "replace_account_token E aid token d =
     (case xa_identity E token of
        Inl e \<Rightarrow> (Inl e, d)
      | Inr i \<Rightarrow>
          (case settings_codec (xa_fernet E) (xa_settings E) of
             Inl e \<Rightarrow> (Inl e, d)
           | Inr c \<Rightarrow> session (replace_token_block E c aid token i) d))"

definition suspend_account :: "accounts_env \<Rightarrow> uuid \<Rightarrow> db \<Rightarrow> account_out result \<times> db" where
  "suspend_account E aid =
     session (\<lambda>d. case get_apify_account aid d of
        None \<Rightarrow> Inl (LookupError ''apify_account_not_found'')
      | Some row \<Rightarrow>
          (let f = (\<lambda>a. a\<lparr>aa_status := ''suspended''\<rparr>);
               d1 = account_audit E ''apify.account.suspend'' aid None ''success'' (set_apify_account aid f d) in
           map_sum id (\<lambda>out. (out, d1)) (account_output E (f row))))"

subsection \<open>Deletion\<close>

definition hooks_block :: "secret_codec \<Rightarrow> uuid \<Rightarrow> db \<Rightarrow> exn + ((string \<times> string list) \<times> db)" where
  "hooks_block k aid d =
     (case get_apify_account aid d of
        None \<Rightarrow> Inl (LookupError ''apify_account_not_found'')
      | Some row \<Rightarrow>
          (case decrypt_secret k (aa_token_ciphertext row) of
             Inl e \<Rightarrow> Inl e
           | Inr token \<Rightarrow>
               Inr ((token, List.map_filter ab_webhook_id (filter (\<lambda>b. ab_account_id b = aid) (apify_actor_bindings d))), d)))"

fun delete_hooks :: "accounts_env \<Rightarrow> string \<Rightarrow> string list \<Rightarrow> exn option \<times> hook_call list" where
  "delete_hooks E token [] = (None, [])"
| "delete_hooks E token (h # hs) =
     (case xa_delete E token h of
        Inl e \<Rightarrow> (Some e, [HookDelete token h])
      | Inr _ \<Rightarrow> (case delete_hooks E token hs of (r, cs) \<Rightarrow> (r, HookDelete token h # cs)))"

definition delete_failed :: "accounts_env \<Rightarrow> uuid \<Rightarrow> exn \<Rightarrow> db \<Rightarrow> exn + (unit \<times> db)" where
  "delete_failed E aid e d =
     Inr ((), (if get_apify_account aid d = None then d
               else account_audit E ''apify.account.delete'' aid None ''retryable_error''
                      (set_apify_account aid (\<lambda>a. a\<lparr>aa_status := ''suspended'', aa_last_error := Some (take 500 (exn_str e))\<rparr>) d)))"

definition cascade_account :: "uuid \<Rightarrow> db \<Rightarrow> db" where
  \<comment> \<open>\<open>db.delete(row)\<close> with the foreign keys \<open>ON DELETE CASCADE\<close>\<close>
  "cascade_account aid d =
     (let gone = map ab_id (filter (\<lambda>b. ab_account_id b = aid) (apify_actor_bindings d)) in
      d\<lparr>apify_accounts := filter (\<lambda>a. aa_id a \<noteq> aid) (apify_accounts d),
        apify_actor_bindings := filter (\<lambda>b. ab_account_id b \<noteq> aid) (apify_actor_bindings d),
        apify_runs := filter (\<lambda>r. ar_account_id r \<noteq> aid \<and> ar_binding_id r \<notin> set gone) (apify_runs d),
        apify_items := filter (\<lambda>i. ai_account_id i \<noteq> aid \<and>
            \<not> list_ex (\<lambda>r. ar_id r = ai_run_id i \<and> (ar_account_id r = aid \<or> ar_binding_id r \<in> set gone)) (apify_runs d)) (apify_items d),
        apify_normalization_profiles := filter (\<lambda>p. ap_binding_id p \<notin> set gone) (apify_normalization_profiles d),
        apify_normalization_experiments := filter (\<lambda>x. ax_binding_id x \<notin> set gone) (apify_normalization_experiments d),
        apify_exceptions := filter (\<lambda>x. aex_binding_id x \<notin> set gone) (apify_exceptions d)\<rparr>)"

definition delete_row :: "accounts_env \<Rightarrow> uuid \<Rightarrow> db \<Rightarrow> exn + (unit \<times> db)" where
  "delete_row E aid d =
     Inr ((), (if get_apify_account aid d = None then d
               else cascade_account aid (account_audit E ''apify.account.delete'' aid None ''success'' d)))"

definition delete_account :: "accounts_env \<Rightarrow> uuid \<Rightarrow> db \<Rightarrow> (unit result \<times> db) \<times> hook_call list" where
  "delete_account E aid d =
     (case settings_codec (xa_fernet E) (xa_settings E) of
        Inl e \<Rightarrow> ((Inl e, d), [])
      | Inr k \<Rightarrow>
          (case session (hooks_block k aid) d of
             (Inl e, d1) \<Rightarrow> ((Inl e, d1), [])
           | (Inr (token, hooks), d1) \<Rightarrow>
               (case delete_hooks E token hooks of
                  (Some e, cs) \<Rightarrow>
                    ((Inl (RuntimeError ''apify_webhook_delete_retryable''), snd (session (delete_failed E aid e) d1)), cs)
                | (None, cs) \<Rightarrow> (session (delete_row E aid) d1, cs))))"

section \<open>The catalogue\<close>

record catalog_entry =
  ce_type :: apify_resource_type
  ce_resource :: string
  ce_name :: string
  ce_description :: json
  ce_modified :: json

definition catalog_resource :: "accounts_env \<Rightarrow> apify_resource_type \<Rightarrow> (string, json) dict \<Rightarrow> catalog_entry result" where
  "catalog_resource E t item =
     (let rid = str_first (xa_text E) item ''id'' ''name'' in
      if rid = [] then Inl (ValueError ''apify_catalog_resource_without_id'')
      else Inr \<lparr>ce_type = t, ce_resource = rid,
             ce_name = json_str (xa_text E) (json_or (get_json item ''title'') (json_or (get_json item ''name'') (JStr rid))),
             ce_description = get_json item ''description'', ce_modified = get_json item ''modifiedAt''\<rparr>)"

definition remote_catalog :: "accounts_env \<Rightarrow> apify_account \<Rightarrow> catalog_entry list result" where
  "remote_catalog E a =
     (case open_secret (xa_fernet E) (xa_settings E) (aa_token_ciphertext a) of
        Inl e \<Rightarrow> Inl e
      | Inr token \<Rightarrow>
          (case xa_actors E token of
             Inl e \<Rightarrow> Inl e
           | Inr actors \<Rightarrow>
               (case xa_tasks E token of
                  Inl e \<Rightarrow> Inl e
                | Inr tasks \<Rightarrow>
                    (case outputs (catalog_resource E RES_ACTOR) actors of
                       Inl e \<Rightarrow> Inl e
                     | Inr xs \<Rightarrow> map_sum id ((@) xs) (outputs (catalog_resource E RES_TASK) tasks)))))"

definition sync_catalog :: "accounts_env \<Rightarrow> uuid \<Rightarrow> db \<Rightarrow> catalog_entry list result \<times> db" where
  "sync_catalog E aid =
     session (\<lambda>d. case get_apify_account aid d of
        None \<Rightarrow> Inl (LookupError ''apify_account_not_found'')
      | Some row \<Rightarrow>
          (case remote_catalog E row of
             Inl e \<Rightarrow> Inl e
           | Inr catalog \<Rightarrow>
               Inr (catalog, account_audit E ''apify.catalog.sync'' aid (Some [(''resources'', JInt (int (length catalog)))]) ''success''
                 (set_apify_account aid (\<lambda>a. a\<lparr>aa_last_checked_at := Some (xa_now E), aa_last_error := None\<rparr>) d))))"

section \<open>Bindings\<close>

record binding_cmd =
  bc_account :: uuid
  bc_type :: string
  bc_resource :: string
  bc_name :: "string option"
  bc_sector :: "uuid option"
  bc_campaign :: uuid
  bc_input :: "(string, json) dict"
  bc_authority :: string
  bc_minutes :: "int option"

definition validate_schedule :: "binding_cmd \<Rightarrow> bool" where
  \<comment> \<open>the validators of \<open>ApifyBindingCreate\<close>\<close>
  "validate_schedule c =
     (bc_type c \<in> set [''actor'', ''task''] \<and> 1 \<le> length (bc_resource c) \<and> length (bc_resource c) \<le> 255
      \<and> (case bc_name c of None \<Rightarrow> True | Some n \<Rightarrow> length n \<le> 255)
      \<and> (case bc_minutes c of None \<Rightarrow> True | Some m \<Rightarrow> 5 \<le> m \<and> m \<le> 10080)
      \<and> (bc_authority c = ''internal'' \<and> bc_minutes c \<noteq> None \<or> bc_authority c = ''apify'' \<and> bc_minutes c = None))"

definition text_filter :: "accounts_env \<Rightarrow> json \<Rightarrow> string \<Rightarrow> bool" where
  "text_filter E v column = (column = json_str (xa_text E) v)"

definition resolve_sector :: "accounts_env \<Rightarrow> apify_actor_binding \<Rightarrow> campaign \<Rightarrow> db \<Rightarrow> uuid option result" where
  \<comment> \<open>the sector of the binding\<close>
  "resolve_sector E b campaign d =
     (case ab_sector_id b of
        Some sid \<Rightarrow>
          (case find_row (\<lambda>s. sec_id s = sid) (sectors d) of
             None \<Rightarrow> Inl (ValueError ''sector_required'')
           | Some s \<Rightarrow> if sec_workspace_id s \<noteq> ab_workspace_id b \<or> sec_status s \<noteq> SECTOR_ACTIF
                       then Inl (ValueError ''sector_required'') else Inr (Some sid))
      | None \<Rightarrow>
          (let department = get_json (ca_search_criteria campaign) ''department'';
               region = get_json (ca_search_criteria campaign) ''region'';
               rows = filter (\<lambda>s. sec_workspace_id s = ab_workspace_id b \<and> sec_status s = SECTOR_ACTIF
                          \<and> (if json_truthy department then text_filter E department (sec_department s)
                             else json_truthy region \<longrightarrow> text_filter E region (sec_region s))) (sectors d) in
           case sort_key sec_created_at rows of
             [] \<Rightarrow> Inl (ValueError ''sector_required'')
           | s # _ \<Rightarrow> Inr (Some (sec_id s))))"

definition valid_authority :: "apify_actor_binding \<Rightarrow> bool" where
  "valid_authority b =
     (\<not> (ab_schedule_authority b = ''internal'' \<and> ab_schedule_minutes b = None)
      \<and> \<not> (ab_schedule_authority b = ''apify'' \<and> ab_schedule_minutes b \<noteq> None))"

definition in_catalog :: "apify_actor_binding \<Rightarrow> catalog_entry list \<Rightarrow> bool" where
  "in_catalog b catalog =
     list_ex (\<lambda>e. apify_resource_type_value (ce_type e) = ab_resource_type b \<and> ce_resource e = ab_resource_id b) catalog"

definition validate_binding_activation :: "accounts_env \<Rightarrow> apify_actor_binding \<Rightarrow> db \<Rightarrow> (apify_account \<times> uuid option) result" where
  \<comment> \<open>with the sector that the row gets\<close>
  "validate_binding_activation E b d =
     (case get_apify_account (ab_account_id b) d of
        None \<Rightarrow> Inl (ValueError ''apify_account_not_active'')
      | Some account \<Rightarrow>
          if aa_status account \<noteq> ''active'' then Inl (ValueError ''apify_account_not_active'')
          else
            (case (case ab_campaign_id b of None \<Rightarrow> None | Some cid \<Rightarrow> find_row (\<lambda>c. ca_id c = cid) (campaigns d)) of
               None \<Rightarrow> Inl (ValueError ''campaign_not_running'')
             | Some campaign \<Rightarrow>
                 if ca_status campaign \<noteq> C_RUNNING then Inl (ValueError ''campaign_not_running'')
                 else if \<not> valid_authority b then Inl (ValueError ''invalid_scheduling_authority'')
                 else
                   (case resolve_sector E b campaign d of
                      Inl e \<Rightarrow> Inl e
                    | Inr sid \<Rightarrow>
                        (case remote_catalog E account of
                           Inl e \<Rightarrow> Inl e
                         | Inr catalog \<Rightarrow>
                             if in_catalog b catalog then Inr (account, sid)
                             else Inl (ValueError ''resource_not_in_catalog'')))))"

definition rstrip_slash :: "string \<Rightarrow> string" where
  "rstrip_slash s = rev (dropWhile (\<lambda>c. c = CHR ''/'') (rev s))"

definition create_binding_webhook :: "accounts_env \<Rightarrow> apify_account \<Rightarrow> apify_actor_binding \<Rightarrow> string hooked" where
  "create_binding_webhook E account b =
     (if apify_webhook_base_url (xa_settings E) = [] then hk_value (Inl (ValueError ''apify_webhook_url_required''))
      else
        hk_bind (hk_value (open_secret (xa_fernet E) (xa_settings E) (aa_token_ciphertext account))) (\<lambda>token.
        hk_bind (hk_value (open_secret (xa_fernet E) (xa_settings E) (aa_webhook_secret_ciphertext account))) (\<lambda>secret.
        (let c = HookCreate token (ab_resource_type b) (ab_resource_id b)
                   (rstrip_slash (apify_webhook_base_url (xa_settings E)) @ ''/webhooks/apify/'' @ str_uuid (aa_id account)) secret in
         hk_bind (hk_call c (xa_create E c)) (\<lambda>reply.
         hk_value (case dict_get reply ''id'' of None \<Rightarrow> Inl (KeyError ''id'') | Some v \<Rightarrow> Inr (json_str (xa_text E) v)))))))"

definition delete_binding_webhook :: "accounts_env \<Rightarrow> apify_account \<Rightarrow> string \<Rightarrow> unit hooked" where
  "delete_binding_webhook E account h =
     hk_bind (hk_value (open_secret (xa_fernet E) (xa_settings E) (aa_token_ciphertext account))) (\<lambda>token.
     hk_call (HookDelete token h) (xa_delete E token h))"

definition scheduled_from :: "accounts_env \<Rightarrow> binding_cmd \<Rightarrow> datetime option" where
  "scheduled_from E c =
     (case bc_minutes c of
        Some m \<Rightarrow> if bc_authority c = ''internal'' then Some (xa_now E + minutes m) else None
      | None \<Rightarrow> None)"

definition named :: "binding_cmd \<Rightarrow> string" where
  "named c = (case bc_name c of None \<Rightarrow> bc_resource c | Some n \<Rightarrow> if n = [] then bc_resource c else n)"

definition commanded :: "accounts_env \<Rightarrow> secret_codec \<Rightarrow> binding_cmd \<Rightarrow> apify_actor_binding \<Rightarrow> apify_actor_binding" where
  \<comment> \<open>the columns a command sets\<close>
  "commanded E k c b =
     b\<lparr>ab_account_id := bc_account c, ab_sector_id := bc_sector c, ab_campaign_id := Some (bc_campaign c),
       ab_resource_type := bc_type c, ab_resource_id := bc_resource c, ab_name := named c,
       ab_input_ciphertext := encrypt_secret k (xa_nonce E) (ascii_json (compact_dumps (xa_float E) (JObj (bc_input c)))),
       ab_schedule_authority := bc_authority c, ab_schedule_minutes := bc_minutes c, ab_next_run_at := scheduled_from E c\<rparr>"

definition blank_binding :: "accounts_env \<Rightarrow> apify_account \<Rightarrow> db \<Rightarrow> apify_actor_binding" where
  "blank_binding E account d =
     \<lparr>ab_id = fresh_id d, ab_workspace_id = aa_workspace_id account, ab_account_id = aa_id account, ab_sector_id = None,
      ab_campaign_id = None, ab_resource_type = [], ab_resource_id = [], ab_name = [], ab_input_ciphertext = [],
      ab_enabled = False, ab_schedule_authority = ''internal'', ab_schedule_minutes = None, ab_next_run_at = None,
      ab_webhook_id = None, ab_schema_fingerprint = None, ab_active_profile_id = None, ab_suspended_reason = None,
      ab_created_at = xa_now E, ab_updated_at = xa_now E\<rparr>"

definition same_resource :: "apify_actor_binding \<Rightarrow> db \<Rightarrow> bool" where
  \<comment> \<open>\<open>uq_apify_binding_resource\<close> among the other rows\<close>
  "same_resource b d =
     list_ex (\<lambda>x. ab_id x \<noteq> ab_id b \<and> ab_account_id x = ab_account_id b \<and> ab_resource_type x = ab_resource_type b
                 \<and> ab_resource_id x = ab_resource_id b) (apify_actor_bindings d)"

definition binding_audit :: "accounts_env \<Rightarrow> string \<Rightarrow> uuid \<Rightarrow> (string, json) dict option \<Rightarrow> db \<Rightarrow> db" where
  "binding_audit E action bid summary = system_audit (xa_now E) action ''apify_binding'' (str_uuid bid) summary ''success''"

definition create_binding_block :: "accounts_env \<Rightarrow> secret_codec \<Rightarrow> binding_cmd \<Rightarrow> db \<Rightarrow> exn + (apify_actor_binding \<times> db)" where
  "create_binding_block E k c d =
     (case get_apify_account (bc_account c) d of
        None \<Rightarrow> Inl (LookupError ''apify_account_not_found'')
      | Some account \<Rightarrow>
          (let b = commanded E k c (blank_binding E account d) in
           case validate_binding_activation E b d of
             Inl e \<Rightarrow> Inl e
           | Inr (_, sid) \<Rightarrow>
               if same_resource b d then Inl (IntegrityError ''uq_apify_binding_resource'')
               else (let row = b\<lparr>ab_sector_id := sid\<rparr> in
                     Inr (row, binding_audit E ''apify.binding.create'' (ab_id row)
                       (Some [(''resource_type'', JStr (ab_resource_type row)), (''resource_id'', JStr (ab_resource_id row))])
                       (d\<lparr>apify_actor_bindings := apify_actor_bindings d @ [row], fresh_id := Suc (fresh_id d)\<rparr>)))))"

definition create_binding :: "accounts_env \<Rightarrow> binding_cmd \<Rightarrow> db \<Rightarrow> apify_actor_binding result \<times> db" where
  "create_binding E c d =
     (case settings_codec (xa_fernet E) (xa_settings E) of
        Inl e \<Rightarrow> (Inl e, d)
      | Inr k \<Rightarrow> session (create_binding_block E k c) d)"

definition list_bindings :: "accounts_env \<Rightarrow> db \<Rightarrow> apify_actor_binding list result \<times> db" where
  "list_bindings E =
     session (\<lambda>d. case apify_workspace (xa_now E) d of
        (ws, d1) \<Rightarrow> Inr (sort_key ab_created_at (filter (\<lambda>b. ab_workspace_id b = ws_id ws) (apify_actor_bindings d1)), d1))"

definition store_binding :: "apify_actor_binding \<Rightarrow> unit hooked" where
  "store_binding b = hk_pure (\<lambda>d. if same_resource b d then Inl (IntegrityError ''uq_apify_binding_resource'')
                              else Inr ((), set_binding (ab_id b) (\<lambda>_. b) d))"

definition update_binding_block :: "accounts_env \<Rightarrow> secret_codec \<Rightarrow> uuid \<Rightarrow> binding_cmd \<Rightarrow> apify_actor_binding hooked" where
  "update_binding_block E k bid c =
     hk_bind (hk_get (LookupError ''apify_binding_not_found'') (get_binding bid)) (\<lambda>b.
     hk_bind (hk_get (LookupError ''apify_account_not_found'') (get_apify_account (ab_account_id b))) (\<lambda>old_account.
     hk_bind (case (if ab_enabled b then ab_webhook_id b else None) of
                None \<Rightarrow> hk_value (Inr b)
              | Some h \<Rightarrow> if h = [] then hk_value (Inr b)
                          else hk_bind (delete_binding_webhook E old_account h) (\<lambda>_. hk_value (Inr (b\<lparr>ab_webhook_id := None\<rparr>)))) (\<lambda>b1.
     hk_bind (hk_get (LookupError ''apify_account_not_found'') (get_apify_account (bc_account c))) (\<lambda>account.
     hk_bind (hk_check (aa_workspace_id account = ab_workspace_id b) (LookupError ''apify_account_not_found'')) (\<lambda>_.
     hk_bind (hk_read (validate_binding_activation E (commanded E k c b1))) (\<lambda>(validated, sid).
     (let b2 = (commanded E k c b1)\<lparr>ab_sector_id := sid\<rparr> in
      hk_bind (if ab_enabled b then hk_bind (create_binding_webhook E validated b2) (\<lambda>h. hk_value (Inr (b2\<lparr>ab_webhook_id := Some h\<rparr>)))
               else hk_value (Inr b2)) (\<lambda>b3.
      hk_bind (store_binding b3) (\<lambda>_.
      hk_bind (hk_do (binding_audit E ''apify.binding.update'' bid None)) (\<lambda>_. hk_value (Inr b3)))))))))))"

definition update_binding :: "accounts_env \<Rightarrow> uuid \<Rightarrow> binding_cmd \<Rightarrow> db \<Rightarrow> (apify_actor_binding result \<times> db) \<times> hook_call list" where
  "update_binding E bid c d =
     (case settings_codec (xa_fernet E) (xa_settings E) of
        Inl e \<Rightarrow> ((Inl e, d), [])
      | Inr k \<Rightarrow> hk_session (update_binding_block E k bid c) d)"

definition switch_binding :: "accounts_env \<Rightarrow> bool \<Rightarrow> apify_account \<Rightarrow> apify_actor_binding \<Rightarrow> apify_actor_binding hooked" where
  \<comment> \<open>both branches of \<open>set_binding_enabled\<close>\<close>
  "switch_binding E enabled account b =
     (if enabled then
        hk_bind (hk_read (validate_binding_activation E b)) (\<lambda>(validated, sid).
        hk_bind (create_binding_webhook E validated (b\<lparr>ab_sector_id := sid\<rparr>)) (\<lambda>h.
        hk_value (Inr (b\<lparr>ab_sector_id := sid, ab_webhook_id := Some h, ab_enabled := True\<rparr>))))
      else
        hk_bind (case ab_webhook_id b of
                   None \<Rightarrow> hk_value (Inr ())
                 | Some h \<Rightarrow> if h = [] then hk_value (Inr ()) else delete_binding_webhook E account h) (\<lambda>_.
        hk_value (Inr (b\<lparr>ab_webhook_id := None, ab_enabled := False\<rparr>))))"

definition set_enabled_block :: "accounts_env \<Rightarrow> uuid \<Rightarrow> bool \<Rightarrow> apify_actor_binding hooked" where
  "set_enabled_block E bid enabled =
     hk_bind (hk_get (LookupError ''apify_binding_not_found'') (get_binding bid)) (\<lambda>b.
     if ab_enabled b = enabled then hk_value (Inr b)
     else
       hk_bind (hk_get (LookupError ''apify_account_not_found'') (get_apify_account (ab_account_id b))) (\<lambda>account.
       hk_bind (switch_binding E enabled account b) (\<lambda>b1.
       hk_bind (store_binding b1) (\<lambda>_.
       hk_bind (hk_do (binding_audit E (if enabled then ''apify.binding.enable'' else ''apify.binding.disable'') bid None)) (\<lambda>_.
       hk_value (Inr b1))))))"

definition set_binding_enabled :: "accounts_env \<Rightarrow> uuid \<Rightarrow> bool \<Rightarrow> db \<Rightarrow> (apify_actor_binding result \<times> db) \<times> hook_call list" where
  "set_binding_enabled E bid enabled d = hk_session (set_enabled_block E bid enabled) d"
section \<open>The invariant of the bindings\<close>

definition resource_key :: "apify_actor_binding \<Rightarrow> uuid \<times> string \<times> string" where
  "resource_key b = (ab_account_id b, ab_resource_type b, ab_resource_id b)"

definition bindings_ok :: "db \<Rightarrow> bool" where
  "bindings_ok d =
     (distinct (map ab_id (apify_actor_bindings d)) \<and> (\<forall>b\<in>set (apify_actor_bindings d). ab_id b < fresh_id d)
      \<and> distinct (map resource_key (apify_actor_bindings d))
      \<and> (\<forall>b\<in>set (apify_actor_bindings d). ab_enabled b \<longleftrightarrow> ab_webhook_id b \<noteq> None))"

lemma same_resource_iff: "same_resource b d \<longleftrightarrow> (\<exists>x\<in>set (apify_actor_bindings d). ab_id x \<noteq> ab_id b \<and> resource_key x = resource_key b)"
  by (auto simp: same_resource_def resource_key_def list_ex_iff)

lemma distinct_replace:
  assumes "distinct (map idf t)" "distinct (map key t)" "\<And>x. x \<in> set t \<Longrightarrow> idf x \<noteq> i \<Longrightarrow> key x \<noteq> key r"
  shows "distinct (map key (update_where (\<lambda>x. idf x = i) (\<lambda>_. r) t))"
  using assms
proof (induction t)
  case (Cons x t)
  show ?case
  proof (cases "idf x = i")
    case True
    then have "i \<notin> idf ` set t" using Cons.prems(1) by simp
    then have others: "\<forall>y\<in>set t. idf y \<noteq> i" by (metis imageI)
    then have "update_where (\<lambda>x. idf x = i) (\<lambda>_. r) t = t" by (intro update_where_none) simp
    with True Cons.prems others show ?thesis by force
  next
    case False
    then have "key x \<noteq> key r" using Cons.prems(3) by simp
    then have "key x \<notin> key ` set (update_where (\<lambda>x. idf x = i) (\<lambda>_. r) t)"
      using Cons.prems(2) by (auto simp: set_update_where)
    with False Cons show ?thesis by simp
  qed
qed simp

lemma bindings_ok_same:
  "bindings_ok d \<Longrightarrow> apify_actor_bindings d' = apify_actor_bindings d \<Longrightarrow> fresh_id d \<le> fresh_id d' \<Longrightarrow> bindings_ok d'"
  by (auto simp: bindings_ok_def)

lemma bindings_ok_set:
  assumes ok: "bindings_ok d" and b: "get_binding bid d = Some b" and id: "ab_id r = bid"
    and hook: "ab_enabled r \<longleftrightarrow> ab_webhook_id r \<noteq> None" and key: "\<not> same_resource r d"
  shows "bindings_ok (set_binding bid (\<lambda>_. r) d)"
proof -
  have "distinct (map ab_id (update_where (\<lambda>x. ab_id x = bid) (\<lambda>_. r) (apify_actor_bindings d)))"
    using ok id by (intro distinct_replace) (simp_all add: bindings_ok_def)
  moreover have "distinct (map resource_key (update_where (\<lambda>x. ab_id x = bid) (\<lambda>_. r) (apify_actor_bindings d)))"
    using ok id key by (intro distinct_replace) (auto simp: bindings_ok_def same_resource_iff)
  moreover have "b \<in> set (apify_actor_bindings d)" "ab_id b = bid"
    using b by (auto simp: get_binding_def dest: find_row_SomeD)
  ultimately show ?thesis
    using ok id hook key
    by (auto simp: bindings_ok_def set_binding_def set_update_where same_resource_iff)
qed
lemma create_binding_webhook_Inr:
  assumes "create_binding_webhook E a b d = (Inr (h, d1), cs)"
  obtains token secret reply where
    "d1 = d" "open_secret (xa_fernet E) (xa_settings E) (aa_token_ciphertext a) = Inr token"
    "open_secret (xa_fernet E) (xa_settings E) (aa_webhook_secret_ciphertext a) = Inr secret"
    "cs = [HookCreate token (ab_resource_type b) (ab_resource_id b)
             (rstrip_slash (apify_webhook_base_url (xa_settings E)) @ ''/webhooks/apify/'' @ str_uuid (aa_id a)) secret]"
    "xa_create E (hd cs) = Inr reply" "dict_get reply ''id'' \<noteq> None" "h = json_str (xa_text E) (the (dict_get reply ''id''))"
  using assms
  by (auto simp: create_binding_webhook_def Let_def hk_Inr split: if_splits option.splits)

lemma validated:
  assumes "validate_binding_activation E b d = Inr (account, sid)"
  shows "get_apify_account (ab_account_id b) d = Some account" "aa_status account = ''active''"
    "\<exists>c. ab_campaign_id b = Some (ca_id c) \<and> c \<in> set (campaigns d) \<and> ca_status c = C_RUNNING"
    "\<exists>s\<in>set (sectors d). sid = Some (sec_id s) \<and> sec_workspace_id s = ab_workspace_id b \<and> sec_status s = SECTOR_ACTIF"
    "\<exists>catalog. remote_catalog E account = Inr catalog \<and> in_catalog b catalog"
proof -
  obtain c cat where a: "get_apify_account (ab_account_id b) d = Some account" "aa_status account = ''active''"
    and c: "(case ab_campaign_id b of None \<Rightarrow> None | Some cid \<Rightarrow> find_row (\<lambda>c. ca_id c = cid) (campaigns d)) = Some c" "ca_status c = C_RUNNING"
    and s: "resolve_sector E b c d = Inr sid" and cat: "remote_catalog E account = Inr cat" "in_catalog b cat"
    using assms by (auto simp: validate_binding_activation_def split: option.splits if_splits sum.splits)
  from a show "get_apify_account (ab_account_id b) d = Some account" "aa_status account = ''active''" by simp_all
  from c show "\<exists>c. ab_campaign_id b = Some (ca_id c) \<and> c \<in> set (campaigns d) \<and> ca_status c = C_RUNNING"
    by (auto split: option.splits dest: find_row_SomeD)
  from cat show "\<exists>catalog. remote_catalog E account = Inr catalog \<and> in_catalog b catalog" by blast
  show "\<exists>s\<in>set (sectors d). sid = Some (sec_id s) \<and> sec_workspace_id s = ab_workspace_id b \<and> sec_status s = SECTOR_ACTIF"
  proof (cases "ab_sector_id b")
    case (Some i)
    with s obtain x where x: "find_row (\<lambda>s. sec_id s = i) (sectors d) = Some x" "sec_workspace_id x = ab_workspace_id b"
        "sec_status x = SECTOR_ACTIF" "sid = Some i"
      by (auto simp: resolve_sector_def split: option.splits if_splits)
    then show ?thesis by (intro bexI [of _ x]) (auto dest: find_row_SomeD)
  next
    case None
    let ?P = "\<lambda>s. sec_workspace_id s = ab_workspace_id b \<and> sec_status s = SECTOR_ACTIF
        \<and> (if json_truthy (get_json (ca_search_criteria c) ''department'')
           then text_filter E (get_json (ca_search_criteria c) ''department'') (sec_department s)
           else json_truthy (get_json (ca_search_criteria c) ''region'') \<longrightarrow>
             text_filter E (get_json (ca_search_criteria c) ''region'') (sec_region s))"
    obtain x xs where x: "sort_key sec_created_at (filter ?P (sectors d)) = x # xs" "sid = Some (sec_id x)"
      using s None by (auto simp: resolve_sector_def Let_def split: list.splits)
    have "x \<in> set (sort_key sec_created_at (filter ?P (sectors d)))" using x(1) by simp
    then have "x \<in> set (sectors d)" "?P x" by simp_all
    with x(2) show ?thesis by blast
  qed
qed

lemma create_binding_webhook_same: "create_binding_webhook E a b d = (Inr (h, d1), cs) \<Longrightarrow> d1 = d"
  by (erule create_binding_webhook_Inr)

lemma delete_binding_webhook_Inr:
  "delete_binding_webhook E a h d = (Inr (u, d1), cs) \<Longrightarrow>
     d1 = d \<and> (\<exists>token. open_secret (xa_fernet E) (xa_settings E) (aa_token_ciphertext a) = Inr token \<and> cs = [HookDelete token h])"
  by (auto simp: delete_binding_webhook_def hk_Inr)

lemma switch_on_iff:
  "switch_binding E True account b d = (Inr (b1, d1), cs) \<longleftrightarrow>
     (\<exists>v sid h. validate_binding_activation E b d = Inr (v, sid)
        \<and> create_binding_webhook E v (b\<lparr>ab_sector_id := sid\<rparr>) d = (Inr (h, d1), cs)
        \<and> b1 = b\<lparr>ab_sector_id := sid, ab_webhook_id := Some h, ab_enabled := True\<rparr>)"
  by (cases "validate_binding_activation E b d") (auto simp: switch_binding_def hk_bind_Inr hk_read_Inr hk_value_Inr)

lemma switch_off_Inr:
  assumes "switch_binding E False account b d = (Inr (b1, d1), cs)"
  shows "d1 = d \<and> b1 = b\<lparr>ab_webhook_id := None, ab_enabled := False\<rparr>"
  using assms
  by (auto simp: switch_binding_def hk_bind_Inr hk_value_Inr split: option.splits if_splits dest: delete_binding_webhook_Inr)

lemma switch_binding_Inr:
  assumes "switch_binding E enabled account b d = (Inr (b1, d1), cs)"
  shows "d1 = d \<and> ab_id b1 = ab_id b \<and> ab_suspended_reason b1 = ab_suspended_reason b \<and> ab_enabled b1 = enabled
    \<and> (ab_webhook_id b1 \<noteq> None \<longleftrightarrow> enabled)"
proof (cases enabled)
  case True
  with assms show ?thesis by (auto simp: switch_on_iff dest: create_binding_webhook_same)
next
  case False
  with assms switch_off_Inr [of E account b d b1 d1 cs] show ?thesis by simp
qed

lemma store_binding_Inr:
  "store_binding b d = (Inr (x, d1), cs) \<longleftrightarrow> \<not> same_resource b d \<and> d1 = set_binding (ab_id b) (\<lambda>_. b) d \<and> cs = []"
  by (auto simp: store_binding_def hk_pure_def)

lemma set_enabled_Inr:
  assumes "set_enabled_block E bid enabled d = (Inr (b', d'), cs)"
  obtains (same) b where "get_binding bid d = Some b" "ab_enabled b = enabled" "b' = b" "d' = d" "cs = []"
  | (switched) b account where "get_binding bid d = Some b" "ab_enabled b \<noteq> enabled"
      "get_apify_account (ab_account_id b) d = Some account" "switch_binding E enabled account b d = (Inr (b', d), cs)"
      "\<not> same_resource b' d"
      "d' = binding_audit E (if enabled then ''apify.binding.enable'' else ''apify.binding.disable'') bid None
              (set_binding (ab_id b') (\<lambda>_. b') d)"
proof -
  obtain b d1 cs1 cs2 where b: "get_binding bid d = Some b" "d1 = d" "cs1 = []" and rest:
    "(if ab_enabled b = enabled then hk_value (Inr b)
      else hk_bind (hk_get (LookupError ''apify_account_not_found'') (get_apify_account (ab_account_id b))) (\<lambda>account.
       hk_bind (switch_binding E enabled account b) (\<lambda>b1.
       hk_bind (store_binding b1) (\<lambda>_.
       hk_bind (hk_do (binding_audit E (if enabled then ''apify.binding.enable'' else ''apify.binding.disable'') bid None)) (\<lambda>_.
       hk_value (Inr b1)))))) d = (Inr (b', d'), cs2)" "cs = cs1 @ cs2"
    using assms unfolding set_enabled_block_def by (auto simp: hk_bind_Inr [of "hk_get _ _"] hk_get_Inr)
  show ?thesis
  proof (cases "ab_enabled b = enabled")
    case True
    from rest(1) True have "b' = b \<and> d' = d \<and> cs2 = []" by (auto simp: hk_value_Inr)
    with True b rest(2) show ?thesis by (intro same [of b]) simp_all
  next
    case False
    then have "\<exists>account d2. get_apify_account (ab_account_id b) d = Some account \<and> switch_binding E enabled account b d = (Inr (b', d2), cs2)
        \<and> \<not> same_resource b' d2 \<and> d' = binding_audit E (if enabled then ''apify.binding.enable'' else ''apify.binding.disable'') bid None
              (set_binding (ab_id b') (\<lambda>_. b') d2)"
      using rest(1) by (simp add: hk_bind_Inr hk_get_Inr hk_do_Inr hk_value_Inr store_binding_Inr del: if_split)
    then obtain account where a: "get_apify_account (ab_account_id b) d = Some account"
      and sw: "switch_binding E enabled account b d = (Inr (b', d), cs2)" "\<not> same_resource b' d"
        "d' = binding_audit E (if enabled then ''apify.binding.enable'' else ''apify.binding.disable'') bid None
              (set_binding (ab_id b') (\<lambda>_. b') d)"
      using switch_binding_Inr by metis
    from b rest(2) have "cs = cs2" by simp
    with b(1) False a sw show ?thesis by (intro switched [of b account]) simp_all
  qed
qed
lemma update_binding_Inr:
  assumes "update_binding_block E k bid c d = (Inr (b', d'), cs)"
  shows "\<exists>b. get_binding bid d = Some b \<and> ab_id b' = ab_id b \<and> ab_enabled b' = ab_enabled b
      \<and> ab_suspended_reason b' = ab_suspended_reason b
      \<and> (ab_enabled b \<longrightarrow> ab_webhook_id b' \<noteq> None) \<and> (\<not> ab_enabled b \<longrightarrow> ab_webhook_id b' = ab_webhook_id b)
      \<and> \<not> same_resource b' d \<and> d' = binding_audit E ''apify.binding.update'' bid None (set_binding (ab_id b') (\<lambda>_. b') d)"
proof -
  obtain b old b1 d1 cs1 v sid b2 d2 cs2 where b: "get_binding bid d = Some b"
    and removed: "(case (if ab_enabled b then ab_webhook_id b else None) of
                None \<Rightarrow> hk_value (Inr b)
              | Some h \<Rightarrow> if h = [] then hk_value (Inr b)
                          else hk_bind (delete_binding_webhook E old h) (\<lambda>_. hk_value (Inr (b\<lparr>ab_webhook_id := None\<rparr>)))) d
        = (Inr (b1, d1), cs1)"
    and made: "(if ab_enabled b then hk_bind (create_binding_webhook E v ((commanded E k c b1)\<lparr>ab_sector_id := sid\<rparr>))
                 (\<lambda>h. hk_value (Inr ((commanded E k c b1)\<lparr>ab_sector_id := sid, ab_webhook_id := Some h\<rparr>)))
               else hk_value (Inr ((commanded E k c b1)\<lparr>ab_sector_id := sid\<rparr>))) d1 = (Inr (b2, d2), cs2)"
    and stored: "\<not> same_resource b2 d2" "b' = b2"
      "d' = binding_audit E ''apify.binding.update'' bid None (set_binding (ab_id b2) (\<lambda>_. b2) d2)"
    using assms
    by (clarsimp simp: update_binding_block_def hk_bind_Inr hk_get_Inr hk_check_Inr hk_read_Inr hk_do_Inr store_binding_Inr
        Let_def hk_value_Inr simp del: if_split_asm option.case_eq_if split del: if_split option.splits)
  have 1: "d1 = d \<and> ab_id b1 = ab_id b \<and> ab_enabled b1 = ab_enabled b \<and> ab_suspended_reason b1 = ab_suspended_reason b \<and> (\<not> ab_enabled b \<longrightarrow> b1 = b)"
    using removed by (auto simp: hk_bind_Inr hk_value_Inr split: if_splits option.splits dest: delete_binding_webhook_Inr)
  have 2: "d2 = d1 \<and> ab_id b2 = ab_id b1 \<and> ab_enabled b2 = ab_enabled b1 \<and> ab_suspended_reason b2 = ab_suspended_reason b1 \<and> (ab_enabled b \<longrightarrow> ab_webhook_id b2 \<noteq> None)
      \<and> (\<not> ab_enabled b \<longrightarrow> ab_webhook_id b2 = ab_webhook_id b1)"
    using made by (auto simp: hk_bind_Inr hk_value_Inr commanded_def split: if_splits dest: create_binding_webhook_same)
  from b 1 2 stored show ?thesis by auto
qed

datatype binding_op =
    CreateBinding binding_cmd
  | UpdateBinding uuid binding_cmd
  | EnableBinding uuid bool
  | DeleteAccount uuid

fun binding_step :: "accounts_env \<times> binding_op \<Rightarrow> db \<Rightarrow> db" where
  "binding_step (E, CreateBinding c) d = snd (create_binding E c d)"
| "binding_step (E, UpdateBinding bid c) d = snd (fst (update_binding E bid c d))"
| "binding_step (E, EnableBinding bid on) d = snd (fst (set_binding_enabled E bid on d))"
| "binding_step (E, DeleteAccount aid) d = snd (fst (delete_account E aid d))"

lemma binding_audit_ok: "bindings_ok d \<Longrightarrow> bindings_ok (binding_audit E a bid s d)"
  by (erule bindings_ok_same) (simp_all add: binding_audit_def system_audit_def)

lemma hk_session_cases:
  obtains (error) e cs where "m d = (Inl e, cs)" "hk_session m d = ((Inl e, d), cs)"
  | (ok) x d1 cs where "m d = (Inr (x, d1), cs)" "hk_session m d = ((Inr x, d1), cs)"
  by (cases "m d"; cases "fst (m d)") (auto simp: hk_session_def session_def)

lemma create_binding_ok:
  assumes ok: "bindings_ok d"
  shows "bindings_ok (snd (create_binding E c d))"
proof (cases "settings_codec (xa_fernet E) (xa_settings E)")
  case (Inr k)
  show ?thesis
  proof (cases "create_binding_block E k c d")
    case (Inr z)
    obtain b d' where block: "create_binding_block E k c d = Inr (b, d')" using Inr by (cases z) simp
    have fresh: "same_resource b d \<longleftrightarrow> resource_key b \<in> resource_key ` set (apify_actor_bindings d)" if "ab_id b = fresh_id d" for b
    proof -
      have "\<forall>x\<in>set (apify_actor_bindings d). ab_id x \<noteq> ab_id b" using ok that by (auto simp: bindings_ok_def)
      then show ?thesis unfolding same_resource_iff image_iff by metis
    qed
    have b: "ab_id b = fresh_id d" "\<not> ab_enabled b" "ab_webhook_id b = None" "\<not> same_resource b d"
      and d': "\<exists>s. d' = binding_audit E ''apify.binding.create'' (ab_id b) s
                 (d\<lparr>apify_actor_bindings := apify_actor_bindings d @ [b], fresh_id := Suc (fresh_id d)\<rparr>)"
      using block by (auto simp: create_binding_block_def Let_def commanded_def blank_binding_def same_resource_def list_ex_iff
          split: option.splits sum.splits prod.splits if_splits)
    have "bindings_ok (d\<lparr>apify_actor_bindings := apify_actor_bindings d @ [b], fresh_id := Suc (fresh_id d)\<rparr>)"
      using ok b fresh [OF b(1)] by (auto simp: bindings_ok_def less_Suc_eq)
    with d' Inr \<open>settings_codec _ _ = Inr k\<close> block show ?thesis
      by (auto simp: create_binding_def session_def binding_audit_ok)
  qed (simp add: create_binding_def \<open>settings_codec _ _ = Inr k\<close> session_def ok)
qed (simp add: create_binding_def ok)

lemma rewritten_ok:
  assumes "bindings_ok d" "get_binding bid d = Some b" "ab_id r = ab_id b" "ab_enabled r \<longleftrightarrow> ab_webhook_id r \<noteq> None"
    "\<not> same_resource r d"
  shows "bindings_ok (set_binding (ab_id r) (\<lambda>_. r) d)"
proof -
  have "ab_id b = bid" using assms(2) by (auto simp: get_binding_def dest: find_row_SomeD)
  with assms show ?thesis by (intro bindings_ok_set) simp_all
qed

lemma update_binding_ok:
  assumes ok: "bindings_ok d"
  shows "bindings_ok (snd (fst (update_binding E bid c d)))"
proof (cases "settings_codec (xa_fernet E) (xa_settings E)")
  case (Inr k)
  show ?thesis
  proof (cases rule: hk_session_cases [of "update_binding_block E k bid c" d])
    case (ok b' d' cs)
    from update_binding_Inr [OF ok(1)] obtain b where b: "get_binding bid d = Some b" "ab_id b' = ab_id b"
        "ab_enabled b' = ab_enabled b" "ab_enabled b \<longrightarrow> ab_webhook_id b' \<noteq> None"
        "\<not> ab_enabled b \<longrightarrow> ab_webhook_id b' = ab_webhook_id b" "\<not> same_resource b' d"
        "d' = binding_audit E ''apify.binding.update'' bid None (set_binding (ab_id b') (\<lambda>_. b') d)" by blast
    have "b \<in> set (apify_actor_bindings d)" using b(1) by (auto simp: get_binding_def dest: find_row_SomeD)
    then have "ab_enabled b' \<longleftrightarrow> ab_webhook_id b' \<noteq> None" using b assms by (auto simp: bindings_ok_def)
    then have "bindings_ok d'" unfolding b(7) by (intro binding_audit_ok rewritten_ok [OF assms b(1,2)] b(6))
    with ok Inr show ?thesis by (simp add: update_binding_def)
  qed (simp add: update_binding_def Inr assms)
qed (simp add: update_binding_def ok)

lemma set_enabled_ok:
  assumes "bindings_ok d"
  shows "bindings_ok (snd (fst (set_binding_enabled E bid on d)))"
proof (cases rule: hk_session_cases [of "set_enabled_block E bid on" d])
  case (ok b' d' cs)
  from ok(1) have "bindings_ok d'"
  proof (cases rule: set_enabled_Inr)
    case (switched b account)
    from switch_binding_Inr [OF switched(4)] have "ab_id b' = ab_id b" "ab_enabled b' \<longleftrightarrow> ab_webhook_id b' \<noteq> None" by auto
    then show ?thesis unfolding switched(6) by (intro binding_audit_ok rewritten_ok [OF assms switched(1)] switched(5))
  qed (use assms in simp)
  with ok show ?thesis by (simp add: set_binding_enabled_def)
qed (simp add: set_binding_enabled_def assms)
lemma hooks_block_same: "hooks_block k aid d = Inr (x, d1) \<Longrightarrow> d1 = d"
  by (auto simp: hooks_block_def split: option.splits sum.splits)

lemma cascade_ok: "bindings_ok d \<Longrightarrow> bindings_ok (cascade_account aid d)"
  by (auto simp: bindings_ok_def cascade_account_def Let_def distinct_map_filter)

lemma delete_account_ok:
  assumes "bindings_ok d"
  shows "bindings_ok (snd (fst (delete_account E aid d)))"
proof -
  have failed: "bindings_ok d1" if "delete_failed E aid e d = Inr (u, d1)" for e u d1
    using assms that by (auto simp: delete_failed_def)
      (erule bindings_ok_same; simp add: account_audit_def system_audit_def set_apify_account_def)
  have audited: "bindings_ok (account_audit E a aid s r d)" for a s r
    using assms by (rule bindings_ok_same) (simp_all add: account_audit_def system_audit_def)
  have row: "bindings_ok d1" if "delete_row E aid d = Inr (u, d1)" for u d1
    using assms that audited by (auto simp: delete_row_def cascade_ok)
  have same: "d1 = d" if "hooks_block k aid d = Inr (x, d1)" for k x d1 using that by (rule hooks_block_same)
  show ?thesis
    using failed row assms by (auto simp: delete_account_def session_def split: sum.splits prod.splits option.splits dest!: same)
qed

text \<open>
  C20. Over every history of creating, changing, enabling and disabling bindings and of deleting accounts,
  with any answers of Apify and any refusals on the way, a binding is enabled exactly when it holds a
  webhook, two bindings are never about the same resource of an account, and the identifiers stay unique.
\<close>

theorem bindings_keep_webhooks:
  assumes "bindings_ok d"
  shows "bindings_ok (fold binding_step ops d)"
  using assms
proof (induction ops arbitrary: d)
  case (Cons op ops)
  have "bindings_ok (binding_step op d)"
    by (cases op; cases "snd op") (simp_all add: Cons.prems create_binding_ok update_binding_ok set_enabled_ok delete_account_ok)
  with Cons show ?case by simp
qed simp

lemma find_replaced: "find_row P t = Some b \<Longrightarrow> P r \<Longrightarrow> find_row P (update_where P (\<lambda>_. r) t) = Some r"
  by (induction t) (auto split: if_splits)

text \<open>
  C28. A binding is enabled only when everything it needs is there: its account is active, its campaign is
  running, its sector is an active one of its workspace and its resource is in the catalogue that Apify
  gives for the token. Exactly one call is made, which asks for a webhook at the address of the account
  with the secret of the account, and the row takes the identifier of the reply.
\<close>

theorem enabled_binding_checked:
  assumes "set_binding_enabled E bid True d = ((Inr b', d'), cs)" "get_binding bid d = Some b" "\<not> ab_enabled b"
  shows "\<exists>account token secret catalog reply.
      get_apify_account (ab_account_id b) d = Some account \<and> aa_status account = ''active''
    \<and> (\<exists>c\<in>set (campaigns d). ab_campaign_id b = Some (ca_id c) \<and> ca_status c = C_RUNNING)
    \<and> (\<exists>s\<in>set (sectors d). ab_sector_id b' = Some (sec_id s) \<and> sec_workspace_id s = ab_workspace_id b \<and> sec_status s = SECTOR_ACTIF)
    \<and> remote_catalog E account = Inr catalog \<and> in_catalog b catalog
    \<and> open_secret (xa_fernet E) (xa_settings E) (aa_token_ciphertext account) = Inr token
    \<and> open_secret (xa_fernet E) (xa_settings E) (aa_webhook_secret_ciphertext account) = Inr secret
    \<and> cs = [HookCreate token (ab_resource_type b) (ab_resource_id b)
               (rstrip_slash (apify_webhook_base_url (xa_settings E)) @ ''/webhooks/apify/'' @ str_uuid (aa_id account)) secret]
    \<and> xa_create E (hd cs) = Inr reply \<and> ab_webhook_id b' = map_option (json_str (xa_text E)) (dict_get reply ''id'')
    \<and> ab_enabled b' \<and> get_binding bid d' = Some b'"
proof -
  have block: "set_enabled_block E bid True d = (Inr (b', d'), cs)"
    using assms(1) by (cases rule: hk_session_cases [of "set_enabled_block E bid True" d]) (simp_all add: set_binding_enabled_def)
  then show ?thesis
  proof (cases rule: set_enabled_Inr)
    case (switched b2 account)
    with assms(2) have b2: "b2 = b" by simp
    from switched(4) obtain v sid h where v: "validate_binding_activation E b d = Inr (v, sid)"
      and w: "create_binding_webhook E v (b\<lparr>ab_sector_id := sid\<rparr>) d = (Inr (h, d), cs)"
      and b': "b' = b\<lparr>ab_sector_id := sid, ab_webhook_id := Some h, ab_enabled := True\<rparr>"
      unfolding b2 switch_on_iff by blast
    note checked = validated [OF v]
    from w obtain token secret reply where
      t: "open_secret (xa_fernet E) (xa_settings E) (aa_token_ciphertext v) = Inr token"
        "open_secret (xa_fernet E) (xa_settings E) (aa_webhook_secret_ciphertext v) = Inr secret"
      and c: "cs = [HookCreate token (ab_resource_type (b\<lparr>ab_sector_id := sid\<rparr>)) (ab_resource_id (b\<lparr>ab_sector_id := sid\<rparr>))
             (rstrip_slash (apify_webhook_base_url (xa_settings E)) @ ''/webhooks/apify/'' @ str_uuid (aa_id v)) secret]"
      and r: "xa_create E (hd cs) = Inr reply" "dict_get reply ''id'' \<noteq> None" "h = json_str (xa_text E) (the (dict_get reply ''id''))"
      by (rule create_binding_webhook_Inr)
    have id: "ab_id b = bid" using assms(2) by (auto simp: get_binding_def dest: find_row_SomeD)
    have stored: "get_binding bid d' = Some b'"
      using assms(2) id unfolding switched(6)
      by (simp add: b' get_binding_def binding_audit_def system_audit_def set_binding_def find_replaced)
    obtain catalog where cat: "remote_catalog E v = Inr catalog" "in_catalog b catalog" using checked(5) by blast
    have hook: "ab_webhook_id b' = map_option (json_str (xa_text E)) (dict_get reply ''id'')"
      using r(2,3) b' by auto
    from checked(3) have camp: "\<exists>c\<in>set (campaigns d). ab_campaign_id b = Some (ca_id c) \<and> ca_status c = C_RUNNING" by blast
    from checked(4) have sec: "\<exists>s\<in>set (sectors d). ab_sector_id b' = Some (sec_id s) \<and> sec_workspace_id s = ab_workspace_id b \<and> sec_status s = SECTOR_ACTIF"
      by (simp add: b')
    have on: "ab_enabled b'" by (simp add: b')
    have call: "cs = [HookCreate token (ab_resource_type b) (ab_resource_id b)
             (rstrip_slash (apify_webhook_base_url (xa_settings E)) @ ''/webhooks/apify/'' @ str_uuid (aa_id v)) secret]"
      using c by simp
    show ?thesis
      by (intro exI conjI) (fact checked(1) checked(2) camp sec cat t call r(1) hook on stored)+
  qed (use assms in simp)
qed

text \<open>
  C39. Changing an enabled binding deletes its webhook at Apify before it checks the change. When a check
  fails, the session is rolled back: the row keeps the webhook that is gone, the binding stays enabled, and
  enabling it again reports success without a call, so that no run of it is announced any more.
\<close>

theorem failed_update_loses_hook:
  assumes codec: "settings_codec (xa_fernet E) (xa_settings E) = Inr k"
    and b: "get_binding bid d = Some b" "ab_enabled b" "ab_webhook_id b = Some h" "h \<noteq> []"
    and old: "get_apify_account (ab_account_id b) d = Some old"
      "open_secret (xa_fernet E) (xa_settings E) (aa_token_ciphertext old) = Inr token" "xa_delete E token h = Inr ()"
    and refused: "case get_apify_account (bc_account c) d of
        None \<Rightarrow> True
      | Some a \<Rightarrow> aa_workspace_id a \<noteq> ab_workspace_id b
               \<or> is_error (validate_binding_activation E (commanded E k c (b\<lparr>ab_webhook_id := None\<rparr>)) d)"
  shows "(\<exists>e. update_binding E bid c d = ((Inl e, d), [HookDelete token h]))
    \<and> set_binding_enabled E' bid True d = ((Inr b, d), [])"
proof (rule conjI)
  have del: "delete_binding_webhook E old h d = (Inr ((), d), [HookDelete token h])"
    by (simp add: delete_binding_webhook_def hk_defs old)
  have "\<exists>e. update_binding_block E k bid c d = (Inl e, [HookDelete token h])"
  proof (cases "get_apify_account (bc_account c) d")
    case None
    then show ?thesis
      by (simp add: update_binding_block_def hk_bind_def hk_get_def hk_pure_def hk_value_def b old del)
  next
    case (Some a)
    show ?thesis
    proof (cases "aa_workspace_id a = ab_workspace_id b")
      case True
      then obtain e where "validate_binding_activation E (commanded E k c (b\<lparr>ab_webhook_id := None\<rparr>)) d = Inl e"
        using refused Some by (auto simp: is_error_def split: sum.splits)
      with Some True show ?thesis
        by (simp add: update_binding_block_def hk_bind_def hk_get_def hk_pure_def hk_value_def hk_check_def hk_read_def b old del)
    next
      case False
      with Some show ?thesis
        by (simp add: update_binding_block_def hk_bind_def hk_get_def hk_pure_def hk_value_def hk_check_def b old del)
    qed
  qed
  then show "\<exists>e. update_binding E bid c d = ((Inl e, d), [HookDelete token h])"
    by (auto simp: update_binding_def codec hk_session_def session_def)
  show "set_binding_enabled E' bid True d = ((Inr b, d), [])"
    by (simp add: set_binding_enabled_def set_enabled_block_def hk_session_def session_def hk_bind_def hk_get_def hk_pure_def
        hk_value_def b)
qed
section \<open>Witnesses\<close>

definition demo_hooks :: accounts_env where
  "demo_hooks = \<lparr>xa_settings = default_settings\<lparr>apify_token_encryption_key := ''k'', apify_webhook_base_url := ''https://x/''\<rparr>,
     xa_fernet = \<lparr>fe_key_ok = (\<lambda>k. True), fe_encrypt = (\<lambda>k n t. t), fe_decrypt = (\<lambda>k t. Some t)\<rparr>,
     xa_text = (\<lambda>_. ''?''), xa_float = (\<lambda>_. ''0''), xa_now = 0, xa_nonce = 0, xa_secret = ''sec'',
     xa_identity = (\<lambda>_. Inr [(''id'', JStr ''u'')]), xa_actors = (\<lambda>_. Inr [[(''id'', JStr ''a1'')]]), xa_tasks = (\<lambda>_. Inr []),
     xa_delete = (\<lambda>_ _. Inr ()), xa_create = (\<lambda>_. Inr [(''id'', JStr ''h1'')])\<rparr>"

definition demo_command :: "string \<Rightarrow> binding_cmd" where
  "demo_command resource = \<lparr>bc_account = 1, bc_type = ''actor'', bc_resource = resource, bc_name = None, bc_sector = Some 7,
     bc_campaign = 5, bc_input = [], bc_authority = ''internal'', bc_minutes = Some 60\<rparr>"

definition demo_hook_db :: db where
  "demo_hook_db = empty_db\<lparr>
     apify_accounts := [\<lparr>aa_id = 1, aa_workspace_id = 9, aa_label = ''main'', aa_apify_user_id = ''u'', aa_username = ''u'',
       aa_token_ciphertext = ''tok'', aa_token_fingerprint = ''f'', aa_webhook_secret_ciphertext = ''sec'',
       aa_webhook_secret_hash = ''h'', aa_status = ''active'', aa_last_checked_at = None, aa_last_error = None,
       aa_created_at = 0, aa_updated_at = 0\<rparr>],
     campaigns := [\<lparr>ca_id = 5, ca_type = ''sms'', ca_message_template = [], ca_quota_per_sim = 15,
       ca_search_criteria = [], ca_status = C_RUNNING, ca_sent = 0, ca_failed = 0, ca_scheduled_at = None,
       ca_last_error = None, ca_created_at = 0\<rparr>],
     sectors := [\<lparr>sec_id = 7, sec_workspace_id = 9, sec_name = ''Nord'', sec_source = ''la_centrale'', sec_region = ''HDF'',
       sec_department = ''59'', sec_radius_km = 0, sec_brand_model = None, sec_mileage_max = None, sec_price_min = None,
       sec_price_max = None, sec_frequency_minutes = 60, sec_schedule_start = ''06:00'', sec_schedule_end = ''22:00'',
       sec_daily_volume = 50, sec_status = SECTOR_ACTIF, sec_created_at = 0\<rparr>],
     fresh_id := 10\<rparr>"

definition demo_hook_row :: "bool \<Rightarrow> string option \<Rightarrow> apify_actor_binding" where
  "demo_hook_row on h = \<lparr>ab_id = 10, ab_workspace_id = 9, ab_account_id = 1, ab_sector_id = Some 7, ab_campaign_id = Some 5,
     ab_resource_type = ''actor'', ab_resource_id = ''a1'', ab_name = ''a1'', ab_input_ciphertext = ''{}'', ab_enabled = on,
     ab_schedule_authority = ''internal'', ab_schedule_minutes = Some 60, ab_next_run_at = Some (minutes 60),
     ab_webhook_id = h, ab_schema_fingerprint = None, ab_active_profile_id = None, ab_suspended_reason = None,
     ab_created_at = 0, ab_updated_at = 0\<rparr>"

definition demo_bound :: "bool \<Rightarrow> string option \<Rightarrow> db" where
  "demo_bound on h = demo_hook_db\<lparr>apify_actor_bindings := [demo_hook_row on h], fresh_id := 11\<rparr>"

lemma demo_hook_tables [simp]:
  "apify_actor_bindings demo_hook_db = []" "apify_actor_bindings (demo_bound on h) = [demo_hook_row on h]"
  "apify_accounts (demo_bound on h) = apify_accounts demo_hook_db" "sectors (demo_bound on h) = sectors demo_hook_db"
  "campaigns (demo_bound on h) = campaigns demo_hook_db" "fresh_id demo_hook_db = 10"
  by (simp_all add: demo_bound_def demo_hook_db_def empty_db_def)

lemma demo_input: "ascii_json (compact_dumps (xa_float demo_hooks) (JObj [])) = ''{}''"
  by code_simp

lemma demo_hook_codec: "settings_codec (xa_fernet demo_hooks) (xa_settings demo_hooks)
    = Inr \<lparr>sc_fernet = xa_fernet demo_hooks, sc_key = ''k'', sc_fingerprint_key = secret_key default_settings\<rparr>"
  by (simp add: settings_codec_def apify_codec_def demo_hooks_def)

lemma demo_open: "open_secret (xa_fernet demo_hooks) (xa_settings demo_hooks) text = Inr text"
  unfolding open_secret_def demo_hook_codec by (simp add: decrypt_secret_def demo_hooks_def)

definition demo_catalog :: "catalog_entry list" where
  "demo_catalog = [\<lparr>ce_type = RES_ACTOR, ce_resource = ''a1'', ce_name = ''a1'', ce_description = JNull, ce_modified = JNull\<rparr>]"

lemma demo_remote: "remote_catalog demo_hooks a = Inr demo_catalog"
proof -
  have "outputs (catalog_resource demo_hooks RES_ACTOR) [[(''id'', JStr ''a1'')]] = Inr demo_catalog" by code_simp
  then show ?thesis unfolding remote_catalog_def demo_open by (simp add: demo_hooks_def)
qed

lemma demo_validated:
  assumes "ab_account_id b = 1" "ab_campaign_id b = Some 5" "ab_sector_id b = Some 7" "ab_workspace_id b = 9"
    "ab_schedule_authority b = ''internal''" "ab_schedule_minutes b = Some m" "ab_resource_type b = ''actor''"
    "apify_accounts d = apify_accounts demo_hook_db" "campaigns d = campaigns demo_hook_db" "sectors d = sectors demo_hook_db"
  shows "validate_binding_activation demo_hooks b d =
     (if ab_resource_id b = ''a1'' then Inr (hd (apify_accounts demo_hook_db), Some 7) else Inl (ValueError ''resource_not_in_catalog''))"
proof -
  let ?a = "hd (apify_accounts demo_hook_db)" and ?c = "hd (campaigns demo_hook_db)"
  have a: "get_apify_account (ab_account_id b) d = Some ?a" "aa_status ?a = ''active''"
    using assms by (simp_all add: get_apify_account_def) (simp_all add: demo_hook_db_def)
  have c: "find_row (\<lambda>c. ca_id c = 5) (campaigns d) = Some ?c" "ca_status ?c = C_RUNNING"
    using assms by (simp_all add: demo_hook_db_def)
  have s: "resolve_sector demo_hooks b ?c d = Inr (Some 7)"
    using assms by (simp add: resolve_sector_def) (simp add: demo_hook_db_def)
  have v: "valid_authority b" using assms by (simp add: valid_authority_def)
  have i: "in_catalog b demo_catalog \<longleftrightarrow> ab_resource_id b = ''a1''"
    using assms(7) by (auto simp: in_catalog_def demo_catalog_def)
  show ?thesis by (simp add: validate_binding_activation_def a assms(2) c s v demo_remote i)
qed

lemma demo_webhook:
  assumes "ab_resource_type b = ''actor''" "ab_resource_id b = ''a1''"
  shows "create_binding_webhook demo_hooks (hd (apify_accounts demo_hook_db)) b d
    = (Inr (''h1'', d), [HookCreate ''tok'' ''actor'' ''a1'' (''https://x/webhooks/apify/'' @ str_uuid 1) ''sec''])"
proof -
  have u: "apify_webhook_base_url (xa_settings demo_hooks) = ''https://x/''" "rstrip_slash ''https://x/'' = ''https://x''"
    "xa_create demo_hooks c = Inr [(''id'', JStr ''h1'')]" for c
    by (simp_all add: demo_hooks_def rstrip_slash_def)
  have a: "aa_token_ciphertext (hd (apify_accounts demo_hook_db)) = ''tok''"
    "aa_webhook_secret_ciphertext (hd (apify_accounts demo_hook_db)) = ''sec''" "aa_id (hd (apify_accounts demo_hook_db)) = 1"
    by (simp_all add: demo_hook_db_def)
  show ?thesis
    unfolding create_binding_webhook_def u demo_open a Let_def
    by (simp add: hk_defs u dict_get_def json_str_def assms)
qed

lemma demo_create: "\<exists>s. binding_step (demo_hooks, CreateBinding (demo_command ''a1'')) demo_hook_db
    = binding_audit demo_hooks ''apify.binding.create'' 10 s (demo_bound False None)"
proof -
  let ?a = "hd (apify_accounts demo_hook_db)"
  let ?k = "\<lparr>sc_fernet = xa_fernet demo_hooks, sc_key = ''k'', sc_fingerprint_key = secret_key default_settings\<rparr>"
  have acc: "get_apify_account 1 demo_hook_db = Some ?a" "aa_workspace_id ?a = 9" "aa_id ?a = 1"
    by (simp_all add: get_apify_account_def demo_hook_db_def)
  have enc: "encrypt_secret ?k n t = t" for n t by (simp add: encrypt_secret_def demo_hooks_def)
  have row: "commanded demo_hooks ?k (demo_command ''a1'') (blank_binding demo_hooks ?a demo_hook_db) = demo_hook_row False None"
    by (simp add: commanded_def blank_binding_def demo_hook_row_def demo_command_def enc demo_input acc named_def scheduled_from_def)
      (simp add: demo_hooks_def)
  have v: "validate_binding_activation demo_hooks (demo_hook_row False None) demo_hook_db = Inr (?a, Some 7)"
    by (subst demo_validated) (simp_all add: demo_hook_row_def)
  have bc: "bc_account (demo_command ''a1'') = 1" by (simp add: demo_command_def)
  have "(demo_hook_row False None)\<lparr>ab_sector_id := Some 7\<rparr> = demo_hook_row False None" by (simp add: demo_hook_row_def)
  then have "create_binding_block demo_hooks ?k (demo_command ''a1'') demo_hook_db
      = Inr (demo_hook_row False None, binding_audit demo_hooks ''apify.binding.create'' (ab_id (demo_hook_row False None))
           (Some [(''resource_type'', JStr (ab_resource_type (demo_hook_row False None))), (''resource_id'', JStr (ab_resource_id (demo_hook_row False None)))])
           (demo_hook_db\<lparr>apify_actor_bindings := [demo_hook_row False None], fresh_id := 11\<rparr>))"
    by (simp add: create_binding_block_def bc acc row v Let_def same_resource_def del: One_nat_def)
  then show ?thesis
    by (auto simp: create_binding_def demo_hook_codec session_def demo_bound_def demo_hook_row_def)
qed

lemma demo_switched:
  "\<exists>d'. set_binding_enabled demo_hooks 10 True (demo_bound False None)
      = ((Inr (demo_hook_row True (Some ''h1'')), d'), [HookCreate ''tok'' ''actor'' ''a1'' (''https://x/webhooks/apify/'' @ str_uuid 1) ''sec''])"
proof -
  let ?d = "demo_bound False None" and ?b = "demo_hook_row False None"
  let ?cs = "[HookCreate ''tok'' ''actor'' ''a1'' (''https://x/webhooks/apify/'' @ str_uuid 1) ''sec'']"
  have b: "get_binding 10 ?d = Some ?b" "ab_account_id ?b = 1" "\<not> ab_enabled ?b" by (simp_all add: get_binding_def demo_hook_row_def)
  have a: "get_apify_account 1 ?d = Some (hd (apify_accounts demo_hook_db))"
    by (simp add: get_apify_account_def) (simp add: demo_hook_db_def)
  have v: "validate_binding_activation demo_hooks ?b ?d = Inr (hd (apify_accounts demo_hook_db), Some 7)"
    by (subst demo_validated) (simp_all add: demo_hook_row_def)
  have w: "create_binding_webhook demo_hooks (hd (apify_accounts demo_hook_db)) (?b\<lparr>ab_sector_id := Some 7\<rparr>) ?d = (Inr (''h1'', ?d), ?cs)"
    by (rule demo_webhook) (simp_all add: demo_hook_row_def)
  have "switch_binding demo_hooks True (hd (apify_accounts demo_hook_db)) ?b ?d
      = (Inr (?b\<lparr>ab_sector_id := Some 7, ab_webhook_id := Some ''h1'', ab_enabled := True\<rparr>, ?d), ?cs)"
    using v w by (simp add: switch_on_iff)
  moreover have "?b\<lparr>ab_sector_id := Some 7, ab_webhook_id := Some ''h1'', ab_enabled := True\<rparr> = demo_hook_row True (Some ''h1'')"
    by (simp add: demo_hook_row_def)
  moreover have "\<not> same_resource (demo_hook_row True (Some ''h1'')) ?d" by (simp add: same_resource_def demo_hook_row_def)
  ultimately have "\<exists>d'. set_enabled_block demo_hooks 10 True ?d = (Inr (demo_hook_row True (Some ''h1''), d'), ?cs)"
    using b a by (simp add: set_enabled_block_def hk_bind_def hk_get_def hk_pure_def hk_value_def hk_do_def store_binding_def)
  then show ?thesis by (auto simp: set_binding_enabled_def hk_session_def session_def)
qed

lemma bindings_keep_webhooks_witness:
  "bindings_ok (fold binding_step [(demo_hooks, EnableBinding 10 True), (demo_hooks, UpdateBinding 10 (demo_command ''gone''))]
       (demo_bound False None))
   \<and> (\<exists>s. binding_step (demo_hooks, CreateBinding (demo_command ''a1'')) demo_hook_db
           = binding_audit demo_hooks ''apify.binding.create'' 10 s (demo_bound False None))"
proof (rule conjI [OF _ demo_create])
  have "bindings_ok (demo_bound False None)" by (simp add: bindings_ok_def demo_hook_row_def demo_bound_def)
  then show "bindings_ok (fold binding_step [(demo_hooks, EnableBinding 10 True), (demo_hooks, UpdateBinding 10 (demo_command ''gone''))]
       (demo_bound False None))" by (rule bindings_keep_webhooks)
qed

lemma enabled_binding_checked_witness:
  "\<exists>b' d'. set_binding_enabled demo_hooks 10 True (demo_bound False None)
       = ((Inr b', d'), [HookCreate ''tok'' ''actor'' ''a1'' (''https://x/webhooks/apify/'' @ str_uuid 1) ''sec''])
     \<and> ab_enabled b' \<and> get_binding 10 d' = Some b' \<and> ab_webhook_id b' = Some ''h1''"
proof -
  obtain d' where run: "set_binding_enabled demo_hooks 10 True (demo_bound False None)
      = ((Inr (demo_hook_row True (Some ''h1'')), d'), [HookCreate ''tok'' ''actor'' ''a1'' (''https://x/webhooks/apify/'' @ str_uuid 1) ''sec''])"
    using demo_switched by blast
  have b: "get_binding 10 (demo_bound False None) = Some (demo_hook_row False None)" "\<not> ab_enabled (demo_hook_row False None)"
    by (simp_all add: get_binding_def demo_hook_row_def)
  from enabled_binding_checked [OF run b] have "ab_enabled (demo_hook_row True (Some ''h1''))" "get_binding 10 d' = Some (demo_hook_row True (Some ''h1''))"
    by blast+
  moreover have "ab_webhook_id (demo_hook_row True (Some ''h1'')) = Some ''h1''" by (simp add: demo_hook_row_def)
  ultimately show ?thesis using run by blast
qed

lemma failed_update_loses_hook_witness:
  "\<exists>e b. update_binding demo_hooks 10 (demo_command ''gone'') (demo_bound True (Some ''h1''))
       = ((Inl e, demo_bound True (Some ''h1'')), [HookDelete ''tok'' ''h1''])
     \<and> set_binding_enabled demo_hooks 10 True (demo_bound True (Some ''h1'')) = ((Inr b, demo_bound True (Some ''h1'')), [])"
proof -
  let ?d = "demo_bound True (Some ''h1'')" and ?b = "demo_hook_row True (Some ''h1'')" and ?a = "hd (apify_accounts demo_hook_db)"
  let ?k = "\<lparr>sc_fernet = xa_fernet demo_hooks, sc_key = ''k'', sc_fingerprint_key = secret_key default_settings\<rparr>"
  have b: "get_binding 10 ?d = Some ?b" "ab_enabled ?b" "ab_webhook_id ?b = Some ''h1''" "''h1'' \<noteq> []"
    by (simp_all add: get_binding_def demo_hook_row_def)
  have acc: "get_apify_account 1 ?d = Some ?a" "aa_token_ciphertext ?a = ''tok''" "aa_workspace_id ?a = 9"
    by (simp_all add: get_apify_account_def) (simp_all add: demo_hook_db_def)
  have a: "get_apify_account (ab_account_id ?b) ?d = Some ?a"
    "open_secret (xa_fernet demo_hooks) (xa_settings demo_hooks) (aa_token_ciphertext ?a) = Inr ''tok''"
    "xa_delete demo_hooks ''tok'' ''h1'' = Inr ()"
    using acc demo_open by (simp_all add: demo_hook_row_def) (simp add: demo_hooks_def)
  have c: "bc_account (demo_command ''gone'') = 1" by (simp add: demo_command_def)
  have "validate_binding_activation demo_hooks (commanded demo_hooks ?k (demo_command ''gone'') (?b\<lparr>ab_webhook_id := None\<rparr>)) ?d
      = Inl (ValueError ''resource_not_in_catalog'')"
    by (subst demo_validated) (simp_all add: commanded_def demo_command_def demo_hook_row_def)
  then have refused: "case get_apify_account (bc_account (demo_command ''gone'')) ?d of
        None \<Rightarrow> True
      | Some a \<Rightarrow> aa_workspace_id a \<noteq> ab_workspace_id ?b
               \<or> is_error (validate_binding_activation demo_hooks (commanded demo_hooks ?k (demo_command ''gone'') (?b\<lparr>ab_webhook_id := None\<rparr>)) ?d)"
    unfolding c acc by simp
  from failed_update_loses_hook [OF demo_hook_codec b a refused, of demo_hooks] show ?thesis by blast
qed

end
