(* ===== verification/Apify_Lead.thy ===== *)
theory Apify_Lead
  imports Phone_Extractor Commands Config
begin

text \<open>
  The normalisation of an Apify dataset item into a lead (\<open>apify_normalizer.py\<close>): the payload is
  flattened to its leaves with a stack, every leaf is a candidate for the fields its path names, the
  candidates are scored, and a number is taken only when no other number comes close. A payload is
  decoded JSON, a tree, so the identity set of the source never holds a value met before. The
  phonenumbers package and \<open>str()\<close> of a value that is no text are parameters (\<open>lead_lib\<close>), and so is
  the answer of the model asked by the fallback.
\<close>

record lead_lib =
  ll_phone :: phone_lib
  ll_text :: "json \<Rightarrow> string"

section \<open>The leaves of a payload\<close>

definition key_path :: "string \<Rightarrow> string \<Rightarrow> string" where
  "key_path path k = (if path \<noteq> [] then path @ ''.'' @ k else k)"

definition index_path :: "string \<Rightarrow> nat \<Rightarrow> string" where
  \<comment> \<open>the two branches of the source give the same text\<close>
  "index_path path i = path @ ''['' @ str_nat i @ '']''"

definition record_leaf :: "string \<Rightarrow> json \<Rightarrow> (string, json) dict \<Rightarrow> (string, json) dict" where
  "record_leaf path v acc = (if path \<noteq> [] then dict_set path v acc else acc)"

fun nodes :: "json \<Rightarrow> nat" where
  "nodes (JObj kvs) = Suc (sum_list (map (nodes \<circ> snd) kvs))"
| "nodes (JList vs) = Suc (sum_list (map nodes vs))"
| "nodes v = 1"

lemma nodes_pos [simp]: "0 < nodes v"
  by (cases v) simp_all

definition push_items :: "string \<Rightarrow> nat \<Rightarrow> (string \<times> json) list \<Rightarrow> (string \<times> json \<times> nat) list
    \<Rightarrow> (string \<times> json \<times> nat) list" where
  \<comment> \<open>the items are pushed in reverse; the top of the stack is the head of the list\<close>
  "push_items path depth kvs stack =
     fold (\<lambda>(k, c) st. (key_path path k, c, depth + 1) # st) (rev kvs) stack"

definition push_elements :: "string \<Rightarrow> nat \<Rightarrow> json list \<Rightarrow> (string \<times> json \<times> nat) list
    \<Rightarrow> (string \<times> json \<times> nat) list" where
  "push_elements path depth vs stack =
     fold (\<lambda>(i, c) st. (index_path path i, c, depth + 1) # st) (rev (List.enumerate 0 vs)) stack"

lemma push_items_eq: "push_items path depth kvs stack =
    map (\<lambda>(k, c). (key_path path k, c, depth + 1)) kvs @ stack"
  unfolding push_items_def by (induction kvs) auto

lemma fold_push: "fold (\<lambda>(i, c) st. f i c # st) (rev xs) stack = map (\<lambda>(i, c). f i c) xs @ stack"
  by (induction xs) auto

lemma push_elements_eq: "push_elements path depth vs stack =
    map (\<lambda>(i, c). (index_path path i, c, depth + 1)) (List.enumerate 0 vs) @ stack"
  unfolding push_elements_def by (simp add: fold_push)

definition stack_nodes :: "(string \<times> json \<times> nat) list \<Rightarrow> nat" where
  "stack_nodes stack = sum_list (map (\<lambda>(_, v, _). nodes v) stack)"

lemma stack_nodes_simps [simp]:
  "stack_nodes [] = 0" "stack_nodes ((p, v, n) # stack) = nodes v + stack_nodes stack"
  "stack_nodes (s @ t) = stack_nodes s + stack_nodes t"
  by (simp_all add: stack_nodes_def)

lemma stack_nodes_items: "stack_nodes (push_items p n kvs stack) < nodes (JObj kvs) + stack_nodes stack"
proof -
  have "stack_nodes (map (\<lambda>(k, c). (key_path p k, c, n + 1)) kvs) = sum_list (map (nodes \<circ> snd) kvs)"
    by (induction kvs) auto
  then show ?thesis by (simp add: push_items_eq)
qed

lemma stack_nodes_elements: "stack_nodes (push_elements p n vs stack) < nodes (JList vs) + stack_nodes stack"
proof -
  have "stack_nodes (map (\<lambda>(i, c). (index_path p i, c, n + 1)) (List.enumerate m vs)) = sum_list (map nodes vs)" for m
    by (induction vs arbitrary: m) auto
  then show ?thesis by (simp add: push_elements_eq)
qed

function flatten_loop :: "(string \<times> json \<times> nat) list \<Rightarrow> (string, json) dict \<Rightarrow> (string, json) dict" where
  "flatten_loop [] acc = acc"
| "flatten_loop ((path, v, depth) # stack) acc =
     (if depth > 100 then flatten_loop stack (record_leaf path v acc)
      else (case v of
              JObj kvs \<Rightarrow> flatten_loop (push_items path depth kvs stack) acc
            | JList vs \<Rightarrow> flatten_loop (push_elements path depth vs stack) acc
            | _ \<Rightarrow> flatten_loop stack (record_leaf path v acc)))"
  by pat_completeness auto
termination
  by (relation "measure (stack_nodes \<circ> fst)")
    (use stack_nodes_items stack_nodes_elements in \<open>simp_all del: nodes.simps\<close>)

definition flatten_payload :: "json \<Rightarrow> (string, json) dict" where
  "flatten_payload payload = flatten_loop [([], payload, 0)] []"

text \<open>
  The reference: the leaves in document order, by recursion on the value. What is nested deeper than
  100 levels is a leaf.
\<close>

function leaves :: "string \<Rightarrow> nat \<Rightarrow> json \<Rightarrow> (string \<times> json) list" where
  "leaves path depth v =
     (if depth > 100 then [(path, v)]
      else (case v of
              JObj kvs \<Rightarrow> concat (map (\<lambda>(k, c). leaves (key_path path k) (depth + 1) c) kvs)
            | JList vs \<Rightarrow> concat (map (\<lambda>(i, c). leaves (index_path path i) (depth + 1) c) (List.enumerate 0 vs))
            | _ \<Rightarrow> [(path, v)]))"
  by pat_completeness auto
termination
proof (relation "measure (\<lambda>(_, depth, _). 101 - depth)")
qed auto

declare leaves.simps [simp del]

definition record_leaves :: "(string \<times> json) list \<Rightarrow> (string, json) dict \<Rightarrow> (string, json) dict" where
  "record_leaves ls acc = fold (\<lambda>(p, v). record_leaf p v) ls acc"

lemma record_leaves_append: "record_leaves (xs @ ys) acc = record_leaves ys (record_leaves xs acc)"
  by (simp add: record_leaves_def)

lemma record_leaves_Cons: "record_leaves ((p, v) # ls) acc = record_leaves ls (record_leaf p v acc)"
  by (simp add: record_leaves_def)

lemma record_leaves_Nil [simp]: "record_leaves [] acc = acc"
  by (simp add: record_leaves_def)

abbreviation stack_leaves :: "(string \<times> json \<times> nat) list \<Rightarrow> (string \<times> json) list" where
  "stack_leaves stack \<equiv> concat (map (\<lambda>(p, v, n). leaves p n v) stack)"

lemma stack_leaves_items: "stack_leaves (push_items p n kvs stack) =
    concat (map (\<lambda>(k, c). leaves (key_path p k) (n + 1) c) kvs) @ stack_leaves stack"
  by (simp add: push_items_eq case_prod_unfold comp_def)

lemma stack_leaves_elements: "stack_leaves (push_elements p n vs stack) =
    concat (map (\<lambda>(i, c). leaves (index_path p i) (n + 1) c) (List.enumerate 0 vs)) @ stack_leaves stack"
  by (simp add: push_elements_eq case_prod_unfold comp_def)

lemma flatten_loop_leaves: "flatten_loop stack acc = record_leaves (stack_leaves stack) acc"
proof (induction stack acc rule: flatten_loop.induct)
  case (1 acc)
  then show ?case by simp
next
  case (2 path v depth stack acc)
  show ?case
  proof (cases "depth > 100")
    case True
    with "2.IH"(1) show ?thesis
      by (simp add: leaves.simps [of path depth] record_leaves_append record_leaves_Cons)
  next
    case False
    with 2 show ?thesis
      by (cases v) (simp_all add: leaves.simps [of path depth] record_leaves_append record_leaves_Cons
          stack_leaves_items stack_leaves_elements)
  qed
qed

text \<open>
  C21. Flattening is what it is meant to be: the loop over the explicit stack gives, for every payload
  and whatever its nesting, the same dictionary as recording the leaves one after the other in document
  order, where a later leaf of the same path takes the place of the earlier one.
\<close>

theorem flatten_document_order:
  "flatten_payload v = fold (\<lambda>(p, x). record_leaf p x) (leaves [] 0 v) []"
  by (simp add: flatten_payload_def flatten_loop_leaves record_leaves_def)
section \<open>Paths and scores\<close>

definition path_tail :: "string \<Rightarrow> string" where
  \<comment> \<open>\<open>path.rsplit(".", 1)[-1]\<close>\<close>
  "path_tail path = rev (takeWhile (\<lambda>c. c \<noteq> CHR ''.'') (rev path))"

definition path_parent :: "string \<Rightarrow> string" where
  \<comment> \<open>\<open>path.rsplit(".", 1)[0].lower() if "." in path else ""\<close>\<close>
  "path_parent path =
     (if CHR ''.'' \<in> set path then lower (rev (drop 1 (dropWhile (\<lambda>c. c \<noteq> CHR ''.'') (rev path)))) else [])"

definition key_char :: "char \<Rightarrow> bool" where
  "key_char c = (let n = code_point c in (48 \<le> n \<and> n \<le> 57) \<or> (97 \<le> n \<and> n \<le> 122))"

definition path_key :: "string \<Rightarrow> string" where
  "path_key path = filter key_char (lower (path_tail path))"

definition profile_mappings :: "(string, json) dict option \<Rightarrow> (string, string) dict" where
  \<comment> \<open>\<open>_profile_mappings\<close>; every caller passes \<open>None\<close> or a dictionary\<close>
  "profile_mappings profile =
     (case profile of
        None \<Rightarrow> []
      | Some p \<Rightarrow>
          (case get_json p ''mappings'' of
             JObj ms \<Rightarrow> concat (map (\<lambda>(f, v). case v of JStr path \<Rightarrow> [(f, path)] | _ \<Rightarrow> []) ms)
           | _ \<Rightarrow> []))"

text \<open>
  The paths of a JSON schema that describe a contact: a loop over a stack again. The services always
  pass \<open>None\<close>.
\<close>

definition contact_marker :: "lead_lib \<Rightarrow> string \<Rightarrow> (string, json) dict \<Rightarrow> bool" where
  "contact_marker L name node =
     (let description = lower (json_str (ll_text L) (json_or (get_json node ''description'') (JStr [])));
          marker = lower (name @ '' '' @ description @ '' ''
                     @ json_str (ll_text L) (case dict_get node ''format'' of None \<Rightarrow> JStr [] | Some v \<Rightarrow> v)) in
      list_ex (\<lambda>w. contains w marker) [''phone'', ''telephone'', ''mobile'', ''contact''])"

definition schema_children :: "string \<Rightarrow> (string, json) dict \<Rightarrow> (string \<times> string \<times> (string, json) dict) list" where
  \<comment> \<open>the object-valued properties of a node: name, path, node\<close>
  "schema_children path node =
     (case get_json node ''properties'' of
        JObj ps \<Rightarrow> concat (map (\<lambda>(name, child). case child of JObj c \<Rightarrow> [(name, key_path path name, c)] | _ \<Rightarrow> []) ps)
      | _ \<Rightarrow> [])"

definition object_nodes :: "(string, json) dict \<Rightarrow> nat" where
  "object_nodes kvs = nodes (JObj kvs)"

lemma schema_children_nodes: "sum_list (map (\<lambda>(_, _, c). object_nodes c) (schema_children path node)) < object_nodes node"
proof (cases "get_json node ''properties''")
  case (JObj ps)
  have children: "sum_list (map (\<lambda>(_, _, c). object_nodes c)
      (concat (map (\<lambda>(name, child). case child of JObj c \<Rightarrow> [(name, key_path path name, c)] | _ \<Rightarrow> []) ps)))
      \<le> sum_list (map (nodes \<circ> snd) ps)"
    by (induction ps) (auto simp: object_nodes_def split: json.splits)
  have "(''properties'', JObj ps) \<in> set node"
    using JObj by (auto simp: get_json_def dict_get_def split: option.splits dest: map_of_SomeD)
  then have "nodes (JObj ps) \<le> sum_list (map (nodes \<circ> snd) node)"
    using member_le_sum_list [of "nodes (JObj ps)" "map (nodes \<circ> snd) node"] by force
  then show ?thesis using children JObj by (simp add: schema_children_def object_nodes_def)
qed (simp_all add: schema_children_def object_nodes_def)

function schema_loop :: "lead_lib \<Rightarrow> (string \<times> (string, json) dict) list \<Rightarrow> string list \<Rightarrow> string list" where
  "schema_loop L [] paths = paths"
| "schema_loop L ((path, node) # stack) paths =
     (let children = schema_children path node in
      schema_loop L (rev (map snd children) @ stack)
        (paths @ map (fst \<circ> snd) (filter (\<lambda>(name, _, c). contact_marker L name c) children)))"
  by pat_completeness auto
termination
proof (relation "measure (\<lambda>(_, stack, _). sum_list (map (object_nodes \<circ> snd) stack))")
  fix L :: lead_lib and path node stack and paths :: "string list" and children
  assume c: "children = schema_children path node"
  have "sum_list (map (object_nodes \<circ> snd) (rev (map snd cs))) = sum_list (map (\<lambda>(_, _, c). object_nodes c) cs)"
    for cs :: "(string \<times> string \<times> (string, json) dict) list"
    by (induction cs) auto
  with schema_children_nodes [of path node]
  show "((L, rev (map snd children) @ stack,
          paths @ map (fst \<circ> snd) (filter (\<lambda>(name, _, c). contact_marker L name c) children)),
         L, (path, node) # stack, paths)
        \<in> measure (\<lambda>(_, stack, _). sum_list (map (object_nodes \<circ> snd) stack))"
    by (simp add: c)
qed simp

definition schema_contact_paths :: "lead_lib \<Rightarrow> json \<Rightarrow> string list" where
  \<comment> \<open>the paths of a Python set, in some order\<close>
  "schema_contact_paths L schema = (case schema of JObj s \<Rightarrow> schema_loop L [([], s)] [] | _ \<Rightarrow> [])"

definition score_phone_candidate :: "string list \<Rightarrow> string option \<Rightarrow> string \<Rightarrow> int" where
  "score_phone_candidate paths preferred path =
     (if preferred = Some path then 110
      else if path \<in> set paths then 100
      else (let key = path_key path in
            if prefix ''phone'' key
               \<or> key \<in> set [''tel'', ''telephone'', ''mobile'', ''contactnumber'', ''phonenumber''] then 80
            else 40))"

section \<open>Candidates\<close>

record candidate =
  fc_path :: string
  fc_value :: json
  fc_score :: int

type_synonym candidates = "(string, candidate list) dict"

definition candidates_of :: "candidates \<Rightarrow> string \<Rightarrow> candidate list" where
  "candidates_of cs field = (case dict_get cs field of None \<Rightarrow> [] | Some xs \<Rightarrow> xs)"

definition add_candidate :: "string \<times> candidate \<Rightarrow> candidates \<Rightarrow> candidates" where
  "add_candidate = (\<lambda>(field, c) cs. dict_set field (candidates_of cs field @ [c]) cs)"

definition found :: "bool \<Rightarrow> string \<Rightarrow> string \<Rightarrow> json \<Rightarrow> int \<Rightarrow> (string \<times> candidate) list" where
  "found cond field path value score = (if cond then [(field, \<lparr>fc_path = path, fc_value = value, fc_score = score\<rparr>)] else [])"

definition leaf_text :: "lead_lib \<Rightarrow> json \<Rightarrow> string" where
  "leaf_text L v = (case v of JStr s \<Rightarrow> s | JNull \<Rightarrow> [] | _ \<Rightarrow> ll_text L v)"

definition leaf_phone :: "lead_lib \<Rightarrow> json \<Rightarrow> string option" where
  "leaf_phone L v = extract_phone (ll_phone L) (leaf_text L v)"

definition phone_fields :: "lead_lib \<Rightarrow> string list \<Rightarrow> string option \<Rightarrow> string \<Rightarrow> json \<Rightarrow> (string \<times> candidate) list" where
  "phone_fields L paths preferred path v =
     (case leaf_phone L v of
        None \<Rightarrow> []
      | Some phone \<Rightarrow> found True ''phone'' path (JStr phone) (score_phone_candidate paths preferred path))"

definition text_fields :: "string \<Rightarrow> string \<Rightarrow> (string \<times> candidate) list" where
  "text_fields path s =
     (let key = path_key path; parent = path_parent path; v = JStr (strip s) in
      (if key \<in> set [''title'', ''adtitle'', ''listingtitle''] then found True ''title'' path v 80
       else found (key = ''name'' \<and> list_ex (\<lambda>m. contains m parent) [''vehicle'', ''listing'', ''car'', ''ad'']) ''title'' path v 75)
      @ found (key \<in> set [''url'', ''link'', ''listingurl'', ''adurl'']) ''url'' path v 80
      @ found (key \<in> set [''description'', ''body'', ''text'', ''details'']) ''description'' path v 80
      @ found (key \<in> set [''location'', ''city'', ''address'', ''region'']) ''location'' path v 70
      @ found (key \<in> set [''brand'', ''make'', ''marque'']) ''brand'' path v 80
      @ found (key \<in> set [''model'', ''modele'']) ''model'' path v 80
      @ found (key \<in> set [''sellertype'', ''ownertype'', ''accounttype'']) ''seller_type'' path v 75
      @ found (key \<in> set [''id'', ''itemid'', ''listingid'', ''adid'']) ''source_item_id'' path v 60)"

definition number_fields :: "string \<Rightarrow> json \<Rightarrow> (string \<times> candidate) list" where
  "number_fields path v =
     (let key = path_key path in
      found (key \<in> set [''price'', ''prix'']) ''price'' path v 80
      @ found (key \<in> set [''mileage'', ''kilometers'', ''kilometres'', ''km'']) ''mileage'' path v 80
      @ found (key \<in> set [''year'', ''annee'']) ''year'' path v 80)"

definition leaf_fields :: "lead_lib \<Rightarrow> string list \<Rightarrow> string option \<Rightarrow> string \<times> json \<Rightarrow> (string \<times> candidate) list" where
  "leaf_fields L paths preferred = (\<lambda>(path, v).
     phone_fields L paths preferred path v
     @ (case v of JStr s \<Rightarrow> if strip s \<noteq> [] then text_fields path s else [] | _ \<Rightarrow> [])
     @ number_fields path v)"

definition mapped_field :: "(string, json) dict \<Rightarrow> string \<times> string \<Rightarrow> (string \<times> candidate) list" where
  "mapped_field flattened = (\<lambda>(field, path).
     (case dict_get flattened path of
        None \<Rightarrow> []
      | Some v \<Rightarrow> found (field \<noteq> ''phone'') field path v 110))"

definition collect_candidates :: "lead_lib \<Rightarrow> json option \<Rightarrow> (string, json) dict option \<Rightarrow> (string, json) dict \<Rightarrow> candidates" where
  "collect_candidates L schema profile payload =
     (let flattened = flatten_payload (JObj payload);
          mappings = profile_mappings profile;
          paths = (case schema of None \<Rightarrow> [] | Some s \<Rightarrow> schema_contact_paths L s);
          leaf_adds = concat (map (leaf_fields L paths (dict_get mappings ''phone'')) flattened);
          mapped_adds = concat (map (mapped_field flattened) mappings) in
      fold add_candidate (leaf_adds @ mapped_adds) [])"
section \<open>The lead\<close>

fun best_of :: "candidate list \<Rightarrow> candidate option" where
  \<comment> \<open>\<open>max(values, key=score, default=None)\<close>: the first of the highest score\<close>
  "best_of [] = None"
| "best_of (c # cs) =
     (case best_of cs of None \<Rightarrow> Some c | Some m \<Rightarrow> if fc_score m \<le> fc_score c then Some c else Some m)"

definition best_candidate :: "candidates \<Rightarrow> string \<Rightarrow> candidate option" where
  "best_candidate cs field = best_of (candidates_of cs field)"

definition digits_run :: "char \<Rightarrow> bool" where
  "digits_run c = (is_digit c \<or> is_space c \<or> c = CHR ''.'' \<or> c = CHR '','')"

definition integer_of :: "lead_lib \<Rightarrow> json \<Rightarrow> int option" where
  \<comment> \<open>\<open>_integer\<close>: the first number of the text, its sign and its separators dropped\<close>
  "integer_of L v =
     (case v of
        JBool b \<Rightarrow> None
      | JInt i \<Rightarrow> Some i
      | JFloat q \<Rightarrow> Some (if 0 \<le> q then \<lfloor>q\<rfloor> else \<lceil>q\<rceil>)
      | _ \<Rightarrow> (let ds = filter is_digit (takeWhile digits_run (dropWhile (\<lambda>c. \<not> is_digit c) (json_str (ll_text L) v))) in
              if ds = [] then None else Some (int (parse_nat ds))))"

fun platform_of :: "lead_lib \<Rightarrow> (string \<times> json) list \<Rightarrow> string" where
  "platform_of L [] = ''other''"
| "platform_of L ((path, v) # rest) =
     (let text = lower (json_str (ll_text L) v) in
      if contains ''leboncoin.fr'' text \<or> (path_key path \<in> set [''source'', ''platform''] \<and> text = ''leboncoin'')
      then ''leboncoin''
      else if contains ''lacentrale.fr'' text \<or> contains ''la_centrale'' text then ''la_centrale''
      else platform_of L rest)"

definition infer_source_platform :: "lead_lib \<Rightarrow> (string, json) dict \<Rightarrow> string" where
  "infer_source_platform L payload = platform_of L (flatten_payload (JObj payload))"

definition phone_gap :: "char \<Rightarrow> bool" where
  "phone_gap c = (is_space c \<or> c = CHR ''.'' \<or> c = CHR ''('' \<or> c = CHR '')'' \<or> c = CHR ''-'')"

fun gapped_digits :: "nat \<Rightarrow> string \<Rightarrow> bool" where
  "gapped_digits 0 s = True"
| "gapped_digits (Suc n) s =
     (case dropWhile phone_gap s of [] \<Rightarrow> False | c # rest \<Rightarrow> is_digit c \<and> gapped_digits n rest)"

fun phoneish :: "string \<Rightarrow> bool" where
  \<comment> \<open>\<open>_PHONEISH_RE.search\<close>\<close>
  "phoneish [] = False"
| "phoneish (c # cs) =
     (list_ex (\<lambda>p. prefix p (c # cs) \<and> gapped_digits 3 (drop (length p) (c # cs))) [''+33'', ''0033'', ''0'']
      \<or> phoneish cs)"

datatype lead_status = L_ACTIONABLE | L_NON_ACTIONABLE | L_REJECTED | L_EXCEPTION

fun lead_status_value :: "lead_status \<Rightarrow> string" where
  "lead_status_value L_ACTIONABLE = ''actionable''"
| "lead_status_value L_NON_ACTIONABLE = ''non_actionable''"
| "lead_status_value L_REJECTED = ''rejected''"
| "lead_status_value L_EXCEPTION = ''exception''"

record lead =
  ld_source_platform :: string
  ld_source_item_id :: "string option"
  ld_url :: "string option"
  ld_title :: "string option"
  ld_description :: "string option"
  ld_phone :: "string option"
  ld_price :: "int option"
  ld_mileage :: "int option"
  ld_location :: "string option"
  ld_brand :: "string option"
  ld_model :: "string option"
  ld_year :: "int option"
  ld_seller_type :: "string option"
  ld_confidence :: rat
  ld_status :: lead_status
  ld_error_code :: "string option"
  ld_evidence :: "(string, string) dict"

fun distinct_values :: "json list \<Rightarrow> candidate list \<Rightarrow> candidate list" where
  "distinct_values seen [] = []"
| "distinct_values seen (c # cs) =
     (if fc_value c \<in> set seen then distinct_values seen cs
      else c # distinct_values (fc_value c # seen) cs)"

definition unique_phones :: "candidates \<Rightarrow> candidate list" where
  \<comment> \<open>sorted by descending score (a stable sort), then without repeated numbers\<close>
  "unique_phones cs = distinct_values [] (sort_key (\<lambda>c. - fc_score c) (candidates_of cs ''phone''))"

definition ambiguous :: "candidate list \<Rightarrow> bool" where
  "ambiguous uniq = (case uniq of a # b # _ \<Rightarrow> fc_score a - fc_score b < 10 | _ \<Rightarrow> False)"

definition lead_fields :: "string list" where
  "lead_fields = [''title'', ''url'', ''description'', ''price'', ''mileage'', ''location'', ''brand'', ''model'',
     ''year'', ''seller_type'', ''source_item_id'']"

definition field_evidence :: "candidates \<Rightarrow> (string, string) dict" where
  "field_evidence cs =
     concat (map (\<lambda>f. case best_candidate cs f of None \<Rightarrow> [] | Some c \<Rightarrow> [(f, fc_path c)]) lead_fields)"

definition selected_text :: "lead_lib \<Rightarrow> candidates \<Rightarrow> string \<Rightarrow> string option" where
  "selected_text L cs field = map_option (\<lambda>c. json_str (ll_text L) (fc_value c)) (best_candidate cs field)"

definition selected_integer :: "lead_lib \<Rightarrow> candidates \<Rightarrow> string \<Rightarrow> int option" where
  "selected_integer L cs field = (case best_candidate cs field of None \<Rightarrow> None | Some c \<Rightarrow> integer_of L (fc_value c))"

definition has_phone_shape :: "(string, json) dict \<Rightarrow> bool" where
  "has_phone_shape flattened = list_ex (\<lambda>(_, v). case v of JStr s \<Rightarrow> phoneish s | _ \<Rightarrow> False) flattened"

definition ambiguous_lead :: "lead_lib \<Rightarrow> (string, json) dict \<Rightarrow> candidate \<Rightarrow> lead" where
  "ambiguous_lead L payload first =
     \<lparr>ld_source_platform = infer_source_platform L payload, ld_source_item_id = None, ld_url = None, ld_title = None,
      ld_description = None, ld_phone = None, ld_price = None, ld_mileage = None, ld_location = None,
      ld_brand = None, ld_model = None, ld_year = None, ld_seller_type = None,
      ld_confidence = of_int (fc_score first) / 110, ld_status = L_EXCEPTION,
      ld_error_code = Some ''ambiguous_phone'', ld_evidence = [(''phone'', fc_path first)]\<rparr>"

definition selected_lead :: "lead_lib \<Rightarrow> (string, json) dict \<Rightarrow> candidates \<Rightarrow> candidate option \<Rightarrow> lead" where
  "selected_lead L payload cs phone =
     (let shape = has_phone_shape (flatten_payload (JObj payload)) in
      \<lparr>ld_source_platform = infer_source_platform L payload,
       ld_source_item_id = selected_text L cs ''source_item_id'', ld_url = selected_text L cs ''url'',
       ld_title = selected_text L cs ''title'', ld_description = selected_text L cs ''description'',
       ld_phone = map_option (\<lambda>c. json_str (ll_text L) (fc_value c)) phone,
       ld_price = selected_integer L cs ''price'', ld_mileage = selected_integer L cs ''mileage'',
       ld_location = selected_text L cs ''location'', ld_brand = selected_text L cs ''brand'',
       ld_model = selected_text L cs ''model'', ld_year = selected_integer L cs ''year'',
       ld_seller_type = selected_text L cs ''seller_type'',
       ld_confidence = (case phone of Some c \<Rightarrow> of_int (fc_score c) / 110 | None \<Rightarrow> 0),
       ld_status = (if phone \<noteq> None then L_ACTIONABLE else if shape then L_REJECTED else L_NON_ACTIONABLE),
       ld_error_code = (if phone \<noteq> None then None else if shape then Some ''invalid_phone'' else None),
       ld_evidence = (case phone of Some c \<Rightarrow> dict_set ''phone'' (fc_path c) (field_evidence cs)
                      | None \<Rightarrow> field_evidence cs)\<rparr>)"

definition normalize_apify_item :: "lead_lib \<Rightarrow> json option \<Rightarrow> (string, json) dict option \<Rightarrow> (string, json) dict \<Rightarrow> lead" where
  "normalize_apify_item L schema profile payload =
     (let cs = collect_candidates L schema profile payload; uniq = unique_phones cs in
      if ambiguous uniq then ambiguous_lead L payload (hd uniq)
      else selected_lead L payload cs (case uniq of [] \<Rightarrow> None | c # _ \<Rightarrow> Some c))"

section \<open>The fallback\<close>

text \<open>
  \<open>infer_apify_lead_fields\<close> of \<open>boundaries.py\<close> asks a language model for paths; \<open>ask\<close> is its decoded
  answer or the exception of the call.
\<close>

type_synonym field_oracle = "(string, json) dict \<Rightarrow> string list \<Rightarrow> json result"

definition infer_apify_lead_fields :: "field_oracle \<Rightarrow> (string, json) dict \<Rightarrow> string list
    \<Rightarrow> (string, string) dict result" where
  "infer_apify_lead_fields ask payload paths =
     (case ask payload paths of
        Inl e \<Rightarrow> Inl e
      | Inr (JObj kvs) \<Rightarrow>
          Inr (concat (map (\<lambda>(k, v). case v of JStr p \<Rightarrow> if p \<in> set paths then [(k, p)] else [] | _ \<Rightarrow> []) kvs))
      | Inr _ \<Rightarrow> Inr [])"

definition scalar_value :: "json \<Rightarrow> bool" where
  \<comment> \<open>\<open>isinstance(value, (str, int, float))\<close>; a \<open>bool\<close> is an \<open>int\<close>\<close>
  "scalar_value v = (case v of JStr _ \<Rightarrow> True | JInt _ \<Rightarrow> True | JFloat _ \<Rightarrow> True | JBool _ \<Rightarrow> True | _ \<Rightarrow> False)"

definition bounded_payload :: "lead_lib \<Rightarrow> (string, json) dict \<Rightarrow> (string, json) dict" where
  "bounded_payload L flattened =
     take 100 (filter (\<lambda>(_, v). scalar_value v \<and> length (json_str (ll_text L) v) \<le> 2000) flattened)"

definition normalize_with_fallback :: "lead_lib \<Rightarrow> bool \<Rightarrow> field_oracle \<Rightarrow> json option \<Rightarrow> (string, json) dict option
    \<Rightarrow> (string, json) dict \<Rightarrow> lead result" where
  \<comment> \<open>\<open>normalize_apify_item_with_fallback\<close>; the flag is \<open>settings.apify_ai_fallback_enabled\<close>\<close>
  "normalize_with_fallback L enabled ask schema profile payload =
     (let result = normalize_apify_item L schema profile payload;
          flattened = flatten_payload (JObj payload) in
      if ld_status result = L_ACTIONABLE \<or> \<not> enabled then Inr result
      else if \<not> list_ex (\<lambda>(_, v). case v of JStr s \<Rightarrow> extract_phone (ll_phone L) s \<noteq> None | _ \<Rightarrow> False) flattened
      then Inr result
      else
        (let bounded = bounded_payload L flattened in
         case infer_apify_lead_fields ask bounded (map fst bounded) of
           Inl e \<Rightarrow> Inl e
         | Inr inferred \<Rightarrow>
             (let mappings = dict_update (profile_mappings profile)
                    (filter (\<lambda>(_, path). dict_get flattened path \<noteq> None) inferred) in
              Inr (normalize_apify_item L schema
                     (Some [(''mappings'', JObj (map (\<lambda>(f, p). (f, JStr p)) mappings))]) payload))))"

definition json_opt_str :: "string option \<Rightarrow> json" where
  "json_opt_str x = (case x of None \<Rightarrow> JNull | Some s \<Rightarrow> JStr s)"

definition json_opt_int :: "int option \<Rightarrow> json" where
  "json_opt_int x = (case x of None \<Rightarrow> JNull | Some i \<Rightarrow> JInt i)"

definition lead_dump :: "lead \<Rightarrow> (string, json) dict" where
  \<comment> \<open>\<open>model_dump(mode="json")\<close>, the fields in the order of the class\<close>
  "lead_dump l =
     [(''source_platform'', JStr (ld_source_platform l)), (''source_item_id'', json_opt_str (ld_source_item_id l)),
      (''url'', json_opt_str (ld_url l)), (''title'', json_opt_str (ld_title l)),
      (''description'', json_opt_str (ld_description l)), (''phone_e164'', json_opt_str (ld_phone l)),
      (''price'', json_opt_int (ld_price l)), (''mileage'', json_opt_int (ld_mileage l)),
      (''location'', json_opt_str (ld_location l)), (''brand'', json_opt_str (ld_brand l)),
      (''model'', json_opt_str (ld_model l)), (''year'', json_opt_int (ld_year l)),
      (''seller_type'', json_opt_str (ld_seller_type l)), (''confidence'', JFloat (ld_confidence l)),
      (''status'', JStr (lead_status_value (ld_status l))), (''error_code'', json_opt_str (ld_error_code l)),
      (''evidence'', JObj (map (\<lambda>(f, p). (f, JStr p)) (ld_evidence l)))]"
section \<open>The number of a lead\<close>

lemma candidates_of_add [simp]:
  "candidates_of (add_candidate (g, c) cs) f = (if f = g then candidates_of cs f @ [c] else candidates_of cs f)"
  by (auto simp: candidates_of_def add_candidate_def)

lemma candidates_of_fold:
  "candidates_of (fold add_candidate xs cs) f = candidates_of cs f @ map snd (filter (\<lambda>(g, _). g = f) xs)"
  by (induction xs arbitrary: cs) auto

lemma found_phone [simp]: "(''phone'', c) \<in> set (found cond f path v n) \<longleftrightarrow>
    cond \<and> f = ''phone'' \<and> c = \<lparr>fc_path = path, fc_value = v, fc_score = n\<rparr>"
  by (auto simp: found_def)

lemma text_fields_no_phone [simp]: "(''phone'', c) \<notin> set (text_fields path s)"
  by (simp add: text_fields_def Let_def)

lemma number_fields_no_phone [simp]: "(''phone'', c) \<notin> set (number_fields path v)"
  by (simp add: number_fields_def Let_def)

lemma mapped_field_no_phone [simp]: "(''phone'', c) \<notin> set (mapped_field flattened m)"
  by (auto simp: mapped_field_def split: prod.splits option.splits)

definition schema_of :: "lead_lib \<Rightarrow> json option \<Rightarrow> string list" where
  "schema_of L schema = (case schema of None \<Rightarrow> [] | Some s \<Rightarrow> schema_contact_paths L s)"

definition phone_score :: "lead_lib \<Rightarrow> json option \<Rightarrow> (string, json) dict option \<Rightarrow> string \<Rightarrow> int" where
  "phone_score L schema profile =
     score_phone_candidate (schema_of L schema) (dict_get (profile_mappings profile) ''phone'')"

lemma leaf_fields_phone: "(''phone'', c) \<in> set (leaf_fields L paths pref (path, v)) \<longleftrightarrow>
    (\<exists>p. leaf_phone L v = Some p
       \<and> c = \<lparr>fc_path = path, fc_value = JStr p, fc_score = score_phone_candidate paths pref path\<rparr>)"
  by (cases v) (auto simp: leaf_fields_def phone_fields_def split: option.splits)

lemma phone_candidates: "c \<in> set (candidates_of (collect_candidates L schema profile payload) ''phone'') \<longleftrightarrow>
    (\<exists>path v p. (path, v) \<in> set (flatten_payload (JObj payload)) \<and> leaf_phone L v = Some p
       \<and> c = \<lparr>fc_path = path, fc_value = JStr p, fc_score = phone_score L schema profile path\<rparr>)"
proof -
  let ?leaf = "leaf_fields L (schema_of L schema) (dict_get (profile_mappings profile) ''phone'')"
  let ?flat = "flatten_payload (JObj payload)"
  let ?mapped = "concat (map (mapped_field ?flat) (profile_mappings profile))"
  have empty: "candidates_of [] f = []" for f by (simp add: candidates_of_def dict_get_def)
  have field: "c \<in> set (map snd (filter (\<lambda>(g, _). g = f) xs)) \<longleftrightarrow> (f, c) \<in> set xs" for f xs
    by force
  have "candidates_of (collect_candidates L schema profile payload) ''phone''
      = map snd (filter (\<lambda>(g, _). g = ''phone'') (concat (map ?leaf ?flat) @ ?mapped))"
    by (simp only: collect_candidates_def Let_def candidates_of_fold empty schema_of_def append_Nil)
  then have "c \<in> set (candidates_of (collect_candidates L schema profile payload) ''phone'') \<longleftrightarrow>
      (''phone'', c) \<in> set (concat (map ?leaf ?flat) @ ?mapped)"
    by (simp only: field)
  also have "\<dots> \<longleftrightarrow> (\<exists>path v. (path, v) \<in> set ?flat \<and> (''phone'', c) \<in> set (?leaf (path, v)))"
    by auto
  finally show ?thesis
    unfolding leaf_fields_phone phone_score_def by blast
qed

lemma set_distinct_values: "set (distinct_values seen xs) \<subseteq> set xs"
  by (induction seen xs rule: distinct_values.induct) auto

lemma distinct_values_top:
  assumes "sorted (map (\<lambda>c. - fc_score c) xs)" "c \<in> set xs" "fc_value c \<notin> set seen"
  shows "\<exists>b rest. distinct_values seen xs = b # rest \<and> fc_score c \<le> fc_score b"
  using assms
proof (induction seen xs rule: distinct_values.induct)
  case (1 seen)
  then show ?case by simp
next
  case (2 seen x xs)
  then show ?case by (cases "fc_value x \<in> set seen") auto
qed

lemma distinct_values_fresh: "b \<in> set (distinct_values seen xs) \<Longrightarrow> fc_value b \<notin> set seen"
  by (induction seen xs rule: distinct_values.induct) (auto split: if_splits)

text \<open>The first of the sorted candidates leads; the second one of the list holds the best other number.\<close>

lemma unique_phones_cases:
  assumes "candidates_of cs ''phone'' \<noteq> []"
  obtains a rest where "unique_phones cs = a # rest" "a \<in> set (candidates_of cs ''phone'')"
    "\<And>c. c \<in> set (candidates_of cs ''phone'') \<Longrightarrow> fc_score c \<le> fc_score a"
    "\<And>c. c \<in> set (candidates_of cs ''phone'') \<Longrightarrow> fc_value c \<noteq> fc_value a \<Longrightarrow>
       \<exists>b rest'. rest = b # rest' \<and> fc_score c \<le> fc_score b"
    "\<And>b. b \<in> set rest \<Longrightarrow> b \<in> set (candidates_of cs ''phone'') \<and> fc_value b \<noteq> fc_value a"
proof -
  define xs where "xs = sort_key (\<lambda>c. - fc_score c) (candidates_of cs ''phone'')"
  have xs: "sorted (map (\<lambda>c. - fc_score c) xs)" "set xs = set (candidates_of cs ''phone'')"
    by (simp_all add: xs_def)
  then obtain a ys where a: "xs = a # ys" using assms by (cases xs) auto
  have u: "unique_phones cs = a # distinct_values [fc_value a] ys"
    using a by (simp add: unique_phones_def flip: xs_def)
  show thesis
  proof (rule that [OF u])
    show "a \<in> set (candidates_of cs ''phone'')" using xs a by auto
    show "fc_score c \<le> fc_score a" if "c \<in> set (candidates_of cs ''phone'')" for c
      using that xs a by (auto simp flip: xs(2))
    show "\<exists>b rest'. distinct_values [fc_value a] ys = b # rest' \<and> fc_score c \<le> fc_score b"
      if "c \<in> set (candidates_of cs ''phone'')" "fc_value c \<noteq> fc_value a" for c
      using that xs a by (intro distinct_values_top) (auto simp flip: xs(2))
    show "b \<in> set (candidates_of cs ''phone'') \<and> fc_value b \<noteq> fc_value a"
      if "b \<in> set (distinct_values [fc_value a] ys)" for b
      using that set_distinct_values [of "[fc_value a]" ys] distinct_values_fresh [OF that] xs a
      by (auto simp flip: xs(2))
  qed
qed

text \<open>\<open>numbered L payload path p\<close>: the payload has the number \<open>p\<close> at \<open>path\<close>.\<close>

definition numbered :: "lead_lib \<Rightarrow> (string, json) dict \<Rightarrow> string \<Rightarrow> string \<Rightarrow> bool" where
  "numbered L payload path p = list_ex (\<lambda>(q, v). q = path \<and> leaf_phone L v = Some p) (flatten_payload (JObj payload))"

lemma phone_candidates_numbered: "c \<in> set (candidates_of (collect_candidates L schema profile payload) ''phone'') \<longleftrightarrow>
    (\<exists>path p. numbered L payload path p
       \<and> c = \<lparr>fc_path = path, fc_value = JStr p, fc_score = phone_score L schema profile path\<rparr>)"
  unfolding phone_candidates numbered_def list_ex_iff by fastforce

lemma normalized_phone:
  assumes "ld_phone (normalize_apify_item L schema profile payload) = Some p"
  shows "\<exists>path. numbered L payload path p
      \<and> dict_get (ld_evidence (normalize_apify_item L schema profile payload)) ''phone'' = Some path
      \<and> (\<forall>path' p'. numbered L payload path' p' \<longrightarrow> p' \<noteq> p \<longrightarrow>
           phone_score L schema profile path' + 10 \<le> phone_score L schema profile path)"
proof -
  define cs where "cs = collect_candidates L schema profile payload"
  let ?u = "unique_phones cs"
  have ok: "\<not> ambiguous ?u" and p: "ld_phone (selected_lead L payload cs (case ?u of [] \<Rightarrow> None | c # _ \<Rightarrow> Some c)) = Some p"
    using assms by (auto simp: normalize_apify_item_def Let_def cs_def ambiguous_lead_def split: if_splits)
  have "?u \<noteq> []" using p by (auto simp: selected_lead_def Let_def)
  then have "candidates_of cs ''phone'' \<noteq> []" by (auto simp: unique_phones_def)
  then obtain a rest where a: "?u = a # rest" "a \<in> set (candidates_of cs ''phone'')"
    and top: "\<And>c. c \<in> set (candidates_of cs ''phone'') \<Longrightarrow> fc_value c \<noteq> fc_value a \<Longrightarrow>
       \<exists>b rest'. rest = b # rest' \<and> fc_score c \<le> fc_score b"
    by (rule unique_phones_cases) blast
  from a(2) obtain path q where q: "numbered L payload path q"
    "a = \<lparr>fc_path = path, fc_value = JStr q, fc_score = phone_score L schema profile path\<rparr>"
    unfolding cs_def phone_candidates_numbered by blast
  have "q = p" using p a(1) q(2) by (simp add: selected_lead_def Let_def json_str_def)
  have margin: "phone_score L schema profile path' + 10 \<le> phone_score L schema profile path"
    if other: "numbered L payload path' p'" "p' \<noteq> p" for path' p'
  proof -
    let ?c = "\<lparr>fc_path = path', fc_value = JStr p', fc_score = phone_score L schema profile path'\<rparr>"
    have "?c \<in> set (candidates_of cs ''phone'')"
      using other(1) unfolding cs_def phone_candidates_numbered by blast
    then obtain b rest' where "rest = b # rest'" "fc_score ?c \<le> fc_score b"
      using top [of ?c] other(2) q(2) \<open>q = p\<close> by auto
    with ok a(1) q(2) show ?thesis by (simp add: ambiguous_def)
  qed
  have "dict_get (ld_evidence (normalize_apify_item L schema profile payload)) ''phone'' = Some path"
    using ok a(1) q(2) by (simp add: normalize_apify_item_def selected_lead_def Let_def flip: cs_def)
  with q(1) \<open>q = p\<close> margin show ?thesis by blast
qed

text \<open>
  C25. An advertisement gives a number exactly when the number leads: it stands at a path of the payload
  that scores at least ten points more than every path where another number stands. In every other case
  with numbers the item is an exception and nobody is contacted.
\<close>

theorem lead_phone_iff:
  "ld_phone (normalize_apify_item L schema profile payload) = Some p \<longleftrightarrow>
     (\<exists>path. numbered L payload path p
        \<and> (\<forall>path' p'. numbered L payload path' p' \<longrightarrow> p' \<noteq> p \<longrightarrow>
             phone_score L schema profile path' + 10 \<le> phone_score L schema profile path))"
  (is "?L \<longleftrightarrow> ?R")
proof
  assume ?L
  then show ?R using normalized_phone by blast
next
  assume ?R
  then obtain path where path: "numbered L payload path p"
    "\<And>path' p'. numbered L payload path' p' \<Longrightarrow> p' \<noteq> p \<Longrightarrow>
       phone_score L schema profile path' + 10 \<le> phone_score L schema profile path" by blast
  define cs where "cs = collect_candidates L schema profile payload"
  let ?c = "\<lparr>fc_path = path, fc_value = JStr p, fc_score = phone_score L schema profile path\<rparr>"
  have c: "?c \<in> set (candidates_of cs ''phone'')"
    using path(1) unfolding cs_def phone_candidates_numbered by blast
  then have "candidates_of cs ''phone'' \<noteq> []" by auto
  then obtain a rest where a: "unique_phones cs = a # rest" "a \<in> set (candidates_of cs ''phone'')"
    and lead: "fc_score ?c \<le> fc_score a"
    and others: "\<And>b. b \<in> set rest \<Longrightarrow> b \<in> set (candidates_of cs ''phone'') \<and> fc_value b \<noteq> fc_value a"
    by (rule unique_phones_cases) (use c in blast)
  have at: "\<exists>path' p'. numbered L payload path' p'
      \<and> b = \<lparr>fc_path = path', fc_value = JStr p', fc_score = phone_score L schema profile path'\<rparr>"
    if "b \<in> set (candidates_of cs ''phone'')" for b
    using that unfolding cs_def phone_candidates_numbered .
  have far: "fc_value b = JStr p \<or> fc_score b + 10 \<le> fc_score ?c" if "b \<in> set (candidates_of cs ''phone'')" for b
    using at [OF that] path(2) by force
  have number: "fc_value a = JStr p" using far [OF a(2)] lead by auto
  have "\<not> ambiguous (unique_phones cs)"
  proof (cases rest)
    case Nil
    with a(1) show ?thesis by (simp add: ambiguous_def)
  next
    case (Cons b rest')
    then have "fc_score b + 10 \<le> fc_score ?c" using far [of b] others [of b] number by auto
    with Cons a(1) lead show ?thesis by (simp add: ambiguous_def)
  qed
  with a(1) number show ?L
    by (simp add: normalize_apify_item_def selected_lead_def Let_def json_str_def flip: cs_def)
qed
definition demo_lead_lib :: lead_lib where
  "demo_lead_lib = \<lparr>ll_phone = \<lparr>parse_fr = (\<lambda>raw. Some (True, ''+33'' @ drop 1 raw))\<rparr>, ll_text = (\<lambda>_. ''?'')\<rparr>"

definition demo_ad :: "(string, json) dict" where
  "demo_ad = [(''ad'', JObj [(''title'', JStr ''Clio IV''), (''phone'', JStr ''0612345678''),
      (''body'', JStr ''garage 0687654321''), (''price'', JStr ''12500.50 EUR'')]),
     (''pictures'', JList [JStr ''a.jpg'', JInt 2])]"

lemma demo_ad_numbers: "numbered demo_lead_lib demo_ad path p \<longleftrightarrow>
    (path = ''ad.phone'' \<and> p = ''+33612345678'') \<or> (path = ''ad.body'' \<and> p = ''+33687654321'')"
proof -
  have "flatten_payload (JObj demo_ad) = [(''ad.title'', JStr ''Clio IV''), (''ad.phone'', JStr ''0612345678''),
      (''ad.body'', JStr ''garage 0687654321''), (''ad.price'', JStr ''12500.50 EUR''),
      (''pictures[0]'', JStr ''a.jpg''), (''pictures[1]'', JInt 2)]"
    by code_simp
  moreover have "leaf_phone demo_lead_lib (JStr ''Clio IV'') = None" "leaf_phone demo_lead_lib (JStr ''12500.50 EUR'') = None"
    "leaf_phone demo_lead_lib (JStr ''a.jpg'') = None" "leaf_phone demo_lead_lib (JInt 2) = None"
    "leaf_phone demo_lead_lib (JStr ''0612345678'') = Some ''+33612345678''"
    "leaf_phone demo_lead_lib (JStr ''garage 0687654321'') = Some ''+33687654321''"
    by code_simp+
  ultimately show ?thesis by (auto simp: numbered_def)
qed

lemma lead_phone_iff_witness:
  "ld_phone (normalize_apify_item demo_lead_lib None None demo_ad) = Some ''+33612345678''"
proof -
  have "phone_score demo_lead_lib None None ''ad.phone'' = 80" "phone_score demo_lead_lib None None ''ad.body'' = 40"
    by code_simp+
  then have "numbered demo_lead_lib demo_ad ''ad.phone'' ''+33612345678'' \<and>
      (\<forall>path' p'. numbered demo_lead_lib demo_ad path' p' \<longrightarrow> p' \<noteq> ''+33612345678'' \<longrightarrow>
        phone_score demo_lead_lib None None path' + 10 \<le> phone_score demo_lead_lib None None ''ad.phone'')"
    by (simp add: demo_ad_numbers)
  then show ?thesis unfolding lead_phone_iff by blast
qed

text \<open>
  Whatever the language model of the fallback answers, it cannot invent a number: the number of a
  lead is the one extracted from a leaf of the payload, at the path that the evidence of the lead
  names. With the fallback switched off it is never asked.
\<close>

theorem fallback_phone_from_payload:
  assumes "normalize_with_fallback L enabled ask schema profile payload = Inr l" and "ld_phone l = Some p"
  shows "\<exists>path v. (path, v) \<in> set (flatten_payload (JObj payload)) \<and> leaf_phone L v = Some p
      \<and> dict_get (ld_evidence l) ''phone'' = Some path \<and> (enabled \<or> l = normalize_apify_item L schema profile payload)"
proof -
  have "\<exists>profile'. l = normalize_apify_item L schema profile' payload"
    using assms(1) by (auto simp: normalize_with_fallback_def Let_def split: if_splits sum.splits)
  then obtain profile' where l: "l = normalize_apify_item L schema profile' payload" by blast
  have off: "enabled \<or> l = normalize_apify_item L schema profile payload"
    using assms(1) by (auto simp: normalize_with_fallback_def Let_def split: if_splits)
  from normalized_phone [of L schema profile' payload p] assms(2) l obtain path where
    "numbered L payload path p" "dict_get (ld_evidence l) ''phone'' = Some path" by blast
  with off show ?thesis unfolding numbered_def list_ex_iff by auto
qed

text \<open>
  A model that points at the second number of a text where two numbers are equally likely decides for
  it, and the item is then contacted.
\<close>

definition demo_two :: "(string, json) dict" where
  "demo_two = [(''a'', JStr ''0612345678''), (''b'', JStr ''0687654321'')]"

definition demo_answer :: field_oracle where
  "demo_answer = (\<lambda>_ _. Inr (JObj [(''phone'', JStr ''b''), (''title'', JStr ''nowhere''), (''price'', JInt 3)]))"

lemma fallback_phone_from_payload_witness:
  "ld_status (normalize_apify_item demo_lead_lib None None demo_two) = L_EXCEPTION
   \<and> (\<exists>l. normalize_with_fallback demo_lead_lib True demo_answer None None demo_two = Inr l \<and> ld_phone l = Some ''+33687654321''
       \<and> (\<exists>path v. (path, v) \<in> set (flatten_payload (JObj demo_two)) \<and> leaf_phone demo_lead_lib v = Some ''+33687654321''
            \<and> dict_get (ld_evidence l) ''phone'' = Some path))"
proof -
  have s: "ld_status (normalize_apify_item demo_lead_lib None None demo_two) = L_EXCEPTION" by code_simp
  have "map_sum id ld_phone (normalize_with_fallback demo_lead_lib True demo_answer None None demo_two) = Inr (Some ''+33687654321'')"
    by code_simp
  then obtain l where l: "normalize_with_fallback demo_lead_lib True demo_answer None None demo_two = Inr l" "ld_phone l = Some ''+33687654321''"
    by (cases "normalize_with_fallback demo_lead_lib True demo_answer None None demo_two") auto
  from fallback_phone_from_payload [OF this] l s show ?thesis by blast
qed

text \<open>A price written with decimals is read without its separator.\<close>

lemma decimal_price_times_hundred:
  "integer_of L (JStr ''12500.50 EUR'') = Some 1250050" "integer_of L (JStr ''-3'') = Some 3"
  by (simp_all add: integer_of_def json_str_def digits_run_def is_digit_def is_space_def parse_nat_def digit_val_def)

end
