(* ===== verification/Apify_Import.thy ===== *)
theory Apify_Import
  imports Apify_Base Apify_Lead Sms_Sequence Ledger
begin

text \<open>
  The import of an Apify dataset (\<open>apify_ingestion.py\<close>): every item is a session of its own that
  inserts the item under its unique key and processes it inside a savepoint, so that an item that
  fails is recorded as ignored and the run goes on. The dataset iterator, the language model of the
  fallback, Fernet, the clock, the broker and the sessions of the other workers are parameters.
\<close>

record import_env =
  ie_lead :: lead_lib
  ie_settings :: settings
  ie_fernet :: fernet
  ie_float :: "rat \<Rightarrow> string"  \<comment> \<open>\<open>repr\<close> of a float, for \<open>json.dumps\<close>\<close>
  ie_ask :: "nat \<Rightarrow> field_oracle"  \<comment> \<open>the language model, by the number of the item\<close>
  ie_dataset :: "string \<Rightarrow> string \<Rightarrow> json list \<times> exn option"
    \<comment> \<open>the items of \<open>apify_iter_dataset(token, dataset_id)\<close> and the exception that ends it, if one does\<close>
  ie_clock :: "nat \<Rightarrow> datetime"  \<comment> \<open>by the number of the session\<close>
  ie_others :: "nat \<Rightarrow> db \<Rightarrow> db"  \<comment> \<open>what the other workers commit before that session\<close>
  ie_broker :: broker

record import_context =
  ic_run :: uuid
  ic_workspace :: uuid
  ic_account :: uuid
  ic_binding :: uuid
  ic_campaign :: uuid
  ic_sector :: "uuid option"
  ic_dataset :: string
  ic_token :: string
  ic_profile :: "(string, json) dict option"

record item_outcome =
  io_status :: string
  io_created :: bool

definition outcome :: "string \<Rightarrow> bool \<Rightarrow> item_outcome" where
  "outcome s c = \<lparr>io_status = s, io_created = c\<rparr>"

lemma outcome_simps [simp]: "io_status (outcome s c) = s" "io_created (outcome s c) = c"
  by (simp_all add: outcome_def)

section \<open>The context of a run\<close>

definition load_run_context :: "import_env \<Rightarrow> uuid \<Rightarrow> db \<Rightarrow> exn + (import_context \<times> db)" where
  "load_run_context E rid d =
     (case get_run rid d of
        None \<Rightarrow> Inl (LookupError ''apify_run_not_found'')
      | Some run \<Rightarrow>
          (case (get_apify_account (ar_account_id run) d, get_binding (ar_binding_id run) d) of
             (Some account, Some binding) \<Rightarrow>
               if ar_status run \<noteq> ''SUCCEEDED'' \<or> ar_default_dataset_id run \<in> {None, Some []}
               then Inl (ValueError ''apify_run_not_importable'')
               else (case ab_campaign_id binding of
                       None \<Rightarrow> Inl (ValueError ''apify_binding_campaign_required'')
                     | Some cid \<Rightarrow>
                         (case open_secret (ie_fernet E) (ie_settings E) (aa_token_ciphertext account) of
                            Inl e \<Rightarrow> Inl e
                          | Inr token \<Rightarrow>
                              Inr (\<lparr>ic_run = ar_id run, ic_workspace = ar_workspace_id run, ic_account = ar_account_id run,
                                    ic_binding = ar_binding_id run, ic_campaign = cid, ic_sector = ab_sector_id binding,
                                    ic_dataset = the (ar_default_dataset_id run), ic_token = token,
                                    ic_profile = profile_dict (active_profile binding d)\<rparr>, d)))
           | _ \<Rightarrow> Inl (LookupError ''apify_run_not_found'')))"

section \<open>One item\<close>

definition canonical_payload :: "import_env \<Rightarrow> json \<Rightarrow> (string, json) dict \<times> string" where
  "canonical_payload E raw =
     (let stored = (case raw of JObj kvs \<Rightarrow> kvs | v \<Rightarrow> [(''value'', v)]) in
      (stored, sha256_hex (compact_dumps (ie_float E) (JObj stored))))"

type_synonym item_key = "uuid \<times> uuid \<times> int \<times> string"

definition item_key :: "apify_item \<Rightarrow> item_key" where
  \<comment> \<open>the columns of \<open>uq_apify_dataset_item\<close>\<close>
  "item_key i = (ai_account_id i, ai_run_id i, ai_dataset_index i, ai_content_hash i)"

definition context_key :: "import_context \<Rightarrow> nat \<Rightarrow> string \<Rightarrow> item_key" where
  "context_key ctx index hash = (ic_account ctx, ic_run ctx, int index, hash)"

definition new_item :: "datetime \<Rightarrow> import_context \<Rightarrow> nat \<Rightarrow> (string, json) dict \<Rightarrow> string \<Rightarrow> db \<Rightarrow> apify_item" where
  "new_item now ctx index payload hash d =
     \<lparr>ai_id = fresh_id d, ai_workspace_id = ic_workspace ctx, ai_account_id = ic_account ctx, ai_run_id = ic_run ctx,
      ai_dataset_index = int index, ai_content_hash = hash, ai_raw_payload = payload, ai_normalized_payload = None,
      ai_confidence = None, ai_status = AI_PENDING, ai_contact_id = None, ai_listing_id = None,
      ai_sms_sequence_id = None, ai_error = None, ai_processed_at = None, ai_created_at = now\<rparr>"

definition insert_or_load_item :: "datetime \<Rightarrow> import_context \<Rightarrow> nat \<Rightarrow> (string, json) dict \<Rightarrow> string \<Rightarrow> db
    \<Rightarrow> exn + ((apify_item \<times> bool) \<times> db)" where
  "insert_or_load_item now ctx index payload hash d =
     (case insert_new item_key (new_item now ctx index payload hash d) (apify_items d) of
        (True, items) \<Rightarrow>
          Inr ((new_item now ctx index payload hash d, True), d\<lparr>apify_items := items, fresh_id := Suc (fresh_id d)\<rparr>)
      | (False, _) \<Rightarrow>
          (case find_row (\<lambda>i. item_key i = context_key ctx index hash) (apify_items d) of
             None \<Rightarrow> Inl (RuntimeError ''apify_item_conflict_without_row'')
           | Some i \<Rightarrow> Inr ((i, False), d)))"

definition replayed_outcome :: "apify_item \<Rightarrow> item_outcome" where
  "replayed_outcome i =
     (case ai_status i of
        AI_IMPORTED \<Rightarrow> outcome ''actionable'' False
      | AI_EXCEPTION \<Rightarrow> outcome ''exception'' False
      | _ \<Rightarrow> outcome ''ignored'' False)"

definition set_item :: "uuid \<Rightarrow> (apify_item \<Rightarrow> apify_item) \<Rightarrow> db \<Rightarrow> db" where
  "set_item iid f d = d\<lparr>apify_items := update_where (\<lambda>i. ai_id i = iid) f (apify_items d)\<rparr>"

definition lead_source :: "lead \<Rightarrow> listing_source option" where
  "lead_source l =
     (if ld_source_platform l = ''leboncoin'' then Some SRC_LBC
      else if ld_source_platform l = ''la_centrale'' then Some SRC_LA_CENTRALE else None)"

definition keep_or :: "string option \<Rightarrow> string option \<Rightarrow> string option" where
  \<comment> \<open>\<open>a or b\<close>\<close>
  "keep_or a b = (if a \<in> {None, Some []} then b else a)"

definition lead_listing :: "import_env \<Rightarrow> datetime \<Rightarrow> import_context \<Rightarrow> lead \<Rightarrow> (string, json) dict \<Rightarrow> listing_source
    \<Rightarrow> string \<Rightarrow> db \<Rightarrow> listing" where
  "lead_listing E now ctx l payload source url d =
     \<lparr>li_id = fresh_id d, li_source = source, li_url = url, li_content_hash = None, li_sector_id = ic_sector ctx,
      li_contact_id = None, li_title = ld_title l, li_price = ld_price l, li_km = ld_mileage l,
      li_location = ld_location l, li_phone = ld_phone l,
      li_raw_data = Some (plain_dumps (ie_float E) (JObj payload)), li_make = ld_brand l, li_model = ld_model l,
      li_year = ld_year l, li_fuel = None, li_transmission = None, li_price_score = None, li_market_avg_price = None,
      li_market_sample_size = None, li_reliability_score = None, li_ai_summary = None, li_known_issues_json = None,
      li_inspection_tips_json = None, li_negotiation_tip = None, li_status = LS_NOUVELLE,
      li_campaign_id = Some (ic_campaign ctx), li_created_at = now, li_updated_at = now\<rparr>"

definition upsert_listing :: "import_env \<Rightarrow> datetime \<Rightarrow> import_context \<Rightarrow> lead \<Rightarrow> (string, json) dict \<Rightarrow> db
    \<Rightarrow> uuid option \<times> db" where
  "upsert_listing E now ctx l payload d =
     (case (ld_url l, lead_source l) of
        (Some url, Some source) \<Rightarrow>
          if url = [] then (None, d)
          else (case find_row (\<lambda>x. li_url x = url) (listings d) of
                  None \<Rightarrow>
                    (Some (fresh_id d),
                     d\<lparr>listings := listings d @ [lead_listing E now ctx l payload source url d],
                       fresh_id := Suc (fresh_id d)\<rparr>)
                | Some row \<Rightarrow>
                    (Some (li_id row),
                     d\<lparr>listings := update_where (\<lambda>x. li_id x = li_id row)
                         (\<lambda>x. x\<lparr>li_campaign_id := (if li_campaign_id x = None then Some (ic_campaign ctx) else li_campaign_id x),
                                li_sector_id := (if li_sector_id x = None then ic_sector ctx else li_sector_id x),
                                li_title := keep_or (li_title x) (ld_title l),
                                li_phone := keep_or (li_phone x) (ld_phone l)\<rparr>) (listings d)\<rparr>))
      | _ \<Rightarrow> (None, d))"

definition sequence_context :: "lead \<Rightarrow> (string, json) dict" where
  "sequence_context l =
     filter (\<lambda>(k, v). k \<notin> set [''phone_e164'', ''evidence'', ''error_code'', ''status''] \<and> v \<noteq> JNull) (lead_dump l)"

definition normalized_row :: "datetime \<Rightarrow> lead \<Rightarrow> apify_item \<Rightarrow> apify_item" where
  "normalized_row now l i =
     i\<lparr>ai_normalized_payload := Some (lead_dump l), ai_confidence := Some (ld_confidence l), ai_processed_at := Some now\<rparr>"

definition new_exception :: "datetime \<Rightarrow> import_context \<Rightarrow> uuid \<Rightarrow> lead \<Rightarrow> db \<Rightarrow> apify_exception" where
  "new_exception now ctx iid l d =
     \<lparr>aex_id = fresh_id d, aex_workspace_id = ic_workspace ctx, aex_binding_id = ic_binding ctx,
      aex_run_id = Some (ic_run ctx), aex_item_id = Some iid,
      aex_category = (case keep_or (ld_error_code l) None of None \<Rightarrow> ''normalization_ambiguity'' | Some c \<Rightarrow> c),
      aex_evidence = [(''paths'', JObj (map (\<lambda>(f, p). (f, JStr p)) (ld_evidence l)))], aex_status = AEX_OPEN,
      aex_resolution = None, aex_resolved_by = None, aex_created_at = now, aex_resolved_at = None\<rparr>"

definition link_imported :: "uuid \<Rightarrow> ensured \<Rightarrow> uuid option \<Rightarrow> db \<Rightarrow> db" where
  \<comment> \<open>the last lines of \<open>_process_new_item\<close>: the item and the listing point at the contact\<close>
  "link_imported iid r lid d =
     (let d1 = set_item iid (\<lambda>i. i\<lparr>ai_status := AI_IMPORTED,
                 ai_contact_id := (case en_contact r of None \<Rightarrow> ai_contact_id i | Some c \<Rightarrow> Some c),
                 ai_sms_sequence_id := (case en_sequence r of None \<Rightarrow> ai_sms_sequence_id i | Some s \<Rightarrow> Some s),
                 ai_listing_id := (case lid of None \<Rightarrow> ai_listing_id i | Some l \<Rightarrow> Some l)\<rparr>) d in
      case (lid, en_contact r) of
        (Some l, Some c) \<Rightarrow> d1\<lparr>listings := update_where (\<lambda>x. li_id x = l) (\<lambda>x. x\<lparr>li_contact_id := Some c\<rparr>) (listings d1)\<rparr>
      | _ \<Rightarrow> d1)"

definition process_new_item :: "import_env \<Rightarrow> datetime \<Rightarrow> nat \<Rightarrow> import_context \<Rightarrow> uuid \<Rightarrow> (string, json) dict \<Rightarrow> db
    \<Rightarrow> exn + (item_outcome \<times> db)" where
  "process_new_item E now k ctx iid payload d =
     (case normalize_with_fallback (ie_lead E) (apify_ai_fallback_enabled (ie_settings E)) (ie_ask E k) None
             (ic_profile ctx) payload of
        Inl e \<Rightarrow> Inl e
      | Inr l \<Rightarrow>
          if ld_status l = L_EXCEPTION then
            Inr (outcome ''exception'' False,
              (let d1 = set_item iid (\<lambda>i. (normalized_row now l i)\<lparr>ai_status := AI_EXCEPTION, ai_error := ld_error_code l\<rparr>) d in
               d1\<lparr>apify_exceptions := apify_exceptions d1 @ [new_exception now ctx iid l d1], fresh_id := Suc (fresh_id d1)\<rparr>))
          else if ld_status l \<noteq> L_ACTIONABLE \<or> ld_phone l \<in> {None, Some []} then
            Inr (outcome ''ignored'' False,
              set_item iid (\<lambda>i. (normalized_row now l i)\<lparr>ai_status := AI_IGNORED, ai_error := ld_error_code l\<rparr>) d)
          else
            (case upsert_listing E now ctx l payload (set_item iid (normalized_row now l) d) of
               (lid, d1) \<Rightarrow>
                 (case ensure_contact_sequence_in_session (ll_phone (ie_lead E)) now (the (ld_phone l)) (ic_campaign ctx)
                         lid (Some (sequence_context l)) d1 of
                    Inl e \<Rightarrow> Inl e
                  | Inr (r, d2) \<Rightarrow> Inr (outcome ''actionable'' (en_created r), link_imported iid r lid d2))))"

definition import_one_item :: "import_env \<Rightarrow> datetime \<Rightarrow> nat \<Rightarrow> import_context \<Rightarrow> nat \<Rightarrow> json \<Rightarrow> db
    \<Rightarrow> exn + ((item_outcome \<times> item_key list) \<times> db)" where
  \<comment> \<open>with the key of the item when it was inserted; an exception inside the savepoint gives the
      database back as it was after the insertion\<close>
  "import_one_item E now k ctx index raw d =
     (case canonical_payload E raw of
        (payload, hash) \<Rightarrow>
          (case insert_or_load_item now ctx index payload hash d of
             Inl e \<Rightarrow> Inl e
           | Inr ((i, inserted), d1) \<Rightarrow>
               if \<not> inserted then Inr ((replayed_outcome i, []), d1)
               else (case process_new_item E now k ctx (ai_id i) payload d1 of
                       Inr (oc, d2) \<Rightarrow> Inr ((oc, [item_key i]), d2)
                     | Inl e \<Rightarrow>
                         Inr ((outcome ''ignored'' False, [item_key i]),
                           set_item (ai_id i) (\<lambda>i. i\<lparr>ai_status := AI_IGNORED,
                             ai_error := Some (''item_processing_failed:'' @ exn_name e), ai_processed_at := Some now\<rparr>) d1))))"

section \<open>The run\<close>

record import_counters =
  cn_read :: int
  cn_actionable :: int
  cn_sequences :: int
  cn_exceptions :: int

definition no_counters :: import_counters where
  "no_counters = \<lparr>cn_read = 0, cn_actionable = 0, cn_sequences = 0, cn_exceptions = 0\<rparr>"

definition count_item :: "item_outcome \<Rightarrow> import_counters \<Rightarrow> import_counters" where
  "count_item oc c =
     \<lparr>cn_read = cn_read c + 1, cn_actionable = cn_actionable c + (if io_status oc = ''actionable'' then 1 else 0),
      cn_sequences = cn_sequences c + (if io_created oc then 1 else 0),
      cn_exceptions = cn_exceptions c + (if io_status oc = ''exception'' then 1 else 0)\<rparr>"

definition run_counted :: "import_counters \<Rightarrow> apify_run \<Rightarrow> apify_run" where
  "run_counted c r = r\<lparr>ar_items_read := cn_read c, ar_items_imported := cn_actionable c,
     ar_items_exception := cn_exceptions c, ar_items_ignored := cn_read c - cn_actionable c - cn_exceptions c\<rparr>"

definition save_run_progress :: "uuid \<Rightarrow> import_counters \<Rightarrow> datetime option \<Rightarrow> db \<Rightarrow> exn + (unit \<times> db)" where
  \<comment> \<open>the instant is given at the end of the import\<close>
  "save_run_progress rid c finished d =
     (if get_run rid d = None then Inl (LookupError ''apify_run_not_found'')
      else Inr ((), set_apify_run rid (\<lambda>r. (run_counted c r)\<lparr>ar_imported_at :=
             (if finished \<noteq> None then finished else ar_imported_at r)\<rparr>) d))"

record import_state =
  im_db :: db
  im_step :: nat  \<comment> \<open>sessions run\<close>
  im_counts :: import_counters
  im_new :: "item_key list"  \<comment> \<open>items this import inserted, a history variable\<close>

definition import_session :: "import_env \<Rightarrow> (datetime \<Rightarrow> db \<Rightarrow> exn + ('a \<times> db)) \<Rightarrow> import_state \<Rightarrow> 'a result \<times> import_state" where
  "import_session E block st =
     (let k = im_step st in
      case session (block (ie_clock E k)) (ie_others E k (im_db st)) of
        (res, d) \<Rightarrow> (res, st\<lparr>im_db := d, im_step := Suc k\<rparr>))"

definition page_size :: "import_env \<Rightarrow> int" where
  "page_size E = max 1 (apify_import_page_size (ie_settings E))"

definition count_turn :: "item_outcome \<Rightarrow> item_key list \<Rightarrow> import_state \<Rightarrow> import_state" where
  "count_turn oc ks st = st\<lparr>im_counts := count_item oc (im_counts st), im_new := im_new st @ ks\<rparr>"

definition page_done :: "import_env \<Rightarrow> uuid \<Rightarrow> import_state \<Rightarrow> exn option \<times> import_state" where
  "page_done E rid st =
     (if cn_read (im_counts st) mod page_size E = 0 then
        (case import_session E (\<lambda>_. save_run_progress rid (im_counts st) None) st of
           (Inl e, st') \<Rightarrow> (Some e, st')
         | (Inr _, st') \<Rightarrow> (None, st'))
      else (None, st))"

fun import_items :: "import_env \<Rightarrow> import_context \<Rightarrow> uuid \<Rightarrow> nat \<Rightarrow> json list \<Rightarrow> import_state \<Rightarrow> exn option \<times> import_state" where
  "import_items E ctx rid index [] st = (None, st)"
| "import_items E ctx rid index (raw # rest) st =
     (case import_session E (\<lambda>now. import_one_item E now index ctx index raw) st of
        (Inl e, st1) \<Rightarrow> (Some e, st1)
      | (Inr (oc, ks), st1) \<Rightarrow>
          (case page_done E rid (count_turn oc ks st1) of
             (Some e, st2) \<Rightarrow> (Some e, st2)
           | (None, st2) \<Rightarrow> import_items E ctx rid (Suc index) rest st2))"

definition import_body :: "import_env \<Rightarrow> uuid \<Rightarrow> import_state \<Rightarrow> import_counters result \<times> import_state" where
  \<comment> \<open>\<open>import_run\<close> up to the last session\<close>
  "import_body E rid st =
     (case import_session E (\<lambda>_. load_run_context E rid) st of
        (Inl e, st1) \<Rightarrow> (Inl e, st1)
      | (Inr ctx, st1) \<Rightarrow>
          (case ie_dataset E (ic_token ctx) (ic_dataset ctx) of
             (items, broken) \<Rightarrow>
               (case import_items E ctx rid 0 items st1 of
                  (Some e, st2) \<Rightarrow> (Inl e, st2)
                | (None, st2) \<Rightarrow>
                    (case broken of
                       Some e \<Rightarrow> (Inl e, st2)
                     | None \<Rightarrow>
                         (case import_session E (\<lambda>now. save_run_progress rid (im_counts st2) (Some now)) st2 of
                            (Inl e, st3) \<Rightarrow> (Inl e, st3)
                          | (Inr _, st3) \<Rightarrow> (Inr (im_counts st3), st3))))))"

definition start_import :: "db \<Rightarrow> import_state" where
  "start_import d = \<lparr>im_db = d, im_step = 0, im_counts = no_counters, im_new = []\<rparr>"

definition import_run :: "import_env \<Rightarrow> uuid \<Rightarrow> world \<Rightarrow> import_counters result \<times> world" where
  "import_run E rid w =
     (case import_body E rid (start_import (w_db w)) of
        (Inl e, st) \<Rightarrow> (Inl e, w\<lparr>w_db := im_db st\<rparr>)
      | (Inr c, st) \<Rightarrow>
          (let w1 = w\<lparr>w_db := im_db st\<rparr> in
           if cn_sequences c \<noteq> 0 then
             (case dispatch (ie_broker E) (''run_sms_sequences_task'', []) w1 of
                (Inl e, w2) \<Rightarrow> (Inl e, w2)
              | (Inr _, w2) \<Rightarrow> (Inr c, w2))
           else (Inr c, w1)))"
section \<open>An item is processed once\<close>

definition item_keys :: "db \<Rightarrow> item_key set" where
  "item_keys d = item_key ` set (apify_items d)"

lemma item_keys_set_item [simp]:
  assumes "\<And>i. item_key (f i) = item_key i"
  shows "item_keys (set_item iid f d) = item_keys d"
  by (simp add: item_keys_def set_item_def map_update_where [of item_key, OF assms] flip: set_map)

lemma item_keys_cong: "apify_items d' = apify_items d \<Longrightarrow> item_keys d' = item_keys d"
  by (simp add: item_keys_def)

lemma ensure_keeps_items:
  "ensure_contact_sequence_in_session lib now phone cid lid ctx d = Inr (r, d') \<Longrightarrow> apify_items d' = apify_items d"
  by (auto simp: ensure_contact_sequence_in_session_def ensure_sequence_def add_contact_def Let_def
      split: option.splits if_splits)

lemma upsert_keeps_items: "upsert_listing E now ctx l payload d = (lid, d') \<Longrightarrow> apify_items d' = apify_items d"
  by (auto simp: upsert_listing_def split: option.splits if_splits)

lemma link_keeps_keys [simp]: "item_keys (link_imported iid r lid d) = item_keys d"
proof -
  have "item_keys (d1\<lparr>listings := ls\<rparr>) = item_keys d1" for d1 ls by (simp add: item_keys_def)
  then show ?thesis by (simp add: link_imported_def Let_def item_key_def split: option.splits)
qed

lemma process_keeps_keys:
  assumes "process_new_item E now k ctx iid payload d = Inr (oc, d')"
  shows "item_keys d' = item_keys d"
proof -
  have item: "item_keys (set_item iid (\<lambda>i. (normalized_row now l i)\<lparr>ai_status := s, ai_error := x\<rparr>) d) = item_keys d" for l s x
    by (simp add: item_key_def normalized_row_def)
  have norm: "item_keys (set_item iid (normalized_row now l) d) = item_keys d" for l
    by (simp add: item_key_def normalized_row_def)
  have exc: "item_keys (d1\<lparr>apify_exceptions := xs, fresh_id := n\<rparr>) = item_keys d1" for d1 xs n
    by (simp add: item_keys_def)
  show ?thesis
    using assms
    by (auto simp: process_new_item_def Let_def item norm exc split: sum.splits if_splits prod.splits
        dest!: ensure_keeps_items upsert_keeps_items [THEN item_keys_cong] dest: item_keys_cong)
qed

lemma import_one_keys:
  assumes "import_one_item E now k ctx index raw d = Inr ((oc, ks), d')"
  shows "(ks = [] \<and> d' = d) \<or> (\<exists>key. ks = [key] \<and> key \<notin> item_keys d \<and> item_keys d' = insert key (item_keys d))"
proof -
  obtain payload hash where c: "canonical_payload E raw = (payload, hash)" by fastforce
  let ?i = "new_item now ctx index payload hash d"
  let ?d1 = "d\<lparr>apify_items := apify_items d @ [?i], fresh_id := Suc (fresh_id d)\<rparr>"
  show ?thesis
  proof (cases "item_key ?i \<in> item_key ` set (apify_items d)")
    case True
    with assms c show ?thesis
      by (auto simp: import_one_item_def insert_or_load_item_def insert_new_old split: option.splits)
  next
    case False
    have d1: "item_keys ?d1 = insert (item_key ?i) (item_keys d)" by (simp add: item_keys_def)
    have err: "item_keys (set_item iid (\<lambda>i. i\<lparr>ai_status := s, ai_error := x, ai_processed_at := t\<rparr>) ?d1) = item_keys ?d1"
      for iid s x t by (simp add: item_key_def)
    have "ks = [item_key ?i] \<and> item_keys d' = item_keys ?d1"
      using assms c False
      by (auto simp: import_one_item_def insert_or_load_item_def insert_new_def err split: sum.splits
          dest: process_keeps_keys)
    with d1 False show ?thesis by (auto simp: item_keys_def)
  qed
qed

text \<open>\<open>import_grows\<close>: what the new keys of a piece of an import are.\<close>

definition import_grows :: "import_state \<Rightarrow> import_state \<Rightarrow> bool" where
  "import_grows st st' \<longleftrightarrow> (\<exists>new. im_new st' = im_new st @ new \<and> distinct new
     \<and> set new \<inter> item_keys (im_db st) = {} \<and> item_keys (im_db st) \<union> set new \<subseteq> item_keys (im_db st'))"

lemma import_grows_refl: "im_new st' = im_new st \<Longrightarrow> item_keys (im_db st) \<subseteq> item_keys (im_db st') \<Longrightarrow> import_grows st st'"
  by (simp add: import_grows_def)

lemma import_grows_trans: "import_grows st st1 \<Longrightarrow> import_grows st1 st2 \<Longrightarrow> import_grows st st2"
proof -
  assume "import_grows st st1" "import_grows st1 st2"
  then obtain a b where a: "im_new st1 = im_new st @ a" "distinct a" "set a \<inter> item_keys (im_db st) = {}"
      "item_keys (im_db st) \<union> set a \<subseteq> item_keys (im_db st1)"
    and b: "im_new st2 = im_new st1 @ b" "distinct b" "set b \<inter> item_keys (im_db st1) = {}"
      "item_keys (im_db st1) \<union> set b \<subseteq> item_keys (im_db st2)"
    unfolding import_grows_def by blast
  then have "im_new st2 = im_new st @ (a @ b)" "distinct (a @ b)" "set (a @ b) \<inter> item_keys (im_db st) = {}"
      "item_keys (im_db st) \<union> set (a @ b) \<subseteq> item_keys (im_db st2)"
    by auto
  then show ?thesis unfolding import_grows_def by blast
qed

definition keeps_items :: "import_env \<Rightarrow> bool" where
  \<comment> \<open>the other workers delete no item\<close>
  "keeps_items E = (\<forall>k d. item_keys d \<subseteq> item_keys (ie_others E k d))"

lemma session_keeps_grows:
  assumes "keeps_items E" "import_session E block st = (res, st')"
    and "\<And>now d x d'. block now d = Inr (x, d') \<Longrightarrow> item_keys d' = item_keys d"
  shows "import_grows st st'"
proof (rule import_grows_refl)
  let ?d = "ie_others E (im_step st) (im_db st)"
  show "im_new st' = im_new st" using assms(2) by (auto simp: import_session_def Let_def split: prod.splits)
  have "item_keys (im_db st') = item_keys ?d"
    using assms(2,3) by (auto simp: import_session_def session_def Let_def split: sum.splits)
  with assms(1) show "item_keys (im_db st) \<subseteq> item_keys (im_db st')" by (simp add: keeps_items_def)
qed

lemma load_keeps: "load_run_context E rid d = Inr (x, d') \<Longrightarrow> item_keys d' = item_keys d"
  by (auto simp: load_run_context_def split: option.splits if_splits sum.splits)

lemma save_keeps: "save_run_progress rid c t d = Inr (x, d') \<Longrightarrow> item_keys d' = item_keys d"
  by (auto simp: save_run_progress_def set_apify_run_def item_keys_def split: if_splits)

lemma page_done_grows:
  assumes "keeps_items E" "page_done E rid st = (res, st')"
  shows "import_grows st st'"
proof (cases "cn_read (im_counts st) mod page_size E = 0")
  case True
  then obtain r where "import_session E (\<lambda>_. save_run_progress rid (im_counts st) None) st = (r, st')"
    using assms(2) by (auto simp: page_done_def split: prod.splits sum.splits)
  with assms(1) show ?thesis by (rule session_keeps_grows) (rule save_keeps)
next
  case False
  with assms(2) show ?thesis by (auto simp: page_done_def import_grows_refl)
qed

lemma item_turn_grows:
  assumes "keeps_items E"
    and "import_session E (\<lambda>now. import_one_item E now index ctx index raw) st = (Inr (oc, ks), st1)"
  shows "import_grows st (count_turn oc ks st1)"
proof -
  let ?d = "ie_others E (im_step st) (im_db st)"
  have one: "import_one_item E (ie_clock E (im_step st)) index ctx index raw ?d = Inr ((oc, ks), im_db st1)"
    and "im_new st1 = im_new st"
    using assms(2) by (auto simp: import_session_def session_def Let_def split: sum.splits)
  moreover have "item_keys (im_db st) \<subseteq> item_keys ?d" using assms(1) by (simp add: keeps_items_def)
  ultimately show ?thesis
    using import_one_keys [OF one] by (auto simp: import_grows_def count_turn_def)
qed

lemma import_items_grows:
  "keeps_items E \<Longrightarrow> import_items E ctx rid index items st = (res, st') \<Longrightarrow> import_grows st st'"
proof (induction items arbitrary: index st)
  case Nil
  then show ?case by (simp add: import_grows_refl)
next
  case (Cons raw items)
  show ?case
  proof (cases "import_session E (\<lambda>now. import_one_item E now index ctx index raw) st")
    case (Pair r st1)
    show ?thesis
    proof (cases r)
      case (Inl e)
      with Cons.prems(2) Pair have "st' = st1" by simp
      moreover have "im_db st1 = ie_others E (im_step st) (im_db st)" "im_new st1 = im_new st"
        using Pair Inl by (auto simp: import_session_def session_def Let_def split: sum.splits)
      ultimately show ?thesis using Cons.prems(1) by (simp add: import_grows_refl keeps_items_def)
    next
      case (Inr p)
      obtain oc ks where p: "p = (oc, ks)" by fastforce
      obtain r2 st2 where page: "page_done E rid (count_turn oc ks st1) = (r2, st2)" by fastforce
      have "import_grows st st2"
        using import_grows_trans [OF item_turn_grows page_done_grows] Cons.prems(1) Pair Inr p page by blast
      moreover have "import_grows st2 st'"
        using Cons.prems Cons.IH [of "Suc index" st2] Pair Inr p page
        by (cases r2) (auto simp: import_grows_refl)
      ultimately show ?thesis by (rule import_grows_trans)
    qed
  qed
qed

lemma import_body_grows:
  assumes "keeps_items E" "import_body E rid st = (res, st')"
  shows "import_grows st st'"
proof (cases "import_session E (\<lambda>_. load_run_context E rid) st")
  case (Pair r st1)
  then have 1: "import_grows st st1" by (rule session_keeps_grows [OF assms(1)]) (rule load_keeps)
  show ?thesis
  proof (cases r)
    case (Inl e)
    with assms(2) Pair 1 show ?thesis by (simp add: import_body_def)
  next
    case (Inr ctx)
    obtain items broken where ds: "ie_dataset E (ic_token ctx) (ic_dataset ctx) = (items, broken)" by fastforce
    obtain r2 st2 where loop: "import_items E ctx rid 0 items st1 = (r2, st2)" by fastforce
    then have 2: "import_grows st st2" using import_grows_trans [OF 1 import_items_grows] assms(1) by blast
    obtain r3 st3 where last: "import_session E (\<lambda>now. save_run_progress rid (im_counts st2) (Some now)) st2 = (r3, st3)"
      by fastforce
    then have 3: "import_grows st2 st3" by (rule session_keeps_grows [OF assms(1)]) (rule save_keeps)
    have "st' = st2 \<or> st' = st3"
      using assms(2) Pair Inr ds loop last by (auto simp: import_body_def split: option.splits sum.splits)
    with 2 import_grows_trans [OF 2 3] show ?thesis by auto
  qed
qed

text \<open>
  The history of the imports of a database: any runs, any number of times, cut short or not. The
  contract of \<open>ledger\<close> is met by the item table.
\<close>

type_synonym import_event = "import_env \<times> uuid"

definition import_event_run :: "import_event \<Rightarrow> db \<Rightarrow> item_key list \<times> db" where
  \<comment> \<open>the items an import inserted, and the database it leaves\<close>
  "import_event_run = (\<lambda>(E, rid) d. case import_body E rid (start_import d) of (_, st) \<Rightarrow> (im_new st, im_db st))"

definition kept_event_run :: "import_event \<Rightarrow> db \<Rightarrow> item_key list \<times> db" where
  "kept_event_run e d = (if keeps_items (fst e) then import_event_run e d else ([], d))"

lemma kept_event_grows:
  "distinct (fst (kept_event_run e d)) \<and> set (fst (kept_event_run e d)) \<inter> item_keys d = {}
     \<and> item_keys d \<union> set (fst (kept_event_run e d)) \<subseteq> item_keys (snd (kept_event_run e d))"
proof (cases "keeps_items (fst e)")
  case True
  obtain E rid where e: "e = (E, rid)" by fastforce
  obtain res st where b: "import_body E rid (start_import d) = (res, st)" by fastforce
  then have "import_grows (start_import d) st" using import_body_grows True e by auto
  then show ?thesis
    using True e b by (auto simp: import_grows_def kept_event_run_def import_event_run_def start_import_def)
qed (simp add: kept_event_run_def)

interpretation import_ledger: ledger "\<lambda>_. True" item_keys kept_event_run
  by unfold_locales (use kept_event_grows in blast)+

fun import_history :: "import_event list \<Rightarrow> db \<Rightarrow> item_key list \<times> db" where
  "import_history [] d = ([], d)"
| "import_history (e # es) d =
     (case import_event_run e d of (ks, d1) \<Rightarrow> (case import_history es d1 of (ks', d2) \<Rightarrow> (ks @ ks', d2)))"

lemma import_history_ledger:
  "\<forall>e\<in>set es. keeps_items (fst e) \<Longrightarrow> import_history es d = import_ledger.history es d"
  by (induction es arbitrary: d) (auto simp: kept_event_run_def split: prod.splits)

text \<open>
  C4. However often the runs of an Apify account are imported, completely or cut short by an error,
  and whatever the other workers do as long as they delete no item, no item (a content at a position
  of a dataset) is processed twice, and none that was stored before is processed again: its number is
  entered in a campaign at most once.
\<close>

theorem import_processes_once:
  assumes "\<forall>e\<in>set es. keeps_items (fst e)"
  shows "distinct (fst (import_history es d)) \<and> set (fst (import_history es d)) \<inter> item_keys d = {}"
  using import_ledger.history_once [where es = es and d = d] import_history_ledger [OF assms] by simp
section \<open>An item that fails\<close>

text \<open>
  An item whose processing raises (the campaign is paused at that moment, the language model
  does not answer) leaves nothing behind but its row: no contact, no sequence, no listing, no
  exception to look at; the row is IGNORED and names the class of the error. It is lost for good: in
  every later database that still has the row, importing the run again counts the item as ignored and
  does nothing, although the cause may be gone.
\<close>

theorem failed_item_is_lost:
  assumes "canonical_payload E raw = (payload, hash)" and "context_key ctx index hash \<notin> item_keys d"
    and "\<And>d1. insert_or_load_item now ctx index payload hash d = Inr ((new_item now ctx index payload hash d, True), d1)
           \<Longrightarrow> process_new_item E now k ctx (fresh_id d) payload d1 = Inl e"
  shows "\<exists>d'. import_one_item E now k ctx index raw d
        = Inr ((outcome ''ignored'' False, [context_key ctx index hash]), d')
      \<and> contacts d' = contacts d \<and> sms_sequences d' = sms_sequences d \<and> listings d' = listings d
      \<and> apify_exceptions d' = apify_exceptions d
      \<and> (\<exists>row\<in>set (apify_items d'). item_key row = context_key ctx index hash \<and> ai_status row = AI_IGNORED
           \<and> ai_error row = Some (''item_processing_failed:'' @ exn_name e)
           \<and> (\<forall>E' now' k' ctx' d2. ie_float E' = ie_float E \<longrightarrow> ic_account ctx' = ic_account ctx \<longrightarrow> ic_run ctx' = ic_run ctx \<longrightarrow>
                row \<in> set (apify_items d2) \<longrightarrow> distinct (map item_key (apify_items d2)) \<longrightarrow>
                import_one_item E' now' k' ctx' index raw d2 = Inr ((outcome ''ignored'' False, []), d2)))"
proof -
  let ?i = "new_item now ctx index payload hash d"
  let ?d1 = "d\<lparr>apify_items := apify_items d @ [?i], fresh_id := Suc (fresh_id d)\<rparr>"
  let ?f = "\<lambda>i. i\<lparr>ai_status := AI_IGNORED, ai_error := Some (''item_processing_failed:'' @ exn_name e), ai_processed_at := Some now\<rparr>"
  let ?d' = "set_item (fresh_id d) ?f ?d1"
  have key: "item_key ?i = context_key ctx index hash" by (simp add: new_item_def item_key_def context_key_def)
  have load: "insert_or_load_item now ctx index payload hash d = Inr ((?i, True), ?d1)"
    using assms(2) by (auto simp: insert_or_load_item_def insert_new_def key item_keys_def)
  have "ai_id ?i = fresh_id d" by (simp add: new_item_def)
  with assms(1) load assms(3) [OF load] key
  have run: "import_one_item E now k ctx index raw d = Inr ((outcome ''ignored'' False, [context_key ctx index hash]), ?d')"
    by (simp add: import_one_item_def)
  have row: "?f ?i \<in> set (apify_items ?d')" by (simp add: set_item_def set_update_where new_item_def)
  have lost: "import_one_item E' now' k' ctx' index raw d2 = Inr ((outcome ''ignored'' False, []), d2)"
    if hyp: "ie_float E' = ie_float E" "ic_account ctx' = ic_account ctx" "ic_run ctx' = ic_run ctx"
      "?f ?i \<in> set (apify_items d2)" "distinct (map item_key (apify_items d2))" for E' now' k' ctx' d2
  proof -
    have c: "canonical_payload E' raw = (payload, hash)" using assms(1) hyp(1) by (simp add: canonical_payload_def)
    have k: "context_key ctx' index hash = item_key (?f ?i)" "item_key (new_item now' ctx' index payload hash d2) = item_key (?f ?i)"
      using hyp(2,3) by (simp_all add: context_key_def item_key_def new_item_def)
    have old: "item_key (new_item now' ctx' index payload hash d2) \<in> item_key ` set (apify_items d2)"
      using hyp(4) k(2) by auto
    obtain r where r: "find_row (\<lambda>i. item_key i = item_key (?f ?i)) (apify_items d2) = Some r"
      using find_row_exists [OF hyp(4), of "\<lambda>i. item_key i = item_key (?f ?i)"] by auto
    then have "r = ?f ?i" using hyp(4,5) by (auto dest!: find_row_SomeD dest: inj_onD simp: distinct_map)
    with c k(1) r old show ?thesis
      by (simp add: import_one_item_def insert_or_load_item_def insert_new_old replayed_outcome_def)
  qed
  have "item_key (?f ?i) = context_key ctx index hash" using key by (simp add: item_key_def)
  with run row lost show ?thesis
    by (intro exI [of _ ?d'] conjI bexI [of _ "?f ?i"]) (auto simp: set_item_def)
qed

section \<open>The books of an import\<close>

lemma import_session_db:
  "import_session E block st = (res, st') \<Longrightarrow>
     im_counts st' = im_counts st
     \<and> (case res of Inr x \<Rightarrow> block (ie_clock E (im_step st)) (ie_others E (im_step st) (im_db st)) = Inr (x, im_db st')
        | Inl _ \<Rightarrow> True)"
  by (auto simp: import_session_def session_def Let_def split: sum.splits prod.splits)

lemma page_done_counts: "page_done E rid st = (res, st') \<Longrightarrow> im_counts st' = im_counts st"
  by (auto simp: page_done_def split: if_splits prod.splits sum.splits dest!: import_session_db)

definition counters_ok :: "import_counters \<Rightarrow> bool" where
  "counters_ok c = (0 \<le> cn_sequences c \<and> cn_sequences c \<le> cn_actionable c \<and> 0 \<le> cn_exceptions c
     \<and> cn_actionable c + cn_exceptions c \<le> cn_read c)"

lemma created_is_actionable:
  assumes "import_one_item E now k ctx index raw d = Inr ((oc, ks), d')"
  shows "io_created oc \<longrightarrow> io_status oc = ''actionable''"
proof -
  have replay: "\<not> io_created (replayed_outcome i)" for i by (simp add: replayed_outcome_def split: apify_item_status.split)
  have process: "io_created oc \<longrightarrow> io_status oc = ''actionable''"
    if "process_new_item E now k ctx iid payload d1 = Inr (oc, d2)" for oc iid payload d1 d2
    using that by (auto simp: process_new_item_def split: sum.splits if_splits prod.splits)
  show ?thesis
    using assms replay by (auto simp: import_one_item_def split: sum.splits prod.splits if_splits dest: process)
qed

lemma count_item_ok: "counters_ok c \<Longrightarrow> io_created oc \<longrightarrow> io_status oc = ''actionable'' \<Longrightarrow> counters_ok (count_item oc c)"
  by (auto simp: counters_ok_def count_item_def)

lemma import_items_counts:
  "import_items E ctx rid index items st = (None, st') \<Longrightarrow> counters_ok (im_counts st) \<Longrightarrow>
     counters_ok (im_counts st') \<and> cn_read (im_counts st') = cn_read (im_counts st) + int (length items)"
proof (induction items arbitrary: index st)
  case Nil
  then show ?case by simp
next
  case (Cons raw items)
  obtain oc ks st1 where turn: "import_session E (\<lambda>now. import_one_item E now index ctx index raw) st = (Inr (oc, ks), st1)"
    using Cons.prems(1) by (auto split: prod.splits sum.splits)
  obtain r st2 where page: "page_done E rid (count_turn oc ks st1) = (r, st2)" by fastforce
  with Cons.prems(1) turn have "r = None" by (cases r) auto
  with Cons.prems(1) turn page have rest: "import_items E ctx rid (Suc index) items st2 = (None, st')" by simp
  have "im_counts st2 = count_item oc (im_counts st)"
    using page_done_counts [OF page] import_session_db [OF turn] by (simp add: count_turn_def)
  moreover have "counters_ok (count_item oc (im_counts st))"
    using count_item_ok [OF Cons.prems(2)] import_session_db [OF turn] created_is_actionable by auto
  ultimately show ?case using Cons.IH [OF rest] by (simp add: count_item_def)
qed

text \<open>
  One bad item never stops an import, and its books are right. An import that ends without an
  error has read every item of the dataset; the counters it returns are those of the run's row, which
  is marked imported; actionable, exceptional and ignored items add up to the items read; and the
  follow-up task was queued exactly when a sequence was created. Nothing is assumed of the other
  workers.
\<close>

theorem import_books:
  assumes "import_run E rid w = (Inr c, w')"
  shows "counters_ok c
    \<and> (\<exists>token dataset items. ie_dataset E token dataset = (items, None) \<and> cn_read c = int (length items))
    \<and> (\<exists>run. get_run rid (w_db w') = Some run \<and> ar_imported_at run \<noteq> None \<and> ar_items_read run = cn_read c
         \<and> ar_items_imported run = cn_actionable c \<and> ar_items_exception run = cn_exceptions c \<and> 0 \<le> ar_items_ignored run
         \<and> ar_items_read run = ar_items_imported run + ar_items_exception run + ar_items_ignored run)
    \<and> w_queue w' = w_queue w @ (if cn_sequences c = 0 then [] else [(''run_sms_sequences_task'', [])])"
proof -
  obtain st where body: "import_body E rid (start_import (w_db w)) = (Inr c, st)" "w_db w' = im_db st"
    and queue: "w_queue w' = w_queue w @ (if cn_sequences c = 0 then [] else [(''run_sms_sequences_task'', [])])"
    using assms by (auto simp: import_run_def Let_def dispatch_def split: prod.splits sum.splits if_splits)
  obtain ctx st1 items st2 x where load: "import_session E (\<lambda>_. load_run_context E rid) (start_import (w_db w)) = (Inr ctx, st1)"
    and ds: "ie_dataset E (ic_token ctx) (ic_dataset ctx) = (items, None)"
    and loop: "import_items E ctx rid 0 items st1 = (None, st2)"
    and last: "import_session E (\<lambda>now. save_run_progress rid (im_counts st2) (Some now)) st2 = (Inr x, st)"
    and c: "c = im_counts st"
    using body(1) by (auto simp: import_body_def split: prod.splits sum.splits option.splits)
  have "im_counts st1 = no_counters" using import_session_db [OF load] by (simp add: start_import_def)
  moreover have "counters_ok no_counters" by (simp add: counters_ok_def no_counters_def)
  ultimately have ok: "counters_ok (im_counts st2)" "cn_read (im_counts st2) = int (length items)"
    using import_items_counts [OF loop] by (simp_all add: no_counters_def)
  let ?d = "ie_others E (im_step st2) (im_db st2)"
  have save: "save_run_progress rid (im_counts st2) (Some (ie_clock E (im_step st2))) ?d = Inr (x, im_db st)" "c = im_counts st2"
    using import_session_db [OF last] c by simp_all
  obtain run where run: "get_run rid ?d = Some run" using save(1) by (auto simp: save_run_progress_def split: if_splits)
  then have id: "ar_id run = rid" by (auto simp: get_run_def dest: find_row_SomeD)
  have "get_run rid (im_db st) = Some ((run_counted c run)\<lparr>ar_imported_at := Some (ie_clock E (im_step st2))\<rparr>)"
  proof -
    have db: "im_db st = set_apify_run rid (\<lambda>r. (run_counted c r)\<lparr>ar_imported_at := Some (ie_clock E (im_step st2))\<rparr>) ?d"
      using save run by (simp add: save_run_progress_def)
    have "find_row (\<lambda>r. ar_id r = rid) (apify_runs ?d) = Some run" using run by (simp add: get_run_def)
    with id show ?thesis unfolding db by (simp add: set_apify_run_def get_run_def find_update_where run_counted_def)
  qed
  with ok save(2) ds queue body(2) show ?thesis
    by (auto simp: run_counted_def counters_ok_def)
qed
section \<open>Witnesses\<close>

definition demo_fernet :: fernet where
  "demo_fernet = \<lparr>fe_key_ok = (\<lambda>k. True), fe_encrypt = (\<lambda>k n t. t), fe_decrypt = (\<lambda>k t. Some t)\<rparr>"

definition demo_lead_ad :: "(string, json) dict" where
  "demo_lead_ad = [(''phone'', JStr ''0612345678'')]"

definition demo_import :: import_env where
  "demo_import = \<lparr>ie_lead = demo_lead_lib, ie_settings = default_settings\<lparr>apify_token_encryption_key := ''k''\<rparr>,
     ie_fernet = demo_fernet, ie_float = (\<lambda>_. ''0.5''), ie_ask = (\<lambda>_ _ _. Inr JNull),
     ie_dataset = (\<lambda>_ _. ([JObj demo_lead_ad], None)), ie_clock = int, ie_others = (\<lambda>_ d. d), ie_broker = (\<lambda>_. Inr ''t'')\<rparr>"

definition demo_import_account :: apify_account where
  "demo_import_account = \<lparr>aa_id = 1, aa_workspace_id = 9, aa_label = ''main'', aa_apify_user_id = ''u'', aa_username = ''u'',
     aa_token_ciphertext = ''tok'', aa_token_fingerprint = ''f'', aa_webhook_secret_ciphertext = ''sec'',
     aa_webhook_secret_hash = ''h'', aa_status = ''active'', aa_last_checked_at = None, aa_last_error = None,
     aa_created_at = 0, aa_updated_at = 0\<rparr>"

definition demo_binding :: apify_actor_binding where
  "demo_binding = \<lparr>ab_id = 2, ab_workspace_id = 9, ab_account_id = 1, ab_sector_id = None, ab_campaign_id = Some 5,
     ab_resource_type = ''actor'', ab_resource_id = ''a1'', ab_name = ''a1'', ab_input_ciphertext = ''{}'', ab_enabled = True,
     ab_schedule_authority = ''internal'', ab_schedule_minutes = Some 60, ab_next_run_at = Some 0, ab_webhook_id = None,
     ab_schema_fingerprint = None, ab_active_profile_id = None, ab_suspended_reason = None, ab_created_at = 0,
     ab_updated_at = 0\<rparr>"

definition demo_import_run :: apify_run where
  "demo_import_run = \<lparr>ar_id = 3, ar_workspace_id = 9, ar_account_id = 1, ar_binding_id = 2, ar_apify_run_id = ''r1'',
     ar_status = ''SUCCEEDED'', ar_started_at = None, ar_finished_at = None, ar_default_dataset_id = Some ''ds'',
     ar_cost_usd = None, ar_items_read = 0, ar_items_imported = 0, ar_items_ignored = 0, ar_items_exception = 0,
     ar_last_error = None, ar_imported_at = None, ar_created_at = 0, ar_updated_at = 0\<rparr>"

definition demo_import_db :: db where
  \<comment> \<open>the campaign of the binding is still pending\<close>
  "demo_import_db = empty_db\<lparr>apify_accounts := [demo_import_account], apify_actor_bindings := [demo_binding],
     apify_runs := [demo_import_run], campaigns := [demo_campaign], fresh_id := 10\<rparr>"

definition demo_context :: import_context where
  "demo_context = \<lparr>ic_run = 3, ic_workspace = 9, ic_account = 1, ic_binding = 2, ic_campaign = 5, ic_sector = None,
     ic_dataset = ''ds'', ic_token = ''tok'', ic_profile = None\<rparr>"

lemma demo_load: "load_run_context demo_import 3 demo_import_db = Inr (demo_context, demo_import_db)"
  by (simp add: load_run_context_def demo_import_db_def get_run_def demo_import_run_def get_apify_account_def demo_import_account_def
      get_binding_def demo_binding_def open_secret_def settings_codec_def apify_codec_def demo_import_def demo_fernet_def
      decrypt_secret_def active_profile_def profile_dict_def demo_context_def)

lemma demo_import_simps [simp]:
  "ie_others demo_import k d = d" "ie_clock demo_import k = int k" "ie_lead demo_import = demo_lead_lib"
  "ie_dataset demo_import t ds = ([JObj demo_lead_ad], None)" "ie_broker demo_import k = Inr ''t''"
  "apify_ai_fallback_enabled (ie_settings demo_import) = False" "page_size demo_import = 250"
  by (simp_all add: demo_import_def default_settings_def page_size_def)

lemma demo_keeps: "keeps_items demo_import"
  by (simp add: keeps_items_def)

definition demo_lead :: lead where
  "demo_lead = normalize_apify_item demo_lead_lib None None demo_lead_ad"

lemma demo_lead_fields: "ld_phone demo_lead = Some ''+33612345678''" "ld_status demo_lead = L_ACTIONABLE" "ld_url demo_lead = None"
  unfolding demo_lead_def by code_simp+

lemma demo_process_fails:
  assumes "campaigns d = [demo_campaign]" "blacklist d = []"
  shows "process_new_item demo_import now k demo_context iid demo_lead_ad d = Inl (ValueError ''campaign_not_running'')"
proof -
  have "extract_phone (ll_phone demo_lead_lib) ''+33612345678'' = Some ''+33+33612345678'' \<or>
        extract_phone (ll_phone demo_lead_lib) ''+33612345678'' \<noteq> None" by code_simp
  then obtain p where p: "extract_phone (ll_phone demo_lead_lib) ''+33612345678'' = Some p" by auto
  have n: "normalize_with_fallback demo_lead_lib False ask None None demo_lead_ad = Inr demo_lead" for ask
    by (simp add: normalize_with_fallback_def Let_def flip: demo_lead_def)
  have c: "ic_profile demo_context = None" "ic_campaign demo_context = 5" by (simp_all add: demo_context_def)
  have db: "campaigns (set_item iid f d) = [demo_campaign]" "blacklist (set_item iid f d) = []" for f
    using assms by (simp_all add: set_item_def)
  show ?thesis
    by (simp add: process_new_item_def n c demo_lead_fields upsert_listing_def ensure_contact_sequence_in_session_def p
        is_blacklisted_def db demo_campaign_def)
qed

lemma failed_item_is_lost_witness:
  "\<exists>hash d'. import_one_item demo_import 1 0 demo_context 0 (JObj demo_lead_ad) demo_import_db
       = Inr ((outcome ''ignored'' False, [context_key demo_context 0 hash]), d') \<and> contacts d' = []
     \<and> import_one_item demo_import 99 0 demo_context 0 (JObj demo_lead_ad) (d'\<lparr>campaigns := [demo_campaign\<lparr>ca_status := C_RUNNING\<rparr>]\<rparr>)
       = Inr ((outcome ''ignored'' False, []), d'\<lparr>campaigns := [demo_campaign\<lparr>ca_status := C_RUNNING\<rparr>]\<rparr>)"
proof -
  define hash where "hash = snd (canonical_payload demo_import (JObj demo_lead_ad))"
  have c: "canonical_payload demo_import (JObj demo_lead_ad) = (demo_lead_ad, hash)"
    by (simp add: hash_def canonical_payload_def Let_def)
  have d: "apify_items demo_import_db = []" "contacts demo_import_db = []" "campaigns demo_import_db = [demo_campaign]"
    "blacklist demo_import_db = []"
    by (simp_all add: demo_import_db_def empty_db_def)
  have fails: "process_new_item demo_import 1 0 demo_context (fresh_id demo_import_db) demo_lead_ad d1
      = Inl (ValueError ''campaign_not_running'')"
    if "insert_or_load_item 1 demo_context 0 demo_lead_ad hash demo_import_db
        = Inr ((new_item 1 demo_context 0 demo_lead_ad hash demo_import_db, True), d1)" for d1
    using that d by (intro demo_process_fails) (auto simp: insert_or_load_item_def insert_new_def)
  have "context_key demo_context 0 hash \<notin> item_keys demo_import_db" using d by (simp add: item_keys_def)
  from failed_item_is_lost [OF c this fails] obtain d' row where
    1: "import_one_item demo_import 1 0 demo_context 0 (JObj demo_lead_ad) demo_import_db
        = Inr ((outcome ''ignored'' False, [context_key demo_context 0 hash]), d')" "contacts d' = []"
    and row: "row \<in> set (apify_items d')"
    and lost: "\<And>d2. row \<in> set (apify_items d2) \<Longrightarrow> distinct (map item_key (apify_items d2)) \<Longrightarrow>
        import_one_item demo_import 99 0 demo_context 0 (JObj demo_lead_ad) d2 = Inr ((outcome ''ignored'' False, []), d2)"
    using d(2) by metis
  have "item_keys d' = {context_key demo_context 0 hash}" "length (apify_items d') = 1"
    using 1 import_one_keys [OF 1(1)] d(1) c fails
    by (auto simp: item_keys_def import_one_item_def insert_or_load_item_def insert_new_def set_item_def new_item_def)
  then have "distinct (map item_key (apify_items d'))" by (cases "apify_items d'") auto
  with lost [of "d'\<lparr>campaigns := [demo_campaign\<lparr>ca_status := C_RUNNING\<rparr>]\<rparr>"] row 1 show ?thesis by auto
qed

lemma demo_import_turn:
  "\<exists>key d'. import_one_item demo_import now 0 demo_context 0 (JObj demo_lead_ad) demo_import_db
      = Inr ((outcome ''ignored'' False, [key]), d') \<and> apify_runs d' = [demo_import_run]"
proof -
  have d: "apify_items demo_import_db = []" "campaigns demo_import_db = [demo_campaign]"
    "blacklist demo_import_db = []" "apify_runs demo_import_db = [demo_import_run]"
    by (simp_all add: demo_import_db_def empty_db_def)
  let ?i = "new_item now demo_context 0 demo_lead_ad (snd (canonical_payload demo_import (JObj demo_lead_ad))) demo_import_db"
  have "\<exists>d'. import_one_item demo_import now 0 demo_context 0 (JObj demo_lead_ad) demo_import_db
      = Inr ((outcome ''ignored'' False, [item_key ?i]), d') \<and> apify_runs d' = [demo_import_run]"
    using d by (simp add: import_one_item_def canonical_payload_def Let_def insert_or_load_item_def insert_new_def
        demo_process_fails set_item_def)
  then show ?thesis by blast
qed

lemma demo_import_body:
  "\<exists>st. import_body demo_import 3 (start_import demo_import_db)
      = (Inr \<lparr>cn_read = 1, cn_actionable = 0, cn_sequences = 0, cn_exceptions = 0\<rparr>, st) \<and> length (im_new st) = 1"
proof -
  obtain key d' where t: "import_one_item demo_import 1 0 demo_context 0 (JObj demo_lead_ad) demo_import_db
      = Inr ((outcome ''ignored'' False, [key]), d')" "apify_runs d' = [demo_import_run]"
    using demo_import_turn by blast
  have "get_run 3 d' = Some demo_import_run" using t(2) by (simp add: get_run_def demo_import_run_def)
  with t(1) show ?thesis
    by (simp add: import_body_def import_session_def session_def demo_load start_import_def Let_def page_done_def count_turn_def
        count_item_def no_counters_def save_run_progress_def)
qed

lemma import_processes_once_witness:
  "\<exists>key. import_event_run (demo_import, 3) demo_import_db = ([key], snd (import_event_run (demo_import, 3) demo_import_db))
     \<and> distinct (fst (import_history [(demo_import, 3), (demo_import, 3)] demo_import_db))"
proof -
  have "\<forall>e\<in>set [(demo_import, 3 :: uuid), (demo_import, 3)]. keeps_items (fst e)" by (simp add: demo_keeps)
  from import_processes_once [OF this, of demo_import_db] demo_import_body show ?thesis
    by (auto simp: import_event_run_def length_Suc_conv)
qed

lemma import_books_witness:
  "\<exists>c w'. import_run demo_import 3 \<lparr>w_db = demo_import_db, w_calls = 0, w_queue = [], w_revoked = []\<rparr> = (Inr c, w')
     \<and> cn_read c = 1 \<and> counters_ok c \<and> w_queue w' = []"
proof -
  let ?w = "\<lparr>w_db = demo_import_db, w_calls = 0, w_queue = [], w_revoked = []\<rparr>"
  let ?c = "\<lparr>cn_read = 1, cn_actionable = 0, cn_sequences = 0, cn_exceptions = 0\<rparr>"
  obtain st where "import_body demo_import 3 (start_import demo_import_db) = (Inr ?c, st)" using demo_import_body by blast
  then have "import_run demo_import 3 ?w = (Inr ?c, ?w\<lparr>w_db := im_db st\<rparr>)" by (simp add: import_run_def Let_def)
  from import_books [OF this] this show ?thesis by auto
qed

end
