(* ===== verification/Apify_Runs.thy ===== *)
theory Apify_Runs
  imports Apify_Import Security
begin

text \<open>
  The runs of Apify actors (\<open>apify_runs.py\<close>): the copy of a remote run, the launch of a binding, the
  due bindings, the reconciliation with the recent runs of every account, the replay, and the webhook
  with its route (\<open>webhooks/apify.py\<close>). A remote run is a JSON object; the answers of Apify, the parser
  of dates, \<open>UUID(text)\<close>, \<open>float\<close>, \<open>json.loads\<close>, the row locks, the clock, the broker and the sessions
  of the other workers are parameters.
\<close>

type_synonym remote_run = "(string, json) dict"

record apify_env =
  xe_settings :: settings
  xe_fernet :: fernet
  xe_text :: "json \<Rightarrow> string"
  xe_float_of :: "json \<Rightarrow> rat option"
  xe_uuid :: "string \<Rightarrow> uuid option"
  xe_date :: "string \<Rightarrow> datetime option"  \<comment> \<open>\<open>fromisoformat\<close>, a naive value taken as UTC\<close>
  xe_loads :: "string \<Rightarrow> json result"
  xe_locked :: "nat \<Rightarrow> bool"  \<comment> \<open>another session holds the row, by the number of the session\<close>
  xe_start :: "nat \<Rightarrow> remote_run result"  \<comment> \<open>the answer to the nth start of an actor or a task\<close>
  xe_failed_posts :: "nat \<Rightarrow> nat"  \<comment> \<open>the requests of the nth start that fail in a way the client retries\<close>
  xe_get :: "string \<Rightarrow> string \<Rightarrow> remote_run option result"
  xe_recent :: "string \<Rightarrow> remote_run list result"
  xe_clock :: "nat \<Rightarrow> datetime"
  xe_others :: "nat \<Rightarrow> db \<Rightarrow> db"
  xe_broker :: broker

record start_call =
  sk_token :: string
  sk_type :: string
  sk_resource :: string
  sk_input :: json
  sk_posts :: nat  \<comment> \<open>HTTP requests that the client made for the call\<close>

record apify_state =
  as_world :: world
  as_step :: nat  \<comment> \<open>sessions run\<close>
  as_starts :: "start_call list"

abbreviation as_db :: "apify_state \<Rightarrow> db" where
  "as_db st \<equiv> w_db (as_world st)"

definition apify_session :: "apify_env \<Rightarrow> (datetime \<Rightarrow> db \<Rightarrow> exn + ('a \<times> db)) \<Rightarrow> apify_state \<Rightarrow> 'a result \<times> apify_state" where
  "apify_session E block st =
     (let k = as_step st in
      case session (block (xe_clock E k)) (xe_others E k (as_db st)) of
        (res, d) \<Rightarrow> (res, st\<lparr>as_world := (as_world st)\<lparr>w_db := d\<rparr>, as_step := Suc k\<rparr>))"

definition apify_dispatch :: "apify_env \<Rightarrow> celery_task \<Rightarrow> apify_state \<Rightarrow> string result \<times> apify_state" where
  "apify_dispatch E t st = (case dispatch (xe_broker E) t (as_world st) of (res, w) \<Rightarrow> (res, st\<lparr>as_world := w\<rparr>))"

section \<open>The copy of a remote run\<close>

definition remote_datetime :: "apify_env \<Rightarrow> json \<Rightarrow> datetime option" where
  \<comment> \<open>a \<open>datetime\<close> object of the client stands here as its ISO text\<close>
  "remote_datetime E v = (case v of JStr s \<Rightarrow> xe_date E s | _ \<Rightarrow> None)"

definition oldest_binding :: "apify_actor_binding list \<Rightarrow> apify_actor_binding option" where
  "oldest_binding rows = (case sort_key ab_created_at rows of [] \<Rightarrow> None | b # _ \<Rightarrow> Some b)"

definition local_binding :: "apify_env \<Rightarrow> uuid \<Rightarrow> remote_run \<Rightarrow> db \<Rightarrow> apify_actor_binding option result" where
  "local_binding E aid remote d =
     (let v = get_json remote ''_binding_id'' in
      if \<not> json_truthy v then Inr None
      else (case xe_uuid E (json_str (xe_text E) v) of
              None \<Rightarrow> Inl (ValueError ''badly formed hexadecimal UUID string'')
            | Some bid \<Rightarrow>
                (case get_binding bid d of
                   None \<Rightarrow> Inr None
                 | Some b \<Rightarrow> Inr (if ab_account_id b = aid then Some b else None))))"

definition remote_resource :: "remote_run \<Rightarrow> json" where
  "remote_resource remote =
     json_or (get_json remote ''actorTaskId'') (json_or (get_json remote ''actorId'') (get_json remote ''actId''))"

definition bindings_of_resource :: "apify_env \<Rightarrow> uuid \<Rightarrow> remote_run \<Rightarrow> db \<Rightarrow> apify_actor_binding list" where
  "bindings_of_resource E aid remote d =
     filter (\<lambda>b. ab_account_id b = aid \<and> (json_truthy (remote_resource remote) \<longrightarrow>
               ab_resource_id b = json_str (xe_text E) (remote_resource remote))) (apify_actor_bindings d)"

definition binding_for_remote :: "apify_env \<Rightarrow> uuid \<Rightarrow> remote_run \<Rightarrow> db \<Rightarrow> apify_actor_binding result" where
  \<comment> \<open>\<open>order_by(enabled.desc(), created_at).limit(1)\<close>: the oldest of the enabled ones, else the oldest\<close>
  "binding_for_remote E aid remote d =
     (case local_binding E aid remote d of
        Inl e \<Rightarrow> Inl e
      | Inr (Some b) \<Rightarrow> Inr b
      | Inr None \<Rightarrow>
          (let rows = bindings_of_resource E aid remote d in
           case oldest_binding (filter ab_enabled rows) of
             Some b \<Rightarrow> Inr b
           | None \<Rightarrow> (case oldest_binding rows of
                        Some b \<Rightarrow> Inr b
                      | None \<Rightarrow> Inl (ValueError ''apify_binding_not_found_for_run''))))"

definition new_apify_run :: "datetime \<Rightarrow> apify_account \<Rightarrow> uuid \<Rightarrow> string \<Rightarrow> db \<Rightarrow> apify_run" where
  "new_apify_run now account bid remote_id d =
     \<lparr>ar_id = fresh_id d, ar_workspace_id = aa_workspace_id account, ar_account_id = aa_id account, ar_binding_id = bid,
      ar_apify_run_id = remote_id, ar_status = ''READY'', ar_started_at = None, ar_finished_at = None,
      ar_default_dataset_id = None, ar_cost_usd = None, ar_items_read = 0, ar_items_imported = 0,
      ar_items_ignored = 0, ar_items_exception = 0, ar_last_error = None, ar_imported_at = None, ar_created_at = now,
      ar_updated_at = now\<rparr>"

definition find_remote_run :: "uuid \<Rightarrow> string \<Rightarrow> db \<Rightarrow> apify_run option" where
  "find_remote_run aid remote_id d = find_row (\<lambda>r. ar_account_id r = aid \<and> ar_apify_run_id r = remote_id) (apify_runs d)"

definition copy_remote :: "apify_env \<Rightarrow> remote_run \<Rightarrow> rat option \<Rightarrow> apify_run \<Rightarrow> apify_run" where
  "copy_remote E remote cost r =
     r\<lparr>ar_status := json_str (xe_text E) (json_or (get_json remote ''status'') (JStr (ar_status r))),
       ar_started_at := (case remote_datetime E (get_json remote ''startedAt'') of None \<Rightarrow> ar_started_at r | Some t \<Rightarrow> Some t),
       ar_finished_at := (case remote_datetime E (get_json remote ''finishedAt'') of None \<Rightarrow> ar_finished_at r | Some t \<Rightarrow> Some t),
       ar_default_dataset_id := (let v = get_json remote ''defaultDatasetId'' in
          if json_truthy v then Some (json_str (xe_text E) v) else ar_default_dataset_id r),
       ar_cost_usd := (case cost of None \<Rightarrow> ar_cost_usd r | Some c \<Rightarrow> Some c)\<rparr>"

definition remote_id :: "apify_env \<Rightarrow> remote_run \<Rightarrow> string" where
  "remote_id E remote = json_str (xe_text E) (json_or (get_json remote ''id'') (JStr []))"

definition remote_cost :: "apify_env \<Rightarrow> remote_run \<Rightarrow> rat option result" where
  "remote_cost E remote =
     (case get_json remote ''usageTotalUsd'' of
        JNull \<Rightarrow> Inr None
      | v \<Rightarrow> (case xe_float_of E v of None \<Rightarrow> Inl (ValueError ''could not convert to float'') | Some c \<Rightarrow> Inr (Some c)))"

definition sync_remote_run_in_session :: "apify_env \<Rightarrow> apify_account \<Rightarrow> remote_run \<Rightarrow> datetime \<Rightarrow> db \<Rightarrow> exn + (apify_run \<times> db)" where
  "sync_remote_run_in_session E account remote now d =
     (let rid = remote_id E remote in
      if rid = [] then Inl (ValueError ''apify_remote_run_id_required'')
      else
        (case (case find_remote_run (aa_id account) rid d of
                 Some r \<Rightarrow> Inr (r, d)
               | None \<Rightarrow>
                   (case binding_for_remote E (aa_id account) remote d of
                      Inl e \<Rightarrow> Inl e
                    | Inr b \<Rightarrow> (let r = new_apify_run now account (ab_id b) rid d in
                                Inr (r, d\<lparr>apify_runs := apify_runs d @ [r], fresh_id := Suc (fresh_id d)\<rparr>)))) of
           Inl e \<Rightarrow> Inl e
         | Inr (r, d1) \<Rightarrow>
             (case remote_cost E remote of
                Inl e \<Rightarrow> Inl e
              | Inr cost \<Rightarrow> Inr (copy_remote E remote cost r, set_apify_run (ar_id r) (copy_remote E remote cost) d1))))"

definition run_output :: "apify_run \<Rightarrow> apify_run result" where
  \<comment> \<open>\<open>ApifyRunOut.model_validate(row)\<close>: the status must be one of the enumeration\<close>
  "run_output r =
     (case enum_parse apify_run_status_value apify_run_status_members (ar_status r) of
        None \<Rightarrow> Inl (ValueError ''apify_run_status'')
      | Some _ \<Rightarrow> Inr r)"

definition sync_block :: "apify_env \<Rightarrow> uuid \<Rightarrow> remote_run \<Rightarrow> datetime \<Rightarrow> db \<Rightarrow> exn + (apify_run \<times> db)" where
  "sync_block E aid remote now d =
     (case get_apify_account aid d of
        None \<Rightarrow> Inl (LookupError ''apify_account_not_found'')
      | Some account \<Rightarrow>
          (case sync_remote_run_in_session E account remote now d of
             Inl e \<Rightarrow> Inl e
           | Inr (r, d1) \<Rightarrow> (case run_output r of Inl e \<Rightarrow> Inl e | Inr out \<Rightarrow> Inr (out, d1))))"

definition sync_remote_run :: "apify_env \<Rightarrow> uuid \<Rightarrow> remote_run \<Rightarrow> apify_state \<Rightarrow> apify_run result \<times> apify_state" where
  "sync_remote_run E aid remote st = apify_session E (sync_block E aid remote) st"

section \<open>The launch\<close>

record launch_plan =
  lp_token :: string
  lp_input :: json
  lp_next_run :: "datetime option"  \<comment> \<open>\<open>original_next_run_at\<close>\<close>
  lp_type :: string
  lp_resource :: string
  lp_account :: uuid

definition runnable :: "apify_actor_binding \<Rightarrow> bool" where
  "runnable b = (ab_enabled b \<and> ab_suspended_reason b \<in> {None, Some []})"

definition launch_input :: "apify_env \<Rightarrow> apify_actor_binding \<Rightarrow> json result" where
  "launch_input E b =
     (case open_secret (xe_fernet E) (xe_settings E) (ab_input_ciphertext b) of
        Inl e \<Rightarrow> Inl e
      | Inr s \<Rightarrow> xe_loads E (if s = [] then ''{}'' else s))"

definition after_launch :: "datetime \<Rightarrow> apify_actor_binding \<Rightarrow> apify_actor_binding" where
  "after_launch now b =
     (if ab_schedule_authority b = ''internal'' \<and> ab_schedule_minutes b \<notin> {None, Some 0}
      then b\<lparr>ab_next_run_at := Some (now + minutes (the (ab_schedule_minutes b)))\<rparr> else b)"

definition plan_launch :: "apify_env \<Rightarrow> uuid \<Rightarrow> bool \<Rightarrow> datetime \<Rightarrow> db \<Rightarrow> exn + (launch_plan \<times> db)" where
  "plan_launch E bid locked now d =
     (case (if locked then None else get_binding bid d) of
        None \<Rightarrow> Inl (LookupError ''apify_binding_not_found_or_locked'')
      | Some b \<Rightarrow>
          if \<not> runnable b then Inl (ValueError ''apify_binding_not_runnable'')
          else
            (case get_apify_account (ab_account_id b) d of
               None \<Rightarrow> Inl (ValueError ''apify_account_not_active'')
             | Some account \<Rightarrow>
                 if aa_status account \<noteq> ''active'' then Inl (ValueError ''apify_account_not_active'')
                 else
                   (case open_secret (xe_fernet E) (xe_settings E) (aa_token_ciphertext account) of
                      Inl e \<Rightarrow> Inl e
                    | Inr token \<Rightarrow>
                        (case launch_input E b of
                           Inl e \<Rightarrow> Inl e
                         | Inr run_input \<Rightarrow>
                             Inr (\<lparr>lp_token = token, lp_input = run_input, lp_next_run = ab_next_run_at b,
                                   lp_type = ab_resource_type b, lp_resource = ab_resource_id b,
                                   lp_account = aa_id account\<rparr>,
                                  set_binding bid (after_launch now) d)))))"

definition APIFY_CLIENT_RETRIES :: nat where
  \<comment> \<open>\<open>max_retries\<close> of \<open>_apify_client\<close>: how often the client retries a failed request at most\<close>
  "APIFY_CLIENT_RETRIES = 5"

definition apify_start_resource :: "apify_env \<Rightarrow> launch_plan \<Rightarrow> apify_state \<Rightarrow> remote_run result \<times> apify_state" where
  \<comment> \<open>every request of the call carries the input, and a request that fails may have started the actor\<close>
  "apify_start_resource E p st =
     (if lp_type p \<notin> set [''actor'', ''task''] then (Inl (ValueError ''resource_type must be actor or task''), st)
      else (xe_start E (length (as_starts st)),
            st\<lparr>as_starts := as_starts st @ [\<lparr>sk_token = lp_token p, sk_type = lp_type p, sk_resource = lp_resource p,
                 sk_input = lp_input p, sk_posts = Suc (min APIFY_CLIENT_RETRIES (xe_failed_posts E (length (as_starts st))))\<rparr>]\<rparr>))"

definition launch_audit :: "datetime \<Rightarrow> uuid \<Rightarrow> (string, json) dict \<Rightarrow> string \<Rightarrow> db \<Rightarrow> db" where
  "launch_audit now bid summary rstatus =
     system_audit now ''apify.binding.launch'' ''apify_binding'' (str_uuid bid) (Some summary) rstatus"

definition launch_failed :: "uuid \<Rightarrow> string \<Rightarrow> datetime option \<Rightarrow> exn \<Rightarrow> datetime \<Rightarrow> db \<Rightarrow> exn + (unit \<times> db)" where
  "launch_failed bid trigger original e now d =
     Inr ((), (if get_binding bid d = None then d
               else launch_audit now bid [(''trigger'', JStr trigger), (''error'', JStr (take 300 (exn_str e)))] ''failed''
                      (set_binding bid (\<lambda>b. b\<lparr>ab_next_run_at := original\<rparr>) d)))"

definition launch_binding :: "apify_env \<Rightarrow> uuid \<Rightarrow> string \<Rightarrow> apify_state \<Rightarrow> apify_run result \<times> apify_state" where
  "launch_binding E bid trigger st =
     (case apify_session E (plan_launch E bid (xe_locked E (as_step st))) st of
        (Inl e, st1) \<Rightarrow> (Inl e, st1)
      | (Inr p, st1) \<Rightarrow>
          (case apify_start_resource E p st1 of
             (Inl e, st2) \<Rightarrow> (Inl e, snd (apify_session E (launch_failed bid trigger (lp_next_run p) e) st2))
           | (Inr remote, st2) \<Rightarrow>
               (case sync_remote_run E (lp_account p) (dict_set ''_binding_id'' (JStr (str_uuid bid)) remote) st2 of
                  (Inl e, st3) \<Rightarrow> (Inl e, st3)
                | (Inr out, st3) \<Rightarrow>
                    (case apify_session E (\<lambda>now d. Inr ((), launch_audit now bid [(''trigger'', JStr trigger)] ''success'' d)) st3 of
                       (Inl e, st4) \<Rightarrow> (Inl e, st4)
                     | (Inr _, st4) \<Rightarrow> (Inr out, st4)))))"

definition due_binding :: "datetime \<Rightarrow> apify_actor_binding \<Rightarrow> bool" where
  "due_binding now b =
     (ab_enabled b \<and> ab_schedule_authority b = ''internal'' \<and> ab_suspended_reason b = None
      \<and> (case ab_next_run_at b of None \<Rightarrow> False | Some t \<Rightarrow> t \<le> now))"

definition get_due_binding_ids :: "datetime \<Rightarrow> db \<Rightarrow> uuid list" where
  "get_due_binding_ids now d = map ab_id (filter (due_binding now) (apify_actor_bindings d))"

section \<open>Reconciliation and replay\<close>

definition token_block :: "apify_env \<Rightarrow> uuid \<Rightarrow> string \<Rightarrow> db \<Rightarrow> exn + ((apify_run + string) \<times> db)" where
  \<comment> \<open>the first session of \<open>get_or_sync_remote_run\<close>: the row, or the token to ask for it\<close>
  "token_block E aid rid d =
     (case find_remote_run aid rid d of
        Some r \<Rightarrow> (case run_output r of Inl e \<Rightarrow> Inl e | Inr out \<Rightarrow> Inr (Inl out, d))
      | None \<Rightarrow>
          (case get_apify_account aid d of
             None \<Rightarrow> Inl (LookupError ''apify_account_not_found'')
           | Some account \<Rightarrow>
               (case open_secret (xe_fernet E) (xe_settings E) (aa_token_ciphertext account) of
                  Inl e \<Rightarrow> Inl e
                | Inr token \<Rightarrow> Inr (Inr token, d))))"

definition get_or_sync_remote_run :: "apify_env \<Rightarrow> uuid \<Rightarrow> string \<Rightarrow> apify_state \<Rightarrow> apify_run result \<times> apify_state" where
  "get_or_sync_remote_run E aid rid st =
     (case apify_session E (\<lambda>_. token_block E aid rid) st of
        (Inl e, st1) \<Rightarrow> (Inl e, st1)
      | (Inr (Inl out), st1) \<Rightarrow> (Inr out, st1)
      | (Inr (Inr token), st1) \<Rightarrow>
          (case xe_get E token rid of
             Inl e \<Rightarrow> (Inl e, st1)
           | Inr None \<Rightarrow> (Inl (LookupError ''apify_remote_run_not_found''), st1)
           | Inr (Some remote) \<Rightarrow> sync_remote_run E aid remote st1))"

fun open_tokens :: "apify_env \<Rightarrow> apify_account list \<Rightarrow> (uuid \<times> string) list result" where
  "open_tokens E [] = Inr []"
| "open_tokens E (a # as) =
     (case open_secret (xe_fernet E) (xe_settings E) (aa_token_ciphertext a) of
        Inl e \<Rightarrow> Inl e
      | Inr t \<Rightarrow> map_sum id ((#) (aa_id a, t)) (open_tokens E as))"

definition active_credentials :: "apify_env \<Rightarrow> db \<Rightarrow> exn + ((uuid \<times> string) list \<times> db)" where
  "active_credentials E d =
     map_sum id (\<lambda>cs. (cs, d)) (open_tokens E (filter (\<lambda>a. aa_status a = ''active'') (apify_accounts d)))"

definition import_task :: "uuid \<Rightarrow> string \<Rightarrow> celery_task" where
  "import_task aid rid = (''import_apify_run_task'', [JStr (str_uuid aid), JStr rid])"

fun reconcile_account :: "apify_env \<Rightarrow> uuid \<Rightarrow> remote_run list \<Rightarrow> nat \<times> nat \<Rightarrow> apify_state
    \<Rightarrow> (nat \<times> nat) result \<times> apify_state" where
  \<comment> \<open>the counters are those of the runs seen and of the imports queued\<close>
  "reconcile_account E aid [] c st = (Inr c, st)"
| "reconcile_account E aid (remote # rest) (n, q) st =
     (case sync_remote_run E aid remote st of
        (Inl e, st1) \<Rightarrow> (Inl e, st1)
      | (Inr run, st1) \<Rightarrow>
          if ar_status run = ''SUCCEEDED'' \<and> ar_imported_at run = None then
            (case apify_dispatch E (import_task aid (ar_apify_run_id run)) st1 of
               (Inl e, st2) \<Rightarrow> (Inl e, st2)
             | (Inr _, st2) \<Rightarrow> reconcile_account E aid rest (n + 1, q + 1) st2)
          else reconcile_account E aid rest (n + 1, q) st1)"

fun reconcile_accounts :: "apify_env \<Rightarrow> (uuid \<times> string) list \<Rightarrow> nat \<times> nat \<Rightarrow> apify_state
    \<Rightarrow> (nat \<times> nat) result \<times> apify_state" where
  "reconcile_accounts E [] c st = (Inr c, st)"
| "reconcile_accounts E ((aid, token) # rest) c st =
     (case xe_recent E token of
        Inl e \<Rightarrow> (Inl e, st)
      | Inr remotes \<Rightarrow>
          (case reconcile_account E aid remotes c st of
             (Inl e, st1) \<Rightarrow> (Inl e, st1)
           | (Inr c1, st1) \<Rightarrow> reconcile_accounts E rest c1 st1))"

record reconciled =
  rn_accounts :: nat
  rn_runs :: nat
  rn_queued :: nat

definition reconcile_runs :: "apify_env \<Rightarrow> apify_state \<Rightarrow> reconciled result \<times> apify_state" where
  "reconcile_runs E st =
     (case apify_session E (\<lambda>_. active_credentials E) st of
        (Inl e, st1) \<Rightarrow> (Inl e, st1)
      | (Inr creds, st1) \<Rightarrow>
          (case reconcile_accounts E creds (0, 0) st1 of
             (Inl e, st2) \<Rightarrow> (Inl e, st2)
           | (Inr (n, q), st2) \<Rightarrow> (Inr \<lparr>rn_accounts = length creds, rn_runs = n, rn_queued = q\<rparr>, st2)))"

definition replay_block :: "uuid \<Rightarrow> db \<Rightarrow> exn + ((uuid \<times> string) \<times> db)" where
  "replay_block rid d =
     (case get_run rid d of
        None \<Rightarrow> Inl (LookupError ''apify_run_not_found'')
      | Some r \<Rightarrow>
          if ar_status r \<noteq> ''SUCCEEDED'' \<or> ar_default_dataset_id r \<in> {None, Some []}
          then Inl (ValueError ''apify_run_not_replayable'')
          else Inr ((ar_account_id r, ar_apify_run_id r), d))"

definition replay_run :: "apify_env \<Rightarrow> uuid \<Rightarrow> apify_state \<Rightarrow> nat result \<times> apify_state" where
  "replay_run E rid st =
     (case apify_session E (\<lambda>_. replay_block rid) st of
        (Inl e, st1) \<Rightarrow> (Inl e, st1)
      | (Inr (aid, remote), st1) \<Rightarrow>
          (case apify_dispatch E (import_task aid remote) st1 of
             (Inl e, st2) \<Rightarrow> (Inl e, st2)
           | (Inr _, st2) \<Rightarrow> (Inr 1, st2)))"

section \<open>The webhook\<close>

record apify_hook =
  ah_event :: string
  ah_resource :: remote_run
  ah_data :: "(string, json) dict"

definition hook_key :: "apify_env \<Rightarrow> uuid \<Rightarrow> apify_hook \<Rightarrow> string" where
  "hook_key E aid h =
     sha256_hex (''apify:'' @ str_uuid aid @ '':'' @ ah_event h @ '':'' @ remote_id E (ah_resource h) @ '':''
       @ json_str (xe_text E) (case dict_get (ah_resource h) ''status'' of None \<Rightarrow> JStr [] | Some v \<Rightarrow> v))"

definition hook_payload :: "apify_hook \<Rightarrow> json" where
  \<comment> \<open>\<open>model_dump(by_alias=True)\<close>\<close>
  "hook_payload h = JObj [(''eventType'', JStr (ah_event h)), (''resource'', JObj (ah_resource h)), (''eventData'', JObj (ah_data h))]"

definition webhook_block :: "apify_env \<Rightarrow> uuid \<Rightarrow> apify_hook \<Rightarrow> string option \<Rightarrow> datetime \<Rightarrow> db \<Rightarrow> exn + (bool \<times> db)" where
  "webhook_block E aid h authorization now d =
     (case get_apify_account aid d of
        None \<Rightarrow> Inl (LookupError ''apify_account_not_found'')
      | Some account \<Rightarrow>
          (case open_secret (xe_fernet E) (xe_settings E) (aa_webhook_secret_ciphertext account) of
             Inl e \<Rightarrow> Inl e
           | Inr secret \<Rightarrow>
               (case (case authorization of None \<Rightarrow> Inr False | Some a \<Rightarrow> compare_digest a (''Bearer '' @ secret)) of
                  Inl e \<Rightarrow> Inl e
                | Inr False \<Rightarrow> Inl (PermissionError ''invalid_apify_webhook_secret'')
                | Inr True \<Rightarrow>
                    (case insert_event now (hook_key E aid h) ''apify'' (Some (hook_payload h)) d of
                       (False, d1) \<Rightarrow> Inr (False, d1)
                     | (True, d1) \<Rightarrow>
                         (case sync_remote_run_in_session E account (ah_resource h) now d1 of
                            Inl e \<Rightarrow> Inl e
                          | Inr (_, d2) \<Rightarrow> Inr (True, d2))))))"

definition accept_webhook :: "apify_env \<Rightarrow> uuid \<Rightarrow> apify_hook \<Rightarrow> string option \<Rightarrow> apify_state \<Rightarrow> bool result \<times> apify_state" where
  "accept_webhook E aid h authorization st =
     (if remote_id E (ah_resource h) = [] then (Inl (ValueError ''apify_remote_run_id_required''), st)
      else apify_session E (webhook_block E aid h authorization) st)"

definition receive_apify_webhook :: "apify_env \<Rightarrow> uuid \<Rightarrow> apify_hook \<Rightarrow> string option \<Rightarrow> apify_state
    \<Rightarrow> bool result \<times> apify_state" where
  \<comment> \<open>the route: \<open>{"accepted": True}\<close> or an error\<close>
  "receive_apify_webhook E aid h authorization st =
     (case accept_webhook E aid h authorization st of
        (Inl (LookupError m), st1) \<Rightarrow> (Inl (HTTPException 401 ''invalid_apify_webhook''), st1)
      | (Inl (PermissionError m), st1) \<Rightarrow> (Inl (HTTPException 401 ''invalid_apify_webhook''), st1)
      | (Inl e, st1) \<Rightarrow> (Inl e, st1)
      | (Inr queued, st1) \<Rightarrow>
          if queued then
            (case apify_dispatch E (import_task aid (json_str (xe_text E) (get_json (ah_resource h) ''id''))) st1 of
               (Inl e, st2) \<Rightarrow> (Inl e, st2)
             | (Inr _, st2) \<Rightarrow> (Inr True, st2))
          else (Inr True, st1))"
section \<open>An event is accepted once\<close>

definition hook_keys :: "db \<Rightarrow> string set" where
  "hook_keys d = we_event_key ` set (webhook_events d)"

lemma insert_event_keys:
  "insert_event now k src p d = (fresh, d') \<Longrightarrow>
     (fresh \<longrightarrow> k \<notin> hook_keys d \<and> hook_keys d' = insert k (hook_keys d)) \<and> (\<not> fresh \<longrightarrow> k \<in> hook_keys d \<and> d' = d)"
  by (auto simp: insert_event_def insert_new_def new_event_def hook_keys_def split: if_splits)

lemma sync_keeps_events:
  "sync_remote_run_in_session E a remote now d = Inr (r, d') \<Longrightarrow> hook_keys d' = hook_keys d"
  by (auto simp: sync_remote_run_in_session_def set_apify_run_def hook_keys_def Let_def split: if_splits option.splits sum.splits)

lemma webhook_block_keys:
  assumes "webhook_block E aid h auth now d = Inr (fresh, d')"
  shows "(fresh \<longrightarrow> hook_key E aid h \<notin> hook_keys d \<and> hook_keys d' = insert (hook_key E aid h) (hook_keys d))
    \<and> (\<not> fresh \<longrightarrow> d' = d)
    \<and> (\<exists>account secret. get_apify_account aid d = Some account
         \<and> open_secret (xe_fernet E) (xe_settings E) (aa_webhook_secret_ciphertext account) = Inr secret
         \<and> auth = Some (''Bearer '' @ secret))"
  using assms
  by (auto simp: webhook_block_def compare_digest_Inr split: option.splits sum.splits if_splits prod.splits bool.splits
      dest!: insert_event_keys sync_keeps_events)

text \<open>
  A delivery and what the other sessions committed before it; \<open>accepted\<close> is the keys it accepted.
\<close>

record delivery =
  dv_others :: "db \<Rightarrow> db"
  dv_env :: apify_env
  dv_account :: uuid
  dv_hook :: apify_hook
  dv_authorization :: "string option"
  dv_now :: datetime

definition deliver_hook :: "delivery \<Rightarrow> db \<Rightarrow> bool result \<times> db" where
  "deliver_hook v d = session (webhook_block (dv_env v) (dv_account v) (dv_hook v) (dv_authorization v) (dv_now v)) (dv_others v d)"

definition delivery_key :: "delivery \<Rightarrow> string" where
  "delivery_key v = hook_key (dv_env v) (dv_account v) (dv_hook v)"

definition accepted :: "delivery \<Rightarrow> db \<Rightarrow> string list \<times> db" where
  "accepted v d = (case deliver_hook v d of (res, d') \<Rightarrow> (if res = Inr True then [delivery_key v] else [], d'))"

definition keeps_events :: "delivery \<Rightarrow> bool" where
  "keeps_events v = (\<forall>d. hook_keys d \<subseteq> hook_keys (dv_others v d))"

definition kept_delivery :: "delivery \<Rightarrow> db \<Rightarrow> string list \<times> db" where
  "kept_delivery v d = (if keeps_events v then accepted v d else ([], d))"

lemma kept_delivery_grows:
  "distinct (fst (kept_delivery v d)) \<and> set (fst (kept_delivery v d)) \<inter> hook_keys d = {}
     \<and> hook_keys d \<union> set (fst (kept_delivery v d)) \<subseteq> hook_keys (snd (kept_delivery v d))"
proof (cases "keeps_events v")
  case True
  then have sub: "hook_keys d \<subseteq> hook_keys (dv_others v d)" by (simp add: keeps_events_def)
  show ?thesis
  proof (cases "webhook_block (dv_env v) (dv_account v) (dv_hook v) (dv_authorization v) (dv_now v) (dv_others v d)")
    case (Inl e)
    with True sub show ?thesis by (simp add: kept_delivery_def accepted_def deliver_hook_def session_def)
  next
    case (Inr p)
    obtain fresh d' where p: "p = (fresh, d')" by fastforce
    from webhook_block_keys [OF Inr [unfolded p]] True sub Inr p show ?thesis
      by (cases fresh) (auto simp: kept_delivery_def accepted_def deliver_hook_def session_def delivery_key_def)
  qed
qed (simp add: kept_delivery_def)

interpretation hook_ledger: ledger "\<lambda>_. True" hook_keys kept_delivery
  by unfold_locales (use kept_delivery_grows in blast)+

fun delivery_history :: "delivery list \<Rightarrow> db \<Rightarrow> string list \<times> db" where
  "delivery_history [] d = ([], d)"
| "delivery_history (v # vs) d =
     (case accepted v d of (ks, d1) \<Rightarrow> (case delivery_history vs d1 of (ks', d2) \<Rightarrow> (ks @ ks', d2)))"

lemma delivery_history_ledger: "\<forall>v\<in>set vs. keeps_events v \<Longrightarrow> delivery_history vs d = hook_ledger.history vs d"
  by (induction vs arbitrary: d) (auto simp: kept_delivery_def split: prod.splits)

text \<open>
  C9. Over any sequence of deliveries to the Apify webhook, repeated and forged ones included, an event
  of a run is accepted at most once, and not at all when it was stored before; and a delivery is accepted only
  when it carries the secret of the account it is sent to.
\<close>

theorem apify_event_once:
  assumes "\<forall>v\<in>set vs. keeps_events v"
  shows "distinct (fst (delivery_history vs d)) \<and> set (fst (delivery_history vs d)) \<inter> hook_keys d = {}
    \<and> (\<forall>v d0. fst (accepted v d0) \<noteq> [] \<longrightarrow>
         (\<exists>account secret. get_apify_account (dv_account v) (dv_others v d0) = Some account
            \<and> open_secret (xe_fernet (dv_env v)) (xe_settings (dv_env v)) (aa_webhook_secret_ciphertext account) = Inr secret
            \<and> dv_authorization v = Some (''Bearer '' @ secret)))"
proof -
  have "\<exists>account secret. get_apify_account (dv_account v) (dv_others v d0) = Some account
      \<and> open_secret (xe_fernet (dv_env v)) (xe_settings (dv_env v)) (aa_webhook_secret_ciphertext account) = Inr secret
      \<and> dv_authorization v = Some (''Bearer '' @ secret)" if taken: "fst (accepted v d0) \<noteq> []" for v d0
  proof -
    obtain d' where "webhook_block (dv_env v) (dv_account v) (dv_hook v) (dv_authorization v) (dv_now v) (dv_others v d0) = Inr (True, d')"
      using taken by (cases "webhook_block (dv_env v) (dv_account v) (dv_hook v) (dv_authorization v) (dv_now v) (dv_others v d0)")
        (auto simp: accepted_def deliver_hook_def session_def split: if_splits)
    from webhook_block_keys [OF this] show ?thesis by blast
  qed
  then show ?thesis
    using hook_ledger.history_once [where es = vs and d = d] delivery_history_ledger [OF assms] by simp
qed

section \<open>Reconciliation stops at an unbound run\<close>

definition quiet :: "apify_env \<Rightarrow> bool" where
  "quiet E = (\<forall>k d. xe_others E k d = d)"

text \<open>
  \<open>unbound E st aid remote\<close>: the first of the recent runs of the first active account is a run that
  the database does not know, of an actor that no binding of that account names.
\<close>

definition starts_unbound :: "apify_env \<Rightarrow> uuid \<Rightarrow> remote_run list \<Rightarrow> db \<Rightarrow> bool" where
  "starts_unbound E aid remotes d =
     (case remotes of
        [] \<Rightarrow> False
      | remote # _ \<Rightarrow>
          get_apify_account aid d \<noteq> None \<and> remote_id E remote \<noteq> [] \<and> find_remote_run aid (remote_id E remote) d = None
          \<and> \<not> json_truthy (get_json remote ''_binding_id'') \<and> bindings_of_resource E aid remote d = [])"

definition unbound :: "apify_env \<Rightarrow> db \<Rightarrow> bool" where
  "unbound E d =
     (case open_tokens E (filter (\<lambda>a. aa_status a = ''active'') (apify_accounts d)) of
        Inr ((aid, token) # _) \<Rightarrow> (case xe_recent E token of Inr remotes \<Rightarrow> starts_unbound E aid remotes d | Inl _ \<Rightarrow> False)
      | _ \<Rightarrow> False)"

lemma unbound_reconcile:
  assumes "quiet E" "unbound E (as_db st)"
  shows "\<exists>st'. reconcile_runs E st = (Inl (ValueError ''apify_binding_not_found_for_run''), st')
    \<and> as_world st' = as_world st"
proof -
  let ?d = "as_db st"
  obtain aid token rest where
    creds: "open_tokens E (filter (\<lambda>a. aa_status a = ''active'') (apify_accounts ?d)) = Inr ((aid, token) # rest)"
    using assms(2) unfolding unbound_def by (auto split: sum.splits list.splits prod.splits)
  then obtain remotes where remotes: "xe_recent E token = Inr remotes" and starts: "starts_unbound E aid remotes ?d"
    using assms(2) by (cases "xe_recent E token") (auto simp: unbound_def)
  obtain remote more account where recent: "xe_recent E token = Inr (remote # more)"
    and run: "get_apify_account aid ?d = Some account" "remote_id E remote \<noteq> []"
      "find_remote_run aid (remote_id E remote) ?d = None"
      "\<not> json_truthy (get_json remote ''_binding_id'')" "bindings_of_resource E aid remote ?d = []"
    using remotes starts by (auto simp: starts_unbound_def split: list.splits)
  have id: "aa_id account = aid" using run(1) by (auto simp: get_apify_account_def dest: find_row_SomeD)
  have "sync_block E aid remote now ?d = Inl (ValueError ''apify_binding_not_found_for_run'')" for now
    using run by (simp add: sync_block_def sync_remote_run_in_session_def Let_def id binding_for_remote_def
        local_binding_def oldest_binding_def)
  then show ?thesis
    using assms(1) creds recent
    by (simp add: reconcile_runs_def apify_session_def session_def active_credentials_def quiet_def Let_def
        sync_remote_run_def)
qed

text \<open>
  An account that runs one actor which no binding names stops the reconciliation for good: as long
  as that run is the latest of the first active account, every execution of the task raises at
  it, and neither the later runs of the account nor any other account is looked at; nothing is stored and no
  import is queued, however many times it runs.
\<close>

theorem unbound_run_stops_reconcile:
  assumes "quiet E" "unbound E (as_db st)"
  shows "fst (reconcile_runs E (((\<lambda>s. snd (reconcile_runs E s)) ^^ n) st)) = Inl (ValueError ''apify_binding_not_found_for_run'')
    \<and> as_world (((\<lambda>s. snd (reconcile_runs E s)) ^^ n) st) = as_world st"
proof (induction n)
  case 0
  then show ?case using unbound_reconcile [OF assms] by auto
next
  case (Suc n)
  let ?s = "((\<lambda>s. snd (reconcile_runs E s)) ^^ n) st"
  have w: "as_world ?s = as_world st" using Suc by simp
  then have "unbound E (as_db ?s)" using assms(2) by simp
  then obtain s1 where s1: "reconcile_runs E ?s = (Inl (ValueError ''apify_binding_not_found_for_run''), s1)"
    "as_world s1 = as_world st"
    using unbound_reconcile [OF assms(1), of ?s] w by auto
  then have "unbound E (as_db s1)" using assms(2) by simp
  then show ?case using unbound_reconcile [OF assms(1), of s1] s1 by auto
qed

section \<open>Launches\<close>

lemma quiet_session: "quiet E \<Longrightarrow> apify_session E block st =
    (case session (block (xe_clock E (as_step st))) (as_db st) of
       (res, d) \<Rightarrow> (res, st\<lparr>as_world := (as_world st)\<lparr>w_db := d\<rparr>, as_step := Suc (as_step st)\<rparr>))"
  by (simp add: apify_session_def quiet_def Let_def)

lemma after_launch_fields [simp]:
  "ab_id (after_launch now b) = ab_id b" "ab_account_id (after_launch now b) = ab_account_id b"
  "ab_enabled (after_launch now b) = ab_enabled b" "ab_suspended_reason (after_launch now b) = ab_suspended_reason b"
  "ab_resource_type (after_launch now b) = ab_resource_type b" "ab_resource_id (after_launch now b) = ab_resource_id b"
  "ab_input_ciphertext (after_launch now b) = ab_input_ciphertext b"
  "ab_schedule_authority (after_launch now b) = ab_schedule_authority b"
  "ab_schedule_minutes (after_launch now b) = ab_schedule_minutes b"
  by (simp_all add: after_launch_def)

text \<open>
  C38. When Apify refuses the start and no other session interferes, the failure costs the binding no turn: its row is exactly what it
  was (the schedule moved on before the call is moved back), so it is due again at once, and the
  failure is audited with the trigger and the text of the error.
\<close>

theorem refused_launch_restores_schedule:
  assumes "quiet E" and "plan_launch E bid (xe_locked E (as_step st)) (xe_clock E (as_step st)) (as_db st) = Inr (p, d1)"
    and "lp_type p \<in> {''actor'', ''task''}" and "xe_start E (length (as_starts st)) = Inl e"
    and "distinct (map ab_id (apify_actor_bindings (as_db st)))"
  shows "\<exists>st'. launch_binding E bid trigger st = (Inl e, st')
    \<and> apify_actor_bindings (as_db st') = apify_actor_bindings (as_db st)
    \<and> length (as_starts st') = Suc (length (as_starts st))
    \<and> map ae_result_status (audit_events (as_db st')) = map ae_result_status (audit_events (as_db st)) @ [''failed'']"
proof -
  let ?d = "as_db st"
  obtain b where b: "get_binding bid ?d = Some b" "lp_next_run p = ab_next_run_at b"
    and d1: "d1 = set_binding bid (after_launch (xe_clock E (as_step st))) ?d"
    using assms(2) by (auto simp: plan_launch_def split: option.splits if_splits sum.splits)
  have id: "b \<in> set (apify_actor_bindings ?d)" "ab_id b = bid"
    using b(1) by (auto simp: get_binding_def dest: find_row_SomeD)
  have found: "get_binding bid d1 \<noteq> None"
    using b(1) by (simp add: d1 get_binding_def set_binding_def find_update_where)
  have only: "x = b" if "x \<in> set (apify_actor_bindings ?d)" "ab_id x = bid" for x
    using that id assms(5) by (auto simp: distinct_map dest: inj_onD)
  have "(after_launch t b)\<lparr>ab_next_run_at := ab_next_run_at b\<rparr> = b" for t by (simp add: after_launch_def)
  then have restored: "apify_actor_bindings (set_binding bid (\<lambda>x. x\<lparr>ab_next_run_at := lp_next_run p\<rparr>) d1) = apify_actor_bindings ?d"
    using only by (auto simp: d1 set_binding_def update_where_def b(2) intro!: map_idI)
  have "audit_events d1 = audit_events ?d" by (simp add: d1 set_binding_def)
  with restored found assms show ?thesis
    by (simp add: launch_binding_def quiet_session session_def apify_start_resource_def launch_failed_def launch_audit_def
        system_audit_def set_binding_def)
qed
lemma sync_block_frame:
  "sync_block E aid remote now d = Inr (r, d') \<Longrightarrow>
     apify_actor_bindings d' = apify_actor_bindings d \<and> apify_accounts d' = apify_accounts d"
  by (auto simp: sync_block_def sync_remote_run_in_session_def set_apify_run_def Let_def split: if_splits option.splits sum.splits)

lemma plan_launch_again:
  assumes "plan_launch E bid l now d = Inr (p, d1)"
    and "apify_actor_bindings d2 = apify_actor_bindings d1" "apify_accounts d2 = apify_accounts d1"
  shows "\<exists>p' d3. plan_launch E bid False now' d2 = Inr (p', d3)
    \<and> lp_token p' = lp_token p \<and> lp_type p' = lp_type p \<and> lp_resource p' = lp_resource p \<and> lp_input p' = lp_input p"
proof -
  obtain b account where b: "get_binding bid d = Some b" "runnable b"
      "get_apify_account (ab_account_id b) d = Some account" "aa_status account = ''active''"
      "open_secret (xe_fernet E) (xe_settings E) (aa_token_ciphertext account) = Inr (lp_token p)"
      "launch_input E b = Inr (lp_input p)"
    and p: "lp_type p = ab_resource_type b" "lp_resource p = ab_resource_id b"
    and d1: "d1 = set_binding bid (after_launch now) d"
    using assms(1) by (auto simp: plan_launch_def split: option.splits if_splits sum.splits)
  have "get_binding bid d2 = Some (after_launch now b)"
    using b(1) assms(2) by (auto simp: d1 get_binding_def set_binding_def find_update_where dest: find_row_SomeD)
  moreover have "get_apify_account (ab_account_id b) d2 = Some account"
    using b(3) assms(3) by (simp add: get_apify_account_def d1 set_binding_def)
  ultimately show ?thesis
    using b p by (simp add: plan_launch_def runnable_def launch_input_def)
qed

text \<open>
  A launch does not look at the schedule that the dispatcher read. When the queue is slower than
  the minute between two dispatches, the same binding is queued twice, and the second task starts the
  actor again with the same input right after the first one, although that launch has moved
  the next run into the future: the paid run is done twice.
\<close>

theorem queued_twice_starts_twice:
  assumes "quiet E" and "plan_launch E bid (xe_locked E (as_step st)) (xe_clock E (as_step st)) (as_db st) = Inr (p, d1)"
    and "lp_type p \<in> {''actor'', ''task''}" and "launch_binding E bid trigger st = (Inr out, st1)"
    and "\<not> xe_locked E (as_step st1)"
  shows "\<exists>n m. as_starts (snd (launch_binding E bid trigger st1))
    = as_starts st @ [\<lparr>sk_token = lp_token p, sk_type = lp_type p, sk_resource = lp_resource p, sk_input = lp_input p, sk_posts = n\<rparr>,
                      \<lparr>sk_token = lp_token p, sk_type = lp_type p, sk_resource = lp_resource p, sk_input = lp_input p, sk_posts = m\<rparr>]
    \<and> 1 \<le> n \<and> 1 \<le> m"
proof -
  let ?posts = "\<lambda>n. Suc (min APIFY_CLIENT_RETRIES (xe_failed_posts E n))"
  let ?c = "\<lambda>n. \<lparr>sk_token = lp_token p, sk_type = lp_type p, sk_resource = lp_resource p, sk_input = lp_input p, sk_posts = ?posts n\<rparr>"
  obtain remote where start: "xe_start E (length (as_starts st)) = Inr remote"
    using assms by (cases "xe_start E (length (as_starts st))")
      (auto simp: launch_binding_def quiet_session session_def apify_start_resource_def launch_failed_def)
  let ?remote = "dict_set ''_binding_id'' (JStr (str_uuid bid)) remote"
  obtain d2 where sync: "sync_block E (lp_account p) ?remote (xe_clock E (Suc (as_step st))) d1 = Inr (out, d2)"
    and st1: "as_db st1 = launch_audit (xe_clock E (Suc (Suc (as_step st)))) bid [(''trigger'', JStr trigger)] ''success'' d2"
      "as_starts st1 = as_starts st @ [?c (length (as_starts st))]"
    using assms(1-4) start
    by (cases "sync_block E (lp_account p) ?remote (xe_clock E (Suc (as_step st))) d1")
      (auto simp: launch_binding_def quiet_session session_def apify_start_resource_def sync_remote_run_def)
  have "apify_actor_bindings (as_db st1) = apify_actor_bindings d1" "apify_accounts (as_db st1) = apify_accounts d1"
    using sync_block_frame [OF sync] by (simp_all add: st1 launch_audit_def system_audit_def)
  from plan_launch_again [OF assms(2) this, of "xe_clock E (as_step st1)"] obtain p' d3 where
    p': "plan_launch E bid False (xe_clock E (as_step st1)) (as_db st1) = Inr (p', d3)"
      "lp_token p' = lp_token p" "lp_type p' = lp_type p" "lp_resource p' = lp_resource p" "lp_input p' = lp_input p" by blast
  have after: "as_starts (snd (apify_session E block s)) = as_starts s" for block :: "datetime \<Rightarrow> db \<Rightarrow> exn + ('a \<times> db)" and s
    by (simp add: quiet_session [OF assms(1)] split: prod.splits)
  show ?thesis
    using assms(1,3,5) p' st1(2)
    by (simp add: launch_binding_def quiet_session session_def apify_start_resource_def sync_remote_run_def
        split: sum.splits prod.splits)
qed

section \<open>Witnesses\<close>

definition demo_apify_env :: "(nat \<Rightarrow> remote_run result) \<Rightarrow> apify_env" where
  "demo_apify_env start = \<lparr>xe_settings = default_settings\<lparr>apify_token_encryption_key := ''k''\<rparr>, xe_fernet = demo_fernet,
     xe_text = (\<lambda>_. ''?''), xe_float_of = (\<lambda>_. None), xe_uuid = (\<lambda>_. Some 2), xe_date = (\<lambda>_. None),
     xe_loads = (\<lambda>_. Inr (JObj [])), xe_locked = (\<lambda>_. False), xe_start = start, xe_failed_posts = (\<lambda>_. 0), xe_get = (\<lambda>_ _. Inr None),
     xe_recent = (\<lambda>_. Inr [[(''id'', JStr ''r9''), (''actId'', JStr ''other''), (''status'', JStr ''SUCCEEDED'')]]),
     xe_clock = int, xe_others = (\<lambda>_ d. d), xe_broker = (\<lambda>_. Inr ''t'')\<rparr>"

definition demo_apify_state :: apify_state where
  "demo_apify_state = \<lparr>as_world = \<lparr>w_db = demo_import_db, w_calls = 0, w_queue = [], w_revoked = []\<rparr>, as_step = 0, as_starts = []\<rparr>"

lemma demo_apify_simps [simp]:
  "quiet (demo_apify_env start)" "xe_start (demo_apify_env start) = start" "xe_clock (demo_apify_env start) k = int k"
  "\<not> xe_locked (demo_apify_env start) k" "as_step demo_apify_state = 0" "as_db demo_apify_state = demo_import_db"
  "as_starts demo_apify_state = []"
  by (simp_all add: quiet_def demo_apify_env_def demo_apify_state_def)

lemma demo_secret: "open_secret demo_fernet (xe_settings (demo_apify_env start)) s = Inr s"
  by (simp add: open_secret_def settings_codec_def apify_codec_def decrypt_secret_def demo_fernet_def demo_apify_env_def)

lemma demo_apify_fernet [simp]: "xe_fernet (demo_apify_env start) = demo_fernet"
  by (simp add: demo_apify_env_def)

lemma demo_apify_tables:
  "apify_accounts demo_import_db = [demo_import_account]" "apify_actor_bindings demo_import_db = [demo_binding]"
  "apify_runs demo_import_db = [demo_import_run]" "webhook_events demo_import_db = []"
  by (simp_all add: demo_import_db_def empty_db_def)

lemma unbound_run_stops_reconcile_witness:
  "fst (reconcile_runs (demo_apify_env undefined) (((\<lambda>s. snd (reconcile_runs (demo_apify_env undefined) s)) ^^ 3) demo_apify_state))
     = Inl (ValueError ''apify_binding_not_found_for_run'')"
proof -
  have "unbound (demo_apify_env undefined) (as_db demo_apify_state)"
    by (simp add: unbound_def demo_apify_tables demo_import_account_def demo_secret)
      (simp add: starts_unbound_def demo_apify_env_def get_apify_account_def demo_apify_tables demo_import_account_def
        remote_id_def get_json_def dict_get_def json_or_def json_str_def find_remote_run_def demo_import_run_def
        bindings_of_resource_def remote_resource_def demo_binding_def)
  from unbound_run_stops_reconcile [OF _ this, of 3] show ?thesis by simp
qed

definition demo_plan :: launch_plan where
  "demo_plan = \<lparr>lp_token = ''tok'', lp_input = JObj [], lp_next_run = Some 0, lp_type = ''actor'', lp_resource = ''a1'', lp_account = 1\<rparr>"

lemma demo_plan_launch:
  "plan_launch (demo_apify_env start) 2 (xe_locked (demo_apify_env start) (as_step demo_apify_state))
      (xe_clock (demo_apify_env start) (as_step demo_apify_state)) (as_db demo_apify_state)
    = Inr (demo_plan, set_binding 2 (after_launch 0) demo_import_db)"
  by (simp add: plan_launch_def get_binding_def demo_apify_tables demo_binding_def runnable_def get_apify_account_def
      demo_import_account_def demo_secret launch_input_def demo_plan_def)
    (simp add: demo_apify_env_def)

lemma refused_launch_restores_schedule_witness:
  "\<exists>st'. launch_binding (demo_apify_env (\<lambda>_. Inl (External ''ApifyApiError'' ''down''))) 2 ''schedule'' demo_apify_state
      = (Inl (External ''ApifyApiError'' ''down''), st') \<and> apify_actor_bindings (as_db st') = [demo_binding]"
proof -
  let ?E = "demo_apify_env (\<lambda>_. Inl (External ''ApifyApiError'' ''down''))"
  have t: "lp_type demo_plan \<in> {''actor'', ''task''}" by (simp add: demo_plan_def)
  have s: "xe_start ?E (length (as_starts demo_apify_state)) = Inl (External ''ApifyApiError'' ''down'')" by simp
  have u: "distinct (map ab_id (apify_actor_bindings (as_db demo_apify_state)))" by (simp add: demo_apify_tables)
  from refused_launch_restores_schedule [OF _ demo_plan_launch t s u, of "''schedule''"] show ?thesis
    by (auto simp: demo_apify_tables)
qed

definition demo_started :: "nat \<Rightarrow> remote_run result" where
  "demo_started n = Inr [(''id'', JStr (if n = 0 then ''n1'' else ''n2'')), (''actId'', JStr ''a1'')]"

lemma demo_launched:
  "\<exists>out st1. launch_binding (demo_apify_env demo_started) 2 ''schedule'' demo_apify_state = (Inr out, st1)
     \<and> as_step st1 = 3 \<and> apify_actor_bindings (as_db st1) = [after_launch 0 demo_binding]"
proof -
  let ?E = "demo_apify_env demo_started"
  let ?remote = "dict_set ''_binding_id'' (JStr (str_uuid 2)) [(''id'', JStr ''n1''), (''actId'', JStr ''a1'')]"
  let ?d1 = "set_binding 2 (after_launch 0) demo_import_db"
  have r: "get_json ?remote k = (if k = ''_binding_id'' then JStr (str_uuid 2) else if k = ''id'' then JStr ''n1''
      else if k = ''actId'' then JStr ''a1'' else JNull)" for k
    by (simp add: get_json_def dict_get_def dict_set_def update_conv')
  have u: "str_uuid 2 \<noteq> []" by (simp add: str_uuid_def hyphens_def)
  have b: "apify_actor_bindings ?d1 = [after_launch 0 demo_binding]" "apify_accounts ?d1 = [demo_import_account]" "apify_runs ?d1 = [demo_import_run]"
    by (simp_all add: set_binding_def demo_apify_tables) (simp add: demo_binding_def)
  have f: "xe_uuid ?E s = Some 2" for s by (simp add: demo_apify_env_def)
  have k: "ab_id (after_launch 0 demo_binding) = 2" "ab_account_id (after_launch 0 demo_binding) = 1"
    by (simp_all add: demo_binding_def)
  have "get_apify_account 1 ?d1 = Some demo_import_account" "get_binding 2 ?d1 = Some (after_launch 0 demo_binding)"
    "find_remote_run 1 ''n1'' ?d1 = None" "aa_id demo_import_account = 1"
    by (simp_all add: get_apify_account_def get_binding_def find_remote_run_def b k)
      (simp_all add: demo_import_account_def demo_import_run_def demo_binding_def)
  then have "\<exists>out d2. sync_block ?E 1 ?remote 1 ?d1 = Inr (out, d2) \<and> apify_actor_bindings d2 = [after_launch 0 demo_binding]"
    using r u f k
    by (simp add: sync_block_def sync_remote_run_in_session_def remote_id_def json_or_def json_str_def binding_for_remote_def
        local_binding_def remote_cost_def run_output_def copy_remote_def new_apify_run_def remote_datetime_def set_apify_run_def b Let_def
        enum_parse_def apify_run_status_members_def)
  then obtain out d2 where s: "sync_block ?E 1 ?remote 1 ?d1 = Inr (out, d2)" "apify_actor_bindings d2 = [after_launch 0 demo_binding]"
    by blast
  have l: "lp_type demo_plan = ''actor''" "lp_account demo_plan = 1" by (simp_all add: demo_plan_def)
  show ?thesis
    using demo_plan_launch [of demo_started] s
    by (simp add: launch_binding_def quiet_session session_def apify_start_resource_def l demo_started_def sync_remote_run_def
        launch_audit_def system_audit_def)
qed

lemma queued_twice_starts_twice_witness:
  "\<exists>out st1. launch_binding (demo_apify_env demo_started) 2 ''schedule'' demo_apify_state = (Inr out, st1)
     \<and> get_due_binding_ids (int (as_step st1)) (as_db st1) = []
     \<and> map sk_resource (as_starts (snd (launch_binding (demo_apify_env demo_started) 2 ''schedule'' st1))) = [''a1'', ''a1'']"
proof -
  obtain out st1 where 1: "launch_binding (demo_apify_env demo_started) 2 ''schedule'' demo_apify_state = (Inr out, st1)"
    "as_step st1 = 3" "apify_actor_bindings (as_db st1) = [after_launch 0 demo_binding]" using demo_launched by blast
  have t: "lp_type demo_plan \<in> {''actor'', ''task''}" by (simp add: demo_plan_def)
  have "get_due_binding_ids (int (as_step st1)) (as_db st1) = []"
    using 1 by (simp add: get_due_binding_ids_def due_binding_def after_launch_def demo_binding_def duration_defs)
  with queued_twice_starts_twice [OF _ demo_plan_launch t 1(1)] 1(1) show ?thesis by (auto simp: demo_plan_def)
qed

definition demo_delivery :: "string \<Rightarrow> delivery" where
  "demo_delivery auth = \<lparr>dv_others = (\<lambda>d. d), dv_env = demo_apify_env demo_started, dv_account = 1,
     dv_hook = \<lparr>ah_event = ''ACTOR.RUN.SUCCEEDED'', ah_resource = [(''id'', JStr ''r1''), (''status'', JStr ''SUCCEEDED'')], ah_data = []\<rparr>,
     dv_authorization = Some auth, dv_now = 5\<rparr>"

lemma demo_delivery_accepted:
  "fst (accepted (demo_delivery ''Bearer sec'') demo_import_db) = [delivery_key (demo_delivery ''Bearer sec'')]"
proof -
  have a: "is_ascii ''Bearer sec''" by code_simp
  have "\<exists>d'. webhook_block (demo_apify_env demo_started) 1 (dv_hook (demo_delivery auth)) (Some ''Bearer sec'') 5 demo_import_db = Inr (True, d')" for auth
    by (simp add: webhook_block_def get_apify_account_def demo_apify_tables demo_import_account_def demo_secret compare_digest_def a
        insert_event_def insert_new_def sync_remote_run_in_session_def Let_def)
      (simp add: demo_delivery_def remote_id_def get_json_def dict_get_def json_or_def json_str_def find_remote_run_def
        demo_apify_tables demo_import_run_def remote_cost_def)
  then obtain d' where "webhook_block (demo_apify_env demo_started) 1 (dv_hook (demo_delivery ''Bearer sec'')) (Some ''Bearer sec'') 5 demo_import_db
      = Inr (True, d')" by blast
  then show ?thesis by (simp add: accepted_def deliver_hook_def session_def) (simp add: demo_delivery_def session_def)
qed

lemma apify_event_once_witness:
  "fst (delivery_history [demo_delivery ''Bearer sec'', demo_delivery ''Bearer sec''] demo_import_db) = [delivery_key (demo_delivery ''Bearer sec'')]"
proof -
  let ?v = "demo_delivery ''Bearer sec''"
  obtain d1 where 1: "accepted ?v demo_import_db = ([delivery_key ?v], d1)"
    using demo_delivery_accepted by (metis prod.collapse)
  obtain ks d2 where 2: "accepted ?v d1 = (ks, d2)" by fastforce
  have k: "\<forall>v\<in>set [?v, ?v]. keeps_events v" by (simp add: keeps_events_def demo_delivery_def)
  have "ks = [] \<or> ks = [delivery_key ?v]" using 2 by (auto simp: accepted_def split: prod.splits if_splits)
  with apify_event_once [OF k, of demo_import_db] 1 2 show ?thesis by auto
qed

end
