(* ===== verification/Apify_Breaker.thy ===== *)
theory Apify_Breaker
  imports Apify_Accounts Apify_Runs
begin

text \<open>
  The circuit breaker of the Apify bindings (\<open>tasks.py\<close>): after every import the last items of the
  binding are looked at, and too many ambiguous numbers, too many duplicates, or a changed schema
  without a usable item suspend the binding. The rates are exact fractions: of at most 100 items, so that
  the floats of the source compare with the limits in the same way.
\<close>

section \<open>The shape of a payload\<close>

fun payload_shape :: "json \<Rightarrow> json" where
  "payload_shape (JObj kvs) = JObj (sort_key fst (map (\<lambda>(k, v). (k, payload_shape v)) kvs))"
| "payload_shape (JList []) = JList []"
| "payload_shape (JList (v # vs)) = JList [payload_shape v]"
| "payload_shape (JStr s) = JStr ''str''"
| "payload_shape (JInt i) = JStr ''int''"
| "payload_shape (JFloat q) = JStr ''float''"
| "payload_shape (JBool b) = JStr ''bool''"
| "payload_shape JNull = JStr ''NoneType''"

definition shape_fingerprint :: "(string, json) dict \<Rightarrow> string" where
  \<comment> \<open>a shape holds no float, so its text is not asked for\<close>
  "shape_fingerprint payload = sha256_hex (ascii_json (compact_dumps (\<lambda>_. []) (payload_shape (JObj payload))))"

section \<open>The decision\<close>

definition rate :: "nat \<Rightarrow> nat \<Rightarrow> rat" where
  "rate part size_all = (if size_all = 0 then 0 else of_nat part / of_nat size_all)"

definition apify_circuit_breaker_reason :: "nat \<Rightarrow> nat \<Rightarrow> nat \<Rightarrow> nat \<Rightarrow> nat \<Rightarrow> bool \<Rightarrow> string option" where
  "apify_circuit_breaker_reason size_all actionable ambiguities phones duplicates changed =
     (if rate ambiguities size_all > 1 / 10 then Some ''ambiguous_phone_rate''
      else if rate duplicates phones > 1 / 5 then Some ''duplicate_anomaly''
      else if changed \<and> actionable = 0 then Some ''schema_changed_without_actionable_items''
      else None)"

lemma rate_above:
  assumes "part \<le> size_all" "0 < k"
  shows "rate part size_all > 1 / of_nat k \<longleftrightarrow> size_all < k * part"
proof (cases "size_all = 0")
  case False
  have "(1 :: rat) / of_nat k < of_nat part / of_nat size_all \<longleftrightarrow> (of_nat size_all :: rat) < of_nat (k * part)"
    using False assms(2) by (simp add: field_simps)
  then show ?thesis using False by (simp add: rate_def del: of_nat_mult)
qed (use assms in \<open>simp add: rate_def\<close>)

section \<open>The evaluation\<close>

definition sampled_items :: "uuid \<Rightarrow> db \<Rightarrow> apify_item list" where
  \<comment> \<open>the 100 newest items of the runs of the binding\<close>
  "sampled_items bid d =
     take 100 (newest_first ai_created_at
       (filter (\<lambda>i. list_ex (\<lambda>r. ar_id r = ai_run_id i \<and> ar_binding_id r = bid) (apify_runs d)) (apify_items d)))"

definition count_status :: "apify_item_status \<Rightarrow> apify_item list \<Rightarrow> nat" where
  "count_status s items = length (filter (\<lambda>i. ai_status i = s) items)"

definition item_phone :: "apify_item \<Rightarrow> json option" where
  "item_phone i =
     (case ai_normalized_payload i of
        None \<Rightarrow> None
      | Some p \<Rightarrow> (let v = get_json p ''phone_e164'' in if json_truthy v then Some v else None))"

definition sampled_phones :: "apify_item list \<Rightarrow> json list" where
  "sampled_phones items = List.map_filter item_phone items"

definition current_schema :: "apify_item list \<Rightarrow> string option" where
  "current_schema items = (case items of [] \<Rightarrow> None | i # _ \<Rightarrow> Some (shape_fingerprint (ai_raw_payload i)))"

definition schema_changed :: "apify_actor_binding \<Rightarrow> apify_item list \<Rightarrow> bool" where
  "schema_changed b items =
     (case (current_schema items, ab_schema_fingerprint b) of
        (Some now, Some old) \<Rightarrow> old \<noteq> [] \<and> now \<noteq> old
      | _ \<Rightarrow> False)"

definition breaker_reason :: "apify_actor_binding \<Rightarrow> apify_item list \<Rightarrow> string option" where
  "breaker_reason b items =
     apify_circuit_breaker_reason (length items) (count_status AI_IMPORTED items) (count_status AI_EXCEPTION items)
       (length (sampled_phones items)) (length (sampled_phones items) - card (set (sampled_phones items)))
       (schema_changed b items)"

definition is_suspended :: "apify_actor_binding \<Rightarrow> bool" where
  "is_suspended b = (ab_suspended_reason b \<notin> {None, Some []})"

definition round4 :: "rat \<Rightarrow> rat" where
  \<comment> \<open>\<open>round(x, 4)\<close>, a tie to the even digit; a tie of these fractions is a float without error\<close>
  "round4 x =
     (let y = x * 10000; f = \<lfloor>y\<rfloor>; r = y - of_int f in
      of_int (if r < 1 / 2 \<or> (r = 1 / 2 \<and> even f) then f else f + 1) / 10000)"

definition learned :: "apify_item list \<Rightarrow> apify_actor_binding \<Rightarrow> apify_actor_binding" where
  "learned items b =
     (case (current_schema items, ab_schema_fingerprint b) of
        (Some now, None) \<Rightarrow> b\<lparr>ab_schema_fingerprint := Some now\<rparr>
      | _ \<Rightarrow> b)"

definition duplicate_rate :: "apify_item list \<Rightarrow> rat" where
  "duplicate_rate items =
     rate (length (sampled_phones items) - card (set (sampled_phones items))) (length (sampled_phones items))"

definition suspension :: "datetime \<Rightarrow> apify_run \<Rightarrow> apify_actor_binding \<Rightarrow> apify_item list \<Rightarrow> string \<Rightarrow> db \<Rightarrow> apify_exception" where
  "suspension now run b items reason d =
     \<lparr>aex_id = fresh_id d, aex_workspace_id = ab_workspace_id b, aex_binding_id = ab_id b, aex_run_id = Some (ar_id run),
      aex_item_id = None, aex_category = ''binding_suspended'',
      aex_evidence = [(''reason'', JStr reason), (''sample_size'', JInt (int (length items))),
        (''ambiguity_rate'', JFloat (round4 (rate (count_status AI_EXCEPTION items) (length items)))),
        (''duplicate_rate'', JFloat (round4 (duplicate_rate items))), (''schema_changed'', JBool (schema_changed b items))],
      aex_status = AEX_OPEN, aex_resolution = None, aex_resolved_by = None, aex_created_at = now, aex_resolved_at = None\<rparr>"

record breaker_verdict =
  bv_binding :: uuid
  bv_sample :: nat
  bv_ambiguity :: rat
  bv_duplicates :: rat
  bv_suspended :: bool
  bv_reason :: "string option"

definition breaker_block :: "uuid \<Rightarrow> string \<Rightarrow> datetime \<Rightarrow> db \<Rightarrow> exn + (breaker_verdict \<times> db)" where
  "breaker_block aid remote_run now d =
     (case find_remote_run aid remote_run d of
        None \<Rightarrow> Inl (LookupError ''apify_run_not_found'')
      | Some run \<Rightarrow>
          (case get_binding (ar_binding_id run) d of
             None \<Rightarrow> Inl (LookupError ''apify_binding_not_found'')
           | Some b \<Rightarrow>
               (let items = sampled_items (ab_id b) d; reason = breaker_reason b items;
                    d1 = set_binding (ab_id b) (learned items) d;
                    d2 = (if reason \<noteq> None \<and> \<not> is_suspended b then
                            (set_binding (ab_id b) (\<lambda>b. b\<lparr>ab_suspended_reason := reason\<rparr>) d1)
                              \<lparr>apify_exceptions := apify_exceptions d @ [suspension now run b items (the reason) d],
                               fresh_id := Suc (fresh_id d)\<rparr>
                          else d1);
                    final = (if is_suspended b \<or> reason = None then ab_suspended_reason b else reason) in
                Inr (\<lparr>bv_binding = ab_id b, bv_sample = length items,
                      bv_ambiguity = rate (count_status AI_EXCEPTION items) (length items),
                      bv_duplicates = duplicate_rate items, bv_suspended = is_suspended (b\<lparr>ab_suspended_reason := final\<rparr>),
                      bv_reason = final\<rparr>, d2))))"

definition evaluate_apify_binding_circuit_breaker :: "datetime \<Rightarrow> uuid \<Rightarrow> string \<Rightarrow> db \<Rightarrow> breaker_verdict result \<times> db" where
  "evaluate_apify_binding_circuit_breaker now aid remote_run = session (breaker_block aid remote_run now)"

definition candidate_apify_profile_ids :: "db \<Rightarrow> uuid list" where
  "candidate_apify_profile_ids d =
     map ap_id (filter (\<lambda>p. ap_status p = AP_CANDIDATE) (apify_normalization_profiles d))"

lemma sample_bounds:
  "length (sampled_items bid d) \<le> 100" "count_status s items \<le> length items"
  "length (sampled_phones items) - card (set (sampled_phones items)) \<le> length (sampled_phones items)"
  by (simp_all add: sampled_items_def count_status_def)

lemma breaker_reason_iff:
  "breaker_reason b items \<noteq> None \<longleftrightarrow>
     length items < 10 * count_status AI_EXCEPTION items
   \<or> 5 * card (set (sampled_phones items)) < 4 * length (sampled_phones items)
   \<or> (schema_changed b items \<and> count_status AI_IMPORTED items = 0)"
proof -
  let ?n = "length (sampled_phones items)" and ?c = "card (set (sampled_phones items))"
  have "?c \<le> ?n" by (rule card_length)
  then have "?n < 5 * (?n - ?c) \<longleftrightarrow> 5 * ?c < 4 * ?n" by linarith
  moreover have "rate (count_status AI_EXCEPTION items) (length items) > 1 / 10 \<longleftrightarrow> length items < 10 * count_status AI_EXCEPTION items"
    using rate_above [OF sample_bounds(2), of 10 AI_EXCEPTION items] by simp
  moreover have "rate (?n - ?c) ?n > 1 / 5 \<longleftrightarrow> ?n < 5 * (?n - ?c)"
    using rate_above [OF sample_bounds(3), of 5 items] by simp
  ultimately show ?thesis by (simp add: breaker_reason_def apify_circuit_breaker_reason_def)
qed
lemma learned_fields [simp]:
  "ab_id (learned items b) = ab_id b" "ab_suspended_reason (learned items b) = ab_suspended_reason b"
  "ab_enabled (learned items b) = ab_enabled b"
  by (auto simp: learned_def split: option.splits)

lemma get_set_binding:
  "(\<And>b. ab_id (f b) = ab_id b) \<Longrightarrow> get_binding bid (set_binding i f d) =
     map_option (\<lambda>b. if ab_id b = i then f b else b) (get_binding bid d)"
  by (simp add: get_binding_def set_binding_def find_update_where)

lemma get_binding_id: "get_binding bid d = Some b \<Longrightarrow> ab_id b = bid"
  by (auto simp: get_binding_def dest: find_row_SomeD)

lemma breaker_reason_text: "breaker_reason b items = Some r \<Longrightarrow> r \<noteq> []"
  by (auto simp: breaker_reason_def apify_circuit_breaker_reason_def split: if_splits)

text \<open>
  C26. The breaker does what its limits say, in whole numbers: an evaluation that returns leaves its
  binding suspended exactly when it was suspended before or when, among its newest items (100 at most),
  more than a tenth are ambiguous, or fewer than four fifths of the numbers are distinct, or the schema
  changed and no item was imported. It writes one exception for a suspension and none otherwise, tells
  the reason in its answer, and changes no other binding.
\<close>

theorem breaker_suspends_iff:
  assumes "evaluate_apify_binding_circuit_breaker now aid rid d = (Inr v, d')"
  shows "\<exists>b b' items. get_binding (bv_binding v) d = Some b \<and> items = sampled_items (bv_binding v) d
    \<and> get_binding (bv_binding v) d' = Some b' \<and> length items \<le> 100
    \<and> (is_suspended b' \<longleftrightarrow> is_suspended b
         \<or> length items < 10 * count_status AI_EXCEPTION items
         \<or> 5 * card (set (sampled_phones items)) < 4 * length (sampled_phones items)
         \<or> (schema_changed b items \<and> count_status AI_IMPORTED items = 0))
    \<and> bv_suspended v = is_suspended b' \<and> bv_reason v = ab_suspended_reason b'
    \<and> length (apify_exceptions d') = length (apify_exceptions d) + (if is_suspended b' \<and> \<not> is_suspended b then 1 else 0)
    \<and> (\<forall>bid. bid = bv_binding v \<or> get_binding bid d' = get_binding bid d)"
proof -
  obtain run b where run: "find_remote_run aid rid d = Some run" and got: "get_binding (ar_binding_id run) d = Some b"
    using assms by (auto simp: evaluate_apify_binding_circuit_breaker_def session_def breaker_block_def split: option.splits sum.splits)
  have id: "ab_id b = ar_binding_id run" using got by (rule get_binding_id)
  define items where "items = sampled_items (ab_id b) d"
  define reason where "reason = breaker_reason b items"
  define b' where "b' = (learned items b)\<lparr>ab_suspended_reason := (if is_suspended b \<or> reason = None then ab_suspended_reason b else reason)\<rparr>"
  let ?d1 = "set_binding (ab_id b) (learned items) d"
  let ?d2 = "if reason \<noteq> None \<and> \<not> is_suspended b then
        (set_binding (ab_id b) (\<lambda>b. b\<lparr>ab_suspended_reason := reason\<rparr>) ?d1)
          \<lparr>apify_exceptions := apify_exceptions d @ [suspension now run b items (the reason) d], fresh_id := Suc (fresh_id d)\<rparr>
      else ?d1"
  have v: "v = \<lparr>bv_binding = ab_id b, bv_sample = length items,
      bv_ambiguity = rate (count_status AI_EXCEPTION items) (length items),
      bv_duplicates = duplicate_rate items, bv_suspended = is_suspended b', bv_reason = ab_suspended_reason b'\<rparr>" and d': "d' = ?d2"
    using assms run got
    by (auto simp: evaluate_apify_binding_circuit_breaker_def session_def breaker_block_def Let_def b'_def items_def reason_def
        is_suspended_def)
  have same: "get_binding bid (x\<lparr>apify_exceptions := es, fresh_id := n\<rparr>) = get_binding bid x" for bid x es n
    by (simp add: get_binding_def)
  have rows: "get_binding bid ?d2 = (if bid = ab_id b then Some b' else get_binding bid d)" for bid
  proof (cases "bid = ab_id b")
    case True
    then show ?thesis using got by (auto simp: same get_set_binding id b'_def)
  next
    case False
    then show ?thesis
      by (cases "get_binding bid d") (auto simp: same get_set_binding dest: get_binding_id)
  qed
  have susp: "is_suspended b' \<longleftrightarrow> is_suspended b \<or> reason \<noteq> None"
    by (auto simp: b'_def is_suspended_def reason_def dest: breaker_reason_text)
  have exc: "length (apify_exceptions ?d2) = length (apify_exceptions d) + (if is_suspended b' \<and> \<not> is_suspended b then 1 else 0)"
    unfolding susp by (simp add: set_binding_def)
  have rows': "get_binding bid d' = (if bid = ab_id b then Some b' else get_binding bid d)" for bid
    unfolding d' by (rule rows)
  have exc': "length (apify_exceptions d') = length (apify_exceptions d) + (if is_suspended b' \<and> \<not> is_suspended b then 1 else 0)"
    unfolding d' by (rule exc)
  have limits: "is_suspended b' \<longleftrightarrow> is_suspended b
         \<or> length items < 10 * count_status AI_EXCEPTION items
         \<or> 5 * card (set (sampled_phones items)) < 4 * length (sampled_phones items)
         \<or> (schema_changed b items \<and> count_status AI_IMPORTED items = 0)"
    unfolding susp reason_def breaker_reason_iff by (rule refl)
  have said: "bv_binding v = ab_id b" "bv_suspended v = is_suspended b'" "bv_reason v = ab_suspended_reason b'"
    by (simp_all add: v)
  have bound: "length items \<le> 100" unfolding items_def by (rule sample_bounds(1))
  show ?thesis
    unfolding said using got id rows' limits exc' bound items_def by (intro exI [of _ b] exI [of _ b'] exI [of _ items]) simp
qed
section \<open>A suspension is final\<close>

definition row_reasons :: "db \<Rightarrow> (uuid \<times> string option) list" where
  "row_reasons d = map (\<lambda>b. (ab_id b, ab_suspended_reason b)) (apify_actor_bindings d)"

definition suspended_at :: "uuid \<Rightarrow> db \<Rightarrow> bool" where
  \<comment> \<open>the binding was suspended, and its identifier is not given again\<close>
  "suspended_at bid d = (bid < fresh_id d \<and> (\<forall>b\<in>set (apify_actor_bindings d). ab_id b = bid \<longrightarrow> is_suspended b))"

lemma suspended_at_rows:
  "suspended_at bid d \<longleftrightarrow> bid < fresh_id d \<and> (\<forall>(i, r)\<in>set (row_reasons d). i = bid \<longrightarrow> r \<notin> {None, Some []})"
  by (auto simp: suspended_at_def row_reasons_def is_suspended_def)

lemma suspended_cong:
  "suspended_at bid d \<Longrightarrow> set (row_reasons d') \<subseteq> set (row_reasons d) \<Longrightarrow> fresh_id d \<le> fresh_id d' \<Longrightarrow> suspended_at bid d'"
  unfolding suspended_at_rows by fastforce

lemma row_reasons_set:
  "(\<And>b. ab_id (f b) = ab_id b \<and> ab_suspended_reason (f b) = ab_suspended_reason b) \<Longrightarrow> row_reasons (set_binding i f d) = row_reasons d"
  by (simp add: row_reasons_def set_binding_def map_update_where)

lemma row_reasons_replaced:
  assumes "get_binding bid d = Some b" "ab_id r = ab_id b" "ab_suspended_reason r = ab_suspended_reason b"
  shows "set (row_reasons (set_binding (ab_id r) (\<lambda>_. r) d)) \<subseteq> set (row_reasons d)"
proof -
  have "b \<in> set (apify_actor_bindings d)" using assms(1) by (auto simp: get_binding_def dest: find_row_SomeD)
  with assms(2,3) show ?thesis by (force simp: row_reasons_def set_binding_def set_update_where)
qed

lemma audit_frame [simp]:
  "row_reasons (system_audit n a t i s r d) = row_reasons d" "fresh_id (system_audit n a t i s r d) = Suc (fresh_id d)"
  by (simp_all add: row_reasons_def system_audit_def)

lemma fresh_set_binding [simp]: "fresh_id (set_binding i f d) = fresh_id d"
  by (simp add: set_binding_def)

lemma plan_keeps: "plan_launch E b l now d = Inr (p, d') \<Longrightarrow> suspended_at bid d \<Longrightarrow> suspended_at bid d'"
  by (erule suspended_cong) (auto simp: plan_launch_def row_reasons_set split: if_splits option.splits sum.splits)

lemma sync_in_session_keeps:
  "sync_remote_run_in_session E a remote now d = Inr (r, d') \<Longrightarrow> suspended_at bid d \<Longrightarrow> suspended_at bid d'"
  by (erule suspended_cong)
    (auto simp: sync_remote_run_in_session_def set_apify_run_def row_reasons_def Let_def split: if_splits option.splits sum.splits)

lemma sync_keeps: "sync_block E aid remote now d = Inr (r, d') \<Longrightarrow> suspended_at bid d \<Longrightarrow> suspended_at bid d'"
  by (auto simp: sync_block_def split: option.splits sum.splits dest: sync_in_session_keeps)

definition keeps_suspension :: "uuid \<Rightarrow> apify_env \<Rightarrow> bool" where
  "keeps_suspension bid E = (\<forall>k d. suspended_at bid d \<longrightarrow> suspended_at bid (xe_others E k d))"

lemma apify_session_keeps:
  assumes "keeps_suspension bid E" "suspended_at bid (as_db st)"
    and "\<And>now d x d'. block now d = Inr (x, d') \<Longrightarrow> suspended_at bid d \<Longrightarrow> suspended_at bid d'"
  shows "suspended_at bid (as_db (snd (apify_session E block st)))"
proof -
  have "suspended_at bid (xe_others E (as_step st) (as_db st))" using assms(1,2) by (simp add: keeps_suspension_def)
  then show ?thesis
    by (auto simp: apify_session_def Let_def session_def intro: assms(3) split: sum.splits)
qed

lemma start_db [simp]: "as_db (snd (apify_start_resource E p st)) = as_db st"
  by (simp add: apify_start_resource_def)

lemma launch_keeps:
  assumes "keeps_suspension bid E" "suspended_at bid (as_db st)"
  shows "suspended_at bid (as_db (snd (launch_binding E b trigger st)))"
proof -
  let ?S = "\<lambda>st. suspended_at bid (as_db st)"
  have 1: "?S (snd (apify_session E (plan_launch E b l) s))" if "?S s" for l s
    using assms(1) that plan_keeps by (rule apify_session_keeps)
  have 2: "?S (snd (apify_session E (launch_failed b trigger n e) s))" if "?S s" for n e s
    using assms(1) that
    by (rule apify_session_keeps, elim suspended_cong) (auto simp: launch_failed_def launch_audit_def row_reasons_set)
  have 3: "?S (snd (sync_remote_run E aid remote s))" if "?S s" for aid remote s
    unfolding sync_remote_run_def using assms(1) that sync_keeps by (rule apify_session_keeps)
  have 4: "?S (snd (apify_session E (\<lambda>now d. Inr ((), launch_audit now b m r d)) s))" if "?S s" for m r s
    using assms(1) that by (rule apify_session_keeps, elim suspended_cong) (auto simp: launch_audit_def)
  obtain r1 s1 where s1: "apify_session E (plan_launch E b (xe_locked E (as_step st))) st = (r1, s1)" by fastforce
  with 1 [OF assms(2)] have k1: "?S s1" by (metis snd_conv)
  show ?thesis
  proof (cases r1)
    case (Inr p)
    obtain r2 s2 where s2: "apify_start_resource E p s1 = (r2, s2)" by fastforce
    then have k2: "?S s2" using k1 start_db [of E p s1] by simp
    show ?thesis
    proof (cases r2)
      case (Inl e)
      with s1 s2 Inr 2 [OF k2] show ?thesis by (simp add: launch_binding_def)
    next
      case remote: (Inr remote)
      obtain r3 s3 where s3: "sync_remote_run E (lp_account p) (dict_set ''_binding_id'' (JStr (str_uuid b)) remote) s2 = (r3, s3)" by fastforce
      with 3 [OF k2] have k3: "?S s3" by (metis snd_conv)
      then show ?thesis
        using s1 s2 s3 Inr remote 4 [OF k3] by (auto simp: launch_binding_def split: sum.splits prod.splits) (metis snd_conv)+
    qed
  qed (use s1 k1 in \<open>simp add: launch_binding_def\<close>)
qed

lemma binding_step_keeps:
  assumes "suspended_at bid d"
  shows "suspended_at bid (binding_step (E, op) d)"
proof (cases op)
  case (CreateBinding c)
  have "suspended_at bid d'" if "create_binding_block E k c d = Inr (b, d')" for k b d'
    using that assms
    by (auto simp: create_binding_block_def Let_def commanded_def blank_binding_def suspended_at_def binding_audit_def
        system_audit_def split: option.splits sum.splits prod.splits if_splits)
  then show ?thesis using CreateBinding assms by (auto simp: create_binding_def session_def split: sum.splits)
next
  case (UpdateBinding i c)
  have "suspended_at bid d'" if b: "update_binding_block E k i c d = (Inr (b', d'), cs)" for k b' d' cs
  proof -
    from update_binding_Inr [OF b] obtain b where "get_binding i d = Some b" "ab_id b' = ab_id b"
        "ab_suspended_reason b' = ab_suspended_reason b"
        "d' = binding_audit E ''apify.binding.update'' i None (set_binding (ab_id b') (\<lambda>_. b') d)" by blast
    then show ?thesis
      using row_reasons_replaced [of i d b b'] by (intro suspended_cong [OF assms]) (simp_all add: binding_audit_def)
  qed
  then show ?thesis
    using UpdateBinding assms by (auto simp: update_binding_def hk_session_def session_def split: sum.splits prod.splits)
next
  case (EnableBinding i on)
  have "suspended_at bid d'" if b: "set_enabled_block E i on d = (Inr (b', d'), cs)" for b' d' cs
    using b
  proof (cases rule: set_enabled_Inr)
    case (switched b account)
    from switch_binding_Inr [OF switched(4)] have "ab_id b' = ab_id b" "ab_suspended_reason b' = ab_suspended_reason b" by simp_all
    then show ?thesis
      using row_reasons_replaced [of i d b b'] switched(1) unfolding switched(6)
      by (intro suspended_cong [OF assms]) (simp_all add: binding_audit_def)
  qed (use assms in simp)
  then show ?thesis
    using EnableBinding assms by (auto simp: set_binding_enabled_def hk_session_def session_def split: sum.splits prod.splits)
next
  case (DeleteAccount aid)
  have failed: "suspended_at bid d'" if "delete_failed E aid e d = Inr (u, d')" for e u d'
    using that assms by (auto simp: delete_failed_def)
      (erule suspended_cong; simp add: account_audit_def row_reasons_def set_apify_account_def system_audit_def)
  have row: "suspended_at bid d'" if "delete_row E aid d = Inr (u, d')" for u d'
    using that assms by (auto simp: delete_row_def)
      (erule suspended_cong; auto simp: account_audit_def row_reasons_def cascade_account_def system_audit_def Let_def)
  have same: "d1 = d" if "hooks_block k aid d = Inr (x, d1)" for k x d1 using that by (rule hooks_block_same)
  show ?thesis
    using failed row assms DeleteAccount
    by (auto simp: delete_account_def session_def split: sum.splits prod.splits option.splits dest!: same)
qed

lemma breaker_keeps:
  assumes "breaker_block aid rid now d = Inr (v, d')" "suspended_at bid d"
  shows "suspended_at bid d'"
proof -
  obtain run b where got: "get_binding (ar_binding_id run) d = Some b"
    and d': "d' = (if breaker_reason b (sampled_items (ab_id b) d) \<noteq> None \<and> \<not> is_suspended b then
        (set_binding (ab_id b) (\<lambda>x. x\<lparr>ab_suspended_reason := breaker_reason b (sampled_items (ab_id b) d)\<rparr>)
           (set_binding (ab_id b) (learned (sampled_items (ab_id b) d)) d))
          \<lparr>apify_exceptions := apify_exceptions d @ [suspension now run b (sampled_items (ab_id b) d)
              (the (breaker_reason b (sampled_items (ab_id b) d))) d], fresh_id := Suc (fresh_id d)\<rparr>
      else set_binding (ab_id b) (learned (sampled_items (ab_id b) d)) d)"
    using assms(1) by (auto simp: breaker_block_def Let_def split: option.splits)
  have learned: "suspended_at bid (set_binding (ab_id b) (learned items) d)" for items
    by (rule suspended_cong [OF assms(2)]) (simp_all add: row_reasons_set)
  have b: "b \<in> set (apify_actor_bindings d)" using got by (auto simp: get_binding_def dest: find_row_SomeD)
  show ?thesis
  proof (cases "is_suspended b")
    case False
    with b assms(2) have "ab_id b \<noteq> bid" by (auto simp: suspended_at_def)
    then have "suspended_at bid (set_binding (ab_id b) (\<lambda>x. x\<lparr>ab_suspended_reason := r\<rparr>) x)" if "suspended_at bid x" for r x
      using that by (auto simp: suspended_at_def set_binding_def set_update_where)
    then have twice: "suspended_at bid (set_binding (ab_id b) (\<lambda>x. x\<lparr>ab_suspended_reason := r\<rparr>) (set_binding (ab_id b) (learned items) d))"
      for r items using learned by blast
    have "suspended_at bid ((set_binding (ab_id b) (\<lambda>x. x\<lparr>ab_suspended_reason := r\<rparr>)
        (set_binding (ab_id b) (learned items) d))\<lparr>apify_exceptions := es, fresh_id := Suc (fresh_id d)\<rparr>)" for r items es
      by (rule suspended_cong [OF twice [of r items]]) (simp_all add: row_reasons_def)
    then show ?thesis unfolding d' using learned by simp
  qed (simp add: d' learned)
qed

lemma sync_run_keeps:
  "keeps_suspension bid E \<Longrightarrow> suspended_at bid (as_db st) \<Longrightarrow> suspended_at bid (as_db (snd (sync_remote_run E aid remote st)))"
  unfolding sync_remote_run_def by (erule (1) apify_session_keeps) (rule sync_keeps)

lemma apify_dispatch_db: "as_db (snd (apify_dispatch E t st)) = as_db st"
  by (simp add: apify_dispatch_def dispatch_def Let_def split: sum.splits prod.splits)

lemma reconcile_account_keeps:
  "keeps_suspension bid E \<Longrightarrow> suspended_at bid (as_db st) \<Longrightarrow> suspended_at bid (as_db (snd (reconcile_account E aid remotes c st)))"
proof (induction E aid remotes c st rule: reconcile_account.induct)
  case (2 E aid remote rest n q st)
  obtain r1 s1 where s1: "sync_remote_run E aid remote st = (r1, s1)" by fastforce
  with sync_run_keeps [OF 2(3,4), of aid remote] have k1: "suspended_at bid (as_db s1)" by simp
  show ?case
  proof (cases r1)
    case (Inr run)
    obtain r2 s2 where s2: "apify_dispatch E (import_task aid (ar_apify_run_id run)) s1 = (r2, s2)" by fastforce
    with apify_dispatch_db [of E "import_task aid (ar_apify_run_id run)" s1] k1 have k2: "suspended_at bid (as_db s2)" by simp
    show ?thesis
    proof (cases "ar_status run = ''SUCCEEDED'' \<and> ar_imported_at run = None")
      case True
      with 2(1) [OF s1 [symmetric] Inr True s2 [symmetric] _ 2(3) k2] Inr s1 s2 k2 show ?thesis by (cases r2) simp_all
    next
      case False
      with 2(2) [OF s1 [symmetric] Inr False 2(3) k1] Inr s1 show ?thesis by auto
    qed
  qed (use s1 k1 in simp)
qed simp

lemma reconcile_accounts_keeps:
  "keeps_suspension bid E \<Longrightarrow> suspended_at bid (as_db st) \<Longrightarrow> suspended_at bid (as_db (snd (reconcile_accounts E creds c st)))"
proof (induction creds arbitrary: c st)
  case (Cons cr creds)
  obtain aid token where cr: "cr = (aid, token)" by fastforce
  show ?case
  proof (cases "xe_recent E token")
    case (Inr remotes)
    obtain r1 s1 where s1: "reconcile_account E aid remotes c st = (r1, s1)" by fastforce
    with reconcile_account_keeps [OF Cons.prems, of aid remotes c] have "suspended_at bid (as_db s1)" by simp
    with Cons.IH [OF Cons.prems(1)] s1 Inr cr show ?thesis by (cases r1) simp_all
  qed (use Cons.prems cr in simp)
qed simp

lemma reconcile_keeps:
  assumes "keeps_suspension bid E" "suspended_at bid (as_db st)"
  shows "suspended_at bid (as_db (snd (reconcile_runs E st)))"
proof -
  obtain r1 s1 where s1: "apify_session E (\<lambda>_. active_credentials E) st = (r1, s1)" by fastforce
  have "suspended_at bid d'" if "active_credentials E d = Inr (x, d')" "suspended_at bid d" for d x d'
    using that by (cases "open_tokens E (filter (\<lambda>a. aa_status a = ''active'') (apify_accounts d))") (auto simp: active_credentials_def)
  with apify_session_keeps [OF assms, of "\<lambda>_. active_credentials E"] s1 have "suspended_at bid (as_db s1)" by simp
  then have "suspended_at bid (as_db (snd (reconcile_accounts E creds c s1)))" for creds c
    by (rule reconcile_accounts_keeps [OF assms(1)])
  with s1 \<open>suspended_at bid (as_db s1)\<close> show ?thesis
    by (auto simp: reconcile_runs_def split: sum.splits prod.splits) (metis snd_conv)+
qed

lemma webhook_keeps:
  assumes "keeps_suspension bid E" "suspended_at bid (as_db st)"
  shows "suspended_at bid (as_db (snd (accept_webhook E aid h auth st)))"
proof -
  have ins: "suspended_at bid d1" if "insert_event now k s p d = (f, d1)" "suspended_at bid d" for now k s p d f d1
    using that by (auto simp: insert_event_def row_reasons_def elim!: suspended_cong split: option.splits prod.splits if_splits)
  have "suspended_at bid d'" if "webhook_block E aid h auth now d = Inr (x, d')" "suspended_at bid d" for now d x d'
    using that by (auto simp: webhook_block_def split: option.splits sum.splits prod.splits bool.splits dest: ins sync_in_session_keeps)
  with apify_session_keeps [OF assms, of "webhook_block E aid h auth"] assms show ?thesis by (simp add: accept_webhook_def)
qed

datatype fleet_event =
    Launch apify_env uuid string
  | Reconcile apify_env
  | Announce apify_env uuid apify_hook "string option"
  | Command accounts_env binding_op
  | Evaluate datetime uuid string

definition on_fleet_db :: "(db \<Rightarrow> db) \<Rightarrow> apify_state \<Rightarrow> apify_state" where
  "on_fleet_db f st = st\<lparr>as_world := (as_world st)\<lparr>w_db := f (as_db st)\<rparr>\<rparr>"

fun fleet_step :: "fleet_event \<Rightarrow> apify_state \<Rightarrow> apify_state" where
  "fleet_step (Launch E b trigger) st = snd (launch_binding E b trigger st)"
| "fleet_step (Reconcile E) st = snd (reconcile_runs E st)"
| "fleet_step (Announce E aid h auth) st = snd (accept_webhook E aid h auth st)"
| "fleet_step (Command E op) st = on_fleet_db (binding_step (E, op)) st"
| "fleet_step (Evaluate now aid rid) st = on_fleet_db (snd \<circ> evaluate_apify_binding_circuit_breaker now aid rid) st"

fun polite_event :: "uuid \<Rightarrow> fleet_event \<Rightarrow> bool" where
  "polite_event bid (Launch E b trigger) = keeps_suspension bid E"
| "polite_event bid (Reconcile E) = keeps_suspension bid E"
| "polite_event bid (Announce E aid h auth) = keeps_suspension bid E"
| "polite_event bid (Command E op) = True"
| "polite_event bid (Evaluate now aid rid) = True"

lemma fleet_step_keeps:
  assumes "polite_event bid ev" "suspended_at bid (as_db st)"
  shows "suspended_at bid (as_db (fleet_step ev st))"
proof (cases ev)
  case (Evaluate now aid rid)
  then show ?thesis
    using assms by (auto simp: on_fleet_db_def evaluate_apify_binding_circuit_breaker_def session_def breaker_keeps split: sum.splits)
qed (use assms in \<open>simp_all add: launch_keeps reconcile_keeps webhook_keeps on_fleet_db_def binding_step_keeps\<close>)

lemma suspended_not_planned:
  assumes "suspended_at bid d"
  shows "\<exists>e. plan_launch E bid l now d = Inl e"
proof (cases "get_binding bid d")
  case (Some b)
  then have "b \<in> set (apify_actor_bindings d)" "ab_id b = bid" by (auto simp: get_binding_def dest: find_row_SomeD)
  then have "\<not> runnable b" using assms by (auto simp: suspended_at_def is_suspended_def runnable_def)
  with Some show ?thesis by (simp add: plan_launch_def)
qed (simp add: plan_launch_def)

text \<open>
  C6. A suspension is final. Once the breaker has suspended a binding, no history of launches, webhooks,
  reconciliations, evaluations and commands on bindings and accounts (with any answers of Apify) makes it
  run again: it stays suspended while it exists, is never due, and a launch of it, whoever asks, raises
  and starts nothing. Nothing in the program takes the reason away; disabling, changing and enabling the
  binding again report success and leave it.
\<close>

theorem suspended_never_starts:
  assumes "suspended_at bid (as_db st)" "\<forall>ev\<in>set evs. polite_event bid ev" "keeps_suspension bid E"
  shows "suspended_at bid (as_db (fold fleet_step evs st))
    \<and> bid \<notin> set (get_due_binding_ids now (as_db (fold fleet_step evs st)))
    \<and> (\<exists>e st'. launch_binding E bid trigger (fold fleet_step evs st) = (Inl e, st')
          \<and> as_starts st' = as_starts (fold fleet_step evs st))"
proof -
  have kept: "suspended_at bid (as_db (fold fleet_step evs st))"
    using assms(1,2) by (induction evs arbitrary: st) (simp_all add: fleet_step_keeps)
  let ?st = "fold fleet_step evs st"
  have "suspended_at bid (xe_others E (as_step ?st) (as_db ?st))" using assms(3) kept by (simp add: keeps_suspension_def)
  then obtain e where "plan_launch E bid (xe_locked E (as_step ?st)) (xe_clock E (as_step ?st)) (xe_others E (as_step ?st) (as_db ?st)) = Inl e"
    using suspended_not_planned by blast
  then have "\<exists>st'. launch_binding E bid trigger ?st = (Inl e, st') \<and> as_starts st' = as_starts ?st"
    by (simp add: launch_binding_def apify_session_def session_def Let_def)
  moreover have "bid \<notin> set (get_due_binding_ids now (as_db ?st))"
    using kept by (auto simp: get_due_binding_ids_def due_binding_def suspended_at_def is_suspended_def)
  ultimately show ?thesis using kept by blast
qed
section \<open>Witnesses\<close>

definition demo_ambiguous_item :: apify_item where
  "demo_ambiguous_item = \<lparr>ai_id = 4, ai_workspace_id = 9, ai_account_id = 1, ai_run_id = 3, ai_dataset_index = 0,
     ai_content_hash = ''h'', ai_raw_payload = [], ai_normalized_payload = None, ai_confidence = None,
     ai_status = AI_EXCEPTION, ai_contact_id = None, ai_listing_id = None, ai_sms_sequence_id = None, ai_error = None,
     ai_processed_at = None, ai_created_at = 0\<rparr>"

definition demo_breaker_db :: db where
  "demo_breaker_db = demo_import_db\<lparr>apify_items := [demo_ambiguous_item]\<rparr>"

lemma demo_breaker_tables:
  "find_remote_run 1 ''r1'' demo_breaker_db = Some demo_import_run" "get_binding 2 demo_breaker_db = Some demo_binding"
  "sampled_items 2 demo_breaker_db = [demo_ambiguous_item]" "apify_exceptions demo_breaker_db = []"
  by (simp_all add: demo_breaker_db_def find_remote_run_def get_binding_def sampled_items_def newest_first_def demo_apify_tables)
    (simp_all add: demo_import_run_def demo_binding_def demo_ambiguous_item_def demo_import_db_def empty_db_def)

lemma breaker_suspends_iff_witness:
  "\<exists>v d'. evaluate_apify_binding_circuit_breaker 0 1 ''r1'' demo_breaker_db = (Inr v, d') \<and> bv_suspended v
     \<and> length (apify_exceptions d') = 1"
proof -
  have i: "ar_binding_id demo_import_run = 2" "ab_id demo_binding = 2" by (simp_all add: demo_import_run_def demo_binding_def)
  then have "\<exists>v d'. breaker_block 1 ''r1'' 0 demo_breaker_db = Inr (v, d') \<and> bv_binding v = 2"
    by (simp add: breaker_block_def demo_breaker_tables(1,2) Let_def del: One_nat_def)
  then obtain v d' where run: "evaluate_apify_binding_circuit_breaker 0 1 ''r1'' demo_breaker_db = (Inr v, d')" and v: "bv_binding v = 2"
    by (auto simp: evaluate_apify_binding_circuit_breaker_def session_def)
  have c: "count_status AI_EXCEPTION [demo_ambiguous_item] = 1" "\<not> is_suspended demo_binding"
    by (simp_all add: count_status_def demo_ambiguous_item_def is_suspended_def demo_binding_def)
  from breaker_suspends_iff [OF run] obtain b b' items where
    b: "get_binding (bv_binding v) demo_breaker_db = Some b" "items = sampled_items (bv_binding v) demo_breaker_db" and
    limits: "is_suspended b' \<longleftrightarrow> is_suspended b \<or> length items < 10 * count_status AI_EXCEPTION items
         \<or> 5 * card (set (sampled_phones items)) < 4 * length (sampled_phones items)
         \<or> (schema_changed b items \<and> count_status AI_IMPORTED items = 0)" "bv_suspended v = is_suspended b'"
    "length (apify_exceptions d') = length (apify_exceptions demo_breaker_db) + (if is_suspended b' \<and> \<not> is_suspended b then 1 else 0)"
    by blast
  have same: "b = demo_binding" "items = [demo_ambiguous_item]" using b v demo_breaker_tables by simp_all
  have "is_suspended b'" using limits(1) c(1) unfolding same by simp
  with limits(2,3) c(2) run demo_breaker_tables(4) show ?thesis unfolding same by auto
qed

definition demo_suspended :: apify_state where
  "demo_suspended = on_fleet_db (set_binding 2 (\<lambda>b. b\<lparr>ab_suspended_reason := Some ''duplicate_anomaly''\<rparr>)) demo_apify_state"

lemma suspended_never_starts_witness:
  "\<exists>e st'. launch_binding (demo_apify_env demo_started) 2 ''schedule''
       (fold fleet_step [Command demo_hooks (EnableBinding 2 False), Command demo_hooks (EnableBinding 2 True),
          Evaluate 0 1 ''r1'', Launch (demo_apify_env demo_started) 2 ''schedule''] demo_suspended) = (Inl e, st')
     \<and> as_starts st' = as_starts (fold fleet_step [Command demo_hooks (EnableBinding 2 False), Command demo_hooks (EnableBinding 2 True),
          Evaluate 0 1 ''r1'', Launch (demo_apify_env demo_started) 2 ''schedule''] demo_suspended)"
proof -
  have "fresh_id demo_import_db = 10" by (simp add: demo_import_db_def)
  then have s: "suspended_at 2 (as_db demo_suspended)"
    by (auto simp: suspended_at_def demo_suspended_def on_fleet_db_def set_binding_def demo_apify_tables is_suspended_def demo_binding_def)
  have "quiet (demo_apify_env demo_started)" by simp
  then have p: "keeps_suspension 2 (demo_apify_env demo_started)" by (simp add: keeps_suspension_def quiet_def)
  have ps: "\<forall>ev\<in>set [Command demo_hooks (EnableBinding 2 False), Command demo_hooks (EnableBinding 2 True),
          Evaluate 0 1 ''r1'', Launch (demo_apify_env demo_started) 2 ''schedule'']. polite_event 2 ev"
    using p by simp
  from suspended_never_starts [OF s ps p] show ?thesis by blast
qed

end
