(* ===== verification/Apify_Learning.thy ===== *)
theory Apify_Learning
  imports Apify_Base Apify_Lead Blacklist_Store
begin

text \<open>
  The normalisation profiles of a binding (\<open>apify_learning.py\<close>): a candidate profile is replayed on the
  stored items beside the active one, \<open>compare_profiles\<close> decides, and a profile is promoted when its
  last experiment said keep, or put back by the operator. Rows of a replay are dictionaries, as in the
  source.
\<close>

type_synonym replay_row = "(string, json) dict"

section \<open>The decision\<close>

record profile_decision =
  pd_status :: apify_experiment_decision
  pd_reason :: string
  pd_metrics :: "(string, int) dict"

definition row_has :: "string \<Rightarrow> replay_row \<Rightarrow> bool" where
  \<comment> \<open>\<open>bool(row.get(k))\<close>\<close>
  "row_has k row = json_truthy (get_json row k)"

definition row_int :: "string \<Rightarrow> replay_row \<Rightarrow> int" where
  \<comment> \<open>\<open>row.get(k, 0)\<close> of a counter\<close>
  "row_int k row = (case get_json row k of JInt i \<Rightarrow> i | _ \<Rightarrow> 0)"

definition is_ambiguous :: "replay_row \<Rightarrow> bool" where
  "is_ambiguous row = (row_has ''ambiguous'' row \<or> get_json row ''status'' = JStr ''exception'')"

definition is_duplicate :: "replay_row \<Rightarrow> bool" where
  "is_duplicate row = (row_has ''duplicate'' row \<or> get_json row ''status'' = JStr ''duplicate'')"

definition count_rows :: "(replay_row \<Rightarrow> bool) \<Rightarrow> replay_row list \<Rightarrow> int" where
  "count_rows P rows = int (length (filter P rows))"

definition decision_metrics :: "replay_row list \<Rightarrow> replay_row list \<Rightarrow> (string, int) dict" where
  "decision_metrics baseline candidate =
     [(''sample_size'', int (length candidate)),
      (''baseline_coverage'', count_rows (row_has ''phone'') baseline),
      (''candidate_coverage'', count_rows (row_has ''phone'') candidate),
      (''baseline_ambiguities'', count_rows is_ambiguous baseline),
      (''candidate_ambiguities'', count_rows is_ambiguous candidate),
      (''baseline_duplicates'', count_rows is_duplicate baseline),
      (''candidate_duplicates'', count_rows is_duplicate candidate)]"

definition decide :: "apify_experiment_decision \<Rightarrow> string \<Rightarrow> (string, int) dict \<Rightarrow> profile_decision" where
  "decide s r m = \<lparr>pd_status = s, pd_reason = r, pd_metrics = m\<rparr>"

lemma decide_simps [simp]: "pd_status (decide s r m) = s" "pd_reason (decide s r m) = r" "pd_metrics (decide s r m) = m"
  by (simp_all add: decide_def)

fun rows_by_item :: "(json \<Rightarrow> string) \<Rightarrow> replay_row list \<Rightarrow> (string, replay_row) dict option" where
  \<comment> \<open>\<open>{str(row["item"]): row for row in rows}\<close>; \<open>None\<close> for the \<open>KeyError\<close>\<close>
  "rows_by_item txt rows =
     (if list_ex (\<lambda>row. dict_get row ''item'' = None) rows then None
      else Some (fold (\<lambda>row. dict_set (json_str txt (get_json row ''item'')) row) rows []))"

definition old_row :: "(string, replay_row) dict \<Rightarrow> string \<Rightarrow> replay_row" where
  \<comment> \<open>\<open>old[item]\<close>, asked for keys it has\<close>
  "old_row old item = (case dict_get old item of None \<Rightarrow> [] | Some row \<Rightarrow> row)"

definition count_items :: "(string \<Rightarrow> replay_row \<Rightarrow> bool) \<Rightarrow> (string, replay_row) dict \<Rightarrow> int" where
  "count_items P new = int (length (filter (\<lambda>(item, row). P item row) new))"

definition phone_changed :: "(string, replay_row) dict \<Rightarrow> string \<Rightarrow> replay_row \<Rightarrow> bool" where
  "phone_changed old item row =
     (row_has ''phone'' (old_row old item) \<and> get_json (old_row old item) ''phone'' \<noteq> get_json row ''phone'')"

definition newly_blacklisted :: "(string, replay_row) dict \<Rightarrow> string \<Rightarrow> replay_row \<Rightarrow> bool" where
  "newly_blacklisted old item row =
     (row_has ''phone'' row \<and> row_has ''blacklisted'' row \<and> \<not> row_has ''blacklisted'' (old_row old item))"

definition unsafe_new :: "(string, replay_row) dict \<Rightarrow> string \<Rightarrow> replay_row \<Rightarrow> bool" where
  "unsafe_new old item row =
     (\<not> row_has ''phone'' (old_row old item) \<and> row_has ''phone'' row \<and> row_int ''independent_signals'' row < 2)"

definition same_result :: "(string, replay_row) dict \<Rightarrow> string \<Rightarrow> replay_row \<Rightarrow> bool" where
  "same_result old item row =
     (get_json (old_row old item) ''phone'' = get_json row ''phone''
      \<and> get_json (old_row old item) ''status'' = get_json row ''status'')"

definition complexity :: "replay_row list \<Rightarrow> int" where
  \<comment> \<open>\<open>max((...), default=0)\<close>\<close>
  "complexity rows = (case map (row_int ''mapping_count'') rows of [] \<Rightarrow> 0 | n # ns \<Rightarrow> fold max ns n)"

definition compare_profiles :: "(json \<Rightarrow> string) \<Rightarrow> replay_row list \<Rightarrow> replay_row list \<Rightarrow> int \<Rightarrow> profile_decision" where
  "compare_profiles txt baseline candidate minimum =
     (if int (length candidate) < minimum
      then decide AX_DISCARD ''insufficient_sample'' [(''sample_size'', int (length candidate))]
      else
        (case (rows_by_item txt baseline, rows_by_item txt candidate) of
           (Some old, Some new) \<Rightarrow>
             if length old \<noteq> length baseline \<or> length new \<noteq> length candidate \<or> fst ` set old \<noteq> fst ` set new
             then decide AX_CRASH ''corpus_mismatch'' [(''sample_size'', int (length candidate))]
             else
               (let m = decision_metrics baseline candidate;
                    changed = count_items (phone_changed old) new;
                    blacklisted = count_items (newly_blacklisted old) new;
                    unsafe = count_items (unsafe_new old) new;
                    counts = [(''baseline_mapping_count'', complexity baseline), (''candidate_mapping_count'', complexity candidate)] in
                if changed \<noteq> 0 then
                  decide AX_DISCARD ''stable_phone_regression'' (dict_update m [(''changed_stable_phones'', changed)])
                else if blacklisted \<noteq> 0 then
                  decide AX_DISCARD ''blacklist_regression'' (dict_update m [(''new_blacklist_violations'', blacklisted)])
                else if count_rows is_ambiguous candidate > count_rows is_ambiguous baseline
                then decide AX_DISCARD ''ambiguity_regression'' m
                else if count_rows is_duplicate candidate > count_rows is_duplicate baseline
                then decide AX_DISCARD ''duplicate_regression'' m
                else if unsafe \<noteq> 0 then
                  decide AX_DISCARD ''insufficient_evidence'' (dict_update m [(''unsafe_new_coverage'', unsafe)])
                else if list_all (\<lambda>(item, row). same_result old item row) new \<and> complexity candidate > complexity baseline
                then decide AX_DISCARD ''complexity_regression'' (dict_update m counts)
                else decide AX_KEEP ''safe_non_regression'' (dict_update m counts))
         | _ \<Rightarrow> decide AX_CRASH ''invalid_corpus'' [(''sample_size'', int (length candidate))]))"

section \<open>The replay\<close>

definition phone_signals :: "lead_lib \<Rightarrow> (string, json) dict option \<Rightarrow> (string, json) dict \<Rightarrow> string option \<Rightarrow> int" where
  \<comment> \<open>the number of different paths of the chosen number\<close>
  "phone_signals L profile payload phone =
     (case phone of
        None \<Rightarrow> 0
      | Some p \<Rightarrow> int (length (remdups (map fc_path (filter (\<lambda>c. fc_value c = JStr p)
                     (candidates_of (collect_candidates L None profile payload) ''phone''))))))"

definition replay_row_of :: "lead_lib \<Rightarrow> db \<Rightarrow> (string, json) dict option \<Rightarrow> int \<Rightarrow> apify_item \<Rightarrow> replay_row" where
  "replay_row_of L d profile mappings i =
     (let l = normalize_apify_item L None profile (ai_raw_payload i) in
      [(''item'', JStr (str_uuid (ai_id i))), (''phone'', json_opt_str (ld_phone l)),
       (''status'', JStr (lead_status_value (ld_status l))),
       (''ambiguous'', JBool (ld_error_code l = Some ''ambiguous_phone'')),
       (''blacklisted'', JBool (case ld_phone l of None \<Rightarrow> False | Some p \<Rightarrow> p \<noteq> [] \<and> is_blacklisted p d)),
       (''independent_signals'', JInt (phone_signals L profile (ai_raw_payload i) (ld_phone l))),
       (''mapping_count'', JInt mappings)])"

fun mark_from :: "json list \<Rightarrow> json list \<Rightarrow> replay_row list \<Rightarrow> replay_row list" where
  \<comment> \<open>the second pass of \<open>_mark_duplicates\<close>: all numbers, numbers seen so far\<close>
  "mark_from all seen [] = []"
| "mark_from all seen (row # rows) =
     (let phone = get_json row ''phone'' in
      if json_truthy phone \<and> 1 < count_list all phone
      then dict_set ''duplicate'' (JBool (phone \<in> set seen)) row # mark_from all (phone # seen) rows
      else row # mark_from all seen rows)"

definition mark_duplicates :: "replay_row list \<Rightarrow> replay_row list" where
  "mark_duplicates rows = mark_from (filter json_truthy (map (\<lambda>row. get_json row ''phone'') rows)) [] rows"

definition profile_size :: "apify_normalization_profile option \<Rightarrow> int" where
  "profile_size p = (case p of None \<Rightarrow> 0 | Some pr \<Rightarrow> int (length (ap_mappings pr)))"

definition replay_rows :: "lead_lib \<Rightarrow> db \<Rightarrow> apify_item list \<Rightarrow> apify_normalization_profile option \<Rightarrow> replay_row list" where
  "replay_rows L d items profile =
     mark_duplicates (map (replay_row_of L d (profile_dict profile) (profile_size profile)) items)"

definition summary_metrics :: "replay_row list \<Rightarrow> (string, int) dict" where
  "summary_metrics rows =
     [(''sample_size'', int (length rows)), (''coverage'', count_rows (row_has ''phone'') rows),
      (''ambiguities'', count_rows is_ambiguous rows), (''duplicates'', count_rows is_duplicate rows),
      (''blacklist_violations'', count_rows (row_has ''blacklisted'') rows), (''mapping_count'', complexity rows)]"

section \<open>Operations\<close>

definition set_profile :: "uuid \<Rightarrow> (apify_normalization_profile \<Rightarrow> apify_normalization_profile) \<Rightarrow> db \<Rightarrow> db" where
  "set_profile pid f d =
     d\<lparr>apify_normalization_profiles := update_where (\<lambda>p. ap_id p = pid) f (apify_normalization_profiles d)\<rparr>"

definition next_version :: "uuid \<Rightarrow> db \<Rightarrow> int" where
  "next_version bid d =
     (case map ap_version (filter (\<lambda>p. ap_binding_id p = bid) (apify_normalization_profiles d)) of
        [] \<Rightarrow> 1 | v # vs \<Rightarrow> fold max vs v + 1)"

definition candidate_row :: "datetime \<Rightarrow> apify_actor_binding \<Rightarrow> (string, string) dict \<Rightarrow> db \<Rightarrow> apify_normalization_profile" where
  "candidate_row now b inferred d =
     (let active = active_profile b d in
      \<lparr>ap_id = fresh_id d, ap_workspace_id = ab_workspace_id b, ap_binding_id = ab_id b,
       ap_version = next_version (ab_id b) d,
       ap_schema_fingerprint = (case ab_schema_fingerprint b of None \<Rightarrow> sha256_hex ''{}''
                                | Some s \<Rightarrow> if s = [] then sha256_hex ''{}'' else s),
       ap_mappings = dict_update (case active of None \<Rightarrow> [] | Some p \<Rightarrow> ap_mappings p) inferred,
       ap_aliases = (case active of None \<Rightarrow> [] | Some p \<Rightarrow> ap_aliases p),
       ap_priorities = (case active of None \<Rightarrow> [] | Some p \<Rightarrow> ap_priorities p),
       ap_thresholds = (case active of None \<Rightarrow> [] | Some p \<Rightarrow> ap_thresholds p),
       ap_metrics = [], ap_status = AP_CANDIDATE, ap_created_at = now, ap_promoted_at = None, ap_retired_at = None\<rparr>)"

definition create_candidate_profile :: "datetime \<Rightarrow> uuid \<Rightarrow> (string, string) dict option \<Rightarrow> db
    \<Rightarrow> exn + (apify_normalization_profile \<times> db)" where
  "create_candidate_profile now bid inferred d =
     (case get_binding bid d of
        None \<Rightarrow> Inl (LookupError ''apify_binding_not_found'')
      | Some b \<Rightarrow>
          (let row = candidate_row now b (case inferred of None \<Rightarrow> [] | Some m \<Rightarrow> m) d in
           Inr (row, d\<lparr>apify_normalization_profiles := apify_normalization_profiles d @ [row], fresh_id := Suc (fresh_id d)\<rparr>)))"

definition corpus :: "uuid \<Rightarrow> db \<Rightarrow> apify_item list" where
  \<comment> \<open>ordered by \<open>created_at\<close>, then by \<open>id\<close>\<close>
  "corpus bid d =
     sort_key ai_created_at (sort_key ai_id
       (filter (\<lambda>i. list_ex (\<lambda>r. ar_id r = ai_run_id i \<and> ar_binding_id r = bid) (apify_runs d)) (apify_items d)))"

definition json_metrics :: "(string, int) dict \<Rightarrow> (string, json) dict" where
  "json_metrics m = map (\<lambda>(k, v). (k, JInt v)) m"

definition evaluate_candidate :: "lead_lib \<Rightarrow> datetime \<Rightarrow> uuid \<Rightarrow> int \<Rightarrow> db
    \<Rightarrow> exn + (apify_normalization_experiment \<times> db)" where
  \<comment> \<open>a replay of the modelled payloads raises nothing, so the branch for a failed replay is not taken\<close>
  "evaluate_candidate L now pid minimum d =
     (case get_profile pid d of
        None \<Rightarrow> Inl (LookupError ''apify_profile_not_found'')
      | Some cand \<Rightarrow>
          if ap_status cand \<noteq> AP_CANDIDATE then Inl (ValueError ''apify_profile_not_candidate'')
          else
            (case get_binding (ap_binding_id cand) d of
               None \<Rightarrow> Inl (LookupError ''apify_binding_not_found'')
             | Some b \<Rightarrow>
                 (let baseline = active_profile b d; items = corpus (ab_id b) d;
                      old = replay_rows L d items baseline; new = replay_rows L d items (Some cand);
                      decision = compare_profiles (ll_text L) old new minimum;
                      metrics = dict_update (summary_metrics new) (pd_metrics decision);
                      experiment =
                        \<lparr>ax_id = fresh_id d, ax_workspace_id = ap_workspace_id cand, ax_binding_id = ap_binding_id cand,
                         ax_baseline_profile_id = map_option ap_id baseline, ax_candidate_profile_id = ap_id cand,
                         ax_corpus_size = int (length items), ax_baseline_metrics = json_metrics (summary_metrics old),
                         ax_candidate_metrics = json_metrics metrics, ax_decision = Some (pd_status decision),
                         ax_reason = Some (pd_reason decision), ax_created_at = now, ax_evaluated_at = Some now\<rparr>;
                      d1 = set_profile pid (\<lambda>p. p\<lparr>ap_metrics := json_metrics metrics\<rparr>) d in
                  Inr (experiment, d1\<lparr>apify_normalization_experiments := apify_normalization_experiments d1 @ [experiment],
                                     fresh_id := Suc (fresh_id d1)\<rparr>))))"

definition last_experiment :: "uuid \<Rightarrow> db \<Rightarrow> apify_normalization_experiment option" where
  "last_experiment pid d =
     latest ax_created_at (filter (\<lambda>x. ax_candidate_profile_id x = pid) (apify_normalization_experiments d))"

definition retire :: "datetime \<Rightarrow> uuid option \<Rightarrow> db \<Rightarrow> db" where
  \<comment> \<open>the active profile, when its row exists\<close>
  "retire now active d =
     (case active of
        None \<Rightarrow> d
      | Some pid \<Rightarrow> set_profile pid (\<lambda>p. p\<lparr>ap_status := AP_RETIRED, ap_retired_at := Some now\<rparr>) d)"

definition activate :: "datetime \<Rightarrow> uuid \<Rightarrow> uuid \<Rightarrow> db \<Rightarrow> db" where
  "activate now bid pid d =
     set_binding bid (\<lambda>b. b\<lparr>ab_active_profile_id := Some pid\<rparr>)
       (set_profile pid (\<lambda>p. p\<lparr>ap_status := AP_ACTIVE, ap_promoted_at := Some now, ap_retired_at := None\<rparr>) d)"

definition promote_profile :: "datetime \<Rightarrow> uuid \<Rightarrow> db \<Rightarrow> exn + (apify_normalization_profile option \<times> db)" where
  "promote_profile now pid d =
     (case get_profile pid d of
        None \<Rightarrow> Inl (LookupError ''apify_profile_not_found'')
      | Some cand \<Rightarrow>
          (case get_binding (ap_binding_id cand) d of
             None \<Rightarrow> Inl (LookupError ''apify_binding_not_found'')
           | Some b \<Rightarrow>
               if ap_status cand \<noteq> AP_CANDIDATE then Inl (ValueError ''apify_profile_not_candidate'')
               else if map_option ax_decision (last_experiment pid d) \<noteq> Some (Some AX_KEEP)
               then Inl (ValueError ''apify_profile_not_approved'')
               else (let d1 = activate now (ab_id b) pid (retire now (ab_active_profile_id b) d) in
                     Inr (get_profile pid d1, d1))))"

definition rollback_profile :: "datetime \<Rightarrow> uuid \<Rightarrow> uuid \<Rightarrow> db \<Rightarrow> exn + (apify_normalization_profile option \<times> db)" where
  "rollback_profile now bid pid d =
     (case get_binding bid d of
        None \<Rightarrow> Inl (LookupError ''apify_binding_not_found'')
      | Some b \<Rightarrow>
          (case get_profile pid d of
             None \<Rightarrow> Inl (LookupError ''apify_profile_not_found'')
           | Some target \<Rightarrow>
               if ap_binding_id target \<noteq> ab_id b then Inl (LookupError ''apify_profile_not_found'')
               else (let d1 = activate now bid pid
                            (if ab_active_profile_id b = Some pid then d else retire now (ab_active_profile_id b) d) in
                     Inr (get_profile pid d1, d1))))"
section \<open>What keep means\<close>

definition row_item :: "(json \<Rightarrow> string) \<Rightarrow> replay_row \<Rightarrow> string" where
  "row_item txt row = json_str txt (get_json row ''item'')"

lemma rows_by_item_update:
  "rows_by_item txt rows = Some m \<Longrightarrow> m = dict_update [] (map (\<lambda>row. (row_item txt row, row)) rows)"
  by (auto simp: dict_update_def fold_map comp_def row_item_def split: if_splits)

lemma dict_set_keys: "fst ` set (dict_set k v d) = insert k (fst ` set d)"
proof -
  have "set (map fst (AList.update k v d)) = insert k (set (map fst d))" by (auto simp: update_keys)
  then show ?thesis by (simp add: dict_set_def)
qed

lemma dict_update_Cons: "dict_update d ((k, v) # e) = dict_update (dict_set k v d) e"
  by (simp add: dict_update_def)

lemma dict_update_keys: "fst ` set (dict_update d e) = fst ` set d \<union> fst ` set e"
proof (induction e arbitrary: d)
  case Nil
  then show ?case by (simp add: dict_update_def)
next
  case (Cons p e)
  then show ?case by (cases p) (simp add: dict_update_Cons dict_set_keys)
qed

lemma dict_update_distinct: "distinct (map fst d) \<Longrightarrow> distinct (map fst (dict_update d e))"
proof (induction e arbitrary: d)
  case Nil
  then show ?case by (simp add: dict_update_def)
next
  case (Cons p e)
  then show ?case by (cases p) (simp add: dict_update_Cons dict_set_def distinct_update)
qed

lemma rows_by_item_get:
  assumes "rows_by_item txt rows = Some m" "length m = length rows" "row \<in> set rows"
  shows "dict_get m (row_item txt row) = Some row"
proof -
  let ?e = "map (\<lambda>row. (row_item txt row, row)) rows"
  have m: "m = dict_update [] ?e" by (rule rows_by_item_update [OF assms(1)])
  have "distinct (map fst m)" unfolding m by (rule dict_update_distinct) simp
  then have "card (fst ` set m) = length m" using distinct_card [of "map fst m"] by simp
  moreover have "fst ` set m = set (map fst ?e)" unfolding m dict_update_keys by (simp add: image_image)
  ultimately have "distinct (map fst ?e)" using assms(2) by (intro card_distinct) simp
  then have "distinct (map fst (rev ?e))" by (simp only: rev_map [symmetric] distinct_rev)
  moreover have "(row_item txt row, row) \<in> set (rev ?e)" using assms(3) by simp
  ultimately have "dict_get (rev ?e) (row_item txt row) = Some row"
    by (simp add: dict_get_def map_of_is_SomeI)
  then show ?thesis unfolding m by (subst dict_get_update) simp
qed

lemma count_items_none: "count_items P new = 0 \<Longrightarrow> dict_get new item = Some row \<Longrightarrow> \<not> P item row"
proof
  assume none: "count_items P new = 0" and "dict_get new item = Some row" "P item row"
  then have "(item, row) \<in> set (filter (\<lambda>(item, row). P item row) new)"
    by (simp add: dict_get_def map_of_SomeD)
  moreover have "filter (\<lambda>(item, row). P item row) new = []" using none by (simp add: count_items_def)
  ultimately show False by simp
qed

lemma same_key: "distinct (map key t) \<Longrightarrow> x \<in> set t \<Longrightarrow> y \<in> set t \<Longrightarrow> key x = key y \<Longrightarrow> x = y"
  by (auto simp: distinct_map inj_on_eq_iff)

lemma keep_cases:
  assumes "pd_status (compare_profiles txt baseline candidate minimum) = AX_KEEP"
  obtains old new where "rows_by_item txt baseline = Some old" "rows_by_item txt candidate = Some new"
    "length old = length baseline" "length new = length candidate" "minimum \<le> int (length candidate)"
    "count_items (phone_changed old) new = 0" "count_items (newly_blacklisted old) new = 0"
    "count_items (unsafe_new old) new = 0" "count_rows is_ambiguous candidate \<le> count_rows is_ambiguous baseline"
    "count_rows is_duplicate candidate \<le> count_rows is_duplicate baseline"
proof -
  obtain old new where r: "rows_by_item txt baseline = Some old" "rows_by_item txt candidate = Some new"
    using assms by (auto simp: compare_profiles_def simp del: rows_by_item.simps split: if_splits option.splits)
  with assms show thesis
    by (intro that [OF r]) (auto simp: compare_profiles_def Let_def simp del: rows_by_item.simps split: if_splits)
qed

lemma keep_safe:
  assumes "pd_status (compare_profiles txt baseline candidate minimum) = AX_KEEP"
    and "row \<in> set baseline" "row' \<in> set candidate" "row_item txt row' = row_item txt row"
  shows "minimum \<le> int (length candidate)
    \<and> (row_has ''phone'' row \<longrightarrow> get_json row' ''phone'' = get_json row ''phone'')
    \<and> (row_has ''phone'' row' \<longrightarrow> row_has ''blacklisted'' row' \<longrightarrow> row_has ''blacklisted'' row)
    \<and> (\<not> row_has ''phone'' row \<longrightarrow> row_has ''phone'' row' \<longrightarrow> 2 \<le> row_int ''independent_signals'' row')
    \<and> count_rows is_ambiguous candidate \<le> count_rows is_ambiguous baseline
    \<and> count_rows is_duplicate candidate \<le> count_rows is_duplicate baseline"
proof -
  obtain old new where maps: "rows_by_item txt baseline = Some old" "rows_by_item txt candidate = Some new"
      "length old = length baseline" "length new = length candidate"
    and none: "count_items (phone_changed old) new = 0" "count_items (newly_blacklisted old) new = 0"
      "count_items (unsafe_new old) new = 0"
    and m: "minimum \<le> int (length candidate)" "count_rows is_ambiguous candidate \<le> count_rows is_ambiguous baseline"
      "count_rows is_duplicate candidate \<le> count_rows is_duplicate baseline"
    using assms(1) by (rule keep_cases)
  have o: "old_row old (row_item txt row) = row"
    using rows_by_item_get [OF maps(1,3) assms(2)] by (simp add: old_row_def)
  have n: "dict_get new (row_item txt row) = Some row'"
    using rows_by_item_get [OF maps(2,4) assms(3)] assms(4) by simp
  show ?thesis
    using none [THEN count_items_none, OF n] m o by (auto simp: phone_changed_def newly_blacklisted_def unsafe_new_def)
qed

text \<open>
  C10. The decision to keep a candidate profile is safe. When it falls, there were enough rows; no item
  that had a number loses it or gets another one; no item gets a blacklisted number it had not; an item that
  gets its first number shows it at two different places at least; and neither the ambiguous items nor the
  repeated numbers have become more.
\<close>

theorem kept_profile_is_safe:
  assumes "pd_status (compare_profiles txt baseline candidate minimum) = AX_KEEP"
    and "row \<in> set baseline" "row' \<in> set candidate" "row_item txt row' = row_item txt row"
  shows "minimum \<le> int (length candidate)
    \<and> (row_has ''phone'' row \<longrightarrow> get_json row' ''phone'' = get_json row ''phone'')
    \<and> (row_has ''phone'' row' \<longrightarrow> row_has ''blacklisted'' row' \<longrightarrow> row_has ''blacklisted'' row)
    \<and> (\<not> row_has ''phone'' row \<longrightarrow> row_has ''phone'' row' \<longrightarrow> 2 \<le> row_int ''independent_signals'' row')
    \<and> count_rows is_ambiguous candidate \<le> count_rows is_ambiguous baseline
    \<and> count_rows is_duplicate candidate \<le> count_rows is_duplicate baseline"
  by (rule keep_safe [OF assms])

section \<open>One active profile\<close>

text \<open>
  \<open>active_named d\<close>: every active profile is the one its binding names, so a binding has one at most.
\<close>

definition active_named :: "db \<Rightarrow> bool" where
  "active_named d =
     (distinct (map ap_id (apify_normalization_profiles d)) \<and> distinct (map ab_id (apify_actor_bindings d))
      \<and> (\<forall>p\<in>set (apify_normalization_profiles d). ap_id p < fresh_id d)
      \<and> (\<forall>p\<in>set (apify_normalization_profiles d). ap_status p = AP_ACTIVE \<longrightarrow>
           (\<exists>b\<in>set (apify_actor_bindings d). ab_id b = ap_binding_id p \<and> ab_active_profile_id b = Some (ap_id p))))"

lemma set_profile_frame [simp]:
  "apify_actor_bindings (set_profile pid f d) = apify_actor_bindings d" "fresh_id (set_profile pid f d) = fresh_id d"
  "apify_normalization_experiments (set_profile pid f d) = apify_normalization_experiments d"
  by (simp_all add: set_profile_def)

lemma retire_frame [simp]:
  "apify_actor_bindings (retire now active d) = apify_actor_bindings d" "fresh_id (retire now active d) = fresh_id d"
  by (simp_all add: retire_def split: option.splits)

lemma retire_rows:
  "apify_normalization_profiles (retire now active d) =
     update_where (\<lambda>p. active = Some (ap_id p)) (\<lambda>p. p\<lparr>ap_status := AP_RETIRED, ap_retired_at := Some now\<rparr>)
       (apify_normalization_profiles d)"
  by (cases active) (auto simp: retire_def set_profile_def update_where_def intro!: map_idI)

lemma activate_keeps:
  assumes inv: "active_named d" and b: "b \<in> set (apify_actor_bindings d)"
    and p: "get_profile pid d = Some target" "ap_binding_id target = ab_id b"
    and d1: "d1 = d \<and> ab_active_profile_id b = Some pid \<or> d1 = retire now (ab_active_profile_id b) d"
  shows "active_named (activate now' (ab_id b) pid d1)"
proof -
  let ?ps = "apify_normalization_profiles d" and ?bs = "apify_actor_bindings d"
  let ?up = "\<lambda>q. if ap_id q = pid then q\<lparr>ap_status := AP_ACTIVE, ap_promoted_at := Some now', ap_retired_at := None\<rparr> else q"
  let ?g = "\<lambda>c. if ab_id c = ab_id b then c\<lparr>ab_active_profile_id := Some pid\<rparr> else c"
  have t: "target \<in> set ?ps" "ap_id target = pid" using p(1) by (auto simp: get_profile_def dest: find_row_SomeD)
  have only: "q = target" if "q \<in> set ?ps" "ap_id q = pid" for q
    using same_key [of ap_id ?ps q target] that t inv by (simp add: active_named_def)
  have onlyb: "c = b" if "c \<in> set ?bs" "ab_id c = ab_id b" for c
    using same_key [of ab_id ?bs c b] that b inv by (simp add: active_named_def)
  define qs where "qs = apify_normalization_profiles d1"
  have d1b: "apify_actor_bindings d1 = ?bs" "fresh_id d1 = fresh_id d" using d1 by auto
  have keys: "map ap_id qs = map ap_id ?ps" "map ap_binding_id qs = map ap_binding_id ?ps"
    using d1 by (auto simp: qs_def retire_rows map_update_where)
  have rows: "\<exists>q0\<in>set ?ps. ap_id q = ap_id q0 \<and> ap_binding_id q = ap_binding_id q0
      \<and> (ap_status q = AP_ACTIVE \<longrightarrow> ap_status q0 = AP_ACTIVE \<and> (ab_active_profile_id b = Some (ap_id q) \<longrightarrow> ap_id q = pid))"
    if "q \<in> set qs" for q
    using that d1 by (fastforce simp: qs_def retire_rows set_update_where)
  have act: "apify_normalization_profiles (activate now' (ab_id b) pid d1) = map ?up qs"
    "apify_actor_bindings (activate now' (ab_id b) pid d1) =
       map (\<lambda>c. if ab_id c = ab_id b then c\<lparr>ab_active_profile_id := Some pid\<rparr> else c) ?bs"
    "fresh_id (activate now' (ab_id b) pid d1) = fresh_id d"
    using d1b by (simp_all add: activate_def set_binding_def set_profile_def update_where_def qs_def)
  have named: "\<exists>c\<in>set (apify_actor_bindings (activate now' (ab_id b) pid d1)). ab_id c = ap_binding_id q \<and> ab_active_profile_id c = Some (ap_id q)"
    if "q \<in> set (map ?up qs)" "ap_status q = AP_ACTIVE" for q
  proof -
    obtain q1 where q1: "q1 \<in> set qs" "q = ?up q1" using \<open>q \<in> set (map ?up qs)\<close> by auto
    from rows [OF q1(1)] obtain q0 where q0: "q0 \<in> set ?ps" "ap_id q1 = ap_id q0" "ap_binding_id q1 = ap_binding_id q0"
      "ap_status q1 = AP_ACTIVE \<Longrightarrow> ap_status q0 = AP_ACTIVE \<and> (ab_active_profile_id b = Some (ap_id q1) \<longrightarrow> ap_id q1 = pid)" by blast
    have same: "ap_id q = ap_id q1" "ap_binding_id q = ap_binding_id q1" by (simp_all add: q1(2))
    show ?thesis
    proof (cases "ap_id q1 = pid")
      case True
      then have "q0 = target" using only q0 by simp
      then have "ab_id (?g b) = ap_binding_id q \<and> ab_active_profile_id (?g b) = Some (ap_id q)"
        using True same q0(3) p(2) by simp
      moreover have "?g b \<in> set (map ?g ?bs)" using b by simp
      ultimately show ?thesis unfolding act(2) by blast
    next
      case False
      then have st: "ap_status q0 = AP_ACTIVE" "ab_active_profile_id b \<noteq> Some (ap_id q1)"
        using q0(4) q1(2) \<open>ap_status q = AP_ACTIVE\<close> by auto
      then obtain c where c: "c \<in> set ?bs" "ab_id c = ap_binding_id q0" "ab_active_profile_id c = Some (ap_id q0)"
        using inv q0(1) unfolding active_named_def by blast
      then have "ab_id c \<noteq> ab_id b" using onlyb [OF c(1)] st(2) q0(2) by auto
      then have "?g c = c" by simp
      moreover have "?g c \<in> set (map ?g ?bs)" using c(1) by simp
      ultimately have mem: "c \<in> set (map ?g ?bs)" by simp
      have "ab_id c = ap_binding_id q \<and> ab_active_profile_id c = Some (ap_id q)" using c(2,3) q0(2,3) same by simp
      with mem show ?thesis unfolding act(2) by blast
    qed
  qed
  have ids: "map ap_id (map ?up qs) = map ap_id ?ps" using keys(1) by (simp add: comp_def if_distrib cong: if_cong)
  have bids: "map ab_id (map ?g ?bs) = map ab_id ?bs" by simp
  have "set (map ap_id (map ?up qs)) = set (map ap_id ?ps)" using ids by simp
  moreover have "\<forall>n\<in>set (map ap_id ?ps). n < fresh_id d" using inv by (simp add: active_named_def)
  ultimately have fresh: "\<forall>q\<in>set (map ?up qs). ap_id q < fresh_id d" by (metis (no_types, lifting) image_eqI list.set_map)
  have "distinct (map ap_id (map ?up qs))" "distinct (map ab_id (map ?g ?bs))"
    unfolding ids bids using inv unfolding active_named_def by blast+
  with fresh named show ?thesis unfolding active_named_def act by blast
qed

datatype learning_op =
    CreateCandidate uuid "(string, string) dict option"
  | Evaluate uuid int
  | Promote uuid
  | Rollback uuid uuid

definition learning_step :: "lead_lib \<Rightarrow> datetime \<times> learning_op \<Rightarrow> db \<Rightarrow> db" where
  "learning_step L = (\<lambda>(now, op) d.
     (case op of
        CreateCandidate bid m \<Rightarrow> snd (session (create_candidate_profile now bid m) d)
      | Evaluate pid n \<Rightarrow> snd (session (evaluate_candidate L now pid n) d)
      | Promote pid \<Rightarrow> snd (session (promote_profile now pid) d)
      | Rollback bid pid \<Rightarrow> snd (session (rollback_profile now bid pid) d)))"

lemma session_keeps:
  assumes "active_named d" "\<And>x d'. block d = Inr (x, d') \<Longrightarrow> active_named d'"
  shows "active_named (snd (session block d))"
  using assms by (cases "block d") (auto simp: session_def)

lemma create_keeps:
  assumes "active_named d" "create_candidate_profile now bid m d = Inr (x, d')"
  shows "active_named d'"
proof -
  have d': "d' = d\<lparr>apify_normalization_profiles := apify_normalization_profiles d @ [x], fresh_id := Suc (fresh_id d)\<rparr>"
    using assms(2) by (auto simp: create_candidate_profile_def Let_def split: option.splits)
  have x: "ap_id x = fresh_id d" "ap_status x = AP_CANDIDATE"
    using assms(2) by (auto simp: create_candidate_profile_def candidate_row_def Let_def split: option.splits)
  have "fresh_id d \<notin> ap_id ` set (apify_normalization_profiles d)" using assms(1) by (auto simp: active_named_def)
  with assms(1) x show ?thesis by (auto simp: active_named_def d' less_Suc_eq)
qed

lemma evaluate_keeps:
  assumes "active_named d" "evaluate_candidate L now pid n d = Inr (x, d')"
  shows "active_named d'"
proof -
  obtain metrics where "d' = (set_profile pid (\<lambda>p. p\<lparr>ap_metrics := metrics\<rparr>) d)\<lparr>apify_normalization_experiments :=
      apify_normalization_experiments d @ [x], fresh_id := Suc (fresh_id d)\<rparr>"
    using assms(2) by (auto simp: evaluate_candidate_def Let_def split: option.splits if_splits)
  with assms(1) show ?thesis
    by (auto simp: active_named_def set_profile_def set_update_where map_update_where less_Suc_eq)
qed

lemma promote_keeps:
  assumes "active_named d" "promote_profile now pid d = Inr (x, d')"
  shows "active_named d'"
proof -
  obtain cand b where c: "get_profile pid d = Some cand" "get_binding (ap_binding_id cand) d = Some b"
    "d' = activate now (ab_id b) pid (retire now (ab_active_profile_id b) d)"
    using assms(2) by (auto simp: promote_profile_def Let_def split: option.splits if_splits)
  then have b: "b \<in> set (apify_actor_bindings d)" "ab_id b = ap_binding_id cand"
    by (auto simp: get_binding_def dest: find_row_SomeD)
  show ?thesis unfolding c(3) by (rule activate_keeps [OF assms(1) b(1) c(1)]) (use b in auto)
qed

lemma rollback_keeps:
  assumes "active_named d" "rollback_profile now bid pid d = Inr (x, d')"
  shows "active_named d'"
proof -
  obtain target b where c: "get_profile pid d = Some target" "get_binding bid d = Some b" "ap_binding_id target = ab_id b"
    "d' = activate now bid pid (if ab_active_profile_id b = Some pid then d else retire now (ab_active_profile_id b) d)"
    using assms(2) by (auto simp: rollback_profile_def Let_def split: option.splits if_splits)
  then have b: "b \<in> set (apify_actor_bindings d)" "ab_id b = bid"
    by (auto simp: get_binding_def dest: find_row_SomeD)
  from activate_keeps [OF assms(1) b(1) c(1,3), of _ now now] show ?thesis unfolding c(4) using b(2) by auto
qed

text \<open>
  C22. Whatever is done to the profiles (creations, evaluations, promotions and rollbacks, in any order,
  refused ones included), every active profile is the one that its binding names: a binding never has
  two active profiles, and the one it uses is not one of another binding.
\<close>

theorem one_active_profile:
  assumes "active_named d"
  shows "active_named (fold (learning_step L) ops d)
    \<and> (\<forall>p\<in>set (apify_normalization_profiles (fold (learning_step L) ops d)).
         \<forall>q\<in>set (apify_normalization_profiles (fold (learning_step L) ops d)).
           ap_status p = AP_ACTIVE \<longrightarrow> ap_status q = AP_ACTIVE \<longrightarrow> ap_binding_id p = ap_binding_id q \<longrightarrow> p = q)"
proof -
  have "active_named (learning_step L op d)" if "active_named d" for op d
    using that by (auto simp: learning_step_def split: prod.split learning_op.split
        intro!: session_keeps dest: create_keeps evaluate_keeps promote_keeps rollback_keeps)
  then have inv: "active_named (fold (learning_step L) ops d)"
    using assms by (induction ops arbitrary: d) auto
  have "p = q" if hyp: "active_named e" "p \<in> set (apify_normalization_profiles e)" "q \<in> set (apify_normalization_profiles e)"
    "ap_status p = AP_ACTIVE" "ap_status q = AP_ACTIVE" "ap_binding_id p = ap_binding_id q" for e p q
  proof -
    have named: "\<exists>b\<in>set (apify_actor_bindings e). ab_id b = ap_binding_id r \<and> ab_active_profile_id b = Some (ap_id r)"
      if "r \<in> set (apify_normalization_profiles e)" "ap_status r = AP_ACTIVE" for r
      using hyp(1) that unfolding active_named_def by blast
    obtain b c where "b \<in> set (apify_actor_bindings e)" "ab_id b = ap_binding_id p" "ab_active_profile_id b = Some (ap_id p)"
      "c \<in> set (apify_actor_bindings e)" "ab_id c = ap_binding_id q" "ab_active_profile_id c = Some (ap_id q)"
      using named [OF hyp(2,4)] named [OF hyp(3,5)] by blast
    moreover from this have "b = c"
      using same_key [of ab_id "apify_actor_bindings e" b c] hyp(1,6) by (simp add: active_named_def)
    ultimately have "ap_id p = ap_id q" by simp
    then show ?thesis using same_key [of ap_id "apify_normalization_profiles e" p q] hyp(1-3) by (simp add: active_named_def)
  qed
  with inv show ?thesis by blast
qed
section \<open>From the evaluation to the promotion\<close>

lemma mark_from_core:
  "map (\<lambda>r. (get_json r ''item'', get_json r ''phone'')) (mark_from all seen rows)
     = map (\<lambda>r. (get_json r ''item'', get_json r ''phone'')) rows"
  by (induction all seen rows rule: mark_from.induct) (auto simp: Let_def get_json_def)

lemma replay_rows_row:
  assumes "i \<in> set items"
  shows "\<exists>row\<in>set (replay_rows L d items profile). get_json row ''item'' = JStr (str_uuid (ai_id i))
      \<and> get_json row ''phone'' = json_opt_str (ld_phone (normalize_apify_item L None (profile_dict profile) (ai_raw_payload i)))"
proof -
  let ?row = "replay_row_of L d (profile_dict profile) (profile_size profile) i"
  let ?core = "\<lambda>r. (get_json r ''item'', get_json r ''phone'')"
  have "?core ?row \<in> set (map ?core (replay_rows L d items profile))"
    unfolding replay_rows_def mark_duplicates_def mark_from_core using assms by auto
  moreover have "?core ?row = (JStr (str_uuid (ai_id i)),
      json_opt_str (ld_phone (normalize_apify_item L None (profile_dict profile) (ai_raw_payload i))))"
    by (simp add: replay_row_of_def Let_def get_json_def dict_get_def)
  ultimately show ?thesis by auto
qed

lemma extracted_not_empty: "extract_phone lib t = Some p \<Longrightarrow> p \<noteq> []"
  by (auto simp: extract_phone_def Let_def split: option.splits if_splits)

lemma lead_phone_not_empty: "ld_phone (normalize_apify_item L schema profile payload) = Some p \<Longrightarrow> p \<noteq> []"
  using normalized_phone [of L schema profile payload p] extracted_not_empty
  unfolding numbered_def list_ex_iff leaf_phone_def by fastforce

lemma latest_snoc: "(\<And>y. y \<in> set t \<Longrightarrow> key y \<le> key r) \<Longrightarrow> latest key (t @ [r]) = Some r"
  by (induction t) (auto split: option.splits dest: leD)

text \<open>
  C16. A promotion that follows the evaluation changes no known number: when a candidate profile is
  evaluated and then promoted, with no evaluation dated later than now, every stored item of the
  binding that gave a number under the profile in use gives the same number under the new one, which the binding uses
  from then on.
\<close>

theorem promotion_keeps_numbers:
  assumes "evaluate_candidate L now pid minimum d = Inr (x, d1)" and "promote_profile now' pid d1 = Inr (r, d2)"
    and "\<And>y. y \<in> set (apify_normalization_experiments d) \<Longrightarrow> ax_created_at y \<le> now"
    and "get_profile pid d = Some cand" and "get_binding (ap_binding_id cand) d = Some b" and "i \<in> set (corpus (ab_id b) d)"
    and "ld_phone (normalize_apify_item L None (profile_dict (active_profile b d)) (ai_raw_payload i)) = Some p"
  shows "ld_phone (normalize_apify_item L None (profile_dict (Some cand)) (ai_raw_payload i)) = Some p
    \<and> (\<exists>b'. get_binding (ab_id b) d2 = Some b' \<and> ab_active_profile_id b' = Some pid)"
proof -
  let ?items = "corpus (ab_id b) d"
  let ?old = "replay_rows L d ?items (active_profile b d)" and ?new = "replay_rows L d ?items (Some cand)"
  have cand: "ap_id cand = pid" using assms(4) by (auto simp: get_profile_def dest: find_row_SomeD)
  obtain metrics where x: "ax_created_at x = now" "ax_candidate_profile_id x = pid"
      "ax_decision x = Some (pd_status (compare_profiles (ll_text L) ?old ?new minimum))"
    and d1: "d1 = (set_profile pid (\<lambda>p. p\<lparr>ap_metrics := metrics\<rparr>) d)\<lparr>apify_normalization_experiments :=
      apify_normalization_experiments d @ [x], fresh_id := Suc (fresh_id d)\<rparr>"
    using assms(1,4,5) cand by (auto simp: evaluate_candidate_def Let_def split: if_splits)
  have "last_experiment pid d1 = Some x"
    using assms(3) x by (auto simp: last_experiment_def d1 intro!: latest_snoc)
  moreover obtain cand' b' where p': "get_profile pid d1 = Some cand'" "get_binding (ap_binding_id cand') d1 = Some b'"
    "map_option ax_decision (last_experiment pid d1) = Some (Some AX_KEEP)"
    "d2 = activate now' (ab_id b') pid (retire now' (ab_active_profile_id b') d1)"
    using assms(2) by (auto simp: promote_profile_def Let_def split: option.splits if_splits)
  ultimately have keep: "pd_status (compare_profiles (ll_text L) ?old ?new minimum) = AX_KEEP" using x(3) by simp
  obtain row where row: "row \<in> set ?old" "get_json row ''item'' = JStr (str_uuid (ai_id i))" "get_json row ''phone'' = JStr p"
    using replay_rows_row [OF assms(6), of L d "active_profile b d"] assms(7) by (auto simp: json_opt_str_def)
  obtain row' where row': "row' \<in> set ?new" "get_json row' ''item'' = JStr (str_uuid (ai_id i))"
    "get_json row' ''phone'' = json_opt_str (ld_phone (normalize_apify_item L None (profile_dict (Some cand)) (ai_raw_payload i)))"
    using replay_rows_row [OF assms(6), of L d "Some cand"] by blast
  have "row_has ''phone'' row" using row(3) lead_phone_not_empty [OF assms(7)] by (simp add: row_has_def)
  with keep_safe [OF keep row(1) row'(1)] row row'
  have "json_opt_str (ld_phone (normalize_apify_item L None (profile_dict (Some cand)) (ai_raw_payload i))) = JStr p"
    by (simp add: row_item_def)
  then have number: "ld_phone (normalize_apify_item L None (profile_dict (Some cand)) (ai_raw_payload i)) = Some p"
    by (auto simp: json_opt_str_def split: option.splits)
  have "cand' = cand\<lparr>ap_metrics := metrics\<rparr>"
    using p'(1) assms(4) cand by (simp add: get_profile_def d1 set_profile_def find_update_where)
  moreover have bid: "ab_id b = ap_binding_id cand" using assms(5) by (auto simp: get_binding_def dest: find_row_SomeD)
  ultimately have "get_binding (ab_id b) d = Some b'" "b' = b"
    using p'(2) assms(5) by (simp_all add: get_binding_def d1 set_profile_def)
  then have "get_binding (ab_id b) d2 = Some (b\<lparr>ab_active_profile_id := Some pid\<rparr>)"
    by (simp add: p'(4) activate_def set_binding_def get_binding_def find_update_where d1 set_profile_def)
  with number show ?thesis by simp
qed

section \<open>Promotion by the back door\<close>

text \<open>
  The route for a rollback gives the operator any profile of the binding, a candidate that no
  experiment has kept included.
\<close>

lemma rollback_skips_experiments:
  assumes "get_binding bid d = Some b" "get_profile pid d = Some p" "ap_binding_id p = bid" "ap_status p = AP_CANDIDATE"
    and "apify_normalization_experiments d = []"
  shows "is_error (fst (session (promote_profile now pid) d)) \<and> \<not> is_error (fst (session (rollback_profile now bid pid) d))"
proof -
  have "ab_id b = bid" using assms(1) by (auto simp: get_binding_def dest: find_row_SomeD)
  with assms show ?thesis
    by (simp add: promote_profile_def rollback_profile_def session_def last_experiment_def Let_def)
qed
section \<open>Witnesses\<close>

definition demo_row :: "string \<Rightarrow> json \<Rightarrow> int \<Rightarrow> replay_row" where
  "demo_row item phone signals = [(''item'', JStr item), (''phone'', phone), (''status'', JStr ''actionable''),
     (''blacklisted'', JBool False), (''independent_signals'', JInt signals)]"

lemma kept_profile_is_safe_witness:
  "get_json (demo_row ''b'' (JStr ''+336'') 2) ''phone'' = JStr ''+336'' \<and> 2 \<le> row_int ''independent_signals'' (demo_row ''b'' (JStr ''+336'') 2)"
proof -
  have k: "pd_status (compare_profiles (\<lambda>_. ''?'') [demo_row ''a'' (JStr ''+337'') 1, demo_row ''b'' JNull 0]
      [demo_row ''a'' (JStr ''+337'') 1, demo_row ''b'' (JStr ''+336'') 2] 1) = AX_KEEP" by code_simp
  have r: "row_item (\<lambda>_. ''?'') (demo_row ''b'' (JStr ''+336'') 2) = row_item (\<lambda>_. ''?'') (demo_row ''b'' JNull 0)"
    "\<not> row_has ''phone'' (demo_row ''b'' JNull 0)" "row_has ''phone'' (demo_row ''b'' (JStr ''+336'') 2)"
    "get_json (demo_row ''b'' (JStr ''+336'') 2) ''phone'' = JStr ''+336''" by code_simp+
  from kept_profile_is_safe [OF k _ _ r(1)] r show ?thesis by simp
qed

definition demo_profile :: "uuid \<Rightarrow> apify_profile_status \<Rightarrow> (string, string) dict \<Rightarrow> apify_normalization_profile" where
  "demo_profile pid status m = \<lparr>ap_id = pid, ap_workspace_id = 9, ap_binding_id = 2, ap_version = 1, ap_schema_fingerprint = ''f'',
     ap_mappings = m, ap_aliases = [], ap_priorities = [], ap_thresholds = [], ap_metrics = [], ap_status = status,
     ap_created_at = 0, ap_promoted_at = None, ap_retired_at = None\<rparr>"

definition demo_learning_binding :: apify_actor_binding where
  "demo_learning_binding = \<lparr>ab_id = 2, ab_workspace_id = 9, ab_account_id = 1, ab_sector_id = None, ab_campaign_id = Some 5,
     ab_resource_type = ''actor'', ab_resource_id = ''a1'', ab_name = ''a1'', ab_input_ciphertext = ''{}'', ab_enabled = True,
     ab_schedule_authority = ''internal'', ab_schedule_minutes = Some 60, ab_next_run_at = Some 0, ab_webhook_id = None,
     ab_schema_fingerprint = None, ab_active_profile_id = Some 20, ab_suspended_reason = None, ab_created_at = 0,
     ab_updated_at = 0\<rparr>"

definition demo_learning_item :: apify_item where
  "demo_learning_item = \<lparr>ai_id = 30, ai_workspace_id = 9, ai_account_id = 1, ai_run_id = 3, ai_dataset_index = 0,
     ai_content_hash = ''h'', ai_raw_payload = [(''phone'', JStr ''0612345678'')], ai_normalized_payload = None,
     ai_confidence = None, ai_status = AI_IMPORTED, ai_contact_id = None, ai_listing_id = None,
     ai_sms_sequence_id = None, ai_error = None, ai_processed_at = None, ai_created_at = 0\<rparr>"

definition demo_learning_run :: apify_run where
  "demo_learning_run = \<lparr>ar_id = 3, ar_workspace_id = 9, ar_account_id = 1, ar_binding_id = 2, ar_apify_run_id = ''r1'',
     ar_status = ''SUCCEEDED'', ar_started_at = None, ar_finished_at = None, ar_default_dataset_id = Some ''ds'',
     ar_cost_usd = None, ar_items_read = 0, ar_items_imported = 0, ar_items_ignored = 0, ar_items_exception = 0,
     ar_last_error = None, ar_imported_at = None, ar_created_at = 0, ar_updated_at = 0\<rparr>"

definition demo_learning_db :: db where
  "demo_learning_db = empty_db\<lparr>apify_actor_bindings := [demo_learning_binding], apify_runs := [demo_learning_run],
     apify_items := [demo_learning_item],
     apify_normalization_profiles := [demo_profile 20 AP_ACTIVE [], demo_profile 21 AP_CANDIDATE []], fresh_id := 50\<rparr>"

lemma demo_learning_tables:
  "apify_actor_bindings demo_learning_db = [demo_learning_binding]" "apify_runs demo_learning_db = [demo_learning_run]"
  "apify_items demo_learning_db = [demo_learning_item]" "fresh_id demo_learning_db = 50"
  "apify_normalization_profiles demo_learning_db = [demo_profile 20 AP_ACTIVE [], demo_profile 21 AP_CANDIDATE []]"
  "apify_normalization_experiments demo_learning_db = []" "blacklist demo_learning_db = []"
  by (simp_all add: demo_learning_db_def empty_db_def)

lemma demo_learning_ids:
  "ab_id demo_learning_binding = 2" "ab_active_profile_id demo_learning_binding = Some 20" "ar_id demo_learning_run = 3"
  "ar_binding_id demo_learning_run = 2" "ai_run_id demo_learning_item = 3" "ap_id (demo_profile n s m) = n"
  "ap_binding_id (demo_profile n s m) = 2" "ap_status (demo_profile n s m) = s" "ap_mappings (demo_profile n s m) = m"
  by (simp_all add: demo_learning_binding_def demo_learning_run_def demo_learning_item_def demo_profile_def)

lemma demo_active_named: "active_named demo_learning_db"
  by (simp add: active_named_def demo_learning_tables demo_learning_ids)

lemma one_active_profile_witness:
  "map ap_status (apify_normalization_profiles (fold (learning_step demo_lead_lib) [(1, Rollback 2 21), (2, Promote 21)] demo_learning_db))
       = [AP_RETIRED, AP_ACTIVE]
     \<and> active_named (fold (learning_step demo_lead_lib) [(1, Rollback 2 21), (2, Promote 21)] demo_learning_db)"
proof -
  let ?d1 = "activate 1 2 21 (retire 1 (Some 20) demo_learning_db)"
  have "get_binding 2 demo_learning_db = Some demo_learning_binding" "get_profile 21 demo_learning_db = Some (demo_profile 21 AP_CANDIDATE [])"
    by (simp_all add: get_binding_def get_profile_def demo_learning_tables demo_learning_ids)
  then have 1: "learning_step demo_lead_lib (1, Rollback 2 21) demo_learning_db = ?d1"
    by (simp add: learning_step_def session_def rollback_profile_def demo_learning_ids Let_def)
  have rows: "apify_normalization_profiles ?d1 = [(demo_profile 20 AP_ACTIVE [])\<lparr>ap_status := AP_RETIRED, ap_retired_at := Some 1\<rparr>,
      (demo_profile 21 AP_CANDIDATE [])\<lparr>ap_status := AP_ACTIVE, ap_promoted_at := Some 1, ap_retired_at := None\<rparr>]"
    by (simp add: activate_def retire_def set_binding_def set_profile_def demo_learning_tables demo_learning_ids)
  then have p: "get_profile 21 ?d1 = Some ((demo_profile 21 AP_CANDIDATE [])\<lparr>ap_status := AP_ACTIVE, ap_promoted_at := Some 1, ap_retired_at := None\<rparr>)"
    by (simp add: get_profile_def demo_learning_ids)
  have "promote_profile 2 21 ?d1 = Inl (ValueError ''apify_profile_not_candidate'')
      \<or> promote_profile 2 21 ?d1 = Inl (LookupError ''apify_binding_not_found'')"
    by (auto simp: promote_profile_def p split: option.splits)
  then have 2: "learning_step demo_lead_lib (2, Promote 21) ?d1 = ?d1" by (auto simp: learning_step_def session_def)
  have "map ap_status (apify_normalization_profiles (fold (learning_step demo_lead_lib) [(1, Rollback 2 21), (2, Promote 21)] demo_learning_db))
      = [AP_RETIRED, AP_ACTIVE]"
    by (simp add: 1 2 rows)
  then show ?thesis
    by (rule conjI [OF _ one_active_profile [OF demo_active_named, THEN conjunct1]])
qed

definition demo_replay :: "replay_row list" where
  "demo_replay = replay_rows demo_lead_lib demo_learning_db [demo_learning_item] (Some (demo_profile 20 AP_ACTIVE []))"

lemma demo_replay_eq: "replay_rows demo_lead_lib demo_learning_db [demo_learning_item] (Some (demo_profile 21 AP_CANDIDATE [])) = demo_replay"
  by (simp add: demo_replay_def replay_rows_def profile_dict_def profile_size_def demo_profile_def)

lemma same_rows_kept:
  assumes "rows_by_item txt [row] = Some m"
  shows "pd_status (compare_profiles txt [row] [row] 1) = AX_KEEP"
proof -
  have m: "m = [(row_item txt row, row)]"
    using rows_by_item_update [OF assms] by (simp add: dict_update_def dict_set_def)
  show ?thesis
    using assms by (simp add: compare_profiles_def m Let_def count_items_def phone_changed_def newly_blacklisted_def
        unsafe_new_def old_row_def dict_get_def same_result_def del: rows_by_item.simps)
qed

lemma promotion_keeps_numbers_witness:
  "\<exists>x d1 r d2. evaluate_candidate demo_lead_lib 5 21 1 demo_learning_db = Inr (x, d1) \<and> promote_profile 6 21 d1 = Inr (r, d2)
     \<and> ld_phone (normalize_apify_item demo_lead_lib None (profile_dict (Some (demo_profile 21 AP_CANDIDATE []))) (ai_raw_payload demo_learning_item))
       = Some ''+33612345678''"
proof -
  have cand: "get_profile 21 demo_learning_db = Some (demo_profile 21 AP_CANDIDATE [])"
    and bind: "get_binding (ap_binding_id (demo_profile 21 AP_CANDIDATE [])) demo_learning_db = Some demo_learning_binding"
    and base: "active_profile demo_learning_binding demo_learning_db = Some (demo_profile 20 AP_ACTIVE [])"
    and items: "corpus (ab_id demo_learning_binding) demo_learning_db = [demo_learning_item]"
    by (simp_all add: get_profile_def get_binding_def active_profile_def corpus_def demo_learning_tables demo_learning_ids)
  have phone: "ld_phone (normalize_apify_item demo_lead_lib None (profile_dict (Some (demo_profile 20 AP_ACTIVE [])))
      (ai_raw_payload demo_learning_item)) = Some ''+33612345678''"
    by code_simp
  obtain row where row: "demo_replay = [row]" "get_json row ''item'' \<noteq> JNull"
  proof -
    obtain row where "demo_replay = [row]"
      by (auto simp: demo_replay_def replay_rows_def mark_duplicates_def Let_def split: if_splits)
    then show thesis
      using that replay_rows_row [of demo_learning_item "[demo_learning_item]" demo_lead_lib demo_learning_db "Some (demo_profile 20 AP_ACTIVE [])"]
      by (auto simp: demo_replay_def)
  qed
  have "\<exists>m. rows_by_item (ll_text demo_lead_lib) [row] = Some m" using row(2) by (cases "dict_get row ''item''") (auto simp: get_json_def)
  then have keep: "pd_status (compare_profiles (ll_text demo_lead_lib) [row] [row] 1) = AX_KEEP"
    using same_rows_kept by blast
  have rows: "replay_rows demo_lead_lib demo_learning_db [demo_learning_item] (Some (demo_profile 20 AP_ACTIVE [])) = [row]"
    "replay_rows demo_lead_lib demo_learning_db [demo_learning_item] (Some (demo_profile 21 AP_CANDIDATE [])) = [row]"
    using row(1) demo_replay_eq by (simp_all add: demo_replay_def)
  have "\<exists>x metrics. evaluate_candidate demo_lead_lib 5 21 1 demo_learning_db = Inr (x,
       (set_profile 21 (\<lambda>p. p\<lparr>ap_metrics := metrics\<rparr>) demo_learning_db)\<lparr>apify_normalization_experiments := [x], fresh_id := 51\<rparr>)
     \<and> ax_decision x = Some AX_KEEP \<and> ax_candidate_profile_id x = 21"
    by (simp add: evaluate_candidate_def cand bind [unfolded demo_learning_ids] base items [unfolded demo_learning_ids] rows keep Let_def
        demo_learning_tables demo_learning_ids)
      (rule exI, rule refl)
  then obtain x metrics where ev: "evaluate_candidate demo_lead_lib 5 21 1 demo_learning_db = Inr (x,
       (set_profile 21 (\<lambda>p. p\<lparr>ap_metrics := metrics\<rparr>) demo_learning_db)\<lparr>apify_normalization_experiments := [x], fresh_id := 51\<rparr>)"
    and x: "ax_decision x = Some AX_KEEP" "ax_candidate_profile_id x = 21" by blast
  obtain r d2 where pr: "promote_profile 6 21
       ((set_profile 21 (\<lambda>p. p\<lparr>ap_metrics := metrics\<rparr>) demo_learning_db)\<lparr>apify_normalization_experiments := [x], fresh_id := 51\<rparr>) = Inr (r, d2)"
    using x by (simp add: promote_profile_def get_profile_def set_profile_def demo_learning_tables demo_learning_ids get_binding_def
        last_experiment_def Let_def)
  have i: "demo_learning_item \<in> set (corpus (ab_id demo_learning_binding) demo_learning_db)" by (simp add: items)
  from promotion_keeps_numbers [OF ev pr _ cand bind i] phone ev pr show ?thesis
    by (simp add: base demo_learning_tables)
qed

end
