(* ===== verification/Tasks.thy ===== *)
theory Tasks
  imports Account_Creation Apify_Breaker Apify_Learning Campaign_Runner Warm_Up Lbc_Messaging Sector_Collection
begin

text \<open>
  The Celery tasks (\<open>tasks.py\<close>) that do more than run a service: their retries, what they store when a
  try fails for good, and the tasks they queue again. A try of a bound task ends with its result, with a
  retry after a pause, or with an exception. The class and the HTTP status of an exception, the random
  part of a pause, the broker and the sessions of the other workers are parameters.
\<close>

section \<open>Configuration\<close>

definition task_routes :: "(string, string) dict" where
  "task_routes =
     [(''app.tasks.collect_sector_task'', ''collection''), (''app.tasks.sync_lbc_inbox_task'', ''inbox''),
      (''app.tasks.dispatch_due_apify_bindings_task'', ''apify''), (''app.tasks.launch_apify_binding_task'', ''apify''),
      (''app.tasks.import_apify_run_task'', ''apify''), (''app.tasks.reconcile_apify_runs_task'', ''apify''),
      (''app.tasks.evaluate_apify_profiles_task'', ''apify'')]"

definition beat_schedule :: "settings \<Rightarrow> (string \<times> string \<times> int) list" where
  \<comment> \<open>name, task, period in seconds\<close>
  "beat_schedule s =
     [(''scrape-lbc-daily'', ''app.tasks.dispatch_sector_collections_task'', 300),
      (''check-account-pool'', ''app.tasks.check_account_pool_task'', 3600),
      (''reconcile-account-creation-workflows'', ''app.tasks.reconcile_account_creation_workflows_task'', 60),
      (''refresh-connector-status'', ''app.tasks.refresh_connector_status_task'', 60),
      (''sync-lbc-inbox'', ''app.tasks.sync_lbc_inbox_task'', 600),
      (''run-sms-sequences'', ''app.tasks.run_sms_sequences_task'', 300),
      (''replay-sms-events'', ''app.tasks.replay_sms_events_task'', 60),
      (''reconcile-phone-activations'', ''app.tasks.reconcile_phone_activations_task'', 15),
      (''purge-expired-email-messages'', ''app.tasks.purge_expired_email_messages_task'', 86400),
      (''dispatch-due-apify-bindings'', ''app.tasks.dispatch_due_apify_bindings_task'', 60),
      (''reconcile-apify-runs'', ''app.tasks.reconcile_apify_runs_task'', apify_reconcile_minutes s * 60),
      (''evaluate-apify-profiles'', ''app.tasks.evaluate_apify_profiles_task'', 3600)]"

section \<open>Tries\<close>

datatype 'a task_end =
    Done 'a
  | Retry exn int  \<comment> \<open>\<open>self.retry\<close> with its countdown in seconds\<close>
  | Raised exn

record exn_facts =
  ef_network :: "exn \<Rightarrow> bool"  \<comment> \<open>a timeout or network error of httpx, or an \<open>OSError\<close>\<close>
  ef_status :: "exn \<Rightarrow> int option"  \<comment> \<open>\<open>status_code\<close> of the exception or of its response\<close>
  ef_jitter :: "nat \<Rightarrow> int"  \<comment> \<open>\<open>random.randint(0, 15)\<close>, by the number of the try\<close>

definition retryable_apify_error :: "exn_facts \<Rightarrow> exn \<Rightarrow> bool" where
  "retryable_apify_error F e =
     (ef_network F e
      \<or> (case ef_status F e of None \<Rightarrow> False | Some code \<Rightarrow> code = 429 \<or> (code \<noteq> 0 \<and> code \<ge> 500)))"

definition apify_retry_delay :: "exn_facts \<Rightarrow> nat \<Rightarrow> int" where
  "apify_retry_delay F retries = 60 * 2 ^ retries + ef_jitter F retries"

definition terminal_error_block :: "string \<Rightarrow> string \<Rightarrow> exn \<Rightarrow> datetime \<Rightarrow> db \<Rightarrow> exn + (unit \<times> db)" where
  \<comment> \<open>\<open>_record_apify_terminal_error\<close>\<close>
  "terminal_error_block ttype target e now d =
     Inr ((), system_audit now ''apify.task.failed'' ttype target (Some [(''error_type'', JStr (exn_name e))]) ''failed'' d)"

definition APIFY_MAX_RETRIES :: nat where
  "APIFY_MAX_RETRIES = 3"

definition apify_try :: "apify_env \<Rightarrow> exn_facts \<Rightarrow> string \<Rightarrow> string \<Rightarrow> (apify_state \<Rightarrow> 'a result \<times> apify_state) \<Rightarrow> nat
    \<Rightarrow> apify_state \<Rightarrow> 'a task_end \<times> apify_state" where
  \<comment> \<open>the \<open>try\<close> and the \<open>except\<close> that three of the tasks share\<close>
  "apify_try E F ttype target body retries st =
     (case body st of
        (Inr x, st1) \<Rightarrow> (Done x, st1)
      | (Inl e, st1) \<Rightarrow>
          if retryable_apify_error F e \<and> retries < APIFY_MAX_RETRIES then (Retry e (apify_retry_delay F retries), st1)
          else (Raised e, snd (apify_session E (terminal_error_block ttype target e) st1)))"

definition launch_try :: "apify_env \<Rightarrow> exn_facts \<Rightarrow> uuid \<Rightarrow> nat \<Rightarrow> apify_state \<Rightarrow> apify_run task_end \<times> apify_state" where
  \<comment> \<open>\<open>launch_apify_binding_task\<close>\<close>
  "launch_try E F bid = apify_try E F ''apify_binding'' (str_uuid bid) (launch_binding E bid ''schedule'')"

definition import_remote_run :: "apify_env \<Rightarrow> import_env \<Rightarrow> uuid \<Rightarrow> string \<Rightarrow> apify_state \<Rightarrow> import_counters result \<times> apify_state" where
  "import_remote_run E I aid remote st =
     (case get_or_sync_remote_run E aid remote st of
        (Inl e, st1) \<Rightarrow> (Inl e, st1)
      | (Inr run, st1) \<Rightarrow> (case import_run I (ar_id run) (as_world st1) of (r, w) \<Rightarrow> (r, st1\<lparr>as_world := w\<rparr>)))"

definition import_and_judge :: "apify_env \<Rightarrow> import_env \<Rightarrow> uuid \<Rightarrow> string \<Rightarrow> apify_state
    \<Rightarrow> (import_counters \<times> breaker_verdict) result \<times> apify_state" where
  "import_and_judge E I aid remote st =
     (case import_remote_run E I aid remote st of
        (Inl e, st1) \<Rightarrow> (Inl e, st1)
      | (Inr c, st1) \<Rightarrow>
          (case apify_session E (breaker_block aid remote) st1 of
             (Inl e, st2) \<Rightarrow> (Inl e, st2)
           | (Inr v, st2) \<Rightarrow> (Inr (c, v), st2)))"

definition import_try :: "apify_env \<Rightarrow> exn_facts \<Rightarrow> import_env \<Rightarrow> uuid \<Rightarrow> string \<Rightarrow> nat \<Rightarrow> apify_state
    \<Rightarrow> (import_counters \<times> breaker_verdict) task_end \<times> apify_state" where
  \<comment> \<open>\<open>import_apify_run_task\<close>\<close>
  "import_try E F I aid remote = apify_try E F ''apify_run'' remote (import_and_judge E I aid remote)"

definition reconcile_try :: "apify_env \<Rightarrow> exn_facts \<Rightarrow> nat \<Rightarrow> apify_state \<Rightarrow> reconciled task_end \<times> apify_state" where
  \<comment> \<open>\<open>reconcile_apify_runs_task\<close>\<close>
  "reconcile_try E F = apify_try E F ''apify_reconcile'' ''all'' (reconcile_runs E)"

function apify_tries :: "(nat \<Rightarrow> apify_state \<Rightarrow> 'a task_end \<times> apify_state) \<Rightarrow> nat \<Rightarrow> apify_state
    \<Rightarrow> ('a task_end \<times> int list) \<times> apify_state" where
  \<comment> \<open>the tries of a task as the worker runs them, with the pauses between them; the broker drops a
    retry past the limit of the task\<close>
  "apify_tries t retries st =
     (case t retries st of
        (Retry e pause, st1) \<Rightarrow>
          if retries < APIFY_MAX_RETRIES then
            (case apify_tries t (Suc retries) st1 of ((r, pauses), st2) \<Rightarrow> ((r, pause # pauses), st2))
          else ((Raised e, []), st1)
      | (r, st1) \<Rightarrow> ((r, []), st1))"
  by pat_completeness auto
termination
  by (relation "measure (\<lambda>(_, retries, _). APIFY_MAX_RETRIES - retries)") (auto simp: APIFY_MAX_RETRIES_def)

declare apify_tries.simps [simp del]

section \<open>Distribution\<close>

fun dispatch_each :: "broker \<Rightarrow> celery_task list \<Rightarrow> world \<Rightarrow> unit result \<times> world" where
  "dispatch_each b [] w = (Inr (), w)"
| "dispatch_each b (t # ts) w = (case dispatch b t w of (Inl e, w1) \<Rightarrow> (Inl e, w1) | (Inr _, w1) \<Rightarrow> dispatch_each b ts w1)"

definition dispatch_due_apify_bindings :: "broker \<Rightarrow> datetime \<Rightarrow> world \<Rightarrow> uuid list result \<times> world" where
  \<comment> \<open>\<open>dispatch_due_apify_bindings_task\<close>\<close>
  "dispatch_due_apify_bindings b now w =
     (let ids = get_due_binding_ids now (w_db w) in
      case dispatch_each b (map (\<lambda>i. (''launch_apify_binding_task'', [JStr (str_uuid i)])) ids) w of
        (Inl e, w1) \<Rightarrow> (Inl e, w1)
      | (Inr _, w1) \<Rightarrow> (Inr ids, w1))"

definition dispatch_sector_collections :: "broker \<Rightarrow> zone \<Rightarrow> datetime \<Rightarrow> world \<Rightarrow> string list result \<times> world" where
  \<comment> \<open>\<open>dispatch_sector_collections_task\<close>\<close>
  "dispatch_sector_collections b z now w =
     (case get_due_sector_ids z now (w_db w) of
        Inl e \<Rightarrow> (Inl e, w)
      | Inr ids \<Rightarrow>
          (case dispatch_each b (map (\<lambda>i. (''collect_sector_task'', [JStr i])) ids) w of
             (Inl e, w1) \<Rightarrow> (Inl e, w1)
           | (Inr _, w1) \<Rightarrow> (Inr ids, w1)))"

definition collect_sector_try :: "collect_env \<Rightarrow> uuid \<Rightarrow> nat \<Rightarrow> db \<Rightarrow> collect_reply task_end \<times> db" where
  \<comment> \<open>\<open>collect_sector_task\<close>: \<open>self.retry\<close> raises the exception itself past its two retries\<close>
  "collect_sector_try E sid retries d =
     (case collect_sector E sid d of
        (Inr x, d1) \<Rightarrow> (Done x, d1)
      | (Inl e, d1) \<Rightarrow> (if retries < 2 then Retry e (60 * (int retries + 1)) else Raised e, d1))"

fun evaluate_profiles :: "(nat \<Rightarrow> uuid \<Rightarrow> db \<Rightarrow> apify_experiment_decision option result \<times> db) \<Rightarrow> datetime \<Rightarrow> nat \<Rightarrow> uuid list \<Rightarrow> db
    \<Rightarrow> (uuid \<times> string option) list \<times> db" where
  "evaluate_profiles judge now n [] d = ([], d)"
| "evaluate_profiles judge now n (pid # pids) d =
     (case (case judge n pid d of
              (Inr x, d1) \<Rightarrow> (map_option apify_experiment_decision_value x, d1)
            | (Inl e, d1) \<Rightarrow> (Some ''crash'', snd (session (terminal_error_block ''apify_profile'' (str_uuid pid) e now) d1))) of
        (text, d2) \<Rightarrow> (case evaluate_profiles judge now (Suc n) pids d2 of (rest, d3) \<Rightarrow> ((pid, text) # rest, d3)))"

definition judge_profile :: "lead_lib \<Rightarrow> datetime \<Rightarrow> nat \<Rightarrow> uuid \<Rightarrow> db \<Rightarrow> apify_experiment_decision option result \<times> db" where
  "judge_profile L now n pid d =
     (case session (evaluate_candidate L now pid 1) d of (r, d1) \<Rightarrow> (map_sum id ax_decision r, d1))"

definition evaluate_apify_profiles :: "lead_lib \<Rightarrow> datetime \<Rightarrow> db \<Rightarrow> (uuid \<times> string option) list \<times> db" where
  \<comment> \<open>\<open>evaluate_apify_profiles_task\<close>\<close>
  "evaluate_apify_profiles L now d = evaluate_profiles (judge_profile L now) now 0 (candidate_apify_profile_ids d) d"
section \<open>The creation of an account\<close>

definition on_workflow :: "creation_env \<Rightarrow> ref option \<Rightarrow> (datetime \<Rightarrow> ref \<Rightarrow> db \<Rightarrow> unit result \<times> db) \<Rightarrow> unit step" where
  \<comment> \<open>\<open>if workflow_id:\<close> and a session\<close>
  "on_workflow E wid f =
     (case wid of
        None \<Rightarrow> ret ()
      | Some r \<Rightarrow> if r = RText [] then ret () else db_session E (\<lambda>now. f now r))"

definition finish_creation :: "creation_env \<Rightarrow> ref option \<Rightarrow> string option \<Rightarrow> string option \<Rightarrow> unit step" where
  "finish_creation E wid account error =
     on_workflow E wid (\<lambda>now r. finish_account_creation_workflow now r account error)"

definition checkpoint_creation :: "creation_env \<Rightarrow> ref option \<Rightarrow> (string, json) dict \<Rightarrow> unit step" where
  "checkpoint_creation E wid c =
     on_workflow E wid (\<lambda>now r. update_account_creation_workflow now r W_RUNNING (Some c))"

definition create_account_body :: "creation_env \<Rightarrow> string \<Rightarrow> ref option \<Rightarrow> creation_result step" where
  "create_account_body E mode wid =
     andthen (checkpoint_creation E wid [(''stage'', JStr ''started''), (''mode'', JStr mode)]) (\<lambda>_.
     andthen (create_lbc_account E mode wid) (\<lambda>r.
     andthen (finish_creation E wid (Some (str_uuid (ct_account r))) None) (\<lambda>_. ret r)))"

definition creation_retry_wanted :: "exn \<Rightarrow> bool" where
  \<comment> \<open>an \<open>AccountCreationError\<close> that is no DataDome block\<close>
  "creation_retry_wanted e = (exn_name e = ''AccountCreationError'' \<and> \<not> is_datadome_blocked (exn_str e))"

definition CREATION_MAX_RETRIES :: nat where
  "CREATION_MAX_RETRIES = 2"

definition creation_failed :: "creation_env \<Rightarrow> string \<Rightarrow> ref option \<Rightarrow> nat \<Rightarrow> exn \<Rightarrow> bool step" where
  \<comment> \<open>the \<open>except\<close> branches; whether a retry is scheduled\<close>
  "creation_failed E mode wid retries e =
     (if creation_retry_wanted e \<and> retries < CREATION_MAX_RETRIES then
        andthen (checkpoint_creation E wid [(''stage'', JStr ''retry_scheduled''), (''mode'', JStr mode),
            (''retry'', JInt (int retries + 1)), (''error'', JStr (take 400 (exn_str e)))]) (\<lambda>_. ret True)
      else andthen (finish_creation E wid None (Some (take 500 (exn_str e)))) (\<lambda>_. ret False))"

definition create_account_try :: "creation_env \<Rightarrow> string \<Rightarrow> ref option \<Rightarrow> nat \<Rightarrow> creating
    \<Rightarrow> (creation_result task_end \<times> creating) option" where
  \<comment> \<open>\<open>create_account_task\<close>\<close>
  "create_account_try E mode wid retries w =
     (case create_account_body E mode wid w of
        None \<Rightarrow> None
      | Some (Inr r, w1) \<Rightarrow> Some (Done r, w1)
      | Some (Inl e, w1) \<Rightarrow>
          (case creation_failed E mode wid retries e w1 of
             None \<Rightarrow> None
           | Some (Inl e', w2) \<Rightarrow> Some (Raised e', w2)
           | Some (Inr again, w2) \<Rightarrow> Some (if again then Retry e 60 else Raised e, w2)))"

definition check_account_pool :: "settings \<Rightarrow> broker \<Rightarrow> datetime \<Rightarrow> world \<Rightarrow> (warmup_counts \<times> bool) result \<times> world" where
  \<comment> \<open>\<open>check_account_pool_task\<close>: the warm-up first, then the count\<close>
  "check_account_pool s b now w =
     (case evaluate_warmup_batch now (w_db w) of
        (counts, d) \<Rightarrow>
          (let w1 = w\<lparr>w_db := d\<rparr>; needed = check_active_pool_needs_account s d in
           if needed then
             (case dispatch b (''create_account_task'', [JStr ''A'']) w1 of
                (Inl e, w2) \<Rightarrow> (Inl e, w2)
              | (Inr _, w2) \<Rightarrow> (Inr (counts, True), w2))
           else (Inr (counts, False), w1)))"

section \<open>Campaigns\<close>

definition requeued_campaign :: "ref \<Rightarrow> ref option \<Rightarrow> run_result \<Rightarrow> (celery_task \<times> int option) list" where
  \<comment> \<open>\<open>run_campaign_task\<close> after the run: the task it queues again, with its \<open>eta\<close>\<close>
  "requeued_campaign cid wid r =
     (let args = JStr (ref_text cid) # (case wid of None \<Rightarrow> [] | Some x \<Rightarrow> if ref_text x = [] then [] else [JStr (ref_text x)]) in
      if rr_status r = ''deferred'' \<and> rr_scheduled_for r \<noteq> None then [((''run_campaign_task'', args), rr_scheduled_for r)]
      else if rr_status r = ''running'' then [((''run_campaign_task'', args), None)] else [])"

definition run_lbc_campaign_task :: "lbc_env \<Rightarrow> datetime \<Rightarrow> uuid \<Rightarrow> uuid \<Rightarrow> db
    \<Rightarrow> ((string \<times> int \<times> int) result \<times> db \<times> celery_task list) option" where
  \<comment> \<open>\<open>run_lbc_message_campaign_task\<close>, with the tasks it queues\<close>
  "run_lbc_campaign_task E now cid wid d =
     (case run_lbc_message_campaign E cid wid d of
        None \<Rightarrow> None
      | Some out \<Rightarrow>
          (case lo_result out of
             Inl e \<Rightarrow> Some (Inl e, mark_lbc_message_campaign_failed now cid wid (exn_str e) (lo_db out), [])
           | Inr r \<Rightarrow> Some (Inr r, lo_db out,
               if fst r = ''running'' then [(''run_lbc_message_campaign_task'', [JStr (str_uuid cid), JStr (str_uuid wid)])] else [])))"
section \<open>A creation that is not retried is closed\<close>

lemma finish_account_result:
  assumes "finish_account_creation_workflow now (RUuid u) account error d = (r, d')"
  shows "(case r of
      Inl e \<Rightarrow> d' = d \<and> get_workflow u d = None
    | Inr _ \<Rightarrow> \<exists>row. get_workflow u d' = Some row \<and> wf_finished_at row = Some now \<and> wf_last_error row = error
        \<and> wf_status row = (if error \<in> {None, Some []} then W_COMPLETED else W_FAILED))"
proof (cases "get_workflow u d")
  case None
  with assms show ?thesis by (auto simp: finish_account_creation_workflow_def session_def)
next
  case (Some row)
  then have "wf_id row = u" by (auto simp: get_workflow_def dest: find_row_SomeD)
  with Some assms show ?thesis
    by (auto simp: finish_account_creation_workflow_def session_def Let_def get_workflow_def set_workflow_def find_update_where
        split: if_splits)
qed

lemma finish_creation_result:
  assumes "finish_creation E (Some (RUuid u)) account error w = Some (r, w')"
  shows "(is_error r \<longrightarrow> get_workflow u (mw_db (cr_world w')) = None)
      \<and> (\<forall>row. get_workflow u (mw_db (cr_world w')) = Some row \<longrightarrow> wf_finished_at row \<noteq> None \<and> wf_last_error row = error
           \<and> wf_status row = (if error \<in> {None, Some []} then W_COMPLETED else W_FAILED))"
proof -
  let ?d = "mw_db (av_others E (cr_tick w) (cr_world w))"
  obtain d' where f: "finish_account_creation_workflow (av_now E (cr_tick w)) (RUuid u) account error ?d = (r, d')"
      "mw_db (cr_world w') = d'"
    using assms by (auto simp: finish_creation_def on_workflow_def db_session_def Let_def split: prod.splits)
  from finish_account_result [OF f(1)] show ?thesis by (cases r) (auto simp: f(2))
qed
lemma checkpoint_creation_returns: "\<exists>w'. checkpoint_creation E (Some (RUuid u)) c w = Some (Inr (), w')"
  by (auto simp: checkpoint_creation_def on_workflow_def db_session_def update_account_creation_workflow_def session_def Let_def
      split: option.splits)

text \<open>
  C17. A try of an account creation that is not tried again leaves its workflow closed, whatever the
  services, the other workers and the registration do: with its result COMPLETED, with an exception
  FAILED, both with a time. A retry is asked for in one case only, after 60 seconds, for a creation error
  that is no DataDome block, and twice at most. But the workflow of an exception with an empty text, as
  httpx raises for a timeout, is stored as COMPLETED.
\<close>

theorem creation_task_closes:
  assumes "create_account_try E mode (Some (RUuid u)) retries w = Some (res, w')"
  shows "case res of
      Retry e pause \<Rightarrow> pause = 60 \<and> retries < 2 \<and> exn_name e = ''AccountCreationError'' \<and> \<not> is_datadome_blocked (exn_str e)
    | Done r \<Rightarrow> (\<forall>row. get_workflow u (mw_db (cr_world w')) = Some row \<longrightarrow> wf_status row = W_COMPLETED \<and> wf_finished_at row \<noteq> None)
    | Raised e \<Rightarrow> (\<forall>row. get_workflow u (mw_db (cr_world w')) = Some row \<longrightarrow>
          wf_status row = (if exn_str e = [] then W_COMPLETED else W_FAILED) \<and> wf_finished_at row \<noteq> None)"
proof -
  let ?wid = "Some (RUuid u)"
  obtain r1 w1 where body: "create_account_body E mode ?wid w = Some (r1, w1)"
    using assms by (auto simp: create_account_try_def split: option.splits)
  show ?thesis
  proof (cases r1)
    case (Inr r)
    with body assms have res: "res = Done r" "w' = w1" by (simp_all add: create_account_try_def)
    obtain w2 where "finish_creation E ?wid (Some (str_uuid (ct_account r))) None w2 = Some (Inr (), w1)"
      using body Inr by (auto simp: create_account_body_def andthen_def ret_def split: option.splits sum.splits)
    from finish_creation_result [OF this] show ?thesis by (simp add: res)
  next
    case (Inl e)
    show ?thesis
    proof (cases "creation_retry_wanted e \<and> retries < CREATION_MAX_RETRIES")
      case True
      obtain w2 where "checkpoint_creation E ?wid [(''stage'', JStr ''retry_scheduled''), (''mode'', JStr mode),
            (''retry'', JInt (int retries + 1)), (''error'', JStr (take 400 (exn_str e)))] w1 = Some (Inr (), w2)"
        using checkpoint_creation_returns by blast
      with True have "creation_failed E mode ?wid retries e w1 = Some (Inr True, w2)"
        by (simp add: creation_failed_def andthen_def ret_def)
      with True body Inl assms show ?thesis
        by (auto simp: create_account_try_def creation_retry_wanted_def CREATION_MAX_RETRIES_def)
    next
      case False
      have "\<exists>r2 w2. finish_creation E ?wid None (Some (take 500 (exn_str e))) w1 = Some (r2, w2)"
        by (simp add: finish_creation_def on_workflow_def db_session_def Let_def split_beta)
      then obtain r2 w2 where f: "finish_creation E ?wid None (Some (take 500 (exn_str e))) w1 = Some (r2, w2)" by blast
      from False f have "creation_failed E mode ?wid retries e w1 = Some (map_sum id (\<lambda>_. False) r2, w2)"
        by (cases r2) (auto simp: creation_failed_def andthen_def ret_def)
      with body Inl assms have res: "res = (case r2 of Inl e' \<Rightarrow> Raised e' | Inr _ \<Rightarrow> Raised e)" "w' = w2"
        by (cases r2; simp add: create_account_try_def)+
      from finish_creation_result [OF f] show ?thesis by (cases r2) (simp_all add: res)
    qed
  qed
qed

text \<open>
  C40. The pool is never filled again by itself. When accounts are missing, the hourly check queues exactly
  one creation, in mode A and without a workflow; and a try of that task, whatever the services answer and
  however often it is tried, ends without an account and before a number is bought.
\<close>

theorem pool_task_never_refills:
  assumes "check_account_pool s b now w = (Inr (counts, True), w')"
  shows "w_queue w' = w_queue w @ [(''create_account_task'', [JStr ''A''])]
    \<and> (\<forall>E retries v. \<exists>res v' cs. create_account_try E ''A'' None retries v = Some (res, v') \<and> (\<forall>r. res \<noteq> Done r)
          \<and> cr_calls v' = cr_calls v @ cs \<and> set cs \<subseteq> {Rotate, GetProxy})"
proof (intro conjI allI)
  show "w_queue w' = w_queue w @ [(''create_account_task'', [JStr ''A''])]"
    using assms by (auto simp: check_account_pool_def Let_def dispatch_def split: prod.splits if_splits sum.splits)
  fix E retries v
  have none: "on_workflow E None f = ret ()" for f by (simp add: on_workflow_def)
  from mode_A_raises [of E None v] obtain e v1 cs where
    raised: "create_lbc_account E ''A'' None v = Some (Inl e, v1)" "cr_calls v1 = cr_calls v @ cs" "set cs \<subseteq> {Rotate, GetProxy}" by blast
  have "create_account_body E ''A'' None v = Some (Inl e, v1)"
    by (simp add: create_account_body_def checkpoint_creation_def none andthen_def ret_def raised(1))
  moreover have "\<exists>again. creation_failed E ''A'' None retries e v1 = Some (Inr again, v1)"
    by (simp add: creation_failed_def checkpoint_creation_def finish_creation_def none andthen_def ret_def) blast
  ultimately show "\<exists>res v' cs. create_account_try E ''A'' None retries v = Some (res, v') \<and> (\<forall>r. res \<noteq> Done r)
          \<and> cr_calls v' = cr_calls v @ cs \<and> set cs \<subseteq> {Rotate, GetProxy}"
    using raised(2,3) by (auto simp: create_account_try_def)
qed
section \<open>The tries of an Apify task\<close>

lemma apify_tries_shape:
  assumes "apify_tries (apify_try E F ttype target body) k st = ((r, pauses), st')" "k \<le> APIFY_MAX_RETRIES"
  shows "k + length pauses \<le> APIFY_MAX_RETRIES \<and> (\<forall>i<length pauses. pauses ! i = apify_retry_delay F (k + i))
    \<and> (\<forall>e c. r \<noteq> Retry e c) \<and> (\<forall>e. r = Raised e \<longrightarrow> \<not> retryable_apify_error F e \<or> k + length pauses = APIFY_MAX_RETRIES)"
  using assms
proof (induction "APIFY_MAX_RETRIES - k" arbitrary: k st r pauses st')
  case (0 k)
  then have k: "k = APIFY_MAX_RETRIES" by simp
  with "0.prems"(1) show ?case
    by (subst (asm) apify_tries.simps) (auto simp: apify_try_def split: prod.splits sum.splits if_splits)
next
  case (Suc n k)
  obtain t s1 where t: "apify_try E F ttype target body k st = (t, s1)" by fastforce
  show ?case
  proof (cases t)
    case (Retry e pause)
    then have p: "pause = apify_retry_delay F k" "k < APIFY_MAX_RETRIES"
      using t by (auto simp: apify_try_def split: prod.splits sum.splits if_splits)
    obtain r' ps s2 where rest: "apify_tries (apify_try E F ttype target body) (Suc k) s1 = ((r', ps), s2)"
      by (metis prod.exhaust)
    with Suc.prems(1) t Retry p(2) have "r = r'" "pauses = pause # ps" by (simp_all add: apify_tries.simps [of _ k])
    moreover have "n = APIFY_MAX_RETRIES - Suc k" "Suc k \<le> APIFY_MAX_RETRIES" using Suc.hyps(2) p(2) by simp_all
    note Suc.hyps(1) [OF this(1) rest this(2)]
    ultimately show ?thesis using p by (auto simp: nth_Cons split: nat.splits)
  next
    case (Done x)
    with Suc.prems t show ?thesis by (auto simp: apify_tries.simps [of _ k])
  next
    case (Raised e)
    with Suc.prems t show ?thesis
      by (auto simp: apify_tries.simps [of _ k] apify_try_def split: prod.splits sum.splits if_splits)
  qed
qed

definition starts :: "apify_state \<Rightarrow> nat" where
  "starts st = length (as_starts st)"

definition failures :: "apify_state \<Rightarrow> nat" where
  "failures st = length (filter (\<lambda>a. ae_action a = ''apify.task.failed'') (audit_events (as_db st)))"

lemma session_starts [simp]: "starts (snd (apify_session E block st)) = starts st"
  by (simp add: starts_def apify_session_def Let_def split_beta)

lemma session_failures:
  assumes "quiet E" "\<And>now d x d'. block now d = Inr (x, d') \<Longrightarrow>
      filter (\<lambda>a. ae_action a = ''apify.task.failed'') (audit_events d') = filter (\<lambda>a. ae_action a = ''apify.task.failed'') (audit_events d)"
  shows "failures (snd (apify_session E block st)) = failures st"
proof (cases "block (xe_clock E (as_step st)) (as_db st)")
  case (Inr z)
  with assms(2) [of _ _ "fst z" "snd z"] show ?thesis
    by (cases z) (simp add: failures_def quiet_session [OF assms(1)] session_def)
qed (simp add: failures_def quiet_session [OF assms(1)] session_def)

lemma start_resource_failures: "failures (snd (apify_start_resource E p st)) = failures st"
  by (simp add: apify_start_resource_def failures_def)

lemma launch_failures:
  assumes "quiet E"
  shows "failures (snd (launch_binding E b trigger st)) = failures st"
proof -
  have plan: "failures (snd (apify_session E (plan_launch E b l) s)) = failures s" for l s
    using assms by (rule session_failures) (auto simp: plan_launch_def set_binding_def split: if_splits option.splits sum.splits)
  have failed: "failures (snd (apify_session E (launch_failed b trigger n e) s)) = failures s" for n e s
    using assms by (rule session_failures) (auto simp: launch_failed_def launch_audit_def system_audit_def set_binding_def)
  have sync: "failures (snd (sync_remote_run E aid remote s)) = failures s" for aid remote s
    unfolding sync_remote_run_def using assms
    by (rule session_failures) (auto simp: sync_block_def sync_remote_run_in_session_def set_apify_run_def Let_def
        split: if_splits option.splits sum.splits)
  have audit: "failures (snd (apify_session E (\<lambda>now d. Inr ((), launch_audit now b m x d)) s)) = failures s" for m x s
    using assms by (rule session_failures) (auto simp: launch_audit_def system_audit_def)
  let ?S = "\<lambda>s. failures s = failures st"
  obtain r1 s1 where s1: "apify_session E (plan_launch E b (xe_locked E (as_step st))) st = (r1, s1)" by fastforce
  have k1: "?S s1" using s1 plan [of "xe_locked E (as_step st)" st] by simp
  show ?thesis
  proof (cases r1)
    case (Inr p)
    obtain r2 s2 where s2: "apify_start_resource E p s1 = (r2, s2)" by fastforce
    with start_resource_failures [of E p s1] k1 have k2: "?S s2" by simp
    show ?thesis
    proof (cases r2)
      case (Inl e)
      with s1 s2 Inr k2 failed [of "lp_next_run p" e s2] show ?thesis by (simp add: launch_binding_def)
    next
      case remote: (Inr remote)
      obtain r3 s3 where s3: "sync_remote_run E (lp_account p) (dict_set ''_binding_id'' (JStr (str_uuid b)) remote) s2 = (r3, s3)" by fastforce
      with sync [of "lp_account p" "dict_set ''_binding_id'' (JStr (str_uuid b)) remote" s2] k2
      have k3: "?S s3" by simp
      show ?thesis
      proof (cases r3)
        case (Inl e)
        with s1 s2 s3 Inr remote k3 show ?thesis by (simp add: launch_binding_def)
      next
        case out: (Inr out)
        let ?a = "\<lambda>now d. Inr ((), launch_audit now b [(''trigger'', JStr trigger)] ''success'' d) :: exn + (unit \<times> db)"
        obtain r4 s4 where s4: "apify_session E ?a s3 = (r4, s4)" by fastforce
        with audit [of "[(''trigger'', JStr trigger)]" "''success''" s3] k3 have k4: "?S s4" by simp
        with s1 s2 s3 s4 Inr remote out show ?thesis by (cases r4) (simp_all add: launch_binding_def)
      qed
    qed
  qed (use s1 k1 in \<open>simp add: launch_binding_def\<close>)
qed

definition posts :: "apify_state \<Rightarrow> nat" where
  "posts st = sum_list (map sk_posts (as_starts st))"

lemma session_posts [simp]: "posts (snd (apify_session E block st)) = posts st"
  by (simp add: posts_def apify_session_def Let_def split_beta)

lemma start_resource_posts:
  "starts (snd (apify_start_resource E p st)) \<le> Suc (starts st)" "posts (snd (apify_start_resource E p st)) \<le> posts st + 6"
  by (simp_all add: apify_start_resource_def starts_def posts_def APIFY_CLIENT_RETRIES_def)

text \<open>The sessions of a launch call nothing; one call of the client stands between them.\<close>

lemma launch_starts:
  "starts (snd (launch_binding E b trigger st)) \<le> Suc (starts st) \<and> posts (snd (launch_binding E b trigger st)) \<le> posts st + 6"
proof -
  have calm: "starts s' = starts s \<and> posts s' = posts s" if "apify_session E block s = (r, s')" for block :: "datetime \<Rightarrow> db \<Rightarrow> exn + ('a \<times> db)" and s s' r
    using session_starts [of E block s] session_posts [of E block s] that by simp
  have call: "starts s' \<le> Suc (starts s) \<and> posts s' \<le> posts s + 6" if "apify_start_resource E p s = (r, s')" for p r s s'
    using start_resource_posts [of E p s] that by simp
  obtain r1 s1 where s1: "apify_session E (plan_launch E b (xe_locked E (as_step st))) st = (r1, s1)" by fastforce
  note k1 = calm [OF s1]
  show ?thesis
  proof (cases r1)
    case (Inr p)
    obtain r2 s2 where s2: "apify_start_resource E p s1 = (r2, s2)" by fastforce
    note k2 = call [OF s2]
    show ?thesis
    proof (cases r2)
      case (Inl e)
      with s1 s2 Inr k1 k2 show ?thesis by (simp add: launch_binding_def)
    next
      case remote: (Inr remote)
      obtain r3 s3 where s3: "sync_remote_run E (lp_account p) (dict_set ''_binding_id'' (JStr (str_uuid b)) remote) s2 = (r3, s3)" by fastforce
      note k3 = calm [OF s3 [unfolded sync_remote_run_def]]
      obtain r4 s4 where s4: "apify_session E (\<lambda>now d. Inr ((), launch_audit now b [(''trigger'', JStr trigger)] ''success'' d)) s3 = (r4, s4)"
        by fastforce
      from s1 s2 s3 s4 Inr remote k1 k2 k3 calm [OF s4] show ?thesis
        by (cases r3; cases r4) (simp_all add: launch_binding_def)
    qed
  qed (use s1 k1 in \<open>simp add: launch_binding_def\<close>)
qed

lemma launch_try_counts:
  assumes "launch_try E F bid k st = (r, st1)"
  shows "starts st1 \<le> Suc (starts st) \<and> posts st1 \<le> posts st + 6
    \<and> (quiet E \<longrightarrow> failures st1 = failures st + (case r of Raised _ \<Rightarrow> 1 | _ \<Rightarrow> 0))"
proof -
  obtain res s where l: "launch_binding E bid ''schedule'' st = (res, s)" by fastforce
  with launch_starts [of E bid "''schedule''" st] have s: "starts s \<le> Suc (starts st)" "posts s \<le> posts st + 6" by simp_all
  have f: "quiet E \<longrightarrow> failures s = failures st" using launch_failures [of E bid "''schedule''" st] l by simp
  have audit: "quiet E \<longrightarrow> failures (snd (apify_session E (terminal_error_block t x e) s)) = Suc (failures s)" for t x e
    by (simp add: failures_def quiet_session session_def terminal_error_block_def system_audit_def)
  from s f audit l assms show ?thesis
    by (auto simp: launch_try_def apify_try_def split: sum.splits if_splits)
qed

lemma launch_tries_counts:
  assumes "apify_tries (launch_try E F bid) k st = ((r, pauses), st')" "k \<le> APIFY_MAX_RETRIES"
  shows "starts st' \<le> starts st + length pauses + 1 \<and> posts st' \<le> posts st + 6 * (length pauses + 1)
    \<and> (quiet E \<longrightarrow> failures st' = failures st + (case r of Raised _ \<Rightarrow> 1 | _ \<Rightarrow> 0))"
  using assms
proof (induction "APIFY_MAX_RETRIES - k" arbitrary: k st r pauses st' rule: less_induct)
  case less
  obtain t s1 where t: "launch_try E F bid k st = (t, s1)" by fastforce
  note c = launch_try_counts [OF t]
  show ?case
  proof (cases t)
    case (Retry e pause)
    then have p: "k < APIFY_MAX_RETRIES"
      using t by (auto simp: launch_try_def apify_try_def split: prod.splits sum.splits if_splits)
    obtain r' ps s2 where rest: "apify_tries (launch_try E F bid) (Suc k) s1 = ((r', ps), s2)" by (metis prod.exhaust)
    with less.prems(1) t Retry p have eq: "r = r'" "pauses = pause # ps" "st' = s2" by (simp_all add: apify_tries.simps [of _ k])
    from less.hyps [OF _ rest] p have "starts s2 \<le> starts s1 + length ps + 1 \<and> posts s2 \<le> posts s1 + 6 * (length ps + 1)
        \<and> (quiet E \<longrightarrow> failures s2 = failures s1 + (case r' of Raised _ \<Rightarrow> 1 | _ \<Rightarrow> 0))"
      by simp
    with c Retry eq show ?thesis by auto
  qed (use less.prems(1) t c in \<open>auto simp: apify_tries.simps [of _ k]\<close>)
qed

text \<open>
  C27. The retries of a launch are bounded: a queued launch is tried four times at most, the pause before
  the kth retry is 60, 120 and 240 seconds with the random part of that try, and a try calls the start
  of the actor at most once. The client repeats a failed request of a call up to five times, so
  that a task may send up to 24 requests that start the paid actor. The task ends with its run or with an exception, which is one that no retry helps or that of
  the fourth try. When no other session writes to the database meanwhile, a final failure is audited
  exactly once, and a launch that succeeds audits none.
\<close>

theorem launch_tries_bounded:
  assumes "apify_tries (launch_try E F bid) 0 st = ((r, pauses), st')"
  shows "length pauses \<le> 3 \<and> (\<forall>i<length pauses. pauses ! i = 60 * 2 ^ i + ef_jitter F i)
    \<and> (\<exists>run e. r = Done run \<or> r = Raised e \<and> (retryable_apify_error F e \<longrightarrow> length pauses = 3))
    \<and> length (as_starts st') \<le> length (as_starts st) + length pauses + 1
    \<and> sum_list (map sk_posts (as_starts st')) \<le> sum_list (map sk_posts (as_starts st)) + 6 * (length pauses + 1)
    \<and> (quiet E \<longrightarrow> length (filter (\<lambda>a. ae_action a = ''apify.task.failed'') (audit_events (as_db st')))
        = length (filter (\<lambda>a. ae_action a = ''apify.task.failed'') (audit_events (as_db st))) + (case r of Raised _ \<Rightarrow> 1 | _ \<Rightarrow> 0))"
proof -
  have shape: "length pauses \<le> 3" "\<forall>i<length pauses. pauses ! i = apify_retry_delay F i" "\<forall>e c. r \<noteq> Retry e c"
    "\<forall>e. r = Raised e \<longrightarrow> \<not> retryable_apify_error F e \<or> length pauses = 3"
    using apify_tries_shape [of E F "''apify_binding''" "str_uuid bid" "launch_binding E bid ''schedule''" 0 st r pauses st'] assms
    by (simp_all add: launch_try_def APIFY_MAX_RETRIES_def)
  have counts: "length (as_starts st') \<le> length (as_starts st) + length pauses + 1"
    "posts st' \<le> posts st + 6 * (length pauses + 1)"
    "quiet E \<longrightarrow> failures st' = failures st + (case r of Raised _ \<Rightarrow> 1 | _ \<Rightarrow> 0)"
    using launch_tries_counts [OF assms] by (simp_all add: starts_def)
  have ends: "\<exists>run e. r = Done run \<or> r = Raised e \<and> (retryable_apify_error F e \<longrightarrow> length pauses = 3)"
    using shape(3,4) by (cases r) auto
  show ?thesis
    using shape(1,2) ends counts by (simp add: apify_retry_delay_def failures_def posts_def)
qed

section \<open>Witnesses\<close>

definition demo_task_world :: creating where
  "demo_task_world = demo_creating\<lparr>cr_world := \<lparr>mw_db = empty_db\<lparr>workflow_runs := [demo_ac_workflow]\<rparr>, mw_redis = []\<rparr>\<rparr>"

definition demo_open :: "creating \<Rightarrow> bool" where
  "demo_open w = ((\<exists>row. get_workflow 3 (mw_db (cr_world w)) = Some row) \<and> platform_accounts (mw_db (cr_world w)) = [])"

lemma get_set_workflow3:
  "get_workflow 3 d = Some row \<Longrightarrow> (\<And>x. wf_id (f x) = wf_id x) \<Longrightarrow> \<exists>row'. get_workflow 3 (set_workflow 3 f d) = Some row'"
  by (simp add: get_workflow_def set_workflow_def find_update_where)

lemma demo_update:
  assumes "demo_open w"
  shows "\<exists>w1. db_session (demo_creation_env []) (\<lambda>now. update_account_creation_workflow now (RUuid 3) W_RUNNING c) w = Some (Inr (), w1)
    \<and> demo_open w1"
proof -
  obtain row where row: "get_workflow 3 (mw_db (cr_world w)) = Some row" and none: "platform_accounts (mw_db (cr_world w)) = []"
    using assms by (auto simp: demo_open_def)
  have id: "av_others (demo_creation_env []) n v = v" for n v by (simp add: demo_creation_env_def)
  have pa: "platform_accounts (set_workflow i f d) = platform_accounts d" for i f d by (simp add: set_workflow_def)
  obtain r d where u: "update_account_creation_workflow (av_now (demo_creation_env []) (cr_tick w)) (RUuid 3) W_RUNNING c (mw_db (cr_world w))
      = (r, d)" by fastforce
  have "r = Inr () \<and> (\<exists>row. get_workflow 3 d = Some row) \<and> platform_accounts d = []"
  proof (cases "wf_workflow_type row = ''account.create''")
    case True
    with u row none show ?thesis
      by (auto simp: update_account_creation_workflow_def session_def pa intro!: get_set_workflow3 [OF row])
  next
    case False
    with u row none show ?thesis by (auto simp: update_account_creation_workflow_def session_def)
  qed
  with u show ?thesis by (simp add: db_session_def id Let_def demo_open_def)
qed

lemma demo_finish:
  assumes "demo_open w"
  shows "\<exists>w1. db_session (demo_creation_env []) (\<lambda>now. finish_account_creation_workflow now (RUuid 3) None (Some [])) w = Some (Inr (), w1)
    \<and> demo_open w1"
proof -
  obtain row where row: "get_workflow 3 (mw_db (cr_world w)) = Some row" and none: "platform_accounts (mw_db (cr_world w)) = []"
    using assms by (auto simp: demo_open_def)
  have id: "av_others (demo_creation_env []) n v = v" for n v by (simp add: demo_creation_env_def)
  let ?now = "av_now (demo_creation_env []) (cr_tick w)"
  obtain r d where f: "finish_account_creation_workflow ?now (RUuid 3) None (Some []) (mw_db (cr_world w)) = (r, d)" by fastforce
  with row have "r = Inr ()" "platform_accounts d = platform_accounts (mw_db (cr_world w))"
    by (auto simp: finish_account_creation_workflow_def session_def Let_def set_workflow_def)
  with finish_account_result [OF f] f none show ?thesis by (auto simp: db_session_def id Let_def demo_open_def)
qed

lemma demo_timed_out:
  "\<exists>e w'. create_account_try (demo_creation_env []) ''A'' (Some (RUuid 3)) 0 demo_task_world = Some (Raised e, w')
     \<and> exn_str e = [] \<and> demo_open w'"
proof -
  let ?E = "demo_creation_env []" and ?wid = "Some (RUuid 3)"
  have "demo_open demo_task_world"
    by (simp add: demo_open_def demo_task_world_def demo_creating_def get_workflow_def demo_ac_workflow_def empty_db_def)
  from demo_update [OF this] obtain w1 where
    w1: "checkpoint_creation ?E ?wid [(''stage'', JStr ''started''), (''mode'', JStr ''A'')] demo_task_world = Some (Inr (), w1)" "demo_open w1"
    by (auto simp: checkpoint_creation_def on_workflow_def)
  from demo_update [OF w1(2)] obtain w2 where
    w2: "creation_checkpoint ?E ?wid ''preparing'' [(''mode'', JStr ''A'')] w1 = Some (Inr (), w2)" "demo_open w2"
    by (auto simp: creation_checkpoint_def)
  obtain w3 where rot: "rotate_step ?E w2 = Some (Inl (External ''TimeoutException'' []), w3)" "demo_open w3"
    using w2(2) by (auto simp: rotate_step_def outside_call_def rotate_4g_ip_def transport_error_def demo_creation_env_def demo_open_def)
  have body: "create_account_body ?E ''A'' ?wid demo_task_world = Some (Inl (External ''TimeoutException'' []), w3)"
    by (simp add: create_account_body_def andthen_def w1 w2 rot create_lbc_account_def Let_def proxy_ready_def)
  from demo_finish [OF rot(2)] obtain w4 where
    w4: "finish_creation ?E ?wid None (Some []) w3 = Some (Inr (), w4)" "demo_open w4"
    by (auto simp: finish_creation_def on_workflow_def)
  have "creation_failed ?E ''A'' ?wid 0 (External ''TimeoutException'' []) w3 = Some (Inr False, w4)"
    by (simp add: creation_failed_def creation_retry_wanted_def andthen_def ret_def w4)
  with body w4 show ?thesis by (auto simp: create_account_try_def)
qed

text \<open>The rotation of the proxy times out: no account, and the workflow is COMPLETED.\<close>

lemma creation_task_closes_witness:
  "\<exists>e w' row. create_account_try (demo_creation_env []) ''A'' (Some (RUuid 3)) 0 demo_task_world = Some (Raised e, w')
     \<and> get_workflow 3 (mw_db (cr_world w')) = Some row \<and> wf_status row = W_COMPLETED
     \<and> platform_accounts (mw_db (cr_world w')) = []"
proof -
  obtain e w' row where run: "create_account_try (demo_creation_env []) ''A'' (Some (RUuid 3)) 0 demo_task_world = Some (Raised e, w')"
    and e: "exn_str e = []" and row: "get_workflow 3 (mw_db (cr_world w')) = Some row"
    and none: "platform_accounts (mw_db (cr_world w')) = []"
    using demo_timed_out by (auto simp: demo_open_def)
  from creation_task_closes [OF run] e row have "wf_status row = W_COMPLETED" by simp
  with run row none show ?thesis by blast
qed

lemma pool_task_never_refills_witness:
  "\<exists>counts w'. check_account_pool default_settings (\<lambda>_. Inr ''t'') 0 \<lparr>w_db = empty_db, w_calls = 0, w_queue = [], w_revoked = []\<rparr>
       = (Inr (counts, True), w')
     \<and> w_queue w' = [(''create_account_task'', [JStr ''A''])]
     \<and> (\<exists>res v'. create_account_try (demo_creation_env []) ''A'' None 0 demo_creating = Some (res, v') \<and> (\<forall>r. res \<noteq> Done r))"
proof -
  let ?w = "\<lparr>w_db = empty_db, w_calls = 0, w_queue = [], w_revoked = []\<rparr> :: world"
  have "\<exists>counts w'. check_account_pool default_settings (\<lambda>_. Inr ''t'') 0 ?w = (Inr (counts, True), w')"
    by (simp add: check_account_pool_def evaluate_warmup_batch_def check_active_pool_needs_account_def default_settings_def
        dispatch_def empty_db_def)
  then obtain counts w' where run: "check_account_pool default_settings (\<lambda>_. Inr ''t'') 0 ?w = (Inr (counts, True), w')" by blast
  from pool_task_never_refills [OF run] run show ?thesis by fastforce
qed

lemma launch_tries_bounded_witness:
  "\<exists>run st'. apify_tries (launch_try (demo_apify_env demo_started) \<lparr>ef_network = (\<lambda>_. True), ef_status = (\<lambda>_. None), ef_jitter = (\<lambda>_. 0)\<rparr> 2)
       0 demo_apify_state = ((Done run, []), st') \<and> length (as_starts st') \<le> 1
       \<and> sum_list (map sk_posts (as_starts st')) \<le> 6"
proof -
  let ?F = "\<lparr>ef_network = (\<lambda>_. True), ef_status = (\<lambda>_. None), ef_jitter = (\<lambda>_. 0)\<rparr>"
  obtain out st1 where "launch_binding (demo_apify_env demo_started) 2 ''schedule'' demo_apify_state = (Inr out, st1)"
    using demo_launched by blast
  then have run: "apify_tries (launch_try (demo_apify_env demo_started) ?F 2) 0 demo_apify_state = ((Done out, []), st1)"
    by (simp add: apify_tries.simps launch_try_def apify_try_def)
  from launch_tries_bounded [OF run] have "length (as_starts st1) \<le> 1" "sum_list (map sk_posts (as_starts st1)) \<le> 6" by simp_all
  with run show ?thesis by blast
qed

end
