(* ===== verification/Vehicle_Analyzer.thy ===== *)
theory Vehicle_Analyzer
  imports Apify_Base
begin

text \<open>
  The analysis of vehicles: \<open>services/vehicle_analyzer.py\<close> (the market statistics from the stored listings,
  the request to the language model, what is stored), the routes of \<open>api/analyzer.py\<close> and the task
  \<open>analyze_batch_task\<close>. Floating point arithmetic, \<open>json.loads\<close>,
  \<open>str\<close> of a JSON value, the conversions of the database driver and of pydantic, the reply of the language
  model and what other sessions commit while it is awaited are parameters.
\<close>

section \<open>The environment\<close>

record market_stats =
  ms_avg :: "int option"
  ms_min :: "int option"
  ms_max :: "int option"
  ms_count :: int
  ms_price_score :: "rat option"
  ms_confidence :: string

definition no_stats :: "int \<Rightarrow> market_stats" where
  \<comment> \<open>\<open>_MarketStats(count=n)\<close>\<close>
  "no_stats n = \<lparr>ms_avg = None, ms_min = None, ms_max = None, ms_count = n, ms_price_score = None, ms_confidence = ''insufficient''\<rparr>"

record claude_request =
  cq_model :: string
  cq_max_tokens :: int
  cq_system :: string
  cq_tools :: "json list"
  cq_tool_choice :: json
  cq_content :: string  \<comment> \<open>the text of the one user message\<close>

record claude_reply =
  cp_usage :: "(int \<times> int) option"  \<comment> \<open>input and output tokens\<close>
  cp_tool_input :: "(string, json) dict option"  \<comment> \<open>the input of the first \<open>tool_use\<close> block\<close>

record analyzer_env =
  va_now :: datetime
  va_score :: "int \<Rightarrow> int \<Rightarrow> rat"  \<comment> \<open>\<open>round((avg - price) / avg * 100, 1)\<close>\<close>
  va_one_decimal :: "rat \<Rightarrow> string"  \<comment> \<open>the format \<open>.1f\<close>\<close>
  va_float :: "rat \<Rightarrow> string"  \<comment> \<open>a float in JSON text\<close>
  va_str :: "json \<Rightarrow> string"  \<comment> \<open>\<open>str\<close> of a value that is no text\<close>
  va_slice_error :: "json \<Rightarrow> exn"  \<comment> \<open>what \<open>value[:500]\<close> raises for a number or an object\<close>
  va_loads :: "string \<Rightarrow> json result"
  va_key :: bool  \<comment> \<open>\<open>ANTHROPIC_API_KEY\<close> is set\<close>
  va_claude :: "claude_request \<Rightarrow> claude_reply result"
  va_others :: "db \<Rightarrow> db"  \<comment> \<open>what other sessions commit while the reply is awaited\<close>
  va_int4 :: "json \<Rightarrow> int option result"  \<comment> \<open>a value for an integer column\<close>
  va_text :: "json \<Rightarrow> string option result"  \<comment> \<open>a value for a text column\<close>
  va_opt_int :: "json \<Rightarrow> int option result"  \<comment> \<open>a field of the response that is \<open>int | None\<close>\<close>
  va_opt_str :: "json \<Rightarrow> string option result"
  va_strs :: "json \<Rightarrow> string list result"

section \<open>Market statistics\<close>

definition CONFIDENCE_HIGH :: int where "CONFIDENCE_HIGH = 10"
definition CONFIDENCE_MEDIUM :: int where "CONFIDENCE_MEDIUM = 5"
definition YEAR_WINDOW :: int where "YEAR_WINDOW = 1"
definition KM_WINDOW :: int where "KM_WINDOW = 25000"

definition comparable :: "string \<Rightarrow> string \<Rightarrow> int \<Rightarrow> int \<Rightarrow> uuid \<Rightarrow> listing \<Rightarrow> bool" where
  \<comment> \<open>the \<open>WHERE\<close> of the statement; a comparison with \<open>NULL\<close> does not hold\<close>
  "comparable brand model year km lid l =
     (li_make l = Some brand \<and> li_model l = Some model
      \<and> (case li_year l of None \<Rightarrow> False | Some y \<Rightarrow> year - YEAR_WINDOW \<le> y \<and> y \<le> year + YEAR_WINDOW)
      \<and> (case li_km l of None \<Rightarrow> False | Some k \<Rightarrow> km - KM_WINDOW \<le> k \<and> k \<le> km + KM_WINDOW)
      \<and> li_price l \<noteq> None \<and> li_id l \<noteq> lid)"

definition comparable_prices :: "string \<Rightarrow> string \<Rightarrow> int \<Rightarrow> int \<Rightarrow> uuid \<Rightarrow> db \<Rightarrow> int list" where
  "comparable_prices brand model year km lid d =
     map (\<lambda>l. the (li_price l)) (filter (comparable brand model year km lid) (listings d))"

definition trunc_mean :: "int list \<Rightarrow> int" where
  \<comment> \<open>\<open>int(avg(...))\<close> truncates towards zero\<close>
  "trunc_mean ps = (let s = sum_list ps; n = int (length ps) in if 0 \<le> s then s div n else - ((- s) div n))"

definition least_price :: "int list \<Rightarrow> int" where "least_price ps = Min (set ps)"
definition greatest_price :: "int list \<Rightarrow> int" where "greatest_price ps = Max (set ps)"

definition compute_market_stats :: "analyzer_env \<Rightarrow> string \<Rightarrow> string \<Rightarrow> int \<Rightarrow> int \<Rightarrow> int \<Rightarrow> uuid \<Rightarrow> db \<Rightarrow> market_stats" where
  "compute_market_stats E brand model year km price lid d =
     (let ps = comparable_prices brand model year km lid d; n = int (length ps) in
      if ps = [] then no_stats 0
      else
        (let avg = trunc_mean ps in
         \<lparr>ms_avg = Some avg, ms_min = Some (least_price ps), ms_max = Some (greatest_price ps), ms_count = n,
          ms_price_score = (if avg \<noteq> 0 \<and> price \<noteq> 0 then Some (va_score E avg price) else None),
          ms_confidence = (if n \<ge> CONFIDENCE_HIGH then ''high'' else if n \<ge> CONFIDENCE_MEDIUM then ''medium'' else ''low'')\<rparr>))"

section \<open>The request\<close>

definition required_fields :: "string list" where
  "required_fields = [''reliability_score'', ''ai_summary'', ''known_issues'', ''inspection_tips'', ''negotiation_tip'']"

definition ANALYSIS_TOOL :: json where
  "ANALYSIS_TOOL = JObj
     [(''name'', JStr ''vehicle_analysis_result''),
      (''description'', JStr (''Retourne l'analyse complete d'un vehicule d'occasion : ''
         @ ''fiabilite, problemes connus, inspection, negociation.'')),
      (''input_schema'', JObj
         [(''type'', JStr ''object''),
          (''properties'', JObj
             [(''reliability_score'', JObj [(''type'', JStr ''integer''), (''minimum'', JInt 0), (''maximum'', JInt 100)]),
              (''ai_summary'', JObj [(''type'', JStr ''string'')]),
              (''known_issues'', JObj [(''type'', JStr ''array''), (''items'', JObj [(''type'', JStr ''string'')])]),
              (''inspection_tips'', JObj [(''type'', JStr ''array''), (''items'', JObj [(''type'', JStr ''string'')])]),
              (''negotiation_tip'', JObj [(''type'', JStr ''string'')])]),
          (''required'', JList (map JStr required_fields))])]"

definition SYSTEM_PROMPT :: string where
  "SYSTEM_PROMPT = ''Tu es un expert automobile francais specialise dans les vehicules d'occasion. ''
     @ ''Tu analyses des annonces pour identifier les opportunites d'achat et les risques. ''
     @ ''Tes reponses sont concises, precises et exclusivement en francais.''"

fun thousands :: "nat \<Rightarrow> string" where
  "thousands n = (if n < 1000 then str_nat n else thousands (n div 1000) @ '','' @ digits hex_digit 10 3 (n mod 1000))"

declare thousands.simps [simp del]

definition grouped :: "int \<Rightarrow> string" where
  \<comment> \<open>the format \<open>,\<close> of a whole number\<close>
  "grouped i = (if i < 0 then ''-'' @ thousands (nat (- i)) else thousands (nat i))"

definition line_part :: "string \<Rightarrow> string option \<Rightarrow> string list" where
  \<comment> \<open>\<open>if value: prompt_parts.append(...)\<close>\<close>
  "line_part label v = (case v of None \<Rightarrow> [] | Some t \<Rightarrow> if t = [] then [] else [label @ t])"

definition description_part :: "analyzer_env \<Rightarrow> json \<Rightarrow> string list result" where
  "description_part E v =
     (let label = ''- Description vendeur : '' in
      if \<not> json_truthy v then Inr []
      else case v of
          JStr s \<Rightarrow> Inr [label @ take 500 s]
        | JList vs \<Rightarrow> Inr [label @ va_str E (JList (take 500 vs))]
        | _ \<Rightarrow> Inl (va_slice_error E v))"

definition market_parts :: "analyzer_env \<Rightarrow> market_stats \<Rightarrow> string list" where
  "market_parts E S =
     (if ms_count S = 0 then []
      else
        [CHR 0x0A # ''Donnees marche ('' @ str_int (ms_count S) @ '' annonces similaires) :'',
         ''- Prix moyen : '' @ grouped (the (ms_avg S)) @ '' EUR'',
         ''- Fourchette : '' @ grouped (the (ms_min S)) @ '' - '' @ grouped (the (ms_max S)) @ '' EUR'']
        @ (case ms_price_score S of
             None \<Rightarrow> []
           | Some q \<Rightarrow> [''- Ecart au marche : '' @ (if q \<ge> 0 then ''+'' else '''') @ va_one_decimal E q @ ''% (''
               @ (if q > 0 then ''sous-evalue'' else ''sur-evalue'') @ '')'']))"

definition prompt_parts :: "analyzer_env \<Rightarrow> listing \<Rightarrow> json \<Rightarrow> market_stats \<Rightarrow> string list result" where
  "prompt_parts E l description S =
     (case description_part E description of
        Inl e \<Rightarrow> Inl e
      | Inr desc \<Rightarrow> Inr
          ([''Analyse ce vehicule d'occasion :'', ''- Marque / Modele : '' @ the (li_make l) @ '' '' @ the (li_model l)]
           @ (case li_year l of None \<Rightarrow> [] | Some y \<Rightarrow> if y = 0 then [] else [''- Annee : '' @ str_int y])
           @ (case li_km l of None \<Rightarrow> [] | Some k \<Rightarrow> [''- Kilometrage : '' @ grouped k @ '' km''])
           @ (case li_price l of None \<Rightarrow> [] | Some p \<Rightarrow> if p = 0 then [] else [''- Prix demande : '' @ grouped p @ '' EUR''])
           @ line_part ''- Carburant : '' (li_fuel l) @ line_part ''- Boite : '' (li_transmission l)
           @ line_part ''- Localisation : '' (li_location l) @ desc @ market_parts E S))"

definition vehicle_request :: "string list \<Rightarrow> claude_request" where
  "vehicle_request parts =
     \<lparr>cq_model = ''claude-sonnet-4-6'', cq_max_tokens = 1024, cq_system = SYSTEM_PROMPT, cq_tools = [ANALYSIS_TOOL],
      cq_tool_choice = JObj [(''type'', JStr ''tool''), (''name'', JStr ''vehicle_analysis_result'')],
      cq_content = join [CHR 0x0A] parts\<rparr>"

definition ai_analysis :: "analyzer_env \<Rightarrow> listing \<Rightarrow> json \<Rightarrow> market_stats \<Rightarrow> db \<Rightarrow> (string, json) dict result \<times> db" where
  "ai_analysis E l description S d =
     (if \<not> va_key E then (Inr [], d)
      else case prompt_parts E l description S of
          Inl e \<Rightarrow> (Inl e, d)
        | Inr parts \<Rightarrow>
            (case va_claude E (vehicle_request parts) of
               Inl e \<Rightarrow> (Inl e, va_others E d)
             | Inr reply \<Rightarrow> (Inr (case cp_tool_input reply of None \<Rightarrow> [] | Some m \<Rightarrow> m), va_others E d)))"

section \<open>The analysis of a listing\<close>

definition dump_json_list :: "analyzer_env \<Rightarrow> json \<Rightarrow> string option" where
  "dump_json_list E v = (if \<not> json_truthy v then None else Some (json_dumps (va_float E) '', '' '': '' v))"

definition store_analysis :: "analyzer_env \<Rightarrow> market_stats \<Rightarrow> (string, json) dict \<Rightarrow> int option \<Rightarrow> string option \<Rightarrow> string option
    \<Rightarrow> listing \<Rightarrow> listing" where
  \<comment> \<open>the \<open>values\<close> of the update, with the \<open>onupdate\<close> of the table\<close>
  "store_analysis E S ai score summary tip l =
     l\<lparr>li_price_score := ms_price_score S, li_market_avg_price := ms_avg S,
       li_market_sample_size := Some (ms_count S), li_reliability_score := score, li_ai_summary := summary,
       li_known_issues_json := dump_json_list E (get_json ai ''known_issues''),
       li_inspection_tips_json := dump_json_list E (get_json ai ''inspection_tips''),
       li_negotiation_tip := tip, li_updated_at := va_now E\<rparr>"

definition persist_analysis :: "analyzer_env \<Rightarrow> uuid \<Rightarrow> market_stats \<Rightarrow> (string, json) dict \<Rightarrow> db \<Rightarrow> db result" where
  "persist_analysis E lid S ai d =
     (case va_int4 E (get_json ai ''reliability_score'') of Inl e \<Rightarrow> Inl e | Inr score \<Rightarrow>
      (case va_text E (get_json ai ''ai_summary'') of Inl e \<Rightarrow> Inl e | Inr summary \<Rightarrow>
      (case va_text E (get_json ai ''negotiation_tip'') of Inl e \<Rightarrow> Inl e | Inr tip \<Rightarrow>
       Inr (d\<lparr>listings := update_where (\<lambda>l. li_id l = lid) (store_analysis E S ai score summary tip) (listings d)\<rparr>))))"

record vehicle_analysis_out =
  vo_listing_id :: uuid
  vo_listing_url :: string
  vo_price_score :: "rat option"
  vo_market_avg_price :: "int option"
  vo_market_min_price :: "int option"
  vo_market_max_price :: "int option"
  vo_market_sample_size :: int
  vo_confidence :: string
  vo_reliability_score :: "int option"
  vo_ai_summary :: "string option"
  vo_known_issues :: "string list"
  vo_inspection_tips :: "string list"
  vo_negotiation_tip :: "string option"

definition get_or_empty :: "(string, json) dict \<Rightarrow> string \<Rightarrow> json" where
  \<comment> \<open>\<open>ai.get(k, [])\<close>\<close>
  "get_or_empty ai k = (case dict_get ai k of None \<Rightarrow> JList [] | Some v \<Rightarrow> v)"

definition analysis_out :: "analyzer_env \<Rightarrow> listing \<Rightarrow> market_stats \<Rightarrow> (string, json) dict \<Rightarrow> vehicle_analysis_out result" where
  "analysis_out E l S ai =
     (case va_opt_int E (get_json ai ''reliability_score'') of Inl e \<Rightarrow> Inl e | Inr score \<Rightarrow>
      (case va_opt_str E (get_json ai ''ai_summary'') of Inl e \<Rightarrow> Inl e | Inr summary \<Rightarrow>
      (case va_strs E (get_or_empty ai ''known_issues'') of Inl e \<Rightarrow> Inl e | Inr issues \<Rightarrow>
      (case va_strs E (get_or_empty ai ''inspection_tips'') of Inl e \<Rightarrow> Inl e | Inr tips \<Rightarrow>
      (case va_opt_str E (get_json ai ''negotiation_tip'') of Inl e \<Rightarrow> Inl e | Inr tip \<Rightarrow>
       Inr \<lparr>vo_listing_id = li_id l, vo_listing_url = li_url l, vo_price_score = ms_price_score S,
            vo_market_avg_price = ms_avg S, vo_market_min_price = ms_min S, vo_market_max_price = ms_max S,
            vo_market_sample_size = ms_count S, vo_confidence = ms_confidence S, vo_reliability_score = score,
            vo_ai_summary = summary, vo_known_issues = issues, vo_inspection_tips = tips, vo_negotiation_tip = tip\<rparr>)))))"

definition present :: "string option \<Rightarrow> bool" where
  "present v = (v \<noteq> None \<and> v \<noteq> Some [])"

definition nonzero :: "int option \<Rightarrow> bool" where
  "nonzero v = (v \<noteq> None \<and> v \<noteq> Some 0)"

definition listing_stats :: "analyzer_env \<Rightarrow> listing \<Rightarrow> db \<Rightarrow> market_stats" where
  "listing_stats E l d =
     (if present (li_make l) \<and> present (li_model l) \<and> nonzero (li_year l) \<and> nonzero (li_km l) \<and> nonzero (li_price l)
      then compute_market_stats E (the (li_make l)) (the (li_model l)) (the (li_year l)) (the (li_km l)) (the (li_price l)) (li_id l) d
      else no_stats 0)"

definition seller_description :: "analyzer_env \<Rightarrow> listing \<Rightarrow> json" where
  \<comment> \<open>\<open>json.loads(raw_data).get("body")\<close>, \<open>None\<close> when that raises\<close>
  "seller_description E l =
     (case li_raw_data l of
        None \<Rightarrow> JNull
      | Some raw \<Rightarrow>
          if raw = [] then JNull
          else case va_loads E raw of Inr (JObj kvs) \<Rightarrow> get_json kvs ''body'' | _ \<Rightarrow> JNull)"

definition analyze_listing :: "analyzer_env \<Rightarrow> uuid \<Rightarrow> db \<Rightarrow> vehicle_analysis_out result \<times> db" where
  "analyze_listing E lid d =
     (case find_row (\<lambda>l. li_id l = lid) (listings d) of
        None \<Rightarrow> (Inl (HTTPException 404 ''Annonce introuvable''), d)
      | Some l \<Rightarrow>
          (let S = listing_stats E l d in
           case (if present (li_make l) \<and> present (li_model l) then ai_analysis E l (seller_description E l) S d else (Inr [], d)) of
             (Inl e, d1) \<Rightarrow> (Inl e, d1)
           | (Inr ai, d1) \<Rightarrow>
               (case persist_analysis E lid S ai d1 of
                  Inl e \<Rightarrow> (Inl e, d1)
                | Inr d2 \<Rightarrow> (analysis_out E l S ai, d2))))"

fun analyze_batch :: "(nat \<Rightarrow> analyzer_env) \<Rightarrow> (string \<Rightarrow> uuid option) \<Rightarrow> nat \<Rightarrow> string list \<Rightarrow> db \<Rightarrow> (nat \<times> nat) \<times> db" where
  \<comment> \<open>\<open>analyze_batch_task\<close>: how many were done and how many failed\<close>
  "analyze_batch E parse n [] d = ((0, 0), d)"
| "analyze_batch E parse n (raw # raws) d =
     (case (case parse raw of
              None \<Rightarrow> (False, d)
            | Some lid \<Rightarrow> (case analyze_listing (E n) lid d of (r, d1) \<Rightarrow> (\<not> is_error r, d1))) of
        (ok, d1) \<Rightarrow>
          (case analyze_batch E parse (Suc n) raws d1 of
             ((yes, no), d2) \<Rightarrow> ((if ok then (Suc yes, no) else (yes, Suc no)), d2)))"

section \<open>The routes\<close>

definition confidence_from_sample :: "int option \<Rightarrow> string" where
  "confidence_from_sample sample =
     (if \<not> nonzero sample then ''insufficient''
      else if the sample \<ge> CONFIDENCE_HIGH then ''high'' else if the sample \<ge> CONFIDENCE_MEDIUM then ''medium'' else ''low'')"

definition parse_json_list :: "analyzer_env \<Rightarrow> string option \<Rightarrow> string list" where
  "parse_json_list E raw =
     (case raw of
        None \<Rightarrow> []
      | Some r \<Rightarrow>
          if r = [] then []
          else case va_loads E r of
              Inr (JList vs) \<Rightarrow> map (\<lambda>v. case v of JStr s \<Rightarrow> s | _ \<Rightarrow> va_str E v) (filter (\<lambda>v. v \<noteq> JNull) vs)
            | _ \<Rightarrow> [])"

record listing_result =
  vr_id :: uuid
  vr_url :: string
  vr_title :: "string option"
  vr_make :: "string option"
  vr_model :: "string option"
  vr_year :: "int option"
  vr_km :: "int option"
  vr_price :: "int option"
  vr_price_score :: "rat option"
  vr_market_avg_price :: "int option"
  vr_market_sample_size :: "int option"
  vr_confidence :: string
  vr_reliability_score :: "int option"
  vr_ai_summary :: "string option"
  vr_known_issues :: "string list"
  vr_inspection_tips :: "string list"
  vr_negotiation_tip :: "string option"

definition to_result :: "analyzer_env \<Rightarrow> listing \<Rightarrow> listing_result" where
  "to_result E l =
     \<lparr>vr_id = li_id l, vr_url = li_url l, vr_title = li_title l, vr_make = li_make l, vr_model = li_model l,
      vr_year = li_year l, vr_km = li_km l, vr_price = li_price l, vr_price_score = li_price_score l,
      vr_market_avg_price = li_market_avg_price l, vr_market_sample_size = li_market_sample_size l,
      vr_confidence = confidence_from_sample (li_market_sample_size l), vr_reliability_score = li_reliability_score l,
      vr_ai_summary = li_ai_summary l, vr_known_issues = parse_json_list E (li_known_issues_json l),
      vr_inspection_tips = parse_json_list E (li_inspection_tips_json l), vr_negotiation_tip = li_negotiation_tip l\<rparr>"

definition batch_ids :: "int \<Rightarrow> bool \<Rightarrow> db \<Rightarrow> uuid list" where
  "batch_ids limit only d =
     map li_id (take (nat limit) (newest_first li_created_at
       (filter (\<lambda>l. li_price_score l = None \<and> (only \<longrightarrow> li_make l \<noteq> None \<and> li_model l \<noteq> None)) (listings d))))"

definition run_batch :: "broker \<Rightarrow> int \<Rightarrow> bool \<Rightarrow> world \<Rightarrow> (string \<times> nat) result \<times> world" where
  "run_batch b limit only w =
     (if limit < 1 \<or> limit > 500 then (Inl (HTTPException 422 ''limit''), w)
      else let ids = batch_ids limit only (w_db w) in
        if ids = [] then (Inr (''none'', 0), w)
        else case dispatch b (''analyze_batch_task'', [JList (map (\<lambda>i. JStr (str_uuid i)) ids)]) w of
            (Inl e, w1) \<Rightarrow> (Inl e, w1)
          | (Inr tid, w1) \<Rightarrow> (Inr (tid, length ids), w1))"

definition scored :: "db \<Rightarrow> listing list" where
  "scored d = filter (\<lambda>l. li_price_score l \<noteq> None) (listings d)"

definition best_first :: "listing list \<Rightarrow> listing list" where
  "best_first = newest_first (\<lambda>l. the (li_price_score l))"

definition sample_between :: "int \<Rightarrow> int option \<Rightarrow> listing \<Rightarrow> bool" where
  "sample_between low high l =
     (case li_market_sample_size l of
        None \<Rightarrow> False
      | Some n \<Rightarrow> low \<le> n \<and> (case high of None \<Rightarrow> True | Some h \<Rightarrow> n < h))"

definition result_wanted :: "rat option \<Rightarrow> string option \<Rightarrow> listing \<Rightarrow> bool" where
  "result_wanted min_score confidence l =
     ((case min_score of None \<Rightarrow> True | Some q \<Rightarrow> the (li_price_score l) \<ge> q)
      \<and> (if confidence = Some ''high'' then sample_between CONFIDENCE_HIGH None l
         else if confidence = Some ''medium'' then sample_between CONFIDENCE_MEDIUM (Some CONFIDENCE_HIGH) l else True))"

definition get_results :: "analyzer_env \<Rightarrow> rat option \<Rightarrow> string option \<Rightarrow> int \<Rightarrow> db \<Rightarrow> listing_result list result" where
  "get_results E min_score confidence limit d =
     (if limit > 200 then Inl (HTTPException 422 ''limit'')
      else if limit < 0 then Inl (External ''DBAPIError'' ''LIMIT must not be negative'')
      else Inr (map (to_result E) (take (nat limit) (best_first (filter (result_wanted min_score confidence) (scored d))))))"

record analyzer_stats =
  vs_total_listings :: nat
  vs_analyzed :: nat
  vs_pending :: int
  vs_high_confidence :: nat
  vs_medium_confidence :: nat
  vs_underpriced :: nat
  vs_overpriced :: nat
  vs_avg_price_score :: "rat option"
  vs_top_opportunities :: "listing_result list"

definition listing_count :: "(listing \<Rightarrow> bool) \<Rightarrow> db \<Rightarrow> nat" where
  "listing_count P d = length (filter P (listings d))"

definition get_stats :: "analyzer_env \<Rightarrow> (rat list \<Rightarrow> rat) \<Rightarrow> (rat \<Rightarrow> rat) \<Rightarrow> db \<Rightarrow> analyzer_stats" where
  \<comment> \<open>the two functions are \<open>avg\<close> of the database and \<open>round(..., 1)\<close>\<close>
  "get_stats E mean round1 d =
     (let analyzed = listing_count (\<lambda>l. li_price_score l \<noteq> None) d; scores = map (\<lambda>l. the (li_price_score l)) (scored d) in
      \<lparr>vs_total_listings = length (listings d), vs_analyzed = analyzed, vs_pending = int (length (listings d)) - int analyzed,
       vs_high_confidence = listing_count (sample_between CONFIDENCE_HIGH None) d,
       vs_medium_confidence = listing_count (sample_between CONFIDENCE_MEDIUM (Some CONFIDENCE_HIGH)) d,
       vs_underpriced = listing_count (\<lambda>l. case li_price_score l of None \<Rightarrow> False | Some q \<Rightarrow> q > 0) d,
       vs_overpriced = listing_count (\<lambda>l. case li_price_score l of None \<Rightarrow> False | Some q \<Rightarrow> q < 0) d,
       vs_avg_price_score = (if scores = [] \<or> mean scores = 0 then None else Some (round1 (mean scores))),
       vs_top_opportunities = map (to_result E) (take 5 (best_first (scored d)))\<rparr>)"

section \<open>Statistics\<close>

lemma least_price_le: "p \<in> set ps \<Longrightarrow> least_price ps \<le> p"
  by (simp add: least_price_def)

lemma greatest_price_ge: "p \<in> set ps \<Longrightarrow> p \<le> greatest_price ps"
  by (simp add: greatest_price_def)

lemma div_between: "0 < (n::int) \<Longrightarrow> n * a \<le> s \<Longrightarrow> a \<le> s div n" "0 < n \<Longrightarrow> s \<le> n * b \<Longrightarrow> s div n \<le> b"
  using zdiv_mono1 [of "n * a" s n] zdiv_mono1 [of s "n * b" n] by simp_all

lemma sum_list_between:
  assumes "\<forall>p\<in>set ps. a \<le> p \<and> p \<le> (b::int)"
  shows "int (length ps) * a \<le> sum_list ps \<and> sum_list ps \<le> int (length ps) * b"
  using assms by (induction ps) (auto simp: algebra_simps)

lemma trunc_mean_between:
  assumes "ps \<noteq> []" "\<forall>p\<in>set ps. a \<le> p \<and> p \<le> b"
  shows "a \<le> trunc_mean ps \<and> trunc_mean ps \<le> b"
proof -
  let ?n = "int (length ps)" and ?s = "sum_list ps"
  have n: "0 < ?n" using assms(1) by simp
  have s: "?n * a \<le> ?s" "?s \<le> ?n * b" using sum_list_between [OF assms(2)] by auto
  have "a \<le> ?s div ?n" "?s div ?n \<le> b" by (rule div_between(1) [OF n s(1)], rule div_between(2) [OF n s(2)])
  moreover have "- b \<le> (- ?s) div ?n" "(- ?s) div ?n \<le> - a"
    by (rule div_between(1) [OF n], use s(2) in simp, rule div_between(2) [OF n], use s(1) in simp)
  ultimately show ?thesis by (simp add: trunc_mean_def Let_def)
qed

lemma market_stats_none: "comparable_prices brand model year km lid d = [] \<Longrightarrow> compute_market_stats E brand model year km price lid d = no_stats 0"
  by (simp add: compute_market_stats_def Let_def)

text \<open>
  The statistics of a listing are those of its comparable listings: there are none without one, and
  otherwise least, mean and greatest price are ordered and enclose every comparable price; the price of the
  listing itself does not enter them.
\<close>

lemma market_stats_sound:
  fixes E d brand model year km price lid
  defines "S \<equiv> compute_market_stats E brand model year km price lid d"
    and "ls \<equiv> filter (comparable brand model year km lid) (listings d)"
  shows "ms_count S = int (length ls)
    \<and> (if ls = [] then ms_avg S = None \<and> ms_price_score S = None \<and> ms_confidence S = ''insufficient''
       else \<exists>low avg high. ms_min S = Some low \<and> ms_avg S = Some avg \<and> ms_max S = Some high \<and> low \<le> avg \<and> avg \<le> high
         \<and> (\<forall>l\<in>set ls. \<exists>p. li_price l = Some p \<and> low \<le> p \<and> p \<le> high))
    \<and> (\<forall>l\<in>set ls. li_id l \<noteq> lid)"
proof -
  let ?ps = "comparable_prices brand model year km lid d"
  have ps: "?ps = map (\<lambda>l. the (li_price l)) ls" by (simp add: comparable_prices_def ls_def)
  have in_ls: "li_id l \<noteq> lid \<and> (\<exists>p. li_price l = Some p \<and> p \<in> set ?ps)" if "l \<in> set ls" for l
  proof -
    from that have "comparable brand model year km lid l" by (simp add: ls_def)
    then obtain p where "li_price l = Some p" "li_id l \<noteq> lid" by (auto simp: comparable_def)
    then show ?thesis using that by (force simp: ps)
  qed
  show ?thesis
  proof (cases "ls = []")
    case True
    then show ?thesis by (simp add: S_def compute_market_stats_def Let_def ps no_stats_def)
  next
    case False
    then have ne: "?ps \<noteq> []" by (simp add: ps)
    have m: "least_price ?ps \<le> trunc_mean ?ps \<and> trunc_mean ?ps \<le> greatest_price ?ps"
      by (rule trunc_mean_between [OF ne]) (simp add: least_price_le greatest_price_ge)
    have S: "ms_min S = Some (least_price ?ps)" "ms_avg S = Some (trunc_mean ?ps)" "ms_max S = Some (greatest_price ?ps)"
        "ms_count S = int (length ls)"
      using ne by (simp_all add: S_def compute_market_stats_def Let_def) (simp add: ps)
    have "\<exists>p. li_price l = Some p \<and> least_price ?ps \<le> p \<and> p \<le> greatest_price ?ps" if "l \<in> set ls" for l
      using in_ls [OF that] by (auto simp: least_price_le greatest_price_ge)
    with S m in_ls False show ?thesis by auto
  qed
qed

lemma confidence_agrees: "ms_confidence (listing_stats E l d) = confidence_from_sample (Some (ms_count (listing_stats E l d)))"
  by (auto simp: listing_stats_def compute_market_stats_def Let_def no_stats_def confidence_from_sample_def nonzero_def)

section \<open>What an analysis stores\<close>

lemma persist_InrD:
  assumes "persist_analysis E lid S ai d = Inr d'"
  obtains score summary tip where "va_int4 E (get_json ai ''reliability_score'') = Inr score"
    "va_text E (get_json ai ''ai_summary'') = Inr summary" "va_text E (get_json ai ''negotiation_tip'') = Inr tip"
    "d' = d\<lparr>listings := update_where (\<lambda>l. li_id l = lid) (store_analysis E S ai score summary tip) (listings d)\<rparr>"
  using assms by (auto simp: persist_analysis_def split: sum.splits)

definition reply_input :: "analyzer_env \<Rightarrow> listing \<Rightarrow> (string, json) dict \<Rightarrow> bool" where
  \<comment> \<open>what an analysis of the listing may store of the model\<close>
  "reply_input E l ai =
     (if va_key E \<and> present (li_make l) \<and> present (li_model l)
      then \<exists>q reply. va_claude E q = Inr reply \<and> ai = (case cp_tool_input reply of None \<Rightarrow> [] | Some m \<Rightarrow> m)
      else ai = [])"

lemma ai_analysis_db: "snd (ai_analysis E l desc S d) \<in> {d, va_others E d}"
  by (auto simp: ai_analysis_def split: sum.splits)

lemma ai_analysis_input:
  assumes "ai_analysis E l desc S d = (Inr ai, d1)" "present (li_make l)" "present (li_model l)"
  shows "reply_input E l ai"
  using assms by (auto simp: ai_analysis_def reply_input_def split: sum.splits if_splits)

lemma analyze_shape:
  assumes "analyze_listing E lid d = (r, d')"
  obtains (failed) "is_error r" "d' = d \<or> d' = va_others E d"
  | (stored) l ai d1 score summary tip where
      "find_row (\<lambda>l. li_id l = lid) (listings d) = Some l" "reply_input E l ai" "d1 = d \<or> d1 = va_others E d"
      "va_int4 E (get_json ai ''reliability_score'') = Inr score"
      "va_text E (get_json ai ''ai_summary'') = Inr summary" "va_text E (get_json ai ''negotiation_tip'') = Inr tip"
      "r = analysis_out E l (listing_stats E l d) ai"
      "d' = d1\<lparr>listings := update_where (\<lambda>l. li_id l = lid) (store_analysis E (listing_stats E l d) ai score summary tip) (listings d1)\<rparr>"
proof (cases "find_row (\<lambda>l. li_id l = lid) (listings d)")
  case None
  with assms failed show ?thesis by (auto simp: analyze_listing_def)
next
  case (Some l)
  let ?S = "listing_stats E l d"
  obtain ra d1 where a: "(if present (li_make l) \<and> present (li_model l) then ai_analysis E l (seller_description E l) ?S d else (Inr [], d)) = (ra, d1)"
    by fastforce
  have d1: "d1 = d \<or> d1 = va_others E d"
    using a ai_analysis_db [of E l "seller_description E l" ?S d] by (auto split: if_splits)
  show ?thesis
  proof (cases ra)
    case (Inl e)
    with assms Some a d1 failed show ?thesis by (auto simp: analyze_listing_def Let_def)
  next
    case (Inr ai)
    have input: "reply_input E l ai"
    proof (cases "present (li_make l) \<and> present (li_model l)")
      case True
      with a Inr ai_analysis_input [of E l _ ?S d ai d1] show ?thesis by simp
    next
      case False
      with a Inr show ?thesis by (auto simp: reply_input_def)
    qed
    show ?thesis
    proof (cases "persist_analysis E lid ?S ai d1")
      case (Inl e)
      with assms Some a Inr d1 failed show ?thesis by (auto simp: analyze_listing_def Let_def)
    next
      case (Inr d2)
      with assms Some a \<open>ra = Inr ai\<close> have "r = analysis_out E l ?S ai" "d' = d2"
        by (auto simp: analyze_listing_def Let_def)
      from persist_InrD [OF Inr] obtain score summary tip where
          "va_int4 E (get_json ai ''reliability_score'') = Inr score"
          "va_text E (get_json ai ''ai_summary'') = Inr summary" "va_text E (get_json ai ''negotiation_tip'') = Inr tip"
          "d2 = d1\<lparr>listings := update_where (\<lambda>l. li_id l = lid) (store_analysis E ?S ai score summary tip) (listings d1)\<rparr>" .
      with stored [OF Some input d1] \<open>r = analysis_out E l ?S ai\<close> \<open>d' = d2\<close> show ?thesis by simp
    qed
  qed
qed

lemma store_analysis_keeps [simp]:
  "li_id (store_analysis E S ai score summary tip l) = li_id l"
  "li_created_at (store_analysis E S ai score summary tip l) = li_created_at l"
  "li_make (store_analysis E S ai score summary tip l) = li_make l"
  "li_model (store_analysis E S ai score summary tip l) = li_model l"
  "li_year (store_analysis E S ai score summary tip l) = li_year l"
  "li_km (store_analysis E S ai score summary tip l) = li_km l"
  "li_price (store_analysis E S ai score summary tip l) = li_price l"
  by (simp_all add: store_analysis_def)

lemma stored_row:
  assumes "d' = d1\<lparr>listings := update_where (\<lambda>l. li_id l = lid) f (listings d1)\<rparr>" "l \<in> set (listings d')" "li_id l = lid"
  shows "\<exists>l1\<in>set (listings d1). l = f l1"
proof -
  from assms(1,2) have "l \<in> set (update_where (\<lambda>l. li_id l = lid) f (listings d1))" by simp
  then show ?thesis
  proof (rule update_where_rowE)
    fix r assume "r \<in> set (listings d1)" "l = f r"
    then show ?thesis by blast
  next
    assume "l \<in> set (listings d1)" "li_id l \<noteq> lid"
    with assms(3) show ?thesis by simp
  qed
qed

text \<open>
  What the other sessions committed while the language model answered is kept: an analysis writes to the
  rows of its listing only, and to no other table.
\<close>

lemma analysis_touches_one:
  assumes "analyze_listing E lid d = (r, d')"
  shows "\<exists>d1. (d1 = d \<or> d1 = va_others E d) \<and> d' = d1\<lparr>listings := listings d'\<rparr>
    \<and> filter (\<lambda>l. li_id l \<noteq> lid) (listings d') = filter (\<lambda>l. li_id l \<noteq> lid) (listings d1)
    \<and> map li_id (listings d') = map li_id (listings d1)"
  using assms
proof (cases rule: analyze_shape)
  case failed
  then show ?thesis by auto
next
  case (stored l ai d1 score summary tip)
  have "filter (\<lambda>l. li_id l \<noteq> lid) (update_where (\<lambda>l. li_id l = lid) (store_analysis E S ai score summary tip) xs)
      = filter (\<lambda>l. li_id l \<noteq> lid) xs" for S xs
    by (induction xs) auto
  with stored(3,8) show ?thesis by (intro exI [of _ d1]) (simp add: map_update_where)
qed

text \<open>
  An analysis without a key, or whose reply has no tool block, is stored as well, over the one before it:
  the score of the model, its summary and its lists are empty afterwards.
\<close>

lemma analysis_without_reply_erases:
  assumes "analyze_listing E lid d = (Inr out, d')"
    and "\<not> va_key E \<or> (\<forall>q. \<exists>u. va_claude E q = Inr \<lparr>cp_usage = u, cp_tool_input = None\<rparr>)"
    and "va_int4 E JNull = Inr None" "va_text E JNull = Inr None" "l \<in> set (listings d')" "li_id l = lid"
  shows "li_reliability_score l = None \<and> li_ai_summary l = None \<and> li_known_issues_json l = None
    \<and> li_inspection_tips_json l = None \<and> li_negotiation_tip l = None"
  using assms(1)
proof (cases rule: analyze_shape)
  case failed
  then show ?thesis by simp
next
  case (stored l0 ai d1 score summary tip)
  have "cp_tool_input reply = None" if "va_key E" "va_claude E q = Inr reply" for q reply
  proof -
    from assms(2) that(1) obtain u where "va_claude E q = Inr \<lparr>cp_usage = u, cp_tool_input = None\<rparr>" by blast
    with that(2) show ?thesis by auto
  qed
  then have ai: "ai = []"
    using stored(2) by (auto simp: reply_input_def split: if_splits)
  then have "score = None" "summary = None" "tip = None"
    using stored(4-6) assms(3,4) by (simp_all add: get_json_def dict_get_def)
  moreover from stored_row [OF stored(8) assms(5,6)] obtain l1 where
    "l = store_analysis E (listing_stats E l0 d) ai score summary tip l1" by blast
  ultimately show ?thesis by (simp add: ai store_analysis_def get_json_def dict_get_def dump_json_list_def)
qed

section \<open>What the results route shows\<close>

definition tool_input :: "int \<Rightarrow> string \<Rightarrow> string list \<Rightarrow> string list \<Rightarrow> string \<Rightarrow> (string, json) dict" where
  \<comment> \<open>a reply that follows the schema of the tool\<close>
  "tool_input score summary issues tips tip =
     [(''reliability_score'', JInt score), (''ai_summary'', JStr summary), (''known_issues'', JList (map JStr issues)),
      (''inspection_tips'', JList (map JStr tips)), (''negotiation_tip'', JStr tip)]"

definition conversions_keep :: "analyzer_env \<Rightarrow> bool" where
  \<comment> \<open>the driver and pydantic take values of the declared type as they are\<close>
  "conversions_keep E \<longleftrightarrow>
     (\<forall>i. 0 \<le> i \<and> i \<le> 100 \<longrightarrow> va_int4 E (JInt i) = Inr (Some i) \<and> va_opt_int E (JInt i) = Inr (Some i))
     \<and> va_int4 E JNull = Inr None \<and> va_opt_int E JNull = Inr None
     \<and> (\<forall>s. va_text E (JStr s) = Inr (Some s) \<and> va_opt_str E (JStr s) = Inr (Some s))
     \<and> va_text E JNull = Inr None \<and> va_opt_str E JNull = Inr None
     \<and> (\<forall>ts. va_strs E (JList (map JStr ts)) = Inr ts)"

definition reads_back :: "analyzer_env \<Rightarrow> string list \<Rightarrow> bool" where
  "reads_back E ts \<longleftrightarrow> va_loads E (json_dumps (va_float E) '', '' '': '' (JList (map JStr ts))) = Inr (JList (map JStr ts))"

lemma tool_input_get:
  "get_json (tool_input i s xs ys t) ''reliability_score'' = JInt i"
  "get_json (tool_input i s xs ys t) ''ai_summary'' = JStr s"
  "get_json (tool_input i s xs ys t) ''known_issues'' = JList (map JStr xs)"
  "get_json (tool_input i s xs ys t) ''inspection_tips'' = JList (map JStr ys)"
  "get_json (tool_input i s xs ys t) ''negotiation_tip'' = JStr t"
  "get_or_empty (tool_input i s xs ys t) ''known_issues'' = JList (map JStr xs)"
  "get_or_empty (tool_input i s xs ys t) ''inspection_tips'' = JList (map JStr ys)"
  by (simp_all add: tool_input_def get_json_def get_or_empty_def dict_get_def)

lemma empty_get: "get_json [] k = JNull" "get_or_empty [] k = JList []"
  by (simp_all add: get_json_def get_or_empty_def dict_get_def)

lemma dumped_list_shown:
  assumes "reads_back E ts"
  shows "parse_json_list E (dump_json_list E (JList (map JStr ts))) = ts"
proof -
  have "filter (\<lambda>v. v \<noteq> JNull) (map JStr ts) = map JStr ts" by (simp add: filter_map o_def)
  with assms show ?thesis by (auto simp: parse_json_list_def dump_json_list_def reads_back_def o_def)
qed

definition shows_analysis :: "analyzer_env \<Rightarrow> vehicle_analysis_out \<Rightarrow> listing \<Rightarrow> bool" where
  "shows_analysis E out l \<longleftrightarrow>
     (let r = to_result E l in
      vr_id r = vo_listing_id out \<and> vr_price_score r = vo_price_score out \<and> vr_market_avg_price r = vo_market_avg_price out
      \<and> vr_market_sample_size r = Some (vo_market_sample_size out) \<and> vr_confidence r = vo_confidence out
      \<and> vr_reliability_score r = vo_reliability_score out \<and> vr_ai_summary r = vo_ai_summary out
      \<and> vr_known_issues r = vo_known_issues out \<and> vr_inspection_tips r = vo_inspection_tips out
      \<and> vr_negotiation_tip r = vo_negotiation_tip out)"

lemma analysis_shown_as_returned:
  assumes "analyze_listing E lid d = (Inr out, d')" "conversions_keep E"
    and "\<forall>q. \<exists>u. va_claude E q = Inr \<lparr>cp_usage = u, cp_tool_input = Some (tool_input i s xs ys t)\<rparr>" "0 \<le> i" "i \<le> 100"
    and "reads_back E xs" "reads_back E ys" "l \<in> set (listings d')" "li_id l = lid"
  shows "shows_analysis E out l"
  using assms(1)
proof (cases rule: analyze_shape)
  case failed
  then show ?thesis by simp
next
  case (stored l0 ai d1 score summary tip)
  let ?S = "listing_stats E l0 d"
  have "ai = []" if "\<not> (va_key E \<and> present (li_make l0) \<and> present (li_model l0))"
    using stored(2) that by (auto simp: reply_input_def)
  moreover have "ai = tool_input i s xs ys t" if "va_key E \<and> present (li_make l0) \<and> present (li_model l0)"
  proof -
    from stored(2) that obtain q reply where q: "va_claude E q = Inr reply"
        "ai = (case cp_tool_input reply of None \<Rightarrow> [] | Some m \<Rightarrow> m)" by (auto simp: reply_input_def)
    from assms(3) obtain u where "va_claude E q = Inr \<lparr>cp_usage = u, cp_tool_input = Some (tool_input i s xs ys t)\<rparr>" by blast
    with q show ?thesis by auto
  qed
  ultimately have ai: "ai = [] \<or> ai = tool_input i s xs ys t" by blast
  obtain l1 where l: "l = store_analysis E ?S ai score summary tip l1"
    using stored_row [OF stored(8) assms(8,9)] by blast
  have id0: "li_id l0 = lid" using find_row_SomeD [OF stored(1)] by simp
  have r: "analysis_out E l0 ?S ai = Inr out" using stored(7) by simp
  have nil: "va_strs E (JList []) = Inr []"
    using assms(2) by (auto simp: conversions_keep_def dest: spec [of _ "[]"])
  note keep = assms(2) [unfolded conversions_keep_def]
  from ai show ?thesis
  proof
    assume a: "ai = []"
    with r stored(4-6) keep nil have "out = \<lparr>vo_listing_id = lid, vo_listing_url = li_url l0, vo_price_score = ms_price_score ?S,
            vo_market_avg_price = ms_avg ?S, vo_market_min_price = ms_min ?S, vo_market_max_price = ms_max ?S,
            vo_market_sample_size = ms_count ?S, vo_confidence = ms_confidence ?S, vo_reliability_score = None,
            vo_ai_summary = None, vo_known_issues = [], vo_inspection_tips = [], vo_negotiation_tip = None\<rparr>"
        "score = None" "summary = None" "tip = None"
      by (simp_all add: analysis_out_def empty_get id0)
    with a l assms(9) show ?thesis
      by (simp add: shows_analysis_def to_result_def Let_def store_analysis_def confidence_agrees empty_get dump_json_list_def
          parse_json_list_def)
  next
    assume a: "ai = tool_input i s xs ys t"
    with r stored(4-6) keep assms(4,5) have "out = \<lparr>vo_listing_id = lid, vo_listing_url = li_url l0, vo_price_score = ms_price_score ?S,
            vo_market_avg_price = ms_avg ?S, vo_market_min_price = ms_min ?S, vo_market_max_price = ms_max ?S,
            vo_market_sample_size = ms_count ?S, vo_confidence = ms_confidence ?S, vo_reliability_score = Some i,
            vo_ai_summary = Some s, vo_known_issues = xs, vo_inspection_tips = ys, vo_negotiation_tip = Some t\<rparr>"
        "score = Some i" "summary = Some s" "tip = Some t"
      by (simp_all add: analysis_out_def tool_input_get id0)
    with a l assms(6,7,9) show ?thesis
      by (simp add: shows_analysis_def to_result_def Let_def store_analysis_def confidence_agrees tool_input_get dumped_list_shown)
  qed
qed

section \<open>The batch\<close>

lemma batch_counts: "fst (analyze_batch E parse n raws d) = (yes, no) \<Longrightarrow> yes + no = length raws"
  by (induction raws arbitrary: n d yes no) (auto simp: split_beta Let_def split: if_splits prod.splits)

definition queue_key :: "listing \<Rightarrow> uuid \<times> datetime \<times> string option \<times> string option \<times> int option \<times> int option \<times> int option \<times> bool" where
  "queue_key l = (li_id l, li_created_at l, li_make l, li_model l, li_year l, li_km l, li_price l, li_price_score l = None)"

definition unscorable :: "db \<Rightarrow> listing \<Rightarrow> bool" where
  \<comment> \<open>no comparable listing, or not enough known of the vehicle\<close>
  "unscorable d l =
     (present (li_make l) \<and> present (li_model l) \<and> nonzero (li_year l) \<and> nonzero (li_km l) \<and> nonzero (li_price l) \<longrightarrow>
      filter (comparable (the (li_make l)) (the (li_model l)) (the (li_year l)) (the (li_km l)) (li_id l)) (listings d) = [])"

lemma unscorable_no_score: "unscorable d l \<Longrightarrow> ms_price_score (listing_stats E l d) = None"
  by (simp add: unscorable_def listing_stats_def market_stats_none comparable_prices_def) (simp add: no_stats_def)

lemma comparable_key: "queue_key l = queue_key l' \<Longrightarrow> comparable b m y k i l = comparable b m y k i l'"
  by (simp add: queue_key_def comparable_def)

lemma unscorable_key:
  assumes "queue_key l = queue_key l'" "queue_key ` set (listings d) = queue_key ` set (listings d')"
  shows "unscorable d l = unscorable d' l'"
proof -
  have "(\<forall>x\<in>set (listings d). \<not> comparable b m y k i x) = (\<forall>x\<in>set (listings d'). \<not> comparable b m y k i x)" for b m y k i
    using assms(2) comparable_key by (metis (no_types, lifting) imageE imageI)
  with assms(1) show ?thesis by (simp add: unscorable_def filter_empty_conv queue_key_def)
qed

lemma map_sort_key: "map f (sort_key (\<lambda>x. k (f x)) xs) = sort_key k (map f xs)"
proof (induction xs)
  case (Cons x xs)
  have "map f (insort_key (\<lambda>x. k (f x)) x ys) = insort_key k (f x) (map f ys)" for ys by (induction ys) auto
  with Cons show ?case by simp
qed simp

lemma batch_ids_key:
  assumes "map queue_key (listings d) = map queue_key (listings d')"
  shows "batch_ids limit only d = batch_ids limit only d'"
proof -
  let ?sel = "\<lambda>l. li_price_score l = None \<and> (only \<longrightarrow> li_make l \<noteq> None \<and> li_model l \<noteq> None)"
  let ?Q = "\<lambda>(i, c, b, m, y, k, p, s). s \<and> (only \<longrightarrow> b \<noteq> None \<and> m \<noteq> None)"
  have sel: "?sel = ?Q \<circ> queue_key" by (auto simp: queue_key_def)
  have "batch_ids limit only x = map fst (take (nat limit) (rev (sort_key (\<lambda>z. fst (snd z)) (filter ?Q (map queue_key (listings x))))))" for x
  proof -
    have "map queue_key (sort_key li_created_at ys) = sort_key (\<lambda>z. fst (snd z)) (map queue_key ys)" for ys
      using map_sort_key [of queue_key "\<lambda>z. fst (snd z)" ys] by (simp add: queue_key_def)
    moreover have "map li_id ys = map fst (map queue_key ys)" for ys by (simp add: queue_key_def)
    ultimately show ?thesis
      unfolding batch_ids_def newest_first_def sel by (simp only: take_map [symmetric] rev_map [symmetric] filter_map)
  qed
  with assms show ?thesis by simp
qed

lemma analyze_keeps_queue:
  assumes "va_others E = id" "\<forall>l\<in>set (listings d). li_id l = lid \<longrightarrow> unscorable d l \<and> li_price_score l = None"
  shows "map queue_key (listings (snd (analyze_listing E lid d))) = map queue_key (listings d)"
proof -
  obtain r d' where a: "analyze_listing E lid d = (r, d')" by fastforce
  from a show ?thesis
  proof (cases rule: analyze_shape)
    case failed
    with assms(1) a show ?thesis by auto
  next
    case (stored l ai d1 score summary tip)
    let ?f = "store_analysis E (listing_stats E l d) ai score summary tip"
    have d1: "d1 = d" using stored(3) assms(1) by auto
    have "ms_price_score (listing_stats E l d) = None"
      using find_row_SomeD [OF stored(1)] assms(2) unscorable_no_score by blast
    then have "queue_key (?f x) = queue_key x" if "x \<in> set (listings d)" "li_id x = lid" for x
      using assms(2) that by (simp add: queue_key_def) (simp add: store_analysis_def)
    then have "map queue_key (update_where (\<lambda>l. li_id l = lid) ?f (listings d)) = map queue_key (listings d)"
      by (simp add: update_where_def)
    with a stored(8) d1 show ?thesis by simp
  qed
qed

lemma batch_keeps_queue:
  assumes "\<forall>n. va_others (E n) = id"
    and "\<forall>raw\<in>set raws. \<forall>lid. parse raw = Some lid \<longrightarrow> (\<forall>l\<in>set (listings d). li_id l = lid \<longrightarrow> unscorable d l \<and> li_price_score l = None)"
  shows "map queue_key (listings (snd (analyze_batch E parse n raws d))) = map queue_key (listings d)"
  using assms(2)
proof (induction raws arbitrary: n d)
  case (Cons raw raws)
  define d1 where "d1 = (case parse raw of None \<Rightarrow> d | Some lid \<Rightarrow> snd (analyze_listing (E n) lid d))"
  have key: "map queue_key (listings d1) = map queue_key (listings d)"
  proof (cases "parse raw")
    case (Some lid)
    then show ?thesis unfolding d1_def using analyze_keeps_queue [of "E n" d lid] assms(1) Cons.prems by simp
  qed (simp add: d1_def)
  have sets: "queue_key ` set (listings d1) = queue_key ` set (listings d)" using key by (metis image_set)
  have rest: "\<forall>raw\<in>set raws. \<forall>lid. parse raw = Some lid \<longrightarrow>
      (\<forall>l\<in>set (listings d1). li_id l = lid \<longrightarrow> unscorable d1 l \<and> li_price_score l = None)"
  proof (intro ballI allI impI)
    fix r lid l assume r: "r \<in> set raws" "parse r = Some lid" "l \<in> set (listings d1)" "li_id l = lid"
    have "queue_key l \<in> queue_key ` set (listings d)" using imageI [OF r(3), of queue_key] sets by simp
    then obtain l0 where l0: "l0 \<in> set (listings d)" "queue_key l0 = queue_key l" by auto
    then have "li_id l0 = lid" using r(4) by (simp add: queue_key_def)
    with Cons.prems r(1,2) l0(1) have "unscorable d l0 \<and> li_price_score l0 = None" by simp
    with l0(2) unscorable_key [OF l0(2) sets [symmetric]] show "unscorable d1 l \<and> li_price_score l = None"
      by (simp add: queue_key_def)
  qed
  have "snd (analyze_batch E parse n (raw # raws) d) = snd (analyze_batch E parse (Suc n) raws d1)"
    by (auto simp: d1_def split_beta Let_def split: option.splits)
  with Cons.IH [OF rest] key show ?case by simp
qed simp

text \<open>
  A batch of listings without comparable listings is asked for again for ever: run undisturbed, it leaves
  every one of them without a score, so the next request for a batch takes the same listings, and no older
  listing is reached.
\<close>

lemma unscorable_batch_repeats:
  assumes "\<forall>n. va_others (E n) = id" "distinct (map li_id (listings d))"
    and "\<forall>i\<in>set (batch_ids limit only d). parse (str_uuid i) = Some i"
    and "\<forall>l\<in>set (listings d). li_id l \<in> set (batch_ids limit only d) \<longrightarrow> unscorable d l"
  shows "batch_ids limit only (snd (analyze_batch E parse 0 (map str_uuid (batch_ids limit only d)) d)) = batch_ids limit only d"
proof (rule batch_ids_key, rule batch_keeps_queue [OF assms(1)], intro ballI allI impI)
  fix raw lid l assume a: "raw \<in> set (map str_uuid (batch_ids limit only d))" "parse raw = Some lid"
    "l \<in> set (listings d)" "li_id l = lid"
  then have i: "lid \<in> set (batch_ids limit only d)" using assms(3) by auto
  then obtain l0 where l0: "l0 \<in> set (listings d)" "li_price_score l0 = None" "li_id l0 = lid"
    unfolding batch_ids_def by (auto dest!: in_set_takeD)
  with a(3,4) assms(2) have "l0 = l" by (metis distinct_map inj_onD)
  with l0 i a(3,4) assms(4) show "unscorable d l \<and> li_price_score l = None" by simp
qed

section \<open>Results\<close>

lemma best_first_sorted: "sorted_wrt (\<lambda>a b. the (li_price_score b) \<le> the (li_price_score a)) (best_first ls)"
  by (simp add: best_first_def newest_first_def sorted_wrt_rev) (metis sorted_map sorted_sort_key)

lemma results_sorted:
  assumes "get_results E min_score confidence limit d = Inr rs"
  shows "length rs \<le> 200 \<and> sorted_wrt (\<lambda>a b. the (vr_price_score b) \<le> the (vr_price_score a)) rs
    \<and> (\<forall>r\<in>set rs. \<exists>q. vr_price_score r = Some q \<and> (case min_score of None \<Rightarrow> True | Some m \<Rightarrow> m \<le> q))"
proof -
  let ?ls = "filter (result_wanted min_score confidence) (scored d)"
  have rs: "rs = map (to_result E) (take (nat limit) (best_first ?ls))" "limit \<le> 200"
    using assms by (auto simp: get_results_def split: if_splits)
  have "sorted_wrt (\<lambda>a b. the (vr_price_score b) \<le> the (vr_price_score a)) rs"
    unfolding rs(1) by (simp add: sorted_wrt_map to_result_def sorted_wrt_take best_first_sorted)
  moreover have "length rs \<le> 200" unfolding rs(1) using rs(2) by simp
  moreover have "\<exists>q. vr_price_score r = Some q \<and> (case min_score of None \<Rightarrow> True | Some m \<Rightarrow> m \<le> q)" if "r \<in> set rs" for r
  proof -
    from that rs(1) obtain l where "l \<in> set (take (nat limit) (best_first ?ls))" "r = to_result E l" by auto
    then have "l \<in> set ?ls" "r = to_result E l" by (auto simp: best_first_def dest!: in_set_takeD)
    then show ?thesis by (cases min_score) (auto simp: to_result_def scored_def result_wanted_def)
  qed
  ultimately show ?thesis by blast
qed

lemma low_confidence_filter_ignored: "get_results E m (Some ''low'') limit d = get_results E m None limit d"
  by (simp add: get_results_def result_wanted_def [abs_def])

end
