(* ===== verification/Dashboard.thy ===== *)
theory Dashboard
  imports Apify_Base Config
begin

text \<open>
  The dashboard: the web socket hub (\<open>ws.py\<close>), the balances of the outside services and the five places
  that write them (\<open>webhooks/funds.py\<close>, \<open>balance_poller.py\<close>, \<open>anthropic_tracker.py\<close>, the manual update), and
  the figures of \<open>api/dashboard.py\<close>. Floats are rational numbers, and \<open>float(...)\<close>, \<open>round\<close>, the texts of floats and
  dates, the answers of the services and what other requests do to the hub during a send are parameters. The
  two polls of a round run one after the other here; they write different rows.
\<close>

section \<open>The web socket hub (ws.py)\<close>

record hub =
  hb_conns :: "nat list"  \<comment> \<open>the open connections, by the number of the socket\<close>
  hb_sent :: "(nat \<times> string) list"

record ws_env =
  wv_ok :: "nat \<Rightarrow> nat \<Rightarrow> bool"  \<comment> \<open>whether the send at this turn to this socket succeeds\<close>
  wv_during :: "nat \<Rightarrow> nat list \<Rightarrow> nat list"  \<comment> \<open>connections opened and closed while that send is awaited\<close>

definition ws_connect :: "nat \<Rightarrow> hub \<Rightarrow> hub" where
  "ws_connect ws h = h\<lparr>hb_conns := hb_conns h @ [ws]\<rparr>"

definition ws_disconnect :: "nat \<Rightarrow> hub \<Rightarrow> unit result \<times> hub" where
  "ws_disconnect ws h =
     (if ws \<in> set (hb_conns h) then (Inr (), h\<lparr>hb_conns := remove1 ws (hb_conns h)\<rparr>)
      else (Inl (ValueError ''list.remove(x): x not in list''), h))"

partial_function (option) broadcast_loop :: "ws_env \<Rightarrow> string \<Rightarrow> nat \<Rightarrow> nat list \<Rightarrow> hub \<Rightarrow> (nat list \<times> hub) option" where
  \<comment> \<open>the iteration over the live list, by its index\<close>
  "broadcast_loop W payload i dead h =
     (if length (hb_conns h) \<le> i then Some (dead, h)
      else let ws = hb_conns h ! i; ok = wv_ok W i ws in
        broadcast_loop W payload (Suc i) (if ok then dead else dead @ [ws])
          (h\<lparr>hb_conns := wv_during W i (hb_conns h), hb_sent := (if ok then hb_sent h @ [(ws, payload)] else hb_sent h)\<rparr>))"

fun remove_dead :: "nat list \<Rightarrow> hub \<Rightarrow> unit result \<times> hub" where
  "remove_dead [] h = (Inr (), h)"
| "remove_dead (ws # dead) h = (case ws_disconnect ws h of (Inl e, h1) \<Rightarrow> (Inl e, h1) | (Inr _, h1) \<Rightarrow> remove_dead dead h1)"

definition broadcast :: "ws_env \<Rightarrow> string \<Rightarrow> hub \<Rightarrow> (unit result \<times> hub) option" where
  "broadcast W payload h =
     (case broadcast_loop W payload 0 [] h of None \<Rightarrow> None | Some (dead, h1) \<Rightarrow> Some (remove_dead dead h1))"

definition active_count :: "hub \<Rightarrow> nat" where
  "active_count h = length (hb_conns h)"

section \<open>Balances\<close>

record station =
  sn_db :: db
  sn_hub :: hub
  sn_alerts :: "string list"  \<comment> \<open>messages to Sentry\<close>

record balance_env =
  be_now :: datetime
  be_to_float :: "json \<Rightarrow> rat result"
  be_float_text :: "rat \<Rightarrow> string"
  be_stamp :: "datetime \<Rightarrow> string"  \<comment> \<open>\<open>str\<close> of a date\<close>
  be_ws :: ws_env

definition upsert_service :: "service_balance \<Rightarrow> (service_balance \<Rightarrow> service_balance) \<Rightarrow> db \<Rightarrow> db" where
  \<comment> \<open>\<open>INSERT ... ON CONFLICT (service) DO UPDATE\<close>\<close>
  "upsert_service row change d =
     (if find_row (\<lambda>b. sb_service b = sb_service row) (service_balance d) = None
      then d\<lparr>service_balance := service_balance d @ [row\<lparr>sb_id := fresh_id d\<rparr>], fresh_id := fresh_id d + 1\<rparr>
      else d\<lparr>service_balance := update_where (\<lambda>b. sb_service b = sb_service row) change (service_balance d)\<rparr>)"

definition balance_row :: "string \<Rightarrow> string \<Rightarrow> rat option \<Rightarrow> string \<Rightarrow> bool \<Rightarrow> rat \<Rightarrow> datetime \<Rightarrow> datetime option \<Rightarrow> service_balance" where
  "balance_row service label bal currency low threshold now expires =
     \<lparr>sb_id = 0, sb_service = service, sb_label = label, sb_balance = bal, sb_currency = currency, sb_is_low = low,
      sb_low_threshold = threshold, sb_last_updated = Some now, sb_expires_at = expires\<rparr>"

definition optional_float :: "rat option \<Rightarrow> json" where
  "optional_float q = (case q of None \<Rightarrow> JNull | Some x \<Rightarrow> JFloat x)"

definition optional_stamp :: "balance_env \<Rightarrow> datetime option \<Rightarrow> json" where
  "optional_stamp B t = (case t of None \<Rightarrow> JNull | Some x \<Rightarrow> JStr (be_stamp B x))"

definition balance_event :: "balance_env \<Rightarrow> service_balance \<Rightarrow> json" where
  \<comment> \<open>\<open>BalanceUpdateEvent(...).model_dump()\<close>\<close>
  "balance_event B b =
     JObj [(''event'', JStr ''balance_update''), (''service'', JStr (sb_service b)), (''label'', JStr (sb_label b)),
           (''balance'', optional_float (sb_balance b)), (''currency'', JStr (sb_currency b)), (''is_low'', JBool (sb_is_low b)),
           (''low_threshold'', JFloat (sb_low_threshold b)), (''last_updated'', optional_stamp B (sb_last_updated b)),
           (''expires_at'', optional_stamp B (sb_expires_at b))]"

definition announce :: "balance_env \<Rightarrow> service_balance \<Rightarrow> station \<Rightarrow> (unit result \<times> station) option" where
  "announce B row s =
     (case broadcast (be_ws B) (ascii_json (plain_dumps (be_float_text B) (balance_event B row))) (sn_hub s) of
        None \<Rightarrow> None
      | Some (r, h) \<Rightarrow> Some (r, s\<lparr>sn_hub := h\<rparr>))"

definition alert_if :: "bool \<Rightarrow> string \<Rightarrow> station \<Rightarrow> station" where
  "alert_if low text s = (if low then s\<lparr>sn_alerts := sn_alerts s @ [text]\<rparr> else s)"

definition on_station_db :: "(db \<Rightarrow> db) \<Rightarrow> station \<Rightarrow> station" where
  "on_station_db f s = s\<lparr>sn_db := f (sn_db s)\<rparr>"

definition balance_text :: "balance_env \<Rightarrow> rat option \<Rightarrow> string" where
  "balance_text B q = (case q of None \<Rightarrow> ''None'' | Some x \<Rightarrow> be_float_text B x)"

subsection \<open>The funds webhook (webhooks/funds.py)\<close>

record funds_item =
  fi_webhook_id :: string
  fi_webhook_type :: string
  fi_funds :: "(string, json) dict"

definition FUNDS_LOW_THRESHOLD :: rat where "FUNDS_LOW_THRESHOLD = 10"

definition funds_balance :: "balance_env \<Rightarrow> funds_item \<Rightarrow> rat option result" where
  "funds_balance B item =
     (case be_to_float B (case dict_get (fi_funds item) ''item_amount'' of None \<Rightarrow> JInt 0 | Some v \<Rightarrow> v) of
        Inr q \<Rightarrow> Inr (Some q)
      | Inl (TypeError m) \<Rightarrow> Inr None
      | Inl (ValueError m) \<Rightarrow> Inr None
      | Inl e \<Rightarrow> Inl e)"

definition set_balance :: "rat option \<Rightarrow> bool \<Rightarrow> datetime \<Rightarrow> service_balance \<Rightarrow> service_balance" where
  "set_balance bal low now b = b\<lparr>sb_balance := bal, sb_is_low := low, sb_last_updated := Some now\<rparr>"

definition receive_funds :: "balance_env \<Rightarrow> funds_item list \<Rightarrow> station \<Rightarrow> (bool option result \<times> station) option" where
  \<comment> \<open>\<open>is_low\<close> of the response; \<open>None\<close> for an empty payload\<close>
  "receive_funds B payload s =
     (case payload of
        [] \<Rightarrow> Some (Inr None, s)
      | item # _ \<Rightarrow>
          (case funds_balance B item of
             Inl e \<Rightarrow> Some (Inl e, s)
           | Inr bal \<Rightarrow>
               (let low = (fi_webhook_type item = ''insufficient_funds'' \<or> (case bal of None \<Rightarrow> False | Some q \<Rightarrow> q < FUNDS_LOW_THRESHOLD));
                    row = balance_row ''smstools'' ''SMSTools SMS'' bal ''EUR'' low FUNDS_LOW_THRESHOLD (be_now B) None;
                    s1 = on_station_db (upsert_service row (set_balance bal low (be_now B))) s;
                    s2 = alert_if low (''SMSTools balance low via webhook: balance='' @ balance_text B bal) s1 in
                case announce B row s2 of
                  None \<Rightarrow> None
                | Some (Inl e, s3) \<Rightarrow> Some (Inl e, s3)
                | Some (Inr _, s3) \<Rightarrow> Some (Inr (Some low), s3))))"

subsection \<open>The poller (balance_poller.py)\<close>

record poller_env =
  ple_base :: balance_env
  ple_iproxy :: "json result"  \<comment> \<open>the body of the answer, or what the request raised\<close>
  ple_browseruse :: "json result"
  ple_iso :: "string \<Rightarrow> (bool \<times> datetime) result"  \<comment> \<open>\<open>fromisoformat\<close>, and whether the date has no zone\<close>

definition poll_upsert :: "balance_env \<Rightarrow> string \<Rightarrow> string \<Rightarrow> rat option \<Rightarrow> string \<Rightarrow> rat \<Rightarrow> datetime option \<Rightarrow> station
    \<Rightarrow> (unit result \<times> station) option" where
  \<comment> \<open>\<open>_upsert_balance\<close>\<close>
  "poll_upsert B service label bal currency threshold expires s =
     (let low = (case bal of None \<Rightarrow> False | Some q \<Rightarrow> q < threshold);
          row = balance_row service label bal currency low threshold (be_now B) expires;
          s1 = on_station_db (upsert_service row (\<lambda>b. (set_balance bal low (be_now B) b)\<lparr>sb_expires_at := expires\<rparr>)) s in
      case announce B row s1 of
        None \<Rightarrow> None
      | Some (Inl e, s2) \<Rightarrow> Some (Inl e, s2)
      | Some (Inr _, s2) \<Rightarrow> Some (Inr (), alert_if low
          (''Low balance detected for '' @ service @ '': '' @ balance_text B bal @ '' '' @ currency) s2))"

definition obj_get :: "json \<Rightarrow> string \<Rightarrow> json \<Rightarrow> json result" where
  \<comment> \<open>\<open>value.get(k, default)\<close>\<close>
  "obj_get v k dflt = (case v of JObj kvs \<Rightarrow> Inr (case dict_get kvs k of None \<Rightarrow> dflt | Some x \<Rightarrow> x) | _ \<Rightarrow> Inl AttributeError)"

definition iproxy_expiry :: "poller_env \<Rightarrow> json \<Rightarrow> (bool \<times> datetime) option result" where
  "iproxy_expiry P conn =
     (case obj_get conn ''plan_info'' (JObj []) of Inl e \<Rightarrow> Inl e | Inr info \<Rightarrow>
      (case obj_get info ''active_plan'' (JObj []) of Inl e \<Rightarrow> Inl e | Inr plan \<Rightarrow>
      (case obj_get plan ''expires_at'' JNull of Inl e \<Rightarrow> Inl e | Inr v \<Rightarrow>
        if \<not> json_truthy v then Inr None
        else case v of JStr t \<Rightarrow> map_sum id Some (ple_iso P (replace_text ''Z'' ''+00:00'' t)) | _ \<Rightarrow> Inl AttributeError)))"

definition naive_error :: exn where
  \<comment> \<open>the driver refuses a date without a zone for a column with one\<close>
  "naive_error = External ''DBAPIError'' ''can't subtract offset-naive and offset-aware datetimes''"

definition iproxy_figures :: "poller_env \<Rightarrow> (rat option \<times> datetime option) result" where
  "iproxy_figures P =
     (case ple_iproxy P of Inl e \<Rightarrow> Inl e | Inr conn \<Rightarrow>
      (case iproxy_expiry P conn of Inl e \<Rightarrow> Inl e | Inr expires \<Rightarrow>
      (case obj_get conn ''balance'' JNull of Inl e \<Rightarrow> Inl e | Inr raw \<Rightarrow>
      (case (if raw = JNull then Inr None else map_sum id Some (be_to_float (ple_base P) raw)) of Inl e \<Rightarrow> Inl e | Inr bal \<Rightarrow>
       (case expires of
          None \<Rightarrow> Inr (bal, None)
        | Some (naive, t) \<Rightarrow> if naive then Inl naive_error else Inr (bal, Some t))))))"

definition browseruse_figures :: "poller_env \<Rightarrow> (rat option \<times> datetime option) result" where
  "browseruse_figures P =
     (case ple_browseruse P of Inl e \<Rightarrow> Inl e | Inr data \<Rightarrow>
      (case obj_get data ''totalCreditsBalanceUsd'' JNull of Inl e \<Rightarrow> Inl e | Inr raw \<Rightarrow>
      (case be_to_float (ple_base P) (json_or raw (JInt 0)) of Inl e \<Rightarrow> Inl e | Inr bal \<Rightarrow>
      (case obj_get data ''planInfo'' (JObj []) of Inl e \<Rightarrow> Inl e | Inr info \<Rightarrow>
      (case obj_get info ''subscriptionCurrentPeriodEnd'' JNull of Inl e \<Rightarrow> Inl e | Inr v \<Rightarrow>
        if \<not> json_truthy v then Inr (Some bal, None)
        else case v of
            JStr t \<Rightarrow> (case ple_iso P t of Inl e \<Rightarrow> Inl e | Inr (naive, x) \<Rightarrow> Inr (Some bal, Some x))
          | _ \<Rightarrow> Inl (TypeError ''fromisoformat: argument must be str''))))))"

definition poll_service :: "balance_env \<Rightarrow> string \<Rightarrow> string \<Rightarrow> (rat option \<times> datetime option) result \<Rightarrow> station \<Rightarrow> station option" where
  \<comment> \<open>every exception is caught and reported\<close>
  "poll_service B service label figures s =
     (case figures of
        Inl e \<Rightarrow> Some (alert_if True (exn_str e) s)
      | Inr (bal, expires) \<Rightarrow>
          (case poll_upsert B service label bal ''USD'' 5 expires s of
             None \<Rightarrow> None
           | Some (Inl e, s1) \<Rightarrow> Some (alert_if True (exn_str e) s1)
           | Some (Inr _, s1) \<Rightarrow> Some s1))"

definition poll_once :: "settings \<Rightarrow> poller_env \<Rightarrow> station \<Rightarrow> station option" where
  "poll_once cfg P s =
     (case (if iproxy_api_key cfg \<noteq> [] \<and> iproxy_connection_id cfg \<noteq> []
            then poll_service (ple_base P) ''iproxy'' (''iProxy '' @ iproxy_connection_id cfg) (iproxy_figures P) s else Some s) of
        None \<Rightarrow> None
      | Some s1 \<Rightarrow>
          if browser_use_api_key cfg \<noteq> [] then poll_service (ple_base P) ''browseruse'' ''BrowserUse'' (browseruse_figures P) s1
          else Some s1)"

subsection \<open>The cost counter (anthropic_tracker.py)\<close>

record tracker_env =
  te_now :: datetime
  te_add :: "int \<Rightarrow> int \<Rightarrow> rat \<Rightarrow> rat"  \<comment> \<open>the total after so many input and output tokens, in floats\<close>
  te_round4 :: "rat \<Rightarrow> rat"

definition TRACKER_LOW_THRESHOLD :: rat where "TRACKER_LOW_THRESHOLD = 5"

definition track_usage :: "tracker_env \<Rightarrow> int \<Rightarrow> int \<Rightarrow> rat \<Rightarrow> db \<Rightarrow> rat \<times> db" where
  \<comment> \<open>the number is \<open>_total_cost_usd\<close> of the process\<close>
  "track_usage T inp out cost d =
     (let c = te_add T inp out cost; bal = Some (te_round4 T c); low = TRACKER_LOW_THRESHOLD < c in
      (c, upsert_service (balance_row ''anthropic'' ''Anthropic Claude'' bal ''USD'' low TRACKER_LOW_THRESHOLD (te_now T) None)
            (set_balance bal low (te_now T)) d))"

subsection \<open>The manual update\<close>

definition SERVICES_DEFAULT :: "(string \<times> string \<times> rat) list" where
  "SERVICES_DEFAULT =
     [(''smstools'', ''SMSTools SMS'', 10), (''iproxy'', ''iProxy SIMs'', 5), (''browseruse'', ''BrowserUse'', 5),
      (''anthropic'', ''Anthropic Claude'', 5)]"

definition update_balance :: "balance_env \<Rightarrow> string \<Rightarrow> rat \<Rightarrow> string \<Rightarrow> station \<Rightarrow> (bool result \<times> station) option" where
  "update_balance B service amount currency s =
     (case find_row (\<lambda>x. fst x = service) SERVICES_DEFAULT of
        None \<Rightarrow> Some (Inl (HTTPException 404 (''Service '' @ [CHR 0x27] @ service @ [CHR 0x27] @ '' inconnu'')), s)
      | Some (_, label, threshold) \<Rightarrow>
          (let low = amount < threshold;
               row = balance_row service label (Some amount) currency low threshold (be_now B) None;
               s1 = on_station_db (upsert_service row
                 (\<lambda>b. (set_balance (Some amount) low (be_now B) b)\<lparr>sb_currency := currency\<rparr>)) s;
               s2 = alert_if low (''Manual low balance update for '' @ service @ '': '' @ be_float_text B amount @ '' '' @ currency) s1 in
           case announce B row s2 of
             None \<Rightarrow> None
           | Some (Inl e, s3) \<Rightarrow> Some (Inl e, s3)
           | Some (Inr _, s3) \<Rightarrow> Some (Inr low, s3)))"

section \<open>The figures (api/dashboard.py)\<close>

record action_item =
  ai_code :: string
  ai_severity :: string
  ai_title :: string
  ai_detail :: string
  ai_target :: string

definition or_text :: "string option \<Rightarrow> string \<Rightarrow> string" where
  \<comment> \<open>\<open>value or text\<close>\<close>
  "or_text v t = (case v of None \<Rightarrow> t | Some s \<Rightarrow> if s = [] then t else s)"

definition connector_severity :: "connector_state \<Rightarrow> string option" where
  "connector_severity st =
     (if st = CONN_DOWN \<or> st = CONN_MISCONFIGURED then Some ''critical''
      else if st = CONN_DEGRADED then Some ''warning'' else None)"

definition connector_action :: "connector_status \<Rightarrow> action_item list" where
  "connector_action c =
     (case connector_severity (cs_status c) of
        None \<Rightarrow> []
      | Some severity \<Rightarrow>
          [\<lparr>ai_code = ''connector.'' @ cs_name c @ ''.'' @ or_text (cs_error_code c) (connector_state_value (cs_status c)),
            ai_severity = severity, ai_title = ''Connecteur '' @ cs_name c @ '' indisponible'',
            ai_detail = or_text (cs_error_summary c) ''Verification requise'', ai_target = cs_name c\<rparr>])"

definition build_action_items :: "connector_status list \<Rightarrow> int \<Rightarrow> int \<Rightarrow> action_item list" where
  "build_action_items connectors active minimum =
     sort_key (\<lambda>i. ai_severity i \<noteq> ''critical'')
       (concat (map connector_action connectors)
        @ (if active < minimum then
             [\<lparr>ai_code = ''accounts.pool_below_minimum'', ai_severity = ''warning'', ai_title = ''Pool de comptes insuffisant'',
               ai_detail = str_int active @ '' actifs pour un minimum de '' @ str_int minimum, ai_target = ''accounts''\<rparr>]
           else []))"

record dashboard_workflow =
  dw_id :: uuid
  dw_workflow_type :: string
  dw_status :: workflow_status
  dw_progress_current :: int
  dw_progress_total :: "int option"
  dw_batch_number :: int
  dw_batch_size :: "int option"
  dw_last_error :: "string option"
  dw_updated_at :: datetime

definition dashboard_workflow_of :: "workflow_run \<Rightarrow> dashboard_workflow" where
  "dashboard_workflow_of w =
     \<lparr>dw_id = wf_id w, dw_workflow_type = wf_workflow_type w, dw_status = wf_status w,
      dw_progress_current = wf_progress_current w, dw_progress_total = wf_progress_total w,
      dw_batch_number = wf_batch_number w, dw_batch_size = wf_batch_size w, dw_last_error = wf_last_error w,
      dw_updated_at = wf_updated_at w\<rparr>"

record service_balance_out =
  so_service :: string
  so_label :: string
  so_balance :: "rat option"
  so_currency :: string
  so_is_low :: bool
  so_low_threshold :: rat
  so_last_updated :: "datetime option"
  so_expires_at :: "datetime option"

definition balance_out :: "db \<Rightarrow> string \<times> string \<times> rat \<Rightarrow> service_balance_out" where
  "balance_out d = (\<lambda>(service, label, threshold).
     (case map_of (rev (map (\<lambda>b. (sb_service b, b)) (service_balance d))) service of
        Some b \<Rightarrow> \<lparr>so_service = sb_service b, so_label = sb_label b, so_balance = sb_balance b, so_currency = sb_currency b,
                    so_is_low = sb_is_low b, so_low_threshold = sb_low_threshold b, so_last_updated = sb_last_updated b,
                    so_expires_at = sb_expires_at b\<rparr>
      | None \<Rightarrow> \<lparr>so_service = service, so_label = label, so_balance = None, so_currency = ''EUR'', so_is_low = False,
                 so_low_threshold = threshold, so_last_updated = None, so_expires_at = None\<rparr>))"

record dashboard_stats =
  ds_listings_total :: nat
  ds_listings_today :: nat
  ds_sms_sent_total :: nat
  ds_sms_sent_today :: nat
  ds_calls_total :: nat
  ds_calls_today :: nat
  ds_sms_received_total :: nat
  ds_sms_received_today :: nat
  ds_accounts_active :: nat
  ds_accounts_total :: nat
  ds_accounts_warming :: nat
  ds_accounts_slowed :: nat
  ds_accounts_blocked :: nat
  ds_accounts_quarantined :: nat
  ds_campaigns_running :: nat
  ds_balances :: "service_balance_out list"
  ds_lbc_messages_sent_total :: nat
  ds_lbc_messages_sent_today :: nat
  ds_lbc_messages_received_total :: nat
  ds_lbc_messages_received_today :: nat
  ds_phones_extracted_total :: nat
  ds_phones_extracted_today :: nat
  ds_phone_extraction_rate :: rat
  ds_sms_response_rate :: rat
  ds_lbc_response_rate :: rat
  ds_connectors :: "connector_status list"
  ds_actions_required :: "action_item list"
  ds_workflows :: "dashboard_workflow list"
  ds_generated_at :: datetime

definition count_if :: "('r \<Rightarrow> bool) \<Rightarrow> 'r list \<Rightarrow> nat" where
  "count_if P t = length (filter P t)"

definition day_start :: "datetime \<Rightarrow> datetime" where
  "day_start now = now - now mod days 1"

definition percent_of :: "nat \<Rightarrow> nat \<Rightarrow> rat" where
  "percent_of a b = (if b = 0 then 0 else of_nat a / of_nat b * 100)"

definition live_accounts :: "account_status set \<Rightarrow> db \<Rightarrow> nat" where
  "live_accounts states d = count_if (\<lambda>a. pa_deleted_at a = None \<and> pa_status a \<in> states) (platform_accounts d)"

definition outbound_sent :: "lbc_message_log \<Rightarrow> bool" where
  "outbound_sent m = (lm_direction m = LBC_OUTBOUND \<and> lm_status m = LBCM_SENT)"

definition inbound_received :: "lbc_message_log \<Rightarrow> bool" where
  "inbound_received m = (lm_direction m = LBC_INBOUND \<and> lm_status m = LBCM_RECEIVED)"

definition open_workflows :: "db \<Rightarrow> workflow_run list" where
  "open_workflows d = take 10 (newest_first wf_updated_at
     (filter (\<lambda>w. wf_status w \<in> {W_PENDING, W_RUNNING, W_PAUSED, W_FAILED}) (workflow_runs d)))"

definition get_dashboard :: "settings \<Rightarrow> datetime \<Rightarrow> db \<Rightarrow> dashboard_stats" where
  "get_dashboard cfg now d =
     (let today = day_start now;
          sms_total = length (sms_log d);
          events = (\<lambda>source. count_if (\<lambda>e. we_source e = source) (webhook_events d));
          events_today = (\<lambda>source. count_if (\<lambda>e. we_source e = source \<and> we_created_at e \<ge> today) (webhook_events d));
          msgs = (\<lambda>P. count_if P (lbc_message_log d));
          msgs_today = (\<lambda>P. count_if (\<lambda>m. P m \<and> lm_created_at m \<ge> today) (lbc_message_log d));
          active = live_accounts {ACTIF, EN_CHAUFFE} d;
          connectors = sort_key cs_name (connector_status d) in
      \<lparr>ds_listings_total = length (listings d), ds_listings_today = count_if (\<lambda>l. li_created_at l \<ge> today) (listings d),
       ds_sms_sent_total = sms_total, ds_sms_sent_today = count_if (\<lambda>s. sl_sent_at s \<ge> today) (sms_log d),
       ds_calls_total = events ''call'', ds_calls_today = events_today ''call'',
       ds_sms_received_total = events ''sms'', ds_sms_received_today = events_today ''sms'',
       ds_accounts_active = active, ds_accounts_total = count_if (\<lambda>a. pa_deleted_at a = None) (platform_accounts d),
       ds_accounts_warming = live_accounts {EN_CHAUFFE} d, ds_accounts_slowed = live_accounts {RALENTI} d,
       ds_accounts_blocked = live_accounts {BLOQUE} d, ds_accounts_quarantined = live_accounts {QUARANTAINE} d,
       ds_campaigns_running = count_if (\<lambda>c. ca_status c = C_RUNNING) (campaigns d),
       ds_balances = map (balance_out d) SERVICES_DEFAULT,
       ds_lbc_messages_sent_total = msgs outbound_sent, ds_lbc_messages_sent_today = msgs_today outbound_sent,
       ds_lbc_messages_received_total = msgs inbound_received, ds_lbc_messages_received_today = msgs_today inbound_received,
       ds_phones_extracted_total = msgs lm_phone_extracted, ds_phones_extracted_today = msgs_today lm_phone_extracted,
       ds_phone_extraction_rate = percent_of (msgs lm_phone_extracted) (msgs inbound_received),
       ds_sms_response_rate = percent_of (events ''sms'') sms_total,
       ds_lbc_response_rate = percent_of (msgs inbound_received) (msgs outbound_sent),
       ds_connectors = connectors,
       ds_actions_required = build_action_items connectors (int active) (lbc_accounts_min_active cfg),
       ds_workflows = map dashboard_workflow_of (open_workflows d), ds_generated_at = now\<rparr>)"

section \<open>The hub\<close>

lemma broadcast_loop_undisturbed:
  assumes "\<And>i c. wv_during W i c = c" "\<And>i ws. wv_ok W i ws = ok ws"
  shows "broadcast_loop W payload i dead h =
    Some (dead @ filter (\<lambda>ws. \<not> ok ws) (drop i (hb_conns h)),
          h\<lparr>hb_sent := hb_sent h @ map (\<lambda>ws. (ws, payload)) (filter ok (drop i (hb_conns h)))\<rparr>)"
proof (induction "length (hb_conns h) - i" arbitrary: i dead h)
  case 0
  then show ?case by (simp add: broadcast_loop.simps [of W payload i])
next
  case (Suc n)
  let ?ws = "hb_conns h ! i"
  let ?h = "h\<lparr>hb_conns := wv_during W i (hb_conns h), hb_sent := (if ok ?ws then hb_sent h @ [(?ws, payload)] else hb_sent h)\<rparr>"
  have i: "i < length (hb_conns h)" "n = length (hb_conns ?h) - Suc i" using Suc.hyps(2) assms(1) by auto
  then have drop: "drop i (hb_conns h) = ?ws # drop (Suc i) (hb_conns h)" by (simp add: Cons_nth_drop_Suc)
  have "broadcast_loop W payload i dead h = broadcast_loop W payload (Suc i) (if ok ?ws then dead else dead @ [?ws]) ?h"
    using i(1) assms(2) by (simp add: broadcast_loop.simps [of W payload i] Let_def)
  also note Suc.hyps(1) [OF i(2)]
  finally show ?case using drop assms(1) by simp
qed

lemma remove_dead_distinct:
  "distinct (hb_conns h) \<Longrightarrow> distinct dead \<Longrightarrow> set dead \<subseteq> set (hb_conns h) \<Longrightarrow>
    remove_dead dead h = (Inr (), h\<lparr>hb_conns := filter (\<lambda>ws. ws \<notin> set dead) (hb_conns h)\<rparr>)"
proof (induction dead arbitrary: h)
  case (Cons ws dead)
  let ?h = "h\<lparr>hb_conns := remove1 ws (hb_conns h)\<rparr>"
  have "remove1 ws (hb_conns h) = filter (\<lambda>x. x \<noteq> ws) (hb_conns h)"
    using Cons.prems(1) by (simp add: distinct_remove1_removeAll removeAll_filter_not_eq eq_commute)
  moreover have "distinct (hb_conns ?h)" "distinct dead" "set dead \<subseteq> set (hb_conns ?h)"
    using Cons.prems by (auto simp: calculation)
  ultimately show ?case using Cons.IH [of ?h] Cons.prems(3) by (simp add: ws_disconnect_def conj_commute)
qed simp

text \<open>
  Undisturbed, a broadcast sends to every open connection once, in order, and drops those it could not
  send to.
\<close>

lemma broadcast_undisturbed:
  assumes "\<And>i c. wv_during W i c = c" "\<And>i ws. wv_ok W i ws = ok ws" "distinct (hb_conns h)"
  shows "broadcast W payload h =
    Some (Inr (), h\<lparr>hb_conns := filter ok (hb_conns h), hb_sent := hb_sent h @ map (\<lambda>ws. (ws, payload)) (filter ok (hb_conns h))\<rparr>)"
proof -
  let ?h = "h\<lparr>hb_sent := hb_sent h @ map (\<lambda>ws. (ws, payload)) (filter ok (hb_conns h))\<rparr>"
  have "remove_dead (filter (\<lambda>ws. \<not> ok ws) (hb_conns h)) ?h =
      (Inr (), ?h\<lparr>hb_conns := filter (\<lambda>ws. ws \<notin> set (filter (\<lambda>ws. \<not> ok ws) (hb_conns h))) (hb_conns ?h)\<rparr>)"
    using assms(3) by (intro remove_dead_distinct) auto
  moreover have "filter (\<lambda>ws. ws \<notin> set (filter (\<lambda>ws. \<not> ok ws) (hb_conns h))) (hb_conns h) = filter ok (hb_conns h)"
    by (intro filter_cong) auto
  ultimately show ?thesis
    by (simp add: broadcast_def broadcast_loop_undisturbed [of W ok, OF assms(1,2)])
qed

text \<open>A broadcast ends when no connection is opened meanwhile.\<close>

lemma broadcast_returns:
  assumes "\<And>i c. length (wv_during W i c) \<le> length c"
  shows "\<exists>r h'. broadcast W payload h = Some (r, h')"
proof -
  have "\<exists>x. broadcast_loop W payload i dead h = Some x" for i dead h
  proof (induction "length (hb_conns h) - i" arbitrary: i dead h rule: less_induct)
    case less
    show ?case
    proof (cases "length (hb_conns h) \<le> i")
      case False
      let ?ws = "hb_conns h ! i"
      let ?h = "h\<lparr>hb_conns := wv_during W i (hb_conns h), hb_sent := (if wv_ok W i ?ws then hb_sent h @ [(?ws, payload)] else hb_sent h)\<rparr>"
      have "length (hb_conns ?h) - Suc i < length (hb_conns h) - i" using False assms [of i "hb_conns h"] by auto
      from less [OF this, of "if wv_ok W i ?ws then dead else dead @ [?ws]"] False show ?thesis
        by (subst broadcast_loop.simps) (simp add: Let_def)
    qed (simp add: broadcast_loop.simps [of W payload i])
  qed
  from this [of 0 "[]" h] show ?thesis by (auto simp: broadcast_def split: prod.splits)
qed

text \<open>
  A client that leaves while the message is on its way: its own handler removes it from the list, and the
  broadcast, which removes it again, raises; the request that changed the balance answers with an error
  although the balance is stored.
\<close>

lemma broadcast_raises_on_leaving_client:
  "broadcast \<lparr>wv_ok = \<lambda>i ws. ws \<noteq> 1, wv_during = \<lambda>i. remove1 1\<rparr> payload \<lparr>hb_conns = [1], hb_sent = []\<rparr>
   = Some (Inl (ValueError ''list.remove(x): x not in list''), \<lparr>hb_conns = [], hb_sent = []\<rparr>)"
  by (simp add: broadcast_def broadcast_loop.simps Let_def ws_disconnect_def)

text \<open>A client that leaves after its own message makes the next one miss it.\<close>

lemma broadcast_skips_client:
  "broadcast \<lparr>wv_ok = \<lambda>i ws. True, wv_during = \<lambda>i. remove1 1\<rparr> payload \<lparr>hb_conns = [1, 2], hb_sent = []\<rparr>
   = Some (Inr (), \<lparr>hb_conns = [2], hb_sent = [(1, payload)]\<rparr>)"
  by (simp add: broadcast_def broadcast_loop.simps Let_def)

section \<open>The balances\<close>

lemma upsert_service_distinct:
  assumes "distinct (map sb_service (service_balance d))" "\<And>b. sb_service (change b) = sb_service b"
  shows "distinct (map sb_service (service_balance (upsert_service row change d)))"
  using assms by (auto simp: upsert_service_def map_update_where find_row_None_iff)

lemma upsert_service_row:
  assumes "\<And>b. sb_service (change b) = sb_service b"
  shows "find_row (\<lambda>b. sb_service b = sb_service row) (service_balance (upsert_service row change d)) =
    Some (case find_row (\<lambda>b. sb_service b = sb_service row) (service_balance d) of
            None \<Rightarrow> row\<lparr>sb_id := fresh_id d\<rparr> | Some b \<Rightarrow> change b)"
proof (cases "find_row (\<lambda>b. sb_service b = sb_service row) (service_balance d)")
  case None
  then show ?thesis by (simp add: upsert_service_def find_row_append)
next
  case (Some b)
  with find_row_SomeD [OF Some] assms show ?thesis by (simp add: upsert_service_def find_update_where)
qed

lemma upsert_service_other:
  assumes "\<And>b. sb_service (change b) = sb_service b" "service \<noteq> sb_service row"
  shows "filter (\<lambda>b. sb_service b = service) (service_balance (upsert_service row change d)) =
    filter (\<lambda>b. sb_service b = service) (service_balance d)"
proof -
  have "filter (\<lambda>b. sb_service b = service) (update_where (\<lambda>b. sb_service b = sb_service row) change xs) =
      filter (\<lambda>b. sb_service b = service) xs" for xs
    using assms by (induction xs) auto
  with assms(2) show ?thesis by (simp add: upsert_service_def)
qed

text \<open>
  The number that the cost counter stores is what the process has spent since it started, and \<open>low\<close> means
  more than five dollars of it: whatever balance an operator or another worker stored is gone, and the
  manual update of the same row calls an amount low that is below five.
\<close>

lemma tracker_overwrites:
  assumes "track_usage T inp out cost d = (c, d')"
  shows "\<exists>b. find_row (\<lambda>b. sb_service b = ''anthropic'') (service_balance d') = Some b
    \<and> sb_balance b = Some (te_round4 T (te_add T inp out cost)) \<and> sb_is_low b = (5 < te_add T inp out cost)"
proof -
  let ?row = "balance_row ''anthropic'' ''Anthropic Claude'' (Some (te_round4 T c)) ''USD'' (TRACKER_LOW_THRESHOLD < c) TRACKER_LOW_THRESHOLD (te_now T) None"
  have c: "c = te_add T inp out cost" "d' = upsert_service ?row (set_balance (Some (te_round4 T c)) (TRACKER_LOW_THRESHOLD < c) (te_now T)) d"
    using assms by (auto simp: track_usage_def Let_def)
  have "find_row (\<lambda>b. sb_service b = sb_service ?row) (service_balance d') =
    Some (case find_row (\<lambda>b. sb_service b = sb_service ?row) (service_balance d) of
            None \<Rightarrow> ?row\<lparr>sb_id := fresh_id d\<rparr> | Some b \<Rightarrow> set_balance (Some (te_round4 T c)) (TRACKER_LOW_THRESHOLD < c) (te_now T) b)"
    unfolding c(2) by (rule upsert_service_row) (simp add: set_balance_def)
  then show ?thesis
    by (simp add: balance_row_def set_balance_def TRACKER_LOW_THRESHOLD_def c(1) split: option.splits)
qed

section \<open>The figures agree\<close>

lemma insort_bool:
  assumes "\<forall>y\<in>set xs. \<not> f y" "\<forall>y\<in>set ys. f y"
  shows "insort_key (f :: 'a \<Rightarrow> bool) x (xs @ ys) = (if f x then xs @ x # ys else x # xs @ ys)"
proof -
  have "insort_key f x ys = x # ys" using assms(2) by (cases ys) auto
  then show ?thesis using assms(1) by (induction xs) auto
qed

lemma sort_bool: "sort_key (f :: 'a \<Rightarrow> bool) xs = filter (\<lambda>y. \<not> f y) xs @ filter f xs"
  by (induction xs) (simp_all add: insort_bool)

text \<open>
  The actions are the critical ones, each connector that is down or misconfigured, in the order of the
  connectors, and then the warnings; nothing is left out.
\<close>

lemma actions_ordered:
  "build_action_items cs active minimum =
     concat (map connector_action (filter (\<lambda>c. cs_status c \<in> {CONN_DOWN, CONN_MISCONFIGURED}) cs))
     @ concat (map connector_action (filter (\<lambda>c. cs_status c = CONN_DEGRADED) cs))
     @ filter (\<lambda>i. ai_code i = ''accounts.pool_below_minimum'') (build_action_items [] active minimum)"
proof -
  have "filter (\<lambda>i. ai_severity i = ''critical'') (concat (map connector_action cs))
      = concat (map connector_action (filter (\<lambda>c. cs_status c \<in> {CONN_DOWN, CONN_MISCONFIGURED}) cs))"
    by (induction cs) (auto simp: connector_action_def connector_severity_def)
  moreover have "filter (\<lambda>i. ai_severity i \<noteq> ''critical'') (concat (map connector_action cs))
      = concat (map connector_action (filter (\<lambda>c. cs_status c = CONN_DEGRADED) cs))"
    by (induction cs) (auto simp: connector_action_def connector_severity_def)
  ultimately show ?thesis by (simp add: build_action_items_def sort_bool)
qed

lemma count_if_mono: "(\<And>r. P r \<Longrightarrow> Q r) \<Longrightarrow> count_if P t \<le> count_if Q t"
  unfolding count_if_def by (induction t) auto

lemma count_if_split: "(\<And>r. \<not> (P r \<and> Q r)) \<Longrightarrow> count_if (\<lambda>r. P r \<or> Q r) t = count_if P t + count_if Q t"
  unfolding count_if_def by (induction t) auto

text \<open>
  The accounts in use are the active ones and those warming up, no figure of today is above its total, and
  the balances are those of the four services, in their order.
\<close>

lemma dashboard_consistent:
  fixes cfg now d
  defines "s \<equiv> get_dashboard cfg now d"
  shows "ds_accounts_active s = live_accounts {ACTIF} d + ds_accounts_warming s"
    and "ds_accounts_active s + ds_accounts_slowed s + ds_accounts_blocked s + ds_accounts_quarantined s \<le> ds_accounts_total s"
    and "ds_listings_today s \<le> ds_listings_total s" "ds_sms_sent_today s \<le> ds_sms_sent_total s"
    and "ds_calls_today s \<le> ds_calls_total s" "ds_sms_received_today s \<le> ds_sms_received_total s"
    and "map so_service (ds_balances s) = [''smstools'', ''iproxy'', ''browseruse'', ''anthropic'']"
proof -
  let ?n = "\<lambda>S. live_accounts S d"
  have union: "?n (S \<union> T) = ?n S + ?n T" if "S \<inter> T = {}" for S T
  proof -
    have "count_if (\<lambda>a. (pa_deleted_at a = None \<and> pa_status a \<in> S) \<or> (pa_deleted_at a = None \<and> pa_status a \<in> T)) (platform_accounts d)
        = ?n S + ?n T"
      unfolding live_accounts_def using that by (intro count_if_split) auto
    then show ?thesis by (simp add: live_accounts_def conj_disj_distribL)
  qed
  show "ds_accounts_active s = live_accounts {ACTIF} d + ds_accounts_warming s"
    using union [of "{ACTIF}" "{EN_CHAUFFE}"] by (simp add: s_def get_dashboard_def Let_def insert_commute)
  have "?n {ACTIF, EN_CHAUFFE} + ?n {RALENTI} + ?n {BLOQUE} + ?n {QUARANTAINE} = ?n {QUARANTAINE, BLOQUE, RALENTI, ACTIF, EN_CHAUFFE}"
    using union [of "{ACTIF, EN_CHAUFFE}" "{RALENTI}"] union [of "{RALENTI, ACTIF, EN_CHAUFFE}" "{BLOQUE}"]
      union [of "{BLOQUE, RALENTI, ACTIF, EN_CHAUFFE}" "{QUARANTAINE}"] by simp
  also have "\<dots> \<le> count_if (\<lambda>a. pa_deleted_at a = None) (platform_accounts d)"
    unfolding live_accounts_def by (rule count_if_mono) simp
  finally show "ds_accounts_active s + ds_accounts_slowed s + ds_accounts_blocked s + ds_accounts_quarantined s \<le> ds_accounts_total s"
    by (simp add: s_def get_dashboard_def Let_def)
  show "ds_listings_today s \<le> ds_listings_total s" "ds_sms_sent_today s \<le> ds_sms_sent_total s"
    by (simp_all add: s_def get_dashboard_def Let_def count_if_def)
  show "ds_calls_today s \<le> ds_calls_total s" "ds_sms_received_today s \<le> ds_sms_received_total s"
    by (auto simp: s_def get_dashboard_def Let_def intro!: count_if_mono)
  have "so_service (balance_out d x) = fst x" for x
    by (cases x) (auto simp: balance_out_def split: option.splits dest!: map_of_SomeD)
  then show "map so_service (ds_balances s) = [''smstools'', ''iproxy'', ''browseruse'', ''anthropic'']"
    by (simp add: s_def get_dashboard_def Let_def SERVICES_DEFAULT_def)
qed

end
