(* ===== verification/Spec2Isabelle.thy ===== *)
theory Spec2Isabelle
  imports Config Resource_Lock Warm_Up Blacklist_Store Phone_Extractor Campaign_Runner Campaign_Control
    Workflow_Control Operator_Runs Inbound Email Phone_Operations Sector_Collection Lbc_Messaging
    Tasks Vehicle_Analyzer Dashboard
begin

text \<open>
  Verification development of the automation back end in \<open>src/app\<close>: it collects car advertisements,
  extracts the phone numbers of the sellers, writes to them by SMS and through the messages of
  Leboncoin, follows up, honours STOP, and keeps the accounts, numbers and mail addresses all this needs.

  \<^bold>\<open>How the program is put together.\<close> A FastAPI application (\<open>main.py\<close>, \<open>api/\<close>) and signed webhooks
  (\<open>webhooks/\<close>) call services (\<open>services/\<close>) that read and write one PostgreSQL database (\<open>tables.py\<close>,
  \<open>db.py\<close>) in short transactions. Long work runs in Celery workers (\<open>tasks.py\<close>), which a command
  dispatches after its transaction, or the beat at a fixed period. Calls to outside services go through
  \<open>boundaries.py\<close> and \<open>browser_use_cloud.py\<close>. Several workers and requests run at the same time, so
  between two transactions of a service any other session may change the database.

  \<^bold>\<open>How it is modelled.\<close> The database is a record with one list per table (\<open>Tables.db\<close>); the enumerations
  of \<open>models.py\<close> are datatypes (\<open>Models\<close>). \<open>async with get_db()\<close> is \<open>Tables.session\<close>: an error gives the
  database back as it was. An exception is a value of \<open>Prelude.exn\<close>, a fallible operation returns
  \<open>exn + 'a\<close>. What a session of another worker does at a point without a transaction is a function from
  databases to databases in the environment of the operation (\<open>re_status\<close>, \<open>re_check\<close>, \<open>re_pause\<close>, \<open>le_during\<close>,
  \<open>ce_before_release\<close>, \<open>av_others\<close>, \<open>ie_others\<close>, \<open>xe_others\<close>, \<open>va_others\<close>), and a
  theorem that needs something of it says so. Clocks, random values and the replies of
  services are parameters, by the number of the interaction where there are several. Time is an integer
  number of microseconds since the epoch, a UUID a natural number, JSON the datatype \<open>json\<close>. Texts are
  lists of characters, the code points 0 to 255. \<open>hashlib\<close> and \<open>hmac\<close> are computed (\<open>Sha256\<close>); no theorem
  assumes that digests do not collide. The order in which SQL gives rows without \<open>ORDER BY\<close> is the order of
  the table. The time zone database, \<open>phonenumbers\<close>, the browsers, the HTTP services, Redis and the Celery
  broker are parameters.

  \<^bold>\<open>The theories\<close>, each opening with what it holds:
  \<^item> \<open>Prelude\<close>, \<open>Ledger\<close>, \<open>Commands\<close>, \<open>Provider_Poll\<close>: shared types, list and table lemmas (\<open>table_simps\<close>), and
    the interfaces as locales: \<open>str_enum\<close> (a text enumeration), \<open>ledger\<close> (at most once per recorded key),
    \<open>idempotent_command\<close> and \<open>keyed_run\<close> (commands with an idempotency key), and the polling loop.
  \<^item> \<open>Models\<close>, \<open>Tables\<close>, \<open>Config\<close>: \<open>models.py\<close> (enumerations and the inputs with rules), \<open>tables.py\<close>, \<open>config.py\<close>.
  \<^item> \<open>Formatting\<close>, \<open>Patterns\<close>, \<open>Redaction\<close>, \<open>Sha256\<close>: what is used of Python's texts, \<open>str.format\<close>, regular
    expressions, \<open>LIKE\<close>, the redaction of tokens, and SHA-256 with HMAC on words that wrap.
  \<^item> \<open>Resource_Lock\<close> (\<open>resource_lock.py\<close>; locales \<open>lockable\<close>, \<open>lease\<close>), \<open>Blacklist_Store\<close> (\<open>blacklist.py\<close>; \<open>stop_list\<close>),
    \<open>Phone_Extractor\<close>, \<open>Warm_Up\<close>: the services without outside calls.
  \<^item> \<open>Campaign_Runner\<close>, \<open>Sms_Sequence\<close>, \<open>Lbc_Messaging\<close>: the three senders, \<open>campaign_runner.py\<close>,
    \<open>sms_sequence.py\<close>, \<open>lbc_messaging.py\<close>, as loops over turns with a log of the calls.
  \<^item> \<open>Inbound\<close>, \<open>Email\<close>, \<open>Security\<close>: \<open>sms_inbox.py\<close>, \<open>call_history.py\<close>, \<open>email_inbox.py\<close>, \<open>email_identities.py\<close>,
    their webhooks, and \<open>security.py\<close>.
  \<^item> \<open>Campaign_Control\<close>, \<open>Workflow_Control\<close>, \<open>Account_Control\<close>, \<open>Operator_Runs\<close>, \<open>Connector_Monitor\<close>: the
    operator's commands, \<open>campaign_control.py\<close>, \<open>workflow_control.py\<close>, \<open>account_control.py\<close>, \<open>operations.py\<close>,
    \<open>analyzer_control.py\<close>, \<open>experimental_lab.py\<close>, \<open>browser_use_workflows.py\<close>, \<open>connector_monitor.py\<close>.
  \<^item> \<open>Boundaries\<close>, \<open>Phone_Operations\<close>, \<open>Account_Creation\<close>: \<open>boundaries.py\<close>, \<open>phone_operations.py\<close>, \<open>account_creation.py\<close>.
  \<^item> \<open>Scraper\<close>, \<open>Listing_Persistence\<close>, \<open>Sector_Collection\<close>: \<open>scraper.py\<close>, \<open>listing_persistence.py\<close>,
    \<open>sector_collection.py\<close>.
  \<^item> \<open>Apify_Base\<close>, \<open>Apify_Lead\<close>: \<open>apify_secrets.py\<close> and what the Apify services share, and \<open>apify_normalizer.py\<close>,
    the choice of a number and of the other fields from a payload.
  \<^item> \<open>Apify_Import\<close>, \<open>Apify_Runs\<close>: \<open>apify_ingestion.py\<close>, one transaction per item of a dataset, and
    \<open>apify_runs.py\<close> with \<open>webhooks/apify.py\<close>, launch, webhook, reconciliation and replay.
  \<^item> \<open>Apify_Learning\<close>, \<open>Apify_Accounts\<close>, \<open>Apify_Breaker\<close>: \<open>apify_learning.py\<close>, \<open>apify_accounts.py\<close> (commands on
    accounts and bindings with their webhooks at Apify), and the circuit breaker of \<open>tasks.py\<close>.
  \<^item> \<open>Tasks\<close>: the Celery tasks of \<open>tasks.py\<close> that retry, record a final failure or queue further tasks, the routes
    and the beat.
  \<^item> \<open>Vehicle_Analyzer\<close>, \<open>Dashboard\<close>: \<open>vehicle_analyzer.py\<close> with \<open>api/analyzer.py\<close>; \<open>ws.py\<close>, \<open>webhooks/funds.py\<close>,
    \<open>balance_poller.py\<close>, \<open>anthropic_tracker.py\<close> and \<open>api/dashboard.py\<close>.

  \<^bold>\<open>What the lemmas show.\<close> For the senders: to whom, how often and with what text they write, under any
  interference that the statement allows, and that their counters agree with the calls they made. For the
  locks and leases: mutual exclusion and release. For commands and webhooks: what a command commits on every
  branch, and that a repeated one does nothing. For the tables: invariants kept by every operation. For
  the loops: that they return. A number of theorems state how the code fails where it does: messages sent
  again after a rollback, campaigns that never end, a proxy check that no proxy passes. \<open>PROJECT.json\<close> lists
  the findings with their places.

  \<^bold>\<open>Bounds and loops.\<close> Loops over lists are structural recursion. Polling loops are \<open>partial_function (option)\<close>
  whose \<open>None\<close> is a loop that does not end, and a theorem gives the condition under which they return: a
  positive interval, or a clock that advances. No fuel is used. Widths matter in SHA-256 only, where the
  words have 8 and 32 bits.

  \<^bold>\<open>Not modelled.\<close> The TypeScript front end, the migrations, tests, scripts and \<open>lab/\<close>; the thin routes of
  \<open>api/\<close> that copy rows to responses; \<open>main.py\<close> and \<open>schema_sync.py\<close> (start-up and transport); the tasks that
  only run one service; the client libraries of Apify, Anthropic and Browser Use (of Apify's, that one
  call of a start sends up to six requests is in \<open>Apify_Runs\<close>), and the parts of the scrapers that run inside a
  browser. Lengths of text columns, foreign keys without a check in the code, and the isolation level below
  the transaction are left out; each theory says what it leaves to a parameter.
\<close>


end
